(* ===== verification/Prelude.thy ===== *)
theory Prelude
  imports "HOL-Library.Word" "HOL-Library.Signed_Division"
begin

text \<open>
  Shared vocabulary of the development: the machine types of the C++ sources, counting loops as
  index lists, C++ integer division, little-endian byte views of words, and the facts about
  folds and list updates that every component proof uses.
\<close>

unbundle bit_operations_syntax

section \<open>Machine types\<close>

type_synonym byte = "8 word"
type_synonym bytes = "byte list"
type_synonym u16 = "16 word"
type_synonym u32 = "32 word"
type_synonym u64 = "64 word"
type_synonym u256 = "256 word"

section \<open>Collections of facts\<close>

text \<open>
  \<open>cxx_arith\<close> holds the facts that turn C++ remainders into mathematical ones, \<open>byte_view\<close> the
  lengths and entries of byte views, \<open>step_defs\<close> the definitions of the operations of the state
  machines of the development.
\<close>

named_theorems cxx_arith
named_theorems byte_view
named_theorems step_defs

section \<open>Counting loops\<close>

text \<open>
  The indices a loop \<^verbatim>\<open>for (i = lo; i < hi; i += step)\<close> visits, in order, and those of a loop
  \<^verbatim>\<open>for (i = n; i > 0; i >>= 1)\<close>.
\<close>

function for_list :: "nat \<Rightarrow> nat \<Rightarrow> nat \<Rightarrow> nat list" where
  "for_list lo hi step =
     (if lo < hi \<and> 0 < step then lo # for_list (lo + step) hi step else [])"
  by pat_completeness auto
termination
  by (relation "measure (\<lambda>(lo, hi, step). hi - lo)") auto

declare for_list.simps [simp del]

fun halvings :: "nat \<Rightarrow> nat list" where
  "halvings n = (if n = 0 then [] else n # halvings (n div 2))"

declare halvings.simps [simp del]

section \<open>C++ integer division\<close>

text \<open>
  The remainder of C++ takes the sign of the dividend; \<open>crem\<close> is that remainder on the
  mathematical values (the library's \<open>smod\<close>).
\<close>

definition crem :: "int \<Rightarrow> int \<Rightarrow> int" where
  "crem a m = a smod m"

definition cdiv :: "int \<Rightarrow> int \<Rightarrow> int" where
  "cdiv a m = a sdiv m"

section \<open>Bytes of words\<close>

text \<open>
  \<open>le_bytes n w\<close> is the list of the \<open>n\<close> low bytes of a word, low byte first, as the loops
  \<^verbatim>\<open>out[i] = (v >> (8 * i)) & 0xFF\<close> and \<^verbatim>\<open>memcpy\<close> on a little-endian host produce;
  \<open>le_word\<close> is the loop \<^verbatim>\<open>v |= uint64_t(in[i]) << (8 * i)\<close> that reads them back.
\<close>

definition le_bytes :: "nat \<Rightarrow> 'a::len word \<Rightarrow> bytes" where
  "le_bytes n w = map (\<lambda>i. ucast (drop_bit (8 * i) w AND 0xFF)) [0..<n]"

definition le_word :: "bytes \<Rightarrow> 'a::len word" where
  "le_word bs = fold (\<lambda>i acc. acc OR push_bit (8 * i) (ucast (bs ! i))) [0..<length bs] 0"

text \<open>\<^verbatim>\<open>((uint8_t*)state)[k] ^= v\<close> on a little-endian machine, and the bytes of the state.\<close>

definition xor_state_byte :: "nat \<Rightarrow> byte \<Rightarrow> u64 list \<Rightarrow> u64 list" where
  "xor_state_byte k v state = state[k div 8 := state ! (k div 8) XOR push_bit (8 * (k mod 8)) (ucast v)]"

definition state_bytes :: "u64 list \<Rightarrow> bytes" where
  "state_bytes state = concat (map (le_bytes 8) state)"

definition state_byte :: "u64 list \<Rightarrow> nat \<Rightarrow> byte" where
  "state_byte state k = ucast (drop_bit (8 * (k mod 8)) (state ! (k div 8)))"

section \<open>Facts about loops\<close>

lemma for_list_unfold:
  "0 < step \<Longrightarrow> for_list lo hi step = (if lo < hi then lo # for_list (lo + step) hi step else [])"
  by (subst for_list.simps) simp

lemma for_list_blocks:
  assumes "0 < step"
  shows "for_list (step * b) (step * (b + n)) step = map (\<lambda>i. step * (b + i)) [0..<n]"
proof (induction n arbitrary: b)
  case 0
  then show ?case by (simp add: for_list_unfold [OF assms])
next
  case (Suc n)
  have "for_list (step * b) (step * (b + Suc n)) step
      = step * b # for_list (step * b + step) (step * (b + Suc n)) step"
    using assms by (subst for_list_unfold [OF assms]) (simp add: add_mult_distrib2)
  also have "\<dots> = step * b # for_list (step * Suc b) (step * (Suc b + n)) step"
    by (simp add: algebra_simps)
  also have "\<dots> = step * b # map (\<lambda>i. step * (Suc b + i)) [0..<n]"
    by (simp only: Suc.IH)
  also have "\<dots> = map (\<lambda>i. step * (b + i)) [0..<Suc n]"
    by (simp add: upt_conv_Cons map_Suc_upt [symmetric] del: upt_Suc)
  finally show ?case .
qed

corollary for_list_zero:
  "0 < step \<Longrightarrow> for_list 0 (step * n) step = map (\<lambda>i. step * i) [0..<n]"
  using for_list_blocks [of step 0 n] by simp

lemma fold_invariant:
  assumes "P s" and "\<And>x s. x \<in> set xs \<Longrightarrow> P s \<Longrightarrow> P (f x s)"
  shows "P (fold f xs s)"
  using assms by (induction xs arbitrary: s) auto

lemma fold_upt_Suc: "fold f [0..<Suc n] s = f n (fold f [0..<n] s)"
  by simp

text \<open>A loop that assigns a range of an array, upwards or downwards.\<close>

lemma fold_list_update_range:
  assumes "b + m \<le> length h"
  shows "fold (\<lambda>i h. h[b + i := f i]) [0..<m] h = take b h @ map f [0..<m] @ drop (b + m) h"
  using assms
proof (induction m)
  case 0
  then show ?case by simp
next
  case (Suc m)
  then have "drop (b + m) h = h ! (b + m) # drop (Suc (b + m)) h" by (simp add: Cons_nth_drop_Suc)
  with Suc show ?case by (simp add: list_update_append min_def)
qed

lemma fold_list_update_rev:
  assumes "length h = n" and "m \<le> n"
  shows "fold (\<lambda>i h. h[n - 1 - i := f i]) [0..<m] h = take (n - m) h @ rev (map f [0..<m])"
  using assms(2)
proof (induction m)
  case 0
  with assms(1) show ?case by simp
next
  case (Suc m)
  then have m: "m < length h" using assms(1) by simp
  define k where "k = n - Suc m"
  have k: "n - m = Suc k" "k < length h" "n - 1 - m = k" using Suc.prems assms(1) by (auto simp: k_def)
  have "fold (\<lambda>i h. h[n - 1 - i := f i]) [0..<Suc m] h
      = (take (Suc k) h @ rev (map f [0..<m]))[k := f m]"
    using Suc k(3) by (simp add: k(1))
  also have "\<dots> = take k h @ rev (map f [0..<Suc m])"
    using k(2) by (simp add: take_Suc_conv_app_nth list_update_append)
  finally show ?case by (simp add: k_def)
qed

lemma fold_nth: "fold (\<lambda>i. f (xs ! i)) [0..<length xs] s = fold f xs s"
  by (metis (no_types, lifting) comp_def fold_map map_nth fold_cong)

text \<open>Rules that unfold a concrete index range into numerals.\<close>

lemma upt_0_numeral: "[0..<numeral n] = 0 # [Suc 0..<numeral n]"
  by (simp add: upt_rec)

lemma upt_1_numeral: "[Suc 0..<numeral n] = (if (1 :: nat) < numeral n then 1 # [2..<numeral n] else [])"
  by (subst upt_rec) (simp add: numeral_2_eq_2)

lemmas upt_numerals = upt_0_numeral upt_1_numeral upt_rec_numeral

section \<open>Facts about C++ division\<close>

lemma crem_nonneg [cxx_arith]: "0 \<le> a \<Longrightarrow> 0 < m \<Longrightarrow> crem a m = a mod m"
  by (simp add: crem_def smod_mod_positive)

lemma crem_eq: "crem a m = a - cdiv a m * m"
  using sdiv_mult_smod_eq [of a m] by (simp add: crem_def cdiv_def algebra_simps)

lemma crem_mod [cxx_arith, simp]: "crem a m mod m = a mod m"
proof -
  have "crem a m mod m = (a - cdiv a m * m) mod m" by (simp add: crem_eq)
  also have "\<dots> = a mod m" by (metis mod_mult_self1 diff_conv_add_uminus mult_minus_left)
  finally show ?thesis .
qed

lemma crem_abs: "0 < m \<Longrightarrow> \<bar>crem a m\<bar> < m"
  using smod_int_range [of m a] by (auto simp: crem_def)

text \<open>Adding the modulus to a negative C++ remainder gives the mathematical one.\<close>

lemma crem_fix [cxx_arith]:
  assumes "0 < m"
  shows "(if crem a m < 0 then crem a m + m else crem a m) = a mod m"
proof -
  have m: "crem a m mod m = a mod m" by simp
  have b: "\<bar>crem a m\<bar> < m" by (rule crem_abs [OF assms])
  show ?thesis
  proof (cases "crem a m < 0")
    case True
    then have "crem a m + m = (crem a m + m) mod m" using b by (intro mod_pos_pos_trivial [symmetric]) auto
    with True m show ?thesis by simp
  next
    case False
    then have "crem a m = crem a m mod m" using b by (intro mod_pos_pos_trivial [symmetric]) auto
    with False m show ?thesis by simp
  qed
qed

section \<open>Facts about byte views\<close>

lemma unat_bound: "unat w < 2 ^ LENGTH('a)" for w :: "'a::len word"
  by (rule unsigned_less)

lemma unat_of_nat_small: "n < 2 ^ LENGTH('a) \<Longrightarrow> unat (of_nat n :: 'a::len word) = n"
  by (simp add: unsigned_of_nat take_bit_nat_eq_self)

lemma unat_exp: "k < LENGTH('a) \<Longrightarrow> unat (2 ^ k :: 'a::len word) = 2 ^ k"
  using unat_of_nat_small [of "2 ^ k", where 'a = 'a] by (simp add: power_strict_increasing)

lemma unat_ucast_up:
  fixes w :: "'a::len word"
  assumes "LENGTH('a) \<le> LENGTH('b::len)"
  shows "unat (ucast w :: 'b word) = unat w"
proof -
  have "unat w < 2 ^ LENGTH('b)"
    by (rule less_le_trans [OF unat_bound power_increasing [OF assms]]) simp
  then show ?thesis by (simp add: unsigned_ucast_eq take_bit_nat_eq_self)
qed

lemma word_xor_eq_0: "a XOR b = 0 \<longleftrightarrow> a = b" for a b :: "'a::len word"
  by (metis xor.assoc xor.commute xor.right_neutral xor_self_eq)

lemma concat_pairs_nth:
  assumes "i < length xs" and "\<And>x. x \<in> set xs \<Longrightarrow> length x = 2"
  shows "concat xs ! (i * 2) = xs ! i ! 0" and "concat xs ! (i * 2 + 1) = xs ! i ! 1"
  using assms
  by (induction xs arbitrary: i) (auto simp: nth_append less_Suc_eq_0_disj split: nat.splits)

lemma length_le_bytes [simp, byte_view]: "length (le_bytes n w) = n"
  by (simp add: le_bytes_def)

lemma nth_le_bytes [byte_view]: "i < n \<Longrightarrow> le_bytes n w ! i = ucast (drop_bit (8 * i) w AND 0xFF)"
  by (simp add: le_bytes_def)

lemma bit_0xFF: "bit (0xFF :: 'a::len word) k \<longleftrightarrow> k < 8 \<and> k < LENGTH('a)"
proof -
  have "(0xFF :: 'a word) = mask 8" by (simp add: mask_eq_exp_minus_1)
  then show ?thesis by (simp only: bit_mask_iff) (auto simp: min_def)
qed

lemma bit_0x0F: "bit (0x0F :: 'a::len word) k \<longleftrightarrow> k < 4 \<and> k < LENGTH('a)"
proof -
  have "(0x0F :: 'a word) = mask 4" by (simp add: mask_eq_exp_minus_1)
  then show ?thesis by (simp only: bit_mask_iff) (auto simp: min_def)
qed

lemma bit_nth_le_bytes:
  fixes w :: "'a::len word"
  assumes "i < n" and "k < 8"
  shows "bit (le_bytes n w ! i) k \<longleftrightarrow> bit w (8 * i + k)"
  using assms
  by (auto simp: nth_le_bytes bit_0xFF bit_and_iff bit_drop_bit_eq bit_ucast_iff
      dest: bit_imp_le_length simp del: bit_numeral_word_iff)

lemma bit_fold_or:
  fixes f :: "nat \<Rightarrow> 'a::len word"
  shows "bit (fold (\<lambda>i acc. acc OR f i) [0..<n] a) k \<longleftrightarrow> bit a k \<or> (\<exists>i<n. bit (f i) k)"
  by (induction n) (auto simp: bit_or_iff less_Suc_eq)

lemma bit_le_word:
  "bit (le_word bs :: 'a::len word) k \<longleftrightarrow>
     k < LENGTH('a) \<and> k div 8 < length bs \<and> bit (bs ! (k div 8)) (k mod 8)"
proof -
  have *: "bit (push_bit (8 * i) (ucast (bs ! i)) :: 'a word) k \<longleftrightarrow>
      k < LENGTH('a) \<and> i = k div 8 \<and> bit (bs ! i) (k mod 8)" for i
  proof (cases "8 * i \<le> k \<and> k < 8 * i + 8")
    case True
    then have "k div 8 = i" by auto
    moreover from this have "k mod 8 = k - 8 * i" by (simp add: minus_mult_div_eq_mod [symmetric])
    ultimately have "k div 8 = i" and "k mod 8 = k - 8 * i" by blast+
    with True show ?thesis by (auto simp: bit_simps dest: bit_imp_le_length)
  next
    case False
    then have "k div 8 \<noteq> i" by auto
    with False show ?thesis by (auto simp: bit_simps dest: bit_imp_le_length)
  qed
  show ?thesis by (auto simp: le_word_def bit_fold_or *)
qed

lemma le_bytes_le_word:
  assumes "8 * length bs \<le> LENGTH('a::len)"
  shows "le_bytes (length bs) (le_word bs :: 'a word) = bs"
proof (rule nth_equalityI)
  fix i assume i: "i < length (le_bytes (length bs) (le_word bs :: 'a word))"
  show "le_bytes (length bs) (le_word bs :: 'a word) ! i = bs ! i"
  proof (rule bit_word_eqI)
    fix k assume "k < LENGTH(8)"
    with i assms show "bit (le_bytes (length bs) (le_word bs :: 'a word) ! i) k \<longleftrightarrow> bit (bs ! i) k"
      by (simp add: bit_nth_le_bytes bit_le_word)
  qed
qed simp

lemma le_word_le_bytes:
  assumes "LENGTH('a) = 8 * n"
  shows "le_word (le_bytes n w) = (w :: 'a::len word)"
proof (rule bit_word_eqI)
  fix k assume k: "k < LENGTH('a)"
  with assms have "k div 8 < n" by auto
  with k show "bit (le_word (le_bytes n w) :: 'a word) k \<longleftrightarrow> bit w k"
    by (simp add: bit_le_word bit_nth_le_bytes)
qed

end
