(* ===== verification/MldsaTypes.thy ===== *)
theory MldsaTypes
  imports Prelude
begin

text \<open>
  The data of \<^verbatim>\<open>BHC/src/crypto/mldsa.h\<close>: security levels, and the key and signature buffers, whose
  constructors size the buffer by the level.
\<close>

datatype MLDSA_Level = Level2 | Level3 | Level5

fun pk_size :: "MLDSA_Level \<Rightarrow> nat" where
  "pk_size Level2 = 1312"
| "pk_size Level3 = 1952"
| "pk_size Level5 = 2592"

fun sk_size :: "MLDSA_Level \<Rightarrow> nat" where
  "sk_size Level2 = 2560"
| "sk_size Level3 = 4032"
| "sk_size Level5 = 4896"

fun sig_size :: "MLDSA_Level \<Rightarrow> nat" where
  "sig_size Level2 = 2420"
| "sig_size Level3 = 3293"
| "sig_size Level5 = 4595"

record MLDSA_PublicKey =
  pk_data :: bytes
  pk_level :: MLDSA_Level

record MLDSA_SecretKey =
  sk_data :: bytes
  sk_level :: MLDSA_Level

record MLDSA_Signature =
  sig_data :: bytes
  sig_level :: MLDSA_Level

definition new_PublicKey :: "MLDSA_Level \<Rightarrow> MLDSA_PublicKey" where
  "new_PublicKey lvl = \<lparr>pk_data = replicate (pk_size lvl) 0, pk_level = lvl\<rparr>"

definition new_SecretKey :: "MLDSA_Level \<Rightarrow> MLDSA_SecretKey" where
  "new_SecretKey lvl = \<lparr>sk_data = replicate (sk_size lvl) 0, sk_level = lvl\<rparr>"

definition new_Signature :: "MLDSA_Level \<Rightarrow> MLDSA_Signature" where
  "new_Signature lvl = \<lparr>sig_data = replicate (sig_size lvl) 0, sig_level = lvl\<rparr>"

definition SecureClear :: "MLDSA_SecretKey \<Rightarrow> MLDSA_SecretKey" where
  "SecureClear sk = sk\<lparr>sk_data := replicate (length (sk_data sk)) 0\<rparr>"

text \<open>
  \<^verbatim>\<open>std::copy(src.begin(), src.end(), buf.begin())\<close>: the bytes of \<open>src\<close> over the front of the buffer.
\<close>

definition copy_into :: "bytes \<Rightarrow> bytes \<Rightarrow> bytes" where
  "copy_into src buf = src @ drop (length src) buf"

lemma copy_into_full [simp]: "length src = length buf \<Longrightarrow> copy_into src buf = src"
  by (simp add: copy_into_def)

end
