(* ===== verification/Codec.thy ===== *)
theory Codec
  imports Prelude
begin

text \<open>
  The contract of a fixed-width encoding, and what follows from it for the fields and arrays of
  encoded values that the key, signature and request formats concatenate. The encoders of fixed width
  are interpretations: little-endian integers here, hexadecimal digests in \<open>TypeBridge\<close>, packed
  polynomials in \<open>MldsaCodec\<close>.
\<close>

text \<open>
  \<open>read_vec dec width n bs\<close> is the loop that reads \<open>n\<close> consecutive fields of \<open>width\<close> elements each
  from the front of \<open>bs\<close>, advancing an offset by \<open>width\<close> every time.
\<close>

definition read_vec :: "('b list \<Rightarrow> 'a) \<Rightarrow> nat \<Rightarrow> nat \<Rightarrow> 'b list \<Rightarrow> 'a list" where
  "read_vec dec width n bs = map (\<lambda>i. dec (take width (drop (i * width) bs))) [0..<n]"

lemma length_read_vec [simp]: "length (read_vec dec width n bs) = n"
  by (simp add: read_vec_def)

lemma read_vec_Suc:
  "read_vec dec width (Suc n) bs = dec (take width bs) # read_vec dec width n (drop width bs)"
  by (simp add: read_vec_def upt_conv_Cons map_Suc_upt [symmetric] comp_def add.commute
      del: upt_Suc)

locale codec =
  fixes enc :: "'a \<Rightarrow> 'b list"
    and dec :: "'b list \<Rightarrow> 'a"
    and ok :: "'a \<Rightarrow> bool"
    and width :: nat
  assumes dec_enc: "ok x \<Longrightarrow> dec (enc x) = x"
    and length_enc: "ok x \<Longrightarrow> length (enc x) = width"
begin

lemma enc_inj: "ok x \<Longrightarrow> ok y \<Longrightarrow> enc x = enc y \<longleftrightarrow> x = y"
  using dec_enc by metis

lemma dec_take: "ok x \<Longrightarrow> dec (take width (enc x @ rest)) = x"
  by (simp add: length_enc dec_enc)

lemma length_concat_enc: "list_all ok xs \<Longrightarrow> length (concat (map enc xs)) = length xs * width"
  by (induction xs) (auto simp: length_enc)

lemma read_vec_enc:
  "list_all ok xs \<Longrightarrow> read_vec dec width (length xs) (concat (map enc xs) @ rest) = xs"
proof (induction xs)
  case Nil
  then show ?case by (simp add: read_vec_def)
next
  case (Cons x xs)
  then show ?case by (simp add: read_vec_Suc length_enc dec_enc)
qed

lemma concat_enc_inj:
  assumes "list_all ok xs" and "list_all ok ys" and "length xs = length ys"
    and "concat (map enc xs) @ r = concat (map enc ys) @ s"
  shows "xs = ys \<and> r = s"
proof -
  have "xs = read_vec dec width (length xs) (concat (map enc xs) @ r)"
    by (rule read_vec_enc [OF assms(1), symmetric])
  also have "\<dots> = read_vec dec width (length ys) (concat (map enc ys) @ s)"
    by (simp only: assms(3,4))
  also have "\<dots> = ys" by (rule read_vec_enc [OF assms(2)])
  finally show ?thesis using assms(4) by simp
qed

end

interpretation le64: codec "le_bytes 8 :: u64 \<Rightarrow> bytes" le_word "\<lambda>_. True" 8
  by unfold_locales (simp_all add: le_word_le_bytes)

interpretation le32: codec "le_bytes 4 :: u32 \<Rightarrow> bytes" le_word "\<lambda>_. True" 4
  by unfold_locales (simp_all add: le_word_le_bytes)

end
