(* ===== verification/Withdrawal.thy ===== *)
theory Withdrawal
  imports MldsaTypes Codec "HOL-Library.Sublist" "HOL-Library.Monad_Syntax"
begin

text \<open>
  Model of \<^verbatim>\<open>BHC/src/script/withdrawal_script.h\<close> and \<^verbatim>\<open>withdrawal_script.cpp\<close>: the validator that
  takes withdrawal requests of the second layer through submission, challenge, approval, execution
  and expiry; the escape hatch; the forced-exit verifier.

  What these files call but the repository does not contain is the record \<open>wenv\<close>: SHA-256 and the
  two members \<^verbatim>\<open>ImportPublicKey\<close> and \<^verbatim>\<open>VerifyDetached\<close> of the signature class. \<^verbatim>\<open>GetTime()\<close> is the
  argument \<open>now\<close> of the operations that read the clock.
\<close>

record wenv =
  sha256 :: "bytes \<Rightarrow> bytes"
  ImportPublicKey :: "MLDSA_Level \<Rightarrow> bytes \<Rightarrow> bool"
  VerifyDetached :: "MLDSA_Level \<Rightarrow> bytes \<Rightarrow> bytes \<Rightarrow> bytes \<Rightarrow> bool"

section \<open>Data\<close>

definition CHALLENGE_PERIOD_SECONDS :: u64 where
  "CHALLENGE_PERIOD_SECONDS = 7 * 24 * 60 * 60"

definition MAX_WITHDRAWAL_DELAY :: u64 where
  "MAX_WITHDRAWAL_DELAY = 24 * 60 * 60"

datatype WithdrawalStatus = PENDING | CHALLENGED | APPROVED | EXECUTED | EXPIRED | FRAUDULENT

record MerkleProof =
  siblings :: "bytes list"
  path :: u32
  leaf_hash :: bytes

record L2StateRoot =
  block_height :: u64
  state_root :: bytes
  timestamp :: u64
  anchor_tx_hash :: bytes
  confirmed :: bool

record WithdrawalRequest =
  recipient_bhc_address :: bytes
  amount :: u64
  l2_block_number :: u64
  l2_transaction_hash :: bytes
  wr_state_root :: L2StateRoot
  merkle_proof :: MerkleProof
  signature :: bytes
  mldsa_pubkey :: bytes
  request_timestamp :: u64
  status :: WithdrawalStatus
  challenge_end_time :: u64
  challenge_reason :: bytes

record FraudProof =
  l2_block_hash :: bytes
  correct_state_transition_proof :: bytes
  fraudster_pubkey :: bytes
  fraudster_signature :: bytes
  fp_timestamp :: u64

record CWithdrawalValidator =
  m_mldsa_level :: MLDSA_Level
  m_anchored_roots :: "L2StateRoot list"
  m_pending_withdrawals :: "WithdrawalRequest list"
  m_fraud_proofs :: "FraudProof list"

section \<open>Verification helpers\<close>

text \<open>
  The loop of \<^verbatim>\<open>verifyMerkleProof\<close> from sibling number \<open>i\<close> on. \<^verbatim>\<open>path\<close> is a 32-bit value, and
  \<^verbatim>\<open>path >> i\<close> is undefined for \<open>i \<ge> 32\<close>; the value \<open>None\<close> stands for that. \<open>Some None\<close> is the early
  \<^verbatim>\<open>return false\<close> on a sibling that is not 32 bytes long.
\<close>

fun merkle_loop :: "wenv \<Rightarrow> u32 \<Rightarrow> nat \<Rightarrow> bytes list \<Rightarrow> bytes \<Rightarrow> bytes option option" where
  "merkle_loop env p i [] current = Some (Some current)"
| "merkle_loop env p i (s # ss) current =
     (if length s \<noteq> 32 then Some None
      else if i \<ge> 32 then None
      else merkle_loop env p (i + 1) ss
             (if drop_bit i p AND 1 = 0 then sha256 env (current @ s) else sha256 env (s @ current)))"

definition verifyMerkleProof :: "wenv \<Rightarrow> MerkleProof \<Rightarrow> bytes \<Rightarrow> bool option" where
  "verifyMerkleProof env proof expected_root =
     (if siblings proof = [] \<or> length (leaf_hash proof) \<noteq> 32 then Some False
      else (case merkle_loop env (path proof) 0 (siblings proof) (leaf_hash proof) of
              None \<Rightarrow> None
            | Some None \<Rightarrow> Some False
            | Some (Some current) \<Rightarrow> Some (current = expected_root)))"

definition verifyStateRootAnchor :: "CWithdrawalValidator \<Rightarrow> L2StateRoot \<Rightarrow> bool" where
  "verifyStateRootAnchor v r =
     list_ex (\<lambda>anchored. block_height anchored = block_height r \<and> state_root anchored = state_root r \<and>
        confirmed anchored) (m_anchored_roots v)"

text \<open>The bytes \<^verbatim>\<open>CalculateWithdrawalId\<close> hashes, and the identifier.\<close>

definition withdrawal_data :: "WithdrawalRequest \<Rightarrow> bytes" where
  "withdrawal_data request =
     l2_transaction_hash request @ recipient_bhc_address request @ le_bytes 8 (amount request)"

definition CalculateWithdrawalId :: "wenv \<Rightarrow> WithdrawalRequest \<Rightarrow> bytes" where
  "CalculateWithdrawalId env request = sha256 env (withdrawal_data request)"

definition verifyWithdrawalSignature :: "wenv \<Rightarrow> CWithdrawalValidator \<Rightarrow> WithdrawalRequest \<Rightarrow> bool" where
  "verifyWithdrawalSignature env v request =
     (let message = CalculateWithdrawalId env request
      in if \<not> ImportPublicKey env (m_mldsa_level v) (mldsa_pubkey request) then False
         else VerifyDetached env (m_mldsa_level v) message (signature request) (mldsa_pubkey request))"

definition verifyFraudProof :: "wenv \<Rightarrow> CWithdrawalValidator \<Rightarrow> FraudProof \<Rightarrow> bool" where
  "verifyFraudProof env v proof =
     (if \<not> ImportPublicKey env (m_mldsa_level v) (fraudster_pubkey proof) then False
      else VerifyDetached env (m_mldsa_level v) (l2_block_hash proof) (fraudster_signature proof)
             (fraudster_pubkey proof))"

section \<open>Operations of the validator\<close>

definition new_CWithdrawalValidator :: "MLDSA_Level \<Rightarrow> CWithdrawalValidator" where
  "new_CWithdrawalValidator level =
     \<lparr>m_mldsa_level = level, m_anchored_roots = [], m_pending_withdrawals = [], m_fraud_proofs = []\<rparr>"

definition InitWithdrawalEpoch ::
  "CWithdrawalValidator \<Rightarrow> u64 \<Rightarrow> bytes \<Rightarrow> u64 \<Rightarrow> bool \<times> CWithdrawalValidator" where
  "InitWithdrawalEpoch v now initial_state_root start_block_height =
     (let epoch_root = \<lparr>block_height = start_block_height, state_root = initial_state_root,
            timestamp = now, anchor_tx_hash = replicate 32 0, confirmed = True\<rparr>
      in (True, v\<lparr>m_anchored_roots := [epoch_root], m_pending_withdrawals := [],
                  m_fraud_proofs := []\<rparr>))"

definition SubmitWithdrawal ::
  "wenv \<Rightarrow> CWithdrawalValidator \<Rightarrow> WithdrawalRequest \<Rightarrow> bool \<times> CWithdrawalValidator" where
  "SubmitWithdrawal env v request =
     (if \<not> verifyWithdrawalSignature env v request then (False, v)
      else if \<not> verifyStateRootAnchor v (wr_state_root request) then (False, v)
      else (True, v\<lparr>m_pending_withdrawals :=
              m_pending_withdrawals v @ [request\<lparr>status := PENDING\<rparr>]\<rparr>))"

text \<open>
  The loops of the remaining operations stop at the first entry that matches. \<open>update_first\<close> replaces
  that entry by what the loop body makes of it, or reports failure where the body returns false.
\<close>

fun update_first :: "('a \<Rightarrow> bool) \<Rightarrow> ('a \<Rightarrow> 'a option) \<Rightarrow> 'a list \<Rightarrow> bool \<times> 'a list" where
  "update_first match body [] = (False, [])"
| "update_first match body (x # xs) =
     (if match x then
        (case body x of None \<Rightarrow> (False, x # xs) | Some y \<Rightarrow> (True, y # xs))
      else (case update_first match body xs of (b, ys) \<Rightarrow> (b, x # ys)))"

definition ChallengeWithdrawal ::
  "wenv \<Rightarrow> CWithdrawalValidator \<Rightarrow> bytes \<Rightarrow> FraudProof \<Rightarrow> bool \<times> CWithdrawalValidator" where
  "ChallengeWithdrawal env v withdrawal_hash fraud_proof =
     (case update_first (\<lambda>request. CalculateWithdrawalId env request = withdrawal_hash)
         (\<lambda>request.
            if \<not> verifyFraudProof env v fraud_proof then None
            else Some (request\<lparr>status := CHALLENGED,
                   challenge_reason := correct_state_transition_proof fraud_proof\<rparr>))
         (m_pending_withdrawals v) of
        (True, ws) \<Rightarrow> (True, v\<lparr>m_pending_withdrawals := ws,
                               m_fraud_proofs := m_fraud_proofs v @ [fraud_proof]\<rparr>)
      | (False, ws) \<Rightarrow> (False, v))"

definition ApproveWithdrawal ::
  "wenv \<Rightarrow> CWithdrawalValidator \<Rightarrow> u64 \<Rightarrow> bytes \<Rightarrow> bool \<times> CWithdrawalValidator" where
  "ApproveWithdrawal env v now withdrawal_hash =
     (case update_first (\<lambda>request. CalculateWithdrawalId env request = withdrawal_hash)
         (\<lambda>request.
            if status request \<noteq> PENDING then None
            else if now < challenge_end_time request then None
            else Some (request\<lparr>status := APPROVED\<rparr>))
         (m_pending_withdrawals v) of
        (b, ws) \<Rightarrow> (b, v\<lparr>m_pending_withdrawals := ws\<rparr>))"

definition ExecuteWithdrawal ::
  "wenv \<Rightarrow> CWithdrawalValidator \<Rightarrow> bytes \<Rightarrow> bool \<times> CWithdrawalValidator" where
  "ExecuteWithdrawal env v withdrawal_hash =
     (case update_first (\<lambda>request. CalculateWithdrawalId env request = withdrawal_hash)
         (\<lambda>request.
            if status request \<noteq> APPROVED then None
            else if amount request > MAX_WITHDRAWAL_DELAY then None
            else Some (request\<lparr>status := EXECUTED\<rparr>))
         (m_pending_withdrawals v) of
        (b, ws) \<Rightarrow> (b, v\<lparr>m_pending_withdrawals := ws\<rparr>))"

text \<open>
  \<^verbatim>\<open>ExpireWithdrawal\<close> reads the clock but does not use it, and goes on to the next matching entry
  when the status of one is neither pending nor challenged.
\<close>

definition ExpireWithdrawal ::
  "wenv \<Rightarrow> CWithdrawalValidator \<Rightarrow> u64 \<Rightarrow> bytes \<Rightarrow> bool \<times> CWithdrawalValidator" where
  "ExpireWithdrawal env v now withdrawal_hash =
     (case update_first
         (\<lambda>request. CalculateWithdrawalId env request = withdrawal_hash \<and>
            (status request = PENDING \<or> status request = CHALLENGED))
         (\<lambda>request. Some (request\<lparr>status := EXPIRED\<rparr>))
         (m_pending_withdrawals v) of
        (b, ws) \<Rightarrow> (b, v\<lparr>m_pending_withdrawals := ws\<rparr>))"

definition GetWithdrawalStatus :: "wenv \<Rightarrow> CWithdrawalValidator \<Rightarrow> bytes \<Rightarrow> WithdrawalStatus" where
  "GetWithdrawalStatus env v withdrawal_hash =
     (case find (\<lambda>request. CalculateWithdrawalId env request = withdrawal_hash)
         (m_pending_withdrawals v) of
        Some request \<Rightarrow> status request
      | None \<Rightarrow> EXPIRED)"

definition GetPendingWithdrawals :: "CWithdrawalValidator \<Rightarrow> WithdrawalRequest list" where
  "GetPendingWithdrawals v = filter (\<lambda>request. status request = PENDING) (m_pending_withdrawals v)"

definition IsWithdrawalReady :: "wenv \<Rightarrow> CWithdrawalValidator \<Rightarrow> u64 \<Rightarrow> bytes \<Rightarrow> bool" where
  "IsWithdrawalReady env v now withdrawal_hash =
     list_ex (\<lambda>request. CalculateWithdrawalId env request = withdrawal_hash \<and>
        status request = PENDING \<and> challenge_end_time request \<le> now) (m_pending_withdrawals v)"

section \<open>Parsing a request\<close>

text \<open>
  \<^verbatim>\<open>ParseWithdrawalRequest\<close> builds its fields from iterator ranges of the input. \<open>slice\<close> is such a
  range: \<open>None\<close> when it reaches past the end, which the C++ does not check. The result \<open>Inl ()\<close> is an
  access outside the input, \<open>Inr None\<close> is \<^verbatim>\<open>std::nullopt\<close>. The scalars the function never assigns
  keep what memory held: they come from the argument \<open>uninit\<close>.
\<close>

definition slice :: "nat \<Rightarrow> nat \<Rightarrow> bytes \<Rightarrow> bytes option" where
  "slice offset n raw = (if offset + n \<le> length raw then Some (take n (drop offset raw)) else None)"

fun parse_siblings :: "nat \<Rightarrow> nat \<Rightarrow> bytes \<Rightarrow> bytes list option" where
  "parse_siblings 0 offset raw = Some []"
| "parse_siblings (Suc n) offset raw =
     (case slice offset 32 raw of
        None \<Rightarrow> None
      | Some s \<Rightarrow> map_option ((#) s) (parse_siblings n (offset + 32) raw))"

definition parse_fields :: "WithdrawalRequest \<Rightarrow> bytes \<Rightarrow> WithdrawalRequest option" where
  "parse_fields uninit raw =
     do {
       address \<leftarrow> slice 0 25 raw;
       amount_bytes \<leftarrow> slice 25 8 raw;
       block_bytes \<leftarrow> slice 33 8 raw;
       tx_hash \<leftarrow> slice 41 32 raw;
       count_bytes \<leftarrow> slice 73 4 raw;
       let count = unat (le_word count_bytes :: u32);
       sibs \<leftarrow> parse_siblings count 77 raw;
       let offset = 77 + 32 * count;
       sig \<leftarrow> slice offset 3293 raw;
       pk \<leftarrow> slice (offset + 3293) 1952 raw;
       time_bytes \<leftarrow> slice (offset + 3293 + 1952) 8 raw;
       let time = le_word time_bytes;
       Some \<lparr>recipient_bhc_address = address, amount = le_word amount_bytes,
             l2_block_number = le_word block_bytes, l2_transaction_hash = tx_hash,
             wr_state_root = (wr_state_root uninit)\<lparr>state_root := [], anchor_tx_hash := []\<rparr>,
             merkle_proof = \<lparr>siblings = sibs, path = path (merkle_proof uninit), leaf_hash = []\<rparr>,
             signature = sig, mldsa_pubkey = pk, request_timestamp = time, status = PENDING,
             challenge_end_time = time + CHALLENGE_PERIOD_SECONDS, challenge_reason = []\<rparr>
     }"

definition ParseWithdrawalRequest ::
  "WithdrawalRequest \<Rightarrow> bytes \<Rightarrow> unit + WithdrawalRequest option" where
  "ParseWithdrawalRequest uninit raw =
     (if length raw < 128 then Inr None
      else (case parse_fields uninit raw of None \<Rightarrow> Inl () | Some r \<Rightarrow> Inr (Some r)))"

section \<open>Escape hatch\<close>

definition EMERGENCY_WINDOW_SECONDS :: u64 where
  "EMERGENCY_WINDOW_SECONDS = 24 * 60 * 60"

record CEscapeHatchVerifier =
  m_historical_roots :: "L2StateRoot list"
  m_last_anchor_time :: u64
  m_emergency_mode :: bool

definition new_CEscapeHatchVerifier :: CEscapeHatchVerifier where
  "new_CEscapeHatchVerifier =
     \<lparr>m_historical_roots = [], m_last_anchor_time = 0, m_emergency_mode = False\<rparr>"

definition RecordAnchor :: "CEscapeHatchVerifier \<Rightarrow> L2StateRoot \<Rightarrow> CEscapeHatchVerifier" where
  "RecordAnchor e root =
     (let e = e\<lparr>m_historical_roots := m_historical_roots e @ [root],
                m_last_anchor_time := timestamp root\<rparr>
      in if length (m_historical_roots e) > 10000
         then e\<lparr>m_historical_roots := tl (m_historical_roots e)\<rparr> else e)"

definition CheckLiveness :: "CEscapeHatchVerifier \<Rightarrow> u64 \<Rightarrow> bool" where
  "CheckLiveness e current_time =
     (if current_time - m_last_anchor_time e > EMERGENCY_WINDOW_SECONDS then False else True)"

definition VerifyEscapeProof :: "CEscapeHatchVerifier \<Rightarrow> bytes \<Rightarrow> bytes \<Rightarrow> bool" where
  "VerifyEscapeProof e l2_proof bhc_address =
     (if length l2_proof < 64 then False
      else if length bhc_address \<noteq> 25 then False
      else let proof_block_number = le_word (take 8 l2_proof)
           in list_ex (\<lambda>root. block_height root = proof_block_number \<and> confirmed root)
                (m_historical_roots e))"

definition TriggerEmergencyMode :: "CEscapeHatchVerifier \<Rightarrow> CEscapeHatchVerifier" where
  "TriggerEmergencyMode e = e\<lparr>m_emergency_mode := True\<rparr>"

definition ExecuteEmergencyWithdrawal ::
  "wenv \<Rightarrow> CEscapeHatchVerifier \<Rightarrow> bytes \<Rightarrow> bytes \<Rightarrow> u64 \<Rightarrow> bytes option" where
  "ExecuteEmergencyWithdrawal env e l2_proof bhc_address amt =
     (if \<not> m_emergency_mode e then None
      else if \<not> VerifyEscapeProof e l2_proof bhc_address then None
      else Some (sha256 env (l2_proof @ bhc_address @ le_bytes 8 amt)))"

definition VerifyEscapeHatch :: "bytes \<Rightarrow> bytes \<Rightarrow> u64 \<Rightarrow> L2StateRoot list \<Rightarrow> bool" where
  "VerifyEscapeHatch l2_proof bhc_recovery_address l2_block historical_roots =
     (if length l2_proof < 64 then False
      else if length bhc_recovery_address \<noteq> 25 then False
      else list_ex (\<lambda>root. block_height root = l2_block \<and> confirmed root) historical_roots)"

section \<open>Forced exit\<close>

record CForcedExitVerifier =
  m_escape_hatch_script :: bytes
  fe_mldsa_level :: MLDSA_Level

definition new_CForcedExitVerifier :: "MLDSA_Level \<Rightarrow> CForcedExitVerifier" where
  "new_CForcedExitVerifier level =
     \<lparr>m_escape_hatch_script =
        [0x6A, 0x4B, 0x45, 0x52, 0x4E, 0x45, 0x4C, 0x5F, 0x45, 0x53, 0x43, 0x41, 0x50, 0x45],
      fe_mldsa_level = level\<rparr>"

definition VerifyForcedExitScript :: "CForcedExitVerifier \<Rightarrow> bytes \<Rightarrow> bool" where
  "VerifyForcedExitScript f exit_script =
     (if length exit_script < length (m_escape_hatch_script f) then False
      else list_all (\<lambda>i. exit_script ! i = m_escape_hatch_script f ! i)
             [0..<length (m_escape_hatch_script f)])"

definition GenerateForcedExitProof :: "wenv \<Rightarrow> bytes \<Rightarrow> bytes \<Rightarrow> bytes \<Rightarrow> bytes option" where
  "GenerateForcedExitProof env l2_state_proof fraud_evidence exit_recipient =
     (if length l2_state_proof < 32 \<or> fraud_evidence = [] \<or> length exit_recipient \<noteq> 25 then None
      else Some (sha256 env ([0x46, 0x4F, 0x52, 0x43, 0x45, 0x44] @
             l2_state_proof @ fraud_evidence @ exit_recipient)))"

end
