(* ===== verification/StateMachine.thy ===== *)
theory StateMachine
  imports Main
begin

text \<open>
  Runs of a component whose operations are a function from an operation and a state to a result and
  a new state, and two contracts for such components: an invariant every operation keeps, and a log
  of entries that are only appended or advanced in place. The validator of withdrawals, the bridge,
  the wallet, the wallet model, the options, the overview page and the main window are interpretations.
\<close>

inductive run :: "('op \<Rightarrow> 's \<Rightarrow> 'r \<times> 's) \<Rightarrow> 's \<Rightarrow> ('op \<times> 'r) list \<Rightarrow> 's \<Rightarrow> bool" for exec s0 where
  run_start: "run exec s0 [] s0"
| run_step: "run exec s0 tr s \<Longrightarrow> exec op s = (r, s') \<Longrightarrow> run exec s0 (tr @ [(op, r)]) s'"

inductive_cases run_NilE: "run exec s0 [] s"
inductive_cases run_snocE: "run exec s0 (tr @ [x]) s"

text \<open>A deterministic executor of a list of operations, and its runs.\<close>

fun exec_all :: "('op \<Rightarrow> 's \<Rightarrow> 'r \<times> 's) \<Rightarrow> 'op list \<Rightarrow> 's \<Rightarrow> ('op \<times> 'r) list \<times> 's" where
  "exec_all exec [] s = ([], s)"
| "exec_all exec (op # ops) s =
     (let (r, s') = exec op s; (tr, s'') = exec_all exec ops s' in ((op, r) # tr, s''))"

lemma run_append: "run exec s1 tr2 s2 \<Longrightarrow> run exec s0 tr1 s1 \<Longrightarrow> run exec s0 (tr1 @ tr2) s2"
proof (induction rule: run.induct)
  case run_start
  then show ?case by simp
next
  case (run_step tr s op r s')
  then show ?case using run.run_step [of exec s0 "tr1 @ tr" s op r s'] by simp
qed

lemma run_exec_all: "run exec s (fst (exec_all exec ops s)) (snd (exec_all exec ops s))"
proof (induction ops arbitrary: s)
  case Nil
  show ?case by (simp add: run.run_start)
next
  case (Cons op ops)
  obtain r s' where e: "exec op s = (r, s')" by fastforce
  have "run exec s [(op, r)] s'"
    using run.run_step [of exec s "[]" s op r s'] run.run_start [of exec s] e by simp
  with Cons [of s'] have "run exec s ([(op, r)] @ fst (exec_all exec ops s')) (snd (exec_all exec ops s'))"
    by (rule run_append)
  with e show ?case by (simp add: split_beta Let_def)
qed

lemma run_of_exec_all: "exec_all exec ops s = (tr, s') \<Longrightarrow> run exec s tr s'"
  using run_exec_all [of exec s ops] by simp

locale kept_invariant =
  fixes exec :: "'op \<Rightarrow> 's \<Rightarrow> 'r \<times> 's"
    and inv :: "'s \<Rightarrow> bool"
  assumes inv_exec: "inv s \<Longrightarrow> exec op s = (r, s') \<Longrightarrow> inv s'"
begin

lemma run_inv: "run exec s0 tr s \<Longrightarrow> inv s0 \<Longrightarrow> inv s"
  by (induction rule: run.induct) (auto intro: inv_exec)

end

text \<open>
  A log whose entries have a key that never changes and a rank that never decreases: an operation
  leaves the log alone, appends an entry, or replaces one by an entry of the same key and of at
  least the same rank. Then the first entry of a key stays the first entry of that key, and its rank
  never decreases along a run.
\<close>

locale advancing_log =
  fixes exec :: "'op \<Rightarrow> 's \<Rightarrow> 'r \<times> 's"
    and entries :: "'s \<Rightarrow> 'e list"
    and key :: "'e \<Rightarrow> 'k"
    and rank :: "'e \<Rightarrow> nat"
  assumes exec_log: "exec op s = (r, s') \<Longrightarrow>
      entries s' = entries s \<or> (\<exists>e. entries s' = entries s @ [e]) \<or>
      (\<exists>xs e e' ys. entries s = xs @ e # ys \<and> entries s' = xs @ e' # ys \<and>
         key e' = key e \<and> rank e \<le> rank e')"
begin

lemma find_append: "find P (xs @ ys) = (case find P xs of Some x \<Rightarrow> Some x | None \<Rightarrow> find P ys)"
  by (induction xs) auto

lemma first_advances:
  assumes "exec op s = (r, s')" and "find (\<lambda>e. key e = k) (entries s) = Some e"
  shows "\<exists>e'. find (\<lambda>e. key e = k) (entries s') = Some e' \<and> rank e \<le> rank e'"
  using exec_log [OF assms(1)] assms(2)
  by (elim disjE exE conjE) (auto simp: find_append split: option.splits if_splits)

lemma run_first_advances:
  assumes "run exec s0 tr s" and "find (\<lambda>e. key e = k) (entries s0) = Some e"
  shows "\<exists>e'. find (\<lambda>e. key e = k) (entries s) = Some e' \<and> rank e \<le> rank e'"
  using assms
proof (induction rule: run.induct)
  case run_start
  then show ?case by auto
next
  case (run_step tr s op r s')
  then obtain e1 where e1: "find (\<lambda>e. key e = k) (entries s) = Some e1" "rank e \<le> rank e1"
    by blast
  from first_advances [OF run_step.hyps(2) e1(1)] obtain e2
    where "find (\<lambda>e. key e = k) (entries s') = Some e2" "rank e1 \<le> rank e2" by blast
  with e1(2) show ?case by (blast intro: le_trans)
qed

text \<open>
  An operation that succeeds only when the first entry of a key has rank \<open>n\<close>, and then leaves it at a
  higher rank, succeeds at most once in a run.
\<close>

lemma run_at_most_once:
  assumes run: "run exec s0 tr s"
    and once: "\<And>s s'. exec opx s = (rx, s') \<Longrightarrow>
       \<exists>e e'. find (\<lambda>e. key e = k) (entries s) = Some e \<and> rank e = n \<and>
         find (\<lambda>e. key e = k) (entries s') = Some e' \<and> n < rank e'"
  shows "length (filter (\<lambda>x. x = (opx, rx)) tr) \<le> 1"
proof -
  have "length (filter (\<lambda>x. x = (opx, rx)) tr) \<le> 1 \<and>
    (filter (\<lambda>x. x = (opx, rx)) tr \<noteq> [] \<longrightarrow>
       (\<exists>e. find (\<lambda>e. key e = k) (entries s) = Some e \<and> n < rank e))"
    using run
  proof (induction rule: run.induct)
    case run_start
    then show ?case by simp
  next
    case (run_step tr s op r s')
    show ?case
    proof (cases "(op, r) = (opx, rx)")
      case True
      then obtain e e' where e: "find (\<lambda>e. key e = k) (entries s) = Some e" "rank e = n"
        and e': "find (\<lambda>e. key e = k) (entries s') = Some e'" "n < rank e'"
        using once [of s s'] run_step.hyps(2) by auto
      with run_step.IH have "filter (\<lambda>x. x = (opx, rx)) tr = []" by auto
      with True e' show ?thesis by simp
    next
      case False
      then have same: "filter (\<lambda>x. x = (opx, rx)) (tr @ [(op, r)]) = filter (\<lambda>x. x = (opx, rx)) tr"
        by simp
      have "\<exists>e'. find (\<lambda>e. key e = k) (entries s') = Some e' \<and> n < rank e'"
        if "find (\<lambda>e. key e = k) (entries s) = Some e" and "n < rank e" for e
        using first_advances [OF run_step.hyps(2) that(1)] that(2) by (blast intro: less_le_trans)
      with run_step.IH show ?thesis unfolding same by blast
    qed
  qed
  then show ?thesis by blast
qed

end

end
