(* ===== verification/WithdrawalSafety.thy ===== *)
theory WithdrawalSafety
  imports Withdrawal StateMachine
begin

text \<open>
  What the withdrawal validator guarantees along every sequence of its operations: withdrawals are
  paid at most once, only after their challenge period, and only when signed and anchored; and the
  soundness and completeness of its Merkle proofs and of its request parser.
\<close>

section \<open>The validator as a state machine\<close>

text \<open>The operations inside an epoch, and those of the whole life of a validator.\<close>

datatype epoch_op =
    Submit WithdrawalRequest
  | Challenge bytes FraudProof
  | Approve u64 bytes
  | Execute bytes
  | Expire u64 bytes

datatype validator_op = Init u64 bytes u64 | Epoch epoch_op

fun epoch_exec :: "wenv \<Rightarrow> epoch_op \<Rightarrow> CWithdrawalValidator \<Rightarrow> bool \<times> CWithdrawalValidator" where
  "epoch_exec env (Submit request) v = SubmitWithdrawal env v request"
| "epoch_exec env (Challenge h proof) v = ChallengeWithdrawal env v h proof"
| "epoch_exec env (Approve now h) v = ApproveWithdrawal env v now h"
| "epoch_exec env (Execute h) v = ExecuteWithdrawal env v h"
| "epoch_exec env (Expire now h) v = ExpireWithdrawal env v now h"

fun validator_exec :: "wenv \<Rightarrow> validator_op \<Rightarrow> CWithdrawalValidator \<Rightarrow> bool \<times> CWithdrawalValidator" where
  "validator_exec env (Init now root height) v = InitWithdrawalEpoch v now root height"
| "validator_exec env (Epoch op) v = epoch_exec env op v"

fun status_rank :: "WithdrawalStatus \<Rightarrow> nat" where
  "status_rank PENDING = 0"
| "status_rank APPROVED = 1"
| "status_rank EXECUTED = 2"
| "status_rank _ = 3"

definition entry_authorised :: "wenv \<Rightarrow> CWithdrawalValidator \<Rightarrow> WithdrawalRequest \<Rightarrow> bool" where
  "entry_authorised env v request \<longleftrightarrow>
     verifyWithdrawalSignature env v request \<and> verifyStateRootAnchor v (wr_state_root request)"

definition entries_authorised :: "wenv \<Rightarrow> CWithdrawalValidator \<Rightarrow> bool" where
  "entries_authorised env v \<longleftrightarrow> list_all (entry_authorised env v) (m_pending_withdrawals v)"

text \<open>
  A paid or payable entry was approved, under its own identifier and at a time not before the end of
  its challenge period, by an operation of the trace.
\<close>

definition approval_logged :: "wenv \<Rightarrow> (epoch_op \<times> bool) list \<Rightarrow> WithdrawalRequest \<Rightarrow> bool" where
  "approval_logged env tr request \<longleftrightarrow>
     (status request = APPROVED \<or> status request = EXECUTED \<longrightarrow>
        (\<exists>now. (Approve now (CalculateWithdrawalId env request), True) \<in> set tr \<and>
           challenge_end_time request \<le> now))"

section \<open>First match updates\<close>

lemma update_first_split:
  assumes "update_first m f xs = (b, ys)"
  shows "(\<not> b \<and> ys = xs) \<or>
    (b \<and> (\<exists>us x y vs. xs = us @ x # vs \<and> ys = us @ y # vs \<and> (\<forall>u\<in>set us. \<not> m u) \<and>
       m x \<and> f x = Some y))"
  using assms
proof (induction xs arbitrary: b ys)
  case Nil
  then show ?case by simp
next
  case (Cons a xs)
  show ?case
  proof (cases "m a")
    case True
    then show ?thesis
      using Cons.prems by (cases "f a") (auto intro!: exI [of _ "[]"])
  next
    case False
    obtain c zs where rec: "update_first m f xs = (c, zs)" by fastforce
    with False Cons.prems have "b = c" and "ys = a # zs" by auto
    with Cons.IH [OF rec] False show ?thesis
      by (elim disjE exE conjE) (simp, metis append_Cons set_ConsD)
  qed
qed

lemma update_first_find:
  assumes "update_first m f xs = (True, ys)" and "\<And>x y. m x \<Longrightarrow> f x = Some y \<Longrightarrow> m y"
  shows "\<exists>x y. find m xs = Some x \<and> f x = Some y \<and> find m ys = Some y"
proof -
  from update_first_split [OF assms(1)] obtain us x y vs
    where "xs = us @ x # vs" "ys = us @ y # vs" "\<forall>u\<in>set us. \<not> m u" "m x" "f x = Some y" by auto
  moreover from this assms(2) have "m y" by blast
  moreover have "find m (us @ z # vs) = Some z" if "\<forall>u\<in>set us. \<not> m u" "m z" for z
    using that by (induction us) auto
  ultimately show ?thesis by blast
qed

lemma update_first_head:
  "(\<And>u. u \<in> set us \<Longrightarrow> \<not> m u) \<Longrightarrow> m x \<Longrightarrow>
   update_first m f (us @ x # vs) =
     (case f x of None \<Rightarrow> (False, us @ x # vs) | Some y \<Rightarrow> (True, us @ y # vs))"
  by (induction us) (auto split: option.splits)

lemma withdrawal_id_update [simp]:
  "CalculateWithdrawalId env (request\<lparr>status := s\<rparr>) = CalculateWithdrawalId env request"
  "CalculateWithdrawalId env (request\<lparr>status := s, challenge_reason := c\<rparr>)
     = CalculateWithdrawalId env request"
  by (simp_all add: CalculateWithdrawalId_def withdrawal_data_def)

lemma authorised_update [simp]:
  "entry_authorised env v (request\<lparr>status := s\<rparr>) = entry_authorised env v request"
  "entry_authorised env v (request\<lparr>status := s, challenge_reason := c\<rparr>)
     = entry_authorised env v request"
  "entry_authorised env (v\<lparr>m_pending_withdrawals := ws\<rparr>) request = entry_authorised env v request"
  "entry_authorised env (v\<lparr>m_pending_withdrawals := ws, m_fraud_proofs := fs\<rparr>) request
     = entry_authorised env v request"
  by (simp_all add: entry_authorised_def verifyWithdrawalSignature_def verifyStateRootAnchor_def)

section \<open>What one operation does to the log\<close>

text \<open>
  Every operation of an epoch leaves the log as it is, appends the pending form of an authorised
  request, or moves the first entry of one identifier along one of four edges of the status graph.
\<close>

datatype edge = edge_challenge bytes | edge_approve u64 | edge_execute | edge_expire

fun along :: "edge \<Rightarrow> WithdrawalRequest \<Rightarrow> WithdrawalRequest option" where
  "along (edge_challenge c) request = Some (request\<lparr>status := CHALLENGED, challenge_reason := c\<rparr>)"
| "along (edge_approve now) request =
     (if status request \<noteq> PENDING then None
      else if now < challenge_end_time request then None
      else Some (request\<lparr>status := APPROVED\<rparr>))"
| "along edge_execute request =
     (if status request \<noteq> APPROVED then None
      else if amount request > MAX_WITHDRAWAL_DELAY then None
      else Some (request\<lparr>status := EXECUTED\<rparr>))"
| "along edge_expire request =
     (if status request = PENDING \<or> status request = CHALLENGED
      then Some (request\<lparr>status := EXPIRED\<rparr>) else None)"

lemma along_steps [step_defs]:
  "ApproveWithdrawal env v now h =
     (case update_first (\<lambda>request. CalculateWithdrawalId env request = h) (along (edge_approve now))
         (m_pending_withdrawals v) of (b, ws) \<Rightarrow> (b, v\<lparr>m_pending_withdrawals := ws\<rparr>))"
  "ExecuteWithdrawal env v h =
     (case update_first (\<lambda>request. CalculateWithdrawalId env request = h) (along edge_execute)
         (m_pending_withdrawals v) of (b, ws) \<Rightarrow> (b, v\<lparr>m_pending_withdrawals := ws\<rparr>))"
proof -
  have "along (edge_approve now) = (\<lambda>request.
      if status request \<noteq> PENDING then None
      else if now < challenge_end_time request then None
      else Some (request\<lparr>status := APPROVED\<rparr>))" by (rule ext) simp
  then show "ApproveWithdrawal env v now h =
     (case update_first (\<lambda>request. CalculateWithdrawalId env request = h) (along (edge_approve now))
         (m_pending_withdrawals v) of (b, ws) \<Rightarrow> (b, v\<lparr>m_pending_withdrawals := ws\<rparr>))"
    by (simp only: ApproveWithdrawal_def)
next
  have "along edge_execute = (\<lambda>request.
      if status request \<noteq> APPROVED then None
      else if amount request > MAX_WITHDRAWAL_DELAY then None
      else Some (request\<lparr>status := EXECUTED\<rparr>))" by (rule ext) simp
  then show "ExecuteWithdrawal env v h =
     (case update_first (\<lambda>request. CalculateWithdrawalId env request = h) (along edge_execute)
         (m_pending_withdrawals v) of (b, ws) \<Rightarrow> (b, v\<lparr>m_pending_withdrawals := ws\<rparr>))"
    by (simp only: ExecuteWithdrawal_def)
qed

lemma along_keeps:
  assumes "along ed request = Some request'"
  shows "CalculateWithdrawalId env request' = CalculateWithdrawalId env request"
    and "entry_authorised env v request' = entry_authorised env v request"
    and "status_rank (status request) \<le> status_rank (status request')"
    and "challenge_end_time request' = challenge_end_time request"
  using assms by (cases ed; auto split: if_splits; cases "status request"; simp)+

lemma along_paid:
  assumes "along ed request = Some request'" and "status request' = APPROVED \<or> status request' = EXECUTED"
  shows "(status request = APPROVED) \<or>
    (\<exists>now. ed = edge_approve now \<and> challenge_end_time request \<le> now)"
  using assms by (cases ed) (auto split: if_splits)

definition moved :: "wenv \<Rightarrow> epoch_op \<Rightarrow> bool \<Rightarrow> WithdrawalRequest list \<Rightarrow> WithdrawalRequest list \<Rightarrow> bool" where
  "moved env op b xs ys \<longleftrightarrow>
     (\<exists>us e e' vs ed. xs = us @ e # vs \<and> ys = us @ e' # vs \<and> along ed e = Some e' \<and>
        (\<forall>now. ed = edge_approve now \<longrightarrow> op = Approve now (CalculateWithdrawalId env e) \<and> b))"

lemma update_first_moved:
  assumes "update_first m f xs = (b, ys)"
    and "\<And>x y. m x \<Longrightarrow> f x = Some y \<Longrightarrow> along ed x = Some y"
    and "\<And>x now. m x \<Longrightarrow> ed = edge_approve now \<Longrightarrow> op = Approve now (CalculateWithdrawalId env x)"
  shows "ys = xs \<or> moved env op b xs ys"
  using update_first_split [OF assms(1)] unfolding moved_def
proof (elim disjE exE conjE)
  fix us x y vs
  assume "xs = us @ x # vs" "ys = us @ y # vs" "m x" "f x = Some y" "b"
  with assms(2,3) [of x] show "ys = xs \<or> (\<exists>us e e' vs ed. xs = us @ e # vs \<and> ys = us @ e' # vs \<and>
      along ed e = Some e' \<and>
      (\<forall>now. ed = edge_approve now \<longrightarrow> op = Approve now (CalculateWithdrawalId env e) \<and> b))"
    by (intro disjI2 exI [of _ us] exI [of _ x] exI [of _ y] exI [of _ vs] exI [of _ ed]) simp
qed simp

lemma epoch_exec_log:
  assumes "epoch_exec env op v = (b, v')"
  shows "m_pending_withdrawals v' = m_pending_withdrawals v \<or>
    (\<exists>request. entry_authorised env v request \<and>
       m_pending_withdrawals v' = m_pending_withdrawals v @ [request\<lparr>status := PENDING\<rparr>]) \<or>
    moved env op b (m_pending_withdrawals v) (m_pending_withdrawals v')"
proof (cases op)
  case (Submit request)
  then show ?thesis
    using assms by (auto simp: SubmitWithdrawal_def entry_authorised_def split: if_splits)
next
  case (Challenge h fp)
  obtain c ws where u: "update_first (\<lambda>request. CalculateWithdrawalId env request = h)
      (\<lambda>request. if \<not> verifyFraudProof env v fp then None
         else Some (request\<lparr>status := CHALLENGED,
                challenge_reason := correct_state_transition_proof fp\<rparr>))
      (m_pending_withdrawals v) = (c, ws)" by fastforce
  with assms Challenge have "c = b" "m_pending_withdrawals v' = (if c then ws else m_pending_withdrawals v)"
    by (auto simp: ChallengeWithdrawal_def split: bool.splits)
  moreover have "ws = m_pending_withdrawals v \<or> moved env op c (m_pending_withdrawals v) ws"
    by (rule update_first_moved [OF u, of "edge_challenge (correct_state_transition_proof fp)"])
      (auto split: if_splits)
  ultimately show ?thesis by (auto split: if_splits)
next
  case (Approve now h)
  obtain c ws where u: "update_first (\<lambda>request. CalculateWithdrawalId env request = h)
      (along (edge_approve now)) (m_pending_withdrawals v) = (c, ws)" by fastforce
  with assms Approve have "c = b" "m_pending_withdrawals v' = ws"
    by (auto simp: step_defs)
  with update_first_moved [OF u, of "edge_approve now" op env] Approve show ?thesis by auto
next
  case (Execute h)
  obtain c ws where u: "update_first (\<lambda>request. CalculateWithdrawalId env request = h)
      (along edge_execute) (m_pending_withdrawals v) = (c, ws)" by fastforce
  with assms Execute have "c = b" "m_pending_withdrawals v' = ws"
    by (auto simp: step_defs)
  with update_first_moved [OF u, of edge_execute op env] show ?thesis by auto
next
  case (Expire now h)
  obtain c ws where u: "update_first (\<lambda>request. CalculateWithdrawalId env request = h \<and>
        (status request = PENDING \<or> status request = CHALLENGED))
      (\<lambda>request. Some (request\<lparr>status := EXPIRED\<rparr>)) (m_pending_withdrawals v) = (c, ws)" by fastforce
  with assms Expire have "c = b" "m_pending_withdrawals v' = ws"
    by (auto simp: ExpireWithdrawal_def)
  with update_first_moved [OF u, of edge_expire op env] show ?thesis by auto
qed

lemma epoch_exec_advances:
  assumes "epoch_exec env op v = (b, v')"
  shows "m_pending_withdrawals v' = m_pending_withdrawals v \<or>
    (\<exists>e. m_pending_withdrawals v' = m_pending_withdrawals v @ [e]) \<or>
    (\<exists>us e e' vs. m_pending_withdrawals v = us @ e # vs \<and> m_pending_withdrawals v' = us @ e' # vs \<and>
       CalculateWithdrawalId env e' = CalculateWithdrawalId env e \<and>
       status_rank (status e) \<le> status_rank (status e'))"
  using epoch_exec_log [OF assms] unfolding moved_def
proof (elim disjE exE conjE)
  fix us e e' vs ed
  assume "m_pending_withdrawals v = us @ e # vs" "m_pending_withdrawals v' = us @ e' # vs"
    and "along ed e = Some e'"
  with along_keeps(1,3) [of ed e e'] show ?thesis by blast
qed auto

interpretation withdrawals: advancing_log "epoch_exec env" m_pending_withdrawals
  "CalculateWithdrawalId env" "\<lambda>request. status_rank (status request)" for env
  by unfold_locales (rule epoch_exec_advances)

lemma epoch_exec_unchanged:
  assumes "epoch_exec env op v = (b, v')"
  shows "m_mldsa_level v' = m_mldsa_level v" and "m_anchored_roots v' = m_anchored_roots v"
  using assms
  by (cases op; auto simp: SubmitWithdrawal_def ChallengeWithdrawal_def ApproveWithdrawal_def
      ExecuteWithdrawal_def ExpireWithdrawal_def split: prod.splits bool.splits if_splits)+

lemma entry_authorised_cong:
  "m_mldsa_level v' = m_mldsa_level v \<Longrightarrow> m_anchored_roots v' = m_anchored_roots v \<Longrightarrow>
   entry_authorised env v' request = entry_authorised env v request"
  by (simp add: entry_authorised_def verifyWithdrawalSignature_def verifyStateRootAnchor_def)

lemma epoch_exec_authorised:
  assumes "entries_authorised env v" and "epoch_exec env op v = (b, v')"
  shows "entries_authorised env v'"
proof -
  have same: "entry_authorised env v' = entry_authorised env v"
    using epoch_exec_unchanged [OF assms(2)] by (intro ext) (rule entry_authorised_cong)
  show ?thesis
    using epoch_exec_log [OF assms(2)] assms(1) along_keeps(2)
    by (auto simp: entries_authorised_def same moved_def)
qed

lemma validator_exec_authorised:
  assumes "entries_authorised env v" and "validator_exec env op v = (b, v')"
  shows "entries_authorised env v'"
proof (cases op)
  case (Init now root height)
  with assms(2) show ?thesis by (auto simp: InitWithdrawalEpoch_def entries_authorised_def)
next
  case (Epoch op')
  with assms show ?thesis by (auto intro: epoch_exec_authorised)
qed

interpretation validator: kept_invariant "validator_exec env" "entries_authorised env" for env
  by unfold_locales (rule validator_exec_authorised)

lemma approval_logged_mono:
  "approval_logged env tr request \<Longrightarrow> approval_logged env (tr @ tr') request"
  by (auto simp: approval_logged_def)

lemma epoch_exec_approval_logged:
  assumes "list_all (approval_logged env tr) (m_pending_withdrawals v)"
    and "epoch_exec env op v = (b, v')"
  shows "list_all (approval_logged env (tr @ [(op, b)])) (m_pending_withdrawals v')"
proof -
  let ?L = "approval_logged env (tr @ [(op, b)])"
  have old: "list_all ?L (m_pending_withdrawals v)"
    using assms(1) approval_logged_mono by (auto simp: list_all_iff)
  show ?thesis using epoch_exec_log [OF assms(2)] unfolding moved_def
  proof (elim disjE exE conjE)
    fix request
    assume "m_pending_withdrawals v' = m_pending_withdrawals v @ [request\<lparr>status := PENDING\<rparr>]"
    with old show ?thesis by (simp add: approval_logged_def)
  next
    fix us e e' vs ed
    assume l: "m_pending_withdrawals v = us @ e # vs" "m_pending_withdrawals v' = us @ e' # vs"
      and e': "along ed e = Some e'"
      and ap: "\<forall>now. ed = edge_approve now \<longrightarrow> op = Approve now (CalculateWithdrawalId env e) \<and> b"
    have "?L e'"
      using along_paid [OF e'] along_keeps(1) [OF e', of env] along_keeps(4) [OF e'] ap old l
      by (auto simp: approval_logged_def)
    with old l show ?thesis by simp
  qed (use old in simp)
qed

lemma run_approval_logged:
  assumes "run (epoch_exec env) v0 tr v" and "m_pending_withdrawals v0 = []"
  shows "list_all (approval_logged env tr) (m_pending_withdrawals v)"
  using assms by (induction rule: run.induct) (simp_all add: epoch_exec_approval_logged)

lemma ExecuteWithdrawal_first:
  assumes "ExecuteWithdrawal env v h = (True, v')"
  shows "\<exists>e e'. find (\<lambda>e. CalculateWithdrawalId env e = h) (m_pending_withdrawals v) = Some e \<and>
      status e = APPROVED \<and> amount e \<le> MAX_WITHDRAWAL_DELAY \<and>
      find (\<lambda>e. CalculateWithdrawalId env e = h) (m_pending_withdrawals v') = Some e' \<and>
      e' = e\<lparr>status := EXECUTED\<rparr>"
proof -
  obtain ws where u: "update_first (\<lambda>request. CalculateWithdrawalId env request = h)
      (along edge_execute) (m_pending_withdrawals v) = (True, ws)"
    and v': "v' = v\<lparr>m_pending_withdrawals := ws\<rparr>"
    using assms by (auto simp: step_defs split: prod.splits)
  have "\<exists>x y. find (\<lambda>request. CalculateWithdrawalId env request = h) (m_pending_withdrawals v) = Some x \<and>
      along edge_execute x = Some y \<and>
      find (\<lambda>request. CalculateWithdrawalId env request = h) ws = Some y"
    by (rule update_first_find [OF u]) (auto split: if_splits)
  with v' show ?thesis by (auto split: if_splits)
qed

section \<open>Properties of the validator\<close>

text \<open>A concrete environment, requests and an epoch in it.\<close>

definition toy_env :: wenv where
  "toy_env = \<lparr>sha256 = (\<lambda>bs. take 32 (bs @ replicate 32 0)),
     ImportPublicKey = (\<lambda>level pk. pk \<noteq> []), VerifyDetached = (\<lambda>level m s pk. s = pk)\<rparr>"

definition toy_root :: L2StateRoot where
  "toy_root = \<lparr>block_height = 7, state_root = [1], timestamp = 0, anchor_tx_hash = [], confirmed = True\<rparr>"

definition toy_request :: WithdrawalRequest where
  "toy_request = \<lparr>recipient_bhc_address = [3], amount = 5, l2_block_number = 7,
     l2_transaction_hash = [4], wr_state_root = toy_root,
     merkle_proof = \<lparr>siblings = [], path = 0, leaf_hash = []\<rparr>, signature = [9], mldsa_pubkey = [9],
     request_timestamp = 100, status = PENDING, challenge_end_time = 604900, challenge_reason = []\<rparr>"

definition toy_start :: CWithdrawalValidator where
  "toy_start = snd (InitWithdrawalEpoch (new_CWithdrawalValidator Level3) 50 [1] 7)"

definition toy_id :: bytes where
  "toy_id = CalculateWithdrawalId toy_env toy_request"

definition toy_ops :: "epoch_op list" where
  "toy_ops = [Submit toy_request, Approve 100 toy_id, Submit toy_request, Approve 604900 toy_id,
     Execute toy_id, Execute toy_id]"

text \<open>
  C1. A withdrawal is paid at most once: in whatever order the operations of an epoch are called and
  with whatever arguments, \<^verbatim>\<open>ExecuteWithdrawal\<close> returns true at most once for one identifier, also
  when requests with that identifier are submitted again, challenged or expired in between.
\<close>

theorem execute_at_most_once:
  assumes "run (epoch_exec env) v0 tr v"
  shows "length (filter (\<lambda>x. x = (Execute h, True)) tr) \<le> 1"
proof (rule withdrawals.run_at_most_once [OF assms, where k = h and n = 1])
  fix s s' :: CWithdrawalValidator
  assume "epoch_exec env (Execute h) s = (True, s')"
  then show "\<exists>e e'. find (\<lambda>e. CalculateWithdrawalId env e = h) (m_pending_withdrawals s) = Some e \<and>
      status_rank (status e) = 1 \<and>
      find (\<lambda>e. CalculateWithdrawalId env e = h) (m_pending_withdrawals s') = Some e' \<and>
      1 < status_rank (status e')"
    using ExecuteWithdrawal_first [of env s h s'] by auto
qed

theorem execute_at_most_once_witness:
  "length (filter (\<lambda>x. x = (Execute toy_id, True)) (fst (exec_all (epoch_exec toy_env) toy_ops toy_start))) \<le> 1
   \<and> (Execute toy_id, True) \<in> set (fst (exec_all (epoch_exec toy_env) toy_ops toy_start))"
proof
  show "(Execute toy_id, True) \<in> set (fst (exec_all (epoch_exec toy_env) toy_ops toy_start))"
    by code_simp
qed (rule execute_at_most_once [OF run_exec_all])

text \<open>
  C2. Challenge period: in every state reached from the start of an epoch, an entry that is approved or
  executed was approved by a call of \<^verbatim>\<open>ApproveWithdrawal\<close> for its identifier that succeeded at a
  time not before the end of its challenge period.
\<close>

theorem paid_after_challenge_period:
  assumes "run (epoch_exec env) (snd (InitWithdrawalEpoch v0 now0 root height)) tr v"
    and "request \<in> set (m_pending_withdrawals v)"
    and "status request = APPROVED \<or> status request = EXECUTED"
  shows "\<exists>now. (Approve now (CalculateWithdrawalId env request), True) \<in> set tr \<and>
           challenge_end_time request \<le> now"
  using run_approval_logged [OF assms(1)] assms(2,3)
  by (auto simp: InitWithdrawalEpoch_def list_all_iff approval_logged_def)

theorem paid_after_challenge_period_witness:
  "\<exists>now. (Approve now (CalculateWithdrawalId toy_env (toy_request\<lparr>status := EXECUTED\<rparr>)), True)
        \<in> set (fst (exec_all (epoch_exec toy_env) toy_ops toy_start)) \<and>
      challenge_end_time (toy_request\<lparr>status := EXECUTED\<rparr>) \<le> now"
proof (rule paid_after_challenge_period)
  show "run (epoch_exec toy_env) (snd (InitWithdrawalEpoch (new_CWithdrawalValidator Level3) 50 [1] 7))
      (fst (exec_all (epoch_exec toy_env) toy_ops toy_start))
      (snd (exec_all (epoch_exec toy_env) toy_ops toy_start))"
    unfolding toy_start_def [symmetric] by (rule run_exec_all)
  show "toy_request\<lparr>status := EXECUTED\<rparr>
      \<in> set (m_pending_withdrawals (snd (exec_all (epoch_exec toy_env) toy_ops toy_start)))"
    by code_simp
qed simp

text \<open>
  C3. Authorisation: in every state a validator reaches from its construction, over any number of
  epochs, every entry carries a valid signature of its own identifier and names a state root that is
  anchored and confirmed.
\<close>

theorem entries_always_authorised:
  assumes "run (validator_exec env) (new_CWithdrawalValidator level) tr v"
    and "request \<in> set (m_pending_withdrawals v)"
  shows "VerifyDetached env (m_mldsa_level v) (CalculateWithdrawalId env request)
           (signature request) (mldsa_pubkey request) \<and>
         (\<exists>anchored \<in> set (m_anchored_roots v).
            block_height anchored = block_height (wr_state_root request) \<and>
            state_root anchored = state_root (wr_state_root request) \<and> confirmed anchored)"
proof -
  have "entries_authorised env (new_CWithdrawalValidator level)"
    by (simp add: entries_authorised_def new_CWithdrawalValidator_def)
  from validator.run_inv [OF assms(1) this] assms(2)
  show ?thesis
    by (auto simp: entries_authorised_def entry_authorised_def list_all_iff list_ex_iff
        verifyWithdrawalSignature_def verifyStateRootAnchor_def split: if_splits)
qed

theorem entries_always_authorised_witness:
  "VerifyDetached toy_env Level3 toy_id [9] [9] \<and>
   (\<exists>anchored \<in> {\<lparr>block_height = 7, state_root = [1], timestamp = 50, anchor_tx_hash = replicate 32 0, confirmed = True\<rparr>}.
      block_height anchored = 7 \<and> state_root anchored = [1] \<and> confirmed anchored)"
proof -
  let ?v = "toy_start\<lparr>m_pending_withdrawals := [toy_request]\<rparr>"
  have "exec_all (validator_exec toy_env) [Init 50 [1] 7, Epoch (Submit toy_request)]
      (new_CWithdrawalValidator Level3)
      = ([(Init 50 [1] 7, True), (Epoch (Submit toy_request), True)], ?v)"
    by code_simp
  from entries_always_authorised [OF run_of_exec_all [OF this], of toy_request]
  show ?thesis
    by (simp add: toy_start_def InitWithdrawalEpoch_def new_CWithdrawalValidator_def toy_request_def
        toy_id_def toy_root_def)
qed

end
