(* ===== verification/WithdrawalProofs.thy ===== *)
theory WithdrawalProofs
  imports WithdrawalSafety
begin

text \<open>
  The Merkle proofs of the withdrawal validator against a binary hash tree, the parser of requests
  against the layout it reads, the way of a request from submission to payment, and the escape hatch.
\<close>

section \<open>Merkle proofs\<close>

text \<open>
  The hash tree over leaves numbered from zero: \<open>merkle_node l j\<close> is node \<open>j\<close> of level \<open>l\<close>, and
  \<open>merkle_siblings d i\<close> are the siblings on the way from leaf \<open>i\<close> to the root at level \<open>d\<close>.
\<close>

fun merkle_node :: "wenv \<Rightarrow> (nat \<Rightarrow> bytes) \<Rightarrow> nat \<Rightarrow> nat \<Rightarrow> bytes" where
  "merkle_node env leaves 0 j = leaves j"
| "merkle_node env leaves (Suc l) j =
     sha256 env (merkle_node env leaves l (2 * j) @ merkle_node env leaves l (2 * j + 1))"

definition sibling_index :: "nat \<Rightarrow> nat" where
  "sibling_index j = (if even j then j + 1 else j - 1)"

definition merkle_siblings :: "wenv \<Rightarrow> (nat \<Rightarrow> bytes) \<Rightarrow> nat \<Rightarrow> nat \<Rightarrow> bytes list" where
  "merkle_siblings env leaves d i =
     map (\<lambda>l. merkle_node env leaves l (sibling_index (i div 2 ^ l))) [0..<d]"

definition merkle_join :: "wenv \<Rightarrow> u32 \<Rightarrow> nat \<Rightarrow> bytes \<Rightarrow> bytes \<Rightarrow> bytes" where
  "merkle_join env p i current s =
     (if drop_bit i p AND 1 = 0 then sha256 env (current @ s) else sha256 env (s @ current))"

lemma merkle_loop_Cons:
  "merkle_loop env p i (s # ss) current =
     (if length s \<noteq> 32 then Some None else if i \<ge> 32 then None
      else merkle_loop env p (i + 1) ss (merkle_join env p i current s))"
  by (simp add: merkle_join_def)

declare merkle_loop.simps(2) [simp del]

lemma length_merkle_join:
  "\<forall>x. length (sha256 env x) = 32 \<Longrightarrow> length (merkle_join env p i current s) = 32"
  by (simp add: merkle_join_def)

lemma merkle_loop_collision:
  assumes "merkle_loop env p i ss c = Some (Some r)" and "merkle_loop env p i ss' c' = Some (Some r)"
    and "length ss = length ss'" and "length c = 32" and "length c' = 32"
    and h: "\<forall>x. length (sha256 env x) = 32" and "c \<noteq> c'"
  shows "\<exists>x y. x \<noteq> y \<and> length x = 64 \<and> length y = 64 \<and> sha256 env x = sha256 env y"
  using assms(1-5,7)
proof (induction ss arbitrary: i ss' c c')
  case Nil
  then show ?case by simp
next
  case (Cons s ss)
  then obtain s' tt where ss': "ss' = s' # tt" by (cases ss') auto
  let ?j = "merkle_join env p i c s" and ?j' = "merkle_join env p i c' s'"
  have len: "length s = 32" "length s' = 32"
    and rest: "merkle_loop env p (i + 1) ss ?j = Some (Some r)" "merkle_loop env p (i + 1) tt ?j' = Some (Some r)"
    using Cons.prems by (auto simp: ss' merkle_loop_Cons split: if_splits)
  show ?case
  proof (cases "?j = ?j'")
    case True
    then have "sha256 env (c @ s) = sha256 env (c' @ s') \<or> sha256 env (s @ c) = sha256 env (s' @ c')"
      by (auto simp: merkle_join_def split: if_splits)
    moreover have "c @ s \<noteq> c' @ s'" "s @ c \<noteq> s' @ c'" using len Cons.prems by auto
    ultimately show ?thesis using len Cons.prems(4,5)
      by (metis length_append numeral_Bit0)
  next
    case False
    with Cons.IH [OF rest] Cons.prems ss' h show ?thesis by (simp add: length_merkle_join)
  qed
qed

lemma length_merkle_node:
  assumes "\<forall>x. length (sha256 env x) = 32" and "\<forall>j. length (leaves j) = 32"
  shows "length (merkle_node env leaves l j) = 32"
  using assms by (cases l) auto

lemma path_bit:
  assumes "i < 2 ^ d" and "d \<le> 32" and "l < d"
  shows "drop_bit l (word_of_nat i :: u32) AND 1 = 0 \<longleftrightarrow> even (i div 2 ^ l)"
proof -
  have "i < 2 ^ 32" using assms(1,2) less_le_trans [OF assms(1)] power_increasing [of d 32 "2::nat"] by simp
  then have "unat (word_of_nat i :: u32) = i" by (simp add: unsigned_of_nat take_bit_nat_eq_self)
  then have "bit (word_of_nat i :: u32) l \<longleftrightarrow> odd (i div 2 ^ l)"
    by (metis bit_iff_odd bit_unsigned_iff possible_bit_nat)
  then show ?thesis
    by (simp add: and_one_eq bit_iff_odd_drop_bit flip: even_iff_mod_2_eq_zero)
qed

lemma merkle_join_node:
  assumes "i < 2 ^ d" and "d \<le> 32" and "l < d"
  shows "merkle_join env (word_of_nat i) l (merkle_node env leaves l (i div 2 ^ l))
      (merkle_node env leaves l (sibling_index (i div 2 ^ l)))
    = merkle_node env leaves (Suc l) (i div 2 ^ Suc l)"
proof -
  let ?j = "i div 2 ^ l"
  have "i div 2 ^ Suc l = ?j div 2" by (simp add: div_mult2_eq [symmetric] mult.commute)
  then show ?thesis
    using path_bit [OF assms]
    by (cases "even ?j") (auto simp: merkle_join_def sibling_index_def elim!: evenE oddE)
qed

lemma merkle_loop_nodes:
  assumes "i < 2 ^ d" and "d \<le> 32" and "\<forall>x. length (sha256 env x) = 32"
    and "\<forall>j. length (leaves j) = 32" and "l \<le> d"
  shows "merkle_loop env (word_of_nat i) l (drop l (merkle_siblings env leaves d i))
      (merkle_node env leaves l (i div 2 ^ l)) = Some (Some (merkle_node env leaves d 0))"
  using assms(5)
proof (induction "d - l" arbitrary: l)
  case 0
  with assms(1) show ?case by (simp add: merkle_siblings_def)
next
  case (Suc n)
  then have "l < d" by simp
  then have "drop l (merkle_siblings env leaves d i)
      = merkle_node env leaves l (sibling_index (i div 2 ^ l)) # drop (Suc l) (merkle_siblings env leaves d i)"
    by (subst Cons_nth_drop_Suc [symmetric]) (simp_all add: merkle_siblings_def)
  with Suc.hyps(1) [of "Suc l"] Suc.hyps(2) \<open>l < d\<close> assms merkle_join_node [OF assms(1,2) \<open>l < d\<close>, of env leaves]
  show ?case by (simp add: merkle_loop_Cons length_merkle_node del: merkle_node.simps)
qed


lemma length_toy_sha256: "length (sha256 toy_env x) = 32"
  by (simp add: toy_env_def min_def)

definition toy_leaf :: "nat \<Rightarrow> bytes" where
  "toy_leaf j = replicate 32 (word_of_nat j)"


text \<open>
  C6. Merkle proofs are complete: for a hash tree of depth 1 to 32 over 32-byte leaves, the proof made
  of the siblings on the way of leaf \<open>i\<close> and of the bits of \<open>i\<close> as path is accepted for its root, with
  no shift outside the 32 bits of the path.
\<close>

theorem merkle_complete:
  assumes "\<forall>x. length (sha256 env x) = 32" and "\<forall>j. length (leaves j) = 32"
    and "0 < d" and "d \<le> 32" and "i < 2 ^ d"
  shows "verifyMerkleProof env
      \<lparr>siblings = merkle_siblings env leaves d i, path = word_of_nat i, leaf_hash = leaves i\<rparr>
      (merkle_node env leaves d 0) = Some True"
proof -
  have "merkle_siblings env leaves d i \<noteq> []" using assms(3) by (simp add: merkle_siblings_def)
  with merkle_loop_nodes [OF assms(5,4,1,2), of 0] assms(2) show ?thesis
    by (simp add: verifyMerkleProof_def)
qed

theorem merkle_complete_witness:
  "verifyMerkleProof toy_env
     \<lparr>siblings = merkle_siblings toy_env toy_leaf 3 5, path = word_of_nat 5, leaf_hash = toy_leaf 5\<rparr>
     (merkle_node toy_env toy_leaf 3 0) = Some True"
  by (rule merkle_complete) (simp_all add: length_toy_sha256 toy_leaf_def)

section \<open>Requests on the wire\<close>

text \<open>
  The layout \<^verbatim>\<open>ParseWithdrawalRequest\<close> reads, as an encoder of the fields it fills, and the requests
  the layout can hold.
\<close>

definition wire_request :: "WithdrawalRequest \<Rightarrow> bytes" where
  "wire_request r =
     recipient_bhc_address r @ le_bytes 8 (amount r) @ le_bytes 8 (l2_block_number r) @
     l2_transaction_hash r @ le_bytes 4 (word_of_nat (length (siblings (merkle_proof r))) :: u32) @
     concat (siblings (merkle_proof r)) @ signature r @ mldsa_pubkey r @
     le_bytes 8 (request_timestamp r)"

definition wire_ok :: "WithdrawalRequest \<Rightarrow> bool" where
  "wire_ok r \<longleftrightarrow> length (recipient_bhc_address r) = 25 \<and> length (l2_transaction_hash r) = 32 \<and>
     length (siblings (merkle_proof r)) < 2 ^ 32 \<and> list_all (\<lambda>s. length s = 32) (siblings (merkle_proof r)) \<and>
     length (signature r) = 3293 \<and> length (mldsa_pubkey r) = 1952"

text \<open>What the parser returns for the fields it does not read.\<close>

definition parsed_view :: "WithdrawalRequest \<Rightarrow> WithdrawalRequest \<Rightarrow> WithdrawalRequest" where
  "parsed_view uninit r =
     r\<lparr>wr_state_root := (wr_state_root uninit)\<lparr>state_root := [], anchor_tx_hash := []\<rparr>,
       merkle_proof := \<lparr>siblings = siblings (merkle_proof r), path = path (merkle_proof uninit), leaf_hash = []\<rparr>,
       status := PENDING, challenge_end_time := request_timestamp r + CHALLENGE_PERIOD_SECONDS,
       challenge_reason := []\<rparr>"

lemma slice_append:
  "length pre = k \<Longrightarrow> length x = n \<Longrightarrow> slice k n (pre @ x @ post) = Some x"
  by (simp add: slice_def)

lemma parse_siblings_append:
  "list_all (\<lambda>s. length s = 32) ss \<Longrightarrow> length pre = k \<Longrightarrow>
   parse_siblings (length ss) k (pre @ concat ss @ post) = Some ss"
proof (induction ss arbitrary: pre k)
  case Nil
  then show ?case by simp
next
  case (Cons s ss)
  from Cons.IH [of "pre @ s" "k + 32"] Cons.prems show ?case
    by (simp add: slice_append)
qed

lemma length_concat_32: "list_all (\<lambda>s. length s = 32) ss \<Longrightarrow> length (concat ss) = 32 * length ss"
  by (induction ss) auto

lemma parse_fields_wire:
  assumes "wire_ok r"
  shows "parse_fields uninit (wire_request r @ rest) = Some (parsed_view uninit r)"
proof -
  obtain ad am bl tx ro si sg pk ti st ce cr where r: "r = \<lparr>recipient_bhc_address = ad, amount = am,
      l2_block_number = bl, l2_transaction_hash = tx, wr_state_root = ro, merkle_proof = si,
      signature = sg, mldsa_pubkey = pk, request_timestamp = ti, status = st,
      challenge_end_time = ce, challenge_reason = cr\<rparr>" by (cases r)
  define ss where "ss = siblings si"
  define cnt where "cnt = le_bytes 4 (word_of_nat (length ss) :: u32)"
  define a where "a = le_bytes 8 am"
  define b where "b = le_bytes 8 bl"
  define t where "t = le_bytes 8 ti"
  define raw where "raw = ad @ a @ b @ tx @ cnt @ concat ss @ sg @ pk @ t @ rest"
  note defs = ss_def cnt_def a_def b_def t_def
  have raw: "wire_request r @ rest = raw" by (simp add: raw_def wire_request_def r defs)
  have len: "length ad = 25" "length a = 8" "length b = 8" "length tx = 32" "length cnt = 4"
    "length t = 8" "length sg = 3293" "length pk = 1952" "length (concat ss) = 32 * length ss"
    and ss: "list_all (\<lambda>s. length s = 32) ss" "length ss < 2 ^ 32"
    using assms by (simp_all add: wire_ok_def r defs length_concat_32)
  have count: "unat (le_word cnt :: u32) = length ss"
    using ss(2) by (simp add: cnt_def le_word_le_bytes unsigned_of_nat take_bit_nat_eq_self)
  have words: "le_word a = am" "le_word b = bl" "le_word t = ti"
    by (simp_all add: defs le_word_le_bytes)
  have s: "slice 0 25 raw = Some ad" "slice 25 8 raw = Some a" "slice 33 8 raw = Some b"
    "slice 41 32 raw = Some tx" "slice 73 4 raw = Some cnt"
    "parse_siblings (length ss) 77 raw = Some ss"
    "slice (77 + 32 * length ss) 3293 raw = Some sg"
    "slice (77 + 32 * length ss + 3293) 1952 raw = Some pk"
    "slice (77 + 32 * length ss + 3293 + 1952) 8 raw = Some t"
    unfolding raw_def
    using slice_append [of "[]" 0 ad 25] slice_append [of ad 25 a 8] slice_append [of "ad @ a" 33 b 8]
      slice_append [of "ad @ a @ b" 41 tx 32] slice_append [of "ad @ a @ b @ tx" 73 cnt 4]
      parse_siblings_append [OF ss(1), of "ad @ a @ b @ tx @ cnt" 77]
      slice_append [of "ad @ a @ b @ tx @ cnt @ concat ss" "77 + 32 * length ss" sg 3293]
      slice_append [of "ad @ a @ b @ tx @ cnt @ concat ss @ sg" "77 + 32 * length ss + 3293" pk 1952]
      slice_append [of "ad @ a @ b @ tx @ cnt @ concat ss @ sg @ pk" "77 + 32 * length ss + 3293 + 1952" t 8]
    by (simp_all add: len)
  show ?thesis
    unfolding raw parse_fields_def
    by (simp add: s [simplified] count words Let_def parsed_view_def r flip: ss_def)
qed

lemma length_wire_request: "wire_ok r \<Longrightarrow> length (wire_request r) = 5330 + 32 * length (siblings (merkle_proof r))"
  by (simp add: wire_ok_def wire_request_def length_concat_32)

text \<open>
  C7. The request parser reads back what the layout writes: on the bytes of a request, followed by
  anything, it returns the fields of that request, pending, with the challenge period counted from
  the time stamp the request itself carries (modulo \<open>2 ^ 64\<close>).
\<close>

theorem parse_wire_request:
  assumes "wire_ok r"
  shows "ParseWithdrawalRequest uninit (wire_request r @ rest) = Inr (Some (parsed_view uninit r))"
  using parse_fields_wire [OF assms] length_wire_request [OF assms]
  by (simp add: ParseWithdrawalRequest_def)

definition toy_wire :: WithdrawalRequest where
  "toy_wire = toy_request\<lparr>recipient_bhc_address := replicate 25 3, l2_transaction_hash := replicate 32 4,
     merkle_proof := \<lparr>siblings = [replicate 32 1, replicate 32 2], path = 3, leaf_hash = []\<rparr>,
     signature := replicate 3293 9, mldsa_pubkey := replicate 1952 9\<rparr>"

theorem parse_wire_request_witness:
  "ParseWithdrawalRequest toy_request (wire_request toy_wire @ [1, 2])
     = Inr (Some (parsed_view toy_request toy_wire))"
  by (rule parse_wire_request) (simp add: wire_ok_def toy_wire_def)

lemma parse_siblings_None:
  "length raw < k + 32 * n \<Longrightarrow> 0 < n \<Longrightarrow> parse_siblings n k raw = None"
proof (induction n arbitrary: k)
  case (Suc n)
  then show ?case by (cases "n = 0") (auto simp: slice_def)
qed simp

lemma parse_fields_None:
  assumes "length raw < 5330"
  shows "parse_fields uninit raw = None"
proof -
  have "slice (77 + 32 * count + 3293 + 1952) 8 raw = None" for count
    using assms by (simp add: slice_def)
  then show ?thesis
    by (auto simp: parse_fields_def Let_def simp del: slice_def split: bind_splits)
qed

text \<open>
  The length check of the parser is too weak: every input of at least 128 and fewer than 5330
  bytes passes it and is then read outside its bounds.
\<close>

theorem parse_reads_out_of_bounds:
  assumes "128 \<le> length raw" and "length raw < 5330"
  shows "ParseWithdrawalRequest uninit raw = Inl ()"
  using assms by (simp add: ParseWithdrawalRequest_def parse_fields_None)

theorem parse_reads_out_of_bounds_witness:
  "ParseWithdrawalRequest toy_request (replicate 128 0) = Inl ()"
  by (rule parse_reads_out_of_bounds) simp_all

section \<open>From submission to payment\<close>

lemma find_first: "(\<And>u. u \<in> set us \<Longrightarrow> \<not> m u) \<Longrightarrow> m x \<Longrightarrow> find m (us @ x # vs) = Some x"
  by (induction us) auto

text \<open>
  C4. A withdrawal that should be paid is paid: a request with a valid signature and an anchored root,
  whose identifier no entry has yet and whose amount is at most the limit, is accepted, approved at
  any time from the end of its challenge period on, and executed; its status is then executed.
\<close>

theorem withdrawal_lifecycle:
  assumes "verifyWithdrawalSignature env v request" and "verifyStateRootAnchor v (wr_state_root request)"
    and "\<forall>e \<in> set (m_pending_withdrawals v). CalculateWithdrawalId env e \<noteq> CalculateWithdrawalId env request"
    and "challenge_end_time request \<le> now" and "amount request \<le> MAX_WITHDRAWAL_DELAY"
  defines "h \<equiv> CalculateWithdrawalId env request"
  shows "map snd (fst (exec_all (epoch_exec env) [Submit request, Approve now h, Execute h] v))
           = [True, True, True] \<and>
         GetWithdrawalStatus env (snd (exec_all (epoch_exec env) [Submit request, Approve now h, Execute h] v)) h
           = EXECUTED"
proof -
  let ?ws = "m_pending_withdrawals v"
  have fresh: "\<And>e. e \<in> set ?ws \<Longrightarrow> CalculateWithdrawalId env e \<noteq> h" using assms(3) by (simp add: h_def)
  have sub: "SubmitWithdrawal env v request = (True, v\<lparr>m_pending_withdrawals := ?ws @ [request\<lparr>status := PENDING\<rparr>]\<rparr>)"
    using assms(1,2) by (simp add: SubmitWithdrawal_def)
  have app: "ApproveWithdrawal env (v\<lparr>m_pending_withdrawals := ?ws @ [request\<lparr>status := PENDING\<rparr>]\<rparr>) now h
      = (True, v\<lparr>m_pending_withdrawals := ?ws @ [request\<lparr>status := APPROVED\<rparr>]\<rparr>)"
    using assms(4) fresh by (simp add: step_defs update_first_head h_def)
  have exe: "ExecuteWithdrawal env (v\<lparr>m_pending_withdrawals := ?ws @ [request\<lparr>status := APPROVED\<rparr>]\<rparr>) h
      = (True, v\<lparr>m_pending_withdrawals := ?ws @ [request\<lparr>status := EXECUTED\<rparr>]\<rparr>)"
    using assms(5) fresh by (simp add: step_defs update_first_head h_def)
  show ?thesis
    using fresh by (simp add: sub app exe GetWithdrawalStatus_def find_first flip: h_def)
qed

theorem withdrawal_lifecycle_witness:
  "map snd (fst (exec_all (epoch_exec toy_env) [Submit toy_request, Approve 604901 toy_id, Execute toy_id] toy_start))
     = [True, True, True] \<and>
   GetWithdrawalStatus toy_env
     (snd (exec_all (epoch_exec toy_env) [Submit toy_request, Approve 604901 toy_id, Execute toy_id] toy_start)) toy_id
     = EXECUTED"
  unfolding toy_id_def
proof (rule withdrawal_lifecycle)
  show "verifyWithdrawalSignature toy_env toy_start toy_request" by code_simp
  show "verifyStateRootAnchor toy_start (wr_state_root toy_request)" by code_simp
  show "challenge_end_time toy_request \<le> 604901" by code_simp
  show "amount toy_request \<le> MAX_WITHDRAWAL_DELAY" by code_simp
qed (simp add: toy_start_def InitWithdrawalEpoch_def)

section \<open>Escape hatch\<close>

lemma RecordAnchor_roots:
  "m_historical_roots (RecordAnchor e r) =
     (if length (m_historical_roots e) \<ge> 10000 then tl (m_historical_roots e @ [r])
      else m_historical_roots e @ [r])"
  by (simp add: RecordAnchor_def Let_def)

lemma recorded_anchors:
  "m_historical_roots (foldl RecordAnchor new_CEscapeHatchVerifier anchors) = drop (length anchors - 10000) anchors"
proof (induction anchors rule: rev_induct)
  case Nil
  then show ?case by (simp add: new_CEscapeHatchVerifier_def)
next
  case (snoc r anchors)
  show ?case
  proof (cases "10000 \<le> length anchors")
    case True
    have "tl (drop k anchors @ [r]) = drop (Suc k) (anchors @ [r])" if "k \<le> length anchors" for k
      using that tl_drop [of k "anchors @ [r]"] drop_Suc [of k "anchors @ [r]"]
      by (simp del: drop_append add: drop_append [of k])
    moreover have "length (anchors @ [r]) - 10000 = Suc (length anchors - 10000)"
      using True by simp
    ultimately have "tl (drop (length anchors - 10000) anchors @ [r]) = drop (length (anchors @ [r]) - 10000) (anchors @ [r])"
      using diff_le_self by presburger
    with True show ?thesis by (simp only: RecordAnchor_roots snoc foldl_append foldl.simps length_drop) simp
  next
    case False
    then show ?thesis by (simp add: RecordAnchor_roots snoc)
  qed
qed

text \<open>
  Escape hatch: after any sequence of recorded anchors, an emergency withdrawal yields a
  transaction exactly when emergency mode is on, the proof has at least 64 bytes, the address 25, and
  the block height in the first eight bytes of the proof is that of a confirmed anchor among the last
  10000; and then the two entry points \<^verbatim>\<open>VerifyEscapeProof\<close> and \<^verbatim>\<open>VerifyEscapeHatch\<close> agree.
\<close>

theorem emergency_withdrawal_guards:
  fixes anchors :: "L2StateRoot list"
  defines "e \<equiv> foldl RecordAnchor new_CEscapeHatchVerifier anchors"
  shows "(ExecuteEmergencyWithdrawal env (TriggerEmergencyMode e) l2_proof addr amt \<noteq> None \<longleftrightarrow>
       64 \<le> length l2_proof \<and> length addr = 25 \<and>
       (\<exists>a. a \<in> set (drop (length anchors - 10000) anchors) \<and> confirmed a \<and>
          block_height a = le_word (take 8 l2_proof))) \<and>
     ExecuteEmergencyWithdrawal env e l2_proof addr amt = None \<and>
     VerifyEscapeProof e l2_proof addr =
       VerifyEscapeHatch l2_proof addr (le_word (take 8 l2_proof)) (m_historical_roots e)"
proof -
  have "m_historical_roots e = drop (length anchors - 10000) anchors"
    by (simp add: e_def recorded_anchors)
  moreover have "\<not> m_emergency_mode e"
    unfolding e_def by (induction anchors rule: rev_induct)
      (simp_all add: new_CEscapeHatchVerifier_def RecordAnchor_def Let_def)
  ultimately show ?thesis
    by (auto simp: ExecuteEmergencyWithdrawal_def TriggerEmergencyMode_def VerifyEscapeProof_def
        VerifyEscapeHatch_def list_ex_iff Let_def)
qed

end
