(* ===== verification/CMldsa.thy ===== *)
theory CMldsa
  imports MldsaTypes "HOL-Library.Monad_Syntax"
begin

text \<open>
  Model of \<^verbatim>\<open>BHC/src/crypto/mldsa.cpp\<close>: the class \<^verbatim>\<open>CMLDSA\<close> in its two builds. With \<^verbatim>\<open>USE_MLDSA\<close> it
  calls liboqs, which is the record \<open>oqs\<close> here; without it, it runs the hand-written routine
  \<^verbatim>\<open>shake256_fallback\<close>, which is modelled statement by statement.

  A result \<open>None\<close> means that the call does not return.
\<close>

section \<open>The fallback hash\<close>

text \<open>
  The permutation rounds of \<^verbatim>\<open>shake256_fallback\<close>. In the rotation of lane \<open>(0, 0)\<close> the source shifts a
  64-bit value right by 64, which C++ leaves undefined; \<open>ub\<close> is what the machine makes of it.
\<close>

definition fallback_RC :: "u64 list" where
  "fallback_RC =
     [0x0000000000000001, 0x0000000000008082, 0x800000000000808a, 0x8000000080008000,
      0x000000000000808b, 0x0000000080000001, 0x8000000080008081, 0x8000000000008009,
      0x000000000000008a, 0x0000000000000088, 0x0000000080008009, 0x000000008000000a,
      0x000000008000808b, 0x800000000000008b, 0x8000000000008089, 0x8000000000008003,
      0x8000000000008002, 0x8000000000000080, 0x000000000000800a, 0x800000008000000a,
      0x8000000080008081, 0x8000000000008080, 0x0000000080000001, 0x8000000080008008]"

definition fallback_shr :: "(u64 \<Rightarrow> u64) \<Rightarrow> nat \<Rightarrow> u64 \<Rightarrow> u64" where
  "fallback_shr ub k w = (if k < 64 then drop_bit k w else ub w)"

definition fallback_round :: "(u64 \<Rightarrow> u64) \<Rightarrow> nat \<Rightarrow> u64 list \<Rightarrow> u64 list" where
  "fallback_round ub r state =
     (let c = map (\<lambda>x. state ! x XOR state ! (x + 5) XOR state ! (x + 10) XOR state ! (x + 15)
                XOR state ! (x + 20)) [0..<5];
          d = map (\<lambda>x. c ! ((x + 4) mod 5) XOR
                (push_bit 1 (c ! ((x + 1) mod 5)) OR drop_bit 63 (c ! ((x + 1) mod 5)))) [0..<5];
          state = fold (\<lambda>x st. fold (\<lambda>y st. st[x + 5 * y := st ! (x + 5 * y) XOR d ! x]) [0..<5] st)
                [0..<5] state;
          b = fold (\<lambda>x b. fold (\<lambda>y b.
                  (let shift = (x * 2 + y * 3) mod 64
                   in b[5 * y + (2 * x + 3 * y) mod 5 :=
                        push_bit shift (state ! (x + 5 * y)) OR fallback_shr ub (64 - shift) (state ! (x + 5 * y))]))
                [0..<5] b) [0..<5] (replicate 25 0);
          state = fold (\<lambda>x st. fold (\<lambda>y st.
                  st[x + 5 * y := b ! (5 * x + y) XOR
                      (NOT (b ! (5 * ((x + 1) mod 5) + y)) AND b ! (5 * ((x + 2) mod 5) + y))])
                [0..<5] st) [0..<5] state
      in state[0 := state ! 0 XOR fallback_RC ! r])"

definition fallback_permute :: "(u64 \<Rightarrow> u64) \<Rightarrow> u64 list \<Rightarrow> u64 list" where
  "fallback_permute ub state = fold (fallback_round ub) [0..<24] state"

text \<open>The absorbing loop, from index \<open>i\<close> on.\<close>

partial_function (option) fallback_absorb ::
  "(u64 \<Rightarrow> u64) \<Rightarrow> bytes \<Rightarrow> nat \<Rightarrow> u64 list \<Rightarrow> u64 list option" where
  "fallback_absorb ub input i state =
     (if i < length input then
        let block_len = min 136 (length input - i);
            state = fold (\<lambda>j st. xor_state_byte (i + j) (input ! (i + j)) st) [0..<block_len] state;
            i = i + block_len
        in if block_len = 136 \<or> i \<ge> length input
           then fallback_absorb ub input 0 (fallback_permute ub state)
           else fallback_absorb ub input i state
      else Some state)"

function fallback_squeeze :: "(u64 \<Rightarrow> u64) \<Rightarrow> nat \<Rightarrow> u64 list \<Rightarrow> bytes" where
  "fallback_squeeze ub n state =
     (if n = 0 then []
      else take (min 136 n) (state_bytes state) @
           (if n > 136 then fallback_squeeze ub (n - 136) (fallback_permute ub state) else []))"
  by pat_completeness auto
termination
  by (relation "measure (\<lambda>(ub, n, state). n)") auto

declare fallback_squeeze.simps [simp del]

definition shake256_fallback :: "(u64 \<Rightarrow> u64) \<Rightarrow> bytes \<Rightarrow> nat \<Rightarrow> bytes option" where
  "shake256_fallback ub input output_len =
     do {
       state \<leftarrow> fallback_absorb ub input 0 (replicate 25 0);
       let state = fallback_permute ub (xor_state_byte 134 0x06 (xor_state_byte 135 0x1F state));
       let state = fallback_permute ub (xor_state_byte 134 0x05 (xor_state_byte 135 0x80 state));
       Some (fallback_squeeze ub output_len state)
     }"

section \<open>The class and its environment\<close>

text \<open>The names of the algorithms; the first three are macros of liboqs.\<close>

datatype algorithm_name = OQS_DILITHIUM_2 | OQS_DILITHIUM_3 | OQS_DILITHIUM_5 | Dilithium3_reference

text \<open>
  \<^verbatim>\<open>OQS_SIG_new\<close> fails or yields an algorithm; \<^verbatim>\<open>keypair\<close> writes a public and a secret key (from
  its random input), \<^verbatim>\<open>sign\<close> writes a signature, \<^verbatim>\<open>verify\<close> accepts or not. The host supplies random
  bytes (or reports failure), the time, and the two addresses the fallback seed is mixed from.
\<close>

record 'alg oqs =
  OQS_SIG_new :: "algorithm_name \<Rightarrow> 'alg option"
  OQS_SIG_keypair :: "'alg \<Rightarrow> nat \<Rightarrow> bytes \<times> bytes"
  OQS_SIG_sign :: "'alg \<Rightarrow> bytes \<Rightarrow> bytes \<Rightarrow> bytes"
  OQS_SIG_verify :: "'alg \<Rightarrow> bytes \<Rightarrow> bytes \<Rightarrow> bytes \<Rightarrow> bool"

record host =
  getRandomBytes :: "nat \<Rightarrow> bytes option"
  host_time :: u64
  seed_address :: u64
  this_address :: u64
  shift_64 :: "u64 \<Rightarrow> u64"

datatype 'alg build = WithOQS "'alg oqs" nat | Fallback host

record 'alg CMLDSA =
  m_level :: MLDSA_Level
  m_public_key :: MLDSA_PublicKey
  m_secret_key :: MLDSA_SecretKey
  m_has_key :: bool
  m_sig :: "'alg option"

fun getAlgorithmName :: "'alg build \<Rightarrow> MLDSA_Level \<Rightarrow> algorithm_name" where
  "getAlgorithmName (WithOQS env rnd) Level2 = OQS_DILITHIUM_2"
| "getAlgorithmName (WithOQS env rnd) Level3 = OQS_DILITHIUM_3"
| "getAlgorithmName (WithOQS env rnd) Level5 = OQS_DILITHIUM_5"
| "getAlgorithmName (Fallback env) level = Dilithium3_reference"

fun GetSignatureSize :: "MLDSA_Level \<Rightarrow> nat" where
  "GetSignatureSize level = sig_size level"

fun GetPublicKeySize :: "MLDSA_Level \<Rightarrow> nat" where
  "GetPublicKeySize level = pk_size level"

fun GetSecretKeySize :: "MLDSA_Level \<Rightarrow> nat" where
  "GetSecretKeySize level = sk_size level"

text \<open>The constructor; \<open>Inl\<close> is the exception it throws when liboqs has no such algorithm.\<close>

definition new_CMLDSA :: "'alg build \<Rightarrow> MLDSA_Level \<Rightarrow> string + 'alg CMLDSA" where
  "new_CMLDSA build level =
     (let base = \<lparr>m_level = level, m_public_key = new_PublicKey level,
            m_secret_key = new_SecretKey level, m_has_key = False, m_sig = None\<rparr>
      in case build of
           WithOQS env rnd \<Rightarrow>
             (case OQS_SIG_new env (getAlgorithmName build level) of
                None \<Rightarrow> Inl ''Failed to create ML-DSA signature object''
              | Some alg \<Rightarrow> Inr (base\<lparr>m_sig := Some alg\<rparr>))
         | Fallback env \<Rightarrow> Inr base)"

definition destroy_CMLDSA :: "'alg CMLDSA \<Rightarrow> 'alg CMLDSA" where
  "destroy_CMLDSA c = c\<lparr>m_sig := None, m_secret_key := SecureClear (m_secret_key c)\<rparr>"

definition SetPublicKey :: "'alg CMLDSA \<Rightarrow> MLDSA_PublicKey \<Rightarrow> 'alg CMLDSA" where
  "SetPublicKey c pk = c\<lparr>m_public_key := pk, m_level := pk_level pk\<rparr>"

definition SetSecretKey :: "'alg CMLDSA \<Rightarrow> MLDSA_SecretKey \<Rightarrow> 'alg CMLDSA" where
  "SetSecretKey c sk = c\<lparr>m_secret_key := sk, m_level := sk_level sk, m_has_key := True\<rparr>"

section \<open>Key generation of the fallback build\<close>

text \<open>
  The seed the fallback build mixes when the system gives no random bytes: three loops over the five
  words of \<^verbatim>\<open>fallback_seed\<close> and the 32 bytes of \<^verbatim>\<open>seed\<close>.
\<close>

definition seed_bit :: "nat \<Rightarrow> nat \<Rightarrow> u64 list \<times> byte \<Rightarrow> u64 list \<times> byte" where
  "seed_bit i b = (\<lambda>(fs, byte).
     let fs = fs[3 := fs ! 3 XOR fs ! ((i + b) mod 4) * 31];
         fs = fs[4 := push_bit 1 (fs ! 4) OR (drop_bit (b + i) (fs ! 3) AND 1)];
         combined = fs ! 0 XOR push_bit (i mod 56) (fs ! 1) XOR drop_bit (i mod 48) (fs ! 2);
         combined = combined XOR (push_bit i (fs ! 3) XOR drop_bit (31 - i) (fs ! 4))
     in (fs, byte OR ucast (push_bit b ((combined XOR drop_bit (i + b + 1) combined) AND 1))))"

definition seed_bytes :: "u64 list \<times> bytes \<Rightarrow> u64 list \<times> bytes" where
  "seed_bytes s = fold (\<lambda>i (fs, seed).
     (case fold (seed_bit i) [0..<8] (fs, 0) of (fs, byte) \<Rightarrow> (fs, seed[i := byte]))) [0..<32] s"

definition seed_xorshift :: "u64 list \<times> bytes \<Rightarrow> u64 list \<times> bytes" where
  "seed_xorshift s = fold (\<lambda>i (fs, seed).
     let t = fs ! (i mod 4);
         t = t XOR push_bit 13 t;
         t = t XOR drop_bit 7 t;
         t = t XOR push_bit 17 t;
         fs = fs[i mod 4 := t];
         mix = (\<lambda>k sh seed. seed[k * 4 mod 32 := seed ! (k * 4 mod 32) XOR ucast (drop_bit sh t AND 0xFF)])
     in (fs, if i \<ge> 4 then mix (i - 1) 24 (mix (i - 2) 16 (mix (i - 3) 8 (mix (i - 4) 0 seed))) else seed))
     [0..<8] s"

definition seed_finish :: "u64 list \<times> bytes \<Rightarrow> u64 list \<times> bytes" where
  "seed_finish s = fold (\<lambda>i (fs, seed).
     let c = fs ! 0;
         c = c XOR push_bit 17 c;
         c = c XOR drop_bit 15 c;
         c = c XOR push_bit 25 c;
         c = c XOR drop_bit (i mod 56) (fs ! 1);
         c = c XOR push_bit (i mod 48) (fs ! 2);
         c = c XOR push_bit (i mod 32) (fs ! 3);
         c = c XOR drop_bit (i mod 56) (fs ! 4)
     in (fs[i mod 4 := fs ! (i mod 4) XOR c], seed[i := seed ! i XOR ucast (c AND 0xFF)]))
     [0..<32] s"

definition fallback_seed :: "host \<Rightarrow> bytes" where
  "fallback_seed env =
     (case getRandomBytes env 32 of
        Some seed \<Rightarrow> seed
      | None \<Rightarrow> snd (seed_finish (seed_xorshift (seed_bytes
                 ([host_time env, seed_address env, this_address env, 0, 0], replicate 32 0)))))"

section \<open>Operations\<close>

text \<open>
  In the liboqs build, keys and signatures are written over the front of the buffers. An operation
  on an object whose \<^verbatim>\<open>m_sig\<close> is null does nothing.
\<close>

definition generateKeyPairInternal :: "'alg build \<Rightarrow> 'alg CMLDSA \<Rightarrow> 'alg CMLDSA option" where
  "generateKeyPairInternal build c =
     (case build of
        WithOQS env rnd \<Rightarrow>
          (case m_sig c of
             None \<Rightarrow> Some c
           | Some alg \<Rightarrow>
               (case OQS_SIG_keypair env alg rnd of (pk, sk) \<Rightarrow>
                  Some (c\<lparr>m_public_key := (m_public_key c)\<lparr>pk_data := copy_into pk (pk_data (m_public_key c))\<rparr>,
                          m_secret_key := (m_secret_key c)\<lparr>sk_data := copy_into sk (sk_data (m_secret_key c))\<rparr>,
                          m_has_key := True\<rparr>)))
      | Fallback env \<Rightarrow>
          do {
            sk \<leftarrow> shake256_fallback (shift_64 env) (fallback_seed env) (length (sk_data (m_secret_key c)));
            pk \<leftarrow> shake256_fallback (shift_64 env) (take (length sk div 2) sk) (length (pk_data (m_public_key c)));
            Some (c\<lparr>m_secret_key := (m_secret_key c)\<lparr>sk_data := sk\<rparr>,
                    m_public_key := (m_public_key c)\<lparr>pk_data := pk\<rparr>, m_has_key := True\<rparr>)
          })"

definition GenerateKeyPair :: "'alg build \<Rightarrow> 'alg CMLDSA \<Rightarrow> 'alg CMLDSA option" where
  "GenerateKeyPair build c = generateKeyPairInternal build c"

definition signInternal :: "'alg build \<Rightarrow> 'alg CMLDSA \<Rightarrow> bytes \<Rightarrow> bytes \<Rightarrow> bytes \<Rightarrow> bytes option" where
  "signInternal build c message context signature =
     (case build of
        WithOQS env rnd \<Rightarrow>
          (case m_sig c of
             None \<Rightarrow> Some signature
           | Some alg \<Rightarrow>
               if \<not> m_has_key c then Some signature
               else Some (copy_into (OQS_SIG_sign env alg message (sk_data (m_secret_key c))) signature))
      | Fallback env \<Rightarrow>
          (let buffer = sk_data (m_secret_key c) @ message @ context
           in do {
                out \<leftarrow> shake256_fallback (shift_64 env) buffer (GetSignatureSize (m_level c));
                Some (copy_into out signature)
              }))"

definition constantTimeCompare :: "bytes \<Rightarrow> bytes \<Rightarrow> nat \<Rightarrow> bool" where
  "constantTimeCompare a b len = (fold (\<lambda>i diff. diff OR (a ! i XOR b ! i)) [0..<len] 0 = 0)"

definition verifyInternal :: "'alg build \<Rightarrow> 'alg CMLDSA \<Rightarrow> bytes \<Rightarrow> bytes \<Rightarrow> bytes \<Rightarrow> bytes \<Rightarrow> bool option" where
  "verifyInternal build c message context signature public_key =
     (case build of
        WithOQS env rnd \<Rightarrow>
          (case m_sig c of
             None \<Rightarrow> Some False
           | Some alg \<Rightarrow> Some (OQS_SIG_verify env alg message (take (GetSignatureSize (m_level c)) signature) public_key))
      | Fallback env \<Rightarrow>
          (let buffer = take (length (pk_data (m_public_key c))) public_key @ message @ context
           in do {
                expected_sig \<leftarrow> shake256_fallback (shift_64 env) buffer (GetSignatureSize (m_level c));
                Some (constantTimeCompare signature expected_sig (length expected_sig))
              }))"

definition Sign :: "'alg build \<Rightarrow> 'alg CMLDSA \<Rightarrow> bytes \<Rightarrow> bytes \<Rightarrow> (MLDSA_Signature \<times> 'alg CMLDSA) option" where
  "Sign build c message context =
     do {
       c \<leftarrow> (if \<not> m_has_key c then GenerateKeyPair build c else Some c);
       let signature = new_Signature (m_level c);
       d \<leftarrow> signInternal build c message context (sig_data signature);
       Some (signature\<lparr>sig_data := d\<rparr>, c)
     }"

definition Verify :: "'alg build \<Rightarrow> 'alg CMLDSA \<Rightarrow> bytes \<Rightarrow> MLDSA_Signature \<Rightarrow> bytes \<Rightarrow> bool option" where
  "Verify build c message signature context =
     verifyInternal build c message context (sig_data signature) (pk_data (m_public_key c))"

text \<open>The static verifier and the free functions; \<open>Inl\<close> passes on the exception of the constructor.\<close>

definition MLDSA_Sign ::
  "'alg build \<Rightarrow> bytes \<Rightarrow> MLDSA_SecretKey \<Rightarrow> bytes \<Rightarrow> (string + MLDSA_Signature) option" where
  "MLDSA_Sign build message secret_key context =
     (case new_CMLDSA build (sk_level secret_key) of
        Inl e \<Rightarrow> Some (Inl e)
      | Inr signer \<Rightarrow>
          do {
            (signature, _) \<leftarrow> Sign build (SetSecretKey signer secret_key) message context;
            Some (Inr signature)
          })"

definition CMLDSA_Verify ::
  "'alg build \<Rightarrow> bytes \<Rightarrow> MLDSA_Signature \<Rightarrow> MLDSA_PublicKey \<Rightarrow> bytes \<Rightarrow> (string + bool) option" where
  "CMLDSA_Verify build message signature public_key context =
     (case new_CMLDSA build (pk_level public_key) of
        Inl e \<Rightarrow> Some (Inl e)
      | Inr verifier \<Rightarrow>
          do {
            b \<leftarrow> Verify build (SetPublicKey verifier public_key) message signature context;
            Some (Inr b)
          })"

definition MLDSA_Verify ::
  "'alg build \<Rightarrow> bytes \<Rightarrow> MLDSA_Signature \<Rightarrow> MLDSA_PublicKey \<Rightarrow> bytes \<Rightarrow> (string + bool) option" where
  "MLDSA_Verify build message signature public_key context =
     CMLDSA_Verify build message signature public_key context"

section \<open>The fallback build does not return\<close>

lemma fallback_absorb_returns:
  assumes "fallback_absorb ub input i state = Some r"
  shows "length input \<le> i"
proof (rule fallback_absorb.raw_induct [OF _ assms])
  fix absorb :: "(u64 \<Rightarrow> u64) \<Rightarrow> bytes \<Rightarrow> nat \<Rightarrow> u64 list \<Rightarrow> u64 list option"
    and ub :: "u64 \<Rightarrow> u64" and input :: bytes and i and state r :: "u64 list"
  assume IH: "\<And>ub input i state r. absorb ub input i state = Some r \<Longrightarrow> length input \<le> i"
    and body: "(if i < length input then
        let block_len = min 136 (length input - i);
            state = fold (\<lambda>j st. xor_state_byte (i + j) (input ! (i + j)) st) [0..<block_len] state;
            i = i + block_len
        in if block_len = 136 \<or> i \<ge> length input
           then absorb ub input 0 (fallback_permute ub state) else absorb ub input i state
      else Some state) = Some r"
  show "length input \<le> i"
  proof (rule ccontr)
    assume "\<not> length input \<le> i"
    moreover have "min 136 (length input - i) = 136 \<or> length input \<le> i + min 136 (length input - i)"
      by arith
    ultimately obtain st where "absorb ub input 0 st = Some r"
      using body by (auto simp: Let_def simp del: fold_simps)
    from IH [OF this] \<open>\<not> length input \<le> i\<close> show False by simp
  qed
qed

lemma shake256_fallback_diverges: "input \<noteq> [] \<Longrightarrow> shake256_fallback ub input n = None"
  using fallback_absorb_returns [of ub input 0 "replicate 25 0"]
  by (cases "fallback_absorb ub input 0 (replicate 25 0)") (auto simp: shake256_fallback_def)

lemma length_seed_finish [simp]: "length (snd (seed_finish s)) = length (snd s)"
  unfolding seed_finish_def
  by (rule fold_invariant [where P = "\<lambda>t. length (snd t) = length (snd s)"])
    (auto simp: Let_def split: prod.splits)

lemma length_seed_xorshift [simp]: "length (snd (seed_xorshift s)) = length (snd s)"
  unfolding seed_xorshift_def
  by (rule fold_invariant [where P = "\<lambda>t. length (snd t) = length (snd s)"])
    (auto simp: Let_def split: prod.splits)

lemma length_seed_bytes [simp]: "length (snd (seed_bytes s)) = length (snd s)"
  unfolding seed_bytes_def
  by (rule fold_invariant [where P = "\<lambda>t. length (snd t) = length (snd s)"])
    (auto simp: Let_def split: prod.splits)

text \<open>
  C18. Without liboqs no operation on keys of the declared sizes returns: the absorbing loop resets its
  index after the last block, so hashing a non-empty input runs forever, and key generation, signing
  and verification all hash one. The hypothesis on the host is that \<^verbatim>\<open>getrandom\<close>, when it succeeds,
  fills the buffer it was given.
\<close>

theorem fallback_build_never_returns:
  assumes "\<forall>seed. getRandomBytes env 32 = Some seed \<longrightarrow> length seed = 32"
    and "length (sk_data sk) = sk_size (sk_level sk)" and "length (pk_data pk) = pk_size (pk_level pk)"
  shows "GenerateKeyPair (Fallback env) c = None \<and>
         MLDSA_Sign (Fallback env) message sk context = None \<and>
         MLDSA_Verify (Fallback env) message signature pk context = None"
proof -
  have "length (fallback_seed env) = 32"
    using assms(1) by (simp add: fallback_seed_def split: option.splits)
  then have "fallback_seed env \<noteq> []" by auto
  moreover have "sk_data sk \<noteq> []" using assms(2) by (cases "sk_level sk") auto
  moreover have "pk_data pk \<noteq> []" using assms(3) by (cases "pk_level pk") auto
  ultimately show ?thesis
    by (simp add: GenerateKeyPair_def generateKeyPairInternal_def MLDSA_Sign_def MLDSA_Verify_def
        CMLDSA_Verify_def Sign_def Verify_def signInternal_def verifyInternal_def new_CMLDSA_def
        SetSecretKey_def SetPublicKey_def shake256_fallback_diverges Let_def)
qed

definition toy_host :: host where
  "toy_host = \<lparr>getRandomBytes = (\<lambda>n. None), host_time = 1, seed_address = 2, this_address = 3,
     shift_64 = (\<lambda>w. w)\<rparr>"

theorem fallback_build_never_returns_witness:
  "GenerateKeyPair (Fallback toy_host) (\<lparr>m_level = Level3, m_public_key = new_PublicKey Level3,
     m_secret_key = new_SecretKey Level3, m_has_key = False, m_sig = None\<rparr> :: unit CMLDSA) = None \<and>
   MLDSA_Sign (Fallback toy_host :: unit build) [1] (new_SecretKey Level3) [] = None \<and>
   MLDSA_Verify (Fallback toy_host :: unit build) [1] (new_Signature Level3) (new_PublicKey Level3) [] = None"
  by (rule fallback_build_never_returns) (simp_all add: toy_host_def new_SecretKey_def new_PublicKey_def)

section \<open>The liboqs build\<close>

text \<open>
  What liboqs documents: keys and signatures have the sizes of their level, and a signature made with
  the secret key of a pair verifies under its public key.
\<close>

definition oqs_correct :: "'alg oqs \<Rightarrow> bool" where
  "oqs_correct env \<longleftrightarrow>
     (\<forall>level alg rnd pk sk m.
        OQS_SIG_new env (getAlgorithmName (WithOQS env rnd) level) = Some alg \<longrightarrow>
        OQS_SIG_keypair env alg rnd = (pk, sk) \<longrightarrow>
        length pk = pk_size level \<and> length sk = sk_size level \<and>
        length (OQS_SIG_sign env alg m sk) = sig_size level \<and>
        OQS_SIG_verify env alg m (OQS_SIG_sign env alg m sk) pk)"

text \<open>
  With liboqs, a freshly generated object signs and its signature verifies under its public key;
  but the context argument is ignored: the signature verifies under every other context too.
\<close>

theorem oqs_sign_verify:
  assumes "oqs_correct env" and "new_CMLDSA (WithOQS env rnd) level = Inr c"
  shows "\<exists>signature c'. Sign (WithOQS env rnd) c message context = Some (signature, c') \<and>
    m_has_key c' \<and>
    MLDSA_Verify (WithOQS env rnd) message signature (m_public_key c') context' = Some (Inr True)"
proof -
  let ?b = "WithOQS env rnd"
  from assms(2) obtain alg where alg: "OQS_SIG_new env (getAlgorithmName ?b level) = Some alg"
    and c: "c = \<lparr>m_level = level, m_public_key = new_PublicKey level, m_secret_key = new_SecretKey level,
        m_has_key = False, m_sig = Some alg\<rparr>"
    by (auto simp: new_CMLDSA_def Let_def split: option.splits)
  obtain pk sk where kp: "OQS_SIG_keypair env alg rnd = (pk, sk)" by fastforce
  have ok: "length pk = pk_size level" "length sk = sk_size level"
    "length (OQS_SIG_sign env alg message sk) = sig_size level"
    "OQS_SIG_verify env alg message (OQS_SIG_sign env alg message sk) pk"
    using assms(1) alg kp unfolding oqs_correct_def by blast+
  show ?thesis
    using alg ok by (simp add: Sign_def GenerateKeyPair_def generateKeyPairInternal_def kp c signInternal_def
        new_PublicKey_def new_SecretKey_def new_Signature_def MLDSA_Verify_def CMLDSA_Verify_def
        new_CMLDSA_def SetPublicKey_def Verify_def verifyInternal_def Let_def)
qed

definition toy_oqs :: "MLDSA_Level oqs" where
  "toy_oqs = \<lparr>OQS_SIG_new = (\<lambda>name. case name of OQS_DILITHIUM_2 \<Rightarrow> Some Level2 | OQS_DILITHIUM_3 \<Rightarrow> Some Level3
       | OQS_DILITHIUM_5 \<Rightarrow> Some Level5 | Dilithium3_reference \<Rightarrow> None),
     OQS_SIG_keypair = (\<lambda>level rnd. (replicate (pk_size level) (word_of_nat rnd), replicate (sk_size level) (word_of_nat rnd))),
     OQS_SIG_sign = (\<lambda>level m sk. replicate (sig_size level) (hd sk)),
     OQS_SIG_verify = (\<lambda>level m s pk. s = replicate (sig_size level) (hd pk))\<rparr>"

lemma toy_oqs_correct: "oqs_correct toy_oqs"
proof -
  have "hd (replicate (pk_size level) (x :: byte)) = hd (replicate (sk_size level) x)" for level x
    by (cases level) simp_all
  moreover have "OQS_SIG_new toy_oqs (getAlgorithmName (WithOQS toy_oqs rnd) level) = Some level" for level rnd
    by (cases level) (simp_all add: toy_oqs_def)
  ultimately show ?thesis by (auto simp: oqs_correct_def toy_oqs_def)
qed

theorem oqs_sign_verify_witness:
  "\<exists>signature c'. Sign (WithOQS toy_oqs 7) \<lparr>m_level = Level3, m_public_key = new_PublicKey Level3,
       m_secret_key = new_SecretKey Level3, m_has_key = False, m_sig = Some Level3\<rparr> [1, 2] [3] = Some (signature, c') \<and>
    m_has_key c' \<and>
    MLDSA_Verify (WithOQS toy_oqs 7) [1, 2] signature (m_public_key c') [4] = Some (Inr True)"
  by (rule oqs_sign_verify [OF toy_oqs_correct, where level = Level3])
    (simp add: new_CMLDSA_def toy_oqs_def Let_def)

end
