(* ===== verification/TypeBridge.thy ===== *)
theory TypeBridge
  imports Codec
begin

text \<open>
  Model of \<^verbatim>\<open>BHC/src/type_bridge.h\<close>: the 32-byte digests that pass between the node code and the
  crypto code, their hexadecimal form, and the saturating amount type \<^verbatim>\<open>CBTCAmount\<close>. A
  \<^verbatim>\<open>std::array<uint8_t, 32>\<close> is a byte list of length 32. The conversions of \<^verbatim>\<open>CBTCAmount\<close> to and
  from \<^verbatim>\<open>double\<close> are left out.
\<close>

section \<open>Digests\<close>

type_synonym crypto_uint256 = bytes

definition UINT256_SIZE :: nat where
  "UINT256_SIZE = 32"

definition is_uint256 :: "crypto_uint256 \<Rightarrow> bool" where
  "is_uint256 h \<longleftrightarrow> length h = UINT256_SIZE"

definition ToBhcCrypto :: "bytes \<Rightarrow> crypto_uint256" where
  "ToBhcCrypto hash =
     (let ret = replicate UINT256_SIZE 0
      in if length hash \<ge> UINT256_SIZE then take UINT256_SIZE hash else ret)"

definition FromBhcCrypto :: "crypto_uint256 \<Rightarrow> bytes" where
  "FromBhcCrypto hash = hash"

text \<open>\<open>ToBhcCryptoInPlace\<close> copies through raw pointers: \<open>None\<close> is an access outside either buffer.\<close>

definition ToBhcCryptoInPlace :: "bytes \<Rightarrow> bytes \<Rightarrow> bytes option" where
  "ToBhcCryptoInPlace src dst =
     (if length src < UINT256_SIZE \<or> length dst < UINT256_SIZE then None
      else Some (take UINT256_SIZE src @ drop UINT256_SIZE dst))"

definition Uint256LEToBE :: "crypto_uint256 \<Rightarrow> crypto_uint256" where
  "Uint256LEToBE le_hash = map (\<lambda>i. le_hash ! (UINT256_SIZE - 1 - i)) [0..<UINT256_SIZE]"

definition ReverseUint256 :: "crypto_uint256 \<Rightarrow> crypto_uint256" where
  "ReverseUint256 hash = Uint256LEToBE hash"

definition IsZero :: "crypto_uint256 \<Rightarrow> bool" where
  "IsZero hash = list_all (\<lambda>i. hash ! i = 0) [0..<UINT256_SIZE]"

definition IsEqual :: "crypto_uint256 \<Rightarrow> crypto_uint256 \<Rightarrow> bool" where
  "IsEqual a b = list_all (\<lambda>i. a ! i = b ! i) [0..<UINT256_SIZE]"

definition SetZero :: "crypto_uint256 \<Rightarrow> crypto_uint256" where
  "SetZero hash = replicate UINT256_SIZE 0"

definition SetOne :: "crypto_uint256 \<Rightarrow> crypto_uint256" where
  "SetOne hash = (replicate UINT256_SIZE 0)[UINT256_SIZE - 1 := 1]"

definition Xor256 :: "crypto_uint256 \<Rightarrow> crypto_uint256 \<Rightarrow> crypto_uint256" where
  "Xor256 a b = map (\<lambda>i. a ! i XOR b ! i) [0..<UINT256_SIZE]"

definition And256 :: "crypto_uint256 \<Rightarrow> crypto_uint256 \<Rightarrow> crypto_uint256" where
  "And256 a b = map (\<lambda>i. a ! i AND b ! i) [0..<UINT256_SIZE]"

definition Or256 :: "crypto_uint256 \<Rightarrow> crypto_uint256 \<Rightarrow> crypto_uint256" where
  "Or256 a b = map (\<lambda>i. a ! i OR b ! i) [0..<UINT256_SIZE]"

section \<open>Hexadecimal form\<close>

definition hex_chars :: string where
  "hex_chars = ''0123456789abcdef''"

definition hex_byte :: "byte \<Rightarrow> string" where
  "hex_byte b = [hex_chars ! unat (drop_bit 4 b), hex_chars ! unat (b AND 0x0F)]"

definition ToHex :: "crypto_uint256 \<Rightarrow> string" where
  "ToHex hash = concat (map (\<lambda>i. hex_byte (hash ! i)) [0..<UINT256_SIZE])"

definition ToHexReversed :: "crypto_uint256 \<Rightarrow> string" where
  "ToHexReversed hash = concat (map (\<lambda>i. hex_byte (hash ! i)) (rev [0..<UINT256_SIZE]))"

text \<open>The chain of character tests of \<^verbatim>\<open>FromHex\<close>, on character codes; \<open>None\<close> is the final \<open>else\<close>.\<close>

definition hex_digit :: "char \<Rightarrow> byte option" where
  "hex_digit c =
     (let n = (of_char c :: nat)
      in if 48 \<le> n \<and> n \<le> 57 then Some (of_nat (n - 48))
         else if 97 \<le> n \<and> n \<le> 102 then Some (of_nat (n - 97 + 10))
         else if 65 \<le> n \<and> n \<le> 70 then Some (of_nat (n - 65 + 10))
         else None)"

text \<open>
  \<open>FromHex\<close> fills its output argument from index \<open>i\<close> on and returns false at the first bad
  character, leaving the bytes written so far.
\<close>

function FromHex_loop :: "string \<Rightarrow> nat \<Rightarrow> crypto_uint256 \<Rightarrow> bool \<times> crypto_uint256" where
  "FromHex_loop hex i hash =
     (if i < UINT256_SIZE then
        (case (hex_digit (hex ! (i * 2)), hex_digit (hex ! (i * 2 + 1))) of
           (Some h, Some l) \<Rightarrow> FromHex_loop hex (i + 1) (hash[i := push_bit 4 h OR l])
         | _ \<Rightarrow> (False, hash))
      else (True, hash))"
  by pat_completeness auto
termination
  by (relation "measure (\<lambda>(hex, i, hash). UINT256_SIZE - i)") (auto simp: UINT256_SIZE_def)

declare FromHex_loop.simps [simp del]

definition FromHex :: "string \<Rightarrow> crypto_uint256 \<Rightarrow> bool \<times> crypto_uint256" where
  "FromHex hex hash =
     (if length hex \<noteq> UINT256_SIZE * 2 then (False, hash) else FromHex_loop hex 0 hash)"

text \<open>
  \<^verbatim>\<open>FromHexOrPanic\<close> starts from an uninitialised array; its contents are the argument \<open>uninit\<close>.
\<close>

definition FromHexOrPanic :: "crypto_uint256 \<Rightarrow> string \<Rightarrow> crypto_uint256" where
  "FromHexOrPanic uninit hex =
     (case FromHex hex uninit of (ok, result) \<Rightarrow> if \<not> ok then SetZero result else result)"

section \<open>Amounts\<close>

record CBTCAmount =
  m_satoshis :: u64

definition amount_plus_eq :: "CBTCAmount \<Rightarrow> CBTCAmount \<Rightarrow> CBTCAmount" where
  "amount_plus_eq a b = a\<lparr>m_satoshis := m_satoshis a + m_satoshis b\<rparr>"

definition amount_minus_eq :: "CBTCAmount \<Rightarrow> CBTCAmount \<Rightarrow> CBTCAmount" where
  "amount_minus_eq a b =
     (if m_satoshis a < m_satoshis b then a\<lparr>m_satoshis := 0\<rparr>
      else a\<lparr>m_satoshis := m_satoshis a - m_satoshis b\<rparr>)"

definition amount_plus :: "CBTCAmount \<Rightarrow> CBTCAmount \<Rightarrow> CBTCAmount" where
  "amount_plus a b = (let result = a in amount_plus_eq result b)"

definition amount_minus :: "CBTCAmount \<Rightarrow> CBTCAmount \<Rightarrow> CBTCAmount" where
  "amount_minus a b = (let result = a in amount_minus_eq result b)"

section \<open>Facts about digests\<close>

lemma Uint256LEToBE_rev: "is_uint256 h \<Longrightarrow> Uint256LEToBE h = rev h"
  by (rule nth_equalityI) (auto simp: Uint256LEToBE_def is_uint256_def UINT256_SIZE_def rev_nth)

lemma map_nth_uint256: "is_uint256 h \<Longrightarrow> map (\<lambda>i. f (h ! i)) [0..<UINT256_SIZE] = map f h"
  by (rule nth_equalityI) (auto simp: is_uint256_def)

lemma IsEqual_iff: "is_uint256 a \<Longrightarrow> is_uint256 b \<Longrightarrow> IsEqual a b \<longleftrightarrow> a = b"
  by (auto simp: IsEqual_def list_all_iff is_uint256_def intro: nth_equalityI)

lemma Xor256_self: "is_uint256 a \<Longrightarrow> IsZero (Xor256 a b) \<longleftrightarrow> IsEqual a b"
  by (auto simp: IsZero_def IsEqual_def Xor256_def list_all_iff word_xor_eq_0)

lemma ToHex_concat: "is_uint256 h \<Longrightarrow> ToHex h = concat (map hex_byte h)"
  by (simp add: ToHex_def map_nth_uint256)

section \<open>Facts about hexadecimal digits\<close>

lemma byte_nibbles: "push_bit 4 (drop_bit 4 b) OR (b AND 0x0F) = (b :: byte)"
  by (rule bit_word_eqI)
    (auto simp: bit_0x0F bit_or_iff bit_and_iff bit_push_bit_iff bit_drop_bit_eq
      simp del: bit_numeral_word_iff)

lemma hex_digit_chars: "n < 16 \<Longrightarrow> hex_digit (hex_chars ! n) = Some (of_nat n)"
proof -
  assume "n < 16"
  then have "n \<in> set [0..<16]" by simp
  then show ?thesis
    by (auto simp: hex_chars_def hex_digit_def upt_rec_numeral numeral_eq_Suc)
qed

lemma high_nibble_less: "unat (drop_bit 4 b) < 16" for b :: byte
proof -
  have "unat (drop_bit 4 b) = unat b div 16" by (simp add: drop_bit_eq_div unat_div_distrib)
  moreover have "unat b < 256" using unat_bound [of b] by simp
  ultimately show ?thesis by simp
qed

lemma low_nibble_less: "unat (b AND 0x0F) < 16" for b :: byte
proof -
  have "unat (b AND 0x0F) \<le> unat (0x0F :: byte)"
    by (rule word_and_le1 [THEN word_le_nat_alt [THEN iffD1]])
  then show ?thesis by simp
qed

lemma hex_digit_byte:
  "hex_digit (hex_byte b ! 0) = Some (drop_bit 4 b)" "hex_digit (hex_byte b ! 1) = Some (b AND 0x0F)"
  by (simp_all add: hex_byte_def hex_digit_chars high_nibble_less low_nibble_less)

lemma length_hex_byte [simp]: "length (hex_byte b) = 2"
  by (simp add: hex_byte_def)

lemma ToHex_nth:
  assumes "is_uint256 h" and "i < UINT256_SIZE"
  shows "hex_digit (ToHex h ! (i * 2)) = Some (drop_bit 4 (h ! i))"
    and "hex_digit (ToHex h ! (i * 2 + 1)) = Some (h ! i AND 0x0F)"
proof -
  have len: "\<And>x. x \<in> set (map hex_byte h) \<Longrightarrow> length x = 2" and i: "i < length (map hex_byte h)"
    using assms by (auto simp: is_uint256_def)
  show "hex_digit (ToHex h ! (i * 2)) = Some (drop_bit 4 (h ! i))"
    using assms i concat_pairs_nth(1) [OF i len] by (simp add: ToHex_concat hex_digit_byte)
  show "hex_digit (ToHex h ! (i * 2 + 1)) = Some (h ! i AND 0x0F)"
    using assms i concat_pairs_nth(2) [OF i len] hex_digit_byte(2) [of "h ! i"]
    by (simp add: ToHex_concat)
qed

lemma length_ToHex: "is_uint256 h \<Longrightarrow> length (ToHex h) = UINT256_SIZE * 2"
  by (simp add: ToHex_concat is_uint256_def length_concat comp_def sum_list_triv)

lemma FromHex_loop_ToHex:
  assumes h: "is_uint256 h"
  shows "is_uint256 r \<Longrightarrow> i \<le> UINT256_SIZE \<Longrightarrow>
    FromHex_loop (ToHex h) i r = (True, take i r @ drop i h)"
proof (induction "UINT256_SIZE - i" arbitrary: i r)
  case 0
  then show ?case using h by (simp add: FromHex_loop.simps is_uint256_def)
next
  case (Suc n)
  then have i: "i < UINT256_SIZE" by simp
  let ?r = "r[i := push_bit 4 (drop_bit 4 (h ! i)) OR (h ! i AND 0x0F)]"
  from i have "FromHex_loop (ToHex h) i r = FromHex_loop (ToHex h) (i + 1) ?r"
    by (subst FromHex_loop.simps) (simp add: ToHex_nth [OF h] del: One_nat_def)
  also have "\<dots> = (True, take (i + 1) ?r @ drop (i + 1) h)"
    using Suc.hyps(2) Suc.prems i by (intro Suc.hyps(1)) (auto simp: is_uint256_def)
  also have "take (i + 1) ?r @ drop (i + 1) h = take i r @ drop i h"
    using i h Suc.prems(1)
    by (simp add: byte_nibbles take_Suc_conv_app_nth Cons_nth_drop_Suc is_uint256_def)
  finally show ?case .
qed

lemma FromHex_ToHex: "is_uint256 h \<Longrightarrow> is_uint256 r \<Longrightarrow> FromHex (ToHex h) r = (True, h)"
  by (simp add: FromHex_def length_ToHex FromHex_loop_ToHex)

interpretation hex256: codec ToHex "\<lambda>s. snd (FromHex s (replicate 32 0))" is_uint256 64
proof unfold_locales
  show "is_uint256 h \<Longrightarrow> snd (FromHex (ToHex h) (replicate 32 0)) = h" for h
    using FromHex_ToHex [of h "replicate 32 0"] by (simp add: is_uint256_def UINT256_SIZE_def)
  show "is_uint256 h \<Longrightarrow> length (ToHex h) = 64" for h
    by (simp add: length_ToHex UINT256_SIZE_def)
qed

section \<open>Properties\<close>

text \<open>
  Hexadecimal round trip: \<^verbatim>\<open>FromHex\<close> accepts what \<^verbatim>\<open>ToHex\<close> prints and overwrites its output
  with the printed digest whatever it held, so \<^verbatim>\<open>FromHexOrPanic\<close> returns that digest, and two
  digests print alike only when they are equal; \<^verbatim>\<open>ToHexReversed\<close> prints the reversed digest.
\<close>

theorem hex_roundtrip:
  assumes "is_uint256 h" and "is_uint256 r" and "is_uint256 g"
  shows "FromHex (ToHex h) r = (True, h) \<and> FromHexOrPanic r (ToHex h) = h \<and>
    (ToHex h = ToHex g \<longleftrightarrow> h = g) \<and> ToHexReversed h = ToHex (ReverseUint256 h)"
proof -
  have rev: "is_uint256 (rev h)" using assms(1) by (simp add: is_uint256_def)
  have "ToHexReversed h = concat (rev (map (\<lambda>i. hex_byte (h ! i)) [0..<UINT256_SIZE]))"
    by (simp add: ToHexReversed_def rev_map)
  also have "\<dots> = ToHex (ReverseUint256 h)"
    using assms(1) rev
    by (simp add: map_nth_uint256 ReverseUint256_def Uint256LEToBE_rev ToHex_concat rev_map)
  finally show ?thesis
    using assms hex256.enc_inj by (simp add: FromHex_ToHex FromHexOrPanic_def)
qed

theorem hex_roundtrip_witness:
  "FromHex (ToHex (replicate 32 0xAB)) (replicate 32 7) = (True, replicate 32 0xAB)"
  using hex_roundtrip [of "replicate 32 0xAB" "replicate 32 7" "replicate 32 0xAB"]
  by (simp add: is_uint256_def UINT256_SIZE_def)

text \<open>
  Amount arithmetic: subtraction of \<^verbatim>\<open>CBTCAmount\<close> saturates at zero instead of wrapping (it is
  subtraction of natural numbers on the unsigned values), addition wraps modulo 2 to the 64, and
  adding then subtracting the same amount gives back the first exactly when the sum did not wrap.
\<close>

theorem amount_arith:
  "unat (m_satoshis (amount_minus a b)) = unat (m_satoshis a) - unat (m_satoshis b) \<and>
   unat (m_satoshis (amount_plus a b)) = (unat (m_satoshis a) + unat (m_satoshis b)) mod 2 ^ 64 \<and>
   (amount_minus (amount_plus a b) b = a \<longleftrightarrow>
      unat (m_satoshis a) + unat (m_satoshis b) < 2 ^ 64)"
proof -
  have minus: "unat (m_satoshis (amount_minus x y)) = unat (m_satoshis x) - unat (m_satoshis y)" for x y
    by (auto simp: amount_minus_def amount_minus_eq_def word_less_nat_alt unat_sub_if')
  have plus: "unat (m_satoshis (amount_plus x y)) =
      (unat (m_satoshis x) + unat (m_satoshis y)) mod 2 ^ 64" for x y
    by (simp add: amount_plus_def amount_plus_eq_def unat_word_ariths)
  have eq: "x = y \<longleftrightarrow> unat (m_satoshis x) = unat (m_satoshis y)" for x y :: CBTCAmount
    by (cases x, cases y) (simp add: word_unat_eq_iff)
  show ?thesis
    using unat_bound [of "m_satoshis a"] unat_bound [of "m_satoshis b"]
    by (auto simp: eq minus plus mod_if)
qed

end
