(* ===== verification/HybridSig.thy ===== *)
theory HybridSig
  imports CMldsa TypeBridge
begin

text \<open>
  Model of \<^verbatim>\<open>BHC/src/script/hybrid_sig.h\<close> and \<^verbatim>\<open>hybrid_sig.cpp\<close>: the validator that checks an ECDSA
  and an ML-DSA signature of one message, the witness versions, and the script entry points.

  \<^verbatim>\<open>CPubKey\<close> belongs to the node the sources are built into: its two members are the record \<open>ecdsa\<close>.
  ML-DSA verification is \<open>MLDSA_Verify\<close> of \<open>CMldsa\<close>; where that does not return (\<open>None\<close>) or throws
  (\<open>Inl\<close>), neither does, or so does, the caller. \<open>'a outcome\<close> is the type of such results.
\<close>

type_synonym 'a outcome = "(string + 'a) option"

definition result :: "'a \<Rightarrow> 'a outcome" where
  "result x = Some (Inr x)"

record ecdsa =
  CPubKey_IsValid :: "bytes \<Rightarrow> bool"
  CPubKey_Verify :: "bytes \<Rightarrow> bytes \<Rightarrow> bytes \<Rightarrow> bool"

datatype SigVersion = BASE | WITNESS_V0 | WITNESS_V1 | WITNESS_V1_BHC | WITNESS_V1_PQ

record HybridSignatureData =
  ecdsa_signature :: bytes
  mldsa_signature :: bytes
  ecdsa_pubkey :: bytes
  hsd_mldsa_pubkey :: bytes
  use_post_quantum :: bool
  sig_version :: SigVersion

definition new_HybridSignatureData :: HybridSignatureData where
  "new_HybridSignatureData = \<lparr>ecdsa_signature = [], mldsa_signature = [], ecdsa_pubkey = [],
     hsd_mldsa_pubkey = [], use_post_quantum = False, sig_version = BASE\<rparr>"

record CHybridSignatureValidator =
  m_require_quantum_safe :: bool
  hv_mldsa_level :: MLDSA_Level

definition new_CHybridSignatureValidator :: "bool \<Rightarrow> MLDSA_Level \<Rightarrow> CHybridSignatureValidator" where
  "new_CHybridSignatureValidator require_quantum_safe level =
     \<lparr>m_require_quantum_safe = require_quantum_safe, hv_mldsa_level = level\<rparr>"

definition SetRequireQuantumSafe :: "CHybridSignatureValidator \<Rightarrow> bool \<Rightarrow> CHybridSignatureValidator" where
  "SetRequireQuantumSafe v b = v\<lparr>m_require_quantum_safe := b\<rparr>"

section \<open>Operations\<close>

definition verifyECDSA :: "ecdsa \<Rightarrow> bytes \<Rightarrow> bytes \<Rightarrow> bytes \<Rightarrow> bool" where
  "verifyECDSA env signature pubkey message_hash =
     (if length signature < 8 \<or> length signature > 72 then False
      else if length pubkey \<noteq> 33 \<and> length pubkey \<noteq> 65 then False
      else if length message_hash \<noteq> 32 then False
      else if \<not> CPubKey_IsValid env pubkey then False
      else CPubKey_Verify env pubkey message_hash signature)"

definition verifyMLDSA ::
  "'alg build \<Rightarrow> CHybridSignatureValidator \<Rightarrow> bytes \<Rightarrow> bytes \<Rightarrow> bytes \<Rightarrow> bool outcome" where
  "verifyMLDSA build v signature pubkey message_hash =
     (let level = hv_mldsa_level v;
          expected_sig_size = sig_size level;
          expected_pk_size = pk_size level
      in if length signature \<noteq> expected_sig_size then result False
         else if length pubkey \<noteq> expected_pk_size then result False
         else if length message_hash \<noteq> 32 then result False
         else let sig = new_Signature level;
                  sig = sig\<lparr>sig_data := copy_into signature (sig_data sig)\<rparr>;
                  pk = new_PublicKey level;
                  pk = pk\<lparr>pk_data := copy_into pubkey (pk_data pk)\<rparr>
              in MLDSA_Verify build message_hash sig pk [])"

definition IsPostQuantumWitness :: "SigVersion \<Rightarrow> bool" where
  "IsPostQuantumWitness version \<longleftrightarrow> version = WITNESS_V1_BHC \<or> version = WITNESS_V1_PQ"

text \<open>The ML-DSA check may fail to return; the decision after it is \<open>hybrid_decision\<close>.\<close>

definition hybrid_decision :: "CHybridSignatureValidator \<Rightarrow> SigVersion \<Rightarrow> bool \<Rightarrow> bool \<Rightarrow> bool" where
  "hybrid_decision v version ecdsa_valid mldsa_valid =
     (if m_require_quantum_safe v then mldsa_valid
      else if IsPostQuantumWitness version then ecdsa_valid \<and> mldsa_valid
      else ecdsa_valid)"

definition VerifyHybrid ::
  "'alg build \<Rightarrow> ecdsa \<Rightarrow> CHybridSignatureValidator \<Rightarrow> HybridSignatureData \<Rightarrow> bytes \<Rightarrow> bool outcome" where
  "VerifyHybrid build env v sd message_hash =
     (let ecdsa_valid =
            (if ecdsa_signature sd \<noteq> [] \<and> ecdsa_pubkey sd \<noteq> []
             then verifyECDSA env (ecdsa_signature sd) (ecdsa_pubkey sd) message_hash else False);
          mldsa_result =
            (if mldsa_signature sd \<noteq> [] \<and> hsd_mldsa_pubkey sd \<noteq> []
             then verifyMLDSA build v (mldsa_signature sd) (hsd_mldsa_pubkey sd) message_hash
             else result False)
      in map_option (map_sum id (hybrid_decision v (sig_version sd) ecdsa_valid)) mldsa_result)"

definition VerifyPostQuantumOnly ::
  "'alg build \<Rightarrow> CHybridSignatureValidator \<Rightarrow> bytes \<Rightarrow> bytes \<Rightarrow> bytes \<Rightarrow> bool outcome" where
  "VerifyPostQuantumOnly build v signature pubkey message_hash =
     verifyMLDSA build v signature pubkey message_hash"

definition VerifyLegacyOnly :: "ecdsa \<Rightarrow> bytes \<Rightarrow> bytes \<Rightarrow> bytes \<Rightarrow> bool" where
  "VerifyLegacyOnly env signature pubkey message_hash = verifyECDSA env signature pubkey message_hash"

definition DetectSignatureVersion :: "bytes \<Rightarrow> SigVersion" where
  "DetectSignatureVersion witness_program =
     (case witness_program of
        [] \<Rightarrow> BASE
      | version # _ \<Rightarrow>
          if version = 0x00 then WITNESS_V0
          else if version = 0x01 then WITNESS_V1
          else if version = 0x42 then WITNESS_V1_BHC
          else if version = 0x43 then WITNESS_V1_PQ
          else BASE)"

definition ExecutePostQuantumVerify :: "'alg build \<Rightarrow> bytes \<Rightarrow> bytes \<Rightarrow> bytes \<Rightarrow> bool outcome" where
  "ExecutePostQuantumVerify build vchSig vchPubKey vchMessageHash =
     (if length vchSig \<noteq> sig_size Level3 then result False
      else if length vchPubKey \<noteq> pk_size Level3 then result False
      else let sig = new_Signature Level3;
               sig = sig\<lparr>sig_data := copy_into vchSig (sig_data sig)\<rparr>;
               pk = new_PublicKey Level3;
               pk = pk\<lparr>pk_data := copy_into vchPubKey (pk_data pk)\<rparr>
           in MLDSA_Verify build vchMessageHash sig pk [])"

definition split_signature :: "bytes \<Rightarrow> bytes \<Rightarrow> SigVersion \<Rightarrow> HybridSignatureData" where
  "split_signature vchSig vchPubKey sigversion =
     (let sd = new_HybridSignatureData\<lparr>sig_version := sigversion\<rparr>;
          ecdsa_sig_len = 71;
          ecdsa_pk_len = 33
      in if length vchSig \<le> 72 then sd\<lparr>ecdsa_signature := vchSig, ecdsa_pubkey := vchPubKey\<rparr>
         else if length vchSig \<ge> ecdsa_sig_len + ecdsa_pk_len + sig_size Level3
         then sd\<lparr>ecdsa_signature := take ecdsa_sig_len vchSig,
                 ecdsa_pubkey := take ecdsa_pk_len (drop ecdsa_sig_len vchSig),
                 mldsa_signature := take (sig_size Level3) (drop (ecdsa_sig_len + ecdsa_pk_len) vchSig),
                 hsd_mldsa_pubkey := vchPubKey, use_post_quantum := True\<rparr>
         else sd)"

definition EvalCheckSigHybrid ::
  "'alg build \<Rightarrow> ecdsa \<Rightarrow> bytes \<Rightarrow> bytes \<Rightarrow> bytes \<Rightarrow> SigVersion \<Rightarrow> bool outcome" where
  "EvalCheckSigHybrid build env vchSig vchPubKey vchMessageHash sigversion =
     (let validator = new_CHybridSignatureValidator False Level3
      in if IsPostQuantumWitness sigversion \<and> length vchSig > 3000
         then ExecutePostQuantumVerify build vchSig vchPubKey vchMessageHash
         else VerifyHybrid build env validator (split_signature vchSig vchPubKey sigversion) vchMessageHash)"

text \<open>\<^verbatim>\<open>size_t\<close> is 64 bits wide: the product wraps.\<close>

definition CalculatePQWitnessWeight :: "u64 \<Rightarrow> u64 \<Rightarrow> u64" where
  "CalculatePQWitnessWeight signature_size pubkey_size =
     (let base_weight = (signature_size + pubkey_size) * 4;
          discounted_weight = base_weight div 16
      in max discounted_weight 200)"

definition ToBhcCryptoHash :: "bytes \<Rightarrow> crypto_uint256" where
  "ToBhcCryptoHash h = ToBhcCrypto h"

definition FromBhcCryptoHash :: "crypto_uint256 \<Rightarrow> bytes" where
  "FromBhcCryptoHash h = FromBhcCrypto h"

section \<open>What acceptance means\<close>

lemma result_inject [simp]: "result a = result b \<longleftrightarrow> a = b"
  by (simp add: result_def)

lemma map_outcome_result:
  "map_option (map_sum id f) r = result b \<longleftrightarrow> (\<exists>m. r = result m \<and> f m = b)"
proof (cases r)
  case (Some z)
  then show ?thesis by (cases z) (auto simp: result_def)
qed (simp add: result_def)

lemma MLDSA_Verify_oqs:
  "MLDSA_Verify (WithOQS env rnd) message signature pk context =
     (case OQS_SIG_new env (getAlgorithmName (WithOQS env rnd) (pk_level pk)) of
        None \<Rightarrow> Some (Inl ''Failed to create ML-DSA signature object'')
      | Some alg \<Rightarrow> result (OQS_SIG_verify env alg message
            (take (sig_size (pk_level pk)) (sig_data signature)) (pk_data pk)))"
  by (simp add: MLDSA_Verify_def CMLDSA_Verify_def new_CMLDSA_def Verify_def verifyInternal_def
      SetPublicKey_def result_def Let_def split: option.splits)

lemma verifyMLDSA_accepts:
  assumes "verifyMLDSA (WithOQS oqs rnd) v signature pubkey h = result True"
  shows "length signature = sig_size (hv_mldsa_level v) \<and> length pubkey = pk_size (hv_mldsa_level v) \<and>
    length h = 32 \<and>
    (\<exists>alg. OQS_SIG_new oqs (getAlgorithmName (WithOQS oqs rnd) (hv_mldsa_level v)) = Some alg \<and>
       OQS_SIG_verify oqs alg h signature pubkey)"
  using assms
  by (auto simp: verifyMLDSA_def Let_def MLDSA_Verify_oqs new_Signature_def new_PublicKey_def
      result_def split: if_splits option.splits)

lemma verifyECDSA_accepts:
  "verifyECDSA env signature pubkey h \<longleftrightarrow>
     8 \<le> length signature \<and> length signature \<le> 72 \<and> (length pubkey = 33 \<or> length pubkey = 65) \<and>
     length h = 32 \<and> CPubKey_IsValid env pubkey \<and> CPubKey_Verify env pubkey h signature"
  by (auto simp: verifyECDSA_def)

text \<open>
  C17. Acceptance by the hybrid validator is backed by the underlying schemes: a validator that
  requires quantum safety, or a post-quantum witness version, accepts only what liboqs accepts for
  the level of the validator, at the exact sizes of that level; a validator that does not require
  it accepts only what ECDSA accepts; and a post-quantum version then needs both.
\<close>

theorem hybrid_acceptance:
  assumes "VerifyHybrid (WithOQS oqs rnd) env v sd h = result True"
  shows "(m_require_quantum_safe v \<or> IsPostQuantumWitness (sig_version sd) \<longrightarrow>
           length (mldsa_signature sd) = sig_size (hv_mldsa_level v) \<and>
           length (hsd_mldsa_pubkey sd) = pk_size (hv_mldsa_level v) \<and>
           (\<exists>alg. OQS_SIG_new oqs (getAlgorithmName (WithOQS oqs rnd) (hv_mldsa_level v)) = Some alg \<and>
              OQS_SIG_verify oqs alg h (mldsa_signature sd) (hsd_mldsa_pubkey sd))) \<and>
         (\<not> m_require_quantum_safe v \<longrightarrow>
           CPubKey_IsValid env (ecdsa_pubkey sd) \<and>
           CPubKey_Verify env (ecdsa_pubkey sd) h (ecdsa_signature sd))"
proof -
  let ?m = "if mldsa_signature sd \<noteq> [] \<and> hsd_mldsa_pubkey sd \<noteq> []
     then verifyMLDSA (WithOQS oqs rnd) v (mldsa_signature sd) (hsd_mldsa_pubkey sd) h else result False"
  let ?e = "if ecdsa_signature sd \<noteq> [] \<and> ecdsa_pubkey sd \<noteq> []
     then verifyECDSA env (ecdsa_signature sd) (ecdsa_pubkey sd) h else False"
  have "map_option (map_sum id (hybrid_decision v (sig_version sd) ?e)) ?m = result True"
    using assms unfolding VerifyHybrid_def Let_def .
  then obtain m where m: "?m = result m" and dec: "hybrid_decision v (sig_version sd) ?e m"
    unfolding map_outcome_result by blast
  have "m \<Longrightarrow> verifyMLDSA (WithOQS oqs rnd) v (mldsa_signature sd) (hsd_mldsa_pubkey sd) h = result True"
    using m by (simp split: if_splits)
  with dec verifyMLDSA_accepts [of oqs rnd v "mldsa_signature sd" "hsd_mldsa_pubkey sd" h]
  show ?thesis by (auto simp: hybrid_decision_def verifyECDSA_accepts split: if_splits)
qed

definition toy_ecdsa :: ecdsa where
  "toy_ecdsa = \<lparr>CPubKey_IsValid = (\<lambda>pk. True), CPubKey_Verify = (\<lambda>pk h s. s = replicate 71 (hd pk))\<rparr>"

definition toy_sd :: HybridSignatureData where
  "toy_sd = \<lparr>ecdsa_signature = replicate 71 2, mldsa_signature = replicate 3293 7,
     ecdsa_pubkey = replicate 33 2, hsd_mldsa_pubkey = replicate 1952 7, use_post_quantum = True,
     sig_version = WITNESS_V1_BHC\<rparr>"

theorem hybrid_acceptance_witness:
  "(\<exists>alg. OQS_SIG_new toy_oqs OQS_DILITHIUM_3 = Some alg \<and>
      OQS_SIG_verify toy_oqs alg (replicate 32 1) (mldsa_signature toy_sd) (hsd_mldsa_pubkey toy_sd)) \<and>
   CPubKey_Verify toy_ecdsa (ecdsa_pubkey toy_sd) (replicate 32 1) (ecdsa_signature toy_sd)"
proof -
  let ?v = "new_CHybridSignatureValidator False Level3"
  have "VerifyHybrid (WithOQS toy_oqs 7) toy_ecdsa ?v toy_sd (replicate 32 1) = result True"
    by (simp add: VerifyHybrid_def verifyECDSA_def verifyMLDSA_def new_CHybridSignatureValidator_def
        toy_sd_def toy_ecdsa_def toy_oqs_def MLDSA_Verify_oqs hybrid_decision_def
        IsPostQuantumWitness_def new_Signature_def new_PublicKey_def result_def Let_def)
  from hybrid_acceptance [OF this] show ?thesis
    by (simp add: IsPostQuantumWitness_def new_CHybridSignatureValidator_def toy_sd_def)
qed

text \<open>
  In a post-quantum witness the script entry point never checks an ECDSA signature: it is the
  ML-DSA-only verifier, on every input and in every build, so the branch that splits a combined
  signature into its two halves is never reached by such a witness.
\<close>

theorem pq_witness_is_mldsa_only:
  assumes "IsPostQuantumWitness sigversion"
  shows "EvalCheckSigHybrid build env vchSig vchPubKey vchMessageHash sigversion
       = ExecutePostQuantumVerify build vchSig vchPubKey vchMessageHash"
proof (cases "3000 < length vchSig")
  case True
  with assms show ?thesis by (simp add: EvalCheckSigHybrid_def)
next
  case False
  then have "mldsa_signature (split_signature vchSig vchPubKey sigversion) = []"
    and "sig_version (split_signature vchSig vchPubKey sigversion) = sigversion"
    by (simp_all add: split_signature_def new_HybridSignatureData_def Let_def)
  with False assms show ?thesis
    by (simp add: EvalCheckSigHybrid_def ExecutePostQuantumVerify_def VerifyHybrid_def
        hybrid_decision_def new_CHybridSignatureValidator_def result_def Let_def)
qed

theorem pq_witness_is_mldsa_only_witness:
  "EvalCheckSigHybrid (WithOQS toy_oqs 7) toy_ecdsa (replicate 3397 2) (replicate 1952 7) (replicate 32 1)
     (DetectSignatureVersion [0x42]) = result False"
proof -
  have "IsPostQuantumWitness (DetectSignatureVersion [0x42])"
    by (simp add: IsPostQuantumWitness_def DetectSignatureVersion_def)
  then show ?thesis
    by (subst pq_witness_is_mldsa_only) (simp_all add: ExecutePostQuantumVerify_def)
qed

end
