(* ===== verification/MldsaShake.thy ===== *)
theory MldsaShake
  imports Prelude
begin

text \<open>
  Model of the hashing part of \<^verbatim>\<open>BHC/src/crypto/mldsa_fips204.h\<close>: the Keccak permutation and the
  class \<^verbatim>\<open>Shake\<close>, against the permutation and the sponge of FIPS 202.
\<close>

section \<open>The permutation\<close>

definition rotl64 :: "u64 \<Rightarrow> nat \<Rightarrow> u64" where
  "rotl64 x n = push_bit n x OR drop_bit (64 - n) x"

definition keccak_RC :: "u64 list" where
  "keccak_RC =
     [0x0000000000000001, 0x0000000000008082, 0x800000000000808a,
      0x8000000080008000, 0x000000000000808b, 0x0000000080000001,
      0x8000000080008081, 0x8000000000008009, 0x000000000000008a,
      0x0000000000000088, 0x0000000080008009, 0x000000008000000a,
      0x000000008000808b, 0x800000000000008b, 0x8000000000008089,
      0x8000000000008003, 0x8000000000008002, 0x8000000000000080,
      0x000000000000800a, 0x800000008000000a, 0x8000000080008081,
      0x8000000000008080, 0x0000000080000001, 0x8000000080008008]"

definition keccak_rho :: "nat list" where
  "keccak_rho = [1, 3, 6, 10, 15, 21, 28, 36, 45, 55, 2, 14,
     27, 41, 56, 8, 25, 43, 62, 18, 39, 61, 20, 44]"

definition keccak_pi :: "nat list" where
  "keccak_pi = [10, 7, 11, 17, 18, 3, 5, 16, 8, 21, 24, 4,
     15, 23, 19, 13, 12, 2, 20, 14, 22, 9, 6, 1]"

definition keccak_theta :: "u64 list \<Rightarrow> u64 list" where
  "keccak_theta st =
     (let bc = map (\<lambda>i. st ! i XOR st ! (i + 5) XOR st ! (i + 10) XOR st ! (i + 15) XOR st ! (i + 20)) [0..<5]
      in fold (\<lambda>i st.
           let t = bc ! ((i + 4) mod 5) XOR rotl64 (bc ! ((i + 1) mod 5)) 1
           in fold (\<lambda>j st. st[j + i := st ! (j + i) XOR t]) (for_list 0 25 5) st) [0..<5] st)"

definition keccak_rho_pi :: "u64 list \<Rightarrow> u64 list" where
  "keccak_rho_pi st =
     fst (fold (\<lambda>i (st, t). let j = keccak_pi ! i; tmp = st ! j
                            in (st[j := rotl64 t (keccak_rho ! i)], tmp)) [0..<24] (st, st ! 1))"

definition keccak_chi :: "u64 list \<Rightarrow> u64 list" where
  "keccak_chi st =
     fold (\<lambda>j st.
       let a = map (\<lambda>i. st ! (j + i)) [0..<5]
       in fold (\<lambda>i st. st[j + i := a ! i XOR (NOT (a ! ((i + 1) mod 5)) AND a ! ((i + 2) mod 5))]) [0..<5] st)
       (for_list 0 25 5) st"

definition keccak_round :: "nat \<Rightarrow> u64 list \<Rightarrow> u64 list" where
  "keccak_round r st =
     (let st = keccak_chi (keccak_rho_pi (keccak_theta st)) in st[0 := st ! 0 XOR keccak_RC ! r])"

definition keccakf :: "u64 list \<Rightarrow> u64 list" where
  "keccakf st = fold keccak_round [0..<24] st"

section \<open>The class Shake\<close>

record Shake =
  sh_st :: "u64 list"
  sh_rate :: nat
  squeezePos :: nat

definition xor_block :: "nat \<Rightarrow> (nat \<Rightarrow> byte) \<Rightarrow> u64 list \<Rightarrow> u64 list" where
  "xor_block n f st = fold (\<lambda>i st. xor_state_byte i (f i) st) [0..<n] st"

definition absorb :: "nat \<Rightarrow> bytes \<Rightarrow> u64 list \<Rightarrow> u64 list" where
  "absorb rate input st =
     (let blocks = length input div rate;
          st = fold (\<lambda>b st. keccakf (xor_block rate (\<lambda>i. input ! (b * rate + i)) st)) [0..<blocks] st;
          rem = length input - blocks * rate;
          st = xor_block rem (\<lambda>i. input ! (blocks * rate + i)) st;
          st = xor_state_byte rem 0x1F st;
          st = xor_state_byte (rate - 1) 0x80 st
      in keccakf st)"

definition new_Shake :: "nat \<Rightarrow> bytes \<Rightarrow> Shake" where
  "new_Shake rateBytes input =
     \<lparr>sh_st = absorb rateBytes input (replicate 25 0), sh_rate = rateBytes, squeezePos = 0\<rparr>"

definition shake_step :: "Shake \<Rightarrow> byte \<times> Shake" where
  "shake_step s =
     (let s = (if squeezePos s = sh_rate s then s\<lparr>sh_st := keccakf (sh_st s), squeezePos := 0\<rparr> else s)
      in (state_byte (sh_st s) (squeezePos s), s\<lparr>squeezePos := squeezePos s + 1\<rparr>))"

fun shake_read :: "Shake \<Rightarrow> nat \<Rightarrow> bytes \<times> Shake" where
  "shake_read s 0 = ([], s)"
| "shake_read s (Suc n) =
     (case shake_step s of (b, s) \<Rightarrow> (case shake_read s n of (bs, s) \<Rightarrow> (b # bs, s)))"

definition readByte :: "Shake \<Rightarrow> byte \<times> Shake" where
  "readByte s = (case shake_read s 1 of (bs, s) \<Rightarrow> (hd bs, s))"

definition cat :: "bytes list \<Rightarrow> bytes" where
  "cat parts = fold (\<lambda>p out. out @ p) parts []"

definition shake256Sum :: "nat \<Rightarrow> bytes \<Rightarrow> bytes" where
  "shake256Sum outLen input = fst (shake_read (new_Shake 136 input) outLen)"

section \<open>The reference permutation\<close>

text \<open>
  FIPS 202, section 3.2, on lanes \<open>A x y\<close>: the steps of one round as the standard writes them, and the
  order of the lanes in the state.
\<close>

type_synonym lanes = "nat \<Rightarrow> nat \<Rightarrow> u64"

definition lanes_of :: "u64 list \<Rightarrow> lanes" where
  "lanes_of st x y = st ! (x + 5 * y)"

definition ref_theta :: "lanes \<Rightarrow> lanes" where
  "ref_theta A x y =
     (let C = (\<lambda>x. A x 0 XOR A x 1 XOR A x 2 XOR A x 3 XOR A x 4)
      in A x y XOR (C ((x + 4) mod 5) XOR rotl64 (C ((x + 1) mod 5)) 1))"

text \<open>
  The offsets of the step rho: \<open>(t + 1) * (t + 2) / 2\<close> at the \<open>t\<close>-th lane of the walk from \<open>(1, 0)\<close>
  by \<open>(x, y)\<close> to \<open>(y, 2 * x + 3 * y)\<close>; the lane \<open>(0, 0)\<close> is not rotated.
\<close>

fun rho_walk :: "nat \<Rightarrow> nat \<times> nat" where
  "rho_walk 0 = (1, 0)"
| "rho_walk (Suc t) = (case rho_walk t of (x, y) \<Rightarrow> (y, (2 * x + 3 * y) mod 5))"

definition rho_offset :: "nat \<Rightarrow> nat \<Rightarrow> nat" where
  "rho_offset x y =
     (case find (\<lambda>t. rho_walk t = (x, y)) [0..<24] of
        Some t \<Rightarrow> (t + 1) * (t + 2) div 2 mod 64
      | None \<Rightarrow> 0)"

definition ref_rho :: "lanes \<Rightarrow> lanes" where
  "ref_rho A x y = (if (x, y) = (0, 0) then A 0 0 else rotl64 (A x y) (rho_offset x y))"

definition ref_pi :: "lanes \<Rightarrow> lanes" where
  "ref_pi A x y = A ((x + 3 * y) mod 5) x"

definition ref_chi :: "lanes \<Rightarrow> lanes" where
  "ref_chi A x y = A x y XOR (NOT (A ((x + 1) mod 5) y) AND A ((x + 2) mod 5) y)"

definition ref_iota :: "nat \<Rightarrow> lanes \<Rightarrow> lanes" where
  "ref_iota r A x y = (if (x, y) = (0, 0) then A 0 0 XOR keccak_RC ! r else A x y)"

definition ref_round :: "nat \<Rightarrow> lanes \<Rightarrow> lanes" where
  "ref_round r A = ref_iota r (ref_chi (ref_pi (ref_rho (ref_theta A))))"

definition ref_keccakf :: "lanes \<Rightarrow> lanes" where
  "ref_keccakf A = fold ref_round [0..<24] A"

definition state_of :: "lanes \<Rightarrow> u64 list" where
  "state_of A = map (\<lambda>i. A (i mod 5) (i div 5)) [0..<25]"

section \<open>The permutation is the reference\<close>

lemma Suc_Suc_0: "Suc (Suc 0) = 2"
  by simp

lemma upt_5: "[0..<5] = [0, 1, 2, 3, 4]"
  by (simp add: upt_rec)

lemma for_list_25: "for_list 0 25 5 = [0, 5, 10, 15, 20]"
  by code_simp

lemma upt_24: "[0..<24] = [0, 1, 2, 3, 4, 5, 6, 7, 8, 9, 10, 11, 12, 13, 14, 15, 16, 17, 18, 19, 20, 21, 22, 23]"
  by (simp add: upt_rec)

lemma state_of_eq:
  "state_of A = [A 0 0, A 1 0, A 2 0, A 3 0, A 4 0, A 0 1, A 1 1, A 2 1, A 3 1, A 4 1, A 0 2, A 1 2, A 2 2, A 3 2, A 4 2, A 0 3, A 1 3, A 2 3, A 3 3, A 4 3, A 0 4, A 1 4, A 2 4, A 3 4, A 4 4]"
  by (simp add: state_of_def upt_rec Suc_Suc_0)

lemma rho_offsets:
    "rho_offset 0 0 = 0"
    "rho_offset (Suc 0) 0 = 1"
    "rho_offset 2 0 = 62"
    "rho_offset 3 0 = 28"
    "rho_offset 4 0 = 27"
    "rho_offset 0 (Suc 0) = 36"
    "rho_offset (Suc 0) (Suc 0) = 44"
    "rho_offset 2 (Suc 0) = 6"
    "rho_offset 3 (Suc 0) = 55"
    "rho_offset 4 (Suc 0) = 20"
    "rho_offset 0 2 = 3"
    "rho_offset (Suc 0) 2 = 10"
    "rho_offset 2 2 = 43"
    "rho_offset 3 2 = 25"
    "rho_offset 4 2 = 39"
    "rho_offset 0 3 = 41"
    "rho_offset (Suc 0) 3 = 45"
    "rho_offset 2 3 = 15"
    "rho_offset 3 3 = 21"
    "rho_offset 4 3 = 8"
    "rho_offset 0 4 = 18"
    "rho_offset (Suc 0) 4 = 2"
    "rho_offset 2 4 = 61"
    "rho_offset 3 4 = 56"
    "rho_offset 4 4 = 14"
  by code_simp+

lemma theta_ref: "keccak_theta (state_of A) = state_of (ref_theta A)"
  unfolding state_of_eq keccak_theta_def
  by (simp add: upt_5 for_list_25 Let_def ref_theta_def xor.assoc Suc_Suc_0)

lemma rho_pi_ref: "keccak_rho_pi (state_of A) = state_of (ref_pi (ref_rho A))"
  unfolding state_of_eq keccak_rho_pi_def
  by (simp add: upt_24 keccak_pi_def keccak_rho_def Let_def ref_pi_def ref_rho_def rho_offsets Suc_Suc_0)

lemma chi_ref: "keccak_chi (state_of A) = state_of (ref_chi A)"
  unfolding state_of_eq keccak_chi_def
  by (simp add: upt_5 for_list_25 Let_def ref_chi_def Suc_Suc_0)

lemma round_ref: "keccak_round r (state_of A) = state_of (ref_round r A)"
  unfolding keccak_round_def ref_round_def theta_ref rho_pi_ref chi_ref
  by (simp add: state_of_eq ref_iota_def)

lemma keccakf_state_of: "keccakf (state_of A) = state_of (ref_keccakf A)"
proof -
  have "fold keccak_round rs (state_of A) = state_of (fold ref_round rs A)" for rs
    by (induction rs arbitrary: A) (simp_all add: round_ref)
  then show ?thesis by (simp only: keccakf_def ref_keccakf_def)
qed

lemma state_of_lanes: "length st = 25 \<Longrightarrow> state_of (lanes_of st) = st"
  by (rule nth_equalityI) (simp_all add: state_of_def lanes_of_def)

lemma length_keccakf [simp]: "length st = 25 \<Longrightarrow> length (keccakf st) = 25"
  using keccakf_state_of [of "lanes_of st"] state_of_lanes [of st] by (simp add: state_of_def)



section \<open>The class is the sponge\<close>

text \<open>
  FIPS 202, sections 4 and 6.2: the input with the suffix and padding of SHAKE in whole blocks, the
  state after absorbing them, and the output stream.
\<close>

definition shake_pad :: "nat \<Rightarrow> bytes \<Rightarrow> bytes" where
  "shake_pad rate m =
     (let rem = length m mod rate
      in m @ (if rem = rate - 1 then [0x9F] else 0x1F # replicate (rate - 2 - rem) 0 @ [0x80]))"

definition sponge_absorb :: "nat \<Rightarrow> bytes \<Rightarrow> u64 list" where
  "sponge_absorb rate p =
     fold (\<lambda>b st. keccakf (xor_block rate (\<lambda>i. p ! (b * rate + i)) st)) [0..<length p div rate] (replicate 25 0)"

definition sponge_output :: "nat \<Rightarrow> u64 list \<Rightarrow> nat \<Rightarrow> byte" where
  "sponge_output rate st i = state_byte ((keccakf ^^ (i div rate)) st) (i mod rate)"

lemma xor_state_byte_0 [simp]: "xor_state_byte k 0 st = st"
  by (simp add: xor_state_byte_def)

lemma xor_state_byte_twice:
  assumes "k div 8 < length st"
  shows "xor_state_byte k a (xor_state_byte k b st) = xor_state_byte k (b XOR a) st"
proof -
  have "push_bit n (ucast (b XOR a)) = push_bit n (ucast b :: u64) XOR push_bit n (ucast a)" for n
    by (rule bit_word_eqI) (auto simp: bit_simps)
  then show ?thesis using assms by (simp add: xor_state_byte_def xor.assoc)
qed

lemma length_xor_state_byte [simp]: "length (xor_state_byte k v st) = length st"
  by (simp add: xor_state_byte_def)

lemma length_xor_block [simp]: "length (xor_block n f st) = length st"
  unfolding xor_block_def by (induction n) simp_all

lemma xor_block_Suc: "xor_block (Suc n) f st = xor_state_byte n (f n) (xor_block n f st)"
  by (simp add: xor_block_def)

lemma xor_block_cong: "(\<And>i. i < n \<Longrightarrow> f i = g i) \<Longrightarrow> xor_block n f st = xor_block n g st"
  by (induction n) (simp_all add: xor_block_Suc xor_block_def [of 0])

lemma xor_block_zeros:
  "rem < n \<Longrightarrow> (\<And>i. rem < i \<Longrightarrow> i < n \<Longrightarrow> f i = 0) \<Longrightarrow>
   xor_block n f st = xor_state_byte rem (f rem) (xor_block rem f st)"
proof (induction n)
  case (Suc n)
  then show ?case by (cases "rem = n") (simp_all add: xor_block_Suc)
qed simp

lemma absorb_padded:
  assumes "0 < rate" and "rate \<le> 200"
  shows "absorb rate input (replicate 25 0) = sponge_absorb rate (shake_pad rate input)"
proof -
  define n where "n = length input div rate"
  define rem where "rem = length input mod rate"
  define p where "p = shake_pad rate input"
  have len: "length input = n * rate + rem" by (simp add: n_def rem_def)
  have rem: "rem < rate" using assms by (simp add: rem_def)
  define t :: bytes where "t = (if rem = rate - 1 then [0x9F] else 0x1F # replicate (rate - 2 - rem) 0 @ [0x80])"
  have p: "p = input @ t" by (simp only: p_def shake_pad_def Let_def rem_def t_def)
  have lt: "length t = rate - rem" using rem by (auto simp: t_def)
  then have lp: "length p = (n + 1) * rate" using rem by (simp add: p len)
  have pre: "p ! j = input ! j" if "j < length input" for j
    using that by (simp add: p nth_append)
  have suf: "p ! (n * rate + i) = t ! (i - rem)" if "rem \<le> i" for i
    using that by (simp add: p len nth_append)
  define st where "st = fold (\<lambda>b st. keccakf (xor_block rate (\<lambda>i. input ! (b * rate + i)) st)) [0..<n] (replicate 25 0)"
  have st: "st = fold (\<lambda>b st. keccakf (xor_block rate (\<lambda>i. p ! (b * rate + i)) st)) [0..<n] (replicate 25 0)"
    unfolding st_def
  proof (rule fold_cong [OF refl refl], rule ext)
    fix b and s :: "u64 list" assume "b \<in> set [0..<n]"
    then have "(b + 1) * rate \<le> n * rate" by (intro mult_le_mono1) simp
    then have "p ! (b * rate + i) = input ! (b * rate + i)" if "i < rate" for i
      using that len by (intro pre) simp
    then show "keccakf (xor_block rate (\<lambda>i. input ! (b * rate + i)) s)
        = keccakf (xor_block rate (\<lambda>i. p ! (b * rate + i)) s)"
      by (intro arg_cong [where f = keccakf] xor_block_cong) simp
  qed
  have l25: "length st = 25"
    unfolding st_def by (rule fold_invariant [where P = "\<lambda>s. length s = 25"]) simp_all
  let ?f = "\<lambda>i. p ! (n * rate + i)"
  have head: "xor_block rem (\<lambda>i. input ! (n * rate + i)) st = xor_block rem ?f st"
    by (rule xor_block_cong) (simp add: pre len)
  have last: "xor_block rate ?f st
      = xor_state_byte (rate - 1) 0x80 (xor_state_byte rem 0x1F (xor_block rem ?f st))"
  proof (cases "rem = rate - 1")
    case True
    then have "xor_block rate ?f st = xor_state_byte rem 0x9F (xor_block rem ?f st)"
      using xor_block_zeros [of rem rate ?f st] rem suf [of rem] by (simp add: t_def)
    moreover have "rem div 8 < 25" using rem assms by simp
    ultimately show ?thesis using True l25 by (simp add: xor_state_byte_twice)
  next
    case False
    then have r: "rem < rate - 1" using rem by simp
    have t: "t ! 0 = 0x1F" "t ! (rate - 1 - rem) = 0x80" "\<And>i. rem < i \<Longrightarrow> i < rate - 1 \<Longrightarrow> t ! (i - rem) = 0"
      using False r by (auto simp: t_def nth_append nth_Cons')
    have f: "?f rem = 0x1F" "?f (rate - 1) = 0x80" "\<And>i. rem < i \<Longrightarrow> i < rate - 1 \<Longrightarrow> ?f i = 0"
      using t suf [of rem] suf [of "rate - 1"] suf r by (simp_all only: less_imp_le diff_self_eq_0 order_refl)
    have "xor_block rate ?f st = xor_state_byte (rate - 1) (?f (rate - 1)) (xor_block (rate - 1) ?f st)"
      using xor_block_Suc [of "rate - 1" ?f st] assms by simp
    also have "xor_block (rate - 1) ?f st = xor_state_byte rem (?f rem) (xor_block rem ?f st)"
      by (rule xor_block_zeros [OF r f(3)])
    finally show ?thesis by (simp only: f)
  qed
  have "sponge_absorb rate p = keccakf (xor_block rate ?f st)"
    using assms by (simp add: sponge_absorb_def lp st)
  also have "\<dots> = absorb rate input (replicate 25 0)"
    unfolding last absorb_def Let_def n_def [symmetric] st_def [symmetric] head [symmetric]
    by (simp add: len)
  finally show ?thesis by (simp add: p_def)
qed

lemma sponge_output_permuted:
  "0 < rate \<Longrightarrow> sponge_output rate (keccakf st) j = sponge_output rate st (rate + j)"
  by (simp add: sponge_output_def funpow_swap1 div_add_self1)

lemma shake_read_stream:
  assumes "0 < sh_rate s" and "squeezePos s \<le> sh_rate s"
  shows "fst (shake_read s n) = map (\<lambda>i. sponge_output (sh_rate s) (sh_st s) (squeezePos s + i)) [0..<n] \<and>
    (case snd (shake_read s n) of s' \<Rightarrow> sh_rate s' = sh_rate s \<and> squeezePos s' \<le> sh_rate s' \<and>
       (\<forall>i. sponge_output (sh_rate s) (sh_st s') (squeezePos s' + i) = sponge_output (sh_rate s) (sh_st s) (squeezePos s + n + i)))"
  using assms
proof (induction n arbitrary: s)
  case (Suc n)
  obtain b s' where st: "shake_step s = (b, s')" by fastforce
  have "b = sponge_output (sh_rate s) (sh_st s) (squeezePos s) \<and>
    sh_rate s' = sh_rate s \<and> squeezePos s' \<le> sh_rate s' \<and>
    (\<forall>i. sponge_output (sh_rate s) (sh_st s') (squeezePos s' + i)
      = sponge_output (sh_rate s) (sh_st s) (squeezePos s + Suc i))"
  proof (cases "squeezePos s = sh_rate s")
    case True
    then have s': "s' = s\<lparr>sh_st := keccakf (sh_st s), squeezePos := 1\<rparr>" "b = state_byte (keccakf (sh_st s)) 0"
      using st by (simp_all add: shake_step_def Let_def)
    moreover have "state_byte (keccakf (sh_st s)) 0 = sponge_output (sh_rate s) (keccakf (sh_st s)) 0"
      using Suc.prems by (simp add: sponge_output_def)
    ultimately show ?thesis using True Suc.prems by (simp add: sponge_output_permuted)
  next
    case False
    then have s': "s' = s\<lparr>squeezePos := squeezePos s + 1\<rparr>" "b = state_byte (sh_st s) (squeezePos s)"
      using st by (simp_all add: shake_step_def Let_def)
    with False Suc.prems show ?thesis by (simp add: sponge_output_def)
  qed
  then have b: "b = sponge_output (sh_rate s) (sh_st s) (squeezePos s)"
    and s': "sh_rate s' = sh_rate s" "squeezePos s' \<le> sh_rate s'"
    and next_byte: "\<And>i. sponge_output (sh_rate s) (sh_st s') (squeezePos s' + i)
      = sponge_output (sh_rate s) (sh_st s) (squeezePos s + Suc i)" by blast+
  have far: "sponge_output (sh_rate s) (sh_st s') (squeezePos s' + n + i)
      = sponge_output (sh_rate s) (sh_st s) (Suc (squeezePos s + n + i))" for i
    using next_byte [of "n + i"] by (simp add: add.assoc)
  have "fst (shake_read s (Suc n)) = b # fst (shake_read s' n)" "snd (shake_read s (Suc n)) = snd (shake_read s' n)"
    by (simp_all add: st split_beta)
  with Suc.IH [of s'] s' Suc.prems b next_byte far show ?case
    by (simp add: upt_conv_Cons map_Suc_upt [symmetric] del: upt_Suc)
qed simp

text \<open>
  C16. The class \<^verbatim>\<open>Shake\<close> is the SHAKE sponge of FIPS 202: for any rate up to 200 bytes, the bytes it
  hands out are the output stream of the sponge that absorbed the padded input, whatever the sizes of
  the reads; in particular reading \<open>m\<close> and then \<open>n\<close> bytes is reading \<open>m + n\<close> bytes.
\<close>

theorem shake_is_sponge:
  assumes "0 < rate" and "rate \<le> 200"
  shows "fst (shake_read (new_Shake rate input) m)
       = map (sponge_output rate (sponge_absorb rate (shake_pad rate input))) [0..<m] \<and>
     fst (shake_read (snd (shake_read (new_Shake rate input) m)) n)
       = map (sponge_output rate (sponge_absorb rate (shake_pad rate input))) [m..<m + n]"
proof -
  let ?s = "new_Shake rate input"
  have s: "sh_rate ?s = rate" "squeezePos ?s = 0" "sh_st ?s = sponge_absorb rate (shake_pad rate input)"
    using absorb_padded [OF assms] by (simp_all add: new_Shake_def)
  define t where "t = snd (shake_read ?s m)"
  have one: "fst (shake_read ?s m) = map (sponge_output rate (sh_st ?s)) [0..<m]"
    "sh_rate t = rate" "squeezePos t \<le> sh_rate t"
    "\<And>i. sponge_output rate (sh_st t) (squeezePos t + i) = sponge_output rate (sh_st ?s) (m + i)"
    using shake_read_stream [of ?s m] assms(1) by (simp_all add: s(1,2) t_def)
  have "fst (shake_read t n) = map (\<lambda>i. sponge_output rate (sh_st ?s) (m + i)) [0..<n]"
    using shake_read_stream [of t n] one assms(1) by simp
  also have "\<dots> = map (sponge_output rate (sh_st ?s)) [m..<m + n]"
    by (rule nth_equalityI) simp_all
  finally show ?thesis using one(1) by (simp only: s(3) t_def)
qed

theorem shake_is_sponge_witness:
  "fst (shake_read (snd (shake_read (new_Shake 136 [1, 2, 3]) 8)) 1)
     = [sponge_output 136 (sponge_absorb 136 (shake_pad 136 [1, 2, 3])) 8]"
  using shake_is_sponge [of 136 "[1, 2, 3]" 8 1] by simp

end
