(* ===== verification/MldsaRing.thy ===== *)
theory MldsaRing
  imports Prelude
begin

text \<open>
  Model of the ring arithmetic of \<^verbatim>\<open>BHC/src/crypto/mldsa_fips204.h\<close>: modular powers, the table of
  roots, the number-theoretic transform and its inverse, products and sums of polynomials.

  Coefficients are \<^verbatim>\<open>int32_t\<close> and intermediate products \<^verbatim>\<open>int64_t\<close> in the source; here they are
  integers, and \<open>MldsaMachine\<close> proves that the transforms at machine width agree with them. The
  C++ remainder is \<open>crem\<close>. A \<^verbatim>\<open>Poly\<close> is a list of 256 coefficients.
\<close>

section \<open>Parameters and scalar arithmetic\<close>

definition Q :: int where "Q = 8380417"
definition NN :: nat where "NN = 256"
definition DD :: nat where "DD = 13"
definition ROOT_ZETA :: int where "ROOT_ZETA = 1753"

fun modPow_loop :: "int \<Rightarrow> int \<Rightarrow> nat \<Rightarrow> int \<Rightarrow> int" where
  "modPow_loop r base e m =
     (if e > 0
      then modPow_loop (if e mod 2 = 1 then crem (r * base) m else r) (crem (base * base) m) (e div 2) m
      else r)"

declare modPow_loop.simps [simp del]

definition modPow :: "int \<Rightarrow> nat \<Rightarrow> int \<Rightarrow> int" where
  "modPow base e m =
     (let base = crem base m;
          base = (if base < 0 then base + m else base)
      in modPow_loop 1 base e m)"

definition bitrev8 :: "nat \<Rightarrow> nat" where
  "bitrev8 x = fold (\<lambda>i r. 2 * r + x div 2 ^ i mod 2) [0..<8] 0"

fun bitlen_loop :: "nat \<Rightarrow> nat \<Rightarrow> nat" where
  "bitlen_loop n x = (if x > 0 then bitlen_loop (n + 1) (x div 2) else n)"

declare bitlen_loop.simps [simp del]

definition bitlen :: "nat \<Rightarrow> nat" where
  "bitlen x = bitlen_loop 0 x"

definition zetas :: "int list" where
  "zetas = map (\<lambda>i. modPow ROOT_ZETA (bitrev8 i) Q) [0..<NN]"

definition ninv :: int where
  "ninv = modPow (int NN) (nat (Q - 2)) Q"

definition modQ :: "int \<Rightarrow> int" where
  "modQ a = (let m = crem a Q in if m < 0 then m + Q else m)"

definition centered :: "int \<Rightarrow> int" where
  "centered a = (if a > cdiv Q 2 then a - Q else a)"

record Param =
  p_k :: nat
  p_l :: nat
  p_eta :: nat
  p_tau :: nat
  p_omega :: nat
  ctBytes :: nat
  p_beta :: int
  p_gamma1 :: int
  p_gamma2 :: int

definition paramFor :: "nat \<Rightarrow> Param" where
  "paramFor level =
     (if level = 44 then \<lparr>p_k = 4, p_l = 4, p_eta = 2, p_tau = 39, p_omega = 80, ctBytes = 32,
        p_beta = 39 * 2, p_gamma1 = 2 ^ 17, p_gamma2 = (Q - 1) div 88\<rparr>
      else if level = 87 then \<lparr>p_k = 8, p_l = 7, p_eta = 2, p_tau = 60, p_omega = 75, ctBytes = 64,
        p_beta = 60 * 2, p_gamma1 = 2 ^ 19, p_gamma2 = (Q - 1) div 32\<rparr>
      else \<lparr>p_k = 6, p_l = 5, p_eta = 4, p_tau = 49, p_omega = 55, ctBytes = 48,
        p_beta = 49 * 4, p_gamma1 = 2 ^ 19, p_gamma2 = (Q - 1) div 32\<rparr>)"

definition levelFromEnum :: "nat \<Rightarrow> nat" where
  "levelFromEnum levelEnum = (if levelEnum = 2 then 44 else if levelEnum = 5 then 87 else 65)"

section \<open>Polynomials\<close>

type_synonym Poly = "int list"
type_synonym PolyVec = "Poly list"

definition zero_poly :: Poly where
  "zero_poly = replicate NN 0"

definition is_poly :: "Poly \<Rightarrow> bool" where
  "is_poly a \<longleftrightarrow> length a = NN"

definition reduced :: "Poly \<Rightarrow> bool" where
  "reduced a \<longleftrightarrow> is_poly a \<and> (\<forall>c \<in> set a. 0 \<le> c \<and> c < Q)"

section \<open>The transform\<close>

text \<open>
  One butterfly, one block of \<open>len\<close> butterflies, and one layer, which visits the blocks in order and
  takes the next root for each.
\<close>

definition ntt_step :: "int \<Rightarrow> nat \<Rightarrow> nat \<Rightarrow> Poly \<Rightarrow> Poly" where
  "ntt_step zeta len j a =
     (let t = crem (zeta * a ! (j + len)) Q;
          a = a[j + len := modQ (a ! j - t)]
      in a[j := modQ (a ! j + t)])"

definition ntt_block :: "int \<Rightarrow> nat \<Rightarrow> nat \<Rightarrow> Poly \<Rightarrow> Poly" where
  "ntt_block zeta len start a = fold (ntt_step zeta len) [start..<start + len] a"

definition ntt_layer :: "nat \<Rightarrow> nat \<times> Poly \<Rightarrow> nat \<times> Poly" where
  "ntt_layer len s =
     fold (\<lambda>start (kk, a). (kk + 1, ntt_block (zetas ! (kk + 1)) len start a))
       (for_list 0 NN (2 * len)) s"

definition nttForward :: "Poly \<Rightarrow> Poly" where
  "nttForward a = snd (fold ntt_layer (halvings 128) (0, a))"

definition intt_step :: "int \<Rightarrow> nat \<Rightarrow> nat \<Rightarrow> Poly \<Rightarrow> Poly" where
  "intt_step zeta len j a =
     (let t = a ! j;
          a = a[j := modQ (t + a ! (j + len))];
          a = a[j + len := modQ (t - a ! (j + len))]
      in a[j + len := crem (zeta * a ! (j + len)) Q])"

definition intt_block :: "int \<Rightarrow> nat \<Rightarrow> nat \<Rightarrow> Poly \<Rightarrow> Poly" where
  "intt_block zeta len start a = fold (intt_step zeta len) [start..<start + len] a"

definition intt_layer :: "nat \<Rightarrow> nat \<times> Poly \<Rightarrow> nat \<times> Poly" where
  "intt_layer len s =
     fold (\<lambda>start (kk, a). (kk - 1, intt_block (Q - zetas ! (kk - 1)) len start a))
       (for_list 0 NN (2 * len)) s"

function doublings :: "nat \<Rightarrow> nat \<Rightarrow> nat list" where
  "doublings n hi = (if 0 < n \<and> n < hi then n # doublings (2 * n) hi else [])"
  by pat_completeness auto
termination
  by (relation "measure (\<lambda>(n, hi). hi - n)") auto

declare doublings.simps [simp del]

definition nttInverse :: "Poly \<Rightarrow> Poly" where
  "nttInverse a =
     (let a = snd (fold intt_layer (doublings 1 NN) (NN, a))
      in map (\<lambda>c. crem (ninv * c) Q) a)"

definition nttCopy :: "Poly \<Rightarrow> Poly" where
  "nttCopy a = nttForward a"

definition pointwise :: "Poly \<Rightarrow> Poly \<Rightarrow> Poly" where
  "pointwise a b = map (\<lambda>i. crem (a ! i * b ! i) Q) [0..<NN]"

definition polyAddInto :: "Poly \<Rightarrow> Poly \<Rightarrow> Poly" where
  "polyAddInto dst src = map (\<lambda>i. modQ (dst ! i + src ! i)) [0..<NN]"

section \<open>Facts about the scalars\<close>

lemma Q_pos [simp]: "0 < Q"
  by (simp add: Q_def)

lemma modQ_eq [simp]: "modQ a = a mod Q"
  by (simp add: modQ_def Let_def crem_fix)

lemma modPow_loop_0 [simp]: "modPow_loop r base 0 m = r"
  by (simp add: modPow_loop.simps)

lemma modPow_loop_step:
  "0 < e \<Longrightarrow> 0 < m \<Longrightarrow> 0 \<le> r \<Longrightarrow> 0 \<le> base \<Longrightarrow> modPow_loop r base e m =
     modPow_loop (if e mod 2 = 1 then r * base mod m else r) (base * base mod m) (e div 2) m"
  by (subst modPow_loop.simps) (simp add: crem_nonneg)

lemma mod_mult_power: "x * (y mod m) ^ n mod m = x * y ^ n mod (m :: int)"
  by (metis mod_mult_right_eq power_mod)

lemma modPow_loop_eq:
  "0 < m \<Longrightarrow> 0 \<le> r \<Longrightarrow> 0 \<le> base \<Longrightarrow> modPow_loop r base e m mod m = r * base ^ e mod m"
proof (induction e arbitrary: r base rule: less_induct)
  case (less e)
  show ?case
  proof (cases "e = 0")
    case False
    let ?r = "if e mod 2 = 1 then r * base mod m else r"
    have "modPow_loop r base e m mod m = ?r * (base * base mod m) ^ (e div 2) mod m"
      using less False by (simp add: modPow_loop_step)
    also have "\<dots> = (if e mod 2 = 1 then r * base else r) * (base * base) ^ (e div 2) mod m"
      by (simp only: mod_mult_power mod_mult_left_eq split: if_split) simp
    also have "\<dots> = r * base ^ e mod m"
    proof -
      have "base ^ e = base ^ (e mod 2 + 2 * (e div 2))" by simp
      also have "\<dots> = base ^ (e mod 2) * (base * base) ^ (e div 2)"
        by (simp only: power_add power_mult power2_eq_square)
      finally have "base ^ e = base ^ (e mod 2) * (base * base) ^ (e div 2)" .
      then show ?thesis by (cases "e mod 2 = 1") (simp_all add: mult.assoc)
    qed
    finally show ?thesis .
  qed simp
qed

lemma modPow_loop_range:
  "0 < m \<Longrightarrow> 0 \<le> r \<Longrightarrow> r < m \<Longrightarrow> 0 \<le> base \<Longrightarrow>
   0 \<le> modPow_loop r base e m \<and> modPow_loop r base e m < m"
proof (induction e arbitrary: r base rule: less_induct)
  case (less e)
  then show ?case by (cases "e = 0") (simp_all add: modPow_loop_step)
qed

lemma modPow_eq: "1 < m \<Longrightarrow> modPow base e m = base ^ e mod m"
proof -
  assume m: "1 < m"
  let ?b = "if crem base m < 0 then crem base m + m else crem base m"
  have b0: "0 \<le> ?b" using crem_abs [of m base] m by auto
  have "?b mod m = base mod m" by simp
  have "modPow base e m = modPow_loop 1 ?b e m mod m"
    using modPow_loop_range [of m 1 ?b e] m b0 by (simp add: modPow_def Let_def)
  also have "\<dots> = ?b ^ e mod m" using modPow_loop_eq [of m 1 ?b e] m b0 by simp
  also have "\<dots> = base ^ e mod m" using \<open>?b mod m = base mod m\<close> by (metis power_mod)
  finally show ?thesis .
qed

end
