(* ===== verification/MldsaNtt.thy ===== *)
theory MldsaNtt
  imports MldsaRing
begin

text \<open>
  Correctness of the transform of \<open>MldsaRing\<close>: the layers in closed form, the inverse transform undoes
  the forward one, and every result is reduced. Evaluation and products are in \<open>MldsaConv\<close>, machine
  arithmetic in \<open>MldsaMachine\<close>.

  A layer of butterflies is treated once, in the locale \<open>butterfly\<close>, for both transforms.
\<close>

section \<open>Layers of butterflies\<close>

lemma block_index:
  fixes i :: nat
  assumes "0 < len"
  shows "2 * len * b \<le> i \<and> i < 2 * len * b + len \<longleftrightarrow> i div (2 * len) = b \<and> i mod (2 * len) < len"
    and "2 * len * b + len \<le> i \<and> i < 2 * len * b + len + len \<longleftrightarrow>
      i div (2 * len) = b \<and> \<not> i mod (2 * len) < len"
proof -
  define q r where "q = i div (2 * len)" and "r = i mod (2 * len)"
  have i: "i = 2 * len * q + r" and r: "r < 2 * len" using assms by (simp_all add: q_def r_def)
  have "b = q \<or> 2 * len * b + 2 * len \<le> 2 * len * q \<or> 2 * len * q + 2 * len \<le> 2 * len * b"
    using mult_le_mono2 [of "Suc b" q "2 * len"] mult_le_mono2 [of "Suc q" b "2 * len"]
    by (cases b q rule: linorder_cases) simp_all
  then show "2 * len * b \<le> i \<and> i < 2 * len * b + len \<longleftrightarrow> i div (2 * len) = b \<and> i mod (2 * len) < len"
    and "2 * len * b + len \<le> i \<and> i < 2 * len * b + len + len \<longleftrightarrow>
      i div (2 * len) = b \<and> \<not> i mod (2 * len) < len"
    unfolding q_def [symmetric] r_def [symmetric] using i r assms by auto
qed

locale butterfly =
  fixes step :: "int \<Rightarrow> nat \<Rightarrow> nat \<Rightarrow> int list \<Rightarrow> int list"
    and lo hi :: "int \<Rightarrow> int \<Rightarrow> int \<Rightarrow> int"
  assumes step_eq: "0 < len \<Longrightarrow> j + len < length a \<Longrightarrow>
      step z len j a = a[j := lo z (a ! j) (a ! (j + len)), j + len := hi z (a ! j) (a ! (j + len))]"
begin

definition layer :: "(nat \<Rightarrow> int) \<Rightarrow> nat \<Rightarrow> nat \<Rightarrow> int list \<Rightarrow> int list" where
  "layer zf len m a = fold (\<lambda>b. fold (step (zf b) len) [2 * len * b..<2 * len * b + len]) [0..<m] a"

definition entry :: "(nat \<Rightarrow> int) \<Rightarrow> nat \<Rightarrow> int list \<Rightarrow> nat \<Rightarrow> int" where
  "entry zf len a i =
     (if i mod (2 * len) < len then lo (zf (i div (2 * len))) (a ! i) (a ! (i + len))
      else hi (zf (i div (2 * len))) (a ! (i - len)) (a ! i))"

lemma block_nth:
  assumes "0 < len" and "n \<le> len" and "start + 2 * len \<le> length a"
  shows "length (fold (step z len) [start..<start + n] a) = length a \<and>
    (\<forall>i < length a. fold (step z len) [start..<start + n] a ! i =
      (if start \<le> i \<and> i < start + n then lo z (a ! i) (a ! (i + len))
       else if start + len \<le> i \<and> i < start + len + n then hi z (a ! (i - len)) (a ! i)
       else a ! i))"
  using assms(2)
proof (induction n)
  case (Suc n)
  let ?f = "fold (step z len) [start..<start + n] a"
  have f: "length ?f = length a"
    "\<And>i. i < length a \<Longrightarrow> ?f ! i =
      (if start \<le> i \<and> i < start + n then lo z (a ! i) (a ! (i + len))
       else if start + len \<le> i \<and> i < start + len + n then hi z (a ! (i - len)) (a ! i)
       else a ! i)"
    using Suc by auto
  have "fold (step z len) [start..<start + Suc n] a = step z len (start + n) ?f" by simp
  also have "\<dots> = ?f[start + n := lo z (a ! (start + n)) (a ! (start + n + len)),
      start + n + len := hi z (a ! (start + n)) (a ! (start + n + len))]"
    using Suc.prems assms f by (subst step_eq) auto
  finally show ?case
    using Suc.prems assms f by (auto simp: nth_list_update)
qed simp

lemma layer_nth:
  assumes "0 < len" and "2 * len * m \<le> length a"
  shows "length (layer zf len m a) = length a \<and>
    (\<forall>i < length a. layer zf len m a ! i = (if i < 2 * len * m then entry zf len a i else a ! i))"
  using assms(2)
proof (induction m)
  case 0
  then show ?case by (simp add: layer_def)
next
  case (Suc m)
  let ?f = "layer zf len m a"
  have f: "length ?f = length a"
    "\<And>i. i < length a \<Longrightarrow> ?f ! i = (if i < 2 * len * m then entry zf len a i else a ! i)"
    using Suc by auto
  have step: "layer zf len (Suc m) a = fold (step (zf m) len) [2 * len * m..<2 * len * m + len] ?f"
    by (simp add: layer_def)
  have b: "2 * len * m + 2 * len \<le> length ?f" using Suc.prems f(1) by simp
  note blk = block_nth [OF assms(1) order_refl b, of "zf m"]
  have "layer zf len (Suc m) a ! i = (if i < 2 * len * Suc m then entry zf len a i else a ! i)"
    if i: "i < length a" for i
  proof -
    have "layer zf len (Suc m) a ! i =
      (if 2 * len * m \<le> i \<and> i < 2 * len * m + len then lo (zf m) (?f ! i) (?f ! (i + len))
       else if 2 * len * m + len \<le> i \<and> i < 2 * len * m + len + len then hi (zf m) (?f ! (i - len)) (?f ! i)
       else ?f ! i)"
      using blk i f(1) step by simp
    moreover have "entry zf len a i = lo (zf m) (?f ! i) (?f ! (i + len))"
      if "2 * len * m \<le> i \<and> i < 2 * len * m + len"
      using that block_index(1) [OF assms(1), of m i] f(2) [OF i] f(2) [of "i + len"] Suc.prems
      by (simp add: entry_def)
    moreover have "entry zf len a i = hi (zf m) (?f ! (i - len)) (?f ! i)"
      if h: "2 * len * m + len \<le> i \<and> i < 2 * len * m + len + len"
    proof -
      have "\<not> i - len < 2 * len * m" "\<not> i < 2 * len * m" "i - len < length a" using h i by arith+
      then show ?thesis
        using h block_index(2) [OF assms(1), of m i] f(2) [OF i] f(2) [of "i - len"]
        by (simp add: entry_def)
    qed
    ultimately show ?thesis using f(2) [OF i] by auto
  qed
  with blk step f(1) show ?case by simp
qed

end

interpretation forward: butterfly ntt_step
  "\<lambda>z x y. (x + z * y) mod Q" "\<lambda>z x y. (x - z * y) mod Q"
proof
  fix len j :: nat and a :: "int list" and z :: int
  assume "0 < len" "j + len < length a"
  moreover have "(x + crem y Q) mod Q = (x + y) mod Q" "(x - crem y Q) mod Q = (x - y) mod Q" for x y
    by (metis crem_mod mod_add_right_eq, metis crem_mod mod_diff_right_eq)
  ultimately show "ntt_step z len j a =
      a[j := (a ! j + z * a ! (j + len)) mod Q, j + len := (a ! j - z * a ! (j + len)) mod Q]"
    by (simp add: ntt_step_def Let_def list_update_swap)
qed

interpretation inverse: butterfly intt_step
  "\<lambda>z x y. (x + y) mod Q" "\<lambda>z x y. crem (z * ((x - y) mod Q)) Q"
  by unfold_locales (simp add: intt_step_def Let_def)

lemma ntt_layer_eq:
  assumes "0 < len" and "2 * len * m = NN"
  shows "ntt_layer len (kk, a) = (kk + m, forward.layer (\<lambda>b. zetas ! (kk + 1 + b)) len m a)"
proof -
  have "fold (\<lambda>start (kk, a). (kk + 1, ntt_block (zetas ! (kk + 1)) len start a))
      (map (\<lambda>i. 2 * len * i) [0..<n]) (kk, a)
    = (kk + n, forward.layer (\<lambda>b. zetas ! (kk + 1 + b)) len n a)" for n
    by (induction n) (simp_all add: forward.layer_def ntt_block_def add.assoc)
  then show ?thesis
    using for_list_zero [of "2 * len" m] assms by (simp add: ntt_layer_def)
qed

lemma intt_layer_eq:
  assumes "0 < len" and "2 * len * m = NN"
  shows "intt_layer len (kk, a) = (kk - m, inverse.layer (\<lambda>b. Q - zetas ! (kk - 1 - b)) len m a)"
proof -
  have "fold (\<lambda>start (kk, a). (kk - 1, intt_block (Q - zetas ! (kk - 1)) len start a))
      (map (\<lambda>i. 2 * len * i) [0..<n]) (kk, a)
    = (kk - n, inverse.layer (\<lambda>b. Q - zetas ! (kk - 1 - b)) len n a)" for n
    by (induction n) (simp_all add: inverse.layer_def intt_block_def add.assoc diff_diff_add)
  then show ?thesis
    using for_list_zero [of "2 * len" m] assms by (simp add: intt_layer_def)
qed

section \<open>Roots\<close>

text \<open>
  The table holds the powers of the root of unity at the bit-reversed exponents; the one numerical
  fact needed is that the root has order 512.
\<close>

lemma Q_gt_1: "1 < Q"
  by (simp add: Q_def)

lemma zeta_256: "ROOT_ZETA ^ 256 mod Q = Q - 1"
proof -
  have "modPow ROOT_ZETA 256 Q = Q - 1" by code_simp
  then show ?thesis by (simp only: modPow_eq [OF Q_gt_1])
qed

lemma nth_zetas: "k < NN \<Longrightarrow> zetas ! k = ROOT_ZETA ^ bitrev8 k mod Q"
  using modPow_eq [of Q ROOT_ZETA "bitrev8 k"] Q_gt_1 by (simp add: zetas_def)

lemma bitrev8_eq:
  "bitrev8 x = 128 * (x mod 2) + 64 * (x div 2 mod 2) + 32 * (x div 4 mod 2) + 16 * (x div 8 mod 2)
     + 8 * (x div 16 mod 2) + 4 * (x div 32 mod 2) + 2 * (x div 64 mod 2) + x div 128 mod 2"
proof -
  have "[0..<8] = [0, 1, 2, 3, 4, 5, 6, 7]" by (simp add: upt_rec)
  then show ?thesis unfolding bitrev8_def by (simp add: numeral_2_eq_2 [symmetric])
qed

lemma bitrev8_double:
  assumes "k < 128"
  shows "2 * bitrev8 (2 * k) = bitrev8 k" and "2 * bitrev8 (2 * k + 1) = 256 + bitrev8 k"
proof -
  have d: "2 * k div (2 * c) = k div c" "(2 * k + 1) div (2 * c) = k div c" for c
    by (simp_all add: div_mult2_eq)
  note even = d(1) [of 1, simplified] d(1) [of 2, simplified] d(1) [of 4, simplified] d(1) [of 8, simplified]
    d(1) [of 16, simplified] d(1) [of 32, simplified] d(1) [of 64, simplified]
  note odd = d(2) [of 1, simplified] d(2) [of 2, simplified] d(2) [of 4, simplified] d(2) [of 8, simplified]
    d(2) [of 16, simplified] d(2) [of 32, simplified] d(2) [of 64, simplified]
  have hi: "k div 128 mod 2 = 0" using assms by simp
  show "2 * bitrev8 (2 * k) = bitrev8 k"
    unfolding bitrev8_eq by (simp add: even hi)
  show "2 * bitrev8 (2 * k + 1) = 256 + bitrev8 k"
    unfolding bitrev8_eq by (simp add: odd hi)
qed

lemma zeta_mod_mult: "zetas ! i * zetas ! j mod Q = ROOT_ZETA ^ (bitrev8 i + bitrev8 j) mod Q"
  if "i < NN" "j < NN"
  using that by (simp add: nth_zetas power_add mod_mult_eq)

lemma zeta_power_256: "ROOT_ZETA ^ (256 + n) mod Q = - (ROOT_ZETA ^ n) mod Q"
proof -
  have "ROOT_ZETA ^ (256 + n) mod Q = (ROOT_ZETA ^ 256 mod Q) * ROOT_ZETA ^ n mod Q"
    by (simp only: power_add mod_mult_left_eq)
  also have "\<dots> = (Q - 1) * ROOT_ZETA ^ n mod Q" by (simp only: zeta_256)
  also have "\<dots> = (- (ROOT_ZETA ^ n) + ROOT_ZETA ^ n * Q) mod Q" by (simp add: algebra_simps)
  also have "\<dots> = - (ROOT_ZETA ^ n) mod Q" by (rule mod_mult_self1)
  finally show ?thesis .
qed

lemma zeta_square:
  assumes "k < 128"
  shows "(zetas ! (2 * k))\<^sup>2 mod Q = zetas ! k mod Q"
    and "(zetas ! (2 * k + 1))\<^sup>2 mod Q = - (zetas ! k) mod Q"
proof -
  have lt: "2 * k < NN" "2 * k + 1 < NN" "k < NN" using assms by (simp_all add: NN_def)
  show "(zetas ! (2 * k))\<^sup>2 mod Q = zetas ! k mod Q"
    using bitrev8_double(1) [OF assms] lt
    by (simp add: power2_eq_square zeta_mod_mult nth_zetas [of k] mult_2 [symmetric])
  show "(zetas ! (2 * k + 1))\<^sup>2 mod Q = - (zetas ! k) mod Q"
    using bitrev8_double(2) [OF assms] lt
    by (simp add: power2_eq_square zeta_mod_mult zeta_power_256 nth_zetas [of k] mult_2 [symmetric]
        mod_minus_eq)
qed

lemma bitrev8_pair: "t \<le> 7 \<Longrightarrow> b < 2 ^ t \<Longrightarrow> bitrev8 (2 ^ t + b) + bitrev8 (2 * 2 ^ t - 1 - b) = 256"
proof (induction t arbitrary: b)
  case 0
  then show ?case by (simp add: bitrev8_eq)
next
  case (Suc t)
  define c where "c = b div 2"
  have c: "c < 2 ^ t" using Suc.prems by (simp add: c_def)
  have lim: "(2 :: nat) ^ t \<le> 64" using Suc.prems power_increasing [of t 6 "2 :: nat"] by simp
  have IH: "bitrev8 (2 ^ t + c) + bitrev8 (2 * 2 ^ t - 1 - c) = 256" using Suc c by simp
  have d: "2 * bitrev8 (2 * (2 ^ t + c)) = bitrev8 (2 ^ t + c)"
    "2 * bitrev8 (2 * (2 ^ t + c) + 1) = 256 + bitrev8 (2 ^ t + c)"
    "2 * bitrev8 (2 * (2 * 2 ^ t - 1 - c)) = bitrev8 (2 * 2 ^ t - 1 - c)"
    "2 * bitrev8 (2 * (2 * 2 ^ t - 1 - c) + 1) = 256 + bitrev8 (2 * 2 ^ t - 1 - c)"
    using lim c by (intro bitrev8_double; simp)+
  have "b = 2 * c \<or> b = 2 * c + 1" unfolding c_def by arith
  then show ?case
  proof
    assume "b = 2 * c"
    then have "2 ^ Suc t + b = 2 * (2 ^ t + c)" "2 * 2 ^ Suc t - 1 - b = 2 * (2 * 2 ^ t - 1 - c) + 1"
      using c by auto
    then show ?thesis using d(1,4) IH by simp
  next
    assume "b = 2 * c + 1"
    then have "2 ^ Suc t + b = 2 * (2 ^ t + c) + 1" "2 * 2 ^ Suc t - 1 - b = 2 * (2 * 2 ^ t - 1 - c)"
      using c by auto
    then show ?thesis using d(2,3) IH by simp
  qed
qed

lemma zeta_pair:
  assumes "t \<le> 7" and "b < 2 ^ t"
  shows "(Q - zetas ! (2 * 2 ^ t - 1 - b)) * zetas ! (2 ^ t + b) mod Q = 1"
proof -
  have lim: "(2 :: nat) ^ t \<le> 128" using assms(1) power_increasing [of t 7 "2 :: nat"] by simp
  have p: "zetas ! (2 ^ t + b) * zetas ! (2 * 2 ^ t - 1 - b) mod Q = Q - 1"
    using lim assms(2) bitrev8_pair [OF assms]
    by (subst zeta_mod_mult) (simp_all add: NN_def zeta_256)
  have "(Q - zetas ! (2 * 2 ^ t - 1 - b)) * zetas ! (2 ^ t + b) mod Q
      = (- (zetas ! (2 ^ t + b) * zetas ! (2 * 2 ^ t - 1 - b)) + zetas ! (2 ^ t + b) * Q) mod Q"
    by (simp add: algebra_simps)
  also have "\<dots> = - (zetas ! (2 ^ t + b) * zetas ! (2 * 2 ^ t - 1 - b)) mod Q" by (rule mod_mult_self1)
  also have "\<dots> = - (Q - 1) mod Q" by (metis mod_minus_eq p)
  also have "\<dots> = 1" by (simp add: Q_def)
  finally show ?thesis .
qed

section \<open>The transforms as eight layers\<close>

text \<open>Layer \<open>t\<close> splits \<open>2 ^ t\<close> blocks of \<open>2 ^ (8 - t)\<close> coefficients each into halves.\<close>

definition flayer :: "nat \<Rightarrow> Poly \<Rightarrow> Poly" where
  "flayer t = forward.layer (\<lambda>b. zetas ! (2 ^ t + b)) (2 ^ (7 - t)) (2 ^ t)"

definition ilayer :: "nat \<Rightarrow> Poly \<Rightarrow> Poly" where
  "ilayer t = inverse.layer (\<lambda>b. Q - zetas ! (2 * 2 ^ t - 1 - b)) (2 ^ (7 - t)) (2 ^ t)"

lemma blocks_256: "t \<le> 7 \<Longrightarrow> 2 * 2 ^ (7 - t) * 2 ^ t = NN"
  by (simp add: NN_def mult.assoc power_add [symmetric])

lemma ntt_layers:
  "n \<le> 8 \<Longrightarrow> fold ntt_layer (map (\<lambda>t. 2 ^ (7 - t)) [0..<n]) (0, a) = (2 ^ n - 1, fold flayer [0..<n] a)"
proof (induction n)
  case (Suc n)
  then have "n \<le> 7" by simp
  with Suc ntt_layer_eq [OF _ blocks_256 [OF \<open>n \<le> 7\<close>], of "2 ^ n - 1" "fold flayer [0..<n] a"]
  show ?case by (simp add: flayer_def [of n] mult_2)
qed simp

lemma nttForward_layers: "nttForward a = fold flayer [0..<8] a"
proof -
  have "halvings 128 = map (\<lambda>t. 2 ^ (7 - t)) [0..<8]" by code_simp
  then show ?thesis using ntt_layers [of 8 a] by (simp add: nttForward_def del: upt_Suc)
qed

lemma intt_layers:
  "n \<le> 8 \<Longrightarrow> fold intt_layer (map (\<lambda>t. 2 ^ t) [0..<n]) (NN, a) = (2 ^ (8 - n), fold (\<lambda>t. ilayer (7 - t)) [0..<n] a)"
proof (induction n)
  case 0
  then show ?case by (simp add: NN_def)
next
  case (Suc n)
  then have "7 - n \<le> 7" "7 - (7 - n) = n" "2 ^ (8 - n) = (2 :: nat) * 2 ^ (7 - n)"
    by (simp_all add: Suc_diff_le flip: power_Suc)
  with Suc intt_layer_eq [OF _ blocks_256 [OF \<open>7 - n \<le> 7\<close>], of "2 ^ (8 - n)" "fold (\<lambda>t. ilayer (7 - t)) [0..<n] a"]
  show ?case by (simp add: ilayer_def)
qed

lemma nttInverse_layers:
  "nttInverse a = map (\<lambda>c. crem (ninv * c) Q) (fold (\<lambda>t. ilayer (7 - t)) [0..<8] a)"
proof -
  have "doublings 1 NN = map (\<lambda>t. 2 ^ t) [0..<8]" by code_simp
  then show ?thesis using intt_layers [of 8 a] by (simp add: nttInverse_def del: upt_Suc)
qed

lemma flayer_nth:
  assumes "t \<le> 7" and "length a = NN"
  shows "length (flayer t a) = NN"
    and "i < NN \<Longrightarrow> flayer t a ! i = forward.entry (\<lambda>b. zetas ! (2 ^ t + b)) (2 ^ (7 - t)) a i"
  using forward.layer_nth [of "2 ^ (7 - t)" "2 ^ t" a] blocks_256 [OF assms(1)] assms(2)
  by (simp_all add: flayer_def)

lemma ilayer_nth:
  assumes "t \<le> 7" and "length a = NN"
  shows "length (ilayer t a) = NN"
    and "i < NN \<Longrightarrow> ilayer t a ! i = inverse.entry (\<lambda>b. Q - zetas ! (2 * 2 ^ t - 1 - b)) (2 ^ (7 - t)) a i"
  using inverse.layer_nth [of "2 ^ (7 - t)" "2 ^ t" a] blocks_256 [OF assms(1)] assms(2)
  by (simp_all add: ilayer_def)

lemma length_flayers: "length a = NN \<Longrightarrow> n \<le> 8 \<Longrightarrow> length (fold flayer [0..<n] a) = NN"
  by (induction n) (simp_all add: flayer_nth)

lemma length_nttForward [simp]: "length a = NN \<Longrightarrow> length (nttForward a) = NN"
  using length_flayers [of a 8] by (simp add: nttForward_layers)

section \<open>The inverse undoes the transform\<close>

text \<open>\<open>scaled c a b\<close>: the coefficients of \<open>a\<close> are \<open>c\<close> times those of \<open>b\<close>, modulo \<open>Q\<close>.\<close>

definition scaled :: "int \<Rightarrow> Poly \<Rightarrow> Poly \<Rightarrow> bool" where
  "scaled c a b \<longleftrightarrow> length a = NN \<and> length b = NN \<and> (\<forall>i < NN. a ! i mod Q = c * b ! i mod Q)"

lemma half_block:
  assumes "t \<le> 7" and "i < NN"
  shows "i mod (2 * 2 ^ (7 - t)) < 2 ^ (7 - t) \<Longrightarrow>
      i + 2 ^ (7 - t) < NN \<and> (i + 2 ^ (7 - t)) div (2 * 2 ^ (7 - t)) = i div (2 * 2 ^ (7 - t)) \<and>
      \<not> (i + 2 ^ (7 - t)) mod (2 * 2 ^ (7 - t)) < 2 ^ (7 - t)"
    and "\<not> i mod (2 * 2 ^ (7 - t)) < 2 ^ (7 - t) \<Longrightarrow>
      2 ^ (7 - t) \<le> i \<and> (i - 2 ^ (7 - t)) div (2 * 2 ^ (7 - t)) = i div (2 * 2 ^ (7 - t)) \<and>
      (i - 2 ^ (7 - t)) mod (2 * 2 ^ (7 - t)) < 2 ^ (7 - t)"
    and "i div (2 * 2 ^ (7 - t)) < 2 ^ t"
proof -
  let ?len = "2 ^ (7 - t) :: nat"
  define b where "b = i div (2 * ?len)"
  have len: "0 < ?len" by simp
  have b: "b < 2 ^ t"
    using assms blocks_256 [OF assms(1)] by (simp add: b_def less_mult_imp_div_less mult.commute)
  then have top: "2 * ?len * b + 2 * ?len \<le> NN"
    using mult_le_mono2 [of "Suc b" "2 ^ t" "2 * ?len"] blocks_256 [OF assms(1)] by simp
  show "i div (2 * ?len) < 2 ^ t" using b by (simp add: b_def)
  note idx = block_index [OF len, of b]
  show "i + ?len < NN \<and> (i + ?len) div (2 * ?len) = i div (2 * ?len) \<and> \<not> (i + ?len) mod (2 * ?len) < ?len"
    if "i mod (2 * ?len) < ?len"
    using idx(1) [of i] idx(2) [of "i + ?len"] that top by (simp add: b_def)
  show "?len \<le> i \<and> (i - ?len) div (2 * ?len) = i div (2 * ?len) \<and> (i - ?len) mod (2 * ?len) < ?len"
    if "\<not> i mod (2 * ?len) < ?len"
  proof -
    have "2 * ?len * b + ?len \<le> i" "i < 2 * ?len * b + ?len + ?len"
      using idx(2) [of i] that by (simp_all add: b_def)
    then have "?len \<le> i" "2 * ?len * b \<le> i - ?len \<and> i - ?len < 2 * ?len * b + ?len" by linarith+
    with idx(1) [of "i - ?len"] show ?thesis by (simp only: b_def)
  qed
qed

lemma ilayer_flayer:
  assumes t: "t \<le> 7" and x: "length x = NN" and sc: "scaled c a (flayer t x)"
  shows "scaled (2 * c) (ilayer t a) x"
proof -
  let ?len = "2 ^ (7 - t) :: nat"
  have a: "length a = NN" "\<And>i. i < NN \<Longrightarrow> a ! i mod Q = c * flayer t x ! i mod Q"
    using sc by (auto simp: scaled_def)
  have "ilayer t a ! i mod Q = 2 * c * x ! i mod Q" if i: "i < NN" for i
  proof (cases "i mod (2 * ?len) < ?len")
    case True
    define z where "z = zetas ! (2 ^ t + i div (2 * ?len))"
    note h = half_block(1) [OF t i True]
    have "flayer t x ! i = (x ! i + z * x ! (i + ?len)) mod Q"
      "flayer t x ! (i + ?len) = (x ! i - z * x ! (i + ?len)) mod Q"
      using h i True flayer_nth(2) [OF t x] by (simp_all add: forward.entry_def z_def)
    then have "(a ! i + a ! (i + ?len)) mod Q
        = (c * (x ! i + z * x ! (i + ?len)) + c * (x ! i - z * x ! (i + ?len))) mod Q"
      using a(2) [OF i] a(2) [of "i + ?len"] h by (metis mod_add_eq mod_mult_right_eq)
    also have "\<dots> = 2 * c * x ! i mod Q" by (simp add: algebra_simps)
    finally show ?thesis
      using i True ilayer_nth(2) [OF t a(1)] by (simp add: inverse.entry_def)
  next
    case False
    define z where "z = zetas ! (2 ^ t + i div (2 * ?len))"
    define z' where "z' = Q - zetas ! (2 * 2 ^ t - 1 - i div (2 * ?len))"
    note h = half_block(2,3) [OF t i] 
    have lt: "i - ?len < NN" using i by simp
    have "flayer t x ! i = (x ! (i - ?len) - z * x ! i) mod Q"
      "flayer t x ! (i - ?len) = (x ! (i - ?len) + z * x ! i) mod Q"
      using h i lt False flayer_nth(2) [OF t x] by (simp_all add: forward.entry_def z_def)
    then have "(a ! (i - ?len) - a ! i) mod Q
        = (c * (x ! (i - ?len) + z * x ! i) - c * (x ! (i - ?len) - z * x ! i)) mod Q"
      using a(2) [OF i] a(2) [OF lt] by (metis mod_diff_eq mod_mult_right_eq)
    also have "\<dots> = (z * (2 * c * x ! i)) mod Q" by (simp add: algebra_simps)
    finally have "z' * (a ! (i - ?len) - a ! i) mod Q = z' * z * (2 * c * x ! i) mod Q"
      by (metis mod_mult_right_eq mult.assoc)
    also have "\<dots> = 2 * c * x ! i mod Q"
      using zeta_pair [OF t half_block(3) [OF t i]]
      by (metis mod_mult_left_eq mult.left_neutral z'_def z_def)
    finally show ?thesis
      using i False ilayer_nth(2) [OF t a(1)]
      by (simp add: inverse.entry_def z'_def mod_mult_right_eq)
  qed
  then show ?thesis using ilayer_nth(1) [OF t a(1)] x by (simp add: scaled_def)
qed

lemma ilayers_flayers:
  "n \<le> 8 \<Longrightarrow> length a = NN \<Longrightarrow>
   scaled (2 ^ n) (fold (\<lambda>t. ilayer (7 - t)) [0..<n] (fold flayer [0..<8] a)) (fold flayer [0..<8 - n] a)"
proof (induction n)
  case 0
  then show ?case by (simp add: scaled_def length_flayers del: upt_Suc)
next
  case (Suc n)
  have "8 - n = Suc (7 - n)" using Suc.prems by simp
  then have "fold flayer [0..<8 - n] a = flayer (7 - n) (fold flayer [0..<7 - n] a)" by simp
  with Suc ilayer_flayer [of "7 - n" "fold flayer [0..<7 - n] a" "2 ^ n"]
  show ?case by (simp add: length_flayers fold_upt_Suc del: upt_Suc)
qed

lemma ninv_eq: "ninv = 8347681"
  by (simp add: ninv_def modPow_def crem_nonneg NN_def Q_def modPow_loop_step)

lemma ninv_256: "ninv * 256 mod Q = 1"
  by (simp add: ninv_eq Q_def)

lemma inverse_forward:
  assumes "length a = NN"
  shows "length (nttInverse (nttForward a)) = NN"
    and "i < NN \<Longrightarrow> nttInverse (nttForward a) ! i mod Q = a ! i mod Q"
proof -
  define b where "b = fold (\<lambda>t. ilayer (7 - t)) [0..<8] (fold flayer [0..<8] a)"
  have n: "nttInverse (nttForward a) = map (\<lambda>c. crem (ninv * c) Q) b"
    by (simp only: nttInverse_layers nttForward_layers b_def)
  have "scaled (2 ^ 8) b (fold flayer [0..<8 - 8] a)"
    unfolding b_def by (rule ilayers_flayers) (simp_all add: assms)
  then have sc: "length b = NN" "\<And>i. i < NN \<Longrightarrow> b ! i mod Q = 256 * a ! i mod Q"
    by (simp_all add: scaled_def)
  then show "length (nttInverse (nttForward a)) = NN" by (simp add: n)
  assume i: "i < NN"
  have "nttInverse (nttForward a) ! i mod Q = ninv * b ! i mod Q" using sc i by (simp add: n)
  also have "\<dots> = ninv * (256 * a ! i) mod Q" using sc(2) [OF i] by (metis mod_mult_right_eq)
  also have "\<dots> = (ninv * 256 mod Q) * a ! i mod Q" by (simp only: mod_mult_left_eq mult.assoc)
  also have "\<dots> = a ! i mod Q" by (simp only: ninv_256 mult_1)
  finally show "nttInverse (nttForward a) ! i mod Q = a ! i mod Q" .
qed

section \<open>Ranges\<close>

lemma crem_range: "0 \<le> x \<Longrightarrow> 0 \<le> crem x Q \<and> crem x Q < Q"
  by (simp add: crem_nonneg)

lemma zeta_range: "k < NN \<Longrightarrow> 0 \<le> zetas ! k \<and> zetas ! k < Q"
  by (simp add: nth_zetas)

lemma reduced_nth: "reduced a \<longleftrightarrow> length a = NN \<and> (\<forall>i < NN. 0 \<le> a ! i \<and> a ! i < Q)"
  by (auto simp: reduced_def is_poly_def all_set_conv_all_nth)

lemma reduced_flayer:
  assumes "t \<le> 7" and "length a = NN"
  shows "reduced (flayer t a)"
  using flayer_nth [OF assms] by (simp add: reduced_nth forward.entry_def)

lemma reduced_nttForward: "length a = NN \<Longrightarrow> reduced (nttForward a)"
  using reduced_flayer [of 7 "fold flayer [0..<7] a"] length_flayers [of a 7]
  by (simp add: nttForward_layers fold_upt_Suc [of flayer 7, simplified] del: upt_Suc)

lemma reduced_ilayer:
  assumes "t \<le> 7" and "length a = NN"
  shows "reduced (ilayer t a)"
proof -
  have "0 \<le> Q - zetas ! (2 * 2 ^ t - 1 - b)" for b
  proof -
    have "2 * 2 ^ t - 1 - b < NN"
      using power_increasing [of t 7 "2 :: nat"] assms(1) by (simp add: NN_def)
    then show ?thesis using zeta_range [of "2 * 2 ^ t - 1 - b"] by simp
  qed
  then show ?thesis
    using ilayer_nth [OF assms] by (simp add: reduced_nth inverse.entry_def crem_nonneg)
qed

lemma length_ilayers: "length a = NN \<Longrightarrow> n \<le> 8 \<Longrightarrow> length (fold (\<lambda>t. ilayer (7 - t)) [0..<n] a) = NN"
  by (induction n) (simp_all add: ilayer_nth)

lemma reduced_nttInverse: "length a = NN \<Longrightarrow> reduced (nttInverse a)"
  using reduced_ilayer [of 0 "fold (\<lambda>t. ilayer (7 - t)) [0..<7] a"] length_ilayers [of a 7]
  by (simp add: nttInverse_layers fold_upt_Suc [of _ 7, simplified] reduced_nth ninv_eq crem_nonneg
      del: upt_Suc)

lemma reduced_pointwise: "reduced a \<Longrightarrow> reduced b \<Longrightarrow> reduced (pointwise a b)"
  by (simp add: reduced_nth pointwise_def crem_nonneg)

lemma reduced_polyAddInto: "reduced (polyAddInto a b)"
  by (simp add: reduced_nth polyAddInto_def)

lemma reduced_mod: "reduced a \<Longrightarrow> i < NN \<Longrightarrow> a ! i mod Q = a ! i"
  by (simp add: reduced_nth)

lemma inverse_forward_mod:
  assumes "length a = NN"
  shows "nttInverse (nttForward a) = map (\<lambda>c. c mod Q) a"
proof (rule nth_equalityI)
  have red: "reduced (nttInverse (nttForward a))" by (rule reduced_nttInverse) (simp add: assms)
  fix i assume "i < length (nttInverse (nttForward a))"
  then have i: "i < NN" using inverse_forward(1) [OF assms] by simp
  from reduced_mod [OF red i] inverse_forward(2) [OF assms i] i assms
  show "nttInverse (nttForward a) ! i = map (\<lambda>c. c mod Q) a ! i" by simp
qed (use inverse_forward(1) [OF assms] assms in simp)

section \<open>Properties of the transform\<close>

text \<open>
  The inverse transform undoes the forward transform: on any 256 coefficients it returns their
  residues modulo \<open>Q\<close>, all in the range from 0 to \<open>Q - 1\<close>.
\<close>

theorem ntt_roundtrip:
  assumes "length a = NN"
  shows "nttInverse (nttForward a) = map (\<lambda>c. c mod Q) a"
  by (rule inverse_forward_mod [OF assms])

theorem ntt_roundtrip_witness:
  "nttInverse (nttForward (replicate 256 (- 3))) = replicate 256 8380414"
  using ntt_roundtrip [of "replicate 256 (- 3)"] by (simp add: NN_def Q_def)

end
