(* ===== verification/MldsaSample.thy ===== *)
theory MldsaSample
  imports MldsaShake MldsaPack MldsaNtt "HOL-Library.Monad_Syntax"
begin

text \<open>
  Model of the sampling part of \<^verbatim>\<open>BHC/src/crypto/mldsa_fips204.h\<close>. The rejection loops run until the
  hash stream has produced enough accepted values, so they are functions into \<open>option\<close>, where \<open>None\<close>
  means that the loop does not end.
\<close>

section \<open>Rejection sampling\<close>

definition candidate23 :: "bytes \<Rightarrow> int" where
  "candidate23 b =
     uint (ucast (b ! 0) OR push_bit 8 (ucast (b ! 1)) OR push_bit 16 (ucast (b ! 2) AND 0x7F) :: u32)"

partial_function (option) rejNTT_loop :: "Shake \<Rightarrow> nat \<Rightarrow> Poly \<Rightarrow> Poly option" where
  "rejNTT_loop st i p =
     (if i < NN then
        (case shake_read st 3 of (b, st) \<Rightarrow>
           (let d = candidate23 b
            in if d < Q then rejNTT_loop st (i + 1) (p[i := d]) else rejNTT_loop st i p))
      else Some p)"

definition rejNTTPoly :: "bytes \<Rightarrow> byte \<Rightarrow> byte \<Rightarrow> Poly option" where
  "rejNTTPoly rho s r = rejNTT_loop (new_Shake 168 (cat [rho, [s, r]])) 0 zero_poly"

definition expandA :: "bytes \<Rightarrow> nat \<Rightarrow> nat \<Rightarrow> Poly list option" where
  "expandA rho k l =
     those (concat (map (\<lambda>r. map (\<lambda>s. rejNTTPoly rho (word_of_nat s) (word_of_nat r)) [0..<l]) [0..<k]))"

definition coeffFromHalfByte :: "nat \<Rightarrow> nat \<Rightarrow> int option" where
  "coeffFromHalfByte z eta =
     (if eta = 2 then (if z < 15 then Some (2 - int (z mod 5)) else None)
      else (if z < 9 then Some (4 - int z) else None))"

partial_function (option) rejBounded_loop :: "nat \<Rightarrow> Shake \<Rightarrow> nat \<Rightarrow> Poly \<Rightarrow> Poly option" where
  "rejBounded_loop eta st i p =
     (if i < NN then
        (case readByte st of (b, st) \<Rightarrow>
           (let (i, p) = (case coeffFromHalfByte (unat (b AND 0x0F)) eta of
                            Some v \<Rightarrow> (i + 1, p[i := v]) | None \<Rightarrow> (i, p))
            in if i \<ge> NN then Some p
               else (let (i, p) = (case coeffFromHalfByte (unat (drop_bit 4 b)) eta of
                                     Some v \<Rightarrow> (i + 1, p[i := v]) | None \<Rightarrow> (i, p))
                     in rejBounded_loop eta st i p)))
      else Some p)"

definition nonce_bytes :: "u16 \<Rightarrow> bytes" where
  "nonce_bytes nonce = [ucast (nonce AND 0xFF), ucast (drop_bit 8 nonce)]"

definition rejBoundedPoly :: "bytes \<Rightarrow> u16 \<Rightarrow> nat \<Rightarrow> Poly option" where
  "rejBoundedPoly rhoP nonce eta =
     rejBounded_loop eta (new_Shake 136 (cat [rhoP, nonce_bytes nonce])) 0 zero_poly"

definition expandMask :: "bytes \<Rightarrow> nat \<Rightarrow> nat \<Rightarrow> int \<Rightarrow> PolyVec" where
  "expandMask rhoPP kappa l gamma1 =
     (let width = bitlen (nat (2 * gamma1 - 1));
          bytesPerPoly = NN * width div 8
      in map (\<lambda>i. let nonce = word_of_nat (kappa + i);
                      buf = fst (shake_read (new_Shake 136 (cat [rhoPP, nonce_bytes nonce])) bytesPerPoly)
                  in bitUnpack buf gamma1 width) [0..<l])"

section \<open>Sampling the challenge\<close>

partial_function (option) ball_index :: "Shake \<Rightarrow> nat \<Rightarrow> (nat \<times> Shake) option" where
  "ball_index st i =
     (case readByte st of (j, st) \<Rightarrow> if unat j > i then ball_index st i else Some (unat j, st))"

definition ball_step :: "nat \<Rightarrow> Poly \<times> u64 \<times> Shake \<Rightarrow> (Poly \<times> u64 \<times> Shake) option" where
  "ball_step i = (\<lambda>(c, signs, st).
     (case ball_index st i of
        None \<Rightarrow> None
      | Some (j, st) \<Rightarrow>
          (let c = c[i := c ! j];
               c = c[j := (if signs AND 1 \<noteq> 0 then - 1 else 1)]
           in Some (c, drop_bit 1 signs, st))))"

fun ball_loop :: "nat list \<Rightarrow> Poly \<times> u64 \<times> Shake \<Rightarrow> (Poly \<times> u64 \<times> Shake) option" where
  "ball_loop [] s = Some s"
| "ball_loop (i # is) s = Option.bind (ball_step i s) (ball_loop is)"

definition sampleInBall :: "bytes \<Rightarrow> nat \<Rightarrow> Poly option" where
  "sampleInBall ctilde tau =
     (case shake_read (new_Shake 136 ctilde) 8 of (sb, st) \<Rightarrow>
        map_option fst (ball_loop [NN - tau..<NN] (zero_poly, le_word sb, st)))"

section \<open>Ranges\<close>

lemma candidate23_nonneg: "0 \<le> candidate23 b"
  by (simp add: candidate23_def)

lemma rejNTT_loop_reduced:
  assumes "rejNTT_loop st i p = Some p'" and "length p = NN" and "\<forall>c \<in> set p. 0 \<le> c \<and> c < Q"
  shows "reduced p'"
proof -
  have "length p = NN \<and> (\<forall>c \<in> set p. 0 \<le> c \<and> c < Q) \<longrightarrow> reduced p'"
  proof (rule rejNTT_loop.raw_induct [OF _ assms(1), where P = "\<lambda>st i p p'. length p = NN \<and> (\<forall>c \<in> set p. 0 \<le> c \<and> c < Q) \<longrightarrow> reduced p'"])
    fix loop :: "Shake \<Rightarrow> nat \<Rightarrow> Poly \<Rightarrow> Poly option" and st i p p'
    assume IH: "\<And>st i p p'. loop st i p = Some p' \<Longrightarrow> length p = NN \<and> (\<forall>c \<in> set p. 0 \<le> c \<and> c < Q) \<longrightarrow> reduced p'"
      and body: "(if i < NN then
        (case shake_read st 3 of (b, st) \<Rightarrow>
           (let d = candidate23 b
            in if d < Q then loop st (i + 1) (p[i := d]) else loop st i p))
      else Some p) = Some p'"
    show "length p = NN \<and> (\<forall>c \<in> set p. 0 \<le> c \<and> c < Q) \<longrightarrow> reduced p'"
    proof (intro impI, elim conjE)
      assume p: "length p = NN" "\<forall>c \<in> set p. 0 \<le> c \<and> c < Q"
      have upd: "\<forall>c \<in> set (p[i := d]). 0 \<le> c \<and> c < Q" if "0 \<le> d" "d < Q" for d
        using p that set_update_subset_insert [of p i d] by auto
      show "reduced p'"
      proof (cases "i < NN")
        case True
        obtain b st' where "shake_read st 3 = (b, st')" by fastforce
        note body' = body [unfolded this, simplified True Let_def if_True prod.case]
        show ?thesis
        proof (cases "candidate23 b < Q")
          case True
          with body' have "loop st' (i + 1) (p[i := candidate23 b]) = Some p'" by simp
          from IH [OF this] upd [OF candidate23_nonneg True] p(1) show ?thesis by simp
        next
          case False
          with body' have "loop st' i p = Some p'" by simp
          from IH [OF this] p show ?thesis by blast
        qed
      next
        case False
        then show ?thesis using body p by (simp add: reduced_def is_poly_def)
      qed
    qed
  qed
  then show ?thesis using assms(2,3) by blast
qed

lemma rejNTTPoly_reduced: "rejNTTPoly rho s r = Some p \<Longrightarrow> reduced p"
  unfolding rejNTTPoly_def
  by (erule rejNTT_loop_reduced) (simp_all add: zero_poly_def)

section \<open>The challenge has weight tau\<close>

definition weight :: "Poly \<Rightarrow> nat" where
  "weight c = card {k. k < NN \<and> c ! k \<noteq> 0}"

definition ball_inv :: "nat \<Rightarrow> nat \<Rightarrow> Poly \<Rightarrow> bool" where
  "ball_inv i w c \<longleftrightarrow> length c = NN \<and> set c \<subseteq> {- 1, 0, 1} \<and> (\<forall>k. i \<le> k \<and> k < NN \<longrightarrow> c ! k = 0) \<and> weight c = w"

lemma ball_index_bound:
  assumes "ball_index st i = Some (j, st')"
  shows "j \<le> i"
proof -
  have "fst (j, st') \<le> i"
  proof (rule ball_index.raw_induct [OF _ assms, where P = "\<lambda>st i r. fst r \<le> i"])
    fix loop :: "Shake \<Rightarrow> nat \<Rightarrow> (nat \<times> Shake) option" and st i r
    assume IH: "\<And>st i r. loop st i = Some r \<Longrightarrow> fst r \<le> i"
      and body: "(case readByte st of (j, st) \<Rightarrow> if unat j > i then loop st i else Some (unat j, st)) = Some r"
    obtain b st1 where rb: "readByte st = (b, st1)" by fastforce
    show "fst r \<le> i"
    proof (cases "unat b > i")
      case True
      then have "loop st1 i = Some r" using body rb by simp
      then show ?thesis by (rule IH)
    next
      case False
      then show ?thesis using body rb by auto
    qed
  qed
  then show ?thesis by simp
qed

lemma ball_update:
  assumes inv: "ball_inv i w c" and j: "j \<le> i" and i: "i < NN" and v: "v = 1 \<or> v = - 1"
  shows "ball_inv (Suc i) (Suc w) (c[i := c ! j, j := v])"
proof -
  let ?d = "c[i := c ! j, j := v]"
  have c: "length c = NN" "set c \<subseteq> {- 1, 0, 1}" "\<And>k. i \<le> k \<Longrightarrow> k < NN \<Longrightarrow> c ! k = 0" "weight c = w"
    using inv by (auto simp: ball_inv_def)
  have d: "?d ! k = (if k = j then v else if k = i then c ! j else c ! k)" if "k < NN" for k
    using that c(1) i j by (simp add: nth_list_update)
  let ?N = "{k. k < NN \<and> c ! k \<noteq> 0}" and ?M = "{k. k < NN \<and> ?d ! k \<noteq> 0}"
  have "i \<notin> ?N" using c(3) [of i] i by simp
  have "?M = {k. k < NN \<and> (if k = j then v else if k = i then c ! j else c ! k) \<noteq> 0}"
    by (rule Collect_cong) (simp only: d cong: conj_cong)
  also have "\<dots> = (if c ! j \<noteq> 0 then insert i ?N else insert j ?N)"
    using i j v c(3) [of i] by (auto split: if_splits)
  finally have "?M = (if c ! j \<noteq> 0 then insert i ?N else insert j ?N)" .
  moreover have "(if c ! j \<noteq> 0 then i else j) \<notin> ?N" using \<open>i \<notin> ?N\<close> by auto
  moreover have "finite ?N" by simp
  ultimately have "card ?M = Suc (card ?N)" by (auto split: if_splits)
  moreover have "set ?d \<subseteq> {- 1, 0, 1}"
  proof -
    have "c ! j \<in> set c" using c(1) i j by (intro nth_mem) simp
    then have "c ! j \<in> {- 1, 0, 1}" using c(2) by blast
    then show ?thesis using c(2) v by (intro set_update_subsetI) auto
  qed
  moreover have "?d ! k = 0" if "Suc i \<le> k" "k < NN" for k
    using d [OF that(2)] that c(3) [of k] j by simp
  ultimately show ?thesis using c by (simp add: ball_inv_def weight_def)
qed

lemma ball_loop_inv:
  "ball_loop [i..<i + n] (c, signs, st) = Some (c', r) \<Longrightarrow> ball_inv i w c \<Longrightarrow> i + n \<le> NN \<Longrightarrow>
   ball_inv (i + n) (w + n) c'"
proof (induction n arbitrary: i c signs st w)
  case (Suc n)
  have up: "[i..<i + Suc n] = i # [Suc i..<Suc i + n]" by (simp add: upt_conv_Cons del: upt_Suc)
  from Suc.prems(1) obtain s1 where s1: "ball_step i (c, signs, st) = Some s1"
    and rest: "ball_loop [Suc i..<Suc i + n] s1 = Some (c', r)"
    unfolding up by (auto simp: bind_eq_Some_conv simp del: upt_Suc)
  from s1 obtain j st1 where j: "ball_index st i = Some (j, st1)"
    and e: "s1 = (c[i := c ! j, j := (if signs AND 1 \<noteq> 0 then - 1 else 1)], drop_bit 1 signs, st1)"
    by (auto simp: ball_step_def Let_def split: option.splits)
  have "ball_inv (Suc i) (Suc w) (c[i := c ! j, j := (if signs AND 1 \<noteq> 0 then - 1 else 1)])"
    by (rule ball_update [OF Suc.prems(2) ball_index_bound [OF j]]) (use Suc.prems(3) in auto)
  from Suc.IH [OF rest [unfolded e] this] Suc.prems(3) show ?case by simp
qed simp

lemma ball_start: "ball_inv i 0 zero_poly"
  by (auto simp: ball_inv_def zero_poly_def weight_def)

lemma sampleInBall_inv:
  assumes "sampleInBall ctilde tau = Some c" and "tau \<le> NN"
  shows "ball_inv NN tau c"
proof -
  obtain sb st where rd: "shake_read (new_Shake 136 ctilde) 8 = (sb, st)" by fastforce
  with assms obtain r where "ball_loop [NN - tau..<NN - tau + tau] (zero_poly, le_word sb, st) = Some (c, r)"
    by (auto simp: sampleInBall_def)
  from ball_loop_inv [OF this ball_start] assms(2) show ?thesis by simp
qed

text \<open>
  The challenge polynomial has the weight the security parameters ask for: whenever
  \<^verbatim>\<open>sampleInBall\<close> returns, its result has 256 coefficients, exactly \<open>tau\<close> of them are 1 or -1 and the
  others 0; and for \<open>tau = 1\<close> it always returns.
\<close>

theorem challenge_weight:
  assumes "sampleInBall ctilde tau = Some c" and "tau \<le> NN"
  shows "length c = NN \<and> set c \<subseteq> {- 1, 0, 1} \<and> weight c = tau \<and> (\<exists>c'. sampleInBall ctilde' 1 = Some c')"
proof -
  have "ball_inv NN tau c" by (rule sampleInBall_inv [OF assms])
  moreover have "\<exists>c'. sampleInBall ctilde' 1 = Some c'"
  proof -
    obtain sb st where rd: "shake_read (new_Shake 136 ctilde') 8 = (sb, st)" by fastforce
    obtain b st1 where rb: "readByte st = (b, st1)" by fastforce
    have "unat b \<le> 255" using unat_bound [of b] by simp
    then have "ball_index st 255 = Some (unat b, st1)" by (simp add: ball_index.simps [of st] rb)
    then show ?thesis by (simp add: sampleInBall_def rd NN_def ball_step_def Let_def)
  qed
  ultimately show ?thesis by (simp add: ball_inv_def)
qed

theorem challenge_weight_witness:
  "\<exists>c. sampleInBall [] 1 = Some c \<and> weight c = 1"
proof -
  obtain sb st where rd: "shake_read (new_Shake 136 []) 8 = (sb, st)" by fastforce
  obtain b st1 where rb: "readByte st = (b, st1)" by fastforce
  have "unat b \<le> 255" using unat_bound [of b] by simp
  then have "ball_index st 255 = Some (unat b, st1)" by (simp add: ball_index.simps [of st] rb)
  then obtain c where "sampleInBall [] 1 = Some c"
    by (auto simp: sampleInBall_def rd NN_def ball_step_def Let_def)
  with challenge_weight [OF this] show ?thesis by (auto simp: NN_def)
qed

end
