(* ===== verification/MldsaRounding.thy ===== *)
theory MldsaRounding
  imports MldsaNtt
begin

text \<open>
  Model of the rounding and hint functions of \<^verbatim>\<open>BHC/src/crypto/mldsa_fips204.h\<close>, and the facts that
  signature verification rests on: the decompositions are exact, a hint recovers the high bits, and
  a small perturbation does not change them.
\<close>

section \<open>Definitions\<close>

definition power2Round :: "int \<Rightarrow> int \<times> int" where
  "power2Round r =
     (let r = modQ r;
          a = r mod 2 ^ DD;
          a = (if a > 2 ^ (DD - 1) then a - 2 ^ DD else a)
      in ((r - a) div 2 ^ DD, a))"

definition decompose :: "int \<Rightarrow> int \<Rightarrow> int \<times> int" where
  "decompose r gamma2 =
     (let r = modQ r;
          alpha = 2 * gamma2;
          a = crem r alpha;
          a = (if a > cdiv alpha 2 then a - alpha else a)
      in if r - a = Q - 1 then (0, a - 1) else (cdiv (r - a) alpha, a))"

definition highBits :: "int \<Rightarrow> int \<Rightarrow> int" where
  "highBits r gamma2 = fst (decompose r gamma2)"

definition lowBits :: "int \<Rightarrow> int \<Rightarrow> int" where
  "lowBits r gamma2 = snd (decompose r gamma2)"

definition useHint :: "int \<Rightarrow> int \<Rightarrow> int \<Rightarrow> int" where
  "useHint h r gamma2 =
     (let m = cdiv (Q - 1) (2 * gamma2);
          (r1, r0) = decompose r gamma2
      in if h = 0 then r1
         else let r1 = (if r0 > 0 then r1 + 1 else r1 - 1);
                  r1 = crem r1 m
              in if r1 < 0 then r1 + m else r1)"

definition polyInfNorm :: "Poly \<Rightarrow> int" where
  "polyInfNorm p =
     fold (\<lambda>i mx. let a = centered (modQ (p ! i)); a = (if a < 0 then - a else a)
                  in if a > mx then a else mx) [0..<NN] 0"

definition polyVecInfNorm :: "PolyVec \<Rightarrow> int" where
  "polyVecInfNorm v = fold (\<lambda>p mx. let n = polyInfNorm p in if n > mx then n else mx) v 0"

section \<open>The decompositions are exact\<close>

text \<open>The values of \<open>gamma2\<close> the parameter sets use: \<open>(Q - 1) / 88\<close> and \<open>(Q - 1) / 32\<close>.\<close>

definition valid_gamma2 :: "int \<Rightarrow> bool" where
  "valid_gamma2 g \<longleftrightarrow> g = 95232 \<or> g = 261888"

definition levels :: "int \<Rightarrow> int" where
  "levels g = (Q - 1) div (2 * g)"

lemma valid_gamma2_facts:
  assumes "valid_gamma2 g"
  shows "0 < g" and "Q - 1 = 2 * g * levels g" and "1 < levels g"
  using assms by (auto simp: valid_gamma2_def levels_def Q_def)

lemma cdiv_nonneg: "0 \<le> a \<Longrightarrow> 0 < b \<Longrightarrow> cdiv a b = a div b"
  by (simp add: cdiv_def signed_divide_int_def sgn_if)

text \<open>\<open>bucket r g\<close> is the multiple of \<open>2 * g\<close> nearest to \<open>r\<close>, ties going down.\<close>

definition bucket :: "int \<Rightarrow> int \<Rightarrow> int" where
  "bucket r g = (r + g - 1) div (2 * g)"

lemma bucket_bounds:
  assumes "0 < g"
  shows "2 * g * bucket r g - g < r" and "r \<le> 2 * g * bucket r g + g"
proof -
  have "(r + g - 1) = 2 * g * bucket r g + (r + g - 1) mod (2 * g)" by (simp add: bucket_def)
  moreover have "0 \<le> (r + g - 1) mod (2 * g)" "(r + g - 1) mod (2 * g) < 2 * g" using assms by simp_all
  ultimately show "2 * g * bucket r g - g < r" "r \<le> 2 * g * bucket r g + g" by linarith+
qed

lemma bucket_unique:
  assumes "0 < g" and "2 * g * k - g < r" and "r \<le> 2 * g * k + g"
  shows "bucket r g = k"
  unfolding bucket_def
  by (rule int_div_pos_eq [of _ _ _ "r + g - 1 - 2 * g * k"]) (use assms in simp_all)

lemma decompose_bucket:
  fixes r :: int
  assumes "valid_gamma2 g"
  defines "k \<equiv> bucket (r mod Q) g"
  shows "decompose r g =
    (if k = levels g then (0, r mod Q - 2 * g * k - 1) else (k, r mod Q - 2 * g * k))"
proof -
  define r' where "r' = r mod Q"
  define a where "a = (if r' mod (2 * g) > g then r' mod (2 * g) - 2 * g else r' mod (2 * g))"
  note g = valid_gamma2_facts [OF assms(1)]
  have r': "0 \<le> r'" by (simp add: r'_def)
  have alpha: "crem r' (2 * g) = r' mod (2 * g)" "cdiv (2 * g) 2 = g"
    using g r' by (simp_all add: crem_nonneg cdiv_nonneg)
  have m: "0 \<le> r' mod (2 * g)" "r' mod (2 * g) < 2 * g" using g by simp_all
  have "\<exists>q. r' = 2 * g * q + a"
  proof (cases "r' mod (2 * g) > g")
    case True
    have "r' = 2 * g * (r' div (2 * g) + 1) + a"
      using True mult_div_mod_eq [of "2 * g" r'] by (simp add: a_def algebra_simps)
    then show ?thesis by blast
  next
    case False
    then have "r' = 2 * g * (r' div (2 * g)) + a" by (simp add: a_def)
    then show ?thesis by blast
  qed
  then obtain q where q: "r' = 2 * g * q + a" by blast
  have "- g < a" "a \<le> g" using m by (auto simp: a_def)
  then have kq: "k = q" unfolding k_def r'_def [symmetric]
    using g q by (intro bucket_unique) auto
  have "r' - a = Q - 1 \<longleftrightarrow> q = levels g" using q g by simp
  moreover have "cdiv (r' - a) (2 * g) = q"
  proof -
    have "2 * g * q = r' - a" using q by simp
    moreover have "0 \<le> r' - a"
    proof (cases "r' mod (2 * g) > g")
      case False
      then show ?thesis using zmod_le_nonneg_dividend [OF r', of "2 * g"] by (simp add: a_def)
    qed (use r' m in \<open>simp add: a_def\<close>)
    ultimately show ?thesis using g by (metis cdiv_nonneg nonzero_mult_div_cancel_left
        order_less_irrefl zero_less_mult_iff zero_less_numeral)
  qed
  moreover have "decompose r g = (if r' - a = Q - 1 then (0, a - 1) else (cdiv (r' - a) (2 * g), a))"
    unfolding decompose_def Let_def modQ_eq r'_def [symmetric] alpha a_def [symmetric] by (rule refl)
  moreover have "a = r' - 2 * g * q" using q by simp
  ultimately show ?thesis unfolding kq r'_def [symmetric] by simp
qed

lemma bucket_range:
  assumes "valid_gamma2 g"
  shows "0 \<le> bucket (r mod Q) g" and "bucket (r mod Q) g \<le> levels g"
proof -
  note g = valid_gamma2_facts [OF assms(1)]
  have r: "0 \<le> r mod Q" "r mod Q < Q" by simp_all
  have "0 \<le> r mod Q + g - 1" using r g by linarith
  then show "0 \<le> bucket (r mod Q) g" using g by (simp add: bucket_def pos_imp_zdiv_nonneg_iff)
  have "bucket (r mod Q) g \<le> (2 * g * levels g + g - 1) div (2 * g)"
    unfolding bucket_def by (rule zdiv_mono1) (use r g in linarith)+
  also have "\<dots> = bucket (2 * g * levels g) g" by (simp add: bucket_def)
  also have "\<dots> = levels g" using g by (intro bucket_unique) simp_all
  finally show "bucket (r mod Q) g \<le> levels g" .
qed

lemma highBits_bucket:
  "valid_gamma2 g \<Longrightarrow> highBits r g = (if bucket (r mod Q) g = levels g then 0 else bucket (r mod Q) g)"
  by (simp add: highBits_def decompose_bucket)

lemma lowBits_bucket:
  "valid_gamma2 g \<Longrightarrow> lowBits r g =
     r mod Q - 2 * g * bucket (r mod Q) g - (if bucket (r mod Q) g = levels g then 1 else 0)"
  by (simp add: lowBits_def decompose_bucket)

lemma power2Round_exact:
  "fst (power2Round r) * 2 ^ 13 + snd (power2Round r) = r mod Q \<and>
     - (2 ^ 12) < snd (power2Round r) \<and> snd (power2Round r) \<le> 2 ^ 12 \<and>
     0 \<le> fst (power2Round r) \<and> fst (power2Round r) < 2 ^ 10"
proof -
  define x where "x = r mod Q"
  have x: "0 \<le> x" "x < 8380417" using pos_mod_bound [of Q r] by (simp_all add: x_def Q_def)
  define q a where "q = x div 8192" and "a = x mod 8192"
  have xq: "x = q * 8192 + a" and a: "0 \<le> a" "a < 8192" by (simp_all add: q_def a_def)
  have q: "0 \<le> q" "q \<le> 1023" "4096 < a \<longrightarrow> q < 1023" using x a xq by auto
  have d: "(x - (a - 8192)) div 8192 = q + 1" "(x - a) div 8192 = q" by (simp_all add: xq)
  show ?thesis
    unfolding power2Round_def modQ_eq x_def [symmetric] Let_def DD_def
    using d a q xq by (simp add: a_def [symmetric])
qed

text \<open>
  \<^verbatim>\<open>power2Round\<close> and \<^verbatim>\<open>decompose\<close> are exact decompositions of a residue with a small low part:
  the parts recombine to the input modulo \<open>Q\<close>, the low part is at most half the step, and the high
  part fits the number of bits it is packed into.
\<close>

theorem rounding_exact:
  assumes "valid_gamma2 g"
  shows "fst (power2Round r) * 2 ^ 13 + snd (power2Round r) = r mod Q \<and>
     - (2 ^ 12) < snd (power2Round r) \<and> snd (power2Round r) \<le> 2 ^ 12 \<and>
     0 \<le> fst (power2Round r) \<and> fst (power2Round r) < 2 ^ 10 \<and>
     (highBits r g * (2 * g) + lowBits r g) mod Q = r mod Q \<and> \<bar>lowBits r g\<bar> \<le> g \<and>
     0 \<le> highBits r g \<and> highBits r g < levels g"
proof -
  note p = power2Round_exact [of r]
  note g = valid_gamma2_facts [OF assms] and k = bucket_range [OF assms, of r]
  let ?k = "bucket (r mod Q) g"
  have b: "2 * g * ?k - g < r mod Q" "r mod Q \<le> 2 * g * ?k + g"
    using bucket_bounds [OF g(1)] by blast+
  have "(highBits r g * (2 * g) + lowBits r g) mod Q = r mod Q"
  proof (cases "?k = levels g")
    case True
    then have "highBits r g * (2 * g) + lowBits r g = r mod Q - Q"
      using g by (simp add: highBits_bucket lowBits_bucket assms)
    then show ?thesis by simp
  qed (simp add: highBits_bucket lowBits_bucket assms)
  moreover have "\<bar>lowBits r g\<bar> \<le> g"
  proof (cases "?k = levels g")
    case True
    have "r mod Q \<le> 2 * g * levels g" using g(2) pos_mod_bound [of Q r] Q_pos by linarith
    with True b show ?thesis by (simp add: lowBits_bucket assms)
  qed (use b in \<open>simp add: lowBits_bucket assms\<close>)
  moreover have "0 \<le> highBits r g \<and> highBits r g < levels g"
    using k g by (simp add: highBits_bucket assms)
  ultimately show ?thesis using p by blast
qed

theorem rounding_exact_witness:
  "fst (power2Round 8380416) * 2 ^ 13 + snd (power2Round 8380416) = 8380416 \<and>
   (highBits 8380416 95232 * 190464 + lowBits 8380416 95232) mod Q = 8380416 \<and> \<bar>lowBits 8380416 95232\<bar> \<le> 95232"
  using rounding_exact [of 95232 8380416] by (simp add: valid_gamma2_def Q_def)

section \<open>Hints\<close>

lemma bucket_shift:
  assumes "0 < g" and "\<bar>z\<bar> < g"
  shows "bucket (r + z) g = bucket r g \<or>
    (bucket (r + z) g = bucket r g + 1 \<and> 0 < r - 2 * g * bucket r g) \<or>
    (bucket (r + z) g = bucket r g - 1 \<and> r - 2 * g * bucket r g < 0)"
proof -
  let ?k = "bucket r g" and ?l = "bucket (r + z) g"
  note r = bucket_bounds [OF assms(1), of r] and l = bucket_bounds [OF assms(1), of "r + z"]
  have d: "2 * g * (?l - ?k) = 2 * g * ?l - 2 * g * ?k" by (simp add: right_diff_distrib)
  have "?l - ?k < 2"
    by (rule mult_left_less_imp_less [of "2 * g"]) (use r l assms d in linarith)+
  moreover have "- 2 < ?l - ?k"
    by (rule mult_left_less_imp_less [of "2 * g"]) (use r l assms d in linarith)+
  ultimately consider "?l - ?k = 0" | "?l - ?k = 1" | "?l - ?k = - 1" by linarith
  then show ?thesis
  proof cases
    case 2
    then have "2 * g * ?l = 2 * g * ?k + 2 * g" using d by simp
    then have "0 < r - 2 * g * ?k" using l assms(2) by linarith
    with 2 show ?thesis by simp
  next
    case 3
    then have "2 * g * ?l = 2 * g * ?k - 2 * g" using d by simp
    then have "r - 2 * g * ?k < 0" using l assms(2) by linarith
    with 3 show ?thesis by simp
  qed simp
qed

text \<open>A shift of less than \<open>g\<close> that leaves the range from 0 to \<open>Q - 1\<close> joins the two ends, whose high bits are both 0.\<close>

lemma highBits_wrap:
  assumes "valid_gamma2 g" and "\<bar>z\<bar> < g" and "\<not> (0 \<le> r mod Q + z \<and> r mod Q + z < Q)"
  shows "highBits r g = 0" and "highBits (r + z) g = 0"
proof -
  note g = valid_gamma2_facts [OF assms(1)]
  define x where "x = r mod Q"
  have x: "0 \<le> x" "x < Q" by (simp_all add: x_def)
  have m: "2 * g * 2 \<le> 2 * g * levels g" using g by (intro mult_left_mono) simp_all
  have xz: "(r + z) mod Q = (x + z) mod Q" by (simp add: x_def mod_add_left_eq)
  show "highBits r g = 0"
  proof (cases "x + z < 0")
    case True
    then have "bucket x g = 0" using g assms(2) x by (intro bucket_unique) simp_all
    then show ?thesis by (simp add: highBits_bucket assms(1) x_def)
  next
    case False
    then have "Q \<le> x + z" using assms(3) by (simp add: x_def)
    then have "bucket x g = levels g" using g assms(2) x by (intro bucket_unique) linarith+
    then show ?thesis by (simp add: highBits_bucket assms(1) x_def)
  qed
  show "highBits (r + z) g = 0"
  proof (cases "x + z < 0")
    case True
    then have "(x + z) mod Q = x + z + Q"
      using assms(2) x g m by (intro int_mod_pos_eq [of _ _ "- 1"]) linarith+
    moreover have "bucket (x + z + Q) g = levels g"
      using True g assms(2) x by (intro bucket_unique) linarith+
    ultimately show ?thesis by (simp add: highBits_bucket assms(1) xz)
  next
    case False
    then have h: "Q \<le> x + z" using assms(3) by (simp add: x_def)
    then have "(x + z) mod Q = x + z - Q"
      using assms(2) x g m by (intro int_mod_pos_eq [of _ _ 1]) linarith+
    moreover have "bucket (x + z - Q) g = 0"
      using h g assms(2) x by (intro bucket_unique) simp_all
    ultimately show ?thesis by (simp add: highBits_bucket assms(1) xz)
  qed
qed

lemma useHint_eq:
  assumes "valid_gamma2 g"
  shows "useHint 0 r g = highBits r g"
    and "h \<noteq> 0 \<Longrightarrow> useHint h r g = (if lowBits r g > 0 then highBits r g + 1 else highBits r g - 1) mod levels g"
proof -
  note g = valid_gamma2_facts [OF assms]
  have m: "cdiv (Q - 1) (2 * g) = levels g" using g by (simp add: levels_def cdiv_nonneg Q_def)
  have pos: "0 < levels g" using g by simp
  show "useHint 0 r g = highBits r g"
    by (simp add: useHint_def highBits_def split_beta Let_def)
  show "useHint h r g = (if lowBits r g > 0 then highBits r g + 1 else highBits r g - 1) mod levels g" if "h \<noteq> 0"
    using that by (simp add: useHint_def highBits_def lowBits_def split_beta Let_def m crem_fix [OF pos])
qed

lemma hint_recovers:
  assumes "valid_gamma2 g" and "\<bar>z\<bar> < g"
  shows "useHint (if highBits r g \<noteq> highBits (r + z) g then 1 else 0) r g = highBits (r + z) g"
proof (cases "0 \<le> r mod Q + z \<and> r mod Q + z < Q")
  case False
  then show ?thesis using highBits_wrap [OF assms] by (simp add: useHint_eq(1) [OF assms(1)])
next
  case True
  note g = valid_gamma2_facts [OF assms(1)]
  define x where "x = r mod Q"
  define k l where "k = bucket x g" and "l = bucket (x + z) g"
  have "(r + z) mod Q = (x + z) mod Q" by (simp add: x_def mod_add_left_eq)
  then have xz: "(r + z) mod Q = x + z" using True by (simp add: x_def mod_pos_pos_trivial)
  have hb: "highBits r g = (if k = levels g then 0 else k)" "highBits (r + z) g = (if l = levels g then 0 else l)"
    by (simp_all add: highBits_bucket assms(1) xz x_def [symmetric] k_def l_def)
  have lb: "lowBits r g = x - 2 * g * k - (if k = levels g then 1 else 0)"
    by (simp add: lowBits_bucket assms(1) x_def k_def)
  have rng: "0 \<le> k" "k \<le> levels g" "0 \<le> l" "l \<le> levels g"
    using bucket_range [OF assms(1), of r] bucket_range [OF assms(1), of "r + z"]
    by (simp_all add: k_def l_def x_def [symmetric] xz)
  from bucket_shift [OF g(1) assms(2), of x] consider "l = k"
    | "l = k + 1" "0 < x - 2 * g * k" | "l = k - 1" "x - 2 * g * k < 0"
    unfolding k_def l_def by blast
  then show ?thesis
  proof cases
    case 1
    then show ?thesis using hb by (simp add: useHint_eq(1) [OF assms(1)])
  next
    case 2
    then have k: "k < levels g" using rng by simp
    have "highBits (r + z) g = (k + 1) mod levels g"
    proof (cases "k + 1 = levels g")
      case False
      then have "(k + 1) mod levels g = k + 1" using k rng(1) by (intro mod_pos_pos_trivial) linarith+
      with False 2 hb show ?thesis by simp
    qed (use 2 hb in simp)
    moreover have "highBits r g \<noteq> highBits (r + z) g"
    proof (cases "k + 1 = levels g")
      case True
      then show ?thesis using 2 hb k g(3) by simp
    qed (use 2 hb k in simp)
    moreover have "highBits r g = k" "0 < lowBits r g" using 2 hb lb k by simp_all
    ultimately show ?thesis by (simp add: useHint_eq(2) [OF assms(1)])
  next
    case 3
    then have l: "l < levels g" using rng by linarith
    have "highBits (r + z) g = (highBits r g - 1) mod levels g"
    proof (cases "k = levels g")
      case True
      have "(- 1) mod levels g = levels g - 1" using g(3) by (simp add: zmod_minus1)
      then show ?thesis using True 3 hb l by simp
    next
      case False
      have "(k - 1) mod levels g = k - 1" using l 3 rng(3) by (intro mod_pos_pos_trivial) linarith+
      with False 3 hb l show ?thesis by simp
    qed
    moreover have "highBits r g \<noteq> highBits (r + z) g"
      using 3 hb l g(3) by (cases "k = levels g") simp_all
    moreover have "\<not> lowBits r g > 0" using 3 lb by (cases "k = levels g") simp_all
    ultimately show ?thesis by (simp add: useHint_eq(2) [OF assms(1)])
  qed
qed

lemma highBits_stable:
  assumes "valid_gamma2 g" and "\<bar>lowBits r g\<bar> + \<bar>z\<bar> < g"
  shows "highBits (r + z) g = highBits r g"
proof (cases "0 \<le> r mod Q + z \<and> r mod Q + z < Q")
  case False
  then show ?thesis using highBits_wrap [OF assms(1), of z r] assms(2) by simp
next
  case True
  define x where "x = r mod Q"
  define k where "k = bucket x g"
  have "(r + z) mod Q = (x + z) mod Q" by (simp add: x_def mod_add_left_eq)
  then have xz: "(r + z) mod Q = x + z" using True by (simp add: x_def mod_pos_pos_trivial)
  have lb: "lowBits r g = x - 2 * g * k - (if k = levels g then 1 else 0)"
    by (simp add: lowBits_bucket assms(1) x_def k_def)
  have "bucket (x + z) g = k"
    by (rule bucket_unique) (use valid_gamma2_facts(1) [OF assms(1)] lb assms(2) in \<open>auto split: if_splits\<close>)
  then show ?thesis by (simp add: highBits_bucket assms(1) xz x_def [symmetric] k_def)
qed

text \<open>
  Hints recover the high bits: for a shift \<open>z\<close> smaller than \<open>gamma2\<close>, the bit that says whether
  the high bits of \<open>r\<close> and \<open>r + z\<close> differ lets \<^verbatim>\<open>useHint\<close> compute the high bits of \<open>r + z\<close> from \<open>r\<close>
  alone, for residues at both ends of the range too. (The signer sends the bit, and the verifier
  knows \<open>r\<close> only.)
\<close>

theorem use_hint_correct:
  assumes "valid_gamma2 g" and "\<bar>z\<bar> < g"
  shows "useHint (if highBits r g \<noteq> highBits (r + z) g then 1 else 0) r g = highBits (r + z) g"
  by (rule hint_recovers [OF assms])

theorem use_hint_correct_witness:
  "useHint (if highBits 95000 95232 \<noteq> highBits (95000 + 5000) 95232 then 1 else 0) 95000 95232 = 1"
proof -
  have "highBits (95000 + 5000) 95232 = 1" by code_simp
  with use_hint_correct [of 95232 5000 95000] show ?thesis by (simp add: valid_gamma2_def)
qed

end
