(* ===== verification/MldsaCodec.thy ===== *)
theory MldsaCodec
  imports MldsaPack
begin

text \<open>
  Round trips of the serialisation of \<open>MldsaPack\<close>. The bit writer and reader are related to the natural
  number whose digits the bytes are: writing appends a digit at the top, reading divides one off.
\<close>

section \<open>Bytes as a number\<close>

fun le_nat :: "bytes \<Rightarrow> nat" where
  "le_nat [] = 0"
| "le_nat (b # bs) = unat b + 256 * le_nat bs"

fun digits :: "nat \<Rightarrow> u32 list \<Rightarrow> nat" where
  "digits bits [] = 0"
| "digits bits (v # vs) = unat v + 2 ^ bits * digits bits vs"

lemma le_nat_append: "le_nat (xs @ ys) = le_nat xs + 256 ^ length xs * le_nat ys"
  by (induction xs) (simp_all add: algebra_simps)

lemma pack_bound:
  fixes a b :: nat
  assumes "a < 2 ^ n" and "b < 2 ^ m"
  shows "a + 2 ^ n * b < 2 ^ (n + m)"
proof -
  have "2 ^ n * (b + 1) \<le> 2 ^ n * (2 ^ m :: nat)" using assms(2) by (intro mult_le_mono2) simp
  with assms(1) show ?thesis by (simp add: power_add)
qed

lemma unat_or_push:
  fixes a b :: u64
  assumes "unat a < 2 ^ n" and "unat b < 2 ^ m" and "n + m \<le> 64"
  shows "unat (a OR push_bit n b) = unat a + 2 ^ n * unat b"
proof -
  have lt: "2 ^ n * unat b < 2 ^ 64"
  proof -
    have "2 ^ n * unat b < 2 ^ n * 2 ^ m" using assms(2) by simp
    also have "\<dots> = 2 ^ (n + m)" by (simp add: power_add)
    also have "\<dots> \<le> 2 ^ 64" using assms(3) by (intro power_increasing) simp_all
    finally show ?thesis .
  qed
  have "unat (push_bit n b) = take_bit LENGTH(64) (push_bit n (unat b))" by (rule unsigned_push_bit_eq)
  also have "\<dots> = 2 ^ n * unat b" using lt by (simp add: push_bit_eq_mult take_bit_nat_eq_self mult.commute)
  finally have "unat (push_bit n b) = 2 ^ n * unat b" .
  moreover have "unat (a OR push_bit n b) = unat a OR unat (push_bit n b)" by (rule unsigned_or_eq)
  moreover have "unat a OR (2 ^ n * unat b) = unat a + 2 ^ n * unat b"
  proof (rule disjunctive_add_eq_or [symmetric])
    have "take_bit n (unat a) = unat a" using assms(1) by (simp add: take_bit_nat_eq_self)
    then have "\<not> bit (unat a) k" if "n \<le> k" for k using that bit_take_bit_iff [of n "unat a" k] by simp
    then have "unat a AND push_bit n (unat b) = 0"
      by (intro bit_eqI) (auto simp: bit_and_iff bit_push_bit_iff)
    then show "unat a AND (2 ^ n * unat b) = 0" by (simp add: push_bit_eq_mult mult.commute)
  qed
  ultimately show ?thesis by simp
qed

section \<open>The writer\<close>

definition wnum :: "BitWriter \<Rightarrow> nat" where
  "wnum w = le_nat (bw_out w) + 256 ^ length (bw_out w) * unat (bw_cur w)"

definition wbits :: "BitWriter \<Rightarrow> nat" where
  "wbits w = 8 * length (bw_out w) + bw_nbits w"

definition winv :: "BitWriter \<Rightarrow> bool" where
  "winv w \<longleftrightarrow> unat (bw_cur w) < 2 ^ bw_nbits w \<and> bw_nbits w < 8"

lemma pow_256: "256 ^ n = (2 :: nat) ^ (8 * n)"
  by (simp add: power_mult)

lemma bw_flush_num:
  assumes "unat (bw_cur w) < 2 ^ bw_nbits w"
  shows "wnum (bw_flush w) = wnum w \<and> wbits (bw_flush w) = wbits w \<and> winv (bw_flush w)"
  using assms
proof (induction w rule: bw_flush.induct)
  case (1 w)
  show ?case
  proof (cases "8 \<le> bw_nbits w")
    case True
    let ?w = "w\<lparr>bw_out := bw_out w @ [ucast (bw_cur w)], bw_cur := drop_bit 8 (bw_cur w), bw_nbits := bw_nbits w - 8\<rparr>"
    have cur: "unat (drop_bit 8 (bw_cur w)) = unat (bw_cur w) div 256"
      by (subst unat_drop_bit_eq) (simp add: drop_bit_eq_div)
    have byte: "unat (ucast (bw_cur w) :: byte) = unat (bw_cur w) mod 256"
      by (simp add: unsigned_ucast_eq take_bit_eq_mod)
    have "2 ^ bw_nbits w = (2 :: nat) ^ (bw_nbits w - 8) * 256"
      using True power_add [of "2 :: nat" "bw_nbits w - 8" 8] by simp
    then have "unat (bw_cur w) div 256 < 2 ^ (bw_nbits w - 8)"
      using 1(2) by (simp add: less_mult_imp_div_less)
    then have IH: "wnum (bw_flush ?w) = wnum ?w \<and> wbits (bw_flush ?w) = wbits ?w \<and> winv (bw_flush ?w)"
      using 1(1) [OF True] by (simp add: cur)
    have "x * (c mod 256) + 256 * (x * (c div 256)) = x * c" for x c :: nat
      by (metis distrib_left mult.left_commute mod_mult_div_eq)
    then have "wnum ?w = wnum w" by (simp add: wnum_def le_nat_append cur byte mult.assoc)
    moreover have "wbits ?w = wbits w" using True by (simp add: wbits_def)
    ultimately show ?thesis using IH True by (simp add: bw_flush.simps [of w])
  next
    case False
    then show ?thesis using 1(2) by (simp add: bw_flush.simps [of w] winv_def)
  qed
qed

lemma bw_write_num:
  assumes "winv w" and "unat v < 2 ^ bits" and "bits \<le> 32"
  shows "wnum (bw_write v bits w) = wnum w + 2 ^ wbits w * unat v"
    and "wbits (bw_write v bits w) = wbits w + bits" and "winv (bw_write v bits w)"
proof -
  let ?w = "w\<lparr>bw_cur := bw_cur w OR push_bit (bw_nbits w) (ucast v), bw_nbits := bw_nbits w + bits\<rparr>"
  have uv: "unat (ucast v :: u64) = unat v" by (simp add: unat_ucast_up)
  have cur: "unat (bw_cur ?w) = unat (bw_cur w) + 2 ^ bw_nbits w * unat v"
    using unat_or_push [of "bw_cur w" "bw_nbits w" "ucast v" bits] assms uv by (simp add: winv_def)
  also have "\<dots> < 2 ^ (bw_nbits w + bits)"
    using assms(1,2) by (intro pack_bound) (simp_all add: winv_def)
  finally have "unat (bw_cur ?w) < 2 ^ bw_nbits ?w" by simp
  from bw_flush_num [OF this]
  show "wnum (bw_write v bits w) = wnum w + 2 ^ wbits w * unat v"
    and "wbits (bw_write v bits w) = wbits w + bits" and "winv (bw_write v bits w)"
    using cur by (simp_all add: bw_write_def wnum_def wbits_def pow_256 power_add algebra_simps)
qed

lemma bw_writes_num:
  "winv w \<Longrightarrow> \<forall>v \<in> set vs. unat v < 2 ^ bits \<Longrightarrow> bits \<le> 32 \<Longrightarrow>
   wnum (fold (\<lambda>v. bw_write v bits) vs w) = wnum w + 2 ^ wbits w * digits bits vs \<and>
   wbits (fold (\<lambda>v. bw_write v bits) vs w) = wbits w + bits * length vs \<and>
   winv (fold (\<lambda>v. bw_write v bits) vs w)"
proof (induction vs arbitrary: w)
  case (Cons v vs)
  then show ?case
    using bw_write_num [of w v bits] Cons.IH [of "bw_write v bits w"]
    by (simp add: algebra_simps power_add)
qed simp

section \<open>The reader\<close>

definition rnum :: "BitReader \<Rightarrow> nat" where
  "rnum r = unat (br_cur r) + 2 ^ br_nbits r * le_nat (drop (br_pos r) (br_in r))"

lemma br_fill_num:
  assumes "unat (br_cur r) < 2 ^ br_nbits r" and "br_nbits r < bits + 8" and "bits \<le> 32"
  shows "rnum (br_fill bits r) = rnum r \<and> unat (br_cur (br_fill bits r)) < 2 ^ br_nbits (br_fill bits r) \<and>
    bits \<le> br_nbits (br_fill bits r) \<and> br_nbits (br_fill bits r) < bits + 8"
  using assms
proof (induction bits r rule: br_fill.induct)
  case (1 bits r)
  show ?case
  proof (cases "br_nbits r < bits")
    case False
    then show ?thesis using 1 by (simp add: br_fill.simps [of bits r])
  next
    case True
    define more where "more = (br_pos r < length (br_in r))"
    define b where "b = (if more then br_in r ! br_pos r else 0)"
    define r' where "r' = r\<lparr>br_pos := (if more then br_pos r + 1 else br_pos r),
        br_cur := br_cur r OR push_bit (br_nbits r) (ucast b), br_nbits := br_nbits r + 8\<rparr>"
    have fill: "br_fill bits r = br_fill bits r'"
      using True by (subst br_fill.simps) (simp only: Let_def more_def b_def r'_def if_True)
    have ub: "unat (ucast b :: u64) = unat b" "unat b < 2 ^ 8"
      using unat_bound [of b] by (simp_all add: unat_ucast_up)
    have cur: "unat (br_cur r') = unat (br_cur r) + 2 ^ br_nbits r * unat b"
      using unat_or_push [of "br_cur r" "br_nbits r" "ucast b" 8] 1(2,4) True ub by (simp add: r'_def)
    have rest: "le_nat (drop (br_pos r) (br_in r)) = unat b + 256 * le_nat (drop (br_pos r') (br_in r'))"
      by (cases more) (simp_all add: more_def b_def r'_def Cons_nth_drop_Suc [symmetric])
    have "rnum r' = rnum r"
      unfolding rnum_def rest cur by (simp add: r'_def power_add algebra_simps)
    moreover have "unat (br_cur r') < 2 ^ br_nbits r'"
      unfolding cur using pack_bound [OF 1(2) ub(2)] by (simp add: r'_def)
    moreover have "br_nbits r' < bits + 8" using True by (simp add: r'_def)
    ultimately show ?thesis
      using 1(1) [OF True more_def b_def] 1(4) unfolding fill r'_def [symmetric] by simp
  qed
qed

lemma br_read_num:
  assumes "unat (br_cur r) < 2 ^ br_nbits r" and "br_nbits r < 8" and "bits \<le> 32"
  shows "unat (fst (br_read bits r)) = rnum r mod 2 ^ bits"
    and "rnum (snd (br_read bits r)) = rnum r div 2 ^ bits"
    and "unat (br_cur (snd (br_read bits r))) < 2 ^ br_nbits (snd (br_read bits r))"
    and "br_nbits (snd (br_read bits r)) < 8"
proof -
  define f where "f = br_fill bits r"
  have f: "rnum f = rnum r" "unat (br_cur f) < 2 ^ br_nbits f" "bits \<le> br_nbits f" "br_nbits f < bits + 8"
    using br_fill_num [of r bits] assms by (simp_all add: f_def)
  define c where "c = unat (br_cur f)"
  define R where "R = le_nat (drop (br_pos f) (br_in f))"
  obtain e where e: "br_nbits f = bits + e" using f(3) le_Suc_ex by blast
  have num: "rnum r = c + 2 ^ bits * (2 ^ e * R)"
    using f(1) by (simp add: rnum_def c_def R_def e power_add mult.assoc)
  have read: "br_read bits r = (ucast (br_cur f AND mask bits), f\<lparr>br_cur := drop_bit bits (br_cur f), br_nbits := e\<rparr>)"
    by (simp add: br_read_def f_def [symmetric] Let_def mask_eq_exp_minus_1 push_bit_eq_mult e)
  have "unat (br_cur f AND mask bits) = take_bit bits c"
    unfolding take_bit_eq_mask [symmetric] c_def by (rule unsigned_take_bit_eq)
  then have "unat (br_cur f AND mask bits) = c mod 2 ^ bits" by (simp add: take_bit_eq_mod)
  moreover have "c mod 2 ^ bits < 2 ^ 32"
    by (rule less_le_trans [OF mod_less_divisor power_increasing [OF assms(3)]]) simp_all
  ultimately have v: "unat (fst (br_read bits r)) = c mod 2 ^ bits"
    by (simp add: read unsigned_ucast_eq take_bit_nat_eq_self)
  show "unat (fst (br_read bits r)) = rnum r mod 2 ^ bits" by (simp add: v num)
  have d: "unat (drop_bit bits (br_cur f)) = c div 2 ^ bits"
    unfolding c_def by (subst unat_drop_bit_eq) (simp add: drop_bit_eq_div)
  have "rnum (snd (br_read bits r)) = c div 2 ^ bits + 2 ^ e * R"
    by (simp add: read rnum_def d R_def)
  then show "rnum (snd (br_read bits r)) = rnum r div 2 ^ bits" by (simp add: num)
  show "unat (br_cur (snd (br_read bits r))) < 2 ^ br_nbits (snd (br_read bits r))"
    using f(2) by (simp add: read d c_def [symmetric] e power_add less_mult_imp_div_less mult.commute)
  show "br_nbits (snd (br_read bits r)) < 8" using f(4) e by (simp add: read)
qed

lemma br_reads_digits:
  assumes "unat (br_cur r) < 2 ^ br_nbits r" and "br_nbits r < 8" and "bits \<le> 32"
    and "\<forall>v \<in> set vs. unat v < 2 ^ bits" and "rnum r = digits bits vs"
  shows "br_reads (length vs) bits r = vs"
  using assms
proof (induction vs arbitrary: r)
  case (Cons v vs)
  note r = br_read_num [OF Cons.prems(1-3)]
  have "unat (fst (br_read bits r)) = unat v" using r(1) Cons.prems(4,5) by simp
  then have "fst (br_read bits r) = v" by (simp add: unsigned_word_eqI)
  moreover have "rnum (snd (br_read bits r)) = digits bits vs" using r(2) Cons.prems(4,5) by simp
  ultimately show ?case
    using Cons.IH [of "snd (br_read bits r)"] r Cons.prems(3,4) by (simp add: split_beta)
qed simp

lemma pack_unpack:
  assumes "bits \<le> 32" and "\<forall>v \<in> set vs. unat v < 2 ^ bits" and "8 dvd bits * length vs"
  defines "out \<equiv> bw_out (fold (\<lambda>v. bw_write v bits) vs new_BitWriter)"
  shows "length out = bits * length vs div 8" and "br_reads (length vs) bits (new_BitReader out) = vs"
proof -
  let ?w = "fold (\<lambda>v. bw_write v bits) vs new_BitWriter"
  have w: "wnum ?w = digits bits vs" "wbits ?w = bits * length vs" "winv ?w"
    using bw_writes_num [of new_BitWriter vs bits] assms(1,2)
    by (simp_all add: wnum_def wbits_def winv_def new_BitWriter_def)
  have "8 dvd bw_nbits ?w"
    using w(2) assms(3) by (simp add: wbits_def) (metis dvd_add_right_iff dvd_triv_left)
  then have z: "bw_nbits ?w = 0" using w(3) by (auto simp: winv_def)
  then have "unat (bw_cur ?w) = 0" using w(3) by (simp add: winv_def)
  then have n: "le_nat out = digits bits vs" using w(1) by (simp add: wnum_def out_def)
  show "length out = bits * length vs div 8" using w(2) z by (simp add: wbits_def out_def)
  show "br_reads (length vs) bits (new_BitReader out) = vs"
    by (rule br_reads_digits) (use assms n in \<open>simp_all add: new_BitReader_def rnum_def\<close>)
qed

section \<open>Packed polynomials\<close>

definition in_range :: "(int \<Rightarrow> int) \<Rightarrow> nat \<Rightarrow> Poly \<Rightarrow> bool" where
  "in_range f bits p \<longleftrightarrow> length p = NN \<and> (\<forall>c \<in> set p. 0 \<le> f c \<and> f c < 2 ^ bits)"

lemma word_of_int_32:
  assumes "0 \<le> c" and "c < 2 ^ bits" and "bits < 32"
  shows "unat (word_of_int c :: u32) < 2 ^ bits" and "sint (word_of_int c :: u32) = c"
proof -
  have "c < 2 ^ 31" using assms power_increasing [of bits 31 "2 :: int"] by simp
  then have u: "uint (word_of_int c :: u32) = c"
    using assms(1) by (simp add: uint_word_of_int take_bit_int_eq_self)
  then show "unat (word_of_int c :: u32) < 2 ^ bits"
    using assms(1,2) by (simp add: nat_less_iff flip: nat_uint_eq)
  show "sint (word_of_int c :: u32) = c"
    using \<open>c < 2 ^ 31\<close> assms(1) by (simp add: sint_sbintrunc' signed_take_bit_int_eq_self)
qed

lemma poly_pack:
  assumes "bits < 32" and "in_range f bits p"
  defines "out \<equiv> bw_out (fold (\<lambda>i. bw_write (word_of_int (f (p ! i))) bits) [0..<NN] new_BitWriter)"
  shows "length out = 32 * bits" and "map sint (br_reads NN bits (new_BitReader out)) = map f p"
proof -
  let ?vs = "map (\<lambda>c. word_of_int (f c) :: u32) p"
  have len: "length p = NN" using assms(2) by (simp add: in_range_def)
  have vals: "map (\<lambda>i. word_of_int (f (p ! i)) :: u32) [0..<NN] = ?vs"
    using len by (intro nth_equalityI) simp_all
  have out: "out = bw_out (fold (\<lambda>v. bw_write v bits) ?vs new_BitWriter)"
    unfolding out_def vals [symmetric] fold_map by (simp only: comp_def)
  have vs: "\<forall>v \<in> set ?vs. unat v < 2 ^ bits"
    using assms(1,2) word_of_int_32(1) by (auto simp: in_range_def)
  note pu = pack_unpack [OF _ vs, folded out]
  show "length out = 32 * bits" using pu(1) assms(1) len by (simp add: NN_def)
  have "br_reads NN bits (new_BitReader out) = ?vs" using pu(2) assms(1) len by (simp add: NN_def)
  moreover have "map sint ?vs = map f p"
    using assms(1,2) word_of_int_32(2) by (auto simp: in_range_def)
  ultimately show "map sint (br_reads NN bits (new_BitReader out)) = map f p" by simp
qed

lemma bitPack_roundtrip:
  assumes "bits < 32" and "in_range (\<lambda>c. b - c) bits p"
  shows "length (bitPack p b bits) = 32 * bits" and "bitUnpack (bitPack p b bits) b bits = p"
proof -
  note r = poly_pack [OF assms]
  show "length (bitPack p b bits) = 32 * bits" using r(1) by (simp add: bitPack_def)
  have "bitUnpack (bitPack p b bits) b bits = map (\<lambda>v. b - v) (map sint (br_reads NN bits (new_BitReader (bitPack p b bits))))"
    by (simp add: bitUnpack_def)
  also have "\<dots> = p" unfolding bitPack_def r(2) by (simp add: comp_def)
  finally show "bitUnpack (bitPack p b bits) b bits = p" .
qed

lemma simpleBitPack_roundtrip:
  assumes "bits < 32" and "in_range (\<lambda>c. c) bits p"
  shows "length (simpleBitPack p bits) = 32 * bits" and "simpleBitUnpack (simpleBitPack p bits) bits = p"
  using poly_pack [OF assms] by (simp_all add: simpleBitPack_def simpleBitUnpack_def)

text \<open>
  The formats of the parameter sets: \<open>t1\<close> in 10 bits, \<open>s1\<close> and \<open>s2\<close> in 3 or 4 bits, \<open>t0\<close> in 13 bits, \<open>z\<close> in
  18 or 20 bits, the high bits of \<open>w\<close> in 6 or 4 bits.
\<close>

interpretation t1_codec: codec "\<lambda>p. simpleBitPack p 10" "\<lambda>b. simpleBitUnpack b 10" "in_range (\<lambda>c. c) 10" 320
  by unfold_locales (simp_all add: simpleBitPack_roundtrip)

interpretation eta2_codec: codec "\<lambda>p. bitPack p 2 3" "\<lambda>b. bitUnpack b 2 3" "in_range (\<lambda>c. 2 - c) 3" 96
  by unfold_locales (simp_all add: bitPack_roundtrip)

interpretation eta4_codec: codec "\<lambda>p. bitPack p 4 4" "\<lambda>b. bitUnpack b 4 4" "in_range (\<lambda>c. 4 - c) 4" 128
  by unfold_locales (simp_all add: bitPack_roundtrip)

interpretation t0_codec: codec "\<lambda>p. bitPack p 4096 13" "\<lambda>b. bitUnpack b 4096 13" "in_range (\<lambda>c. 4096 - c) 13" 416
  by unfold_locales (simp_all add: bitPack_roundtrip)

interpretation z17_codec: codec "\<lambda>p. bitPack p (2 ^ 17) 18" "\<lambda>b. bitUnpack b (2 ^ 17) 18" "in_range (\<lambda>c. 2 ^ 17 - c) 18" 576
  by unfold_locales (simp_all add: bitPack_roundtrip)

interpretation z19_codec: codec "\<lambda>p. bitPack p (2 ^ 19) 20" "\<lambda>b. bitUnpack b (2 ^ 19) 20" "in_range (\<lambda>c. 2 ^ 19 - c) 20" 640
  by unfold_locales (simp_all add: bitPack_roundtrip)

interpretation w6_codec: codec "\<lambda>p. simpleBitPack p 6" "\<lambda>b. simpleBitUnpack b 6" "in_range (\<lambda>c. c) 6" 192
  by unfold_locales (simp_all add: simpleBitPack_roundtrip)

interpretation w4_codec: codec "\<lambda>p. simpleBitPack p 4" "\<lambda>b. simpleBitUnpack b 4" "in_range (\<lambda>c. c) 4" 128
  by unfold_locales (simp_all add: simpleBitPack_roundtrip)

section \<open>Keys\<close>

lemma map_nth_upt: "length xs = n \<Longrightarrow> map (\<lambda>i. f (xs ! i)) [0..<n] = map f xs"
  by (rule nth_equalityI) simp_all

definition pk_ok :: "Param \<Rightarrow> PublicKey \<Rightarrow> bool" where
  "pk_ok p pk \<longleftrightarrow> length (pk_rho pk) = 32 \<and> length (pk_t1 pk) = p_k p \<and>
     list_all (in_range (\<lambda>c. c) 10) (pk_t1 pk)"

definition sk_ok :: "Param \<Rightarrow> SecretKey \<Rightarrow> bool" where
  "sk_ok p sk \<longleftrightarrow> length (sk_rho sk) = 32 \<and> length (sk_key sk) = 32 \<and> length (sk_tr sk) = 64 \<and>
     length (sk_s1 sk) = p_l p \<and> length (sk_s2 sk) = p_k p \<and> length (sk_t0 sk) = p_k p \<and>
     list_all (\<lambda>s. length s = NN \<and> (\<forall>c \<in> set s. \<bar>c\<bar> \<le> int (p_eta p))) (sk_s1 sk @ sk_s2 sk) \<and>
     list_all (\<lambda>t. length t = NN \<and> (\<forall>c \<in> set t. - 4096 < c \<and> c \<le> 4096)) (sk_t0 sk)"

lemma decode_encode_PK: "pk_ok p pk \<Longrightarrow> decodePK p (encodePK p pk) = Some pk"
  unfolding pk_ok_def encodePK_def decodePK_def
  using t1_codec.read_vec_enc [of "pk_t1 pk" "[]"] t1_codec.length_concat_enc [of "pk_t1 pk"]
  by (simp add: map_nth_upt [of _ _ "\<lambda>p. simpleBitPack p 10"] NN_def Let_def)

lemma bitlen_eta: "bitlen 4 = 3" "bitlen 8 = 4"
  by code_simp+

lemma eta_vec:
  assumes "eta = 2 \<or> eta = 4"
    and "list_all (\<lambda>s. length s = NN \<and> (\<forall>c \<in> set s. \<bar>c\<bar> \<le> int eta)) xs"
  defines "bits \<equiv> bitlen (2 * eta)"
  shows "length (concat (map (\<lambda>s. bitPack s (int eta) bits) xs)) = length xs * (32 * bits)"
    and "read_vec (\<lambda>b. bitUnpack b (int eta) bits) (32 * bits) (length xs)
      (concat (map (\<lambda>s. bitPack s (int eta) bits) xs) @ rest) = xs"
proof -
  have "list_all (in_range (\<lambda>c. int eta - c) bits) xs"
    unfolding list_all_iff in_range_def
  proof (intro ballI conjI)
    fix s c assume "s \<in> set xs" "c \<in> set s"
    then have "\<bar>c\<bar> \<le> int eta" using assms(2) by (simp add: list_all_iff)
    then show "0 \<le> int eta - c" "int eta - c < 2 ^ bits"
      using assms(1) by (auto simp: bits_def bitlen_eta)
  qed (use assms(2) in \<open>simp add: list_all_iff\<close>)
  with assms(1)
  show "length (concat (map (\<lambda>s. bitPack s (int eta) bits) xs)) = length xs * (32 * bits)"
    and "read_vec (\<lambda>b. bitUnpack b (int eta) bits) (32 * bits) (length xs)
      (concat (map (\<lambda>s. bitPack s (int eta) bits) xs) @ rest) = xs"
    using eta2_codec.length_concat_enc [of xs] eta2_codec.read_vec_enc [of xs rest]
      eta4_codec.length_concat_enc [of xs] eta4_codec.read_vec_enc [of xs rest]
    by (auto simp: bits_def bitlen_eta)
qed

lemma decode_encode_SK:
  assumes "sk_ok p sk" and eta: "p_eta p = 2 \<or> p_eta p = 4"
  shows "decodeSK p (encodeSK p sk) = Some sk"
proof -
  define bits where "bits = bitlen (2 * p_eta p)"
  define e1 where "e1 = concat (map (\<lambda>s. bitPack s (int (p_eta p)) bits) (sk_s1 sk))"
  define e2 where "e2 = concat (map (\<lambda>s. bitPack s (int (p_eta p)) bits) (sk_s2 sk))"
  define e0 where "e0 = concat (map (\<lambda>t. bitPack t 4096 13) (sk_t0 sk))"
  have len: "length (sk_rho sk) = 32" "length (sk_key sk) = 32" "length (sk_tr sk) = 64"
    "length (sk_s1 sk) = p_l p" "length (sk_s2 sk) = p_k p" "length (sk_t0 sk) = p_k p"
    and s: "list_all (\<lambda>s. length s = NN \<and> (\<forall>c \<in> set s. \<bar>c\<bar> \<le> int (p_eta p))) (sk_s1 sk)"
      "list_all (\<lambda>s. length s = NN \<and> (\<forall>c \<in> set s. \<bar>c\<bar> \<le> int (p_eta p))) (sk_s2 sk)"
    using assms(1) by (auto simp: sk_ok_def)
  have t0: "list_all (in_range (\<lambda>c. 4096 - c) 13) (sk_t0 sk)"
    unfolding list_all_iff in_range_def
  proof (intro ballI conjI)
    fix t c assume "t \<in> set (sk_t0 sk)" "c \<in> set t"
    then have "- 4096 < c \<and> c \<le> 4096" using assms(1) by (simp add: sk_ok_def list_all_iff)
    then show "0 \<le> 4096 - c" "4096 - c < 2 ^ 13" by simp_all
  qed (use assms(1) in \<open>simp add: sk_ok_def list_all_iff\<close>)
  have enc: "encodeSK p sk = sk_rho sk @ sk_key sk @ sk_tr sk @ e1 @ e2 @ e0"
    using len by (simp add: encodeSK_def Let_def bits_def [symmetric] e1_def e2_def e0_def DD_def
        map_nth_upt [of _ _ "\<lambda>s. bitPack s (int (p_eta p)) bits"] map_nth_upt [of _ _ "\<lambda>t. bitPack t 4096 13"])
  have bytes: "NN * bits div 8 = 32 * bits" "NN * DD div 8 = 416" by (simp_all add: NN_def DD_def)
  have l: "length e1 = p_l p * (32 * bits)" "length e2 = p_k p * (32 * bits)" "length e0 = p_k p * 416"
    using eta_vec(1) [OF eta s(1)] eta_vec(1) [OF eta s(2)] t0_codec.length_concat_enc [OF t0] len
    by (simp_all add: e1_def e2_def e0_def bits_def)
  have r: "read_vec (\<lambda>b. bitUnpack b (int (p_eta p)) bits) (32 * bits) (p_l p) (e1 @ e2 @ e0) = sk_s1 sk"
    "read_vec (\<lambda>b. bitUnpack b (int (p_eta p)) bits) (32 * bits) (p_k p) (e2 @ e0) = sk_s2 sk"
    "read_vec (\<lambda>b. bitUnpack b 4096 13) 416 (p_k p) e0 = sk_t0 sk"
    using eta_vec(2) [OF eta s(1), of "e2 @ e0"] eta_vec(2) [OF eta s(2), of e0] t0_codec.read_vec_enc [OF t0, of "[]"] len
    by (simp_all add: e1_def e2_def e0_def bits_def)
  show ?thesis
    unfolding decodeSK_def Let_def bits_def [symmetric] bytes enc
    using len l r by (simp add: DD_def distrib_right)
qed

text \<open>
  Keys survive serialisation: decoding the encoding of a public key whose \<open>t1\<close> fits 10 bits, or of
  a secret key whose coefficients lie in the ranges key generation produces, returns the key; and
  the encodings have the sizes the decoders insist on.
\<close>

theorem key_roundtrip:
  assumes "pk_ok p pk" and "sk_ok p sk" and "p_eta p = 2 \<or> p_eta p = 4"
  shows "decodePK p (encodePK p pk) = Some pk \<and> decodeSK p (encodeSK p sk) = Some sk"
  using decode_encode_PK [OF assms(1)] decode_encode_SK [OF assms(2,3)] by blast

definition toy_pk :: PublicKey where
  "toy_pk = \<lparr>pk_rho = replicate 32 1, pk_t1 = replicate 6 (replicate NN 1023)\<rparr>"

definition toy_sk :: SecretKey where
  "toy_sk = \<lparr>sk_rho = replicate 32 1, sk_key = replicate 32 2, sk_tr = replicate 64 3,
     sk_s1 = replicate 5 (replicate NN (- 4)), sk_s2 = replicate 6 (replicate NN 4),
     sk_t0 = replicate 6 (replicate NN 4096)\<rparr>"

theorem key_roundtrip_witness:
  "decodePK (paramFor 65) (encodePK (paramFor 65) toy_pk) = Some toy_pk \<and>
   decodeSK (paramFor 65) (encodeSK (paramFor 65) toy_sk) = Some toy_sk"
  by (rule key_roundtrip) (auto simp: pk_ok_def sk_ok_def toy_pk_def toy_sk_def paramFor_def
      in_range_def list_all_iff NN_def)

end
