(* ===== verification/MldsaScheme.thy ===== *)
theory MldsaScheme
  imports MldsaSample MldsaRounding MldsaCodec
begin

text \<open>
  Model of key generation, signing and verification of \<^verbatim>\<open>BHC/src/crypto/mldsa_fips204.h\<close>, and of its
  serialised interface. The loops over vectors are maps over index lists; the signing loop with its
  \<^verbatim>\<open>continue\<close> statements is \<open>sign_loop\<close> over \<open>sign_attempt\<close>.
\<close>

section \<open>Shared pieces\<close>

text \<open>
  The loop \<^verbatim>\<open>for j: polyAddInto(acc, pointwise(A[i * l + j], v[j]))\<close> that forms row \<open>i\<close> of a matrix
  product in the transformed domain.
\<close>

definition row_product :: "nat \<Rightarrow> Poly list \<Rightarrow> nat \<Rightarrow> Poly list \<Rightarrow> Poly" where
  "row_product l A i v =
     fold (\<lambda>j acc. polyAddInto acc (pointwise (A ! (i * l + j)) (v ! j))) [0..<l] zero_poly"

definition framed :: "bytes \<Rightarrow> bytes \<Rightarrow> bytes" where
  "framed ctx msg = [0x00, word_of_nat (length ctx)] @ ctx @ msg"

definition zbits :: "Param \<Rightarrow> nat" where
  "zbits p = bitlen (nat (2 * p_gamma1 p - 1))"

definition w1bits :: "Param \<Rightarrow> nat" where
  "w1bits p = bitlen (nat ((Q - 1) div (2 * p_gamma2 p) - 1))"

definition pack_w1 :: "Param \<Rightarrow> PolyVec \<Rightarrow> bytes" where
  "pack_w1 p w1 = concat (map (\<lambda>i. simpleBitPack (w1 ! i) (w1bits p)) [0..<p_k p])"

section \<open>Key generation\<close>

definition keyGenInternal :: "Param \<Rightarrow> bytes \<Rightarrow> (PublicKey \<times> SecretKey) option" where
  "keyGenInternal p xi =
     (let seedIn = xi @ [word_of_nat (p_k p), word_of_nat (p_l p)];
          expanded = shake256Sum 128 seedIn;
          rho = take 32 expanded;
          rhoP = take 64 (drop 32 expanded);
          K = take 32 (drop 96 expanded)
      in do {
           A \<leftarrow> expandA rho (p_k p) (p_l p);
           s1 \<leftarrow> those (map (\<lambda>i. rejBoundedPoly rhoP (word_of_nat i) (p_eta p)) [0..<p_l p]);
           s2 \<leftarrow> those (map (\<lambda>i. rejBoundedPoly rhoP (word_of_nat (p_l p + i)) (p_eta p)) [0..<p_k p]);
           let s1hat = map nttCopy s1;
           let t = map (\<lambda>i. polyAddInto (nttInverse (row_product (p_l p) A i s1hat)) (s2 ! i)) [0..<p_k p];
           let t1 = map (map (\<lambda>c. fst (power2Round c))) t;
           let t0 = map (map (\<lambda>c. snd (power2Round c))) t;
           let pk = \<lparr>pk_rho = rho, pk_t1 = t1\<rparr>;
           let tr = shake256Sum 64 (encodePK p pk);
           Some (pk, \<lparr>sk_rho = rho, sk_key = K, sk_tr = tr, sk_s1 = s1, sk_s2 = s2, sk_t0 = t0\<rparr>)
         })"

section \<open>Signing\<close>

text \<open>The commitment \<open>w = A y\<close>, from the row sums to the high bits.\<close>

definition commitment :: "Param \<Rightarrow> Poly list \<Rightarrow> PolyVec \<Rightarrow> PolyVec" where
  "commitment p A y =
     (let yhat = map nttCopy y in map (\<lambda>i. nttInverse (row_product (p_l p) A i yhat)) [0..<p_k p])"

definition high_vec :: "Param \<Rightarrow> PolyVec \<Rightarrow> PolyVec" where
  "high_vec p w = map (map (\<lambda>c. highBits c (p_gamma2 p))) w"

text \<open>
  The part of the loop body after the challenge: the response and its four rejection tests. The
  result \<open>None\<close> is a \<^verbatim>\<open>continue\<close>.
\<close>

definition response_z :: "Param \<Rightarrow> Poly \<Rightarrow> Poly list \<Rightarrow> PolyVec \<Rightarrow> PolyVec" where
  "response_z p chat s1hat y =
     map (\<lambda>j. let cs1 = nttInverse (pointwise chat (s1hat ! j))
              in map (\<lambda>cc. centered (modQ (y ! j ! cc + cs1 ! cc))) [0..<NN]) [0..<p_l p]"

definition response_wcs2 :: "Param \<Rightarrow> Poly \<Rightarrow> Poly list \<Rightarrow> PolyVec \<Rightarrow> PolyVec" where
  "response_wcs2 p chat s2hat w =
     map (\<lambda>i. let cs2 = nttInverse (pointwise chat (s2hat ! i))
              in map (\<lambda>cc. modQ (w ! i ! cc - cs2 ! cc)) [0..<NN]) [0..<p_k p]"

definition response_ct0 :: "Param \<Rightarrow> Poly \<Rightarrow> Poly list \<Rightarrow> PolyVec" where
  "response_ct0 p chat t0hat = map (\<lambda>i. nttInverse (pointwise chat (t0hat ! i))) [0..<p_k p]"

definition max_abs :: "int list \<Rightarrow> int" where
  "max_abs xs = fold (\<lambda>x mx. let a = (if x < 0 then - x else x) in if a > mx then a else mx) xs 0"

definition response_hint :: "Param \<Rightarrow> PolyVec \<Rightarrow> PolyVec \<Rightarrow> PolyVec" where
  "response_hint p wcs2 ct0 =
     map (\<lambda>i. map (\<lambda>cc.
        let hi1 = highBits (modQ (wcs2 ! i ! cc + ct0 ! i ! cc)) (p_gamma2 p);
            hi2 = highBits (wcs2 ! i ! cc) (p_gamma2 p)
        in if hi1 \<noteq> hi2 then 1 else 0) [0..<NN]) [0..<p_k p]"

definition response ::
  "Param \<Rightarrow> Poly \<Rightarrow> Poly list \<Rightarrow> Poly list \<Rightarrow> Poly list \<Rightarrow> PolyVec \<Rightarrow> PolyVec \<Rightarrow> (PolyVec \<times> PolyVec) option" where
  "response p c s1hat s2hat t0hat y w =
     (let chat = nttCopy c;
          z = response_z p chat s1hat y
      in if polyVecInfNorm z \<ge> p_gamma1 p - p_beta p then None
         else let wcs2 = response_wcs2 p chat s2hat w;
                  r0norm = max_abs (concat (map (map (\<lambda>c. lowBits c (p_gamma2 p))) wcs2))
              in if r0norm \<ge> p_gamma2 p - p_beta p then None
                 else let ct0 = response_ct0 p chat t0hat;
                          ct0norm = max_abs (concat (map (map (\<lambda>c. centered (modQ c))) ct0));
                          h = response_hint p wcs2 ct0;
                          hintCount = length (filter (\<lambda>b. b = 1) (concat h))
                      in if ct0norm \<ge> p_gamma2 p then None
                         else if hintCount > p_omega p then None
                         else Some (z, h))"

definition sign_attempt ::
  "Param \<Rightarrow> Poly list \<Rightarrow> bytes \<Rightarrow> bytes \<Rightarrow> Poly list \<Rightarrow> Poly list \<Rightarrow> Poly list \<Rightarrow> nat \<Rightarrow> bytes option option" where
  "sign_attempt p A mu rhoPP s1hat s2hat t0hat kappa =
     (let y = expandMask rhoPP kappa (p_l p) (p_gamma1 p);
          w = commitment p A y;
          w1 = high_vec p w;
          ctilde = shake256Sum (ctBytes p) (cat [mu, pack_w1 p w1])
      in do {
           c \<leftarrow> sampleInBall ctilde (p_tau p);
           Some (case response p c s1hat s2hat t0hat y w of
                   None \<Rightarrow> None
                 | Some (z, h) \<Rightarrow>
                     (let hb = hintPack h (p_omega p) (p_k p)
                      in if hb = [] then None
                         else Some (ctilde @
                                concat (map (\<lambda>j. bitPack (z ! j) (p_gamma1 p) (zbits p)) [0..<p_l p]) @ hb)))
         })"

text \<open>
  The loop \<^verbatim>\<open>for (kappa = 0; kappa < 1000 * l; kappa += l)\<close>: the outer option is termination of the
  sampling inside, the inner one the signature; \<open>Some None\<close> is the final \<^verbatim>\<open>return {}\<close>.
\<close>

fun sign_loop :: "(nat \<Rightarrow> bytes option option) \<Rightarrow> nat list \<Rightarrow> bytes option option" where
  "sign_loop attempt [] = Some None"
| "sign_loop attempt (kappa # ks) =
     (case attempt kappa of
        None \<Rightarrow> None
      | Some None \<Rightarrow> sign_loop attempt ks
      | Some (Some sig) \<Rightarrow> Some (Some sig))"

definition signCore :: "Param \<Rightarrow> SecretKey \<Rightarrow> bytes \<Rightarrow> bytes \<Rightarrow> bytes \<Rightarrow> bytes option option" where
  "signCore p sk msg ctx rnd =
     do {
       A \<leftarrow> expandA (sk_rho sk) (p_k p) (p_l p);
       let mu = shake256Sum 64 (cat [sk_tr sk, framed ctx msg]);
       let rhoPP = shake256Sum 64 (cat [sk_key sk, rnd, mu]);
       sign_loop (sign_attempt p A mu rhoPP (map nttCopy (sk_s1 sk)) (map nttCopy (sk_s2 sk)) (map nttCopy (sk_t0 sk)))
         (for_list 0 (1000 * p_l p) (p_l p))
     }"

section \<open>Verification\<close>

text \<open>The high bits the verifier recomputes from a response, a hint and the public key.\<close>

definition verifier_w1 :: "Param \<Rightarrow> Poly list \<Rightarrow> PolyVec \<Rightarrow> Poly \<Rightarrow> PolyVec \<Rightarrow> PolyVec \<Rightarrow> PolyVec" where
  "verifier_w1 p A t1 c z h =
     (let chat = nttCopy c;
          zhat = map nttCopy z;
          t1hat = map (\<lambda>i. nttCopy (map (\<lambda>cc. modQ (t1 ! i ! cc * 2 ^ DD)) [0..<NN])) [0..<p_k p]
      in map (\<lambda>i.
           let acc = row_product (p_l p) A i zhat;
               ct1 = pointwise chat (t1hat ! i);
               acc = nttInverse (map (\<lambda>cc. modQ (acc ! cc - ct1 ! cc)) [0..<NN])
           in map (\<lambda>cc. useHint (h ! i ! cc) (acc ! cc) (p_gamma2 p)) [0..<NN]) [0..<p_k p])"

definition verifyCore :: "Param \<Rightarrow> PublicKey \<Rightarrow> bytes \<Rightarrow> bytes \<Rightarrow> bytes \<Rightarrow> bool option" where
  "verifyCore p pk msg ctx sig =
     (let zBytesPerPoly = NN * zbits p div 8;
          sigSize = ctBytes p + p_l p * zBytesPerPoly + p_omega p + p_k p
      in if length sig \<noteq> sigSize then Some False
         else let ctilde = take (ctBytes p) sig;
                  z = read_vec (\<lambda>b. bitUnpack b (p_gamma1 p) (zbits p)) zBytesPerPoly (p_l p) (drop (ctBytes p) sig)
              in (case hintUnpack (drop (ctBytes p + p_l p * zBytesPerPoly) sig) (p_omega p) (p_k p) of
                    None \<Rightarrow> Some False
                  | Some h \<Rightarrow>
                      if polyVecInfNorm z \<ge> p_gamma1 p - p_beta p then Some False
                      else do {
                             A \<leftarrow> expandA (pk_rho pk) (p_k p) (p_l p);
                             let tr = shake256Sum 64 (encodePK p pk);
                             let mu = shake256Sum 64 (cat [tr, framed ctx msg]);
                             c \<leftarrow> sampleInBall ctilde (p_tau p);
                             let w1packed = pack_w1 p (verifier_w1 p A (pk_t1 pk) c z h);
                             let ctildePrime = shake256Sum (ctBytes p) (cat [mu, w1packed]);
                             Some (if length ctildePrime \<noteq> length ctilde then False
                                   else fold (\<lambda>i diff. diff OR (ctilde ! i XOR ctildePrime ! i)) [0..<length ctilde] 0 = 0)
                           }))"

section \<open>Serialised interface\<close>

text \<open>
  \<^verbatim>\<open>randomBytes\<close> draws 32-bit values from \<^verbatim>\<open>std::random_device\<close>, here the argument \<open>rd\<close>, and hands out
  their bytes, low byte first.
\<close>

definition randomBytes :: "(nat \<Rightarrow> u32) \<Rightarrow> nat \<Rightarrow> bytes" where
  "randomBytes rd len = map (\<lambda>i. ucast (drop_bit (8 * (i mod 4)) (rd (i div 4)))) [0..<len]"

definition GenerateKeyPair :: "(nat \<Rightarrow> u32) \<Rightarrow> nat \<Rightarrow> (bytes \<times> bytes) option" where
  "GenerateKeyPair rd levelEnum =
     (let p = paramFor (levelFromEnum levelEnum)
      in do {
           (pk, sk) \<leftarrow> keyGenInternal p (randomBytes rd 32);
           Some (encodePK p pk, encodeSK p sk)
         })"

definition Sign :: "(nat \<Rightarrow> u32) \<Rightarrow> nat \<Rightarrow> bytes \<Rightarrow> bytes \<Rightarrow> bytes \<Rightarrow> bytes option option" where
  "Sign rd levelEnum sk msg ctx =
     (let p = paramFor (levelFromEnum levelEnum)
      in case decodeSK p sk of
           None \<Rightarrow> Some None
         | Some s \<Rightarrow> signCore p s msg ctx (randomBytes rd 32))"

definition Verify :: "nat \<Rightarrow> bytes \<Rightarrow> bytes \<Rightarrow> bytes \<Rightarrow> bytes \<Rightarrow> bool option" where
  "Verify levelEnum pk msg ctx sig =
     (let p = paramFor (levelFromEnum levelEnum)
      in case decodePK p pk of
           None \<Rightarrow> Some False
         | Some k \<Rightarrow> verifyCore p k msg ctx sig)"

end
