(* ===== verification/MldsaConv.thy ===== *)
theory MldsaConv
  imports MldsaNtt
begin

text \<open>
  The transform as evaluation at the roots of \<open>X ^ 256 + 1\<close>, and the product of polynomials modulo
  \<open>X ^ 256 + 1\<close> as the reference for the product of transforms.
\<close>

section \<open>Evaluation\<close>

definition eval_poly :: "Poly \<Rightarrow> int \<Rightarrow> int" where
  "eval_poly a x = (\<Sum>j<NN. a ! j * x ^ j)"

definition block_root :: "nat \<Rightarrow> int" where
  "block_root n = (if even n then zetas ! (n div 2) else - (zetas ! (n div 2)))"

text \<open>The point at which the transform evaluates for its output \<open>b\<close>.\<close>

definition ntt_root :: "nat \<Rightarrow> int" where
  "ntt_root b = block_root (NN + b)"

text \<open>
  After \<open>t\<close> layers, block \<open>b\<close> of \<open>sz\<close> coefficients agrees with the input at every \<open>x\<close> whose \<open>sz\<close>-th power is
  the root of the block.
\<close>

definition agrees :: "nat \<Rightarrow> nat \<Rightarrow> Poly \<Rightarrow> Poly \<Rightarrow> bool" where
  "agrees m sz A a \<longleftrightarrow>
     (\<forall>b < m. \<forall>x. x ^ sz mod Q = block_root (m + b) mod Q \<longrightarrow>
        (\<Sum>j < sz. A ! (sz * b + j) * x ^ j) mod Q = eval_poly a x mod Q)"

lemma block_root_square:
  assumes "0 < n" and "n < 256"
  shows "(zetas ! n)\<^sup>2 mod Q = block_root n mod Q"
proof (cases "even n")
  case True
  then obtain k where "n = 2 * k" by (elim evenE)
  with assms show ?thesis using zeta_square(1) [of k] by (simp add: block_root_def)
next
  case False
  then obtain k where "n = 2 * k + 1" by (elim oddE)
  with assms show ?thesis using zeta_square(2) [of k] by (simp add: block_root_def)
qed

lemma zeta_0: "zetas ! 0 = 1"
  by (simp add: nth_zetas NN_def bitrev8_eq Q_def)

lemma agrees_start: "length a = NN \<Longrightarrow> agrees 1 NN a a"
  by (simp add: agrees_def eval_poly_def)

lemma sum_mod_cong:
  "(\<And>j. j \<in> S \<Longrightarrow> f j mod Q = g j mod Q) \<Longrightarrow> sum f S mod Q = sum g S mod Q" for f g :: "nat \<Rightarrow> int"
  by (metis (no_types, lifting) mod_sum_eq sum.cong)

lemma sum_halves: "(\<Sum>j<2 * n. f j) = (\<Sum>j<n. f j) + (\<Sum>j<n. f (n + j))" for f :: "nat \<Rightarrow> int"
proof -
  have "(\<Sum>j<2 * n. f j) = (\<Sum>j<n. f j) + (\<Sum>j=n..<n + n. f j)"
    by (simp add: mult_2 lessThan_atLeast0 sum.atLeastLessThan_concat)
  also have "(\<Sum>j=n..<n + n. f j) = (\<Sum>j<n. f (n + j))"
    using sum.shift_bounds_nat_ivl [of f 0 n n] by (simp add: lessThan_atLeast0 add.commute)
  finally show ?thesis .
qed

lemma agrees_layer:
  assumes t: "t \<le> 7" and A: "length A = NN" and ag: "agrees (2 ^ t) (2 * 2 ^ (7 - t)) A a"
  shows "agrees (2 * 2 ^ t) (2 ^ (7 - t)) (flayer t A) a"
  unfolding agrees_def
proof (intro allI impI)
  fix b' :: nat and x :: int
  define sz :: nat where "sz = 2 ^ (7 - t)"
  define m :: nat where "m = 2 ^ t"
  assume b': "b' < 2 * 2 ^ t" and x: "x ^ (2 ^ (7 - t)) mod Q = block_root (2 * 2 ^ t + b') mod Q"
  define b where "b = b' div 2"
  define z where "z = zetas ! (m + b)"
  define y where "y = (if even b' then z else - z)"
  have sz: "0 < sz" and ms: "2 * sz * m = NN" and m: "m \<le> 128"
    using blocks_256 [OF t] power_increasing [OF t, of "2 :: nat"] by (simp_all add: sz_def m_def)
  have b: "b < m" using b' by (simp add: b_def m_def)
  have "2 * m + b' = 2 * (m + b) + b' mod 2" by (simp add: b_def)
  then have root: "block_root (2 * m + b') = y"
    by (cases "even b'") (auto simp: block_root_def y_def z_def even_iff_mod_2_eq_zero odd_iff_mod_2_eq_one)
  have xs: "x ^ sz mod Q = y mod Q" using x root by (simp add: sz_def m_def)
  have "x ^ (2 * sz) mod Q = (x ^ sz mod Q) * (x ^ sz mod Q) mod Q"
    by (simp add: mult_2 power_add mod_mult_eq)
  also have "\<dots> = y * y mod Q" by (simp only: xs mod_mult_eq)
  also have "\<dots> = block_root (m + b) mod Q"
    using block_root_square [of "m + b"] b m by (simp add: y_def z_def power2_eq_square m_def)
  finally have old: "(\<Sum>j<2 * sz. A ! (2 * sz * b + j) * x ^ j) mod Q = eval_poly a x mod Q"
    using ag b by (simp add: agrees_def sz_def m_def)
  have new: "flayer t A ! (sz * b' + j) mod Q = (A ! (2 * sz * b + j) + y * A ! (2 * sz * b + (sz + j))) mod Q"
    if j: "j < sz" for j
  proof (cases "even b'")
    case True
    have top: "2 * sz * b + 2 * sz \<le> NN" using mult_le_mono2 [of "Suc b" m "2 * sz"] b ms by simp
    have "sz * b' = 2 * sz * b" using True by (auto simp: b_def)
    moreover have "(2 * sz * b + j) div (2 * sz) = b \<and> (2 * sz * b + j) mod (2 * sz) < sz"
      using block_index(1) [OF sz, of b "2 * sz * b + j"] j by simp
    ultimately show ?thesis
      using flayer_nth(2) [OF t A, of "2 * sz * b + j"] top j True
      by (simp add: forward.entry_def sz_def [symmetric] m_def [symmetric] z_def y_def ac_simps)
  next
    case False
    have top: "2 * sz * b + 2 * sz \<le> NN" using mult_le_mono2 [of "Suc b" m "2 * sz"] b ms by simp
    have sb: "sz * b' = 2 * sz * b + sz" using False by (auto simp: b_def elim!: oddE)
    moreover have "(2 * sz * b + sz + j) div (2 * sz) = b \<and> \<not> (2 * sz * b + sz + j) mod (2 * sz) < sz"
      using block_index(2) [OF sz, of b "2 * sz * b + sz + j"] j by simp
    ultimately show ?thesis
      using flayer_nth(2) [OF t A, of "2 * sz * b + sz + j"] top j False
      by (simp add: forward.entry_def sz_def [symmetric] m_def [symmetric] z_def y_def ac_simps)
  qed
  have "(\<Sum>j < sz. flayer t A ! (sz * b' + j) * x ^ j) mod Q
      = (\<Sum>j < sz. (A ! (2 * sz * b + j) + x ^ sz * A ! (2 * sz * b + (sz + j))) * x ^ j) mod Q"
  proof (rule sum_mod_cong)
    fix j assume "j \<in> {..< sz}"
    then have "flayer t A ! (sz * b' + j) mod Q = (A ! (2 * sz * b + j) + x ^ sz * A ! (2 * sz * b + (sz + j))) mod Q"
      using new [of j] xs by (metis lessThan_iff mod_add_right_eq mod_mult_left_eq)
    then show "flayer t A ! (sz * b' + j) * x ^ j mod Q
        = (A ! (2 * sz * b + j) + x ^ sz * A ! (2 * sz * b + (sz + j))) * x ^ j mod Q"
      by (metis mod_mult_left_eq)
  qed
  also have "(\<Sum>j < sz. (A ! (2 * sz * b + j) + x ^ sz * A ! (2 * sz * b + (sz + j))) * x ^ j)
      = (\<Sum>j<2 * sz. A ! (2 * sz * b + j) * x ^ j)"
    unfolding sum_halves by (simp add: sum.distrib [symmetric] algebra_simps power_add)
  finally show "(\<Sum>j<2 ^ (7 - t). flayer t A ! (2 ^ (7 - t) * b' + j) * x ^ j) mod Q = eval_poly a x mod Q"
    using old by (simp add: sz_def)
qed

lemma agrees_layers:
  "n \<le> 8 \<Longrightarrow> length a = NN \<Longrightarrow> agrees (2 ^ n) (2 ^ (8 - n)) (fold flayer [0..<n] a) a"
proof (induction n)
  case 0
  then show ?case using agrees_start [of a] by (simp add: NN_def)
next
  case (Suc n)
  have "8 - n = Suc (7 - n)" using Suc.prems by simp
  then have e: "(2 :: nat) ^ (8 - n) = 2 * 2 ^ (7 - n)" "8 - Suc n = 7 - n" by simp_all
  show ?case
    using agrees_layer [of n "fold flayer [0..<n] a" a] Suc length_flayers [of a n] e
    by (simp add: fold_upt_Suc del: upt_Suc)
qed

lemma ntt_root_256:
  assumes "b < NN"
  shows "ntt_root b ^ 256 mod Q = - 1 mod Q"
proof -
  define k where "k = 128 + b div 2"
  have k: "k < NN" "k div 128 mod 2 = 1" using assms by (simp_all add: k_def NN_def)
  have "odd (bitrev8 k)" unfolding bitrev8_eq k(2) by simp
  have "(256 + b) div 2 = 128 + b div 2" by simp
  then have "ntt_root b ^ 256 = (zetas ! k) ^ 256"
    by (simp add: ntt_root_def block_root_def NN_def k_def)
  also have "\<dots> mod Q = ROOT_ZETA ^ (bitrev8 k * 256) mod Q"
    by (simp only: nth_zetas [OF k(1)] power_mod power_mult)
  also have "\<dots> = (ROOT_ZETA ^ 256 mod Q) ^ bitrev8 k mod Q"
    by (simp only: power_mod power_mult [symmetric] mult.commute)
  also have "\<dots> = (- 1) ^ bitrev8 k mod Q"
    by (metis power_mod zeta_256 minus_mod_self1 uminus_add_conv_diff add.commute)
  finally show ?thesis using \<open>odd (bitrev8 k)\<close> by simp
qed

lemma nttForward_eval:
  assumes "length a = NN" and "b < NN"
  shows "nttForward a ! b = eval_poly a (ntt_root b) mod Q"
proof -
  have "(\<Sum>j<1. fold flayer [0..<8] a ! (1 * b + j) * ntt_root b ^ j) mod Q = eval_poly a (ntt_root b) mod Q"
    using agrees_layers [of 8 a] assms by (simp add: agrees_def ntt_root_def NN_def)
  moreover have "nttForward a ! b mod Q = nttForward a ! b"
    using reduced_mod [OF reduced_nttForward [OF assms(1)] assms(2)] .
  ultimately show ?thesis by (simp add: nttForward_layers del: upt_Suc)
qed

section \<open>Products modulo \<open>X ^ 256 + 1\<close>\<close>

definition negacyclic :: "Poly \<Rightarrow> Poly \<Rightarrow> Poly" where
  "negacyclic a b = map (\<lambda>i. \<Sum>j<NN. if j \<le> i then a ! j * b ! (i - j) else - (a ! j * b ! (NN + i - j))) [0..<NN]"

lemma sum_upto_split: "j \<le> n \<Longrightarrow> (\<Sum>i<n. f i) = (\<Sum>i<j. f i) + (\<Sum>i<n - j. f (j + i))"
  for f :: "nat \<Rightarrow> int"
proof -
  assume j: "j \<le> n"
  have "(\<Sum>i<n. f i) = (\<Sum>i<j. f i) + (\<Sum>i=j..<n. f i)"
    using j by (simp add: lessThan_atLeast0 sum.atLeastLessThan_concat)
  also have "(\<Sum>i=j..<n. f i) = (\<Sum>i<n - j. f (j + i))"
    using sum.shift_bounds_nat_ivl [of f 0 j "n - j"] j by (simp add: lessThan_atLeast0 add.commute)
  finally show ?thesis .
qed

lemma shifted_eval:
  assumes r: "r ^ NN mod Q = - 1 mod Q" and j: "j < NN"
  shows "(\<Sum>i<NN. (if j \<le> i then b ! (i - j) else - (b ! (NN + i - j))) * r ^ i) mod Q
    = r ^ j * eval_poly b r mod Q"
proof -
  let ?f = "\<lambda>i. (if j \<le> i then b ! (i - j) else - (b ! (NN + i - j))) * r ^ i"
  have neg: "- c * r ^ i mod Q = c * r ^ (NN + i) mod Q" for c i
  proof -
    have "c * r ^ (NN + i) mod Q = (r ^ NN mod Q) * (c * r ^ i) mod Q"
      unfolding mod_mult_left_eq by (simp add: power_add mult.left_commute)
    also have "\<dots> = - 1 * (c * r ^ i) mod Q" by (simp only: r mod_mult_left_eq)
    finally show ?thesis by simp
  qed
  have low: "(\<Sum>i<j. ?f i) mod Q = (\<Sum>i<j. r ^ j * (b ! (NN - j + i) * r ^ (NN - j + i))) mod Q"
  proof (rule sum_mod_cong)
    fix i assume "i \<in> {..<j}"
    then have i: "i < j" by simp
    with j have "NN + i - j = NN - j + i" "j + (NN - j + i) = NN + i" by auto
    then have e: "r ^ j * (b ! (NN - j + i) * r ^ (NN - j + i)) = b ! (NN - j + i) * r ^ (NN + i)"
      by (metis mult.left_commute power_add)
    have "?f i mod Q = - (b ! (NN - j + i)) * r ^ i mod Q"
      using i \<open>NN + i - j = NN - j + i\<close> by simp
    also have "\<dots> = r ^ j * (b ! (NN - j + i) * r ^ (NN - j + i)) mod Q"
      unfolding e by (rule neg)
    finally show "?f i mod Q = r ^ j * (b ! (NN - j + i) * r ^ (NN - j + i)) mod Q" .
  qed
  have high: "(\<Sum>i<NN - j. ?f (j + i)) = (\<Sum>i<NN - j. r ^ j * (b ! i * r ^ i))"
    by (simp add: power_add algebra_simps)
  have "(\<Sum>i<NN. ?f i) mod Q = ((\<Sum>i<j. ?f i) + (\<Sum>i<NN - j. ?f (j + i))) mod Q"
    using sum_upto_split [of j NN ?f] j by simp
  also have "\<dots> = ((\<Sum>i<j. r ^ j * (b ! (NN - j + i) * r ^ (NN - j + i)))
      + (\<Sum>i<NN - j. r ^ j * (b ! i * r ^ i))) mod Q"
    unfolding high using low by (metis (no_types, lifting) mod_add_left_eq)
  also have "(\<Sum>i<j. r ^ j * (b ! (NN - j + i) * r ^ (NN - j + i))) + (\<Sum>i<NN - j. r ^ j * (b ! i * r ^ i))
      = r ^ j * eval_poly b r"
  proof -
    have "eval_poly b r = (\<Sum>i<NN - j. b ! i * r ^ i) + (\<Sum>i<j. b ! (NN - j + i) * r ^ (NN - j + i))"
      unfolding eval_poly_def
      using sum_upto_split [of "NN - j" NN "\<lambda>i. b ! i * r ^ i"] j by simp
    then show ?thesis by (simp only: distrib_left sum_distrib_left add.commute)
  qed
  finally show ?thesis .
qed

lemma eval_negacyclic:
  assumes r: "r ^ NN mod Q = - 1 mod Q"
  shows "eval_poly (negacyclic a b) r mod Q = eval_poly a r * eval_poly b r mod Q"
proof -
  let ?g = "\<lambda>i j. if j \<le> i then b ! (i - j) else - (b ! (NN + i - j))"
  have "eval_poly (negacyclic a b) r = (\<Sum>i<NN. \<Sum>j<NN. a ! j * (?g i j * r ^ i))"
    unfolding eval_poly_def
  proof (rule sum.cong [OF refl])
    fix i assume "i \<in> {..<NN}"
    then have "negacyclic a b ! i = (\<Sum>j<NN. a ! j * ?g i j)"
      by (auto simp: negacyclic_def intro: sum.cong)
    then show "negacyclic a b ! i * r ^ i = (\<Sum>j<NN. a ! j * (?g i j * r ^ i))"
      by (simp only: sum_distrib_right mult.assoc)
  qed
  also have "\<dots> = (\<Sum>j<NN. a ! j * (\<Sum>i<NN. ?g i j * r ^ i))"
    by (subst sum.swap) (simp add: sum_distrib_left)
  also have "\<dots> mod Q = (\<Sum>j<NN. a ! j * (r ^ j * eval_poly b r)) mod Q"
  proof (rule sum_mod_cong)
    fix j assume "j \<in> {..<NN}"
    then show "a ! j * (\<Sum>i<NN. ?g i j * r ^ i) mod Q = a ! j * (r ^ j * eval_poly b r) mod Q"
      using shifted_eval [OF r, of j b] by (metis (no_types, lifting) lessThan_iff mod_mult_right_eq)
  qed
  also have "(\<Sum>j<NN. a ! j * (r ^ j * eval_poly b r)) = eval_poly a r * eval_poly b r"
    by (simp add: eval_poly_def [of a] sum_distrib_right mult.assoc)
  finally show ?thesis .
qed

lemma pointwise_transforms:
  assumes "length a = NN" and "length b = NN"
  shows "pointwise (nttForward a) (nttForward b) = nttForward (negacyclic a b)"
proof (rule nth_equalityI)
  have n: "length (negacyclic a b) = NN" by (simp add: negacyclic_def)
  then show "length (pointwise (nttForward a) (nttForward b)) = length (nttForward (negacyclic a b))"
    by (simp add: pointwise_def)
  fix i assume "i < length (pointwise (nttForward a) (nttForward b))"
  then have i: "i < NN" by (simp add: pointwise_def)
  have ab: "nttForward a ! i = eval_poly a (ntt_root i) mod Q" "nttForward b ! i = eval_poly b (ntt_root i) mod Q"
    "nttForward (negacyclic a b) ! i = eval_poly (negacyclic a b) (ntt_root i) mod Q"
    using nttForward_eval assms n i by blast+
  have "ntt_root i ^ NN mod Q = - 1 mod Q" using ntt_root_256 [OF i] by (simp add: NN_def)
  from eval_negacyclic [OF this, of a b] i
  show "pointwise (nttForward a) (nttForward b) ! i = nttForward (negacyclic a b) ! i"
    unfolding pointwise_def ab(3) by (simp add: ab(1,2) crem_nonneg mod_mult_eq)
qed

section \<open>Properties\<close>

text \<open>
  The forward transform evaluates: its output number \<open>b\<close> is the value of the input polynomial,
  modulo \<open>Q\<close>, at \<open>ntt_root b\<close>, and each of these 256 points is a root of \<open>X ^ 256 + 1\<close> modulo \<open>Q\<close>.
\<close>

theorem ntt_evaluates:
  assumes "length a = NN" and "b < NN"
  shows "nttForward a ! b = (\<Sum>j<NN. a ! j * ntt_root b ^ j) mod Q \<and> (ntt_root b ^ NN + 1) mod Q = 0"
proof -
  have "(ntt_root b ^ NN + 1) mod Q = (- 1 + 1) mod Q"
    using ntt_root_256 [OF assms(2)] unfolding NN_def by (metis mod_add_left_eq)
  with nttForward_eval [OF assms] show ?thesis by (simp add: eval_poly_def)
qed

theorem ntt_evaluates_witness:
  "nttForward (1 # replicate 255 0) ! 7 = 1 \<and> (ntt_root 7 ^ 256 + 1) mod Q = 0"
proof -
  have "(\<Sum>j<NN. (1 # replicate 255 0) ! j * ntt_root 7 ^ j) = 1"
    using sum.lessThan_Suc_shift [of "\<lambda>j. (1 # replicate 255 0) ! j * ntt_root 7 ^ j" 255]
    by (simp add: NN_def)
  with ntt_evaluates [of "1 # replicate 255 0" 7] show ?thesis by (simp add: NN_def Q_def)
qed

text \<open>
  C12. Multiplication through the transform is multiplication modulo \<open>X ^ 256 + 1\<close>: for any two inputs,
  transforming both, multiplying pointwise and transforming back yields the residues modulo \<open>Q\<close> of
  the negacyclic product of the inputs.
\<close>

theorem ntt_multiplies:
  assumes "length a = NN" and "length b = NN"
  shows "nttInverse (pointwise (nttForward a) (nttForward b)) = map (\<lambda>c. c mod Q) (negacyclic a b)"
proof -
  have n: "length (negacyclic a b) = NN" by (simp add: negacyclic_def)
  then show ?thesis by (simp add: pointwise_transforms [OF assms] inverse_forward_mod)
qed

theorem ntt_multiplies_witness:
  "nttInverse (pointwise (nttForward (replicate 256 2)) (nttForward (replicate 256 3)))
     = map (\<lambda>c. c mod Q) (negacyclic (replicate 256 2) (replicate 256 3))"
  by (rule ntt_multiplies) (simp_all add: NN_def)

end
