(* ===== verification/MldsaHints.thy ===== *)
theory MldsaHints
  imports MldsaPack
begin

text \<open>
  The hint encoding of \<open>MldsaPack\<close>: a vector of 0-1 polynomials with at most \<open>omega\<close> ones is packed as
  the positions of the ones followed by running counts, and unpacking returns it.
\<close>

definition positions :: "Poly \<Rightarrow> nat list" where
  "positions row = filter (\<lambda>j. row ! j \<noteq> 0) [0..<NN]"

definition all_positions :: "PolyVec \<Rightarrow> nat list" where
  "all_positions h = concat (map positions h)"

definition hint_ok :: "nat \<Rightarrow> nat \<Rightarrow> PolyVec \<Rightarrow> bool" where
  "hint_ok omega k h \<longleftrightarrow> length h = k \<and> list_all (\<lambda>row. length row = NN \<and> set row \<subseteq> {0, 1}) h \<and>
     length (all_positions h) \<le> omega \<and> omega < 256"

section \<open>Packing\<close>

lemma hint_row_prefix:
  assumes "idx + length (filter (\<lambda>j. row ! j \<noteq> 0) [0..<n]) \<le> omega" and "omega \<le> length out"
  shows "fold (\<lambda>j s. case s of None \<Rightarrow> None
      | Some (idx, out) \<Rightarrow>
          if row ! j \<noteq> 0 then (if idx \<ge> omega then None else Some (idx + 1, out[idx := word_of_nat j]))
          else Some (idx, out)) [0..<n] (Some (idx, out))
    = Some (idx + length (filter (\<lambda>j. row ! j \<noteq> 0) [0..<n]),
        take idx out @ map word_of_nat (filter (\<lambda>j. row ! j \<noteq> 0) [0..<n]) @
        drop (idx + length (filter (\<lambda>j. row ! j \<noteq> 0) [0..<n])) out)"
  using assms(1)
proof (induction n)
  case (Suc n)
  let ?ps = "filter (\<lambda>j. row ! j \<noteq> 0) [0..<n]"
  show ?case
  proof (cases "row ! n \<noteq> 0")
    case False
    with Suc show ?thesis by simp
  next
    case True
    then have lt: "idx + length ?ps < omega" using Suc.prems by simp
    have "(take idx out @ map word_of_nat ?ps @ drop (idx + length ?ps) out)[idx + length ?ps := word_of_nat n]
        = take idx out @ map word_of_nat (?ps @ [n]) @ drop (idx + length ?ps + 1) out"
      using lt assms(2) by (simp add: list_update_append min_def Cons_nth_drop_Suc [symmetric])
    with True lt Suc show ?thesis by simp
  qed
qed simp

lemma hint_row_eq:
  assumes "idx + length (positions row) \<le> omega" and "omega \<le> length out"
  shows "hint_row omega row (idx, out) = Some (idx + length (positions row),
      take idx out @ map word_of_nat (positions row) @ drop (idx + length (positions row)) out)"
  using hint_row_prefix [of idx row NN omega out] assms by (simp add: hint_row_def positions_def)

definition packed_hint :: "PolyVec \<Rightarrow> nat \<Rightarrow> nat \<Rightarrow> nat \<Rightarrow> bytes" where
  "packed_hint h omega k i =
     map word_of_nat (all_positions (take i h)) @ replicate (omega - length (all_positions (take i h))) 0 @
     map (\<lambda>m. word_of_nat (length (all_positions (take (m + 1) h)))) [0..<i] @ replicate (k - i) 0"

lemma all_positions_take_Suc:
  "i < length h \<Longrightarrow> all_positions (take (Suc i) h) = all_positions (take i h) @ positions (h ! i)"
  by (simp add: all_positions_def take_Suc_conv_app_nth)

lemma length_all_positions_take: "length (all_positions (take i h)) \<le> length (all_positions h)"
proof -
  have "all_positions h = all_positions (take i h) @ all_positions (drop i h)"
    by (metis all_positions_def append_take_drop_id concat_append map_append)
  then show ?thesis by (metis length_append le_add1)
qed

lemma hintPack_prefix:
  assumes "hint_ok omega k h" and "i \<le> k"
  shows "fold (\<lambda>i s. case s of None \<Rightarrow> None
      | Some s \<Rightarrow> (case hint_row omega (h ! i) s of None \<Rightarrow> None
          | Some (idx, out) \<Rightarrow> Some (idx, out[omega + i := word_of_nat idx])))
      [0..<i] (Some (0, replicate (omega + k) 0))
    = Some (length (all_positions (take i h)), packed_hint h omega k i)"
  using assms(2)
proof (induction i)
  case 0
  then show ?case by (simp add: packed_hint_def all_positions_def replicate_add)
next
  case (Suc i)
  let ?P = "all_positions (take i h)" and ?p = "positions (h ! i)"
  have i: "i < length h" using Suc.prems assms(1) by (simp add: hint_ok_def)
  have le: "length ?P + length ?p \<le> omega"
    using length_all_positions_take [of "Suc i" h] assms(1) i
    by (simp add: all_positions_take_Suc hint_ok_def)
  have out: "omega \<le> length (packed_hint h omega k i)" using le by (simp add: packed_hint_def)
  note row = hint_row_eq [OF le out]
  define A :: bytes where "A = map word_of_nat (?P @ ?p) @ replicate (omega - length ?P - length ?p) 0"
  define B :: bytes where "B = map (\<lambda>m. word_of_nat (length (all_positions (take (m + 1) h)))) [0..<i]"
  have "take (length ?P) (packed_hint h omega k i) = map word_of_nat ?P" by (simp add: packed_hint_def)
  moreover have "drop (length ?P + length ?p) (packed_hint h omega k i)
      = replicate (omega - length ?P - length ?p) 0 @
        map (\<lambda>m. word_of_nat (length (all_positions (take (m + 1) h)))) [0..<i] @ replicate (k - i) 0"
    using le by (simp add: packed_hint_def)
  moreover have "k - i = Suc (k - Suc i)" using Suc.prems by simp
  ultimately have hr: "hint_row omega (h ! i) (length ?P, packed_hint h omega k i)
      = Some (length ?P + length ?p, (A @ B) @ 0 # replicate (k - Suc i) 0)"
    using row by (simp add: A_def B_def)
  have "length (A @ B) = omega + i" using le by (simp add: A_def B_def)
  then have "((A @ B) @ 0 # replicate (k - Suc i) 0)[omega + i := word_of_nat (length ?P + length ?p)]
      = (A @ B) @ word_of_nat (length ?P + length ?p) # replicate (k - Suc i) 0"
    using list_update_length [of "A @ B" 0 "replicate (k - Suc i) 0"] by simp
  also have "\<dots> = packed_hint h omega k (Suc i)"
    using i by (simp add: packed_hint_def all_positions_take_Suc A_def B_def)
  finally show ?case
    using Suc hr i by (simp add: all_positions_take_Suc)
qed

lemma hintPack_eq:
  assumes "hint_ok omega k h"
  shows "hintPack h omega k = map word_of_nat (all_positions h) @ replicate (omega - length (all_positions h)) 0 @
     map (\<lambda>m. word_of_nat (length (all_positions (take (m + 1) h)))) [0..<k]"
  using hintPack_prefix [OF assms order_refl] assms by (simp add: hintPack_def packed_hint_def hint_ok_def)

section \<open>Unpacking\<close>

lemma unpack_row_eq:
  assumes "\<And>m. m < length ps \<Longrightarrow> buf ! (first + m) = word_of_nat (ps ! m)"
    and "sorted_wrt (<) ps" and "\<forall>j \<in> set ps. j < 256" and "m \<le> length ps"
  shows "unpack_row buf first (first + m) (first + length ps) row = Some (fold (\<lambda>j r. r[j := 1]) (drop m ps) row)"
  using assms(4)
proof (induction "length ps - m" arbitrary: m row)
  case 0
  then show ?case by (subst unpack_row.simps) simp
next
  case (Suc n)
  then have m: "m < length ps" by simp
  have v: "unat (word_of_nat (ps ! i) :: byte) = ps ! i" if "i < length ps" for i
  proof -
    have "ps ! i < 2 ^ 8" using that assms(3) nth_mem [OF that] by auto
    then show ?thesis by (simp add: unsigned_of_nat take_bit_nat_eq_self)
  qed
  have "\<not> (first + m > first \<and> buf ! (first + m) \<le> buf ! (first + m - 1))"
  proof (cases m)
    case (Suc l)
    have "ps ! l < ps ! m" using sorted_wrt_nth_less [OF assms(2), of l m] m Suc by simp
    then show ?thesis using assms(1) [of m] assms(1) [of l] v [of m] v [of l] m Suc
      by (simp add: word_le_nat_alt)
  qed simp
  moreover have "drop m ps = ps ! m # drop (Suc m) ps" using m by (simp add: Cons_nth_drop_Suc)
  ultimately show ?case
    using Suc.hyps(1) [of "Suc m" "row[ps ! m := 1]"] Suc.hyps(2) m v [OF m] assms(1) [OF m]
    by (subst unpack_row.simps) simp
qed

lemma fold_ones:
  "length row = n \<Longrightarrow> length (fold (\<lambda>j r. r[j := 1]) ps row) = n \<and>
   (\<forall>i < n. fold (\<lambda>j r. r[j := 1]) ps row ! i = (if i \<in> set ps then 1 else row ! i))" for row :: Poly
  by (induction ps arbitrary: row) (auto simp: nth_list_update)

lemma row_of_positions:
  assumes "length row = NN" and "set row \<subseteq> {0, 1}"
  shows "fold (\<lambda>j r. r[j := 1]) (positions row) zero_poly = row"
proof (rule nth_equalityI)
  have z: "length zero_poly = NN" by (simp add: zero_poly_def)
  note f = fold_ones [OF z, of "positions row"]
  then show "length (fold (\<lambda>j r. r[j := 1]) (positions row) zero_poly) = length row" using assms by simp
  fix i assume "i < length (fold (\<lambda>j r. r[j := 1]) (positions row) zero_poly)"
  then have i: "i < NN" using f by simp
  have "row ! i \<in> set row" using i assms(1) by simp
  then have "row ! i \<in> {0, 1}" using assms(2) by blast
  with f i show "fold (\<lambda>j r. r[j := 1]) (positions row) zero_poly ! i = row ! i"
    by (auto simp: positions_def zero_poly_def)
qed

lemma positions_sorted: "sorted_wrt (<) (positions row)" "\<forall>j \<in> set (positions row). j < 256"
proof -
  have "sorted_wrt (<) [0..<NN]" by simp
  then show "sorted_wrt (<) (positions row)" unfolding positions_def by (rule sorted_wrt_filter)
qed (simp add: positions_def NN_def)

lemma hintUnpack_prefix:
  fixes rest :: bytes
  assumes ok: "hint_ok omega k h" and "i \<le> k"
  defines "buf \<equiv> hintPack h omega k @ rest"
  shows "fold (\<lambda>i s. case s of None \<Rightarrow> None
      | Some (idx, h) \<Rightarrow>
          (let end = unat (buf ! (omega + i))
           in if end < idx \<or> end > omega then None
              else (case unpack_row buf idx idx end (h ! i) of None \<Rightarrow> None
                    | Some row \<Rightarrow> Some (end, h[i := row]))))
      [0..<i] (Some (0, replicate k zero_poly))
    = Some (length (all_positions (take i h)), take i h @ replicate (k - i) zero_poly)"
  using assms(2)
proof (induction i)
  case 0
  then show ?case by (simp add: all_positions_def)
next
  case (Suc i)
  let ?P = "all_positions (take i h)" and ?p = "positions (h ! i)"
  have i: "i < length h" "length h = k" "omega < 256" using Suc.prems ok by (auto simp: hint_ok_def)
  have row: "length (h ! i) = NN" "set (h ! i) \<subseteq> {0, 1}"
    using ok i nth_mem [OF i(1)] by (auto simp: hint_ok_def list_all_iff)
  have all: "all_positions h = ?P @ ?p @ all_positions (drop (Suc i) h)"
    using i by (simp add: all_positions_def id_take_nth_drop [of i h, THEN arg_cong [where f = "\<lambda>h. concat (map positions h)"], simplified])
  have le: "length ?P + length ?p \<le> omega" using ok all by (simp add: hint_ok_def)
  have buf: "buf = map word_of_nat (all_positions h) @ replicate (omega - length (all_positions h)) 0 @
      map (\<lambda>m. word_of_nat (length (all_positions (take (m + 1) h)))) [0..<k] @ rest"
    by (simp add: buf_def hintPack_eq [OF ok])
  define A :: bytes where "A = map word_of_nat (all_positions h) @ replicate (omega - length (all_positions h)) 0"
  have "length A = omega" using ok by (simp add: A_def hint_ok_def)
  then have "buf ! (omega + i) = (map (\<lambda>m. word_of_nat (length (all_positions (take (m + 1) h)))) [0..<k] @ rest) ! i"
    using nth_append_length_plus [of A _ i] by (simp add: buf A_def)
  also have "\<dots> = word_of_nat (length ?P + length ?p)"
    using i by (simp add: nth_append all_positions_take_Suc)
  finally have "buf ! (omega + i) = word_of_nat (length ?P + length ?p)" .
  moreover have "unat (word_of_nat (length ?P + length ?p) :: byte) = length ?P + length ?p"
  proof -
    have "unat (word_of_nat n :: byte) = n" if "n < 256" for n
      using that by (simp add: unsigned_of_nat take_bit_nat_eq_self)
    then show ?thesis using le i(3) by (meson le_less_trans)
  qed
  ultimately have e: "unat (buf ! (omega + i)) = length ?P + length ?p" by simp
  have "buf ! (length ?P + m) = word_of_nat (?p ! m)" if "m < length ?p" for m
    using that unfolding buf all by (simp add: nth_append)
  then have "unpack_row buf (length ?P) (length ?P) (length ?P + length ?p) zero_poly = Some (h ! i)"
    using unpack_row_eq [of ?p buf "length ?P" 0 zero_poly] positions_sorted [of "h ! i"] row_of_positions [OF row]
    by simp
  moreover have "(take i h @ replicate (k - i) zero_poly) ! i = zero_poly" using i by (simp add: nth_append)
  moreover have "(take i h @ replicate (k - i) zero_poly)[i := h ! i] = take (Suc i) h @ replicate (k - Suc i) zero_poly"
  proof -
    have "k - i = Suc (k - Suc i)" using Suc.prems by simp
    then show ?thesis using i by (simp add: list_update_append take_Suc_conv_app_nth)
  qed
  ultimately show ?case
    using Suc e le i by (simp add: Let_def all_positions_take_Suc)
qed

lemma hint_unpack_pack:
  assumes "hint_ok omega k h"
  shows "hintUnpack (hintPack h omega k @ rest) omega k = Some h" and "length (hintPack h omega k) = omega + k"
proof -
  have ok: "length h = k" "length (all_positions h) \<le> omega" using assms by (auto simp: hint_ok_def)
  have "list_all (\<lambda>i. (hintPack h omega k @ rest) ! i = 0) [length (all_positions h)..<omega]"
    unfolding hintPack_eq [OF assms] list_all_iff by (auto simp: nth_append)
  then show "hintUnpack (hintPack h omega k @ rest) omega k = Some h"
    using hintUnpack_prefix [OF assms order_refl, of rest] ok by (simp add: hintUnpack_def)
  show "length (hintPack h omega k) = omega + k" using ok by (simp add: hintPack_eq [OF assms])
qed

text \<open>
  Hints survive serialisation: unpacking a packed vector of 0-1 polynomials with at most \<open>omega\<close>
  ones, followed by anything, returns the vector, and the packed form has \<open>omega + k\<close> bytes.
\<close>

theorem hint_roundtrip:
  assumes "hint_ok omega k h"
  shows "hintUnpack (hintPack h omega k @ rest) omega k = Some h \<and> length (hintPack h omega k) = omega + k"
  using hint_unpack_pack [OF assms] by blast

theorem hint_roundtrip_witness:
  "hintUnpack (hintPack [zero_poly[7 := 1], zero_poly] 3 2 @ []) 3 2 = Some [zero_poly[7 := 1], zero_poly] \<and>
   length (hintPack [zero_poly[7 := 1], zero_poly] 3 2) = 5"
proof -
  have "positions (zero_poly[7 := 1]) = [7]" "positions zero_poly = []" by code_simp+
  then have "hint_ok 3 2 [zero_poly[7 := 1], zero_poly]"
    by (auto simp: hint_ok_def all_positions_def zero_poly_def dest: set_update_subset_insert [THEN subsetD])
  from hint_roundtrip [OF this, of "[]"] show ?thesis by simp
qed

end
