(* ===== verification/MldsaCorrect.thy ===== *)
theory MldsaCorrect
  imports MldsaScheme MldsaConv MldsaHints
begin

text \<open>
  Why verification accepts: the algebra of \<open>MldsaScheme\<close>. The transform is a bijection on reduced
  polynomials and linear, so what the verifier recomputes from a response is the commitment shifted
  by two short terms, which the hint and the rejection tests of the signer make invisible in the
  high bits.
\<close>

section \<open>Equality modulo \<open>Q\<close>\<close>

definition eqQ :: "int \<Rightarrow> int \<Rightarrow> bool" where
  "eqQ x y \<longleftrightarrow> x mod Q = y mod Q"

lemma eqQ_refl [simp]: "eqQ x x"
  by (simp add: eqQ_def)

lemma eqQ_sym: "eqQ x y \<Longrightarrow> eqQ y x"
  by (simp add: eqQ_def)

lemma eqQ_trans [trans]: "eqQ x y \<Longrightarrow> eqQ y z \<Longrightarrow> eqQ x z"
  by (simp add: eqQ_def)

lemma eqQ_mod [simp]: "eqQ (x mod Q) y \<longleftrightarrow> eqQ x y" "eqQ x (y mod Q) \<longleftrightarrow> eqQ x y"
  by (simp_all add: eqQ_def)

lemma eqQ_crem [simp]: "eqQ (crem x Q) y \<longleftrightarrow> eqQ x y"
  by (simp add: eqQ_def)

lemma eqQ_add: "eqQ a b \<Longrightarrow> eqQ c d \<Longrightarrow> eqQ (a + c) (b + d)"
  unfolding eqQ_def by (rule mod_add_cong)

lemma eqQ_diff: "eqQ a b \<Longrightarrow> eqQ c d \<Longrightarrow> eqQ (a - c) (b - d)"
  unfolding eqQ_def by (rule mod_diff_cong)

lemma eqQ_mult: "eqQ a b \<Longrightarrow> eqQ c d \<Longrightarrow> eqQ (a * c) (b * d)"
  unfolding eqQ_def by (rule mod_mult_cong)

lemma eqQ_sum: "(\<And>j. j \<in> S \<Longrightarrow> eqQ (f j) (g j)) \<Longrightarrow> eqQ (sum f S) (sum g S)" for S :: "nat set"
  unfolding eqQ_def by (rule sum_mod_cong)

lemmas eqQ_intros = eqQ_add eqQ_diff eqQ_mult eqQ_sum

lemma eqQ_centered: "eqQ (centered (x mod Q)) x"
  by (simp add: eqQ_def centered_def)

section \<open>The transform is a linear bijection\<close>

lemma reduced_length: "reduced a \<Longrightarrow> length a = NN"
  by (simp add: reduced_def is_poly_def)

lemma map_mod_reduced: "reduced a \<Longrightarrow> map (\<lambda>c. c mod Q) a = a"
  by (simp add: reduced_def map_idI)

lemma finite_reduced: "finite {a. reduced a}"
proof -
  have "{a. reduced a} \<subseteq> {a. set a \<subseteq> {0..<Q} \<and> length a = NN}"
    by (auto simp: reduced_def is_poly_def)
  then show ?thesis using finite_lists_length_eq [of "{0..<Q}" NN] finite_subset by blast
qed

lemma forward_inverse:
  assumes "reduced v"
  shows "nttForward (nttInverse v) = v"
proof -
  let ?S = "{a. reduced a}"
  have undo: "nttInverse (nttForward a) = a" if "reduced a" for a
    using inverse_forward_mod [OF reduced_length [OF that]] map_mod_reduced [OF that] by simp
  then have "inj_on nttForward ?S" by (metis inj_onI mem_Collect_eq)
  moreover have "nttForward ` ?S \<subseteq> ?S" using reduced_nttForward reduced_length by auto
  ultimately have "nttForward ` ?S = ?S" using endo_inj_surj [OF finite_reduced] by blast
  then obtain u where "reduced u" "v = nttForward u" using assms by (metis imageE mem_Collect_eq)
  with undo show ?thesis by simp
qed

text \<open>\<open>at b a\<close> is the value of \<open>a\<close> at the root the transform uses for its output \<open>b\<close>.\<close>

definition at :: "nat \<Rightarrow> Poly \<Rightarrow> int" where
  "at b a = eval_poly a (ntt_root b)"

lemma nttForward_at: "length a = NN \<Longrightarrow> b < NN \<Longrightarrow> nttForward a ! b = at b a mod Q"
  by (simp add: at_def nttForward_eval)

lemma at_inverse:
  assumes "reduced v" and "b < NN"
  shows "eqQ (at b (nttInverse v)) (v ! b)"
  using forward_inverse [OF assms(1)] nttForward_at [of "nttInverse v" b] assms(2)
    reduced_length [OF reduced_nttInverse [OF reduced_length [OF assms(1)]]]
  by (metis eqQ_def mod_mod_trivial)

lemma at_cong: "(\<And>j. j < NN \<Longrightarrow> eqQ (a ! j) (a' ! j)) \<Longrightarrow> eqQ (at b a) (at b a')"
  unfolding at_def eval_poly_def by (intro eqQ_sum eqQ_mult) simp_all

lemma at_add: "(\<And>j. j < NN \<Longrightarrow> eqQ (a ! j) (x ! j + y ! j)) \<Longrightarrow> eqQ (at b a) (at b x + at b y)"
proof -
  assume "\<And>j. j < NN \<Longrightarrow> eqQ (a ! j) (x ! j + y ! j)"
  then have "eqQ (at b a) (\<Sum>j<NN. (x ! j + y ! j) * ntt_root b ^ j)"
    unfolding at_def eval_poly_def by (intro eqQ_sum eqQ_mult) simp_all
  then show ?thesis by (simp add: at_def eval_poly_def distrib_right sum.distrib)
qed

lemma at_diff: "(\<And>j. j < NN \<Longrightarrow> eqQ (a ! j) (x ! j - y ! j)) \<Longrightarrow> eqQ (at b a) (at b x - at b y)"
proof -
  assume "\<And>j. j < NN \<Longrightarrow> eqQ (a ! j) (x ! j - y ! j)"
  then have "eqQ (at b a) (\<Sum>j<NN. (x ! j - y ! j) * ntt_root b ^ j)"
    unfolding at_def eval_poly_def by (intro eqQ_sum eqQ_mult) simp_all
  then show ?thesis by (simp add: at_def eval_poly_def left_diff_distrib sum_subtractf)
qed

text \<open>A polynomial is determined modulo \<open>Q\<close> by its values at the roots.\<close>

lemma inverse_of_values:
  assumes "length v = NN" and "length u = NN" and "\<And>b. b < NN \<Longrightarrow> v ! b = at b u mod Q"
  shows "nttInverse v = map (\<lambda>c. c mod Q) u"
proof -
  have "v = nttForward u" using assms by (intro nth_equalityI) (simp_all add: nttForward_at)
  then show ?thesis using inverse_forward_mod [OF assms(2)] by simp
qed

section \<open>Rows of the matrix product\<close>

lemma reduced_zero_poly: "reduced zero_poly"
  by (simp add: reduced_def is_poly_def zero_poly_def)

lemma row_product_nth:
  assumes "b < NN"
  shows "row_product l A i v ! b = (\<Sum>j<l. A ! (i * l + j) ! b * v ! j ! b) mod Q"
proof -
  define f where "f = (\<lambda>j acc. polyAddInto acc (pointwise (A ! (i * l + j)) (v ! j)))"
  have "fold f [0..<n] zero_poly ! b = (\<Sum>j<n. A ! (i * l + j) ! b * v ! j ! b) mod Q" for n
  proof (induction n)
    case 0
    then show ?case using assms by (simp add: zero_poly_def)
  next
    case (Suc n)
    have "fold f [0..<Suc n] zero_poly ! b
        = (fold f [0..<n] zero_poly ! b + crem (A ! (i * l + n) ! b * v ! n ! b) Q) mod Q"
      using assms by (simp add: f_def polyAddInto_def pointwise_def)
    also have "\<dots> = ((\<Sum>j<n. A ! (i * l + j) ! b * v ! j ! b) + A ! (i * l + n) ! b * v ! n ! b) mod Q"
      unfolding Suc.IH eqQ_def [symmetric] by (intro eqQ_add) simp_all
    finally show ?case by simp
  qed
  then show ?thesis by (simp add: row_product_def f_def)
qed

lemma reduced_row_product: "reduced (row_product l A i v)"
proof -
  have "reduced (fold (\<lambda>j acc. polyAddInto acc (pointwise (A ! (i * l + j)) (v ! j))) js acc)"
    if "reduced acc" for js acc
    using that by (induction js arbitrary: acc) (simp_all add: reduced_polyAddInto)
  then show ?thesis by (simp add: row_product_def reduced_zero_poly)
qed

section \<open>Bounds\<close>

lemma max_abs_bound:
  assumes "x \<in> set xs"
  shows "\<bar>x\<bar> \<le> max_abs xs"
proof -
  define f where "f = (\<lambda>(x::int) mx. let a = (if x < 0 then - x else x) in if a > mx then a else mx)"
  have f: "f x mx = max \<bar>x\<bar> mx" for x mx by (simp add: f_def Let_def max_def)
  have "mx \<le> fold f ys mx \<and> (\<forall>y \<in> set ys. \<bar>y\<bar> \<le> fold f ys mx)" for ys mx
  proof (induction ys arbitrary: mx)
    case (Cons y ys)
    from Cons.IH [of "f y mx"] show ?case by (auto simp: f)
  qed simp
  with assms show ?thesis by (simp add: max_abs_def f_def)
qed

lemma max_abs_entry:
  assumes "i < n" and "length v = n" and "cc < NN" and "length (v ! i) = NN"
  shows "\<bar>f (v ! i ! cc)\<bar> \<le> max_abs (concat (map (map f) v))"
proof (rule max_abs_bound)
  have "f (v ! i ! cc) \<in> set (map f (v ! i))" using assms(3,4) by simp
  moreover have "map f (v ! i) \<in> set (map (map f) v)" using assms(1,2) by simp
  ultimately show "f (v ! i ! cc) \<in> set (concat (map (map f) v))" unfolding set_concat by blast
qed

lemma sum_abs_weight:
  assumes "length c = NN" and "set c \<subseteq> {- 1, 0, 1}"
  shows "(\<Sum>j<NN. \<bar>c ! j\<bar>) = int (weight c)"
proof -
  have "\<bar>c ! j\<bar> = (if c ! j \<noteq> 0 then 1 else 0)" if "j < NN" for j
  proof -
    have "c ! j \<in> {- 1, 0, 1}" using that assms by (metis nth_mem subsetD)
    then show ?thesis by auto
  qed
  then have "(\<Sum>j<NN. \<bar>c ! j\<bar>) = (\<Sum>j<NN. if c ! j \<noteq> 0 then 1 else 0)" by simp
  also have "\<dots> = int (card ({..<NN} \<inter> {j. c ! j \<noteq> 0}))" by (simp add: sum.If_cases)
  also have "{..<NN} \<inter> {j. c ! j \<noteq> 0} = {k. k < NN \<and> c ! k \<noteq> 0}" by auto
  finally show ?thesis by (simp add: weight_def)
qed

lemma length_negacyclic [simp]: "length (negacyclic a b) = NN"
  by (simp add: negacyclic_def)

lemma negacyclic_nth:
  "i < NN \<Longrightarrow> negacyclic a b ! i = (\<Sum>j<NN. if j \<le> i then a ! j * b ! (i - j) else - (a ! j * b ! (NN + i - j)))"
  unfolding negacyclic_def by (subst nth_map) (simp_all cong: if_cong)

lemma negacyclic_bound:
  assumes c: "length c = NN" "set c \<subseteq> {- 1, 0, 1}"
    and s: "length s = NN" "\<And>j. j < NN \<Longrightarrow> \<bar>s ! j\<bar> \<le> e" and i: "i < NN"
  shows "\<bar>negacyclic c s ! i\<bar> \<le> int (weight c) * e"
proof -
  have "\<bar>negacyclic c s ! i\<bar> \<le> (\<Sum>j<NN. \<bar>if j \<le> i then c ! j * s ! (i - j) else - (c ! j * s ! (NN + i - j))\<bar>)"
    unfolding negacyclic_nth [OF i] by (rule sum_abs)
  also have "\<dots> \<le> (\<Sum>j<NN. \<bar>c ! j\<bar> * e)"
    by (rule sum_mono) (use i s in \<open>auto simp: abs_mult intro!: mult_left_mono\<close>)
  also have "\<dots> = int (weight c) * e"
    by (simp only: sum_distrib_right [symmetric] sum_abs_weight [OF c])
  finally show ?thesis .
qed

lemma highBits_mod: "highBits (r mod Q) g = highBits r g"
  by (simp add: highBits_def decompose_def)

lemma highBits_eqQ: "eqQ x y \<Longrightarrow> highBits x g = highBits y g"
  by (metis eqQ_def highBits_mod)

section \<open>The verifier recomputes the commitment\<close>

text \<open>
  \<open>key_vectors\<close> is the relation between the matrix and the vectors of a key pair that \<^verbatim>\<open>keyGenInternal\<close>
  establishes, \<open>good_param\<close> the relation between the numbers of a parameter set.
\<close>

definition good_param :: "Param \<Rightarrow> bool" where
  "good_param p \<longleftrightarrow> valid_gamma2 (p_gamma2 p) \<and> p_beta p = int (p_tau p * p_eta p) \<and> p_tau p \<le> NN"

definition key_product :: "Param \<Rightarrow> Poly list \<Rightarrow> PolyVec \<Rightarrow> PolyVec \<Rightarrow> PolyVec" where
  "key_product p A s1 s2 =
     map (\<lambda>i. polyAddInto (nttInverse (row_product (p_l p) A i (map nttCopy s1))) (s2 ! i)) [0..<p_k p]"

definition key_vectors :: "Param \<Rightarrow> Poly list \<Rightarrow> PolyVec \<Rightarrow> PolyVec \<Rightarrow> PolyVec \<Rightarrow> PolyVec \<Rightarrow> bool" where
  "key_vectors p A s1 s2 t1 t0 \<longleftrightarrow>
     length s1 = p_l p \<and> length s2 = p_k p \<and> list_all (\<lambda>s. length s = NN) s1 \<and>
     list_all (\<lambda>s. length s = NN \<and> list_all (\<lambda>c. \<bar>c\<bar> \<le> int (p_eta p)) s) s2 \<and>
     t1 = map (map (\<lambda>c. fst (power2Round c))) (key_product p A s1 s2) \<and>
     t0 = map (map (\<lambda>c. snd (power2Round c))) (key_product p A s1 s2)"

definition challenge_ok :: "Param \<Rightarrow> Poly \<Rightarrow> bool" where
  "challenge_ok p c \<longleftrightarrow> length c = NN \<and> set c \<subseteq> {- 1, 0, 1} \<and> weight c = p_tau p"

lemma paramFor_good: "good_param (paramFor lv)"
  by (simp add: good_param_def paramFor_def valid_gamma2_def Q_def NN_def)

lemma power2Round_sum: "fst (power2Round r) * 2 ^ DD + snd (power2Round r) = r mod Q"
  using power2Round_exact [of r] by (simp add: DD_def)

lemma at_key_product:
  assumes k: "key_vectors p A s1 s2 t1 t0" and "i < p_k p" and b: "b < NN"
  shows "eqQ (at b (key_product p A s1 s2 ! i))
    ((\<Sum>j<p_l p. A ! (i * p_l p + j) ! b * nttCopy (s1 ! j) ! b) + at b (s2 ! i))"
proof -
  let ?r = "row_product (p_l p) A i (map nttCopy s1)"
  have "eqQ (at b (key_product p A s1 s2 ! i)) (at b (nttInverse ?r) + at b (s2 ! i))"
    using assms(2) by (intro at_add) (simp add: key_product_def polyAddInto_def)
  also have "eqQ (at b (nttInverse ?r) + at b (s2 ! i)) (?r ! b + at b (s2 ! i))"
    by (intro eqQ_add at_inverse reduced_row_product b eqQ_refl)
  also have "eqQ (?r ! b + at b (s2 ! i))
      ((\<Sum>j<p_l p. A ! (i * p_l p + j) ! b * nttCopy (s1 ! j) ! b) + at b (s2 ! i))"
    unfolding row_product_nth [OF b] using k
    by (intro eqQ_add) (simp_all add: key_vectors_def)
  finally show ?thesis .
qed

lemma at_scaled_t1:
  assumes k: "key_vectors p A s1 s2 t1 t0" and i: "i < p_k p" and b: "b < NN"
  shows "eqQ (at b (map (\<lambda>cc. modQ (t1 ! i ! cc * 2 ^ DD)) [0..<NN]))
    ((\<Sum>j<p_l p. A ! (i * p_l p + j) ! b * nttCopy (s1 ! j) ! b) + at b (s2 ! i) - at b (t0 ! i))"
proof -
  let ?t = "key_product p A s1 s2"
  have len: "length (?t ! i) = NN" "length ?t = p_k p"
    using i by (simp_all add: key_product_def polyAddInto_def)
  have t: "t1 ! i ! cc = fst (power2Round (?t ! i ! cc))" "t0 ! i ! cc = snd (power2Round (?t ! i ! cc))"
    if "cc < NN" for cc
    using k i len that by (simp_all add: key_vectors_def)
  have "eqQ (t1 ! i ! cc * 2 ^ DD) (?t ! i ! cc - t0 ! i ! cc)" if "cc < NN" for cc
  proof -
    have "t1 ! i ! cc * 2 ^ DD = ?t ! i ! cc mod Q - t0 ! i ! cc"
      using power2Round_sum [of "?t ! i ! cc"] t [OF that] by (metis add_diff_cancel_right')
    then show ?thesis by (simp add: eqQ_diff)
  qed
  then have "eqQ (at b (map (\<lambda>cc. modQ (t1 ! i ! cc * 2 ^ DD)) [0..<NN])) (at b (?t ! i) - at b (t0 ! i))"
    by (intro at_diff) simp
  also have "eqQ (at b (?t ! i) - at b (t0 ! i))
    ((\<Sum>j<p_l p. A ! (i * p_l p + j) ! b * nttCopy (s1 ! j) ! b) + at b (s2 ! i) - at b (t0 ! i))"
    by (intro eqQ_diff at_key_product [OF k i b] eqQ_refl)
  finally show ?thesis .
qed

abbreviation times_ntt :: "Poly \<Rightarrow> Poly \<Rightarrow> Poly" where
  "times_ntt c s \<equiv> nttInverse (pointwise (nttCopy c) (nttCopy s))"

lemma reduced_nttCopy: "length a = NN \<Longrightarrow> reduced (nttCopy a)"
  by (simp add: nttCopy_def reduced_nttForward)

lemma nttCopy_at: "length a = NN \<Longrightarrow> b < NN \<Longrightarrow> eqQ (nttCopy a ! b) (at b a)"
  by (simp add: nttCopy_def nttForward_at)

lemma pointwise_at: "b < NN \<Longrightarrow> eqQ (pointwise u v ! b) (u ! b * v ! b)"
  by (simp add: pointwise_def)

lemma at_times_ntt:
  assumes "length c = NN" and "length s = NN" and "b < NN"
  shows "eqQ (at b (times_ntt c s)) (nttCopy c ! b * nttCopy s ! b)"
proof -
  have "eqQ (at b (times_ntt c s)) (pointwise (nttCopy c) (nttCopy s) ! b)"
    by (intro at_inverse reduced_pointwise reduced_nttCopy assms)
  also have "eqQ \<dots> (nttCopy c ! b * nttCopy s ! b)"
    by (rule pointwise_at [OF assms(3)])
  finally show ?thesis .
qed

lemma times_ntt_negacyclic:
  assumes "length c = NN" and "length s = NN"
  shows "times_ntt c s = map (\<lambda>x. x mod Q) (negacyclic c s)"
  using pointwise_transforms [OF assms] inverse_forward_mod [of "negacyclic c s"]
  by (simp add: nttCopy_def)

lemma key_lengths:
  assumes "key_vectors p A s1 s2 t1 t0" and "i < p_k p"
  shows "length (s2 ! i) = NN" and "length (t0 ! i) = NN" and "length t0 = p_k p"
  using assms by (auto simp: key_vectors_def list_all_length key_product_def polyAddInto_def)

lemma at_response_z:
  assumes k: "key_vectors p A s1 s2 t1 t0" and c: "length c = NN" and j: "j < p_l p" and b: "b < NN"
  shows "eqQ (at b (response_z p (nttCopy c) (map nttCopy s1) y ! j))
    (at b (y ! j) + nttCopy c ! b * nttCopy (s1 ! j) ! b)"
proof -
  have s1: "length (s1 ! j) = NN" "j < length s1" using k j by (auto simp: key_vectors_def list_all_length)
  have "eqQ (at b (response_z p (nttCopy c) (map nttCopy s1) y ! j)) (at b (y ! j) + at b (times_ntt c (s1 ! j)))"
    using j s1 by (intro at_add) (simp add: response_z_def Let_def eqQ_trans [OF eqQ_centered])
  also have "eqQ (at b (y ! j) + at b (times_ntt c (s1 ! j))) (at b (y ! j) + nttCopy c ! b * nttCopy (s1 ! j) ! b)"
    by (intro eqQ_add at_times_ntt c s1 b eqQ_refl)
  finally show ?thesis .
qed

lemma at_commitment:
  assumes "length y = p_l p" and "i < p_k p" and b: "b < NN"
  shows "eqQ (at b (commitment p A y ! i)) (\<Sum>j<p_l p. A ! (i * p_l p + j) ! b * nttCopy (y ! j) ! b)"
proof -
  let ?r = "row_product (p_l p) A i (map nttCopy y)"
  have "eqQ (at b (commitment p A y ! i)) (?r ! b)"
    using assms(2) at_inverse [OF reduced_row_product b] by (simp add: commitment_def Let_def)
  then show ?thesis unfolding row_product_nth [OF b] using assms(1) by simp
qed

text \<open>The transformed sum of the verifier, at one root.\<close>

lemma verifier_value:
  assumes k: "key_vectors p A s1 s2 t1 t0" and c: "length c = NN" and i: "i < p_k p" and b: "b < NN"
    and y: "length y = p_l p" "list_all (\<lambda>s. length s = NN) y"
  defines "z \<equiv> response_z p (nttCopy c) (map nttCopy s1) y"
  shows "eqQ (row_product (p_l p) A i (map nttCopy z) ! b
      - pointwise (nttCopy c) (nttCopy (map (\<lambda>cc. modQ (t1 ! i ! cc * 2 ^ DD)) [0..<NN])) ! b)
    (at b (commitment p A y ! i) - nttCopy c ! b * at b (s2 ! i) + nttCopy c ! b * at b (t0 ! i))"
    (is "eqQ (?row - ?ct1) ?goal")
proof -
  let ?A = "\<lambda>j. A ! (i * p_l p + j) ! b" and ?c = "nttCopy c ! b"
  let ?ys = "\<Sum>j<p_l p. ?A j * at b (y ! j)" and ?ss = "\<Sum>j<p_l p. ?A j * nttCopy (s1 ! j) ! b"
  have zl: "length z = p_l p" "j < p_l p \<Longrightarrow> length (z ! j) = NN" for j
    by (simp_all add: z_def response_z_def Let_def)
  have z: "eqQ (nttCopy (z ! j) ! b) (at b (y ! j) + ?c * nttCopy (s1 ! j) ! b)" if "j < p_l p" for j
    using eqQ_trans [OF nttCopy_at [OF zl(2) [OF that] b]] at_response_z [OF k c that b] z_def by blast
  have "eqQ ?row (\<Sum>j<p_l p. ?A j * (at b (y ! j) + ?c * nttCopy (s1 ! j) ! b))"
    unfolding row_product_nth [OF b] eqQ_mod
  proof (rule eqQ_sum)
    fix j assume "j \<in> {..<p_l p}"
    then have j: "j < p_l p" by simp
    then have "map nttCopy z ! j = nttCopy (z ! j)" using zl(1) by simp
    with eqQ_mult [OF eqQ_refl z [OF j]]
    show "eqQ (?A j * map nttCopy z ! j ! b) (?A j * (at b (y ! j) + ?c * nttCopy (s1 ! j) ! b))" by simp
  qed
  also have "(\<Sum>j<p_l p. ?A j * (at b (y ! j) + ?c * nttCopy (s1 ! j) ! b)) = ?ys + ?c * ?ss"
    by (simp add: distrib_left sum.distrib sum_distrib_left mult.left_commute)
  finally have row: "eqQ ?row (?ys + ?c * ?ss)" .
  have "length (map (\<lambda>cc. modQ (t1 ! i ! cc * 2 ^ DD)) [0..<NN]) = NN" by simp
  note t1 = eqQ_trans [OF nttCopy_at [OF this b] at_scaled_t1 [OF k i b]]
  have "eqQ ?ct1 (?c * (?ss + at b (s2 ! i) - at b (t0 ! i)))"
    by (rule eqQ_trans [OF pointwise_at [OF b] eqQ_mult [OF eqQ_refl t1]])
  with row have "eqQ (?row - ?ct1) (?ys + ?c * ?ss - ?c * (?ss + at b (s2 ! i) - at b (t0 ! i)))"
    by (rule eqQ_diff)
  also have "\<dots> = ?ys - ?c * at b (s2 ! i) + ?c * at b (t0 ! i)" by (simp add: algebra_simps)
  also have "eqQ \<dots> ?goal"
  proof (intro eqQ_add eqQ_diff eqQ_refl)
    have "eqQ ?ys (\<Sum>j<p_l p. ?A j * nttCopy (y ! j) ! b)"
    proof (rule eqQ_sum)
      fix j assume "j \<in> {..<p_l p}"
      then have "length (y ! j) = NN" using y by (simp add: list_all_length)
      then show "eqQ (?A j * at b (y ! j)) (?A j * nttCopy (y ! j) ! b)"
        by (intro eqQ_mult eqQ_refl eqQ_sym [OF nttCopy_at] b)
    qed
    then show "eqQ ?ys (at b (commitment p A y ! i))"
      using at_commitment [where p = p, OF y(1) i b] eqQ_sym eqQ_trans by blast
  qed
  finally show ?thesis .
qed

lemma verifier_acc:
  assumes k: "key_vectors p A s1 s2 t1 t0" and c: "length c = NN" and i: "i < p_k p"
    and y: "length y = p_l p" "list_all (\<lambda>s. length s = NN) y"
  defines "z \<equiv> response_z p (nttCopy c) (map nttCopy s1) y"
  shows "nttInverse (map (\<lambda>cc. modQ (row_product (p_l p) A i (map nttCopy z) ! cc
      - pointwise (nttCopy c) (nttCopy (map (\<lambda>cc. modQ (t1 ! i ! cc * 2 ^ DD)) [0..<NN])) ! cc)) [0..<NN])
    = map (\<lambda>cc. (commitment p A y ! i ! cc - times_ntt c (s2 ! i) ! cc + times_ntt c (t0 ! i) ! cc) mod Q) [0..<NN]"
    (is "nttInverse ?v = _")
proof -
  let ?w = "commitment p A y ! i"
  let ?d = "map (\<lambda>cc. ?w ! cc - times_ntt c (s2 ! i) ! cc) [0..<NN]"
  let ?u = "map (\<lambda>cc. ?w ! cc - times_ntt c (s2 ! i) ! cc + times_ntt c (t0 ! i) ! cc) [0..<NN]"
  note len = key_lengths [OF k i]
  have "?v ! b = at b ?u mod Q" if b: "b < NN" for b
  proof -
    have u: "eqQ (at b ?u) (at b ?d + at b (times_ntt c (t0 ! i)))" by (rule at_add) simp
    have d: "eqQ (at b ?d) (at b ?w - at b (times_ntt c (s2 ! i)))" by (rule at_diff) simp
    have t: "eqQ (at b (times_ntt c s)) (nttCopy c ! b * at b s)" if "length s = NN" for s
      using eqQ_trans [OF at_times_ntt [OF c that b] eqQ_mult [OF eqQ_refl nttCopy_at [OF that b]]] .
    have "eqQ (at b ?u) (at b ?w - nttCopy c ! b * at b (s2 ! i) + nttCopy c ! b * at b (t0 ! i))"
      using eqQ_trans [OF u eqQ_add [OF eqQ_trans [OF d eqQ_diff [OF eqQ_refl t [OF len(1)]]] t [OF len(2)]]] .
    then show ?thesis
      using verifier_value [OF k c i b y] b unfolding z_def by (simp add: eqQ_def)
  qed
  then show ?thesis using inverse_of_values [of ?v ?u] by simp
qed

section \<open>The high bits survive\<close>

lemma response_SomeD:
  assumes "response p c s1hat s2hat t0hat y w = Some (z, h)"
  defines "wcs2 \<equiv> response_wcs2 p (nttCopy c) s2hat w" and "ct0 \<equiv> response_ct0 p (nttCopy c) t0hat"
  shows "z = response_z p (nttCopy c) s1hat y" and "polyVecInfNorm z < p_gamma1 p - p_beta p"
    and "max_abs (concat (map (map (\<lambda>c. lowBits c (p_gamma2 p))) wcs2)) < p_gamma2 p - p_beta p"
    and "max_abs (concat (map (map (\<lambda>c. centered (modQ c))) ct0)) < p_gamma2 p"
    and "h = response_hint p wcs2 ct0" and "length (filter (\<lambda>b. b = 1) (concat h)) \<le> p_omega p"
  using assms(1) unfolding response_def Let_def wcs2_def ct0_def
  by (auto split: if_splits simp del: modQ_eq)

lemma hint_step:
  assumes "valid_gamma2 g" and "\<bar>centered (ct mod Q)\<bar> < g" and "eqQ wcs (w - cs)"
    and "\<bar>lowBits wcs g\<bar> < g - B" and "eqQ cs e" and "\<bar>e\<bar> \<le> B" and "eqQ u (w - cs + ct)"
  shows "useHint (if highBits (modQ (wcs + ct)) g \<noteq> highBits wcs g then 1 else 0) (u mod Q) g = highBits w g"
proof -
  let ?r = "(wcs + ct) mod Q" and ?z = "- centered (ct mod Q)"
  have "eqQ u (wcs + ct)"
    using assms(7) eqQ_add [OF eqQ_sym [OF assms(3)] eqQ_refl [of ct]] by (rule eqQ_trans)
  then have u: "u mod Q = ?r" by (simp add: eqQ_def)
  have "eqQ (?r + ?z) (wcs + ct - ct)"
    using eqQ_diff [OF _ eqQ_centered, of ?r "wcs + ct" ct] by simp
  then have hb: "highBits (?r + ?z) g = highBits wcs g" by (intro highBits_eqQ) simp
  have "useHint (if highBits ?r g \<noteq> highBits wcs g then 1 else 0) ?r g = highBits wcs g"
    using hint_recovers [OF assms(1), of ?z ?r] assms(2) unfolding hb by simp
  also have "highBits wcs g = highBits (wcs + e) g"
    using highBits_stable [OF assms(1), of wcs e] assms(4,6) by simp
  also have "\<dots> = highBits w g"
  proof (rule highBits_eqQ)
    have "eqQ (wcs + e) (w - cs + cs)" by (intro eqQ_add assms(3) eqQ_sym [OF assms(5)])
    then show "eqQ (wcs + e) w" by simp
  qed
  finally show ?thesis unfolding u by simp
qed

lemma verifier_entry:
  assumes p: "good_param p" and k: "key_vectors p A s1 s2 t1 t0" and c: "challenge_ok p c"
    and y: "length y = p_l p" "list_all (\<lambda>s. length s = NN) y"
    and r: "response p c (map nttCopy s1) (map nttCopy s2) (map nttCopy t0) y (commitment p A y) = Some (z, h)"
    and i: "i < p_k p" and cc: "cc < NN"
  shows "useHint (h ! i ! cc) ((commitment p A y ! i ! cc - times_ntt c (s2 ! i) ! cc + times_ntt c (t0 ! i) ! cc) mod Q)
      (p_gamma2 p) = highBits (commitment p A y ! i ! cc) (p_gamma2 p)"
proof -
  define wcs2 where "wcs2 = response_wcs2 p (nttCopy c) (map nttCopy s2) (commitment p A y)"
  define ct0 where "ct0 = response_ct0 p (nttCopy c) (map nttCopy t0)"
  note d = response_SomeD [OF r, folded wcs2_def ct0_def]
  have clen: "length c = NN" "set c \<subseteq> {- 1, 0, 1}" "weight c = p_tau p"
    using c by (auto simp: challenge_ok_def)
  have s2: "i < length s2" "length (s2 ! i) = NN" "\<And>j. j < NN \<Longrightarrow> \<bar>s2 ! i ! j\<bar> \<le> int (p_eta p)"
    using k i by (auto simp: key_vectors_def list_all_length)
  note t0 = key_lengths(2,3) [OF k i]
  have we: "wcs2 ! i ! cc = (commitment p A y ! i ! cc - times_ntt c (s2 ! i) ! cc) mod Q"
    and wl: "length wcs2 = p_k p" "length (wcs2 ! i) = NN"
    using i cc s2(1) by (simp_all add: wcs2_def response_wcs2_def Let_def)
  have ce: "ct0 ! i = times_ntt c (t0 ! i)" and cl: "length ct0 = p_k p"
    using i t0 by (simp_all add: ct0_def response_ct0_def)
  have cl2: "length (ct0 ! i) = NN"
    unfolding ce by (rule reduced_length) (intro reduced_nttInverse; simp add: pointwise_def)
  have h: "h ! i ! cc = (if highBits (modQ (wcs2 ! i ! cc + ct0 ! i ! cc)) (p_gamma2 p)
      \<noteq> highBits (wcs2 ! i ! cc) (p_gamma2 p) then 1 else 0)"
    using i cc by (simp add: d(5) response_hint_def Let_def)
  show ?thesis
    unfolding h ce
  proof (rule hint_step [where cs = "times_ntt c (s2 ! i) ! cc" and e = "negacyclic c (s2 ! i) ! cc"
        and B = "p_beta p"])
    show "valid_gamma2 (p_gamma2 p)" using p by (simp add: good_param_def)
    show "\<bar>centered (times_ntt c (t0 ! i) ! cc mod Q)\<bar> < p_gamma2 p"
      using max_abs_entry [OF i cl cc cl2, of "\<lambda>c. centered (modQ c)"] d(4) by (simp add: ce)
    show "\<bar>lowBits (wcs2 ! i ! cc) (p_gamma2 p)\<bar> < p_gamma2 p - p_beta p"
      using max_abs_entry [OF i wl(1) cc wl(2), of "\<lambda>c. lowBits c (p_gamma2 p)"] d(3) by simp
    show "eqQ (times_ntt c (s2 ! i) ! cc) (negacyclic c (s2 ! i) ! cc)"
      using cc by (simp add: times_ntt_negacyclic [OF clen(1) s2(2)])
    show "\<bar>negacyclic c (s2 ! i) ! cc\<bar> \<le> p_beta p"
      using negacyclic_bound [OF clen(1,2) s2(2,3) cc] clen(3) p by (simp add: good_param_def)
  qed (simp_all add: we)
qed

lemma response_verifies:
  assumes p: "good_param p" and k: "key_vectors p A s1 s2 t1 t0" and c: "challenge_ok p c"
    and y: "length y = p_l p" "list_all (\<lambda>s. length s = NN) y"
    and r: "response p c (map nttCopy s1) (map nttCopy s2) (map nttCopy t0) y (commitment p A y) = Some (z, h)"
  shows "verifier_w1 p A t1 c z h = high_vec p (commitment p A y)"
proof -
  have clen: "length c = NN" using c by (simp add: challenge_ok_def)
  note z = response_SomeD(1) [OF r]
  have w: "length (commitment p A y) = p_k p" "i < p_k p \<Longrightarrow> length (commitment p A y ! i) = NN" for i
    using reduced_length [OF reduced_nttInverse [OF reduced_length [OF reduced_row_product]]]
    by (simp_all add: commitment_def Let_def)
  have "verifier_w1 p A t1 c z h ! i = high_vec p (commitment p A y) ! i" if i: "i < p_k p" for i
  proof -
    have "verifier_w1 p A t1 c z h ! i = map (\<lambda>cc. useHint (h ! i ! cc)
        ((commitment p A y ! i ! cc - times_ntt c (s2 ! i) ! cc + times_ntt c (t0 ! i) ! cc) mod Q) (p_gamma2 p)) [0..<NN]"
      using i verifier_acc [OF k clen i y, folded z] by (simp add: verifier_w1_def Let_def del: modQ_eq)
    also have "\<dots> = map (\<lambda>cc. highBits (commitment p A y ! i ! cc) (p_gamma2 p)) [0..<NN]"
      using verifier_entry [OF p k c y r i] by simp
    also have "\<dots> = high_vec p (commitment p A y) ! i"
      using w i by (intro nth_equalityI) (simp_all add: high_vec_def)
    finally show ?thesis .
  qed
  then show ?thesis
    by (intro nth_equalityI) (simp_all add: verifier_w1_def high_vec_def w Let_def)
qed

text \<open>
  C9. The verifier recomputes the signer's commitment: for a parameter set, a key related as key
  generation relates it, a challenge of weight \<open>tau\<close> and any mask \<open>y\<close>, whenever the response passes the
  four rejection tests of the signing loop, the high bits the verifier computes from the response,
  the hint and the public key alone are the high bits of \<open>A y\<close>, and the response passes the norm
  test of the verifier.
\<close>

theorem verifier_recomputes:
  assumes "good_param p" and "key_vectors p A s1 s2 t1 t0" and "challenge_ok p c"
    and "length y = p_l p" and "list_all (\<lambda>s. length s = NN) y"
    and "response p c (map nttCopy s1) (map nttCopy s2) (map nttCopy t0) y (commitment p A y) = Some (z, h)"
  shows "verifier_w1 p A t1 c z h = high_vec p (commitment p A y) \<and> polyVecInfNorm z < p_gamma1 p - p_beta p"
  using response_verifies [OF assms] response_SomeD(2) [OF assms(6)] by blast

section \<open>A concrete response\<close>

lemma zero_poly_nth [simp]: "i < NN \<Longrightarrow> zero_poly ! i = 0"
  by (simp add: zero_poly_def)

lemma zero_polyI: "length a = NN \<Longrightarrow> (\<And>i. i < NN \<Longrightarrow> a ! i = 0) \<Longrightarrow> a = zero_poly"
  by (rule nth_equalityI) (simp_all add: zero_poly_def)

lemma length_zero_poly [simp]: "length zero_poly = NN"
  by (simp add: zero_poly_def)

lemma nttCopy_zero [simp]: "nttCopy zero_poly = zero_poly"
  by (rule zero_polyI) (simp_all add: nttCopy_def nttForward_at at_def eval_poly_def)

lemma nttInverse_zero [simp]: "nttInverse zero_poly = zero_poly"
  using inverse_forward_mod [of zero_poly] nttCopy_zero
  by (simp add: nttCopy_def) (simp add: zero_poly_def)

lemma pointwise_zero [simp]: "pointwise u zero_poly = zero_poly"
  by (rule zero_polyI) (simp_all add: pointwise_def crem_nonneg)

lemma row_product_zero:
  "(\<And>j. j < l \<Longrightarrow> A ! (i * l + j) = zero_poly) \<Longrightarrow> row_product l A i v = zero_poly"
  using reduced_length [OF reduced_row_product] by (intro zero_polyI) (simp_all add: row_product_nth)

lemma max_abs_zero: "\<forall>x \<in> set xs. x = 0 \<Longrightarrow> max_abs xs = 0"
  unfolding max_abs_def by (induction xs) simp_all

definition toy_c :: Poly where
  "toy_c = replicate 39 1 @ replicate 217 0"

definition toy_y :: PolyVec where
  "toy_y = replicate 4 (replicate NN 5)"

abbreviation zero_vec :: "nat \<Rightarrow> PolyVec" where
  "zero_vec n \<equiv> replicate n zero_poly"

lemma toy_key: "key_vectors (paramFor 44) (zero_vec 16) (zero_vec 4) (zero_vec 4) (zero_vec 4) (zero_vec 4)"
proof -
  have "row_product 4 (zero_vec 16) i (map nttCopy (zero_vec 4)) = zero_poly" if "i < 4" for i
    using that by (intro row_product_zero) simp
  then have "key_product (paramFor 44) (zero_vec 16) (zero_vec 4) (zero_vec 4) = zero_vec 4"
    by (intro nth_equalityI) (auto simp: key_product_def paramFor_def polyAddInto_def intro!: zero_polyI)
  then show ?thesis
    by (simp add: key_vectors_def paramFor_def list_all_iff power2Round_def zero_poly_def)
qed

lemma toy_challenge: "challenge_ok (paramFor 44) toy_c"
proof -
  have "{k. k < NN \<and> toy_c ! k \<noteq> 0} = {..<39}" by (auto simp: toy_c_def nth_append NN_def)
  then show ?thesis by (auto simp: challenge_ok_def toy_c_def weight_def paramFor_def NN_def)
qed

lemma polyInfNorm_le:
  assumes "0 \<le> B" and "\<And>i. i < NN \<Longrightarrow> \<bar>centered (s ! i mod Q)\<bar> \<le> B"
  shows "polyInfNorm s \<le> B"
  unfolding polyInfNorm_def
  by (rule fold_invariant [where P = "\<lambda>m. m \<le> B"]) (use assms in \<open>auto simp: Let_def abs_if\<close>)

lemma polyVecInfNorm_le:
  "0 \<le> B \<Longrightarrow> (\<And>s. s \<in> set v \<Longrightarrow> polyInfNorm s \<le> B) \<Longrightarrow> polyVecInfNorm v \<le> B"
  unfolding polyVecInfNorm_def
  by (rule fold_invariant [where P = "\<lambda>m. m \<le> B"]) (auto simp: Let_def)

lemma toy_commitment: "commitment (paramFor 44) (zero_vec 16) y = zero_vec 4"
proof -
  have "row_product 4 (zero_vec 16) i v = zero_poly" if "i < 4" for i v
    using that by (intro row_product_zero) simp
  then show ?thesis
    by (intro nth_equalityI) (simp_all add: commitment_def paramFor_def)
qed

lemma toy_response:
  "response (paramFor 44) toy_c (map nttCopy (zero_vec 4)) (map nttCopy (zero_vec 4)) (map nttCopy (zero_vec 4)) toy_y
     (zero_vec 4) = Some (toy_y, zero_vec 4)"
proof -
  let ?p = "paramFor 44"
  have par: "p_l ?p = 4" "p_k ?p = 4" "p_gamma1 ?p = 131072" "p_gamma2 ?p = 95232" "p_beta ?p = 78" "p_omega ?p = 80"
    by (simp_all add: paramFor_def Q_def)
  have five: "centered (5 mod Q) = 5" by (simp add: centered_def Q_def cdiv_nonneg)
  have z: "response_z ?p (nttCopy toy_c) (map nttCopy (zero_vec 4)) toy_y = toy_y"
    by (rule nth_equalityI) (auto simp: response_z_def par toy_y_def five intro!: nth_equalityI)
  have "polyVecInfNorm toy_y \<le> 5"
    by (intro polyVecInfNorm_le polyInfNorm_le) (auto simp: toy_y_def five)
  then have zn: "polyVecInfNorm toy_y < p_gamma1 ?p - p_beta ?p" by (simp add: par)
  have wcs2: "response_wcs2 ?p (nttCopy toy_c) (map nttCopy (zero_vec 4)) (zero_vec 4) = zero_vec 4"
    by (rule nth_equalityI) (auto simp: response_wcs2_def par intro!: zero_polyI)
  have ct0: "response_ct0 ?p (nttCopy toy_c) (map nttCopy (zero_vec 4)) = zero_vec 4"
    by (rule nth_equalityI) (simp_all add: response_ct0_def par)
  have zs: "x = 0" if "x \<in> set zero_poly" for x using that by (simp add: zero_poly_def)
  have low: "lowBits 0 95232 = 0" "centered 0 = 0"
    by (simp_all add: lowBits_def decompose_def centered_def crem_nonneg cdiv_nonneg Q_def)
  have m: "max_abs (concat (map (map f) (zero_vec 4))) = 0" if "f 0 = 0" for f
    using that zs by (intro max_abs_zero) auto
  have h: "response_hint ?p (zero_vec 4) (zero_vec 4) = zero_vec 4"
    by (rule nth_equalityI) (auto simp: response_hint_def par intro!: zero_polyI)
  have "filter (\<lambda>b. b = 1) (concat (zero_vec 4)) = []"
    by (auto simp: filter_empty_conv zero_poly_def)
  then show ?thesis
    unfolding response_def Let_def z wcs2 ct0 h using zn m low by (simp add: par)
qed

theorem verifier_recomputes_witness:
  "verifier_w1 (paramFor 44) (zero_vec 16) (zero_vec 4) toy_c toy_y (zero_vec 4)
     = high_vec (paramFor 44) (zero_vec 4) \<and> polyVecInfNorm toy_y < 130994"
proof -
  have y: "length toy_y = p_l (paramFor 44)" "list_all (\<lambda>s. length s = NN) toy_y"
    by (simp_all add: toy_y_def paramFor_def list_all_iff)
  from verifier_recomputes [OF paramFor_good toy_key toy_challenge y, unfolded toy_commitment, OF toy_response]
  show ?thesis by (simp add: paramFor_def)
qed

end
