(* ===== verification/MldsaSignVerify.thy ===== *)
theory MldsaSignVerify
  imports MldsaCorrect
begin

text \<open>
  Signing followed by verification, through the serialised interface of \<^verbatim>\<open>mldsa_fips204.h\<close>: what key
  generation establishes of the keys, what signing establishes of a signature, and that verification
  accepts it.
\<close>

section \<open>Lengths and ranges of sampled values\<close>

lemma length_shake_read [simp]: "length (fst (shake_read s n)) = n"
  by (induction n arbitrary: s) (simp_all add: split_beta)

lemma length_shake256Sum [simp]: "length (shake256Sum n m) = n"
  by (simp add: shake256Sum_def)

lemma length_br_reads [simp]: "length (br_reads n bits r) = n"
  by (induction n arbitrary: r) (simp_all add: split_beta)

lemma length_bitUnpack [simp]: "length (bitUnpack buf b bits) = NN"
  by (simp add: bitUnpack_def)

lemma expandMask_polys:
  "length (expandMask rho kappa l g) = l" "list_all (\<lambda>s. length s = NN) (expandMask rho kappa l g)"
  by (simp_all add: expandMask_def Let_def list_all_iff)

lemma coeffFromHalfByte_range:
  "eta = 2 \<or> eta = 4 \<Longrightarrow> coeffFromHalfByte z eta = Some v \<Longrightarrow> \<bar>v\<bar> \<le> int eta"
  by (auto simp: coeffFromHalfByte_def split: if_splits)

definition short :: "nat \<Rightarrow> Poly \<Rightarrow> bool" where
  "short eta s \<longleftrightarrow> length s = NN \<and> (\<forall>c \<in> set s. \<bar>c\<bar> \<le> int eta)"

lemma short_update:
  assumes "eta = 2 \<or> eta = 4" and "short eta p"
    and "(i', p') = (case coeffFromHalfByte z eta of Some v \<Rightarrow> (i + 1, p[i := v]) | None \<Rightarrow> (i, p))"
  shows "short eta p'"
proof (cases "coeffFromHalfByte z eta")
  case (Some v)
  then have "p' = p[i := v]" "\<bar>v\<bar> \<le> int eta" using assms coeffFromHalfByte_range by simp_all
  then show ?thesis
    using assms(2) set_update_subset_insert [of p i v] by (auto simp: short_def)
qed (use assms in simp)

lemma rejBounded_loop_short:
  assumes "rejBounded_loop eta st i p = Some p'" and "eta = 2 \<or> eta = 4" and "short eta p"
  shows "short eta p'"
proof -
  have "(eta = 2 \<or> eta = 4) \<and> short eta p \<longrightarrow> short eta p'"
  proof (rule rejBounded_loop.raw_induct [OF _ assms(1),
        where P = "\<lambda>eta st i p p'. (eta = 2 \<or> eta = 4) \<and> short eta p \<longrightarrow> short eta p'"])
    fix loop :: "nat \<Rightarrow> Shake \<Rightarrow> nat \<Rightarrow> Poly \<Rightarrow> Poly option" and eta st i p p'
    assume IH: "\<And>eta st i p p'. loop eta st i p = Some p' \<Longrightarrow> (eta = 2 \<or> eta = 4) \<and> short eta p \<longrightarrow> short eta p'"
      and body: "(if i < NN then
        (case readByte st of (b, st) \<Rightarrow>
           (let (i, p) = (case coeffFromHalfByte (unat (b AND 0x0F)) eta of
                            Some v \<Rightarrow> (i + 1, p[i := v]) | None \<Rightarrow> (i, p))
            in if i \<ge> NN then Some p
               else (let (i, p) = (case coeffFromHalfByte (unat (drop_bit 4 b)) eta of
                                     Some v \<Rightarrow> (i + 1, p[i := v]) | None \<Rightarrow> (i, p))
                     in loop eta st i p)))
      else Some p) = Some p'"
    show "(eta = 2 \<or> eta = 4) \<and> short eta p \<longrightarrow> short eta p'"
    proof (intro impI, elim conjE)
      assume eta: "eta = 2 \<or> eta = 4" and p: "short eta p"
      obtain b st1 where rb: "readByte st = (b, st1)" by fastforce
      obtain i1 p1 where s1: "(i1, p1) = (case coeffFromHalfByte (unat (b AND 0x0F)) eta of
          Some v \<Rightarrow> (i + 1, p[i := v]) | None \<Rightarrow> (i, p))" by (metis surj_pair)
      obtain i2 p2 where s2: "(i2, p2) = (case coeffFromHalfByte (unat (drop_bit 4 b)) eta of
          Some v \<Rightarrow> (i1 + 1, p1[i1 := v]) | None \<Rightarrow> (i1, p1))" by (metis surj_pair)
      note p1 = short_update [OF eta p s1]
      note p2 = short_update [OF eta p1 s2]
      consider "p' = p" | "p' = p1" | "loop eta st1 i2 p2 = Some p'"
        using body [unfolded rb prod.case s1 [symmetric] Let_def, unfolded s2 [symmetric] prod.case]
        by (cases "i < NN"; cases "NN \<le> i1") simp_all
      then show "short eta p'" by cases (use p p1 p2 IH [of eta st1 i2 p2 p'] eta in simp_all)
    qed
  qed
  then show ?thesis using assms(2,3) by blast
qed

lemma rejBoundedPoly_short:
  "rejBoundedPoly rhoP n eta = Some s \<Longrightarrow> eta = 2 \<or> eta = 4 \<Longrightarrow> short eta s"
  unfolding rejBoundedPoly_def
  by (erule rejBounded_loop_short) (simp_all add: short_def zero_poly_def)

lemma those_map_SomeD:
  "those (map f xs) = Some ys \<Longrightarrow> length ys = length xs \<and> (\<forall>i < length xs. f (xs ! i) = Some (ys ! i))"
proof (induction xs arbitrary: ys)
  case (Cons x xs)
  then show ?case by (auto split: option.splits simp: nth_Cons')
qed simp

lemma sampled_vector:
  assumes "those (map (\<lambda>i. rejBoundedPoly rhoP (g i) eta) [0..<n]) = Some s" and "eta = 2 \<or> eta = 4"
  shows "length s = n" and "list_all (short eta) s"
proof -
  note s = those_map_SomeD [OF assms(1)]
  show "length s = n" using s by simp
  then show "list_all (short eta) s" using s rejBoundedPoly_short [OF _ assms(2)] by (auto simp: list_all_length)
qed

section \<open>Key generation\<close>

lemma length_key_product: "length (key_product p A s1 s2) = p_k p" "t \<in> set (key_product p A s1 s2) \<Longrightarrow> length t = NN"
  by (auto simp: key_product_def polyAddInto_def)

lemma keyGen_SomeD:
  assumes "keyGenInternal p xi = Some (pk, sk)" and eta: "p_eta p = 2 \<or> p_eta p = 4"
  obtains A where "expandA (pk_rho pk) (p_k p) (p_l p) = Some A"
    and "key_vectors p A (sk_s1 sk) (sk_s2 sk) (pk_t1 pk) (sk_t0 sk)"
    and "pk_ok p pk" and "sk_ok p sk" and "sk_rho sk = pk_rho pk" and "sk_tr sk = shake256Sum 64 (encodePK p pk)"
proof -
  define ex where "ex = shake256Sum 128 (xi @ [word_of_nat (p_k p), word_of_nat (p_l p)])"
  have ex: "length ex = 128" by (simp add: ex_def)
  obtain A s1 s2 where A: "expandA (take 32 ex) (p_k p) (p_l p) = Some A"
    and s1: "those (map (\<lambda>i. rejBoundedPoly (take 64 (drop 32 ex)) (word_of_nat i) (p_eta p)) [0..<p_l p]) = Some s1"
    and s2: "those (map (\<lambda>i. rejBoundedPoly (take 64 (drop 32 ex)) (word_of_nat (p_l p + i)) (p_eta p)) [0..<p_k p]) = Some s2"
    and pk: "pk = \<lparr>pk_rho = take 32 ex, pk_t1 = map (map (\<lambda>c. fst (power2Round c))) (key_product p A s1 s2)\<rparr>"
    and sk: "sk = \<lparr>sk_rho = take 32 ex, sk_key = take 32 (drop 96 ex), sk_tr = shake256Sum 64 (encodePK p pk),
        sk_s1 = s1, sk_s2 = s2, sk_t0 = map (map (\<lambda>c. snd (power2Round c))) (key_product p A s1 s2)\<rparr>"
  proof -
    note run = assms(1) [unfolded keyGenInternal_def ex_def [symmetric] Let_def key_product_def [symmetric]]
    show thesis
    proof (cases "expandA (take 32 ex) (p_k p) (p_l p)")
      case A: (Some A)
      show thesis
      proof (cases "those (map (\<lambda>i. rejBoundedPoly (take 64 (drop 32 ex)) (word_of_nat i) (p_eta p)) [0..<p_l p])")
        case s1: (Some s1)
        show thesis
        proof (cases "those (map (\<lambda>i. rejBoundedPoly (take 64 (drop 32 ex)) (word_of_nat (p_l p + i)) (p_eta p)) [0..<p_k p])")
          case s2: (Some s2)
          from run show thesis
            unfolding A s1 s2 bind.bind_lunit option.inject prod.inject
            using that [OF A s1 s2] by (elim conjE) (simp only:)
        qed (use run A s1 in \<open>simp del: map_map\<close>)
      qed (use run A in \<open>simp del: map_map\<close>)
    qed (use run in \<open>simp del: map_map\<close>)
  qed
  note v1 = sampled_vector [OF s1 eta] and v2 = sampled_vector [OF s2 eta]
  have kv: "key_vectors p A s1 s2 (pk_t1 pk) (sk_t0 sk)"
    using v1 v2 by (simp add: key_vectors_def pk sk short_def list_all_iff)
  have rnd: "0 \<le> fst (power2Round c)" "fst (power2Round c) < 1024" "- 4096 < snd (power2Round c)"
    "snd (power2Round c) \<le> 4096" for c
    using power2Round_exact [of c] by simp_all
  have "in_range (\<lambda>c. c) 10 (map (\<lambda>c. fst (power2Round c)) t)" if "t \<in> set (key_product p A s1 s2)" for t
    using length_key_product(2) [OF that] rnd by (auto simp: in_range_def)
  then have pko: "pk_ok p pk"
    using ex by (auto simp: pk_ok_def pk length_key_product list_all_iff)
  have "length (map (\<lambda>c. snd (power2Round c)) t) = NN \<and> (\<forall>c \<in> set (map (\<lambda>c. snd (power2Round c)) t). - 4096 < c \<and> c \<le> 4096)"
    if "t \<in> set (key_product p A s1 s2)" for t
    using length_key_product(2) [OF that] rnd by auto
  then have "list_all (\<lambda>t. length t = NN \<and> (\<forall>c \<in> set t. - 4096 < c \<and> c \<le> 4096))
      (map (map (\<lambda>c. snd (power2Round c))) (key_product p A s1 s2))"
    by (simp add: list_all_iff)
  then have sko: "sk_ok p sk"
    using v1 v2 ex by (simp add: sk_ok_def sk length_key_product short_def list_all_iff ball_Un)
  show thesis using that [of A] A kv pko sko by (simp add: pk sk)
qed

section \<open>Signatures\<close>

text \<open>What the proofs use of the three parameter sets.\<close>

lemma bitlen_z: "bitlen (nat (2 * 2 ^ 17 - 1)) = 18" "bitlen (nat (2 * 2 ^ 19 - 1)) = 20"
  by (simp_all add: bitlen_def bitlen_loop.simps)

lemma paramFor_facts:
  fixes lv :: nat
  defines "p \<equiv> paramFor lv"
  shows "p_eta p = 2 \<or> p_eta p = 4" and "p_gamma1 p = 2 ^ 17 \<and> zbits p = 18 \<or> p_gamma1 p = 2 ^ 19 \<and> zbits p = 20"
    and "p_omega p < 256" and "0 < p_omega p" and "0 \<le> p_beta p"
  using bitlen_z by (auto simp: p_def paramFor_def zbits_def)

lemma fold_max_bound:
  fixes f :: "'a \<Rightarrow> int"
  assumes "x \<in> set xs"
  shows "f x \<le> fold (\<lambda>x mx. let a = f x in if a > mx then a else mx) xs m"
proof -
  have "m \<le> fold (\<lambda>x mx. let a = f x in if a > mx then a else mx) xs m \<and>
      (\<forall>x \<in> set xs. f x \<le> fold (\<lambda>x mx. let a = f x in if a > mx then a else mx) xs m)"
  proof (induction xs arbitrary: m)
    case (Cons x xs)
    from Cons.IH [of "if f x > m then f x else m"] show ?case by (auto simp: Let_def)
  qed simp
  with assms show ?thesis by blast
qed

lemma polyInfNorm_bound:
  assumes "i < NN"
  shows "\<bar>centered (modQ (s ! i))\<bar> \<le> polyInfNorm s"
proof -
  have "(if centered (modQ (s ! i)) < 0 then - centered (modQ (s ! i)) else centered (modQ (s ! i))) \<le> polyInfNorm s"
    using fold_max_bound [of i "[0..<NN]" "\<lambda>i. if centered (modQ (s ! i)) < 0 then - centered (modQ (s ! i)) else centered (modQ (s ! i))" 0]
      assms by (simp add: polyInfNorm_def Let_def del: modQ_eq)
  then show ?thesis by (simp split: if_splits)
qed

lemma polyVecInfNorm_bound:
  assumes "s \<in> set z" and "i < NN"
  shows "\<bar>centered (modQ (s ! i))\<bar> \<le> polyVecInfNorm z"
  using polyInfNorm_bound [OF assms(2), of s] fold_max_bound [OF assms(1), of polyInfNorm 0]
  by (simp add: polyVecInfNorm_def)

lemma centered_twice: "centered (centered (x mod Q) mod Q) = centered (x mod Q)"
proof -
  define y where "y = x mod Q"
  have y: "0 \<le> y" "y < Q" by (simp_all add: y_def)
  have "(y - Q) mod Q = y" using y by simp
  then show ?thesis using y unfolding y_def [symmetric] by (simp add: centered_def)
qed

lemma response_z_packs:
  assumes g: "p_gamma1 p = 2 ^ 17 \<and> zbits p = 18 \<or> p_gamma1 p = 2 ^ 19 \<and> zbits p = 20" and b: "0 \<le> p_beta p"
    and "polyVecInfNorm (response_z p chat s1hat y) < p_gamma1 p - p_beta p"
  shows "list_all (in_range (\<lambda>c. p_gamma1 p - c) (zbits p)) (response_z p chat s1hat y)"
  unfolding list_all_iff
proof
  fix s assume s: "s \<in> set (response_z p chat s1hat y)"
  then obtain j where j: "s = map (\<lambda>cc. centered (modQ (y ! j ! cc + nttInverse (pointwise chat (s1hat ! j)) ! cc))) [0..<NN]"
    by (auto simp: response_z_def Let_def)
  define x where "x = (\<lambda>cc. y ! j ! cc + nttInverse (pointwise chat (s1hat ! j)) ! cc)"
  have x: "s = map (\<lambda>cc. centered (modQ (x cc))) [0..<NN]" by (simp only: j x_def)
  have "\<bar>c\<bar> < p_gamma1 p" if "c \<in> set s" for c
  proof -
    obtain i where i: "i < NN" "c = s ! i" using \<open>c \<in> set s\<close> x by (auto simp: in_set_conv_nth)
    then have "centered (modQ (s ! i)) = c" by (simp add: x centered_twice)
    then show ?thesis using polyVecInfNorm_bound [OF s i(1)] assms(3) b by simp
  qed
  then have "0 \<le> p_gamma1 p - c \<and> p_gamma1 p - c < 2 ^ zbits p" if "c \<in> set s" for c
    using g that by fastforce
  then show "in_range (\<lambda>c. p_gamma1 p - c) (zbits p) s" using x by (simp add: in_range_def)
qed

lemma z_vec:
  assumes "p_gamma1 p = 2 ^ 17 \<and> zbits p = 18 \<or> p_gamma1 p = 2 ^ 19 \<and> zbits p = 20"
    and "list_all (in_range (\<lambda>c. p_gamma1 p - c) (zbits p)) z" and "length z = p_l p"
  defines "enc \<equiv> concat (map (\<lambda>j. bitPack (z ! j) (p_gamma1 p) (zbits p)) [0..<p_l p])"
  shows "length enc = p_l p * (NN * zbits p div 8)"
    and "read_vec (\<lambda>b. bitUnpack b (p_gamma1 p) (zbits p)) (NN * zbits p div 8) (p_l p) (enc @ rest) = z"
proof -
  have e: "enc = concat (map (\<lambda>s. bitPack s (p_gamma1 p) (zbits p)) z)"
    unfolding enc_def using map_nth_upt [OF assms(3), of "\<lambda>s. bitPack s (p_gamma1 p) (zbits p)"] by simp
  from assms(1) show "length enc = p_l p * (NN * zbits p div 8)"
  proof
    assume g: "p_gamma1 p = 2 ^ 17 \<and> zbits p = 18"
    show ?thesis using z17_codec.length_concat_enc [of z] assms(2,3) by (simp add: g e NN_def)
  next
    assume g: "p_gamma1 p = 2 ^ 19 \<and> zbits p = 20"
    show ?thesis using z19_codec.length_concat_enc [of z] assms(2,3) by (simp add: g e NN_def)
  qed
  from assms(1) show "read_vec (\<lambda>b. bitUnpack b (p_gamma1 p) (zbits p)) (NN * zbits p div 8) (p_l p) (enc @ rest) = z"
  proof
    assume g: "p_gamma1 p = 2 ^ 17 \<and> zbits p = 18"
    show ?thesis using z17_codec.read_vec_enc [of z rest] assms(2,3) by (simp add: g e NN_def)
  next
    assume g: "p_gamma1 p = 2 ^ 19 \<and> zbits p = 20"
    show ?thesis using z19_codec.read_vec_enc [of z rest] assms(2,3) by (simp add: g e NN_def)
  qed
qed

lemma positions_count:
  assumes "length row = NN" and "set row \<subseteq> {0, 1}"
  shows "length (positions row) = length (filter (\<lambda>b. b = 1) row)"
proof -
  have "row ! j \<in> {0, 1}" if "j < NN" for j using that assms by (metis nth_mem subsetD)
  then have "filter (\<lambda>j. row ! j \<noteq> 0) [0..<NN] = filter ((\<lambda>b. b = 1) \<circ> (!) row) [0..<NN]"
    by (intro filter_cong) auto
  moreover have "row = map ((!) row) [0..<NN]" using assms(1) map_nth [of row] by simp
  ultimately show ?thesis unfolding positions_def by (metis filter_map length_map)
qed

lemma response_hint_ok:
  assumes "h = response_hint p wcs2 ct0" and "length (filter (\<lambda>b. b = 1) (concat h)) \<le> p_omega p" and "p_omega p < 256"
  shows "hint_ok (p_omega p) (p_k p) h"
proof -
  have rows: "length row = NN \<and> set row \<subseteq> {0, 1}" if "row \<in> set h" for row
    using that by (auto simp: assms(1) response_hint_def Let_def)
  then have "map (\<lambda>row. length (positions row)) h = map (\<lambda>row. length (filter (\<lambda>b. b = 1) row)) h"
    using positions_count by simp
  then have "sum_list (map (\<lambda>row. length (positions row)) h) = sum_list (map (\<lambda>row. length (filter (\<lambda>b. b = 1) row)) h)"
    by (rule arg_cong)
  then have "length (all_positions h) = length (filter (\<lambda>b. b = 1) (concat h))"
    by (simp add: all_positions_def length_concat filter_concat comp_def)
  then show ?thesis
    using rows assms by (simp add: hint_ok_def list_all_iff) (simp add: response_hint_def)
qed

lemma sampleInBall_challenge:
  "sampleInBall ctilde (p_tau p) = Some c \<Longrightarrow> good_param p \<Longrightarrow> challenge_ok p c"
  using sampleInBall_inv [of ctilde "p_tau p" c] by (simp add: good_param_def ball_inv_def challenge_ok_def)

lemma fold_no_difference: "fold (\<lambda>i diff. diff) is d = d"
  by (induction "is") simp_all

lemma sign_attempt_SomeD:
  assumes "sign_attempt p A mu rhoPP s1hat s2hat t0hat kappa = Some (Some sig)"
  obtains y ctilde c z h where "y = expandMask rhoPP kappa (p_l p) (p_gamma1 p)"
    and "ctilde = shake256Sum (ctBytes p) (cat [mu, pack_w1 p (high_vec p (commitment p A y))])"
    and "sampleInBall ctilde (p_tau p) = Some c"
    and "response p c s1hat s2hat t0hat y (commitment p A y) = Some (z, h)"
    and "sig = ctilde @ concat (map (\<lambda>j. bitPack (z ! j) (p_gamma1 p) (zbits p)) [0..<p_l p]) @
      hintPack h (p_omega p) (p_k p)"
proof -
  define y where "y = expandMask rhoPP kappa (p_l p) (p_gamma1 p)"
  define ctilde where "ctilde = shake256Sum (ctBytes p) (cat [mu, pack_w1 p (high_vec p (commitment p A y))])"
  note run = assms [unfolded sign_attempt_def Let_def, folded y_def, folded ctilde_def]
  from run obtain c where c: "sampleInBall ctilde (p_tau p) = Some c" by (cases "sampleInBall ctilde (p_tau p)") simp_all
  from run obtain z h where r: "response p c s1hat s2hat t0hat y (commitment p A y) = Some (z, h)"
    by (cases "response p c s1hat s2hat t0hat y (commitment p A y)") (auto simp: c)
  from run have "sig = ctilde @ concat (map (\<lambda>j. bitPack (z ! j) (p_gamma1 p) (zbits p)) [0..<p_l p]) @
      hintPack h (p_omega p) (p_k p)"
    by (simp add: c r split: if_splits)
  with that y_def ctilde_def c r show thesis by blast
qed

lemma attempt_verifies:
  fixes lv :: nat
  defines "p \<equiv> paramFor lv"
  assumes A: "expandA (pk_rho pk) (p_k p) (p_l p) = Some A"
    and k: "key_vectors p A s1 s2 (pk_t1 pk) t0"
    and mu: "mu = shake256Sum 64 (cat [shake256Sum 64 (encodePK p pk), framed ctx msg])"
    and run: "sign_attempt p A mu rhoPP (map nttCopy s1) (map nttCopy s2) (map nttCopy t0) kappa = Some (Some sig)"
  shows "verifyCore p pk msg ctx sig = Some True"
proof -
  from sign_attempt_SomeD [OF run] obtain y ctilde c z h
    where y: "y = expandMask rhoPP kappa (p_l p) (p_gamma1 p)"
    and ct: "ctilde = shake256Sum (ctBytes p) (cat [mu, pack_w1 p (high_vec p (commitment p A y))])"
    and c: "sampleInBall ctilde (p_tau p) = Some c"
    and r: "response p c (map nttCopy s1) (map nttCopy s2) (map nttCopy t0) y (commitment p A y) = Some (z, h)"
    and sig: "sig = ctilde @ concat (map (\<lambda>j. bitPack (z ! j) (p_gamma1 p) (zbits p)) [0..<p_l p]) @
      hintPack h (p_omega p) (p_k p)" by blast
  note good = paramFor_good [of lv, folded p_def] and facts = paramFor_facts [of lv, folded p_def]
  note d = response_SomeD [OF r]
  have ylen: "length y = p_l p" "list_all (\<lambda>s. length s = NN) y" by (simp_all add: y expandMask_polys)
  have lz: "length z = p_l p" by (simp add: d(1) response_z_def)
  have zr: "list_all (in_range (\<lambda>c. p_gamma1 p - c) (zbits p)) z"
    using response_z_packs [OF facts(2,5)] d(1,2) by simp
  note zv = z_vec [OF facts(2) zr lz]
  have hok: "hint_ok (p_omega p) (p_k p) h" by (rule response_hint_ok [OF d(5,6) facts(3)])
  note hv = hint_unpack_pack(1) [OF hok, of "[]", simplified] hint_unpack_pack(2) [OF hok]
  have lct: "length ctilde = ctBytes p" by (simp add: ct)
  have w1: "verifier_w1 p A (pk_t1 pk) c z h = high_vec p (commitment p A y)"
    by (rule response_verifies [OF good k sampleInBall_challenge [OF c good] ylen r])
  show ?thesis
    unfolding verifyCore_def Let_def sig
    using zv hv lct d(2) by (simp add: A c w1 mu [symmetric] ct [symmetric] fold_no_difference)
qed

lemma sign_loop_SomeD:
  "sign_loop f ks = Some (Some sig) \<Longrightarrow> \<exists>kappa. f kappa = Some (Some sig)"
  by (induction ks) (auto split: option.splits)

lemma signCore_verifies:
  fixes lv :: nat
  defines "p \<equiv> paramFor lv"
  assumes key: "keyGenInternal p xi = Some (pk, sk)" and run: "signCore p sk msg ctx rnd = Some (Some sig)"
  shows "verifyCore p pk msg ctx sig = Some True"
proof -
  from keyGen_SomeD [OF key paramFor_facts(1) [of lv, folded p_def]] obtain A
    where A: "expandA (pk_rho pk) (p_k p) (p_l p) = Some A"
    and k: "key_vectors p A (sk_s1 sk) (sk_s2 sk) (pk_t1 pk) (sk_t0 sk)"
    and sk: "sk_rho sk = pk_rho pk" "sk_tr sk = shake256Sum 64 (encodePK p pk)" by blast
  define mu where "mu = shake256Sum 64 (cat [shake256Sum 64 (encodePK p pk), framed ctx msg])"
  from run obtain kappa where "sign_attempt p A mu (shake256Sum 64 (cat [sk_key sk, rnd, mu]))
      (map nttCopy (sk_s1 sk)) (map nttCopy (sk_s2 sk)) (map nttCopy (sk_t0 sk)) kappa = Some (Some sig)"
    unfolding signCore_def Let_def sk mu_def [symmetric] A bind.bind_lunit using sign_loop_SomeD by blast
  from attempt_verifies [of pk lv, folded p_def, OF A k mu_def this] show ?thesis .
qed

section \<open>The serialised interface\<close>

text \<open>A session: generate a key pair, sign with the secret key, verify with the public key.\<close>

definition sign_session :: "(nat \<Rightarrow> u32) \<Rightarrow> (nat \<Rightarrow> u32) \<Rightarrow> nat \<Rightarrow> bytes \<Rightarrow> bytes \<Rightarrow> bool option option option" where
  "sign_session rd rd' levelEnum msg ctx =
     do {
       (pk, sk) \<leftarrow> GenerateKeyPair rd levelEnum;
       sig \<leftarrow> Sign rd' levelEnum sk msg ctx;
       Some (map_option (Verify levelEnum pk msg ctx) sig)
     }"

lemma session_result:
  assumes "GenerateKeyPair rd lv = Some (pk, sk)" and "Sign rd' lv sk msg ctx = Some (Some sig)"
  shows "Verify lv pk msg ctx sig = Some True"
proof -
  let ?p = "paramFor (levelFromEnum lv)"
  obtain pk' sk' where key: "keyGenInternal ?p (randomBytes rd 32) = Some (pk', sk')"
    and e: "pk = encodePK ?p pk'" "sk = encodeSK ?p sk'"
    using assms(1) unfolding GenerateKeyPair_def Let_def
    by (cases "keyGenInternal ?p (randomBytes rd 32)") auto
  note eta = paramFor_facts(1) [of "levelFromEnum lv"]
  from keyGen_SomeD [OF key eta] have ok: "pk_ok ?p pk'" "sk_ok ?p sk'" by blast+
  from assms(2) have "signCore ?p sk' msg ctx (randomBytes rd' 32) = Some (Some sig)"
    by (simp add: Sign_def e decode_encode_SK [OF ok(2) eta])
  from signCore_verifies [OF key this] show ?thesis by (simp add: Verify_def e decode_encode_PK [OF ok(1)])
qed

text \<open>
  C8. Verification accepts what signing produces: for every security level, every randomness of
  key generation and of signing, every message and context, the session of key generation, signing
  and verification through the byte interface either does not reach a signature (the sampling loops
  do not return, or all 1000 signing attempts were rejected) or verification returns and accepts.
\<close>

theorem signatures_verify:
  "sign_session rd rd' levelEnum msg ctx \<in> {None, Some None, Some (Some (Some True))}"
proof (cases "GenerateKeyPair rd levelEnum")
  case (Some ks)
  obtain pk sk where ks: "ks = (pk, sk)" by fastforce
  show ?thesis
  proof (cases "Sign rd' levelEnum sk msg ctx")
    case run: (Some r)
    then show ?thesis
      using Some ks session_result [of rd levelEnum pk sk rd' msg ctx]
      by (cases r) (simp_all add: sign_session_def)
  qed (simp add: sign_session_def Some ks)
qed (simp add: sign_session_def)

text \<open>
  C10. The keys that key generation hands out are well-formed: for every security level and every
  randomness, the serialised keys have the sizes of the parameter set, decoding accepts them, and the
  decoded keys have 32-byte seeds, high parts of 10 bits, secrets bounded by \<open>eta\<close> and low parts of at
  most \<open>2 ^ 12\<close>.
\<close>

theorem generated_keys_typed:
  "case GenerateKeyPair rd levelEnum of None \<Rightarrow> True
   | Some (pk, sk) \<Rightarrow>
       (let p = paramFor (levelFromEnum levelEnum)
        in length pk = 32 + p_k p * 320 \<and> length sk = 128 + (p_l p + p_k p) * (32 * bitlen (2 * p_eta p)) + p_k p * 416 \<and>
           (case decodePK p pk of None \<Rightarrow> False | Some k \<Rightarrow> pk_ok p k) \<and>
           (case decodeSK p sk of None \<Rightarrow> False | Some k \<Rightarrow> sk_ok p k))"
proof (cases "GenerateKeyPair rd levelEnum")
  case (Some ks)
  let ?p = "paramFor (levelFromEnum levelEnum)"
  obtain pk' sk' where key: "keyGenInternal ?p (randomBytes rd 32) = Some (pk', sk')"
    and e: "ks = (encodePK ?p pk', encodeSK ?p sk')"
    using Some unfolding GenerateKeyPair_def Let_def
    by (cases "keyGenInternal ?p (randomBytes rd 32)") auto
  note eta = paramFor_facts(1) [of "levelFromEnum levelEnum"]
  from keyGen_SomeD [OF key eta] have ok: "pk_ok ?p pk'" "sk_ok ?p sk'" by blast+
  note dec = decode_encode_PK [OF ok(1)] decode_encode_SK [OF ok(2) eta]
  have "length (encodePK ?p pk') = 32 + p_k ?p * 320"
    using dec(1) by (simp add: decodePK_def NN_def Let_def split: if_splits)
  moreover have "length (encodeSK ?p sk') = 128 + (p_l ?p + p_k ?p) * (32 * bitlen (2 * p_eta ?p)) + p_k ?p * 416"
    using dec(2) by (simp add: decodeSK_def NN_def DD_def Let_def split: if_splits)
  ultimately show ?thesis using dec ok by (simp add: Some e Let_def)
qed simp

end
