(* ===== verification/Selftest.thy ===== *)
theory Selftest
  imports MldsaSignVerify
begin

text \<open>
  Model of the standalone program \<^verbatim>\<open>BHC/tools/mldsa_fips204_selftest.cpp\<close>, from which the header \<^verbatim>\<open>mldsa_fips204.h\<close> was made.
  Its Keccak, sampling, packing, rounding and scalar functions are the text of the header, up to the names of
  constants, and are taken from the theories on the header. The rest differs and is translated here loop by loop, with the assignments to
  arrays as list updates: the tables of roots are global arrays of zeros until \<^verbatim>\<open>initTables\<close> has run, keys are not
  serialised, messages have no context, and \<^verbatim>\<open>main\<close> runs the tests.
\<close>

section \<open>Tables and transforms\<close>

record tables =
  tb_zetas :: "int list"
  tb_ninv :: int

definition zero_tables :: tables where
  "zero_tables = \<lparr>tb_zetas = replicate NN 0, tb_ninv = 0\<rparr>"

definition initTables :: "tables \<Rightarrow> tables" where
  "initTables T =
     (let T = fold (\<lambda>i T. T\<lparr>tb_zetas := (tb_zetas T)[i := modPow ROOT_ZETA (bitrev8 i) Q]\<rparr>) [0..<NN] T
      in T\<lparr>tb_ninv := modPow (int NN) (nat (Q - 2)) Q\<rparr>)"

definition st_nttForward :: "tables \<Rightarrow> Poly \<Rightarrow> Poly" where
  "st_nttForward T a =
     snd (fold (\<lambda>len s.
       fold (\<lambda>start (kk, a).
         let kk = kk + 1; zeta = tb_zetas T ! kk
         in (kk, fold (\<lambda>j a.
               let t = crem (zeta * a ! (j + len)) Q;
                   a = a[j + len := modQ (a ! j - t)]
               in a[j := modQ (a ! j + t)]) [start..<start + len] a))
         (for_list 0 NN (2 * len)) s) (halvings 128) (0, a))"

definition st_nttInverse :: "tables \<Rightarrow> Poly \<Rightarrow> Poly" where
  "st_nttInverse T a =
     (let a = snd (fold (\<lambda>len s.
            fold (\<lambda>start (kk, a).
              let kk = kk - 1; zeta = Q - tb_zetas T ! kk
              in (kk, fold (\<lambda>j a.
                    let t = a ! j;
                        a = a[j := modQ (t + a ! (j + len))];
                        a = a[j + len := modQ (t - a ! (j + len))]
                    in a[j + len := crem (zeta * a ! (j + len)) Q]) [start..<start + len] a))
              (for_list 0 NN (2 * len)) s) (doublings 1 NN) (NN, a))
      in fold (\<lambda>j a. a[j := crem (tb_ninv T * a ! j) Q]) [0..<NN] a)"

definition st_nttCopy :: "tables \<Rightarrow> Poly \<Rightarrow> Poly" where
  "st_nttCopy T a = st_nttForward T a"

section \<open>Key generation\<close>

text \<open>Assignment to an entry of an array of polynomials, and of the result of a loop that may not end.\<close>

definition set2 :: "nat \<Rightarrow> nat \<Rightarrow> int \<Rightarrow> PolyVec \<Rightarrow> PolyVec" where
  "set2 i c x m = m[i := (m ! i)[c := x]]"

definition set_opt :: "nat \<Rightarrow> 'a option \<Rightarrow> 'a list option \<Rightarrow> 'a list option" where
  "set_opt i x v = Option.bind v (\<lambda>v. Option.bind x (\<lambda>x. Some (v[i := x])))"

definition expandA_row :: "bytes \<Rightarrow> nat \<Rightarrow> nat \<Rightarrow> Poly list option" where
  "expandA_row rho k l =
     fold (\<lambda>r all. fold (\<lambda>s all. set_opt (r * l + s) (rejNTTPoly rho (word_of_nat s) (word_of_nat r)) all) [0..<l] all)
       [0..<k] (Some (replicate (k * l) zero_poly))"

definition st_keyGen :: "tables \<Rightarrow> Param \<Rightarrow> bytes \<Rightarrow> (PublicKey \<times> SecretKey) option" where
  "st_keyGen T p xi =
     (let seedIn = cat [xi, [word_of_nat (p_k p), word_of_nat (p_l p)]];
          expanded = shake256Sum 128 seedIn;
          rho = take 32 expanded;
          rhoP = take 64 (drop 32 expanded);
          K = take 32 (drop 96 expanded)
      in do {
           A \<leftarrow> expandA_row rho (p_k p) (p_l p);
           s1 \<leftarrow> fold (\<lambda>i. set_opt i (rejBoundedPoly rhoP (word_of_nat i) (p_eta p))) [0..<p_l p] (Some (replicate (p_l p) zero_poly));
           s2 \<leftarrow> fold (\<lambda>i. set_opt i (rejBoundedPoly rhoP (word_of_nat (p_l p + i)) (p_eta p))) [0..<p_k p] (Some (replicate (p_k p) zero_poly));
           let s1hat = fold (\<lambda>j v. v[j := st_nttCopy T (s1 ! j)]) [0..<p_l p] (replicate (p_l p) zero_poly);
           let (t1, t0) = fold (\<lambda>i (t1, t0).
                 let acc = fold (\<lambda>j acc. polyAddInto acc (pointwise (A ! (i * p_l p + j)) (s1hat ! j))) [0..<p_l p] zero_poly;
                     acc = polyAddInto (st_nttInverse T acc) (s2 ! i)
                 in fold (\<lambda>c (t1, t0). case power2Round (acc ! c) of (r1, r0) \<Rightarrow> (set2 i c r1 t1, set2 i c r0 t0)) [0..<NN] (t1, t0))
               [0..<p_k p] (replicate (p_k p) zero_poly, replicate (p_k p) zero_poly);
           let pk = \<lparr>pk_rho = rho, pk_t1 = t1\<rparr>;
           let tr = shake256Sum 64 (encodePK p pk);
           Some (pk, \<lparr>sk_rho = rho, sk_key = K, sk_tr = tr, sk_s1 = s1, sk_s2 = s2, sk_t0 = t0\<rparr>)
         })"

section \<open>Signing\<close>

definition st_framed :: "bytes \<Rightarrow> bytes" where
  "st_framed msg = [0x00, 0x00] @ msg"

text \<open>The commitment and its high bits, which are one loop in the code.\<close>

definition st_commit :: "tables \<Rightarrow> Param \<Rightarrow> Poly list \<Rightarrow> PolyVec \<Rightarrow> PolyVec \<times> PolyVec" where
  "st_commit T p A y =
     (let yhat = fold (\<lambda>j v. v[j := st_nttCopy T (y ! j)]) [0..<p_l p] (replicate (p_l p) zero_poly)
      in fold (\<lambda>i (w1, w).
           let acc = fold (\<lambda>j acc. polyAddInto acc (pointwise (A ! (i * p_l p + j)) (yhat ! j))) [0..<p_l p] zero_poly;
               acc = st_nttInverse T acc;
               w = w[i := acc]
           in (fold (\<lambda>c. set2 i c (highBits (acc ! c) (p_gamma2 p))) [0..<NN] w1, w))
         [0..<p_k p] (replicate (p_k p) zero_poly, replicate (p_k p) zero_poly))"

definition st_pack_w1 :: "Param \<Rightarrow> PolyVec \<Rightarrow> bytes" where
  "st_pack_w1 p w1 = fold (\<lambda>i out. out @ simpleBitPack (w1 ! i) (w1bits p)) [0..<p_k p] []"

definition st_z :: "tables \<Rightarrow> Param \<Rightarrow> Poly \<Rightarrow> Poly list \<Rightarrow> PolyVec \<Rightarrow> PolyVec" where
  "st_z T p chat s1hat y =
     fold (\<lambda>j z.
       let cs1 = st_nttInverse T (pointwise chat (s1hat ! j))
       in fold (\<lambda>cc. set2 j cc (centered (modQ (y ! j ! cc + cs1 ! cc)))) [0..<NN] z) [0..<p_l p] (replicate (p_l p) zero_poly)"

text \<open>A loop variable that keeps the largest absolute value seen.\<close>

definition keep_max :: "int \<Rightarrow> int \<Rightarrow> int" where
  "keep_max x mx = (let a = (if x < 0 then - x else x) in if a > mx then a else mx)"

definition st_wcs2 :: "tables \<Rightarrow> Param \<Rightarrow> Poly \<Rightarrow> Poly list \<Rightarrow> PolyVec \<Rightarrow> PolyVec \<times> int" where
  "st_wcs2 T p chat s2hat w =
     fold (\<lambda>i s.
       let cs2 = st_nttInverse T (pointwise chat (s2hat ! i))
       in fold (\<lambda>cc (wcs2, r0norm).
            let wcs2 = set2 i cc (modQ (w ! i ! cc - cs2 ! cc)) wcs2
            in (wcs2, keep_max (lowBits (wcs2 ! i ! cc) (p_gamma2 p)) r0norm)) [0..<NN] s)
       [0..<p_k p] (replicate (p_k p) zero_poly, 0)"

definition st_hint :: "tables \<Rightarrow> Param \<Rightarrow> Poly \<Rightarrow> Poly list \<Rightarrow> PolyVec \<Rightarrow> PolyVec \<times> int \<times> nat" where
  "st_hint T p chat t0hat wcs2 =
     fold (\<lambda>i s.
       let ct0 = st_nttInverse T (pointwise chat (t0hat ! i))
       in fold (\<lambda>cc (h, ct0norm, hintCount).
            let ct0norm = keep_max (centered (modQ (ct0 ! cc))) ct0norm;
                hi1 = highBits (modQ (wcs2 ! i ! cc + ct0 ! cc)) (p_gamma2 p);
                hi2 = highBits (wcs2 ! i ! cc) (p_gamma2 p)
            in if hi1 \<noteq> hi2 then (set2 i cc 1 h, ct0norm, hintCount + 1) else (h, ct0norm, hintCount)) [0..<NN] s)
       [0..<p_k p] (replicate (p_k p) zero_poly, 0, 0)"

text \<open>One pass of the loop over \<open>kappa\<close>; \<open>Some None\<close> is a \<^verbatim>\<open>continue\<close>.\<close>

definition st_attempt ::
  "tables \<Rightarrow> Param \<Rightarrow> Poly list \<Rightarrow> bytes \<Rightarrow> bytes \<Rightarrow> Poly list \<Rightarrow> Poly list \<Rightarrow> Poly list \<Rightarrow> nat \<Rightarrow> bytes option option" where
  "st_attempt T p A mu rhoPP s1hat s2hat t0hat kappa =
     (let y = expandMask rhoPP kappa (p_l p) (p_gamma1 p);
          (w1, w) = st_commit T p A y;
          ctilde = shake256Sum (ctBytes p) (cat [mu, st_pack_w1 p w1])
      in do {
           c \<leftarrow> sampleInBall ctilde (p_tau p);
           let chat = st_nttCopy T c;
           let z = st_z T p chat s1hat y;
           Some (if polyVecInfNorm z \<ge> p_gamma1 p - p_beta p then None
                 else let (wcs2, r0norm) = st_wcs2 T p chat s2hat w
                      in if r0norm \<ge> p_gamma2 p - p_beta p then None
                         else let (h, ct0norm, hintCount) = st_hint T p chat t0hat wcs2
                              in if ct0norm \<ge> p_gamma2 p then None
                                 else if hintCount > p_omega p then None
                                 else let sig = ctilde;
                                          sig = fold (\<lambda>j sig. sig @ bitPack (z ! j) (p_gamma1 p) (zbits p)) [0..<p_l p] sig;
                                          hb = hintPack h (p_omega p) (p_k p)
                                      in if hb = [] then None else Some (sig @ hb))
         })"

text \<open>The signature, or the empty vector after a thousand passes.\<close>

definition st_sign :: "tables \<Rightarrow> Param \<Rightarrow> SecretKey \<Rightarrow> bytes \<Rightarrow> bytes \<Rightarrow> bytes option" where
  "st_sign T p sk msg rnd =
     do {
       A \<leftarrow> expandA_row (sk_rho sk) (p_k p) (p_l p);
       let mu = shake256Sum 64 (cat [sk_tr sk, st_framed msg]);
       let rhoPP = shake256Sum 64 (cat [sk_key sk, rnd, mu]);
       let s1hat = fold (\<lambda>j v. v[j := st_nttCopy T (sk_s1 sk ! j)]) [0..<p_l p] (replicate (p_l p) zero_poly);
       let (s2hat, t0hat) = fold (\<lambda>i (s2hat, t0hat). (s2hat[i := st_nttCopy T (sk_s2 sk ! i)], t0hat[i := st_nttCopy T (sk_t0 sk ! i)]))
             [0..<p_k p] (replicate (p_k p) zero_poly, replicate (p_k p) zero_poly);
       r \<leftarrow> sign_loop (st_attempt T p A mu rhoPP s1hat s2hat t0hat) (for_list 0 (1000 * p_l p) (p_l p));
       Some (case r of None \<Rightarrow> [] | Some sig \<Rightarrow> sig)
     }"

section \<open>Verification\<close>

definition st_verifier_w1 :: "tables \<Rightarrow> Param \<Rightarrow> Poly list \<Rightarrow> PolyVec \<Rightarrow> Poly \<Rightarrow> PolyVec \<Rightarrow> PolyVec \<Rightarrow> bytes" where
  "st_verifier_w1 T p A t1 c z h =
     (let chat = st_nttCopy T c;
          zhat = fold (\<lambda>j v. v[j := st_nttCopy T (z ! j)]) [0..<p_l p] (replicate (p_l p) zero_poly);
          t1hat = fold (\<lambda>i v.
            let scaled = fold (\<lambda>cc scaled. scaled[cc := modQ (t1 ! i ! cc * 2 ^ DD)]) [0..<NN] (replicate NN 0)
            in v[i := st_nttCopy T scaled]) [0..<p_k p] (replicate (p_k p) zero_poly)
      in fold (\<lambda>i out.
           let acc = fold (\<lambda>j acc. polyAddInto acc (pointwise (A ! (i * p_l p + j)) (zhat ! j))) [0..<p_l p] zero_poly;
               ct1 = pointwise chat (t1hat ! i);
               acc = fold (\<lambda>cc acc. acc[cc := modQ (acc ! cc - ct1 ! cc)]) [0..<NN] acc;
               acc = st_nttInverse T acc;
               w1 = fold (\<lambda>cc w1. w1[cc := useHint (h ! i ! cc) (acc ! cc) (p_gamma2 p)]) [0..<NN] (replicate NN 0)
           in out @ simpleBitPack w1 (w1bits p)) [0..<p_k p] [])"

definition st_verify :: "tables \<Rightarrow> Param \<Rightarrow> PublicKey \<Rightarrow> bytes \<Rightarrow> bytes \<Rightarrow> bool option" where
  "st_verify T p pk msg sig =
     (let zBytesPerPoly = NN * zbits p div 8;
          sigSize = ctBytes p + p_l p * zBytesPerPoly + p_omega p + p_k p
      in if length sig \<noteq> sigSize then Some False
         else let ctilde = take (ctBytes p) sig;
                  (off, z) = fold (\<lambda>j (off, z). (off + zBytesPerPoly,
                        z[j := bitUnpack (take zBytesPerPoly (drop off sig)) (p_gamma1 p) (zbits p)]))
                      [0..<p_l p] (ctBytes p, replicate (p_l p) zero_poly)
              in (case hintUnpack (drop off sig) (p_omega p) (p_k p) of
                    None \<Rightarrow> Some False
                  | Some h \<Rightarrow>
                      if polyVecInfNorm z \<ge> p_gamma1 p - p_beta p then Some False
                      else do {
                             A \<leftarrow> expandA_row (pk_rho pk) (p_k p) (p_l p);
                             let tr = shake256Sum 64 (encodePK p pk);
                             let mu = shake256Sum 64 (cat [tr, st_framed msg]);
                             c \<leftarrow> sampleInBall ctilde (p_tau p);
                             let ctildePrime = shake256Sum (ctBytes p) (cat [mu, st_verifier_w1 T p A (pk_t1 pk) c z h]);
                             Some (if length ctildePrime \<noteq> length ctilde then False
                                   else fold (\<lambda>i diff. diff OR (ctilde ! i XOR ctildePrime ! i)) [0..<length ctilde] 0 = 0)
                           }))"

section \<open>The tests\<close>

definition schoolbookMul :: "Poly \<Rightarrow> Poly \<Rightarrow> Poly" where
  "schoolbookMul a b =
     (let c = fold (\<lambda>i c. fold (\<lambda>j c. c[i + j := c ! (i + j) + crem (a ! i * b ! j) Q]) [0..<NN] c) [0..<NN] (replicate (2 * NN) 0)
      in map (\<lambda>i. modQ (c ! i - c ! (i + NN))) [0..<NN])"

definition ntt_test :: "tables \<Rightarrow> Poly \<Rightarrow> Poly \<Rightarrow> bool" where
  "ntt_test T a b =
     (let want = schoolbookMul a b;
          got = st_nttInverse T (pointwise (st_nttCopy T a) (st_nttCopy T b))
      in list_all (\<lambda>i. modQ (got ! i) = want ! i) [0..<NN])"

record level_line =
  ll_level :: nat
  ll_sig_size :: nat
  ll_exp_size :: nat
  ll_verify :: bool
  ll_tamper_rejected :: bool
  ll_wrong_rejected :: bool

definition level_test :: "tables \<Rightarrow> nat \<Rightarrow> level_line option" where
  "level_test T level =
     (let p = paramFor level;
          xi = map (\<lambda>i. word_of_nat (i + level)) [0..<32];
          msg = map (\<lambda>i. 0xA0 XOR word_of_nat i) [0..<32];
          rnd = replicate 32 0;
          expSize = ctBytes p + p_l p * (NN * bitlen (nat (2 * p_gamma1 p - 1)) div 8) + p_omega p + p_k p
      in do {
           (pk, sk) \<leftarrow> st_keyGen T p xi;
           sig \<leftarrow> st_sign T p sk msg rnd;
           let ok = (sig \<noteq> [] \<and> length sig = expSize);
           v \<leftarrow> (if ok then st_verify T p pk msg sig else Some False);
           let bad = (if sig \<noteq> [] then sig[100 := sig ! 100 XOR 0xFF] else sig);
           b \<leftarrow> (if ok then st_verify T p pk msg bad else Some True);
           let wrong = msg[0 := msg ! 0 XOR 0xFF];
           u \<leftarrow> (if ok then st_verify T p pk wrong sig else Some True);
           Some \<lparr>ll_level = level, ll_sig_size = length sig, ll_exp_size = expSize, ll_verify = v,
                 ll_tamper_rejected = (ok \<and> \<not> b), ll_wrong_rejected = (ok \<and> \<not> u)\<rparr>
         })"

text \<open>What is printed and the exit code.\<close>

definition selftest_main :: "(bool \<times> level_line list \<times> int) option" where
  "selftest_main =
     (let T = initTables zero_tables;
          a = map (\<lambda>i. (int i * 7 + 3) mod Q) [0..<NN];
          b = map (\<lambda>i. (int i * 13 + 5) mod Q) [0..<NN];
          nttOK = ntt_test T a b
      in do {
           lines \<leftarrow> those (map (level_test T) [44, 65, 87]);
           let allOK = fold (\<lambda>l ok. if \<not> (ll_verify l \<and> ll_tamper_rejected l \<and> ll_wrong_rejected l \<and>
                 (ll_sig_size l \<noteq> 0 \<and> ll_sig_size l = ll_exp_size l)) then False else ok) lines True;
           Some (nttOK, lines, if allOK then 0 else 1)
         })"

end
