(* ===== verification/SelftestProofs.thy ===== *)
theory SelftestProofs
  imports Selftest
begin

text \<open>
  The standalone program computes what the header computes: its loops are the maps of the model of the
  header, once the tables have been initialised, and its tests of the transform and of valid signatures succeed.
\<close>

section \<open>Loops that fill arrays\<close>

lemma fill_all:
  assumes "length v = n"
  shows "fold (\<lambda>i v. v[i := f i]) [0..<n] v = map f [0..<n]"
  using fold_list_update_range [of 0 n v f] assms by simp

lemma map_all:
  assumes "length v = n"
  shows "fold (\<lambda>i v. v[i := f i (v ! i)]) [0..<n] v = map (\<lambda>i. f i (v ! i)) [0..<n]"
proof -
  have "fold (\<lambda>i v. v[i := f i (v ! i)]) [0..<m] v = map (\<lambda>i. f i (v ! i)) [0..<m] @ drop m v" if "m \<le> n" for m
    using that
  proof (induction m)
    case (Suc m)
    then have "drop m v = v ! m # drop (Suc m) v" using assms by (simp add: Cons_nth_drop_Suc)
    with Suc show ?case by (simp add: list_update_append nth_append)
  qed simp
  from this [of n] assms show ?thesis by simp
qed

lemma append_all: "fold (\<lambda>i out. out @ f i) xs s = s @ concat (map f xs)"
  by (induction xs arbitrary: s) simp_all

lemma fold_pair: "fold (\<lambda>i (a, b). (f i a, g i b)) xs (a, b) = (fold f xs a, fold g xs b)"
  by (induction xs arbitrary: a b) simp_all

lemma fold_triple: "fold (\<lambda>i (a, b, c). (f i a, g i b, h i c)) xs (a, b, c) = (fold f xs a, fold g xs b, fold h xs c)"
  by (induction xs arbitrary: a b c) simp_all

lemma fold_concat: "fold f (concat xss) s = fold (fold f) xss s"
  by (induction xss arbitrary: s) simp_all

text \<open>A loop over the indices \<open>g x\<close>, which run through the array in order, of results that may not exist.\<close>

lemma set_opt_simps [simp]: "set_opt i x None = None" "set_opt i None v = None" "set_opt i (Some y) (Some u) = Some (u[i := y])"
  by (cases v; simp add: set_opt_def)+

lemma fill_opt:
  assumes "map g xs = [0..<n]"
  shows "fold (\<lambda>x. set_opt (g x) (f x)) xs (Some (replicate n d)) = those (map f xs)"
proof -
  have step: "fold (\<lambda>x. set_opt (g x) (f x)) ys (Some (us @ replicate (length ys) d)) = map_option ((@) us) (those (map f ys))"
    if "map g ys = [length us..<length us + length ys]" for ys us
    using that
  proof (induction ys arbitrary: us)
    case (Cons y ys)
    then have g: "g y = length us" "map g ys = [length (us @ [z])..<length (us @ [z]) + length ys]" for z
      by (simp_all add: upt_rec)
    show ?case
    proof (cases "f y")
      case None
      have "fold (\<lambda>x. set_opt (g x) (f x)) ys None = None" by (induction ys) simp_all
      with None show ?thesis by simp
    next
      case (Some z)
      then have "fold (\<lambda>x. set_opt (g x) (f x)) (y # ys) (Some (us @ replicate (length (y # ys)) d))
          = fold (\<lambda>x. set_opt (g x) (f x)) ys (Some ((us @ [z]) @ replicate (length ys) d))"
        by (simp add: g(1))
      also have "\<dots> = map_option ((@) (us @ [z])) (those (map f ys))" by (rule Cons.IH [OF g(2)])
      finally show ?thesis using Some by (cases "those (map f ys)") simp_all
    qed
  qed simp
  have "length xs = n" using arg_cong [OF assms, of length] by simp
  with step [of xs "[]"] assms show ?thesis by (cases "those (map f xs)") simp_all
qed

text \<open>A loop that assigns the rows of an array of polynomials one after the other, with another variable \<open>s\<close>.\<close>

lemma fill_row:
  assumes "i < length m" and "n \<le> NN" and "length (m ! i) = NN"
  shows "fold (\<lambda>c. set2 i c (f c)) [0..<n] m = m[i := map f [0..<n] @ drop n (m ! i)]"
  using assms(2)
proof (induction n)
  case (Suc n)
  then have "drop n (m ! i) = m ! i ! n # drop (Suc n) (m ! i)" using assms(3) by (simp add: Cons_nth_drop_Suc)
  with Suc assms(1) show ?case by (simp add: set2_def list_update_append)
qed (simp add: assms)

lemma fill_rows:
  assumes row: "\<And>i m s. i < k \<Longrightarrow> length m = k \<Longrightarrow> m ! i = zero_poly \<Longrightarrow> I i s \<Longrightarrow> body i (m, s) = (m[i := R i], S i s) \<and> I (Suc i) (S i s)"
    and "I 0 s"
  shows "fold body [0..<k] (replicate k zero_poly, s) = (map R [0..<k], fold S [0..<k] s)"
proof -
  have "fold body [0..<n] (replicate k zero_poly, s) = (map R [0..<n] @ replicate (k - n) zero_poly, fold S [0..<n] s) \<and> I n (fold S [0..<n] s)"
    if "n \<le> k" for n
    using that
  proof (induction n)
    case 0
    then show ?case using assms(2) by simp
  next
    case (Suc n)
    then obtain j where j: "k - n = Suc j" "k - Suc n = j" by (metis Suc_diff_Suc Suc_le_lessD)
    let ?m = "map R [0..<n] @ replicate (k - n) zero_poly"
    have "body n (?m, fold S [0..<n] s) = (?m[n := R n], S n (fold S [0..<n] s)) \<and> I (Suc n) (S n (fold S [0..<n] s))"
      using Suc j by (intro row) (simp_all add: nth_append)
    moreover have "?m[n := R n] = map R [0..<Suc n] @ replicate (k - Suc n) zero_poly" by (simp add: list_update_append j)
    ultimately show ?case using Suc by simp
  qed
  from this [of k] show ?thesis by simp
qed

lemma full_row:
  "i < length m \<Longrightarrow> length (m ! i) = NN \<Longrightarrow> fold (\<lambda>c. set2 i c (f c)) [0..<NN] m = m[i := map f [0..<NN]]"
  using fill_row [of i m NN f] by simp

lemma fill_rows_only:
  assumes "\<And>i m. i < k \<Longrightarrow> length m = k \<Longrightarrow> m ! i = zero_poly \<Longrightarrow> body i m = m[i := R i]"
  shows "fold body [0..<k] (replicate k zero_poly) = map R [0..<k]"
proof -
  have "fold (\<lambda>i (m, s). (body i m, s)) [0..<k] (replicate k zero_poly, ()) = (map R [0..<k], fold (\<lambda>i s. s) [0..<k] ())"
    by (rule fill_rows [where I = "\<lambda>_ _. True"]) (simp_all add: assms)
  then show ?thesis by (simp add: fold_pair)
qed

text \<open>A loop that also reads back what it has just written.\<close>

lemma fill_row_reading:
  assumes "i < length m" and "length (m ! i) = NN" and "n \<le> NN"
  shows "fold (\<lambda>c (m, s). let m = set2 i c (f c) m in (m, G (m ! i ! c) s)) [0..<n] (m, s)
    = (fold (\<lambda>c. set2 i c (f c)) [0..<n] m, fold (\<lambda>c. G (f c)) [0..<n] s)"
  using assms(3)
proof (induction n)
  case (Suc n)
  then have n: "n \<le> NN" "n < NN" by simp_all
  have "set2 i n (f n) (fold (\<lambda>c. set2 i c (f c)) [0..<n] m) ! i ! n = f n"
    unfolding fill_row [OF assms(1) n(1) assms(2)] using assms n by (simp add: set2_def nth_list_update)
  with Suc show ?case by (simp add: Let_def)
qed simp

text \<open>A loop that sets the marked entries of a row of zeros and counts them.\<close>

lemma mark_row:
  assumes "i < length m" and "m ! i = zero_poly" and "n \<le> NN"
  shows "fold (\<lambda>c m. if P c then set2 i c 1 m else m) [0..<n] m
    = m[i := map (\<lambda>c. if P c then 1 else 0) [0..<n] @ drop n zero_poly]"
  using assms(3)
proof (induction n)
  case 0
  then show ?case using assms(1,2) by (metis drop0 fold_simps(1) list_update_id append_Nil list.simps(8) upt_0)
next
  case (Suc n)
  then have "drop n zero_poly = 0 # drop (Suc n) zero_poly" by (simp add: Cons_nth_drop_Suc [symmetric])
  with Suc assms(1) show ?case by (simp add: set2_def list_update_append)
qed

lemma count_marks: "fold (\<lambda>c n. if P c then n + 1 else n) xs n = n + length (filter P xs)" for n :: nat
  by (induction xs arbitrary: n) simp_all

lemma count_ones: "length (filter (\<lambda>b. b = 1) (map (\<lambda>c. if P c then 1 else 0 :: int) xs)) = length (filter P xs)"
  by (induction xs) simp_all

lemma fold_plus: "fold (\<lambda>i n. n + f i) xs n = n + sum_list (map f xs)" for n :: nat
  by (induction xs arbitrary: n) simp_all

lemma max_abs_rows: "max_abs (concat (map (\<lambda>i. map (f i) [0..<m]) xs)) = fold (\<lambda>i. fold (\<lambda>c. keep_max (f i c)) [0..<m]) xs 0"
  by (simp add: max_abs_def keep_max_def [abs_def, symmetric] fold_concat fold_map comp_def)

section \<open>Tables and transforms\<close>

definition inited :: "tables \<Rightarrow> bool" where
  "inited T \<longleftrightarrow> tb_zetas T = zetas \<and> tb_ninv T = ninv"

lemma initTables_inited: "length (tb_zetas T) = NN \<Longrightarrow> inited (initTables T)"
proof -
  assume l: "length (tb_zetas T) = NN"
  have "fold (\<lambda>i T. T\<lparr>tb_zetas := (tb_zetas T)[i := f i]\<rparr>) xs T = T\<lparr>tb_zetas := fold (\<lambda>i v. v[i := f i]) xs (tb_zetas T)\<rparr>" for f xs and T :: tables
    by (induction xs arbitrary: T) simp_all
  then show ?thesis using fill_all [OF l, of "\<lambda>i. modPow ROOT_ZETA (bitrev8 i) Q"]
    by (simp add: inited_def initTables_def zetas_def ninv_def Let_def)
qed

lemma main_inited: "inited (initTables zero_tables)"
  by (rule initTables_inited) (simp add: zero_tables_def)

lemma forward_tables: "inited T \<Longrightarrow> st_nttForward T a = nttForward a"
  unfolding st_nttForward_def nttForward_def ntt_layer_def [abs_def] ntt_block_def ntt_step_def [abs_def]
  by (simp add: inited_def Let_def cong: fold_cong)

lemma copy_tables: "inited T \<Longrightarrow> st_nttCopy T = nttCopy"
  by (simp add: fun_eq_iff st_nttCopy_def nttCopy_def forward_tables)

lemma length_intt: "length a = NN \<Longrightarrow> length (nttInverse a) = NN"
  by (rule reduced_length [OF reduced_nttInverse])

lemma inverse_tables:
  assumes "inited T" and "length a = NN"
  shows "st_nttInverse T a = nttInverse a"
proof -
  let ?b = "snd (fold intt_layer (doublings 1 NN) (NN, a))"
  have s: "st_nttInverse T a = fold (\<lambda>j a. a[j := crem (ninv * a ! j) Q]) [0..<NN] ?b"
    using assms(1) unfolding st_nttInverse_def intt_layer_def [abs_def] intt_block_def intt_step_def [abs_def]
    by (simp add: inited_def Let_def cong: fold_cong)
  have l: "length ?b = NN" using length_intt [OF assms(2)] by (simp add: nttInverse_def Let_def)
  have "map (\<lambda>i. crem (ninv * ?b ! i) Q) [0..<NN] = map (\<lambda>c. crem (ninv * c) Q) ?b"
    using l by (metis (no_types, lifting) length_map map_nth nth_equalityI nth_map)
  then show ?thesis unfolding s by (subst map_all [OF l]) (simp add: nttInverse_def Let_def)
qed

lemma st_expandA: "expandA_row rho k l = expandA rho k l"
proof -
  let ?f = "\<lambda>(r, s). rejNTTPoly rho (word_of_nat s) (word_of_nat r)" and ?g = "\<lambda>(r, s). r * l + s :: nat"
  let ?xs = "concat (map (\<lambda>r. map (Pair r) [0..<l]) [0..<k])"
  have idx: "map ?g ?xs = [0..<k * l]"
  proof (induction k)
    case (Suc k)
    have "map (\<lambda>s. k * l + s) [0..<l] = [k * l..<k * l + l]"
      using map_add_upt [of "k * l" l] by (simp add: add.commute)
    moreover have "[0..<Suc k * l] = [0..<k * l] @ [k * l..<k * l + l]"
      using upt_add_eq_append [of 0 "k * l" l] by (simp add: add.commute)
    ultimately show ?case using Suc by (simp add: comp_def)
  qed simp
  have "expandA_row rho k l = fold (\<lambda>x. set_opt (?g x) (?f x)) ?xs (Some (replicate (k * l) zero_poly))"
    by (simp add: expandA_row_def fold_concat fold_map comp_def)
  also have "\<dots> = those (map ?f ?xs)" by (rule fill_opt [OF idx])
  also have "map ?f ?xs = concat (map (\<lambda>r. map (\<lambda>s. rejNTTPoly rho (word_of_nat s) (word_of_nat r)) [0..<l]) [0..<k])"
    by (simp add: map_concat comp_def)
  finally show ?thesis by (simp add: expandA_def)
qed

lemma hats: "length xs = n \<Longrightarrow> fold (\<lambda>j v. v[j := nttCopy (xs ! j)]) [0..<n] (replicate n zero_poly) = map nttCopy xs"
  by (subst fill_all) (simp_all add: map_nth_upt)

lemma length_pointwise [simp]: "length (pointwise a b) = NN"
  by (simp add: pointwise_def)

lemma length_row_product [simp]: "length (row_product l A i v) = NN"
  by (rule reduced_length [OF reduced_row_product])

section \<open>Key generation\<close>

lemma st_keyGen_eq:
  assumes T: "inited T"
  shows "st_keyGen T p xi = keyGenInternal p xi"
proof -
  have loop: "fold (\<lambda>i (t1, t0).
        fold (\<lambda>c (t1, t0). case power2Round (a i ! c) of (r1, r0) \<Rightarrow> (set2 i c r1 t1, set2 i c r0 t0)) [0..<NN] (t1, t0))
      [0..<p_k p] (replicate (p_k p) zero_poly, replicate (p_k p) zero_poly)
    = (map (\<lambda>i. map (\<lambda>c. fst (power2Round c)) (a i)) [0..<p_k p], map (\<lambda>i. map (\<lambda>c. snd (power2Round c)) (a i)) [0..<p_k p])"
    (is "fold ?body _ _ = (map ?R1 _, map ?R0 _)") if a: "\<And>i. length (a i) = NN" for a :: "nat \<Rightarrow> Poly"
  proof -
    let ?I = "\<lambda>i s. length s = p_k p \<and> (\<forall>j. i \<le> j \<and> j < p_k p \<longrightarrow> s ! j = zero_poly)"
    have "fold ?body [0..<p_k p] (replicate (p_k p) zero_poly, replicate (p_k p) zero_poly)
        = (map ?R1 [0..<p_k p], fold (\<lambda>i s. s[i := ?R0 i]) [0..<p_k p] (replicate (p_k p) zero_poly))"
    proof (rule fill_rows [where I = ?I])
      fix i m s assume i: "i < p_k p" "length m = p_k p" "m ! i = zero_poly" and I: "?I i s"
      have r: "map (\<lambda>c. g (a i ! c)) [0..<NN] = map g (a i)" for g :: "int \<Rightarrow> int" using map_nth_upt [OF a] .
      have "?body i (m, s) = (m[i := ?R1 i], s[i := ?R0 i])"
        using i I by (simp add: split_beta fold_pair full_row r [of "\<lambda>c. fst (power2Round c)"] r [of "\<lambda>c. snd (power2Round c)"])
      with I show "?body i (m, s) = (m[i := ?R1 i], s[i := ?R0 i]) \<and> ?I (Suc i) (s[i := ?R0 i])" by simp
    qed simp
    then show ?thesis by (simp add: fill_all)
  qed
  let ?ex = "shake256Sum 128 (xi @ [word_of_nat (p_k p), word_of_nat (p_l p)])"
  have those_len: "length v = n" if "those (map f [0..<n]) = Some v" for f n and v :: PolyVec
    using those_map_SomeD [OF that] by simp
  have acc: "length (polyAddInto a b) = NN" for a b by (simp add: polyAddInto_def)
  have c: "cat [xi, [word_of_nat (p_k p), word_of_nat (p_l p)]] = xi @ [word_of_nat (p_k p), word_of_nat (p_l p)]" by (simp add: cat_def)
  have idx: "fold (\<lambda>i. set_opt i (f i)) [0..<n] (Some (replicate n d)) = those (map f [0..<n])" for f n and d :: Poly
    using fill_opt [of "\<lambda>i. i" "[0..<n]" n f d] by simp
  show ?thesis
    unfolding st_keyGen_def keyGenInternal_def Let_def c st_expandA idx copy_tables [OF T] row_product_def [symmetric]
      inverse_tables [OF T length_row_product] loop [OF acc] prod.case
    by (intro bind_option_cong refl) (simp add: hats those_len comp_def)
qed

section \<open>Signing\<close>

lemma st_commit_eq:
  assumes T: "inited T" and y: "length y = p_l p"
  shows "st_commit T p A y = (high_vec p (commitment p A y), commitment p A y)"
proof -
  let ?w = "\<lambda>i. nttInverse (row_product (p_l p) A i (map nttCopy y))"
  have l: "length (?w i) = NN" for i by (simp add: length_intt)
  have "fold (\<lambda>i (w1, w). (fold (\<lambda>c. set2 i c (highBits (?w i ! c) (p_gamma2 p))) [0..<NN] w1, w[i := ?w i]))
      [0..<p_k p] (replicate (p_k p) zero_poly, replicate (p_k p) zero_poly)
    = (map (\<lambda>i. map (\<lambda>c. highBits c (p_gamma2 p)) (?w i)) [0..<p_k p], fold (\<lambda>i w. w[i := ?w i]) [0..<p_k p] (replicate (p_k p) zero_poly))"
    by (rule fill_rows [where I = "\<lambda>_ _. True"]) (simp_all add: full_row map_nth_upt [OF l, of "\<lambda>c. highBits c (p_gamma2 p)"])
  then show ?thesis
    unfolding st_commit_def Let_def copy_tables [OF T] row_product_def [symmetric] inverse_tables [OF T length_row_product] hats [OF y]
    by (simp add: fill_all commitment_def high_vec_def comp_def)
qed

lemma st_pack_w1_eq: "st_pack_w1 = pack_w1"
  by (simp add: fun_eq_iff st_pack_w1_def pack_w1_def append_all)

lemma st_z_eq: "inited T \<Longrightarrow> st_z T p chat s1hat y = response_z p chat s1hat y"
  unfolding st_z_def response_z_def Let_def by (rule fill_rows_only) (simp add: full_row inverse_tables)

lemma st_wcs2_eq:
  assumes T: "inited T"
  shows "st_wcs2 T p chat s2hat w = (let wcs2 = response_wcs2 p chat s2hat w
    in (wcs2, max_abs (concat (map (map (\<lambda>c. lowBits c (p_gamma2 p))) wcs2))))"
proof -
  let ?f = "\<lambda>i cc. modQ (w ! i ! cc - nttInverse (pointwise chat (s2hat ! i)) ! cc)"
  have "st_wcs2 T p chat s2hat w = (map (\<lambda>i. map (?f i) [0..<NN]) [0..<p_k p],
      fold (\<lambda>i. fold (\<lambda>cc. keep_max (lowBits (?f i cc) (p_gamma2 p))) [0..<NN]) [0..<p_k p] 0)"
    unfolding st_wcs2_def Let_def inverse_tables [OF T length_pointwise]
    by (rule fill_rows [where I = "\<lambda>_ _. True"])
      (simp_all add: fill_row_reading [unfolded Let_def, where G = "\<lambda>x. keep_max (lowBits x (p_gamma2 p))"] full_row)
  then show ?thesis by (simp add: response_wcs2_def Let_def max_abs_rows comp_def)
qed

lemma st_hint_eq:
  assumes T: "inited T"
  shows "st_hint T p chat t0hat wcs2 = (let ct0 = response_ct0 p chat t0hat; h = response_hint p wcs2 ct0
    in (h, max_abs (concat (map (map (\<lambda>c. centered (modQ c))) ct0)), length (filter (\<lambda>b. b = 1) (concat h))))"
proof -
  let ?c = "\<lambda>i. nttInverse (pointwise chat (t0hat ! i))"
  have l: "length (?c i) = NN" for i by (simp add: length_intt)
  let ?P = "\<lambda>i cc. highBits (modQ (wcs2 ! i ! cc + ?c i ! cc)) (p_gamma2 p) \<noteq> highBits (wcs2 ! i ! cc) (p_gamma2 p)"
  let ?F = "\<lambda>i cc. centered (modQ (?c i ! cc))"
  have split_if: "(if b then (x, y, z + 1) else (x', y, z)) = ((if b then x else x'), y, (if b then z + 1 else z))"
    for b and x x' :: PolyVec and y :: int and z :: nat by simp
  have "st_hint T p chat t0hat wcs2 = (map (\<lambda>i. map (\<lambda>cc. if ?P i cc then 1 else 0) [0..<NN]) [0..<p_k p],
      fold (\<lambda>i (a, n). (fold (\<lambda>cc. keep_max (?F i cc)) [0..<NN] a, n + length (filter (?P i) [0..<NN]))) [0..<p_k p] (0, 0))"
    unfolding st_hint_def Let_def inverse_tables [OF T length_pointwise] split_if
  proof (rule fill_rows [where I = "\<lambda>_ _. True"], goal_cases)
    case (1 i m s)
    then show ?case by (cases s) (simp add: fold_triple mark_row count_marks)
  qed simp
  also have "\<dots> = (response_hint p wcs2 (response_ct0 p chat t0hat),
      max_abs (concat (map (map (\<lambda>c. centered (modQ c))) (response_ct0 p chat t0hat))),
      length (filter (\<lambda>b. b = 1) (concat (response_hint p wcs2 (response_ct0 p chat t0hat)))))"
    (is "(?h, ?s) = (_, ?a, ?n)")
  proof -
    have h: "?h = response_hint p wcs2 (response_ct0 p chat t0hat)"
      by (simp add: response_hint_def response_ct0_def Let_def)
    have "map (\<lambda>i. map (?F i) [0..<NN]) [0..<p_k p] = map (map (\<lambda>c. centered (modQ c))) (response_ct0 p chat t0hat)"
      by (simp add: response_ct0_def map_nth_upt [OF l, of "\<lambda>c. centered (c mod Q)"])
    then have a: "fold (\<lambda>i. fold (\<lambda>cc. keep_max (?F i cc)) [0..<NN]) [0..<p_k p] 0 = ?a" by (simp only: max_abs_rows [symmetric])
    have "?n = sum_list (map (\<lambda>i. length (filter (?P i) [0..<NN])) [0..<p_k p])"
      unfolding h [symmetric] by (simp add: filter_concat length_concat comp_def count_ones)
    then show ?thesis unfolding h fold_pair a fold_plus by simp
  qed
  finally show ?thesis by (simp add: Let_def)
qed

lemma st_attempt_eq:
  assumes T: "inited T"
  shows "st_attempt T p A mu rhoPP s1hat s2hat t0hat = sign_attempt p A mu rhoPP s1hat s2hat t0hat"
proof
  fix kappa
  show "st_attempt T p A mu rhoPP s1hat s2hat t0hat kappa = sign_attempt p A mu rhoPP s1hat s2hat t0hat kappa"
    unfolding st_attempt_def sign_attempt_def response_def Let_def copy_tables [OF T] st_pack_w1_eq st_z_eq [OF T]
      st_wcs2_eq [OF T] st_hint_eq [OF T] st_commit_eq [OF T expandMask_polys(1)] prod.case append_all
    by (intro bind_option_cong refl) auto
qed

lemma st_framed_eq: "st_framed msg = framed [] msg"
  by (simp add: st_framed_def framed_def)

lemma st_sign_eq:
  assumes T: "inited T" and "length (sk_s1 sk) = p_l p" and "length (sk_s2 sk) = p_k p" and "length (sk_t0 sk) = p_k p"
  shows "st_sign T p sk msg rnd = map_option (\<lambda>r. case r of None \<Rightarrow> [] | Some sig \<Rightarrow> sig) (signCore p sk msg [] rnd)"
proof -
  let ?u = "\<lambda>r. case r of None \<Rightarrow> [] | Some sig \<Rightarrow> (sig :: bytes)"
  have m: "Option.bind r (\<lambda>r. Some (?u r)) = map_option ?u r" for r by (cases r) simp_all
  have "st_sign T p sk msg rnd = Option.bind (signCore p sk msg [] rnd) (\<lambda>r. Some (?u r))"
    unfolding st_sign_def signCore_def Let_def copy_tables [OF T] st_expandA st_framed_eq hats [OF assms(2)] st_attempt_eq [OF T]
      fold_pair hats [OF assms(3)] hats [OF assms(4)] prod.case bind_assoc ..
  then show ?thesis by (simp only: m)
qed

section \<open>Verification\<close>

lemma st_verifier_w1_eq:
  assumes T: "inited T" and "length z = p_l p"
  shows "st_verifier_w1 T p A t1 c z h = pack_w1 p (verifier_w1 p A t1 c z h)"
proof -
  have sub: "fold (\<lambda>cc acc. acc[cc := modQ (acc ! cc - x ! cc)]) [0..<NN] (row_product (p_l p) A i v)
      = map (\<lambda>cc. modQ (row_product (p_l p) A i v ! cc - x ! cc)) [0..<NN]" for x i v
    using map_all [OF length_row_product, of "\<lambda>cc a. modQ (a - x ! cc)"] by simp
  have new: "fold (\<lambda>cc v. v[cc := f cc]) [0..<NN] (replicate NN 0) = map f [0..<NN]" for f :: "nat \<Rightarrow> int"
    by (rule fill_all) simp
  have hat: "fold (\<lambda>i v. v[i := f i]) [0..<n] (replicate n zero_poly) = map f [0..<n]" for f n
    by (rule fill_all) simp
  show ?thesis
    unfolding st_verifier_w1_def verifier_w1_def pack_w1_def Let_def copy_tables [OF T] hats [OF assms(2)] row_product_def [symmetric] new sub append_all
    unfolding hat append_Nil
    by (intro arg_cong [where f = concat] map_cong refl) (simp add: inverse_tables [OF T])
qed

lemma st_verify_eq:
  assumes T: "inited T"
  shows "st_verify T p pk msg sig = verifyCore p pk msg [] sig"
proof -
  let ?n = "NN * zbits p div 8" and ?dec = "\<lambda>b. bitUnpack b (p_gamma1 p) (zbits p)"
  have "fold (\<lambda>j (off, z). (off + w, z[j := dec (take w (drop off sig))])) [0..<n] (ct, replicate l d)
      = (ct + n * w, map (\<lambda>j. dec (take w (drop (j * w) (drop ct sig)))) [0..<n] @ replicate (l - n) d)"
    if "n \<le> l" for n l w ct and dec :: "bytes \<Rightarrow> Poly" and d
    using that
  proof (induction n)
    case (Suc n)
    then obtain j where "l - n = Suc j" "l - Suc n = j" by (metis Suc_diff_Suc Suc_le_lessD)
    with Suc show ?case by (simp add: list_update_append add.commute add.left_commute)
  qed simp
  from this [of "p_l p" "p_l p"]
  have rd: "fold (\<lambda>j (off, z). (off + ?n, z[j := ?dec (take ?n (drop off sig))])) [0..<p_l p] (ctBytes p, replicate (p_l p) zero_poly)
      = (ctBytes p + p_l p * ?n, read_vec ?dec ?n (p_l p) (drop (ctBytes p) sig))"
    by (simp add: read_vec_def)
  show ?thesis
    unfolding st_verify_def verifyCore_def Let_def rd prod.case st_expandA st_framed_eq st_verifier_w1_eq [OF T length_read_vec] ..
qed

section \<open>The tests\<close>

text \<open>Entry \<open>n\<close> of the array of the schoolbook product after one row and after all rows.\<close>

lemma length_add_row [simp]: "length (fold (\<lambda>j c. c[x + j := c ! (x + j) + v j]) js c) = length c" for v :: "nat \<Rightarrow> int"
  by (induction js arbitrary: c) simp_all

lemma add_row:
  fixes v :: "nat \<Rightarrow> int"
  assumes "n < length c"
  shows "fold (\<lambda>j c. c[x + j := c ! (x + j) + v j]) [0..<m] c ! n = c ! n + (if x \<le> n \<and> n < x + m then v (n - x) else 0)"
proof (induction m)
  case (Suc m)
  with assms show ?case by (cases "n = x + m") auto
qed simp

lemma add_rows:
  fixes v :: "nat \<Rightarrow> nat \<Rightarrow> int"
  assumes "n < length c"
  shows "fold (\<lambda>x c. fold (\<lambda>j c. c[x + j := c ! (x + j) + v x j]) [0..<m] c) [0..<k] c ! n
    = c ! n + (\<Sum>x<k. if x \<le> n \<and> n < x + m then v x (n - x) else 0)"
proof (induction k)
  case (Suc k)
  have "length (fold (\<lambda>x c. fold (\<lambda>j c. c[x + j := c ! (x + j) + v x j]) [0..<m] c) xs c) = length c" for xs
    by (induction xs arbitrary: c) simp_all
  with Suc assms show ?case by (simp add: add_row)
qed simp

lemma schoolbook_negacyclic: "schoolbookMul a b = map (\<lambda>c. c mod Q) (negacyclic a b)"
proof (rule nth_equalityI)
  show "length (schoolbookMul a b) = length (map (\<lambda>c. c mod Q) (negacyclic a b))" by (simp add: schoolbookMul_def Let_def)
  fix i assume "i < length (schoolbookMul a b)"
  then have i: "i < NN" by (simp add: schoolbookMul_def Let_def)
  let ?t = "\<lambda>x y. crem (a ! x * b ! y) Q"
  let ?s = "\<lambda>n. \<Sum>x<NN. if x \<le> n \<and> n < x + NN then ?t x (n - x) else 0"
  have neg: "- crem x Q mod Q = - x mod Q" for x using mod_minus_eq [of "crem x Q" Q] mod_minus_eq [of x Q] by simp
  have "schoolbookMul a b ! i = (?s i - ?s (i + NN)) mod Q"
    using i by (simp add: schoolbookMul_def Let_def add_rows)
  also have "?s i - ?s (i + NN) = (\<Sum>x<NN. if x \<le> i then ?t x (i - x) else - ?t x (NN + i - x))"
    unfolding sum_subtractf [symmetric] using i by (intro sum.cong) (auto simp: add.commute)
  also have "\<dots> mod Q = (\<Sum>x<NN. if x \<le> i then a ! x * b ! (i - x) else - (a ! x * b ! (NN + i - x))) mod Q"
    by (rule sum_mod_cong) (simp add: neg)
  finally show "schoolbookMul a b ! i = map (\<lambda>c. c mod Q) (negacyclic a b) ! i"
    using i by (simp add: negacyclic_def)
qed

lemma ntt_test_passes:
  assumes "inited T" and "length a = NN" and "length b = NN"
  shows "ntt_test T a b"
  using times_ntt_negacyclic [OF assms(2,3)]
  by (simp add: ntt_test_def Let_def copy_tables [OF assms(1)] inverse_tables [OF assms(1)] schoolbook_negacyclic list_all_iff)

lemma verify_length:
  "verifyCore p pk msg ctx sig = Some True \<Longrightarrow> length sig = ctBytes p + p_l p * (NN * zbits p div 8) + p_omega p + p_k p"
  by (simp add: verifyCore_def Let_def split: if_splits)

lemma generated_lengths:
  assumes "keyGenInternal (paramFor lv) xi = Some (pk, sk)"
  shows "length (sk_s1 sk) = p_l (paramFor lv)" and "length (sk_s2 sk) = p_k (paramFor lv)" and "length (sk_t0 sk) = p_k (paramFor lv)"
proof -
  obtain A where "key_vectors (paramFor lv) A (sk_s1 sk) (sk_s2 sk) (pk_t1 pk) (sk_t0 sk)"
    by (rule keyGen_SomeD [OF assms paramFor_facts(1)])
  then show "length (sk_s1 sk) = p_l (paramFor lv)" "length (sk_s2 sk) = p_k (paramFor lv)" "length (sk_t0 sk) = p_k (paramFor lv)"
    by (simp_all add: key_vectors_def key_product_def)
qed

text \<open>A line of the output is either that of a failed signing or one with a valid signature of the right size.\<close>

definition line_ok :: "level_line \<Rightarrow> bool" where
  "line_ok l \<longleftrightarrow> (if ll_sig_size l = 0 then \<not> ll_verify l \<and> \<not> ll_tamper_rejected l \<and> \<not> ll_wrong_rejected l
     else ll_sig_size l = ll_exp_size l \<and> ll_verify l)"

lemma line_ok_pass:
  "line_ok l \<Longrightarrow> ll_verify l \<and> ll_tamper_rejected l \<and> ll_wrong_rejected l \<and> ll_sig_size l \<noteq> 0 \<and> ll_sig_size l = ll_exp_size l \<longleftrightarrow>
     ll_sig_size l \<noteq> 0 \<and> ll_tamper_rejected l \<and> ll_wrong_rejected l"
  by (auto simp: line_ok_def split: if_splits)

lemma level_line_ok:
  assumes T: "inited T" and run: "level_test T level = Some l"
  shows "line_ok l" and "ll_level l = level"
proof -
  let ?p = "paramFor level"
  define xi :: bytes where "xi = map (\<lambda>i. word_of_nat (i + level)) [0..<32]"
  define msg :: bytes where "msg = map (\<lambda>i. 0xA0 XOR word_of_nat i) [0..<32]"
  note run = run [unfolded level_test_def Let_def, folded xi_def msg_def]
  from run obtain pk sk where key: "st_keyGen T ?p xi = Some (pk, sk)"
    by (cases "st_keyGen T ?p xi") auto
  then have hkey: "keyGenInternal ?p xi = Some (pk, sk)" by (simp add: st_keyGen_eq [OF T])
  from run key obtain sig where sig: "st_sign T ?p sk msg (replicate 32 0) = Some sig"
    by (cases "st_sign T ?p sk msg (replicate 32 0)") auto
  from sig [unfolded st_sign_eq [OF T generated_lengths [OF hkey]]] obtain r
    where r: "signCore ?p sk msg [] (replicate 32 0) = Some r" "sig = (case r of None \<Rightarrow> [] | Some s \<Rightarrow> s)" by auto
  have "sig = [] \<or> length sig = ctBytes ?p + p_l ?p * (NN * zbits ?p div 8) + p_omega ?p + p_k ?p \<and> st_verify T ?p pk msg sig = Some True"
  proof (cases r)
    case (Some s)
    then have "verifyCore ?p pk msg [] sig = Some True" using signCore_verifies [OF hkey] r by simp
    then show ?thesis using verify_length by (simp add: st_verify_eq [OF T])
  qed (simp add: r)
  then show "line_ok l" "ll_level l = level"
    using run by (auto simp: key sig line_ok_def zbits_def [symmetric] split: bind_splits if_splits)
qed

section \<open>Properties\<close>

text \<open>
  C13. The standalone program computes what the header computes. Once \<^verbatim>\<open>initTables\<close> has filled the global tables,
  its key generation, at every security level and seed, its verification, for every key, message and byte string, and
  its signing with a generated key, for every message and randomness, return what the functions of the header return for
  an empty context; signing returns the empty vector where the header reports failure.
\<close>

theorem selftest_is_header:
  "let T = initTables zero_tables; p = paramFor level
   in st_keyGen T p xi = keyGenInternal p xi \<and>
      st_verify T p pk msg sig = verifyCore p pk msg [] sig \<and>
      (case st_keyGen T p xi of None \<Rightarrow> True
       | Some (pk', sk) \<Rightarrow> st_sign T p sk msg rnd = map_option (case_option [] id) (signCore p sk msg [] rnd))"
proof -
  let ?T = "initTables zero_tables" and ?p = "paramFor level"
  note T = main_inited
  have "st_sign ?T ?p sk msg rnd = map_option (case_option [] id) (signCore ?p sk msg [] rnd)"
    if "keyGenInternal ?p xi = Some (pk', sk)" for pk' sk
    using st_sign_eq [OF T generated_lengths [OF that]] by (simp add: id_def)
  then show ?thesis by (simp add: Let_def st_keyGen_eq [OF T] st_verify_eq [OF T] split: option.split)
qed

text \<open>
  C14. What the program reports. When it returns, the test of the transform has succeeded, there is one line for
  each of the levels 44, 65 and 87, every line has either no signature, and then three failures, or a signature
  of the expected size that verifies, and the exit code is 0 exactly when all levels have a signature and the
  tampered signatures and the wrong messages were rejected. So a failure can only come from a thousand rejected attempts or from an
  accepted forgery.
\<close>

theorem selftest_verdict:
  "case selftest_main of None \<Rightarrow> True
   | Some (nttOK, lines, code) \<Rightarrow>
       nttOK \<and> map ll_level lines = [44, 65, 87] \<and> list_all line_ok lines \<and> code \<in> {0, 1} \<and>
       (code = 0 \<longleftrightarrow> list_all (\<lambda>l. ll_sig_size l \<noteq> 0 \<and> ll_tamper_rejected l \<and> ll_wrong_rejected l) lines)"
proof (cases "those (map (level_test (initTables zero_tables)) [44, 65, 87])")
  case (Some lines)
  let ?T = "initTables zero_tables"
  note T = main_inited
  from Some obtain x y z where l: "level_test ?T 44 = Some x" "level_test ?T 65 = Some y" "level_test ?T 87 = Some z"
    "lines = [x, y, z]" by (auto split: option.splits)
  note ok = level_line_ok [OF T l(1)] level_line_ok [OF T l(2)] level_line_ok [OF T l(3)]
  have ntt: "ntt_test ?T (map (\<lambda>i. (int i * 7 + 3) mod Q) [0..<NN]) (map (\<lambda>i. (int i * 13 + 5) mod Q) [0..<NN])"
    by (rule ntt_test_passes [OF T]) simp_all
  have m: "selftest_main = Some (True, lines, if list_all (\<lambda>l. ll_sig_size l \<noteq> 0 \<and> ll_tamper_rejected l \<and> ll_wrong_rejected l) lines then 0 else 1)"
    unfolding selftest_main_def Let_def Some bind.bind_lunit l(4) fold_simps list.pred_inject option.inject prod.inject
    using ntt line_ok_pass [OF ok(1)] line_ok_pass [OF ok(3)] line_ok_pass [OF ok(5)] by auto
  show ?thesis unfolding m using ok by (simp add: l(4))
qed (simp add: selftest_main_def Let_def)

end
