(* ===== verification/MldsaMachine.thy ===== *)
theory MldsaMachine
  imports MldsaConv
begin

text \<open>
  The transforms of \<^verbatim>\<open>BHC/src/crypto/mldsa_fips204.h\<close> at the width of their C++ types: coefficients and
  roots are 32-bit words, products, sums and remainders 64-bit words, and every conversion is a cast.
  \<open>MldsaRing\<close> models the same lines over the integers; the two agree, so no intermediate value leaves the
  range of its type.
\<close>

type_synonym i32 = "32 word"
type_synonym i64 = "64 word"

section \<open>Definitions\<close>

definition srem64 :: "i64 \<Rightarrow> i64 \<Rightarrow> i64" where
  "srem64 a m = word_of_int (crem (sint a) (sint m))"

definition Q64 :: i64 where
  "Q64 = 8380417"

fun modPow_loop_w :: "i64 \<Rightarrow> i64 \<Rightarrow> nat \<Rightarrow> i64 \<Rightarrow> i64" where
  "modPow_loop_w r base e m =
     (if e > 0
      then modPow_loop_w (if e mod 2 = 1 then srem64 (r * base) m else r) (srem64 (base * base) m) (e div 2) m
      else r)"

declare modPow_loop_w.simps [simp del]

definition modPow_w :: "i64 \<Rightarrow> nat \<Rightarrow> i64 \<Rightarrow> i64" where
  "modPow_w base e m =
     (let base = srem64 base m;
          base = (if sint base < 0 then base + m else base)
      in modPow_loop_w 1 base e m)"

definition zetas_w :: "i32 list" where
  "zetas_w = map (\<lambda>i. ucast (modPow_w 1753 (bitrev8 i) Q64)) [0..<NN]"

definition ninv_w :: i32 where
  "ninv_w = ucast (modPow_w 256 8380415 Q64)"

definition modQ_w :: "i64 \<Rightarrow> i32" where
  "modQ_w a = (let m = srem64 a Q64; m = (if sint m < 0 then m + Q64 else m) in ucast m)"

definition ntt_step_w :: "i64 \<Rightarrow> nat \<Rightarrow> nat \<Rightarrow> i32 list \<Rightarrow> i32 list" where
  "ntt_step_w zeta len j a =
     (let t = ucast (srem64 (zeta * scast (a ! (j + len))) Q64) :: i32;
          a = a[j + len := modQ_w (scast (a ! j) - scast t)]
      in a[j := modQ_w (scast (a ! j) + scast t)])"

definition ntt_layer_w :: "nat \<Rightarrow> nat \<times> i32 list \<Rightarrow> nat \<times> i32 list" where
  "ntt_layer_w len s =
     fold (\<lambda>start (kk, a). (kk + 1, fold (ntt_step_w (scast (zetas_w ! (kk + 1))) len) [start..<start + len] a))
       (for_list 0 NN (2 * len)) s"

definition nttForward_w :: "i32 list \<Rightarrow> i32 list" where
  "nttForward_w a = snd (fold ntt_layer_w (halvings 128) (0, a))"

definition intt_step_w :: "i64 \<Rightarrow> nat \<Rightarrow> nat \<Rightarrow> i32 list \<Rightarrow> i32 list" where
  "intt_step_w zeta len j a =
     (let t = a ! j;
          a = a[j := modQ_w (scast t + scast (a ! (j + len)))];
          a = a[j + len := modQ_w (scast t - scast (a ! (j + len)))]
      in a[j + len := ucast (srem64 (zeta * scast (a ! (j + len))) Q64)])"

definition intt_layer_w :: "nat \<Rightarrow> nat \<times> i32 list \<Rightarrow> nat \<times> i32 list" where
  "intt_layer_w len s =
     fold (\<lambda>start (kk, a). (kk - 1, fold (intt_step_w (scast (8380417 - zetas_w ! (kk - 1))) len) [start..<start + len] a))
       (for_list 0 NN (2 * len)) s"

definition nttInverse_w :: "i32 list \<Rightarrow> i32 list" where
  "nttInverse_w a =
     (let a = snd (fold intt_layer_w (doublings 1 NN) (NN, a))
      in map (\<lambda>c. ucast (srem64 (scast ninv_w * scast c) Q64)) a)"

definition pointwise_w :: "i32 list \<Rightarrow> i32 list \<Rightarrow> i32 list" where
  "pointwise_w a b = map (\<lambda>i. ucast (srem64 (scast (a ! i) * scast (b ! i)) Q64)) [0..<NN]"

section \<open>Words as integers\<close>

lemma sint_small64: "- (2 ^ 63) \<le> k \<Longrightarrow> k < 2 ^ 63 \<Longrightarrow> sint (word_of_int k :: i64) = k"
  by (simp add: sint_sbintrunc' signed_take_bit_int_eq_self)

lemma sint_small32: "- (2 ^ 31) \<le> k \<Longrightarrow> k < 2 ^ 31 \<Longrightarrow> sint (word_of_int k :: i32) = k"
  by (simp add: sint_sbintrunc' signed_take_bit_int_eq_self)

lemma sint_plus64: "\<bar>sint a + sint b\<bar> < 2 ^ 63 \<Longrightarrow> sint (a + b :: i64) = sint a + sint b"
  by (simp add: sint_word_ariths signed_take_bit_int_eq_self)

lemma sint_minus64: "\<bar>sint a - sint b\<bar> < 2 ^ 63 \<Longrightarrow> sint (a - b :: i64) = sint a - sint b"
  by (simp add: sint_word_ariths signed_take_bit_int_eq_self)

lemma sint_times64: "\<bar>sint a * sint b\<bar> < 2 ^ 63 \<Longrightarrow> sint (a * b :: i64) = sint a * sint b"
  by (simp add: sint_word_ariths signed_take_bit_int_eq_self)

lemma sint_range32: "- (2 ^ 31) \<le> sint (x :: i32)" "sint x < 2 ^ 31"
  using sint_ge [of x] sint_lt [of x] by simp_all

lemma sint_scast64 [simp]: "sint (scast (x :: i32) :: i64) = sint x"
  using sint_range32 [of x] by (simp add: signed_scast_eq signed_take_bit_int_eq_self)

lemma sint_ucast32: "\<bar>sint w\<bar> < 2 ^ 31 \<Longrightarrow> sint (ucast (w :: i64) :: i32) = sint w"
  by (simp add: signed_ucast_eq uint_sint signed_take_bit_take_bit signed_take_bit_int_eq_self)

lemma sint_Q64 [simp]: "sint Q64 = Q"
  by (simp add: Q64_def Q_def)

lemma sint_srem64: "sint (srem64 a Q64) = crem (sint a) Q" "\<bar>crem (sint a) Q\<bar> < 2 ^ 23"
proof -
  have b: "\<bar>crem (sint a) Q\<bar> < Q" by (rule crem_abs) simp
  then show "\<bar>crem (sint a) Q\<bar> < 2 ^ 23" by (simp add: Q_def)
  then show "sint (srem64 a Q64) = crem (sint a) Q" by (simp add: srem64_def sint_small64)
qed

lemma sint_reduced32: "sint (ucast (srem64 a Q64) :: i32) = crem (sint a) Q"
  using sint_srem64 [of a] by (simp add: sint_ucast32)

lemma sint_modQ_w: "sint (modQ_w a) = sint a mod Q"
proof -
  note r = sint_srem64 [of a]
  let ?m = "if sint (srem64 a Q64) < 0 then srem64 a Q64 + Q64 else srem64 a Q64"
  have m: "sint ?m = (if crem (sint a) Q < 0 then crem (sint a) Q + Q else crem (sint a) Q)"
    using r by (simp add: sint_plus64 Q_def)
  also have "\<dots> = sint a mod Q" by (simp add: crem_fix)
  finally have m: "sint ?m = sint a mod Q" .
  moreover have "sint a mod Q < 2 ^ 23" "0 \<le> sint a mod Q"
    using pos_mod_bound [of Q "sint a"] by (simp_all add: Q_def)
  ultimately show ?thesis by (simp add: modQ_w_def Let_def sint_ucast32)
qed

lemma times_bound: "0 \<le> z \<Longrightarrow> z \<le> Q \<Longrightarrow> \<bar>x\<bar> \<le> 2 ^ 31 \<Longrightarrow> \<bar>z * x\<bar> < 2 ^ 63" for x z :: int
proof -
  assume "0 \<le> z" "z \<le> Q" "\<bar>x\<bar> \<le> 2 ^ 31"
  then have "\<bar>z * x\<bar> \<le> Q * 2 ^ 31" unfolding abs_mult by (intro mult_mono) simp_all
  then show ?thesis by (simp add: Q_def)
qed

section \<open>The table of roots\<close>

lemma modPow_loop_sint:
  assumes "0 \<le> sint r" and "sint r < Q" and "0 \<le> sint b" and "sint b < Q"
  shows "sint (modPow_loop_w r b e Q64) = modPow_loop (sint r) (sint b) e Q"
  using assms
proof (induction e arbitrary: r b rule: less_induct)
  case (less e)
  show ?case
  proof (cases "e = 0")
    case False
    have prod: "sint (srem64 (x * y) Q64) = crem (sint x * sint y) Q"
      if "0 \<le> sint x" "sint x < Q" "0 \<le> sint y" "sint y < Q" for x y
    proof -
      have "\<bar>sint x * sint y\<bar> < 2 ^ 63" using that by (intro times_bound) (simp_all add: Q_def)
      then show ?thesis by (simp add: sint_srem64(1) sint_times64)
    qed
    have rng: "0 \<le> crem x Q \<and> crem x Q < Q" if "0 \<le> x" for x using that by (simp add: crem_nonneg)
    let ?r = "if e mod 2 = 1 then srem64 (r * b) Q64 else r"
    have r: "sint ?r = (if e mod 2 = 1 then crem (sint r * sint b) Q else sint r)" "0 \<le> sint ?r" "sint ?r < Q"
      using less.prems prod [of r b] rng [of "sint r * sint b"] by simp_all
    have b: "sint (srem64 (b * b) Q64) = crem (sint b * sint b) Q" "0 \<le> sint (srem64 (b * b) Q64)"
      "sint (srem64 (b * b) Q64) < Q"
      using less.prems prod [of b b] rng [of "sint b * sint b"] by simp_all
    have "e div 2 < e" using False by simp
    from less.IH [OF this r(2,3) b(2,3)]
    show ?thesis
      by (subst modPow_loop_w.simps, subst modPow_loop.simps) (simp only: r(1) b(1) False if_True bot_nat_0.not_eq_extremum [symmetric] simp_thms)
  qed (simp add: modPow_loop_w.simps)
qed

lemma modPow_sint:
  assumes "0 \<le> sint b" and "sint b < Q"
  shows "sint (modPow_w b e Q64) = modPow (sint b) e Q"
proof -
  have c: "crem (sint b) Q = sint b" using assms by (simp add: crem_nonneg)
  then have s: "sint (srem64 b Q64) = sint b" by (simp add: sint_srem64(1))
  show ?thesis
    using modPow_loop_sint [of 1 "srem64 b Q64" e] assms s c
    by (simp add: modPow_w_def modPow_def Let_def Q_def)
qed

lemma modPow_w_32:
  assumes "0 \<le> sint b" and "sint b < Q"
  shows "sint (ucast (modPow_w b e Q64) :: i32) = modPow (sint b) e Q"
proof -
  have "0 \<le> modPow (sint b) e Q \<and> modPow (sint b) e Q < Q" by (simp add: modPow_eq Q_def)
  then show ?thesis using modPow_sint [OF assms] by (simp add: sint_ucast32 Q_def)
qed

lemma nth_zetas_w: "k < NN \<Longrightarrow> sint (zetas_w ! k) = zetas ! k"
  using modPow_w_32 [of 1753 "bitrev8 k"] by (simp add: zetas_w_def zetas_def ROOT_ZETA_def Q_def)

lemma ninv_w_sint: "sint ninv_w = ninv"
  using modPow_w_32 [of 256 8380415] by (simp add: ninv_w_def ninv_def Q_def NN_def)

section \<open>Layers in lock-step\<close>

text \<open>A step on words that simulates a step on integers lifts to blocks and layers.\<close>

locale machine_step =
  fixes stepw :: "i64 \<Rightarrow> nat \<Rightarrow> nat \<Rightarrow> i32 list \<Rightarrow> i32 list"
    and step :: "int \<Rightarrow> nat \<Rightarrow> nat \<Rightarrow> int list \<Rightarrow> int list"
  assumes step_sim: "0 \<le> sint z \<Longrightarrow> sint z \<le> Q \<Longrightarrow> 0 < len \<Longrightarrow> j + len < length a \<Longrightarrow>
      map sint (stepw z len j a) = step (sint z) len j (map sint a)"
    and length_stepw: "length (stepw z len j a) = length a"
begin

definition layerw :: "(nat \<Rightarrow> i64) \<Rightarrow> nat \<Rightarrow> nat \<Rightarrow> i32 list \<Rightarrow> i32 list" where
  "layerw zf len m a = fold (\<lambda>b. fold (stepw (zf b) len) [2 * len * b..<2 * len * b + len]) [0..<m] a"

lemma length_blockw: "length (fold (stepw z len) js a) = length a"
  by (induction js arbitrary: a) (simp_all add: length_stepw)

lemma block_sim:
  assumes "0 \<le> sint z" and "sint z \<le> Q" and "0 < len" and "\<forall>j \<in> set js. j + len < length a"
  shows "map sint (fold (stepw z len) js a) = fold (step (sint z) len) js (map sint a)"
  using assms(4)
proof (induction js arbitrary: a)
  case (Cons j js)
  then show ?case using step_sim [OF assms(1-3), of j a] by (simp add: length_stepw)
qed simp

lemma length_layerw: "length (layerw zf len m a) = length a"
proof -
  have "length (fold (\<lambda>b. fold (stepw (zf b) len) [2 * len * b..<2 * len * b + len]) bs a) = length a" for bs
    by (induction bs arbitrary: a) (simp_all add: length_blockw)
  then show ?thesis by (simp add: layerw_def)
qed

lemma layer_sim:
  assumes "0 < len" and "2 * len * m \<le> length a" and "\<And>b. b < m \<Longrightarrow> 0 \<le> sint (zf b) \<and> sint (zf b) \<le> Q"
  shows "map sint (layerw zf len m a) =
    fold (\<lambda>b. fold (step (sint (zf b)) len) [2 * len * b..<2 * len * b + len]) [0..<m] (map sint a)"
  using assms(2,3)
proof (induction m)
  case (Suc m)
  have "map sint (fold (stepw (zf m) len) [2 * len * m..<2 * len * m + len] (layerw zf len m a))
      = fold (step (sint (zf m)) len) [2 * len * m..<2 * len * m + len] (map sint (layerw zf len m a))"
    using Suc.prems assms(1) by (intro block_sim) (auto simp: length_layerw)
  then show ?case using Suc by (simp add: layerw_def)
qed (simp add: layerw_def)

end

lemma sint_sum32: "sint (scast (x :: i32) + scast (y :: i32) :: i64) = sint x + sint y"
  using sint_range32 [of x] sint_range32 [of y] by (simp add: sint_plus64)

lemma sint_diff32: "sint (scast (x :: i32) - scast (y :: i32) :: i64) = sint x - sint y"
  using sint_range32 [of x] sint_range32 [of y] by (simp add: sint_minus64)

lemma sint_root_times:
  "0 \<le> sint z \<Longrightarrow> sint z \<le> Q \<Longrightarrow> sint (ucast (srem64 (z * scast (x :: i32)) Q64) :: i32) = crem (sint z * sint x) Q"
  using times_bound [of "sint z" "sint x"] sint_range32 [of x] by (simp add: sint_reduced32 sint_times64)

lemmas machine_arith = sint_modQ_w sint_sum32 sint_diff32 sint_root_times

interpretation forwardw: machine_step ntt_step_w ntt_step
proof
  fix z :: i64 and len j :: nat and a :: "i32 list"
  assume "0 \<le> sint z" "sint z \<le> Q" "0 < len" "j + len < length a"
  then show "map sint (ntt_step_w z len j a) = ntt_step (sint z) len j (map sint a)"
    by (simp add: ntt_step_w_def ntt_step_def Let_def map_update machine_arith)
qed (simp add: ntt_step_w_def Let_def)

interpretation inversew: machine_step intt_step_w intt_step
proof
  fix z :: i64 and len j :: nat and a :: "i32 list"
  assume "0 \<le> sint z" "sint z \<le> Q" "0 < len" "j + len < length a"
  then show "map sint (intt_step_w z len j a) = intt_step (sint z) len j (map sint a)"
    by (simp add: intt_step_w_def intt_step_def Let_def map_update machine_arith)
qed (simp add: intt_step_w_def Let_def)

lemma ntt_layer_w_eq:
  assumes "0 < len" and "2 * len * m = NN"
  shows "ntt_layer_w len (kk, a) = (kk + m, forwardw.layerw (\<lambda>b. scast (zetas_w ! (kk + 1 + b))) len m a)"
proof -
  have "fold (\<lambda>start (kk, a). (kk + 1, fold (ntt_step_w (scast (zetas_w ! (kk + 1))) len) [start..<start + len] a))
      (map (\<lambda>i. 2 * len * i) [0..<n]) (kk, a)
    = (kk + n, forwardw.layerw (\<lambda>b. scast (zetas_w ! (kk + 1 + b))) len n a)" for n
    by (induction n) (simp_all add: forwardw.layerw_def add.assoc)
  then show ?thesis using for_list_zero [of "2 * len" m] assms by (simp add: ntt_layer_w_def)
qed

lemma intt_layer_w_eq:
  assumes "0 < len" and "2 * len * m = NN"
  shows "intt_layer_w len (kk, a) = (kk - m, inversew.layerw (\<lambda>b. scast (8380417 - zetas_w ! (kk - 1 - b))) len m a)"
proof -
  have "fold (\<lambda>start (kk, a). (kk - 1, fold (intt_step_w (scast (8380417 - zetas_w ! (kk - 1))) len) [start..<start + len] a))
      (map (\<lambda>i. 2 * len * i) [0..<n]) (kk, a)
    = (kk - n, inversew.layerw (\<lambda>b. scast (8380417 - zetas_w ! (kk - 1 - b))) len n a)" for n
    by (induction n) (simp_all add: inversew.layerw_def add.assoc diff_diff_add)
  then show ?thesis using for_list_zero [of "2 * len" m] assms by (simp add: intt_layer_w_def)
qed

lemma ntt_layers_w:
  "n \<le> 8 \<Longrightarrow> length a = NN \<Longrightarrow>
   (case fold ntt_layer_w (map (\<lambda>t. 2 ^ (7 - t)) [0..<n]) (0, a) of (kk, b) \<Rightarrow>
      kk = 2 ^ n - 1 \<and> length b = NN \<and> map sint b = fold flayer [0..<n] (map sint a))"
proof (induction n)
  case (Suc n)
  then have n: "n \<le> 7" by simp
  obtain kk b where st: "fold ntt_layer_w (map (\<lambda>t. 2 ^ (7 - t)) [0..<n]) (0, a) = (kk, b)" by fastforce
  with Suc have kk: "kk = 2 ^ n - 1" and b: "length b = NN" "map sint b = fold flayer [0..<n] (map sint a)" by auto
  let ?zf = "\<lambda>b. scast (zetas_w ! (kk + 1 + b)) :: i64"
  have idx: "kk + 1 + i < NN" "kk + 1 + i = 2 ^ n + i" if "i < 2 ^ n" for i
    using that kk power_increasing [OF n, of "2 :: nat"] by (simp_all add: NN_def)
  have zf: "sint (?zf i) = zetas ! (2 ^ n + i)" "0 \<le> sint (?zf i) \<and> sint (?zf i) \<le> Q" if "i < 2 ^ n" for i
    using idx [OF that] zeta_range [of "kk + 1 + i"] by (simp_all add: nth_zetas_w)
  have "map sint (forwardw.layerw ?zf (2 ^ (7 - n)) (2 ^ n) b) = flayer n (map sint b)"
    unfolding flayer_def forward.layer_def
    using blocks_256 [OF n] b(1) zf by (subst forwardw.layer_sim) (auto intro!: fold_cong)
  then show ?case
    using st ntt_layer_w_eq [OF _ blocks_256 [OF n], of kk b] kk b by (simp add: forwardw.length_layerw)
qed simp

lemma intt_layers_w:
  "n \<le> 8 \<Longrightarrow> length a = NN \<Longrightarrow>
   (case fold intt_layer_w (map (\<lambda>t. 2 ^ t) [0..<n]) (NN, a) of (kk, b) \<Rightarrow>
      kk = 2 ^ (8 - n) \<and> length b = NN \<and> map sint b = fold (\<lambda>t. ilayer (7 - t)) [0..<n] (map sint a))"
proof (induction n)
  case 0
  then show ?case by (simp add: NN_def)
next
  case (Suc n)
  then have n: "7 - n \<le> 7" "7 - (7 - n) = n" "2 ^ (8 - n) = (2 :: nat) * 2 ^ (7 - n)"
    by (simp_all add: Suc_diff_le flip: power_Suc)
  obtain kk b where st: "fold intt_layer_w (map (\<lambda>t. 2 ^ t) [0..<n]) (NN, a) = (kk, b)" by fastforce
  with Suc have kk: "kk = 2 * 2 ^ (7 - n)" and b: "length b = NN" "map sint b = fold (\<lambda>t. ilayer (7 - t)) [0..<n] (map sint a)"
    using n(3) by auto
  let ?zf = "\<lambda>b. scast (8380417 - zetas_w ! (kk - 1 - b)) :: i64"
  have idx: "kk - 1 - i < NN" for i
    using kk power_increasing [OF n(1), of "2 :: nat"] by (simp add: NN_def)
  have zf: "sint (?zf i) = Q - zetas ! (kk - 1 - i) \<and> 0 \<le> zetas ! (kk - 1 - i) \<and> zetas ! (kk - 1 - i) \<le> Q" for i
  proof -
    have r: "0 \<le> zetas ! (kk - 1 - i)" "zetas ! (kk - 1 - i) < Q" using zeta_range [OF idx] by simp_all
    then have "sint (8380417 - zetas_w ! (kk - 1 - i) :: i32) = Q - zetas ! (kk - 1 - i)"
      using nth_zetas_w [OF idx, of i] by (simp add: sint_word_ariths signed_take_bit_int_eq_self Q_def)
    with r show ?thesis by simp
  qed
  have "map sint (inversew.layerw ?zf (2 ^ n) (2 ^ (7 - n)) b) = ilayer (7 - n) (map sint b)"
    unfolding ilayer_def inverse.layer_def n(2) kk
    using blocks_256 [OF n(1)] b(1) zf unfolding kk n(2) by (subst inversew.layer_sim) (auto intro!: fold_cong)
  moreover have "2 ^ (8 - Suc n) = kk - 2 ^ (7 - n)" using kk by simp
  ultimately show ?case
    using st intt_layer_w_eq [of "2 ^ n" "2 ^ (7 - n)" kk b] blocks_256 [OF n(1)] n(2) b by (simp add: inversew.length_layerw)
qed

text \<open>
  C11. The transforms do not overflow: on any 256 coefficients of 32 bits, the forward transform, the
  inverse transform and the pointwise product computed in 32-bit and 64-bit machine arithmetic, table
  of roots included, yield exactly the values that the integer functions yield.
\<close>

theorem ntt_no_overflow:
  assumes "length a = NN" and "length b = NN"
  shows "map sint (nttForward_w a) = nttForward (map sint a) \<and>
    map sint (nttInverse_w a) = nttInverse (map sint a) \<and>
    map sint (pointwise_w a b) = pointwise (map sint a) (map sint b)"
proof (intro conjI)
  have "halvings 128 = map (\<lambda>t. 2 ^ (7 - t)) [0..<8]" by code_simp
  then show "map sint (nttForward_w a) = nttForward (map sint a)"
    using ntt_layers_w [of 8 a] assms(1) by (simp add: nttForward_w_def nttForward_layers split_beta del: upt_Suc)
  define res where "res = snd (fold intt_layer_w (doublings 1 NN) (NN, a))"
  have "doublings 1 NN = map (\<lambda>t. 2 ^ t) [0..<8]" by code_simp
  then have res: "map sint res = fold (\<lambda>t. ilayer (7 - t)) [0..<8] (map sint a)"
    using intt_layers_w [of 8 a] assms(1) by (simp add: res_def split_beta del: upt_Suc)
  have "sint (scast ninv_w :: i64) = ninv" "0 \<le> ninv" "ninv \<le> Q" by (simp_all add: ninv_w_sint ninv_eq Q_def)
  then have "map sint (nttInverse_w a) = map (\<lambda>c. crem (ninv * c) Q) (map sint res)"
    by (simp add: nttInverse_w_def res_def sint_root_times)
  then show "map sint (nttInverse_w a) = nttInverse (map sint a)" by (simp only: res nttInverse_layers)
  have prod: "sint (ucast (srem64 (scast x * scast y) Q64) :: i32) = crem (sint x * sint y) Q" for x y :: i32
  proof -
    have "\<bar>sint x * sint y\<bar> \<le> 2 ^ 31 * 2 ^ 31"
      unfolding abs_mult using sint_range32 [of x] sint_range32 [of y] by (intro mult_mono) simp_all
    then show ?thesis by (simp add: sint_reduced32 sint_times64)
  qed
  then show "map sint (pointwise_w a b) = pointwise (map sint a) (map sint b)"
    using assms by (simp add: pointwise_w_def pointwise_def)
qed

theorem ntt_no_overflow_witness:
  "map sint (nttForward_w (replicate 256 (- 1))) = nttForward (replicate 256 (- 1)) \<and>
   map sint (nttInverse_w (replicate 256 (- 1))) = nttInverse (replicate 256 (- 1))"
  using ntt_no_overflow [of "replicate 256 (- 1)" "replicate 256 (- 1)"] by (simp add: NN_def)

end
