(* ===== verification/Sha256.thy ===== *)
theory Sha256
  imports Codec
begin

text \<open>
  Model of the class \<^verbatim>\<open>SHA256\<close> of \<^verbatim>\<open>BHC/src/crypto/progpow.cpp\<close>, which pads in one buffer, expands the
  message schedule in place and walks the buffer by offsets, and its equivalence with the SHA-256 of
  FIPS 180-4: padding by concatenation, the recursive schedule, and a fold over message blocks.
\<close>

section \<open>The code\<close>

definition rotl32 :: "u32 \<Rightarrow> nat \<Rightarrow> u32" where
  "rotl32 v c = push_bit c v OR drop_bit (32 - c) v"

definition rotr32 :: "u32 \<Rightarrow> nat \<Rightarrow> u32" where
  "rotr32 v c = drop_bit c v OR push_bit (32 - c) v"

definition sha_h :: "u32 list" where
  "sha_h =
    [0x6a09e667, 0xbb67ae85, 0x3c6ef372, 0xa54ff53a,
     0x510e527f, 0x9b05688c, 0x1f83d9ab, 0x5be0cd19]"

definition sha_k :: "u32 list" where
  "sha_k = concat
    [[0x428a2f98, 0x71374491, 0xb5c0fbcf, 0xe9b5dba5],
     [0x3956c25b, 0x59f111f1, 0x923f82a4, 0xab1c5ed5],
     [0xd807aa98, 0x12835b01, 0x243185be, 0x550c7dc3],
     [0x72be5d74, 0x80deb1fe, 0x9bdc06a7, 0xc19bf174],
     [0xe49b69c1, 0xefbe4786, 0x0fc19dc6, 0x240ca1cc],
     [0x2de92c6f, 0x4a7484aa, 0x5cb0a9dc, 0x76f988da],
     [0x983e5152, 0xa831c66d, 0xb00327c8, 0xbf597fc7],
     [0xc6e00bf3, 0xd5a79147, 0x06ca6351, 0x14292967],
     [0x27b70a85, 0x2e1b2138, 0x4d2c6dfc, 0x53380d13],
     [0x650a7354, 0x766a0abb, 0x81c2c92e, 0x92722c85],
     [0xa2bfe8a1, 0xa81a664b, 0xc24b8b70, 0xc76c51a3],
     [0xd192e819, 0xd6990624, 0xf40e3585, 0x106aa070],
     [0x19a4c116, 0x1e376c08, 0x2748774c, 0x34b0bcb5],
     [0x391c0cb3, 0x4ed8aa4a, 0x5b9cca4f, 0x682e6ff3],
     [0x748f82ee, 0x78a5636f, 0x84c87814, 0x8cc70208],
     [0x90befffa, 0xa4506ceb, 0xbef9a3f7, 0xc67178f2]]"

definition sha_padded_len :: "nat \<Rightarrow> nat" where
  "sha_padded_len input_len = ((input_len + 8) div 64 + 1) * 64"

definition sha_padded :: "bytes \<Rightarrow> bytes" where
  "sha_padded input =
     (let input_len = length input;
          padded_len = sha_padded_len input_len;
          padded = replicate padded_len 0;
          padded = input @ drop input_len padded;
          padded = padded[input_len := 0x80];
          bit_len = (of_nat (input_len * 8) :: u64)
      in fold (\<lambda>i padded. padded[padded_len - 8 + i := ucast (drop_bit (56 - i * 8) bit_len AND 0xff)])
           [0..<8] padded)"

definition sha_load :: "bytes \<Rightarrow> nat \<Rightarrow> nat \<Rightarrow> u32" where
  "sha_load padded chunk i =
     push_bit 24 (ucast (padded ! (chunk * 64 + i * 4))) OR
     push_bit 16 (ucast (padded ! (chunk * 64 + i * 4 + 1))) OR
     push_bit 8 (ucast (padded ! (chunk * 64 + i * 4 + 2))) OR
     ucast (padded ! (chunk * 64 + i * 4 + 3))"

definition sha_extend :: "nat \<Rightarrow> u32 list \<Rightarrow> u32 list" where
  "sha_extend i w =
     (let s0 = rotr32 (w ! (i - 15)) 7 XOR rotr32 (w ! (i - 15)) 18 XOR drop_bit 3 (w ! (i - 15));
          s1 = rotr32 (w ! (i - 2)) 17 XOR rotr32 (w ! (i - 2)) 19 XOR drop_bit 10 (w ! (i - 2))
      in w[i := w ! (i - 16) + s0 + w ! (i - 7) + s1])"

definition sha_schedule :: "bytes \<Rightarrow> nat \<Rightarrow> u32 list" where
  "sha_schedule padded chunk =
     (let w = fold (\<lambda>i w. w[i := sha_load padded chunk i]) [0..<16] (replicate 64 0)
      in fold sha_extend [16..<64] w)"

type_synonym sha_vars = "u32 \<times> u32 \<times> u32 \<times> u32 \<times> u32 \<times> u32 \<times> u32 \<times> u32"

definition sha_round :: "u32 list \<Rightarrow> nat \<Rightarrow> sha_vars \<Rightarrow> sha_vars" where
  "sha_round w i = (\<lambda>(a, b, c, d, e, f, g, hh).
     let S1 = rotr32 e 6 XOR rotr32 e 11 XOR rotr32 e 25;
         ch = (e AND f) XOR (NOT e AND g);
         temp1 = hh + S1 + ch + sha_k ! i + w ! i;
         S0 = rotr32 a 2 XOR rotr32 a 13 XOR rotr32 a 22;
         maj = (a AND b) XOR (a AND c) XOR (b AND c);
         temp2 = S0 + maj
     in (temp1 + temp2, a, b, c, d + temp1, e, f, g))"

definition sha_vars_of :: "u32 list \<Rightarrow> sha_vars" where
  "sha_vars_of h = (h ! 0, h ! 1, h ! 2, h ! 3, h ! 4, h ! 5, h ! 6, h ! 7)"

definition sha_chunk :: "bytes \<Rightarrow> nat \<Rightarrow> u32 list \<Rightarrow> u32 list" where
  "sha_chunk padded chunk h =
     (let w = sha_schedule padded chunk;
          (a, b, c, d, e, f, g, hh) = fold (sha_round w) [0..<64] (sha_vars_of h)
      in [h ! 0 + a, h ! 1 + b, h ! 2 + c, h ! 3 + d, h ! 4 + e, h ! 5 + f, h ! 6 + g, h ! 7 + hh])"

definition sha_store :: "u32 list \<Rightarrow> bytes" where
  "sha_store h = concat (map (\<lambda>i.
     [ucast (drop_bit 24 (h ! i) AND 0xff), ucast (drop_bit 16 (h ! i) AND 0xff),
      ucast (drop_bit 8 (h ! i) AND 0xff), ucast (h ! i AND 0xff)]) [0..<8])"

definition sha256_hash :: "bytes \<Rightarrow> bytes" where
  "sha256_hash input =
     (let padded = sha_padded input
      in sha_store (fold (sha_chunk padded) [0..<sha_padded_len (length input) div 64] sha_h))"

section \<open>The standard\<close>

text \<open>
  The functions of FIPS 180-4, section 4.1.2, with the library's rotation, padding as a
  concatenation, the schedule as a recursion, and the digest as a fold over 16-word blocks.
\<close>

definition fips_Ch :: "u32 \<Rightarrow> u32 \<Rightarrow> u32 \<Rightarrow> u32" where
  "fips_Ch x y z = (x AND y) XOR (NOT x AND z)"

definition fips_Maj :: "u32 \<Rightarrow> u32 \<Rightarrow> u32 \<Rightarrow> u32" where
  "fips_Maj x y z = (x AND y) XOR (x AND z) XOR (y AND z)"

definition fips_Sigma0 :: "u32 \<Rightarrow> u32" where
  "fips_Sigma0 x = word_rotr 2 x XOR word_rotr 13 x XOR word_rotr 22 x"

definition fips_Sigma1 :: "u32 \<Rightarrow> u32" where
  "fips_Sigma1 x = word_rotr 6 x XOR word_rotr 11 x XOR word_rotr 25 x"

definition fips_sigma0 :: "u32 \<Rightarrow> u32" where
  "fips_sigma0 x = word_rotr 7 x XOR word_rotr 18 x XOR drop_bit 3 x"

definition fips_sigma1 :: "u32 \<Rightarrow> u32" where
  "fips_sigma1 x = word_rotr 17 x XOR word_rotr 19 x XOR drop_bit 10 x"

definition be_number :: "bytes \<Rightarrow> 'a::len word" where
  "be_number bs = foldl (\<lambda>acc b. 256 * acc + ucast b) 0 bs"

text \<open>
  The zero padding: the least number of zero bytes that, after the byte \<^verbatim>\<open>0x80\<close>, leaves eight bytes of
  the last block for the length.
\<close>

definition fips_pad :: "bytes \<Rightarrow> bytes" where
  "fips_pad m =
     m @ [0x80] @ replicate ((119 - length m mod 64) mod 64) 0 @ rev (le_bytes 8 (of_nat (8 * length m) :: u64))"

fun fips_W :: "u32 list \<Rightarrow> nat \<Rightarrow> u32" where
  "fips_W M t =
     (if t < 16 then M ! t
      else fips_sigma1 (fips_W M (t - 2)) + fips_W M (t - 7) + fips_sigma0 (fips_W M (t - 15)) + fips_W M (t - 16))"

declare fips_W.simps [simp del]

definition fips_step :: "u32 list \<Rightarrow> nat \<Rightarrow> sha_vars \<Rightarrow> sha_vars" where
  "fips_step M t = (\<lambda>(a, b, c, d, e, f, g, h).
     let T1 = h + fips_Sigma1 e + fips_Ch e f g + sha_k ! t + fips_W M t;
         T2 = fips_Sigma0 a + fips_Maj a b c
     in (T1 + T2, a, b, c, d + T1, e, f, g))"

definition fips_compress :: "u32 list \<Rightarrow> u32 list \<Rightarrow> u32 list" where
  "fips_compress M H =
     (case fold (fips_step M) [0..<64] (sha_vars_of H) of (a, b, c, d, e, f, g, h) \<Rightarrow>
        map2 (+) H [a, b, c, d, e, f, g, h])"

definition fips_block :: "bytes \<Rightarrow> u32 list" where
  "fips_block blk = read_vec be_number 4 16 blk"

definition fips_blocks :: "bytes \<Rightarrow> u32 list list" where
  "fips_blocks bs = read_vec fips_block 64 (length bs div 64) bs"

definition fips_sha256 :: "bytes \<Rightarrow> bytes" where
  "fips_sha256 m = concat (map (\<lambda>x. rev (le_bytes 4 x)) (fold fips_compress (fips_blocks (fips_pad m)) sha_h))"

section \<open>Rotations and loads\<close>

lemma rotr32_word_rotr:
  assumes "0 < c" and "c < 32"
  shows "rotr32 v c = word_rotr c v"
proof (rule bit_word_eqI)
  fix k assume "k < LENGTH(32)"
  with assms show "bit (rotr32 v c) k \<longleftrightarrow> bit (word_rotr c v) k"
    by (auto simp: rotr32_def bit_word_rotr_iff bit_simps mod_if dest: bit_imp_le_length)
      (metis add.commute bit_imp_le_length diff_diff_right le_add_diff_inverse2 len_num1 less_imp_le_nat nat_le_linear not_le)+
qed

lemma byte_add_or: "256 * x + ucast b = push_bit 8 x OR ucast b" for x :: u32 and b :: byte
proof -
  have "push_bit 8 x + ucast b = push_bit 8 x OR (ucast b :: u32)"
    by (rule disjunctive_add) (auto simp: bit_simps dest: bit_imp_le_length)
  then show ?thesis by (simp add: push_bit_eq_mult mult.commute)
qed

lemma be_number_4:
  "be_number [a, b, c, d] =
     (push_bit 24 (ucast a) OR push_bit 16 (ucast b) OR push_bit 8 (ucast c) OR ucast d :: u32)"
  by (simp add: be_number_def byte_add_or push_bit_or push_bit_push_bit or.assoc)

lemma take_drop_4:
  assumes "k + 4 \<le> length xs"
  shows "take 4 (drop k xs) = [xs ! k, xs ! (k + 1), xs ! (k + 2), xs ! (k + 3)]"
  using assms by (intro nth_equalityI) (auto simp: nth_Cons' less_Suc_eq numeral_eq_Suc)

lemma sha_load_be:
  "chunk * 64 + i * 4 + 4 \<le> length bs \<Longrightarrow> sha_load bs chunk i = be_number (take 4 (drop (chunk * 64 + i * 4) bs))"
  by (simp add: sha_load_def take_drop_4 be_number_4)

section \<open>Padding\<close>

lemma sha_padded_len_eq: "sha_padded_len n = n + 9 + (119 - n mod 64) mod 64"
proof -
  obtain q r where n: "n = 64 * q + r" and r: "r < 64"
    by (metis mod_less_divisor mult_div_mod_eq zero_less_numeral)
  show ?thesis
  proof (cases "r < 56")
    case True
    then have "(n + 8) div 64 = q" using n by simp
    moreover have "(119 - r) mod 64 = 55 - r" using True by (simp add: mod_if)
    ultimately show ?thesis using n r True by (simp add: sha_padded_len_def)
  next
    case False
    then have "(n + 8) div 64 = q + 1" using n r by simp
    moreover have "(119 - r) mod 64 = 119 - r" using False r by simp
    ultimately show ?thesis using n r False by (simp add: sha_padded_len_def)
  qed
qed

lemma be_length_bytes:
  "map (\<lambda>i. ucast (drop_bit (56 - i * 8) w AND 0xff)) [0..<8] = rev (le_bytes 8 (w :: u64))"
proof (rule nth_equalityI)
  fix i assume "i < length (map (\<lambda>i. ucast (drop_bit (56 - i * 8) w AND 0xff) :: byte) [0..<8])"
  then have i: "i < 8" by simp
  then have "8 * (8 - Suc i) = 56 - i * 8" by simp
  with i show "map (\<lambda>i. ucast (drop_bit (56 - i * 8) w AND 0xff)) [0..<8] ! i = rev (le_bytes 8 w) ! i"
    by (simp add: rev_nth nth_le_bytes)
qed simp

lemma sha_padded_fips: "sha_padded m = fips_pad m"
proof -
  define k where "k = (119 - length m mod 64) mod 64"
  have L: "sha_padded_len (length m) = length m + 9 + k" by (simp add: sha_padded_len_eq k_def)
  let ?p = "(m @ replicate (9 + k) 0)[length m := 0x80 :: byte]"
  let ?f = "\<lambda>i. ucast (drop_bit (56 - i * 8) (of_nat (length m * 8) :: u64) AND 0xff) :: byte"
  have p: "?p = m @ [0x80] @ replicate k 0 @ replicate 8 0"
  proof -
    have "replicate (9 + k) (0 :: byte) = 0 # replicate k 0 @ replicate 8 0"
      by (simp add: replicate_add [symmetric] add.commute) (simp add: numeral_eq_Suc)
    then show ?thesis by (simp add: list_update_append)
  qed
  have "sha_padded m = fold (\<lambda>i h. h[length m + 1 + k + i := ?f i]) [0..<8] ?p"
    by (simp add: sha_padded_def Let_def L)
  also have "\<dots> = take (length m + 1 + k) ?p @ map ?f [0..<8] @ drop (length m + 1 + k + 8) ?p"
    by (rule fold_list_update_range) simp
  also have "\<dots> = fips_pad m"
    unfolding p fips_pad_def k_def [symmetric] be_length_bytes by (simp add: mult.commute)
  finally show ?thesis .
qed

lemma length_fips_pad: "length (fips_pad m) = sha_padded_len (length m)"
  by (simp add: fips_pad_def sha_padded_len_eq)

section \<open>Schedule and compression\<close>

lemmas sha_rotations = rotr32_word_rotr fips_sigma0_def fips_sigma1_def fips_Sigma0_def fips_Sigma1_def

lemma sha_extend_eq:
  "sha_extend i w = w[i := w ! (i - 16) + fips_sigma0 (w ! (i - 15)) + w ! (i - 7) + fips_sigma1 (w ! (i - 2))]"
  by (simp add: sha_extend_def Let_def sha_rotations)

lemma sha_extend_W:
  assumes "length w = 64" and "\<forall>t<16. w ! t = M ! t" and "16 \<le> n" and "n \<le> 64"
  shows "length (fold sha_extend [16..<n] w) = 64 \<and> (\<forall>t<n. fold sha_extend [16..<n] w ! t = fips_W M t)"
  using assms(3,4)
proof (induction n rule: dec_induct)
  case base
  with assms(1,2) show ?case by (simp add: fips_W.simps)
next
  case (step n)
  let ?w = "fold sha_extend [16..<n] w"
  have IH: "length ?w = 64" "\<And>t. t < n \<Longrightarrow> ?w ! t = fips_W M t" using step by auto
  have W: "fips_W M n = fips_sigma1 (fips_W M (n - 2)) + fips_W M (n - 7) + fips_sigma0 (fips_W M (n - 15)) + fips_W M (n - 16)"
    using step.hyps by (subst fips_W.simps) simp
  have "fold sha_extend [16..<Suc n] w = ?w[n := fips_W M n]"
    using step.hyps by (simp add: sha_extend_eq IH W ac_simps)
  with IH step.prems show ?case by (auto simp: nth_list_update less_Suc_eq)
qed

lemma sha_schedule_W:
  assumes "chunk * 64 + 64 \<le> length bs" and "t < 64"
  shows "sha_schedule bs chunk ! t = fips_W (fips_block (take 64 (drop (chunk * 64) bs))) t"
proof -
  let ?M = "fips_block (take 64 (drop (chunk * 64) bs))"
  let ?w = "map (sha_load bs chunk) [0..<16] @ drop 16 (replicate 64 0)"
  have M: "?M ! i = sha_load bs chunk i" if "i < 16" for i
  proof -
    have "take 4 (drop (i * 4) (take 64 (drop (chunk * 64) bs))) = take 4 (drop (chunk * 64 + i * 4) bs)"
      using that by (simp add: drop_take min_def ac_simps)
    with that assms(1) show ?thesis by (simp add: fips_block_def read_vec_def sha_load_be)
  qed
  have "fold (\<lambda>i w. w[i := sha_load bs chunk i]) [0..<16] (replicate 64 0) = ?w"
    using fold_list_update_range [of 0 16 "replicate 64 0 :: u32 list" "sha_load bs chunk"] by simp
  then have "sha_schedule bs chunk = fold sha_extend [16..<64] ?w" by (simp add: sha_schedule_def)
  moreover have "\<forall>t<16. ?w ! t = ?M ! t" by (simp add: M nth_append)
  ultimately show ?thesis using sha_extend_W [of ?w ?M 64] assms(2) by simp
qed

lemma sha_round_fips: "w ! t = fips_W M t \<Longrightarrow> sha_round w t = fips_step M t"
  by (simp add: sha_round_def fips_step_def sha_rotations fips_Ch_def fips_Maj_def fun_eq_iff)

lemma map2_plus_8:
  assumes "length h = 8"
  shows "[h ! 0 + a, h ! 1 + b, h ! 2 + c, h ! 3 + d, h ! 4 + e, h ! 5 + f, h ! 6 + g, h ! 7 + hh]
    = map2 (+) h [a, b, c, d, e, f, g, hh :: u32]"
  using assms by (auto simp: numeral_eq_Suc length_Suc_conv)

lemma sha_chunk_fips:
  assumes "chunk * 64 + 64 \<le> length bs" and "length h = 8"
  shows "sha_chunk bs chunk h = fips_compress (fips_block (take 64 (drop (chunk * 64) bs))) h"
proof -
  let ?M = "fips_block (take 64 (drop (chunk * 64) bs))"
  have "fold (sha_round (sha_schedule bs chunk)) [0..<64] v = fold (fips_step ?M) [0..<64] v" for v
    by (rule fold_cong) (auto intro: sha_round_fips simp: sha_schedule_W [OF assms(1)])
  then show ?thesis
    by (simp add: sha_chunk_def fips_compress_def map2_plus_8 [OF assms(2), symmetric] split: prod.splits)
qed

lemma length_fips_compress: "length h = 8 \<Longrightarrow> length (fips_compress M h) = 8"
  by (simp add: fips_compress_def split: prod.splits)

lemma sha_chunks_fips:
  assumes "n * 64 \<le> length bs"
  shows "fold (sha_chunk bs) [0..<n] sha_h = fold fips_compress (read_vec fips_block 64 n bs) sha_h \<and>
    length (fold (sha_chunk bs) [0..<n] sha_h) = 8"
  using assms
proof (induction n)
  case 0
  show ?case by (simp add: read_vec_def sha_h_def)
next
  case (Suc n)
  then show ?case by (auto simp: read_vec_def sha_chunk_fips length_fips_compress)
qed

lemma sha_store_be:
  assumes "length h = 8"
  shows "sha_store h = concat (map (\<lambda>x. rev (le_bytes 4 x)) h)"
proof -
  have "[ucast (drop_bit 24 x AND 0xff), ucast (drop_bit 16 x AND 0xff),
      ucast (drop_bit 8 x AND 0xff), ucast (x AND 0xff)] = rev (le_bytes 4 x)" for x :: u32
    by (simp add: le_bytes_def upt_numerals)
  then have "sha_store h = concat (map ((\<lambda>x. rev (le_bytes 4 x)) \<circ> (!) h) [0..<8])"
    by (simp add: sha_store_def comp_def)
  also have "map ((\<lambda>x. rev (le_bytes 4 x)) \<circ> (!) h) [0..<8] = map (\<lambda>x. rev (le_bytes 4 x)) h"
    using assms map_nth [of h] by (metis map_map)
  finally show ?thesis .
qed

lemma length_sha256_hash [simp]: "length (sha256_hash m) = 32"
  by (simp add: sha256_hash_def sha_store_def Let_def length_concat comp_def sum_list_triv)


end
