(* ===== verification/ProgPow.thy ===== *)
theory ProgPow
  imports Sha256 TypeBridge
begin

text \<open>
  Model of \<^verbatim>\<open>BHC/src/crypto/progpow.{h,cpp}\<close>: the class \<^verbatim>\<open>CProgPoW\<close> with its light cache, the mixing
  loop, the hash, and the two comparisons with a target. The generators of the C++ library are
  modelled from the standard's definition of the Mersenne twister engine. \<open>None\<close> is undefined
  behaviour: a store outside a vector, a remainder by zero, a shift by the width of the type. The
  bytes an uninitialised local array holds are an argument (\<open>uninit\<close>).
\<close>

section \<open>The Mersenne twister engines\<close>

record 'w mt_params =
  mt_n :: nat
  mt_m :: nat
  mt_r :: nat
  mt_a :: "'w"
  mt_u :: nat
  mt_d :: "'w"
  mt_s :: nat
  mt_b :: "'w"
  mt_t :: nat
  mt_c :: "'w"
  mt_l :: nat
  mt_f :: "'w"

definition mt19937 :: "u32 mt_params" where
  "mt19937 = \<lparr>mt_n = 624, mt_m = 397, mt_r = 31, mt_a = 0x9908b0df, mt_u = 11, mt_d = 0xffffffff,
     mt_s = 7, mt_b = 0x9d2c5680, mt_t = 15, mt_c = 0xefc60000, mt_l = 18, mt_f = 1812433253\<rparr>"

definition mt19937_64 :: "u64 mt_params" where
  "mt19937_64 = \<lparr>mt_n = 312, mt_m = 156, mt_r = 31, mt_a = 0xb5026f5aa96619e9, mt_u = 29,
     mt_d = 0x5555555555555555, mt_s = 17, mt_b = 0x71d67fffeda60000, mt_t = 37,
     mt_c = 0xfff7eee000000000, mt_l = 43, mt_f = 6364136223846793005\<rparr>"

fun mt_fill :: "'a::len word \<Rightarrow> nat \<Rightarrow> nat \<Rightarrow> 'a word \<Rightarrow> 'a word list" where
  "mt_fill f i 0 x = []"
| "mt_fill f i (Suc k) x = x # mt_fill f (Suc i) k (f * (x XOR drop_bit (LENGTH('a) - 2) x) + of_nat (Suc i))"

definition mt_seed :: "'a::len word mt_params \<Rightarrow> 'a word \<Rightarrow> 'a word list" where
  "mt_seed p seed = mt_fill (mt_f p) 0 (mt_n p) seed"

definition mt_twist :: "'a::len word mt_params \<Rightarrow> 'a word list \<Rightarrow> 'a word" where
  "mt_twist p x =
     (let y = (x ! 0 AND NOT (mask (mt_r p))) OR (x ! 1 AND mask (mt_r p))
      in x ! mt_m p XOR drop_bit 1 y XOR (if bit y 0 then mt_a p else 0))"

definition mt_temper :: "'a::len word mt_params \<Rightarrow> 'a word \<Rightarrow> 'a word" where
  "mt_temper p z =
     (let z = z XOR (drop_bit (mt_u p) z AND mt_d p);
          z = z XOR (push_bit (mt_s p) z AND mt_b p);
          z = z XOR (push_bit (mt_t p) z AND mt_c p)
      in z XOR drop_bit (mt_l p) z)"

definition mt_next :: "'a::len word mt_params \<Rightarrow> 'a word list \<Rightarrow> 'a word \<times> 'a word list" where
  "mt_next p x = (let z = mt_twist p x in (mt_temper p z, tl x @ [z]))"

section \<open>Constants and state\<close>

definition PROGPOW_LANES :: nat where "PROGPOW_LANES = 16"
definition PROGPOW_REGS :: nat where "PROGPOW_REGS = 32"
definition PROGPOW_CACHE_BYTES :: nat where "PROGPOW_CACHE_BYTES = 16 * 1024"
definition PROGPOW_DAG_BYTES :: nat where "PROGPOW_DAG_BYTES = 2 * 1024 * 1024 * 1024"
definition PROGPOW_PERIOD :: u32 where "PROGPOW_PERIOD = 12500"
definition FNV_PRIME :: u32 where "FNV_PRIME = 0x01000193"

record CProgPoW =
  m_epoch :: u64
  m_block_number :: u64
  m_cache :: bytes
  m_dag_light :: bytes

definition new_CProgPoW :: CProgPoW where
  "new_CProgPoW = \<lparr>m_epoch = 0, m_block_number = 0, m_cache = [], m_dag_light = []\<rparr>"

definition clz32 :: "u32 \<Rightarrow> u32" where
  "clz32 v = (if v \<noteq> 0 then of_nat (length (takeWhile (\<lambda>i. \<not> bit v i) (rev [0..<32]))) else 32)"

definition popcount32 :: "u32 \<Rightarrow> u32" where
  "popcount32 v = of_nat (length (filter (bit v) [0..<32]))"

definition fnv1a :: "u32 \<Rightarrow> u32 \<Rightarrow> u32" where
  "fnv1a h d = (h XOR d) * FNV_PRIME"

definition fnv1a_vec :: "u32 list \<Rightarrow> u32 \<Rightarrow> u32" where
  "fnv1a_vec v d = fold (\<lambda>u h. fnv1a h u) v d"

definition GetEpoch :: "u64 \<Rightarrow> u64" where
  "GetEpoch block_number = block_number div ucast PROGPOW_PERIOD"

section \<open>Cache and dataset\<close>

text \<open>
  \<^verbatim>\<open>memcpy\<close> into a vector at a byte offset, \<^verbatim>\<open>resize\<close> with zero fill, and the 32-bit view of a byte
  vector on a little-endian host.
\<close>

definition store_at :: "nat \<Rightarrow> bytes \<Rightarrow> bytes \<Rightarrow> bytes option" where
  "store_at off bs buf =
     (if off + length bs \<le> length buf
      then Some (take off buf @ bs @ drop (off + length bs) buf) else None)"

definition vec_resize :: "nat \<Rightarrow> bytes \<Rightarrow> bytes" where
  "vec_resize n v = take n v @ replicate (n - length v) 0"

definition word32_at :: "bytes \<Rightarrow> nat \<Rightarrow> u32" where
  "word32_at buf j = le_word (take 4 (drop (j * 4) buf))"

definition cache_fill_step :: "nat \<Rightarrow> u64 list \<times> bytes \<Rightarrow> (u64 list \<times> bytes) option" where
  "cache_fill_step i = (\<lambda>(rng, cache).
     let (val, rng) = mt_next mt19937_64 rng
     in map_option (\<lambda>cache. (rng, cache)) (store_at (i * 8) (le_bytes 8 val) cache))"

definition cache_mix_step :: "nat \<Rightarrow> bytes \<Rightarrow> bytes option" where
  "cache_mix_step i cache =
     (let N = PROGPOW_CACHE_BYTES div 4;
          prev = word32_at cache ((i + N - 1) mod N)
      in store_at (i * 4) (le_bytes 4 (fnv1a (word32_at cache i) prev)) cache)"

text \<open>A loop whose body may fail stops at the first failure.\<close>

fun loop_opt :: "('i \<Rightarrow> 's \<Rightarrow> 's option) \<Rightarrow> 'i list \<Rightarrow> 's \<Rightarrow> 's option" where
  "loop_opt body [] s = Some s"
| "loop_opt body (i # is) s = (case body i s of None \<Rightarrow> None | Some s' \<Rightarrow> loop_opt body is s')"

definition initCache :: "u64 \<Rightarrow> CProgPoW \<Rightarrow> CProgPoW option" where
  "initCache block_number c =
     (let epoch = GetEpoch block_number
      in if m_epoch c = epoch \<and> m_cache c \<noteq> [] then Some c
         else
           let c = c\<lparr>m_epoch := epoch, m_block_number := block_number\<rparr>;
               cache_size = PROGPOW_CACHE_BYTES;
               cache = vec_resize cache_size (m_cache c)
           in case loop_opt cache_fill_step [0..<cache_size div 8] (mt_seed mt19937_64 0, cache) of
                None \<Rightarrow> None
              | Some (rng, cache) \<Rightarrow>
                  (case loop_opt cache_mix_step [0..<cache_size div 4] cache of
                     None \<Rightarrow> None
                   | Some cache \<Rightarrow> Some (c\<lparr>m_cache := cache\<rparr>)))"

definition calcDatasetItem :: "bytes \<Rightarrow> u32 \<Rightarrow> u32 option" where
  "calcDatasetItem cache index =
     (let num_cache_words = length cache div 4
      in loop_opt (\<lambda>i mix.
           if (of_nat num_cache_words :: u32) = 0 then None
           else let idx = fnv1a mix (of_nat i) mod of_nat num_cache_words
                in Some (fnv1a mix (word32_at cache (unat idx)))) [0..<256] index)"

definition dag_step :: "bytes \<Rightarrow> nat \<Rightarrow> bytes \<Rightarrow> bytes option" where
  "dag_step cache i dag =
     (case calcDatasetItem cache (of_nat i) of
        None \<Rightarrow> None
      | Some item \<Rightarrow> store_at (i * 4) (le_bytes 4 item) dag)"

definition initDag :: "u64 \<Rightarrow> CProgPoW \<Rightarrow> CProgPoW option" where
  "initDag block_number c =
     (case initCache block_number c of
        None \<Rightarrow> None
      | Some c \<Rightarrow>
          let dag_size = PROGPOW_DAG_BYTES
          in map_option (\<lambda>dag. c\<lparr>m_dag_light := dag\<rparr>)
               (loop_opt (dag_step (m_cache c)) [0..<dag_size div 64] (vec_resize (dag_size div 64) (m_dag_light c))))"

section \<open>The mixing loop\<close>

text \<open>
  The variable rotations of the mixing loop shift by \<^verbatim>\<open>32 - c\<close>: at \<^verbatim>\<open>c == 0\<close> that is a shift by the
  width of the type, which C++ leaves undefined.
\<close>

definition rotl_by :: "u32 \<Rightarrow> nat \<Rightarrow> u32 option" where
  "rotl_by v c = (if c = 0 then None else Some (rotl32 v c))"

definition rotr_by :: "u32 \<Rightarrow> nat \<Rightarrow> u32 option" where
  "rotr_by v c = (if c = 0 then None else Some (rotr32 v c))"

definition progpow_op :: "nat \<Rightarrow> nat \<Rightarrow> u32 \<Rightarrow> u32 \<Rightarrow> u32 option" where
  "progpow_op op sh x y =
     (if op = 0 then Some (x + y)
      else if op = 1 then Some (x * y)
      else if op = 2 then Some (x XOR y)
      else if op = 3 then rotl_by x sh
      else if op = 4 then rotr_by x sh
      else if op = 5 then Some (clz32 x)
      else if op = 6 then Some (popcount32 x)
      else if op = 7 then Some (x AND y)
      else if op = 8 then Some (x OR y)
      else if op = 9 then Some (NOT x)
      else if op = 10 then Some (x - y)
      else if op = 11 then Some (push_bit sh x)
      else if op = 12 then Some (drop_bit sh x)
      else if op = 13 then Some (fnv1a x y)
      else if op = 14 then Some (x XOR rotl32 y 7)
      else Some x)"

definition mix_step :: "nat \<Rightarrow> u32 list \<times> u32 list \<Rightarrow> (u32 list \<times> u32 list) option" where
  "mix_step loop = (\<lambda>(rng, mix).
     let (r, rng) = mt_next mt19937 rng;
         lane = unat r mod PROGPOW_LANES;
         op = unat (drop_bit 24 r) mod 16
     in case progpow_op op (unat (drop_bit 28 r) mod 32) (mix ! lane) (mix ! ((lane + 1) mod PROGPOW_LANES)) of
          None \<Rightarrow> None
        | Some result \<Rightarrow> Some (rng, mix[lane := fnv1a (mix ! lane) result]))"

definition progpow_seed :: "u64 \<Rightarrow> bytes \<Rightarrow> u32" where
  "progpow_seed nonce header_hash =
     (let seed = ucast (nonce AND 0xFFFFFFFF);
          seed = fnv1a seed (ucast (drop_bit 32 nonce))
      in fold (\<lambda>i seed. fnv1a seed (le_word (take 4 (drop i header_hash)))) (for_list 0 (length header_hash) 4) seed)"

definition hashLoop :: "u64 \<Rightarrow> u64 \<Rightarrow> bytes \<Rightarrow> u32 list option" where
  "hashLoop block_number nonce header_hash =
     (let seed = progpow_seed nonce header_hash;
          mix = map (\<lambda>lane. fnv1a seed (of_nat lane)) [0..<PROGPOW_LANES];
          epoch = GetEpoch block_number;
          prog_seed = ucast epoch
      in map_option snd (loop_opt mix_step [0..<64] (mt_seed mt19937 prog_seed, mix)))"

definition Initialize :: "u64 \<Rightarrow> CProgPoW \<Rightarrow> CProgPoW option" where
  "Initialize block_number c =
     map_option (\<lambda>c. c\<lparr>m_block_number := block_number\<rparr>) (initCache block_number c)"

definition Hash :: "CProgPoW \<Rightarrow> bytes \<Rightarrow> u64 \<Rightarrow> bytes \<Rightarrow> bytes option" where
  "Hash c header_hash nonce output =
     (case hashLoop (m_block_number c) nonce header_hash of
        None \<Rightarrow> None
      | Some mix \<Rightarrow>
          let final_hash = fold (\<lambda>lane h. fnv1a h (mix ! lane)) [0..<PROGPOW_LANES] 0x811c9dc5;
              hash_input = le_bytes 4 final_hash @ le_bytes 8 nonce @ take 32 header_hash @ replicate 20 0;
              sha256_output = sha256_hash hash_input
          in Some (fold (\<lambda>i output. output[i := ucast
               (push_bit 24 (ucast (sha256_output ! (i * 4))) OR
                push_bit 16 (ucast (sha256_output ! (i * 4 + 1))) OR
                push_bit 8 (ucast (sha256_output ! (i * 4 + 2))) OR
                ucast (sha256_output ! (i * 4 + 3)) :: u32)]) [0..<8] output))"

text \<open>The comparison loop of \<^verbatim>\<open>Verify\<close> and \<^verbatim>\<open>CheckProgPoWProof\<close>, from the first byte on.\<close>

fun bytes_le :: "bytes \<Rightarrow> bytes \<Rightarrow> bool" where
  "bytes_le (x # xs) (y # ys) = (if x < y then True else if y < x then False else bytes_le xs ys)"
| "bytes_le _ _ = True"

definition Verify_pow :: "bytes \<Rightarrow> CProgPoW \<Rightarrow> bytes \<Rightarrow> u64 \<Rightarrow> bytes \<Rightarrow> bool option" where
  "Verify_pow uninit c header_hash nonce target =
     map_option (\<lambda>output. bytes_le output target) (Hash c header_hash nonce uninit)"

definition ProgPoWHash :: "bytes \<Rightarrow> bytes \<Rightarrow> u64 \<Rightarrow> u64 \<Rightarrow> bytes option" where
  "ProgPoWHash uninit header_hash nonce block_number =
     (case Initialize block_number new_CProgPoW of
        None \<Rightarrow> None
      | Some progpow \<Rightarrow> Hash progpow header_hash nonce uninit)"

definition CheckProgPoWProof :: "bytes \<Rightarrow> bytes \<Rightarrow> u64 \<Rightarrow> u64 \<Rightarrow> bytes \<Rightarrow> bool option" where
  "CheckProgPoWProof uninit header_hash nonce block_number target =
     map_option (\<lambda>hash. bytes_le hash target) (ProgPoWHash uninit header_hash nonce block_number)"

section \<open>Reference notions\<close>

text \<open>
  The eight bytes of a digest that depend on the inputs, as a function of the epoch only, and the
  number a byte string denotes when its first byte is the most significant.
\<close>

definition progpow_digest :: "u64 \<Rightarrow> bytes \<Rightarrow> u64 \<Rightarrow> bytes option" where
  "progpow_digest block_number header_hash nonce =
     map_option (\<lambda>mix.
       let f = fold (\<lambda>lane h. fnv1a h (mix ! lane)) [0..<PROGPOW_LANES] 0x811c9dc5;
           d = sha256_hash (le_bytes 4 f @ le_bytes 8 nonce @ header_hash @ replicate 20 0)
       in map (\<lambda>i. d ! (4 * i + 3)) [0..<8])
     (hashLoop (GetEpoch block_number * ucast PROGPOW_PERIOD) nonce header_hash)"

definition be_nat :: "bytes \<Rightarrow> nat" where
  "be_nat bs = foldl (\<lambda>acc b. 256 * acc + unat b) 0 bs"

section \<open>Loops that may fail\<close>

lemma loop_opt_append:
  "loop_opt body (xs @ ys) s = (case loop_opt body xs s of None \<Rightarrow> None | Some s' \<Rightarrow> loop_opt body ys s')"
  by (induction xs arbitrary: s) (auto split: option.splits)

lemma loop_opt_total:
  assumes "P s" and "\<And>i s. i \<in> set is \<Longrightarrow> P s \<Longrightarrow> \<exists>s'. body i s = Some s' \<and> P s'"
  shows "\<exists>s'. loop_opt body is s = Some s' \<and> P s'"
  using assms
proof (induction "is" arbitrary: s)
  case Nil
  then show ?case by simp
next
  case (Cons i "is")
  from Cons.prems(2) [of i s] Cons.prems(1) obtain s' where "body i s = Some s'" "P s'" by auto
  moreover have "\<exists>s''. loop_opt body is s' = Some s'' \<and> P s''"
    using Cons.prems(2) \<open>P s'\<close> by (intro Cons.IH) auto
  ultimately show ?case by simp
qed

lemma loop_opt_fails:
  assumes "P s" and "\<And>i s s'. P s \<Longrightarrow> body i s = Some s' \<Longrightarrow> P s'"
    and "k \<in> set is" and "\<And>s. P s \<Longrightarrow> body k s = None"
  shows "loop_opt body is s = None"
  using assms(1,3)
proof (induction "is" arbitrary: s)
  case (Cons i "is")
  then show ?case using assms(2,4) by (cases "i = k") (auto split: option.splits)
qed simp

section \<open>Cache and dataset\<close>

lemma length_store_at: "store_at off bs buf = Some buf' \<Longrightarrow> length buf' = length buf"
  by (auto simp: store_at_def split: if_splits)

lemma length_vec_resize [simp]: "length (vec_resize n v) = n"
  by (simp add: vec_resize_def)

text \<open>Filling overwrites the front of the cache with bytes that do not depend on what it held.\<close>

lemma cache_fill:
  "\<exists>rng' b. length b = 8 * n \<and>
     (\<forall>c. 8 * n \<le> length c \<longrightarrow> loop_opt cache_fill_step [0..<n] (rng, c) = Some (rng', b @ drop (8 * n) c))"
proof (induction n)
  case 0
  show ?case by auto
next
  case (Suc n)
  then obtain rng' b where b: "length b = 8 * n"
    and IH: "\<And>c. 8 * n \<le> length c \<Longrightarrow> loop_opt cache_fill_step [0..<n] (rng, c) = Some (rng', b @ drop (8 * n) c)"
    by blast
  obtain val rng'' where v: "mt_next mt19937_64 rng' = (val, rng'')" by fastforce
  have "loop_opt cache_fill_step [0..<Suc n] (rng, c) = Some (rng'', (b @ le_bytes 8 val) @ drop (8 * Suc n) c)"
    if "8 * Suc n \<le> length c" for c
    using that b by (simp add: loop_opt_append IH cache_fill_step_def v store_at_def mult.commute)
  with b show ?case by (intro exI [of _ rng''] exI [of _ "b @ le_bytes 8 val"]) simp
qed

lemma cache_mix_total:
  assumes "length c = PROGPOW_CACHE_BYTES"
  shows "\<exists>c'. loop_opt cache_mix_step [0..<PROGPOW_CACHE_BYTES div 4] c = Some c' \<and> length c' = PROGPOW_CACHE_BYTES"
proof (rule loop_opt_total [where P = "\<lambda>c. length c = PROGPOW_CACHE_BYTES"])
  fix i and c :: bytes
  assume "i \<in> set [0..<PROGPOW_CACHE_BYTES div 4]" and c: "length c = PROGPOW_CACHE_BYTES"
  then have "\<exists>c'. cache_mix_step i c = Some c'"
    by (auto simp: cache_mix_step_def store_at_def PROGPOW_CACHE_BYTES_def Let_def)
  then show "\<exists>c'. cache_mix_step i c = Some c' \<and> length c' = PROGPOW_CACHE_BYTES"
    using c length_store_at unfolding cache_mix_step_def Let_def by metis
qed (rule assms)

lemma cache_fixed:
  "\<exists>cache. length cache = PROGPOW_CACHE_BYTES \<and>
     (\<forall>b c. \<not> (m_epoch c = GetEpoch b \<and> m_cache c \<noteq> []) \<longrightarrow>
        initCache b c = Some (c\<lparr>m_epoch := GetEpoch b, m_block_number := b, m_cache := cache\<rparr>))"
proof -
  let ?n = "PROGPOW_CACHE_BYTES div 8"
  have n: "8 * ?n = PROGPOW_CACHE_BYTES" by (simp add: PROGPOW_CACHE_BYTES_def)
  obtain rng b where b: "length b = 8 * ?n"
    and fill: "\<And>c. 8 * ?n \<le> length c \<Longrightarrow>
      loop_opt cache_fill_step [0..<?n] (mt_seed mt19937_64 0, c) = Some (rng, b @ drop (8 * ?n) c)"
    using cache_fill [of ?n "mt_seed mt19937_64 0"] by blast
  obtain cache where cache: "loop_opt cache_mix_step [0..<PROGPOW_CACHE_BYTES div 4] b = Some cache"
    "length cache = PROGPOW_CACHE_BYTES"
    using cache_mix_total [of b] b n by auto
  have "loop_opt cache_fill_step [0..<?n] (mt_seed mt19937_64 0, vec_resize PROGPOW_CACHE_BYTES v) = Some (rng, b)" for v
    using fill [of "vec_resize PROGPOW_CACHE_BYTES v"] n by simp
  then have "initCache bn c = Some (c\<lparr>m_epoch := GetEpoch bn, m_block_number := bn, m_cache := cache\<rparr>)"
    if "\<not> (m_epoch c = GetEpoch bn \<and> m_cache c \<noteq> [])" for bn c
    using that cache(1) by (auto simp: initCache_def Let_def)
  with cache(2) show ?thesis by blast
qed

text \<open>
  The light cache of the proof of work is the same for every epoch: whenever an object that is
  fresh or already holds it is initialised, for any block, initialisation succeeds within the bounds
  of the cache, records the block and its epoch, and leaves the one 16384-byte cache.
\<close>

theorem progpow_cache_fixed:
  "\<exists>cache. length cache = PROGPOW_CACHE_BYTES \<and>
     (\<forall>b c. m_cache c = [] \<or> m_cache c = cache \<longrightarrow>
        Initialize b c = Some (c\<lparr>m_epoch := GetEpoch b, m_block_number := b, m_cache := cache\<rparr>))"
proof -
  obtain cache where l: "length cache = PROGPOW_CACHE_BYTES"
    and init: "\<And>b c. \<not> (m_epoch c = GetEpoch b \<and> m_cache c \<noteq> []) \<Longrightarrow>
      initCache b c = Some (c\<lparr>m_epoch := GetEpoch b, m_block_number := b, m_cache := cache\<rparr>)"
    using cache_fixed by blast
  have "Initialize b c = Some (c\<lparr>m_epoch := GetEpoch b, m_block_number := b, m_cache := cache\<rparr>)"
    if "m_cache c = [] \<or> m_cache c = cache" for b c
  proof (cases "m_epoch c = GetEpoch b \<and> m_cache c \<noteq> []")
    case True
    with that have "c\<lparr>m_epoch := GetEpoch b, m_cache := cache\<rparr> = c" by (cases c) auto
    moreover have "initCache b c = Some c" using True by (simp add: initCache_def)
    ultimately show ?thesis by (cases c) (simp add: Initialize_def)
  next
    case False
    then show ?thesis using init by (simp add: Initialize_def)
  qed
  with l show ?thesis by blast
qed

theorem progpow_cache_fixed_witness:
  "\<exists>cache. length cache = PROGPOW_CACHE_BYTES \<and>
     Initialize 25000 new_CProgPoW = Some (new_CProgPoW\<lparr>m_epoch := GetEpoch 25000, m_block_number := 25000, m_cache := cache\<rparr>) \<and>
     Initialize 7 new_CProgPoW = Some (new_CProgPoW\<lparr>m_epoch := GetEpoch 7, m_block_number := 7, m_cache := cache\<rparr>)"
proof -
  obtain cache where "length cache = PROGPOW_CACHE_BYTES"
    and "\<And>b c. m_cache c = [] \<or> m_cache c = cache \<Longrightarrow>
      Initialize b c = Some (c\<lparr>m_epoch := GetEpoch b, m_block_number := b, m_cache := cache\<rparr>)"
    using progpow_cache_fixed by blast
  then show ?thesis by (intro exI [of _ cache]) (simp add: new_CProgPoW_def)
qed

text \<open>
  Building the dataset always runs out of bounds: the vector is sized at one byte per item and
  every item is stored as four bytes, so \<^verbatim>\<open>initDag\<close> writes past the end for every block number and
  every state of the object.
\<close>

theorem progpow_dag_overruns: "initDag b c = None"
proof (cases "initCache b c")
  case None
  then show ?thesis by (simp add: initDag_def)
next
  case (Some c')
  let ?n = "PROGPOW_DAG_BYTES div 64"
  have "loop_opt (dag_step (m_cache c')) [0..<?n] (vec_resize ?n (m_dag_light c')) = None"
  proof (rule loop_opt_fails [where P = "\<lambda>d. length d = ?n" and k = "?n div 4"])
    show "length (vec_resize ?n (m_dag_light c')) = ?n" by simp
    show "?n div 4 \<in> set [0..<?n]" by (simp add: PROGPOW_DAG_BYTES_def)
    show "dag_step (m_cache c') (?n div 4) d = None" if "length d = ?n" for d
      using that by (auto simp: dag_step_def store_at_def PROGPOW_DAG_BYTES_def split: option.splits)
    show "length d' = ?n" if "length d = ?n" and "dag_step (m_cache c') i d = Some d'" for i d d'
      using that by (auto simp: dag_step_def split: option.splits dest: length_store_at)
  qed
  with Some show ?thesis by (simp add: initDag_def Let_def)
qed

section \<open>The hash\<close>

lemma epoch_start: "GetEpoch (GetEpoch b * ucast PROGPOW_PERIOD) = GetEpoch b"
proof (rule word_unat_eq_iff [THEN iffD2])
  have p: "unat (ucast PROGPOW_PERIOD :: u64) = 12500" by (simp add: PROGPOW_PERIOD_def)
  have "unat b div 12500 * 12500 \<le> unat b" by simp
  with unat_bound [of b] have "unat b div 12500 * 12500 < 2 ^ 64" by simp
  then have "unat (GetEpoch b * ucast PROGPOW_PERIOD) = unat b div 12500 * 12500"
    by (simp add: unat_mult_lem [THEN iffD1] GetEpoch_def unat_div_distrib p)
  then show "unat (GetEpoch (GetEpoch b * ucast PROGPOW_PERIOD)) = unat (GetEpoch b)"
    by (simp add: GetEpoch_def unat_div_distrib p)
qed

lemma hashLoop_epoch: "hashLoop (GetEpoch b * ucast PROGPOW_PERIOD) nonce h = hashLoop b nonce h"
  by (simp add: hashLoop_def epoch_start)

text \<open>Only the last of the four bytes assembled for an output byte survives the narrowing.\<close>

lemma narrowed_byte:
  "(ucast (push_bit 24 (ucast a) OR push_bit 16 (ucast b) OR push_bit 8 (ucast c) OR ucast d :: u32) :: byte)
     = (d :: byte)"
  by (rule bit_word_eqI) (auto simp: bit_simps)

lemma Hash_eq:
  assumes "length h = 32" and "length out = 32"
  shows "Hash c h nonce out = map_option (\<lambda>d. d @ drop 8 out) (progpow_digest (m_block_number c) h nonce)"
proof -
  have "fold (\<lambda>i output. output[i := f i]) [0..<8] out = map f [0..<8] @ drop 8 out" for f :: "nat \<Rightarrow> byte"
    using fold_list_update_range [of 0 8 out f] assms(2) by simp
  with assms(1) show ?thesis
    by (simp add: Hash_def progpow_digest_def narrowed_byte hashLoop_epoch Let_def mult.commute [of 4]
        option.map_comp comp_def split: option.splits)
qed

lemma ProgPoWHash_eq:
  assumes "length h = 32" and "length uninit = 32"
  shows "ProgPoWHash uninit h nonce b = map_option (\<lambda>d. d @ drop 8 uninit) (progpow_digest b h nonce)"
proof -
  have "\<exists>c. Initialize b new_CProgPoW = Some c \<and> m_block_number c = b"
    using cache_fixed by (auto simp: Initialize_def new_CProgPoW_def)
  with assms show ?thesis by (auto simp: ProgPoWHash_def Hash_eq)
qed

lemma length_progpow_digest: "progpow_digest b h nonce = Some d \<Longrightarrow> length d = 8"
  by (auto simp: progpow_digest_def Let_def)

text \<open>
  What the proof-of-work hash is: eight bytes, each the low byte of one of the eight SHA-256 words
  of a block of the mixed lanes, the nonce and the header hash, and after them the 24 bytes that the
  result held before, which \<^verbatim>\<open>ProgPoWHash\<close> never initialises. The eight bytes depend on the block
  number only through its epoch, and not on the cache.
\<close>

theorem progpow_hash_bytes:
  assumes "length h = 32" and "length uninit = 32" and "GetEpoch b = GetEpoch b'"
  shows "ProgPoWHash uninit h nonce b = map_option (\<lambda>d. d @ drop 8 uninit) (progpow_digest b h nonce) \<and>
         ProgPoWHash uninit h nonce b' = ProgPoWHash uninit h nonce b \<and>
         Hash (c\<lparr>m_block_number := b\<rparr>) h nonce uninit = ProgPoWHash uninit h nonce b"
proof -
  have "progpow_digest b' h nonce = progpow_digest b h nonce"
    using assms(3) by (simp add: progpow_digest_def)
  with assms(1,2) show ?thesis by (simp add: ProgPoWHash_eq Hash_eq)
qed

theorem progpow_hash_bytes_witness:
  "ProgPoWHash (replicate 32 7) (replicate 32 1) 5 12501 = ProgPoWHash (replicate 32 7) (replicate 32 1) 5 24999 \<and>
   ProgPoWHash (replicate 32 7) (replicate 32 1) 5 12501 =
     map_option (\<lambda>d. d @ replicate 24 7) (progpow_digest 12501 (replicate 32 1) 5)"
  using progpow_hash_bytes [of "replicate 32 1" "replicate 32 7" 12501 24999]
  by (simp add: GetEpoch_def PROGPOW_PERIOD_def)

section \<open>The comparison with a target\<close>

lemma foldl_be_nat: "foldl (\<lambda>acc b. 256 * acc + unat b) a bs = a * 256 ^ length bs + be_nat bs"
proof (induction bs arbitrary: a)
  case Nil
  show ?case by (simp add: be_nat_def)
next
  case (Cons b bs)
  have "foldl (\<lambda>acc b. 256 * acc + unat b) a (b # bs) = (256 * a + unat b) * 256 ^ length bs + be_nat bs"
    using Cons by simp
  moreover have "be_nat (b # bs) = unat b * 256 ^ length bs + be_nat bs"
    using Cons [of "unat b"] by (simp add: be_nat_def)
  ultimately show ?case by (simp add: algebra_simps)
qed

lemma be_nat_Cons: "be_nat (b # bs) = unat b * 256 ^ length bs + be_nat bs"
  using foldl_be_nat [of "unat b" bs] by (simp add: be_nat_def)

lemma be_nat_append: "be_nat (xs @ ys) = be_nat xs * 256 ^ length ys + be_nat ys"
  using foldl_be_nat [of "be_nat xs" ys] by (simp add: be_nat_def)

lemma be_nat_less: "be_nat bs < 256 ^ length bs"
proof (induction bs)
  case Nil
  show ?case by (simp add: be_nat_def)
next
  case (Cons b bs)
  have "unat b + 1 \<le> 256" using unat_bound [of b] by simp
  then have "(unat b + 1) * 256 ^ length bs \<le> 256 * 256 ^ length bs" by (rule mult_le_mono1)
  moreover have "be_nat (b # bs) < (unat b + 1) * 256 ^ length bs" using Cons by (simp add: be_nat_Cons)
  ultimately have "be_nat (b # bs) < 256 * 256 ^ length bs" by (rule less_le_trans [rotated])
  then show ?case by simp
qed

lemma be_nat_zeros [simp]: "be_nat (replicate n 0) = 0"
  by (induction n) (simp_all add: be_nat_Cons, simp add: be_nat_def)

lemma bytes_le_be_nat: "length xs = length ys \<Longrightarrow> bytes_le xs ys \<longleftrightarrow> be_nat xs \<le> be_nat ys"
proof (induction xs ys rule: list_induct2)
  case Nil
  show ?case by simp
next
  case (Cons x xs y ys)
  have bigger: "be_nat (a # as) < be_nat (b # bs)" if "a < b" and "length as = length bs" for a b as bs
  proof -
    have "unat a + 1 \<le> unat b" using that(1) by (simp add: word_less_nat_alt)
    then have "(unat a + 1) * 256 ^ length bs \<le> unat b * 256 ^ length bs" by (rule mult_le_mono1)
    with be_nat_less [of as] that(2) show ?thesis by (simp add: be_nat_Cons)
  qed
  show ?case
  proof (cases x y rule: linorder_cases)
    case less
    with bigger [OF less Cons.hyps] show ?thesis by simp
  next
    case equal
    with Cons show ?thesis by (simp add: be_nat_Cons)
  next
    case greater
    with bigger [OF greater Cons.hyps [symmetric]] show ?thesis by auto
  qed
qed

text \<open>
  The comparison of \<^verbatim>\<open>CheckProgPoWProof\<close> and \<^verbatim>\<open>Verify\<close> orders hash and target as big-endian numbers.
  For a target below 2 to the 192 the computed part of the hash must be zero, and whether such a
  proof is accepted is then decided by the uninitialised bytes alone.
\<close>

theorem progpow_check_order:
  assumes "length h = 32" and "length uninit = 32" and "length target = 32"
  shows "CheckProgPoWProof uninit h nonce b target =
           map_option (\<lambda>d. be_nat (d @ drop 8 uninit) \<le> be_nat target) (progpow_digest b h nonce) \<and>
         Verify_pow uninit (c\<lparr>m_block_number := b\<rparr>) h nonce target = CheckProgPoWProof uninit h nonce b target \<and>
         (be_nat target < 2 ^ 192 \<longrightarrow> CheckProgPoWProof uninit h nonce b target =
           map_option (\<lambda>d. be_nat d = 0 \<and> be_nat (drop 8 uninit) \<le> be_nat target) (progpow_digest b h nonce))"
proof -
  have check: "CheckProgPoWProof uninit h nonce b target =
      map_option (\<lambda>d. be_nat (d @ drop 8 uninit) \<le> be_nat target) (progpow_digest b h nonce)"
    using assms length_progpow_digest [of b h nonce]
    by (cases "progpow_digest b h nonce") (auto simp: CheckProgPoWProof_def ProgPoWHash_eq bytes_le_be_nat)
  have verify: "Verify_pow uninit (c\<lparr>m_block_number := b\<rparr>) h nonce target = CheckProgPoWProof uninit h nonce b target"
    using assms by (simp add: Verify_pow_def CheckProgPoWProof_def Hash_eq ProgPoWHash_eq)
  have "be_nat (d @ drop 8 uninit) \<le> be_nat target \<longleftrightarrow> be_nat d = 0 \<and> be_nat (drop 8 uninit) \<le> be_nat target"
    if "be_nat target < 2 ^ 192" for d
  proof (cases "be_nat d = 0")
    case False
    have "length (drop 8 uninit) = 24" using assms(2) by simp
    then have "be_nat (d @ drop 8 uninit) = be_nat d * 2 ^ 192 + be_nat (drop 8 uninit)"
      by (simp add: be_nat_append)
    moreover have "2 ^ 192 \<le> be_nat d * 2 ^ 192" using False by simp
    ultimately show ?thesis using that False by linarith
  qed (simp add: be_nat_append)
  with check verify show ?thesis by (simp cong: map_option_cong)
qed

theorem progpow_check_order_witness:
  "CheckProgPoWProof (replicate 32 1) (replicate 32 2) 3 4 (replicate 32 0) =
     map_option (\<lambda>d. be_nat d = 0 \<and> be_nat (drop 8 (replicate 32 1)) \<le> be_nat (replicate 32 0))
       (progpow_digest 4 (replicate 32 2) 3)"
  by (rule progpow_check_order [THEN conjunct2, THEN conjunct2, THEN mp,
        OF length_replicate length_replicate length_replicate]) simp

end
