(* ===== verification/ChainParams.thy ===== *)
theory ChainParams
  imports ProgPow
begin

text \<open>
  Model of \<^verbatim>\<open>BHC/src/chainparams.{h,cpp}\<close>: the consensus parameters of the three networks, the
  connection and address constants of each, and the process-wide selection \<^verbatim>\<open>g_current_params\<close>.
  The C++ \<^verbatim>\<open>switch\<close> of the constructor is one branch per network; the consensus fields of the
  \<^verbatim>\<open>std::array\<close> type are byte lists of length 32.
\<close>

section \<open>Data\<close>

record ConsensusParams =
  nSubsidyHalvingInterval :: u64
  BIP34Height :: u32
  BIP65Height :: u32
  BIP66Height :: u32
  powLimit :: crypto_uint256
  nPowTargetTimespan :: int
  nPowTargetSpacing :: int
  fPowAllowMinDifficultyBlocks :: bool
  fPowNoRetargeting :: bool
  nLWMAWindowSize :: u32
  nProgPoWPeriod :: u64
  hashGenesisBlock :: crypto_uint256
  fProgPowActive :: bool
  fMLDSAActive :: bool

record SeedNode =
  host :: string
  seed_port :: u16

datatype Network = MAIN | TESTNET | REGTEST

record CChainParams =
  m_network :: Network
  m_strNetworkID :: string
  m_consensus :: ConsensusParams
  m_vSeeds :: "SeedNode list"
  m_nDefaultPort :: u16
  m_nRPCPort :: u16
  m_base58PrefixPubKey :: bytes
  m_base58PrefixScript :: bytes
  m_bech32Hrp :: string
  m_magicBytes :: bytes

section \<open>The constructor\<close>

text \<open>
  The loop over the genesis hash: \<^verbatim>\<open>sscanf(p, "%02x", &byte)\<close> reads at most two hexadecimal digits,
  and the bytes are stored from index 31 downwards.
\<close>

definition genesisHashHex :: string where
  "genesisHashHex = ''3a7ea551d2d41377e210cd9f5af4b291a24d425e0f1666ada84fcf53ed0b0000''"

definition sscanf_02x :: "string \<Rightarrow> nat \<Rightarrow> byte" where
  "sscanf_02x s i =
     (case (hex_digit (s ! i), hex_digit (s ! (i + 1))) of
        (Some h, Some l) \<Rightarrow> push_bit 4 h OR l
      | (Some h, None) \<Rightarrow> h
      | (None, _) \<Rightarrow> 0)"

definition read_genesis :: "string \<Rightarrow> crypto_uint256 \<Rightarrow> crypto_uint256" where
  "read_genesis hex h = fold (\<lambda>i h. h[31 - i := sscanf_02x hex (i * 2)]) [0..<32] h"

definition main_params :: "crypto_uint256 \<Rightarrow> CChainParams" where
  "main_params uninit =
     \<lparr>m_network = MAIN,
      m_strNetworkID = ''main'',
      m_consensus =
        \<lparr>nSubsidyHalvingInterval = 210000,
         BIP34Height = 1, BIP65Height = 1, BIP66Height = 1,
         powLimit = (replicate 32 0)[28 := 0x00, 29 := 0x0f, 30 := 0xff, 31 := 0xff],
         nPowTargetTimespan = 14 * 24 * 60 * 60,
         nPowTargetSpacing = 10 * 60,
         fPowAllowMinDifficultyBlocks = False,
         fPowNoRetargeting = False,
         nLWMAWindowSize = 45,
         nProgPoWPeriod = ucast PROGPOW_PERIOD,
         hashGenesisBlock = read_genesis genesisHashHex uninit,
         fProgPowActive = True,
         fMLDSAActive = True\<rparr>,
      m_vSeeds =
        [\<lparr>host = ''seed1.bhc-core.org'', seed_port = 18334\<rparr>,
         \<lparr>host = ''seed2.bhc-core.org'', seed_port = 18334\<rparr>,
         \<lparr>host = ''seed3.bhc-core.org'', seed_port = 18334\<rparr>,
         \<lparr>host = ''seed.bhc-foundation.io'', seed_port = 18334\<rparr>],
      m_nDefaultPort = 18334,
      m_nRPCPort = 18332,
      m_base58PrefixPubKey = [0x1A],
      m_base58PrefixScript = [0x1C],
      m_bech32Hrp = ''bhc'',
      m_magicBytes = [0x42, 0x48, 0x43, 0x01]\<rparr>"

definition testnet_params :: CChainParams where
  "testnet_params =
     \<lparr>m_network = TESTNET,
      m_strNetworkID = ''test'',
      m_consensus =
        \<lparr>nSubsidyHalvingInterval = 210000,
         BIP34Height = 1, BIP65Height = 1, BIP66Height = 1,
         powLimit = (replicate 32 0)[28 := 0x00, 29 := 0x1f, 30 := 0xff, 31 := 0xff],
         nPowTargetTimespan = 14 * 24 * 60 * 60,
         nPowTargetSpacing = 10 * 60,
         fPowAllowMinDifficultyBlocks = True,
         fPowNoRetargeting = False,
         nLWMAWindowSize = 45,
         nProgPoWPeriod = ucast PROGPOW_PERIOD,
         hashGenesisBlock = replicate 32 0,
         fProgPowActive = True,
         fMLDSAActive = True\<rparr>,
      m_vSeeds =
        [\<lparr>host = ''testnet-seed1.bhc-core.org'', seed_port = 28334\<rparr>,
         \<lparr>host = ''testnet-seed2.bhc-core.org'', seed_port = 28334\<rparr>],
      m_nDefaultPort = 28334,
      m_nRPCPort = 28332,
      m_base58PrefixPubKey = [0x6F],
      m_base58PrefixScript = [0xC4],
      m_bech32Hrp = ''tbhc'',
      m_magicBytes = [0x42, 0x48, 0x54, 0x01]\<rparr>"

definition regtest_params :: CChainParams where
  "regtest_params =
     \<lparr>m_network = REGTEST,
      m_strNetworkID = ''regtest'',
      m_consensus =
        \<lparr>nSubsidyHalvingInterval = 150,
         BIP34Height = 1, BIP65Height = 1, BIP66Height = 1,
         powLimit = (replicate 32 0)[31 := 0xFF],
         nPowTargetTimespan = 14 * 24 * 60 * 60,
         nPowTargetSpacing = 10 * 60,
         fPowAllowMinDifficultyBlocks = True,
         fPowNoRetargeting = True,
         nLWMAWindowSize = 45,
         nProgPoWPeriod = ucast PROGPOW_PERIOD,
         hashGenesisBlock = replicate 32 0,
         fProgPowActive = True,
         fMLDSAActive = True\<rparr>,
      m_vSeeds = [],
      m_nDefaultPort = 38334,
      m_nRPCPort = 38332,
      m_base58PrefixPubKey = [0x6F],
      m_base58PrefixScript = [0xC4],
      m_bech32Hrp = ''rbhc'',
      m_magicBytes = [0x42, 0x48, 0x52, 0x01]\<rparr>"

text \<open>
  \<open>uninit\<close> is the content of the genesis array before the loop writes it.
\<close>

definition new_CChainParams :: "crypto_uint256 \<Rightarrow> Network \<Rightarrow> CChainParams" where
  "new_CChainParams uninit network =
     (case network of
        MAIN \<Rightarrow> main_params uninit
      | TESTNET \<Rightarrow> testnet_params
      | REGTEST \<Rightarrow> regtest_params)"

section \<open>The selected network\<close>

text \<open>
  \<^verbatim>\<open>g_current_params\<close> is a null pointer (\<open>None\<close>) until \<^verbatim>\<open>Get\<close> or \<^verbatim>\<open>SetNetwork\<close> runs.
\<close>

definition Get_params ::
  "crypto_uint256 \<Rightarrow> CChainParams option \<Rightarrow> CChainParams \<times> CChainParams option" where
  "Get_params uninit g =
     (let g = (case g of None \<Rightarrow> Some (new_CChainParams uninit MAIN) | Some p \<Rightarrow> Some p)
      in (the g, g))"

definition SetNetwork ::
  "crypto_uint256 \<Rightarrow> Network \<Rightarrow> CChainParams option \<Rightarrow> CChainParams option" where
  "SetNetwork uninit network g = Some (new_CChainParams uninit network)"

definition IsMain :: "CChainParams \<Rightarrow> bool" where
  "IsMain p \<longleftrightarrow> m_network p = MAIN"

definition IsTestNet :: "CChainParams \<Rightarrow> bool" where
  "IsTestNet p \<longleftrightarrow> m_network p = TESTNET"

definition IsRegTest :: "CChainParams \<Rightarrow> bool" where
  "IsRegTest p \<longleftrightarrow> m_network p = REGTEST"

section \<open>Facts\<close>

lemmas network_params = new_CChainParams_def main_params_def testnet_params_def regtest_params_def

lemma length_read_genesis [simp]: "length (read_genesis hex h) = length h"
proof -
  have "length (fold (\<lambda>i h. h[31 - i := sscanf_02x hex (i * 2)]) xs h) = length h" for xs
    by (induction xs arbitrary: h) simp_all
  then show ?thesis by (simp add: read_genesis_def)
qed

lemma read_genesis_reversed:
  "length h = 32 \<Longrightarrow> read_genesis hex h = rev (map (\<lambda>i. sscanf_02x hex (i * 2)) [0..<32])"
  using fold_list_update_rev [of h 32 32 "\<lambda>i. sscanf_02x hex (i * 2)"]
  by (simp add: read_genesis_def)

lemma genesis_bytes:
  "rev (map (\<lambda>i. sscanf_02x genesisHashHex (i * 2)) [0..<32]) =
    [0x00, 0x00, 0x0b, 0xed, 0x53, 0xcf, 0x4f, 0xa8, 0xad, 0x66, 0x16, 0x0f, 0x5e, 0x42, 0x4d, 0xa2,
     0x91, 0xb2, 0xf4, 0x5a, 0x9f, 0xcd, 0x10, 0xe2, 0x77, 0x13, 0xd4, 0xd2, 0x51, 0xa5, 0x7e, 0x3a]"
  by (simp add: genesisHashHex_def sscanf_02x_def hex_digit_def upt_numerals)

text \<open>
  The three networks cannot be confused with one another: for two different networks the names,
  the ports, the message magic and the bech32 prefixes all differ; every parameter array has its
  declared length; and the seeds of a network are reached on its own port.
\<close>

theorem networks_separated:
  assumes "length uninit = 32"
  defines "P \<equiv> new_CChainParams uninit"
  shows "(\<forall>n n'. n \<noteq> n' \<longrightarrow>
            m_strNetworkID (P n) \<noteq> m_strNetworkID (P n') \<and> m_magicBytes (P n) \<noteq> m_magicBytes (P n') \<and>
            m_bech32Hrp (P n) \<noteq> m_bech32Hrp (P n') \<and>
            {m_nDefaultPort (P n), m_nRPCPort (P n)} \<inter> {m_nDefaultPort (P n'), m_nRPCPort (P n')} = {})
       \<and> (\<forall>n. m_network (P n) = n \<and> is_uint256 (powLimit (m_consensus (P n))) \<and>
            is_uint256 (hashGenesisBlock (m_consensus (P n))) \<and> length (m_magicBytes (P n)) = 4 \<and>
            (\<forall>s\<in>set (m_vSeeds (P n)). seed_port s = m_nDefaultPort (P n)))"
proof (intro conjI allI impI)
  fix n n' :: Network
  assume ne: "n \<noteq> n'"
  show "m_strNetworkID (P n) \<noteq> m_strNetworkID (P n')"
    using ne by (cases n; cases n') (simp_all add: P_def network_params)
  show "m_magicBytes (P n) \<noteq> m_magicBytes (P n')"
    using ne by (cases n; cases n') (simp_all add: P_def network_params)
  show "m_bech32Hrp (P n) \<noteq> m_bech32Hrp (P n')"
    using ne by (cases n; cases n') (simp_all add: P_def network_params)
  show "{m_nDefaultPort (P n), m_nRPCPort (P n)} \<inter> {m_nDefaultPort (P n'), m_nRPCPort (P n')} = {}"
    using ne by (cases n; cases n') (simp_all add: P_def network_params)
next
  fix n
  show "m_network (P n) = n" by (cases n) (simp_all add: P_def network_params)
  show "is_uint256 (powLimit (m_consensus (P n)))"
    by (cases n) (simp_all add: P_def network_params is_uint256_def UINT256_SIZE_def)
  show "is_uint256 (hashGenesisBlock (m_consensus (P n)))"
    using assms by (cases n) (simp_all add: P_def network_params is_uint256_def UINT256_SIZE_def)
  show "length (m_magicBytes (P n)) = 4" by (cases n) (simp_all add: P_def network_params)
  show "\<forall>s\<in>set (m_vSeeds (P n)). seed_port s = m_nDefaultPort (P n)"
    by (cases n) (simp_all add: P_def network_params)
qed

theorem networks_separated_witness:
  "{m_nDefaultPort (new_CChainParams (replicate 32 0) MAIN), m_nRPCPort (new_CChainParams (replicate 32 0) MAIN)} \<inter>
   {m_nDefaultPort (new_CChainParams (replicate 32 0) REGTEST), m_nRPCPort (new_CChainParams (replicate 32 0) REGTEST)} = {}"
  using networks_separated [of "replicate 32 0"] by simp

lemma main_limit_value:
  "(le_word (powLimit (m_consensus (main_params uninit))) :: u256) = 0xffff0f * 2 ^ 232"
proof -
  have "powLimit (m_consensus (main_params uninit)) = replicate 29 0 @ [0x0f, 0xff, 0xff]"
    by (simp add: main_params_def) (simp add: numeral_eq_Suc)
  then show ?thesis by (simp add: le_word_def upt_numerals nth_append)
qed

text \<open>
  The genesis hash of the main network is stored so that the hexadecimal text of the source is
  its big-endian (reversed) rendering, and read as the little-endian number of \<^verbatim>\<open>UintToArith256\<close> it
  is not above the proof-of-work limit of the network. That limit has its most significant bytes
  set, so three of four 256-bit numbers would meet it.
\<close>

theorem main_genesis_meets_limit:
  assumes "length uninit = 32"
  defines "c \<equiv> m_consensus (new_CChainParams uninit MAIN)"
  shows "ToHexReversed (hashGenesisBlock c) = genesisHashHex \<and>
         (le_word (hashGenesisBlock c) :: u256) \<le> le_word (powLimit c) \<and>
         3 * 2 ^ 254 \<le> unat (le_word (powLimit c) :: u256)"
proof (intro conjI)
  have g: "hashGenesisBlock c = rev (map (\<lambda>i. sscanf_02x genesisHashHex (i * 2)) [0..<32])"
    using assms(1) by (simp add: c_def network_params read_genesis_reversed)
  have l: "(le_word (powLimit c) :: u256) = 0xffff0f * 2 ^ 232"
    using main_limit_value by (simp add: c_def new_CChainParams_def)
  show "ToHexReversed (hashGenesisBlock c) = genesisHashHex"
    unfolding g genesis_bytes
    by (simp add: ToHexReversed_def hex_byte_def hex_chars_def genesisHashHex_def UINT256_SIZE_def upt_numerals)
  show "(le_word (hashGenesisBlock c) :: u256) \<le> le_word (powLimit c)"
    unfolding g genesis_bytes l by (simp add: le_word_def upt_numerals)
  show "3 * 2 ^ 254 \<le> unat (le_word (powLimit c) :: u256)"
    unfolding l by simp
qed

theorem main_genesis_meets_limit_witness:
  "ToHexReversed (hashGenesisBlock (m_consensus (new_CChainParams (replicate 32 0) MAIN))) = genesisHashHex"
  using main_genesis_meets_limit [of "replicate 32 0"] by simp

end
