(* ===== verification/Pow.thy ===== *)
theory Pow
  imports ProgPow "HOL-Library.Log_Nat"
begin

text \<open>
  Model of \<^verbatim>\<open>BHC/src/pow.{h,cpp}\<close>: the difficulty rules (the linearly weighted moving average and the
  older clamped rule), the checks of a hash against a target, and the permitted transitions of the
  difficulty. \<^verbatim>\<open>arith_uint256\<close>, \<^verbatim>\<open>CBlockIndex\<close>, \<^verbatim>\<open>CBlockHeader\<close> and \<^verbatim>\<open>Consensus::Params\<close> belong to the
  node these files are built into. The data types are modelled by the members the code reads;
  the operations of \<^verbatim>\<open>arith_uint256\<close> are a parameter (\<open>arith_ops\<close>), and what is relied on of them is
  \<open>arith_laws\<close>. Times and time spans are far below the range of \<^verbatim>\<open>int64_t\<close> and are integers.
\<close>

section \<open>What the node provides\<close>

record arith_ops =
  UintToArith256 :: "bytes \<Rightarrow> u256"
  SetCompact :: "u32 \<Rightarrow> u256 \<times> bool \<times> bool"
  GetCompact :: "u256 \<Rightarrow> u32"
  times_assign :: "u256 \<Rightarrow> int \<Rightarrow> u256"
  divide_assign :: "u256 \<Rightarrow> int \<Rightarrow> u256"

datatype CBlockIndex =
  CBlockIndex (pprev: "CBlockIndex option") (nHeight: int) (nBits: u32) (GetBlockTime: int)

record CBlockHeader =
  header_nBits :: u32
  header_nNonce :: u32
  header_time :: int
  header_hash :: bytes

record Params =
  param_powLimit :: bytes
  param_nPowTargetTimespan :: int
  param_nPowTargetSpacing :: int
  param_fPowAllowMinDifficultyBlocks :: bool
  param_fPowNoRetargeting :: bool
  DifficultyAdjustmentInterval :: int

section \<open>Targets\<close>

definition target_of :: "arith_ops \<Rightarrow> u32 \<Rightarrow> u256" where
  "target_of A bits = fst (SetCompact A bits)"

definition DeriveTarget :: "arith_ops \<Rightarrow> u32 \<Rightarrow> bytes \<Rightarrow> u256 option" where
  "DeriveTarget A bits pow_limit =
     (case SetCompact A bits of (bnTarget, fNegative, fOverflow) \<Rightarrow>
        if fNegative \<or> bnTarget = 0 \<or> fOverflow \<or> bnTarget > UintToArith256 A pow_limit then None
        else Some bnTarget)"

definition CheckProofOfWork :: "arith_ops \<Rightarrow> bytes \<Rightarrow> u32 \<Rightarrow> Params \<Rightarrow> bool" where
  "CheckProofOfWork A hash bits params =
     (case DeriveTarget A bits (param_powLimit params) of
        None \<Rightarrow> False
      | Some bnTarget \<Rightarrow> if UintToArith256 A hash > bnTarget then False else True)"

text \<open>\<open>None\<close> is the undefined behaviour of the hash, \<open>uninit\<close> the bytes its result array held.\<close>

definition CheckProofOfWorkProgPoW ::
  "arith_ops \<Rightarrow> bytes \<Rightarrow> CBlockHeader \<Rightarrow> u64 \<Rightarrow> Params \<Rightarrow> bool option" where
  "CheckProofOfWorkProgPoW A uninit block block_number params =
     (case DeriveTarget A (header_nBits block) (param_powLimit params) of
        None \<Rightarrow> Some False
      | Some bnTarget \<Rightarrow>
          let headerHash = header_hash block;
              nonce = ucast (header_nNonce block)
          in case ProgPoWHash uninit headerHash nonce block_number of
               None \<Rightarrow> None
             | Some powHash \<Rightarrow>
                 let hashArith = UintToArith256 A powHash
                 in Some (if hashArith > bnTarget then False else True))"

section \<open>The weighted moving average\<close>

definition TARGET_SPACING :: int where "TARGET_SPACING = 600"
definition WINDOW_SIZE :: int where "WINDOW_SIZE = 45"
definition MIN_ACTUAL_TIMESPAN :: int where "MIN_ACTUAL_TIMESPAN = 60"
definition MAX_ACTUAL_TIMESPAN :: int where "MAX_ACTUAL_TIMESPAN = 3600"

text \<open>The walk back over \<^verbatim>\<open>n\<close> predecessors; \<open>None\<close> when one of them is missing.\<close>

fun walk_back :: "nat \<Rightarrow> CBlockIndex \<Rightarrow> CBlockIndex option" where
  "walk_back 0 pindexFirst = Some pindexFirst"
| "walk_back (Suc n) pindexFirst =
     (case pprev pindexFirst of None \<Rightarrow> None | Some p \<Rightarrow> walk_back n p)"

definition clamp_timespan :: "int \<Rightarrow> int" where
  "clamp_timespan timespan =
     (let timespan = (if timespan < MIN_ACTUAL_TIMESPAN then MIN_ACTUAL_TIMESPAN else timespan)
      in if timespan > MAX_ACTUAL_TIMESPAN then MAX_ACTUAL_TIMESPAN else timespan)"

text \<open>
  The summing loop: the counter (as the number of iterations left), the weight, the current block,
  and the two sums.
\<close>

fun lwma_loop :: "nat \<Rightarrow> int \<Rightarrow> CBlockIndex \<Rightarrow> int \<times> int \<Rightarrow> int \<times> int" where
  "lwma_loop 0 weight pindex acc = acc"
| "lwma_loop (Suc n) weight pindex (totalTimespan, totalWeight) =
     (case pprev pindex of
        None \<Rightarrow> (totalTimespan, totalWeight)
      | Some pindexPrev \<Rightarrow>
          let timespan = clamp_timespan (GetBlockTime pindex - GetBlockTime pindexPrev)
          in lwma_loop n (weight - 1) pindexPrev (totalTimespan + timespan * weight, totalWeight + weight))"

definition LWMA_Calculate :: "arith_ops \<Rightarrow> CBlockIndex option \<Rightarrow> Params \<Rightarrow> u32" where
  "LWMA_Calculate A pindexLast params =
     (let powLimit = UintToArith256 A (param_powLimit params)
      in case pindexLast of
           None \<Rightarrow> GetCompact A powLimit
         | Some pindexLast \<Rightarrow>
             if nHeight pindexLast < WINDOW_SIZE then GetCompact A powLimit
             else if walk_back (nat (WINDOW_SIZE - 1)) pindexLast = None then GetCompact A powLimit
             else
               let (totalTimespan, totalWeight) = lwma_loop (nat (WINDOW_SIZE - 1)) WINDOW_SIZE pindexLast (0, 0)
               in if totalWeight = 0 then GetCompact A powLimit
                  else
                    let avgTimespan = cdiv totalTimespan totalWeight;
                        bnNew = target_of A (nBits pindexLast);
                        avgTimespan = (if avgTimespan < 1 then 1
                                       else if avgTimespan > 3600 then 3600 else avgTimespan);
                        bnNew = times_assign A bnNew TARGET_SPACING;
                        bnNew = divide_assign A bnNew avgTimespan;
                        bnNew = (if bnNew > powLimit then powLimit else bnNew)
                    in GetCompact A bnNew)"

definition CalculateNextWorkRequiredLWMA :: "arith_ops \<Rightarrow> CBlockIndex \<Rightarrow> Params \<Rightarrow> u32" where
  "CalculateNextWorkRequiredLWMA A pindexLast params =
     (if param_fPowNoRetargeting params then nBits pindexLast
      else LWMA_Calculate A (Some pindexLast) params)"

section \<open>The clamped rule and the entry point\<close>

definition CalculateNextWorkRequired :: "arith_ops \<Rightarrow> CBlockIndex \<Rightarrow> int \<Rightarrow> Params \<Rightarrow> u32" where
  "CalculateNextWorkRequired A pindexLast nFirstBlockTime params =
     (if param_fPowNoRetargeting params then nBits pindexLast
      else
        let T = param_nPowTargetTimespan params;
            nActualTimespan = GetBlockTime pindexLast - nFirstBlockTime;
            nActualTimespan = (if nActualTimespan < cdiv T 4 then cdiv T 4 else nActualTimespan);
            nActualTimespan = (if nActualTimespan > T * 4 then T * 4 else nActualTimespan);
            bnPowLimit = UintToArith256 A (param_powLimit params);
            bnNew = target_of A (nBits pindexLast);
            bnNew = times_assign A bnNew nActualTimespan;
            bnNew = divide_assign A bnNew T;
            bnNew = (if bnNew > bnPowLimit then bnPowLimit else bnNew)
        in GetCompact A bnNew)"

text \<open>The walk to the last block that was not mined under the minimum-difficulty exception.\<close>

fun min_difficulty_walk :: "int \<Rightarrow> u32 \<Rightarrow> CBlockIndex \<Rightarrow> CBlockIndex" where
  "min_difficulty_walk interval limit (CBlockIndex prev height bits time) =
     (case prev of
        None \<Rightarrow> CBlockIndex prev height bits time
      | Some p \<Rightarrow>
          if crem height interval \<noteq> 0 \<and> bits = limit then min_difficulty_walk interval limit p
          else CBlockIndex prev height bits time)"

definition GetNextWorkRequired :: "arith_ops \<Rightarrow> CBlockIndex \<Rightarrow> CBlockHeader \<Rightarrow> Params \<Rightarrow> u32" where
  "GetNextWorkRequired A pindexLast pblock params =
     (let nProofOfWorkLimit = GetCompact A (UintToArith256 A (param_powLimit params))
      in if crem (nHeight pindexLast + 1) (DifficultyAdjustmentInterval params) \<noteq> 0 then
           if param_fPowAllowMinDifficultyBlocks params then
             if header_time pblock > GetBlockTime pindexLast + param_nPowTargetSpacing params * 2
             then nProofOfWorkLimit
             else nBits (min_difficulty_walk (DifficultyAdjustmentInterval params) nProofOfWorkLimit pindexLast)
           else nBits pindexLast
         else CalculateNextWorkRequiredLWMA A pindexLast params)"

definition transition_bound :: "arith_ops \<Rightarrow> Params \<Rightarrow> u32 \<Rightarrow> int \<Rightarrow> u256" where
  "transition_bound A params old_nbits timespan =
     (let pow_limit = UintToArith256 A (param_powLimit params);
          difficulty_target = target_of A old_nbits;
          difficulty_target = times_assign A difficulty_target timespan;
          difficulty_target = divide_assign A difficulty_target (param_nPowTargetTimespan params);
          difficulty_target = (if difficulty_target > pow_limit then pow_limit else difficulty_target)
      in target_of A (GetCompact A difficulty_target))"

definition PermittedDifficultyTransition :: "arith_ops \<Rightarrow> Params \<Rightarrow> int \<Rightarrow> u32 \<Rightarrow> u32 \<Rightarrow> bool" where
  "PermittedDifficultyTransition A params height old_nbits new_nbits =
     (if param_fPowAllowMinDifficultyBlocks params then True
      else if crem height (DifficultyAdjustmentInterval params) = 0 then
        let smallest_timespan = cdiv (param_nPowTargetTimespan params) 4;
            largest_timespan = param_nPowTargetTimespan params * 4;
            observed_new_target = target_of A new_nbits;
            maximum_new_target = transition_bound A params old_nbits largest_timespan
        in if maximum_new_target < observed_new_target then False
           else
             let minimum_new_target = transition_bound A params old_nbits smallest_timespan
             in if minimum_new_target > observed_new_target then False else True
      else if old_nbits \<noteq> new_nbits then False
      else True)"

section \<open>What is relied on of the node\<close>

text \<open>
  The documented behaviour of \<^verbatim>\<open>arith_uint256\<close>: \<^verbatim>\<open>UintToArith256\<close> reads 32 little-endian bytes;
  multiplication by a factor below 2 to the 32 and division are those of 256-bit unsigned integers;
  the compact form drops low-order bits: it is monotone, never larger than the number, and keeps at
  least its leading bit.
\<close>

definition arith_laws :: "arith_ops \<Rightarrow> bool" where
  "arith_laws A \<longleftrightarrow>
     (\<forall>bs. length bs = 32 \<longrightarrow> UintToArith256 A bs = le_word bs) \<and>
     (\<forall>x n. 0 \<le> n \<longrightarrow> n < 2 ^ 32 \<longrightarrow> times_assign A x n = x * of_int n) \<and>
     (\<forall>x n. 0 < n \<longrightarrow> n < 2 ^ 63 \<longrightarrow> divide_assign A x n = x div of_int n) \<and>
     (\<forall>x. target_of A (GetCompact A x) \<le> x \<and> unat x \<le> 2 * unat (target_of A (GetCompact A x))) \<and>
     (\<forall>x y. x \<le> y \<longrightarrow> target_of A (GetCompact A x) \<le> target_of A (GetCompact A y))"

section \<open>Reference notions\<close>

text \<open>
  The clamped solve times of the last \<open>n\<close> blocks, newest first, and their average with weights 45, 44
  and so on down to 2.
\<close>

fun solve_times :: "nat \<Rightarrow> CBlockIndex \<Rightarrow> int list" where
  "solve_times 0 b = []"
| "solve_times (Suc n) b =
     (case pprev b of
        None \<Rightarrow> []
      | Some p \<Rightarrow> clamp_timespan (GetBlockTime b - GetBlockTime p) # solve_times n p)"

definition weighted_average :: "int list \<Rightarrow> int" where
  "weighted_average ts = (\<Sum>i<44. (45 - int i) * ts ! i) div 1034"

definition full_window :: "CBlockIndex \<Rightarrow> bool" where
  "full_window b \<longleftrightarrow> nHeight b \<ge> 45 \<and> length (solve_times 44 b) = 44"

section \<open>The window of the moving average\<close>

lemma clamp_bounds: "60 \<le> clamp_timespan t \<and> clamp_timespan t \<le> 3600"
  by (simp add: clamp_timespan_def MIN_ACTUAL_TIMESPAN_def MAX_ACTUAL_TIMESPAN_def Let_def)

lemma walk_back_solve_times: "walk_back n b = None \<longleftrightarrow> length (solve_times n b) \<noteq> n"
  by (induction n arbitrary: b) (auto split: option.splits)

lemma solve_times_bounds: "t \<in> set (solve_times n b) \<Longrightarrow> 60 \<le> t \<and> t \<le> 3600"
  by (induction n arbitrary: b) (auto simp: clamp_bounds split: option.splits)

lemma lwma_loop_sums:
  "length (solve_times n b) = n \<Longrightarrow>
   lwma_loop n w b (T, W) = (T + (\<Sum>i<n. (w - int i) * solve_times n b ! i), W + (\<Sum>i<n. w - int i))"
proof (induction n arbitrary: b w T W)
  case 0
  show ?case by simp
next
  case (Suc n)
  then obtain p where p: "pprev b = Some p" by (auto split: option.splits)
  with Suc.prems have len: "length (solve_times n p) = n" by simp
  show ?case
    unfolding sum.lessThan_Suc_shift
    using Suc.IH [OF len] by (simp add: p Let_def algebra_simps)
qed

lemma weight_sum: "(\<Sum>i<44. 45 - int i) = 1034"
  by (simp add: numeral_eq_Suc)

lemma weighted_average_bounds:
  assumes "\<forall>i<44. 60 \<le> ts ! i \<and> ts ! i \<le> 3600"
  shows "60 \<le> weighted_average ts" and "weighted_average ts \<le> 3600"
proof -
  have "(\<Sum>i<44. (45 - int i) * 60) \<le> (\<Sum>i<44. (45 - int i) * ts ! i)"
    using assms by (intro sum_mono mult_left_mono) auto
  then have "1034 * 60 \<le> (\<Sum>i<44. (45 - int i) * ts ! i)"
    unfolding sum_distrib_right [symmetric] weight_sum .
  then show "60 \<le> weighted_average ts" by (simp add: weighted_average_def zdiv_mono1 [of "1034 * 60" _ 1034, simplified])
  have "(\<Sum>i<44. (45 - int i) * ts ! i) \<le> (\<Sum>i<44. (45 - int i) * 3600)"
    using assms by (intro sum_mono mult_left_mono) auto
  then have "(\<Sum>i<44. (45 - int i) * ts ! i) \<le> 1034 * 3600"
    unfolding sum_distrib_right [symmetric] weight_sum .
  then show "weighted_average ts \<le> 3600" by (simp add: weighted_average_def zdiv_mono1 [of _ "1034 * 3600" 1034, simplified])
qed

lemma weighted_average_mono:
  "\<forall>i<44. ts ! i \<le> us ! i \<Longrightarrow> weighted_average ts \<le> weighted_average us"
  unfolding weighted_average_def by (intro zdiv_mono1 sum_mono mult_left_mono) auto

lemma full_window_times: "full_window b \<Longrightarrow> i < 44 \<Longrightarrow> 60 \<le> solve_times 44 b ! i \<and> solve_times 44 b ! i \<le> 3600"
  using solve_times_bounds [of "solve_times 44 b ! i" 44 b] by (simp add: full_window_def)

lemma window_bounds:
  assumes "full_window b"
  shows "60 \<le> weighted_average (solve_times 44 b)" and "weighted_average (solve_times 44 b) \<le> 3600"
proof -
  have "\<forall>i<44. 60 \<le> solve_times 44 b ! i \<and> solve_times 44 b ! i \<le> 3600"
    using full_window_times [OF assms] by blast
  then show "60 \<le> weighted_average (solve_times 44 b)" and "weighted_average (solve_times 44 b) \<le> 3600"
    by (rule weighted_average_bounds)+
qed

lemma arith_lawsD:
  assumes "arith_laws A"
  shows "length bs = 32 \<Longrightarrow> UintToArith256 A bs = le_word bs"
    and "0 \<le> n \<Longrightarrow> n < 2 ^ 32 \<Longrightarrow> times_assign A x n = x * of_int n"
    and "0 < n \<Longrightarrow> n < 2 ^ 63 \<Longrightarrow> divide_assign A x n = x div of_int n"
    and "target_of A (GetCompact A x) \<le> x"
    and "unat x \<le> 2 * unat (target_of A (GetCompact A x))"
    and "x \<le> y \<Longrightarrow> target_of A (GetCompact A x) \<le> target_of A (GetCompact A y)"
  using assms unfolding arith_laws_def by blast+

lemma capped: "(if l < x then l else x) = min l x" for x l :: u256
  by (auto simp: min_def)

lemma lwma_value:
  assumes A: "arith_laws A" and b: "full_window b"
  shows "LWMA_Calculate A (Some b) params =
    GetCompact A (min (UintToArith256 A (param_powLimit params))
      (target_of A (nBits b) * 600 div of_int (weighted_average (solve_times 44 b))))"
proof -
  let ?avg = "weighted_average (solve_times 44 b)"
  have len: "length (solve_times 44 b) = 44" and h: "\<not> nHeight b < 45"
    using b by (auto simp: full_window_def)
  have loop: "lwma_loop 44 45 b (0, 0) = ((\<Sum>i<44. (45 - int i) * solve_times 44 b ! i), 1034)"
    using lwma_loop_sums [OF len, of 45 0 0] by (simp add: weight_sum)
  have "0 \<le> (\<Sum>i<44. (45 - int i) * solve_times 44 b ! i)"
    using full_window_times [OF b] by (intro sum_nonneg mult_nonneg_nonneg) (auto intro: order_trans [of 0 60])
  then have avg: "cdiv (\<Sum>i<44. (45 - int i) * solve_times 44 b ! i) 1034 = ?avg"
    by (simp add: cdiv_def weighted_average_def signed_divide_int_def sgn_if)
  note bounds = window_bounds [OF b]
  have "divide_assign A (times_assign A x 600) ?avg = x * 600 div of_int ?avg" for x
    using bounds arith_lawsD(2,3) [OF A] by simp
  with h len loop avg bounds show ?thesis
    by (simp add: LWMA_Calculate_def WINDOW_SIZE_def TARGET_SPACING_def walk_back_solve_times Let_def capped)
qed

section \<open>A steady chain and a compact form\<close>

text \<open>
  Concrete inputs for the statements below: a chain with equal solve times, and operations whose
  compact form keeps the leading bit of a number.
\<close>

fun steady :: "int \<Rightarrow> u32 \<Rightarrow> nat \<Rightarrow> CBlockIndex" where
  "steady dt bits 0 = CBlockIndex None 0 bits 0"
| "steady dt bits (Suc n) = CBlockIndex (Some (steady dt bits n)) (int (Suc n)) bits (dt * int (Suc n))"

definition leading_bit_ops :: arith_ops where
  "leading_bit_ops =
     \<lparr>UintToArith256 = le_word,
      SetCompact = (\<lambda>n. (if n = 0 then 0 else 2 ^ (unat n - 1), False, False)),
      GetCompact = (\<lambda>x. of_nat (floorlog 2 (unat x))),
      times_assign = (\<lambda>x n. x * of_int n),
      divide_assign = (\<lambda>x n. x div of_int n)\<rparr>"

definition main_like :: Params where
  "main_like = \<lparr>param_powLimit = replicate 32 0xff, param_nPowTargetTimespan = 1209600, param_nPowTargetSpacing = 600,
     param_fPowAllowMinDifficultyBlocks = False, param_fPowNoRetargeting = False, DifficultyAdjustmentInterval = 2016\<rparr>"

lemma steady_simps [simp]:
  "nHeight (steady dt bits n) = int n" "nBits (steady dt bits n) = bits"
  "GetBlockTime (steady dt bits n) = dt * int n"
  by (cases n; simp)+

lemma solve_times_steady: "k \<le> n \<Longrightarrow> solve_times k (steady dt bits n) = replicate k (clamp_timespan dt)"
proof (induction k arbitrary: n)
  case (Suc k)
  then obtain m where m: "n = Suc m" by (cases n) auto
  have "dt * int (Suc m) - dt * int m = dt" by (simp add: algebra_simps)
  with Suc m show ?case by simp
qed simp

lemma weighted_average_replicate: "weighted_average (replicate 44 t) = t"
proof -
  have "(\<Sum>i<44. (45 - int i) * replicate 44 t ! i) = (\<Sum>i<44. (45 - int i) * t)"
    by (rule sum.cong) auto
  also have "\<dots> = 1034 * t" unfolding sum_distrib_right [symmetric] weight_sum ..
  finally show ?thesis by (simp add: weighted_average_def)
qed

lemma steady_window:
  assumes "45 \<le> n"
  shows "full_window (steady dt bits n)"
    and "weighted_average (solve_times 44 (steady dt bits n)) = clamp_timespan dt"
  using assms by (simp_all add: full_window_def solve_times_steady weighted_average_replicate)

lemma leading_bit_compact:
  "unat (target_of leading_bit_ops (GetCompact leading_bit_ops x)) = (if x = 0 then 0 else 2 ^ (floorlog 2 (unat x) - 1))"
proof (cases "x = 0")
  case True
  then show ?thesis by (simp add: target_of_def leading_bit_ops_def floorlog_def)
next
  case False
  then have x: "0 < unat x" by (simp add: unat_gt_0)
  have "floorlog 2 (unat x) \<le> 256" using unat_bound [of x] by (intro floorlog_leI) simp_all
  moreover have "0 < floorlog 2 (unat x)" using x by (simp add: floorlog_def)
  ultimately show ?thesis using False
    by (simp add: target_of_def leading_bit_ops_def unat_of_nat_small unat_exp word_unat_eq_iff)
qed

lemma leading_bit_laws: "arith_laws leading_bit_ops"
proof -
  have b: "unat (target_of leading_bit_ops (GetCompact leading_bit_ops x)) \<le> unat x \<and>
      unat x \<le> 2 * unat (target_of leading_bit_ops (GetCompact leading_bit_ops x))" for x
  proof (cases "x = 0")
    case False
    then have "0 < unat x" by (simp add: unat_gt_0)
    with floorlog_bounds [of "unat x" 2] have
      "2 ^ (floorlog 2 (unat x) - 1) \<le> unat x \<and> unat x < 2 ^ floorlog 2 (unat x)" by simp
    moreover have "(2 :: nat) ^ floorlog 2 (unat x) = 2 * 2 ^ (floorlog 2 (unat x) - 1)"
      using \<open>0 < unat x\<close> by (metis calculation less_nat_zero_code not_less power_eq_if nat_less_le power_0 le_antisym less_one diff_le_self)
    ultimately show ?thesis using False by (simp add: leading_bit_compact)
  qed (simp add: leading_bit_compact)
  have "target_of leading_bit_ops (GetCompact leading_bit_ops x) \<le> target_of leading_bit_ops (GetCompact leading_bit_ops y)"
    if "x \<le> y" for x y
  proof -
    have "floorlog 2 (unat x) \<le> floorlog 2 (unat y)" using that by (simp add: floorlog_mono word_le_nat_alt)
    then have "floorlog 2 (unat x) - 1 \<le> floorlog 2 (unat y) - 1" by simp
    then have "(2 :: nat) ^ (floorlog 2 (unat x) - 1) \<le> 2 ^ (floorlog 2 (unat y) - 1)" by (rule power_increasing) simp
    with that show ?thesis
      unfolding word_le_nat_alt leading_bit_compact by (auto simp: word_le_nat_alt unat_eq_zero)
  qed
  with b show ?thesis
    unfolding arith_laws_def word_le_nat_alt [of "target_of leading_bit_ops (GetCompact leading_bit_ops _)"]
    by (simp add: leading_bit_ops_def)
qed

section \<open>Retargeting\<close>

lemma unat_mult_small:
  "unat x * nat n < 2 ^ 256 \<Longrightarrow> 0 \<le> n \<Longrightarrow> n < 2 ^ 64 \<Longrightarrow> unat (x * of_int n :: u256) = unat x * nat n"
proof -
  assume small: "unat x * nat n < 2 ^ 256" and n: "0 \<le> n" "n < 2 ^ 64"
  have "nat n < 2 ^ 256" using n by (simp add: nat_less_iff)
  then have "unat (of_nat (nat n) :: u256) = nat n" by (simp add: unat_of_nat_small)
  moreover have "(of_int n :: u256) = of_nat (nat n)" using n(1) by simp
  ultimately have "unat (of_int n :: u256) = nat n" by metis
  with small show ?thesis by (simp add: unat_mult_lem [THEN iffD1])
qed

lemma unat_of_int_small: "0 \<le> n \<Longrightarrow> n < 2 ^ 64 \<Longrightarrow> unat (of_int n :: u256) = nat n"
  using unat_mult_small [of 1 n] by (simp add: nat_less_iff)

text \<open>
  C20. The target the weighted moving average computes over a full window of 44 solve times is the
  old one times 600 over the weighted average, capped at the limit. The average lies between 60 and
  3600 seconds, so the code's later clamps to 1 and 3600 never act, and a window that is not full
  gives the limit itself.
\<close>

theorem lwma_formula:
  assumes "arith_laws A"
  defines "limit \<equiv> \<lambda>params. UintToArith256 A (param_powLimit params)"
  shows "(full_window b \<longrightarrow>
            60 \<le> weighted_average (solve_times 44 b) \<and> weighted_average (solve_times 44 b) \<le> 3600 \<and>
            LWMA_Calculate A (Some b) params = GetCompact A (min (limit params)
              (target_of A (nBits b) * 600 div of_int (weighted_average (solve_times 44 b))))) \<and>
         (\<not> full_window b \<longrightarrow> LWMA_Calculate A (Some b) params = GetCompact A (limit params))"
proof (intro conjI impI)
  assume "\<not> full_window b"
  then show "LWMA_Calculate A (Some b) params = GetCompact A (limit params)"
    by (auto simp: LWMA_Calculate_def full_window_def WINDOW_SIZE_def walk_back_solve_times limit_def Let_def)
qed (auto simp: limit_def lwma_value [OF assms(1)] window_bounds)

theorem lwma_formula_witness:
  "LWMA_Calculate leading_bit_ops (Some (steady 300 101 50)) main_like =
     GetCompact leading_bit_ops (min (le_word (param_powLimit main_like)) (2 ^ 100 * 600 div 300))"
proof -
  have t: "target_of leading_bit_ops 101 = 2 ^ 100" by (simp add: target_of_def leading_bit_ops_def)
  have u: "UintToArith256 leading_bit_ops = le_word" by (simp add: leading_bit_ops_def)
  have c: "clamp_timespan 300 = 300"
    by (simp add: clamp_timespan_def MIN_ACTUAL_TIMESPAN_def MAX_ACTUAL_TIMESPAN_def)
  have "full_window (steady 300 101 50)" "weighted_average (solve_times 44 (steady 300 101 50)) = 300"
    using steady_window [of 50 300 101] c by simp_all
  with lwma_formula [OF leading_bit_laws, of "steady 300 101 50" main_like] show ?thesis
    by (simp add: t u)
qed

text \<open>
  The moving average adjusts in the wrong direction: of two chains with the same current target,
  the one whose blocks took longer gets the smaller or equal next target, that is, the higher
  difficulty (the product with 600 is assumed not to overflow).
\<close>

theorem lwma_slower_is_harder:
  assumes A: "arith_laws A" and fast: "full_window p" and slow: "full_window q"
    and bits: "nBits q = nBits p" and small: "unat (target_of A (nBits p)) * 600 < 2 ^ 256"
    and slower: "\<forall>i<44. solve_times 44 p ! i \<le> solve_times 44 q ! i"
  shows "target_of A (LWMA_Calculate A (Some q) params) \<le> target_of A (LWMA_Calculate A (Some p) params)"
proof -
  let ?p = "weighted_average (solve_times 44 p)" and ?q = "weighted_average (solve_times 44 q)"
  let ?t = "target_of A (nBits p) * 600"
  have "?p \<le> ?q" by (rule weighted_average_mono [OF slower])
  then have "nat ?p \<le> nat ?q" by simp
  moreover have "0 < nat ?p" using window_bounds [OF fast] by simp
  ultimately have "unat ?t div nat ?q \<le> unat ?t div nat ?p" by (rule div_le_mono2 [rotated])
  then have "?t div of_int ?q \<le> ?t div of_int ?p"
    using window_bounds [OF fast] window_bounds [OF slow]
    by (simp add: word_le_nat_alt unat_div_distrib unat_of_int_small)
  then show ?thesis
    unfolding lwma_value [OF A fast] lwma_value [OF A slow] bits
    by (intro arith_lawsD(6) [OF A] min.mono order_refl)
qed

theorem lwma_slower_is_harder_witness:
  "target_of leading_bit_ops (LWMA_Calculate leading_bit_ops (Some (steady 1200 101 50)) main_like)
    \<le> target_of leading_bit_ops (LWMA_Calculate leading_bit_ops (Some (steady 300 101 50)) main_like)"
proof (rule lwma_slower_is_harder [OF leading_bit_laws])
  show "unat (target_of leading_bit_ops (nBits (steady 300 101 50))) * 600 < 2 ^ 256"
    by (simp add: target_of_def leading_bit_ops_def)
  show "\<forall>i<44. solve_times 44 (steady 300 101 50) ! i \<le> solve_times 44 (steady 1200 101 50) ! i"
    by (simp add: solve_times_steady clamp_timespan_def MIN_ACTUAL_TIMESPAN_def MAX_ACTUAL_TIMESPAN_def)
qed (simp_all add: steady_window)

text \<open>
  Near the limit of the main network the product with 600 wraps modulo 2 to the 256: from any
  target of at least 2 to the 255, blocks arriving exactly every 600 seconds make the next target
  smaller than 2 to the 247, a difficulty more than 256 times as high.
\<close>

theorem lwma_overflow_near_limit:
  assumes A: "arith_laws A" and w: "full_window b"
    and avg: "weighted_average (solve_times 44 b) = 600"
    and t: "2 ^ 255 \<le> unat (target_of A (nBits b))"
  shows "256 * unat (target_of A (LWMA_Calculate A (Some b) params)) < unat (target_of A (nBits b))"
proof -
  let ?new = "target_of A (nBits b) * 600 div 600"
  have "unat ?new = unat (target_of A (nBits b) * 600) div 600" by (simp add: unat_div_distrib)
  also have "\<dots> \<le> (2 ^ 256 - 1) div 600"
    using unat_bound [of "target_of A (nBits b) * 600"] by (intro div_le_mono) simp
  finally have "unat ?new < 2 ^ 247" by simp
  moreover have "target_of A (LWMA_Calculate A (Some b) params) \<le> ?new"
    unfolding lwma_value [OF A w] avg of_int_numeral
    by (rule order_trans [OF arith_lawsD(4) [OF A] min.cobounded2])
  ultimately have "unat (target_of A (LWMA_Calculate A (Some b) params)) < 2 ^ 247"
    by (simp add: word_le_nat_alt)
  with t show ?thesis by simp
qed

theorem lwma_overflow_near_limit_witness:
  "256 * unat (target_of leading_bit_ops (LWMA_Calculate leading_bit_ops (Some (steady 600 256 50)) main_like))
    < unat (target_of leading_bit_ops 256)"
proof -
  have c: "clamp_timespan 600 = 600"
    by (simp add: clamp_timespan_def MIN_ACTUAL_TIMESPAN_def MAX_ACTUAL_TIMESPAN_def)
  have t: "2 ^ 255 \<le> unat (target_of leading_bit_ops 256)" by (simp add: target_of_def leading_bit_ops_def)
  show ?thesis
    using lwma_overflow_near_limit [OF leading_bit_laws, of "steady 600 256 50" main_like] steady_window [of 50 600 256] c t
    by simp
qed

section \<open>Permitted transitions\<close>

lemma scaled_mono:
  assumes "unat t * nat n < 2 ^ 256" and "0 \<le> m" and "m \<le> n" and "n < 2 ^ 64"
  shows "t * of_int m div d \<le> t * (of_int n :: u256) div d"
proof -
  have "unat t * nat m \<le> unat t * nat n" using assms(3) by (intro mult_le_mono2 nat_mono)
  moreover from this have "unat t * nat m < 2 ^ 256" using assms(1) by (rule le_less_trans)
  ultimately have "unat (t * of_int m) \<le> unat (t * of_int n :: u256)"
    using unat_mult_small [of t m] unat_mult_small [of t n] assms by linarith
  then show ?thesis by (simp add: word_le_nat_alt unat_div_distrib div_le_mono)
qed

lemma transition_bound_eq:
  assumes "arith_laws A" and "0 < param_nPowTargetTimespan params" and "param_nPowTargetTimespan params < 2 ^ 63"
    and "0 \<le> n" and "n < 2 ^ 32"
  shows "transition_bound A params bits n = target_of A (GetCompact A (min (UintToArith256 A (param_powLimit params))
    (target_of A bits * of_int n div of_int (param_nPowTargetTimespan params))))"
  using assms by (simp add: transition_bound_def Let_def capped arith_lawsD(2,3))



text \<open>
  The rule that is in force does not respect that contract: on a network without the
  minimum-difficulty exception, when every block of the window was found within 60 seconds the entry
  point \<^verbatim>\<open>GetNextWorkRequired\<close> makes the target ten times as large at a retarget height, and
  \<^verbatim>\<open>PermittedDifficultyTransition\<close> rejects the transition.
\<close>

theorem lwma_transition_rejected:
  assumes A: "arith_laws A" and T: "0 < param_nPowTargetTimespan params" "param_nPowTargetTimespan params * 4 < 2 ^ 32"
    and params: "\<not> param_fPowNoRetargeting params" "\<not> param_fPowAllowMinDifficultyBlocks params"
    and height: "crem (nHeight b + 1) (DifficultyAdjustmentInterval params) = 0"
    and w: "full_window b" "weighted_average (solve_times 44 b) = 60"
    and t: "0 < unat (target_of A (nBits b))"
      "unat (target_of A (nBits b)) * nat (param_nPowTargetTimespan params * 4) < 2 ^ 256"
      "unat (target_of A (nBits b)) * 600 < 2 ^ 256"
      "10 * unat (target_of A (nBits b)) \<le> unat (UintToArith256 A (param_powLimit params))"
  shows "\<not> PermittedDifficultyTransition A params (nHeight b + 1) (nBits b) (GetNextWorkRequired A b blk params)"
proof -
  define T where "T = param_nPowTargetTimespan params"
  let ?t = "target_of A (nBits b)" and ?limit = "UintToArith256 A (param_powLimit params)"
  have T': "0 < T" "T * 4 < 2 ^ 32" "nat (T * 4) = nat T * 4" using T by (simp_all add: T_def)
  have "unat (?t * 600 div 60) = unat ?t * 10"
    using t(3) unat_mult_small [of ?t 600] by (simp add: unat_div_distrib)
  with t(4) have ten: "unat (min ?limit (?t * 600 div 60)) = 10 * unat ?t"
    by (simp add: min_def word_le_nat_alt)
  have "unat (?t * of_int (T * 4) div of_int T) = unat ?t * nat (T * 4) div nat T"
    using t(2) T' unat_mult_small [of ?t "T * 4"] unat_of_int_small [of T] by (simp add: unat_div_distrib T_def)
  also have "\<dots> = 4 * unat ?t" using T' by simp
  finally have four: "unat (min ?limit (?t * of_int (T * 4) div of_int T)) \<le> 4 * unat ?t"
    by (simp add: min_def word_le_nat_alt)
  have "transition_bound A params (nBits b) (T * 4) = target_of A (GetCompact A (min ?limit (?t * of_int (T * 4) div of_int T)))"
    using transition_bound_eq [OF A, of params "T * 4" "nBits b"] T' by (simp add: T_def)
  then have "unat (transition_bound A params (nBits b) (T * 4)) \<le> 4 * unat ?t"
    using four arith_lawsD(4) [OF A, of "min ?limit (?t * of_int (T * 4) div of_int T)"]
    unfolding word_le_nat_alt by simp
  moreover have "GetNextWorkRequired A b blk params = GetCompact A (min ?limit (?t * 600 div 60))"
    using height params lwma_value [OF A w(1)] w(2)
    by (simp add: GetNextWorkRequired_def CalculateNextWorkRequiredLWMA_def)
  then have "10 * unat ?t \<le> 2 * unat (target_of A (GetNextWorkRequired A b blk params))"
    using arith_lawsD(5) [OF A, of "min ?limit (?t * 600 div 60)"] ten by simp
  ultimately have "transition_bound A params (nBits b) (T * 4) < target_of A (GetNextWorkRequired A b blk params)"
    using t(1) by (simp add: word_less_nat_alt)
  then show ?thesis using params(2) height by (simp add: PermittedDifficultyTransition_def Let_def T_def)
qed

lemma le_word_ff: "(le_word (replicate 32 0xff) :: u256) = 2 ^ 256 - 1"
  by (simp add: le_word_def upt_numerals)

theorem lwma_transition_rejected_witness:
  "\<not> PermittedDifficultyTransition leading_bit_ops main_like 2016 101
     (GetNextWorkRequired leading_bit_ops (steady 60 101 2015) \<lparr>header_nBits = 101, header_nNonce = 5, header_time = 0, header_hash = []\<rparr> main_like)"
proof -
  have c: "clamp_timespan 60 = 60"
    by (simp add: clamp_timespan_def MIN_ACTUAL_TIMESPAN_def MAX_ACTUAL_TIMESPAN_def)
  have l: "UintToArith256 leading_bit_ops (param_powLimit main_like) = 2 ^ 256 - 1"
    using le_word_ff by (simp add: leading_bit_ops_def main_like_def)
  have "\<not> PermittedDifficultyTransition leading_bit_ops main_like (nHeight (steady 60 101 2015) + 1)
     (nBits (steady 60 101 2015)) (GetNextWorkRequired leading_bit_ops (steady 60 101 2015) \<lparr>header_nBits = 101, header_nNonce = 5, header_time = 0, header_hash = []\<rparr> main_like)"
    by (rule lwma_transition_rejected [OF leading_bit_laws])
      (simp_all add: l steady_window c, simp_all add: main_like_def target_of_def leading_bit_ops_def crem_def)
  then show ?thesis by simp
qed

section \<open>The check of a block\<close>

lemma low_digest_less:
  assumes "length d = 8"
  shows "unat (le_word (d @ replicate 24 0) :: u256) < 2 ^ 64"
proof -
  have "(le_word (d @ replicate 24 0) :: u256) = take_bit 64 (le_word (d @ replicate 24 0))"
    using assms by (intro bit_word_eqI) (auto simp: bit_le_word bit_take_bit_iff nth_append)
  then show ?thesis by (metis unsigned_take_bit_eq take_bit_nat_less_exp)
qed

lemma high_byte_le:
  assumes "length bs = 32" and "bs ! 31 = 0xff"
  shows "0xff * 2 ^ 248 \<le> unat (le_word bs :: u256)"
proof -
  have "drop_bit 248 (le_word bs :: u256) = 0xff"
  proof (rule bit_word_eqI)
    fix k assume "k < LENGTH(256)"
    show "bit (drop_bit 248 (le_word bs) :: u256) k \<longleftrightarrow> bit (0xff :: u256) k"
    proof (cases "k < 8")
      case True
      then have "(248 + k) div 8 = 31" "(248 + k) mod 8 = k" by presburger+
      with True assms show ?thesis
        by (simp add: bit_drop_bit_eq bit_le_word bit_0xFF del: bit_numeral_word_iff)
    next
      case False
      then show ?thesis
        by (auto simp: bit_drop_bit_eq bit_0xFF simp del: bit_numeral_word_iff dest: bit_imp_le_length)
    qed
  qed
  then have "unat (drop_bit 248 (le_word bs :: u256)) = 0xff" by simp
  then have "unat (le_word bs :: u256) div 2 ^ 248 = 0xff" unfolding unat_drop_bit_eq by (simp only: drop_bit_eq_div)
  then show ?thesis using div_times_less_eq_dividend [of "unat (le_word bs :: u256)" "2 ^ 248"] by simp
qed

text \<open>
  C21. The block check \<^verbatim>\<open>CheckProofOfWorkProgPoW\<close> reads the hash as a little-endian number, whose 24 most
  significant bytes are the ones the hash never writes. Where those bytes happen to be zero, every
  header passes for every valid target of at least 2 to the 64; where the last of them is 255, every
  header fails for every target below 255 times 2 to the 248. The work of the miner plays no part.
\<close>

theorem block_check_ignores_work:
  fixes n :: u64
  assumes A: "arith_laws A" and len: "length (header_hash block) = 32" "length uninit = 32"
    and target: "DeriveTarget A (header_nBits block) (param_powLimit params) = Some t"
  defines "check \<equiv> CheckProofOfWorkProgPoW A uninit block n params"
    and "digest \<equiv> progpow_digest n (header_hash block) (ucast (header_nNonce block))"
  shows "(drop 8 uninit = replicate 24 0 \<and> 2 ^ 64 \<le> unat t \<longrightarrow> check = map_option (\<lambda>_. True) digest) \<and>
         (uninit ! 31 = 0xff \<and> unat t < 0xff * 2 ^ 248 \<longrightarrow> check = map_option (\<lambda>_. False) digest)"
proof -
  have check: "check = map_option (\<lambda>d. (le_word (d @ drop 8 uninit) :: u256) \<le> t) digest"
  proof (cases digest)
    case (Some d)
    then have "length (d @ drop 8 uninit) = 32"
      using len(2) by (simp add: digest_def length_progpow_digest)
    then have "UintToArith256 A (d @ drop 8 uninit) = le_word (d @ drop 8 uninit)"
      by (rule arith_lawsD(1) [OF A])
    with Some target len show ?thesis
      by (auto simp: check_def digest_def CheckProofOfWorkProgPoW_def ProgPoWHash_eq Let_def)
  qed (use target len in \<open>auto simp: check_def digest_def CheckProofOfWorkProgPoW_def ProgPoWHash_eq Let_def\<close>)
  have "(le_word (d @ drop 8 uninit) :: u256) \<le> t"
    if "digest = Some d" "drop 8 uninit = replicate 24 0" "2 ^ 64 \<le> unat t" for d
    using low_digest_less [of d] that length_progpow_digest [of n _ _ d] by (simp add: digest_def word_le_nat_alt)
  moreover have "\<not> (le_word (d @ drop 8 uninit) :: u256) \<le> t"
    if "digest = Some d" "uninit ! 31 = 0xff" "unat t < 0xff * 2 ^ 248" for d
    using high_byte_le [of "d @ drop 8 uninit"] that len length_progpow_digest [of n _ _ d]
    by (simp add: digest_def word_le_nat_alt nth_append)
  ultimately show ?thesis by (cases digest) (simp_all add: check)
qed

theorem block_check_ignores_work_witness:
  "CheckProofOfWorkProgPoW leading_bit_ops (replicate 32 0)
      \<lparr>header_nBits = 101, header_nNonce = 5, header_time = 0, header_hash = replicate 32 1\<rparr> 7 main_like
    = map_option (\<lambda>_. True) (progpow_digest 7 (replicate 32 1) 5)"
proof -
  have "DeriveTarget leading_bit_ops 101 (param_powLimit main_like) = Some (2 ^ 100)"
    using le_word_ff by (simp add: DeriveTarget_def leading_bit_ops_def main_like_def)
  then show ?thesis
    using block_check_ignores_work [OF leading_bit_laws, of
        "\<lparr>header_nBits = 101, header_nNonce = 5, header_time = 0, header_hash = replicate 32 1\<rparr>" "replicate 32 0" main_like "2 ^ 100" 7]
    by simp
qed

end
