(* ===== verification/ProgPowEpochs.thy ===== *)
theory ProgPowEpochs
  imports ProgPow
begin

text \<open>
  The mixing programs of particular epochs, run through the model of the C++ random number engine:
  the ones whose program contains a rotation by zero have no defined hash.
\<close>

section \<open>Undefined shifts\<close>

text \<open>
  The third output of the 32-bit engine seeded with 11 selects the right rotation, with distance 0.
\<close>

lemma mt_seed_11_third:
  "fst (mt_next mt19937 (snd (mt_next mt19937 (snd (mt_next mt19937 (mt_seed mt19937 11)))))) = 0x04fc5450"
  by code_simp

lemma mix_step_rng: "mix_step i (rng, mix) = Some (rng', mix') \<Longrightarrow> rng' = snd (mt_next mt19937 rng)"
  by (auto simp: mix_step_def Let_def split: prod.splits option.splits)

lemma mix_step_shift_zero: "fst (mt_next mt19937 rng) = 0x04fc5450 \<Longrightarrow> mix_step i (rng, mix) = None"
  by (cases "mt_next mt19937 rng") (simp add: mix_step_def progpow_op_def rotr_by_def)

lemma mix_loop_third:
  assumes "fst (mt_next mt19937 (snd (mt_next mt19937 (snd (mt_next mt19937 rng))))) = 0x04fc5450"
  shows "loop_opt mix_step (0 # 1 # 2 # is) (rng, mix) = None"
proof -
  have "mix_step 2 (r2, m2) = None"
    if "mix_step 0 (rng, mix) = Some (r1, m1)" and "mix_step 1 (r1, m1) = Some (r2, m2)" for r1 m1 r2 m2
    using that assms mix_step_rng by (intro mix_step_shift_zero) metis
  then show ?thesis by (auto split: option.splits)
qed

text \<open>
  For every block of epoch 11 (heights 137500 to 149999) hashing reaches a rotation by zero, whose
  shift by 32 bits is undefined, whatever the header and nonce: the proof of work of those blocks has
  no defined value.
\<close>

theorem progpow_epoch_11_undefined:
  assumes "137500 \<le> b" and "b < 150000"
  shows "ProgPoWHash uninit h nonce b = None \<and> CheckProgPoWProof uninit h nonce b target = None"
proof -
  have "unat b div 12500 = 11" using assms by (simp add: word_le_nat_alt word_less_nat_alt)
  then have "GetEpoch b = 11"
    by (simp add: GetEpoch_def PROGPOW_PERIOD_def word_unat_eq_iff unat_div_distrib)
  moreover have "[0..<64] = 0 # 1 # 2 # [3..<64]" by (simp add: upt_numerals)
  ultimately have "hashLoop b nonce h = None"
    using mix_loop_third [OF mt_seed_11_third] by (simp add: hashLoop_def Let_def)
  moreover have "\<exists>c. Initialize b new_CProgPoW = Some c \<and> m_block_number c = b"
    using cache_fixed by (auto simp: Initialize_def new_CProgPoW_def)
  ultimately show ?thesis by (auto simp: ProgPoWHash_def CheckProgPoWProof_def Hash_def)
qed

theorem progpow_epoch_11_undefined_witness:
  "ProgPoWHash (replicate 32 0) (replicate 32 1) 5 140000 = None"
  using progpow_epoch_11_undefined [of 140000] by simp

end
