(* ===== verification/WalletTypes.thy ===== *)
theory WalletTypes
  imports TypeBridge
begin

text \<open>
  Model of \<^verbatim>\<open>BHTWalletPro/src/wallet/types.h\<close>: digests, keys, scripts, transactions and amounts of the
  wallet. The 32- and 20-byte arrays are byte lists of those lengths. OpenSSL is the parameter
  \<open>ssl\<close>: its digests, its HMAC, and what its random generator and signer return. Amounts are
  integers: the code adds \<^verbatim>\<open>int64_t\<close> values, whose overflow is undefined and left outside the model.
\<close>

section \<open>OpenSSL\<close>

record ssl =
  ssl_SHA256 :: "bytes \<Rightarrow> bytes"
  ssl_RIPEMD160 :: "bytes \<Rightarrow> bytes"
  ssl_HMAC_sha512 :: "bytes \<Rightarrow> bytes \<Rightarrow> bytes"
  ssl_ECDSA_sign :: "bytes \<Rightarrow> bytes \<Rightarrow> bytes option"

text \<open>Their documented output lengths.\<close>

definition ssl_ok :: "ssl \<Rightarrow> bool" where
  "ssl_ok S \<longleftrightarrow> (\<forall>m. length (ssl_SHA256 S m) = 32) \<and> (\<forall>m. length (ssl_RIPEMD160 S m) = 20) \<and>
     (\<forall>k m. length (ssl_HMAC_sha512 S k m) = 64)"

section \<open>Digests\<close>

type_synonym uint256 = bytes
type_synonym uint160 = bytes

definition new_uint256 :: uint256 where "new_uint256 = replicate 32 0"

definition uint256_of :: "u64 \<Rightarrow> uint256" where
  "uint256_of b = (replicate 32 0)[3 := ucast b]"

definition IsNull256 :: "uint256 \<Rightarrow> bool" where
  "IsNull256 d = list_all (\<lambda>i. d ! i = 0) [0..<8]"

definition uint256_ToString :: "uint256 \<Rightarrow> string" where
  "uint256_ToString d = concat (map (\<lambda>i. hex_byte (d ! (31 - i))) [0..<32])"

definition new_uint160 :: uint160 where "new_uint160 = replicate 20 0"

definition uint160_of :: "u64 \<Rightarrow> uint160" where
  "uint160_of b = (replicate 20 0)[3 := ucast b]"

definition IsNull160 :: "uint160 \<Rightarrow> bool" where
  "IsNull160 d = list_all (\<lambda>i. d ! i = 0) [0..<5]"

definition uint160_ToString :: "uint160 \<Rightarrow> string" where
  "uint160_ToString d = concat (map (\<lambda>i. hex_byte (d ! (19 - i))) [0..<20])"

text \<open>\<^verbatim>\<open>operator<\<close> of both classes: \<^verbatim>\<open>memcmp\<close> on arrays of one length.\<close>

fun memcmp_less :: "bytes \<Rightarrow> bytes \<Rightarrow> bool" where
  "memcmp_less (x # xs) (y # ys) \<longleftrightarrow> x < y \<or> (x = y \<and> memcmp_less xs ys)"
| "memcmp_less [] (y # ys) \<longleftrightarrow> True"
| "memcmp_less _ [] \<longleftrightarrow> False"

section \<open>Keys\<close>

type_synonym CKeyID = uint160
type_synonym CScriptID = uint160

record CPubKey =
  pub_m_key :: bytes

definition CPubKey_IsValid :: "CPubKey \<Rightarrow> bool" where
  "CPubKey_IsValid pk \<longleftrightarrow> pub_m_key pk \<noteq> []"

definition GetRawID :: "CPubKey \<Rightarrow> uint160" where
  "GetRawID pk =
     (let id = new_uint160
      in if pub_m_key pk \<noteq> []
         then take (min (length (pub_m_key pk)) 20) (pub_m_key pk) @ drop (min (length (pub_m_key pk)) 20) id
         else id)"

definition CPubKey_GetID :: "ssl \<Rightarrow> CPubKey \<Rightarrow> CKeyID" where
  "CPubKey_GetID S pk =
     (if pub_m_key pk = [] then new_uint160
      else let hash1 = ssl_SHA256 S (pub_m_key pk); hash2 = ssl_RIPEMD160 S hash1 in hash2)"

text \<open>The buffer of \<^verbatim>\<open>CPubKey::ToString\<close> is read uninitialised for an empty key: \<open>None\<close>.\<close>

definition CPubKey_ToString :: "CPubKey \<Rightarrow> string option" where
  "CPubKey_ToString pk =
     (if pub_m_key pk = [] then None
      else Some (concat (map (\<lambda>i. hex_byte (pub_m_key pk ! i)) [0..<min (length (pub_m_key pk)) 33])))"

record CKey =
  key_m_key :: bytes

definition new_CKey :: CKey where "new_CKey = \<lparr>key_m_key = []\<rparr>"

definition CKey_IsValid :: "CKey \<Rightarrow> bool" where
  "CKey_IsValid k \<longleftrightarrow> length (key_m_key k) = 32"

definition CKey_Clear :: "CKey \<Rightarrow> CKey" where
  "CKey_Clear k = k\<lparr>key_m_key := []\<rparr>"

definition SetPrivKey :: "bytes \<Rightarrow> CKey \<Rightarrow> bool \<times> CKey" where
  "SetPrivKey key k = (if length key = 32 then (True, k\<lparr>key_m_key := key\<rparr>) else (False, k))"

text \<open>
  \<^verbatim>\<open>MakeNewKey\<close> draws 32 bytes; \<open>None\<close> is a failure of the generator, after which the resized buffer
  keeps what it held, zero-filled.
\<close>

definition MakeNewKey :: "bytes option \<Rightarrow> CKey \<Rightarrow> bool \<times> CKey" where
  "MakeNewKey rand k =
     (let k = k\<lparr>key_m_key := take 32 (key_m_key k) @ replicate (32 - length (key_m_key k)) 0\<rparr>
      in case rand of None \<Rightarrow> (False, k) | Some r \<Rightarrow> (True, k\<lparr>key_m_key := r\<rparr>))"

definition be_index :: "u32 \<Rightarrow> bytes" where
  "be_index i = [ucast (drop_bit 24 i AND 0xFF), ucast (drop_bit 16 i AND 0xFF), ucast (drop_bit 8 i AND 0xFF),
                 ucast (i AND 0xFF)]"

definition Derive_cc :: "ssl \<Rightarrow> CKey \<Rightarrow> bytes \<Rightarrow> u32 \<Rightarrow> CKey \<Rightarrow> bool \<times> CKey" where
  "Derive_cc S parent cc i k =
     (if \<not> CKey_IsValid parent then (False, k)
      else
        let data = take 32 (key_m_key parent) @ be_index i @ [0];
            hash = ssl_HMAC_sha512 S cc data
        in (True, k\<lparr>key_m_key := take 32 hash\<rparr>))"

definition GetKey :: "CKey \<Rightarrow> bytes" where
  "GetKey k = (if CKey_IsValid k then key_m_key k @ [0x01] else [])"

definition GetPubKey :: "CKey \<Rightarrow> CPubKey" where
  "GetPubKey k =
     (if length (key_m_key k) = 32
      then \<lparr>pub_m_key = key_m_key k @ [0x02 OR (key_m_key k ! 31 AND 0x01)]\<rparr>
      else \<lparr>pub_m_key = []\<rparr>)"

definition Derive_child :: "ssl \<Rightarrow> CKey \<Rightarrow> u32 \<Rightarrow> bool \<Rightarrow> CKey \<Rightarrow> bool \<times> CKey" where
  "Derive_child S k index hardened child =
     (if \<not> CKey_IsValid k then (False, child)
      else
        let data = (if hardened then 0x00 # key_m_key k
                    else take (min (length (pub_m_key (GetPubKey k))) 33) (pub_m_key (GetPubKey k)));
            data = data @ be_index index;
            hash = ssl_HMAC_sha512 S (take 32 (key_m_key k)) data
        in (True, child\<lparr>key_m_key := take 32 hash\<rparr>))"

text \<open>
  \<^verbatim>\<open>Sign\<close> fills a 72-byte buffer (resized, so its old contents survive where nothing is written) with
  the hash and then with the private key.
\<close>

definition Sign_key :: "CKey \<Rightarrow> uint256 \<Rightarrow> bytes \<Rightarrow> bool \<times> bytes" where
  "Sign_key k hash sig =
     (let sig = take 72 sig @ replicate (72 - length sig) 0;
          sig = fold (\<lambda>i sig. sig[i := hash ! i]) [0..<min 32 (length sig)] sig;
          sig = fold (\<lambda>i sig. sig[32 + i := key_m_key k ! i]) [0..<min (length (key_m_key k)) (length sig - 32)] sig
      in (True, sig))"

definition Verify_key :: "CKey \<Rightarrow> uint256 \<Rightarrow> bytes \<Rightarrow> bool" where
  "Verify_key k hash sig = CKey_IsValid k"

definition SignCompact :: "CKey \<Rightarrow> uint256 \<Rightarrow> bytes \<Rightarrow> bool \<times> bytes" where
  "SignCompact k hash sig = Sign_key k hash sig"

definition SetCompactSignature :: "uint256 \<Rightarrow> bytes \<Rightarrow> CKey \<Rightarrow> bool \<times> CKey" where
  "SetCompactSignature hash sig k = SetPrivKey sig k"

definition Recover :: "CKey \<Rightarrow> uint256 \<Rightarrow> bytes \<Rightarrow> bool" where
  "Recover k hash sig = True"

section \<open>Scripts and transactions\<close>

record CScript =
  m_script :: bytes

definition script_push :: "CScript \<Rightarrow> bytes \<Rightarrow> CScript" where
  "script_push s data = s\<lparr>m_script := m_script s @ data\<rparr>"

definition script_push_pubkey :: "CScript \<Rightarrow> CPubKey \<Rightarrow> CScript" where
  "script_push_pubkey s key = s\<lparr>m_script := m_script s @ pub_m_key key\<rparr>"

definition script_push_keyid :: "CScript \<Rightarrow> CKeyID \<Rightarrow> CScript" where
  "script_push_keyid s keyID = s\<lparr>m_script := m_script s @ take 20 keyID\<rparr>"

definition CScript_GetID :: "CScript \<Rightarrow> uint160" where
  "CScript_GetID s = (if length (m_script s) = 20 then m_script s else new_uint160)"

record COutPoint =
  out_hash :: uint256
  out_n :: u32

definition outpoint_less :: "COutPoint \<Rightarrow> COutPoint \<Rightarrow> bool" where
  "outpoint_less a b =
     (if memcmp_less (out_hash a) (out_hash b) then True
      else if out_hash a = out_hash b then out_n a < out_n b
      else False)"

record TxIn =
  prevout :: COutPoint
  scriptSig :: CScript
  nSequence :: u32

record TxOut =
  nValue :: int
  scriptPubKey :: CScript

record CTransaction =
  tx_version :: u32
  vin :: "TxIn list"
  vout :: "TxOut list"
  locktime :: u32

definition new_CTransaction :: CTransaction where
  "new_CTransaction = \<lparr>tx_version = 1, vin = [], vout = [], locktime = 0\<rparr>"

text \<open>The four bytes of \<^verbatim>\<open>version\<close> (a little-endian \<^verbatim>\<open>int32_t\<close>), inverted, in a zero digest.\<close>

definition GetHash :: "CTransaction \<Rightarrow> uint256" where
  "GetHash t = fold (\<lambda>i h. h[i := le_bytes 4 (tx_version t) ! i XOR 0xFF]) [0..<4] new_uint256"

definition GetWitnessHash :: "CTransaction \<Rightarrow> uint256" where
  "GetWitnessHash t = GetHash t"

definition IsCoinBase :: "CTransaction \<Rightarrow> bool" where
  "IsCoinBase t \<longleftrightarrow> length (vin t) = 1 \<and> IsNull256 (out_hash (prevout (vin t ! 0))) \<and> out_n (prevout (vin t ! 0)) = 0xFFFFFFFF"

definition CTransaction_ToString :: "CTransaction \<Rightarrow> string" where
  "CTransaction_ToString t = uint256_ToString (GetHash t)"

record CWalletTx =
  m_tx_hash :: uint256
  m_order_form :: "char list"
  m_time :: int
  m_credit :: int
  m_debit :: int
  m_fee :: int
  m_order_pos :: int
  m_in_trusted :: bool
  m_is_coinbase :: bool
  m_is_coinstake :: bool
  m_confirmations :: int
  m_status :: string
  m_tx :: "CTransaction option"

definition new_CWalletTx :: CWalletTx where
  "new_CWalletTx =
     \<lparr>m_tx_hash = new_uint256, m_order_form = [], m_time = 0, m_credit = 0, m_debit = 0, m_fee = 0,
      m_order_pos = 0, m_in_trusted = False, m_is_coinbase = False, m_is_coinstake = False,
      m_confirmations = 0, m_status = ''unknown'', m_tx = None\<rparr>"

record COutput =
  output_tx :: "CTransaction option"
  output_i :: int
  output_value :: int
  output_safe :: bool
  output_spendable :: bool
  output_watch_spendable :: bool
  output_reuse :: bool
  output_address :: string
  output_label :: string
  output_confirmations :: int

record CInputCoin =
  outpoint :: COutPoint
  txout :: TxOut
  effective_value :: int
  input_depth :: int

definition new_CInputCoin :: CInputCoin where
  "new_CInputCoin =
     \<lparr>outpoint = \<lparr>out_hash = new_uint256, out_n = 0\<rparr>, txout = \<lparr>nValue = 0, scriptPubKey = \<lparr>m_script = []\<rparr>\<rparr>,
      effective_value = 0, input_depth = 0\<rparr>"

definition CInputCoin_of :: "CTransaction option \<Rightarrow> u32 \<Rightarrow> CInputCoin" where
  "CInputCoin_of tx i =
     (case tx of
        None \<Rightarrow> new_CInputCoin
      | Some t \<Rightarrow>
          if unat i < length (vout t)
          then new_CInputCoin\<lparr>outpoint := \<lparr>out_hash = GetHash t, out_n = i\<rparr>, txout := vout t ! unat i,
                 effective_value := nValue (vout t ! unat i)\<rparr>
          else new_CInputCoin)"

record Coin =
  coin_out :: TxOut
  coin_nHeight :: u32
  fCoinBase :: bool
  coin_scriptPubKey :: CScript

section \<open>Facts\<close>

lemma memcmp_less_irrefl [simp]: "\<not> memcmp_less x x"
  by (induction x) auto

lemma memcmp_less_trans: "memcmp_less x y \<Longrightarrow> memcmp_less y z \<Longrightarrow> memcmp_less x z"
proof (induction x y arbitrary: z rule: memcmp_less.induct)
  case (1 a xs b ys)
  then show ?case by (cases z) auto
next
  case (2 b ys)
  then show ?case by (cases z) auto
qed simp_all

lemma memcmp_less_linear: "memcmp_less x y \<or> x = y \<or> memcmp_less y x"
proof (induction x y rule: memcmp_less.induct)
  case (3 x)
  then show ?case by (cases x) auto
qed auto

lemma GetHash_eq: "GetHash t = map (\<lambda>b. b XOR 0xFF) (le_bytes 4 (tx_version t)) @ replicate 28 0"
proof -
  have "GetHash t = map (\<lambda>i. le_bytes 4 (tx_version t) ! i XOR 0xFF) [0..<4] @ drop 4 new_uint256"
    using fold_list_update_range [of 0 4 new_uint256 "\<lambda>i. le_bytes 4 (tx_version t) ! i XOR 0xFF"]
    by (simp add: GetHash_def new_uint256_def)
  also have "map (\<lambda>i. le_bytes 4 (tx_version t) ! i XOR 0xFF) [0..<4] = map (\<lambda>b. b XOR 0xFF) (le_bytes 4 (tx_version t))"
    by (rule nth_equalityI) simp_all
  finally show ?thesis by (simp add: new_uint256_def)
qed

lemma GetHash_version: "GetHash t = GetHash t' \<longleftrightarrow> tx_version t = tx_version t'"
proof -
  have "inj (\<lambda>b. b XOR 0xFF :: byte)" by (rule injI) (metis xor.assoc xor_self_eq xor.right_neutral)
  then show ?thesis using le32.enc_inj [of "tx_version t" "tx_version t'"]
    by (auto simp: GetHash_eq inj_map_eq_map)
qed

text \<open>
  The public key and the signatures of the wallet's key class are the private key: the first 32
  bytes of the public key and bytes 32 to 63 of every signature are the secret, loading either into an
  empty key gives back the key, and the verification accepts every signature of every message.
\<close>

theorem private_key_revealed:
  assumes "CKey_IsValid k" and "length hash = 32"
  shows "SetPrivKey (take 32 (pub_m_key (GetPubKey k))) new_CKey = (True, k) \<and>
         (\<forall>sig. SetPrivKey (take 32 (drop 32 (snd (Sign_key k hash sig)))) new_CKey = (True, k)) \<and>
         (\<forall>h sig. Verify_key k h sig)"
proof -
  have len: "length (key_m_key k) = 32" using assms(1) by (simp add: CKey_IsValid_def)
  have "take 32 (drop 32 (snd (Sign_key k hash sig))) = key_m_key k" for sig
  proof -
    define s0 where "s0 = take 72 sig @ replicate (72 - length sig) 0"
    define s1 where "s1 = fold (\<lambda>i sig. sig[i := hash ! i]) [0..<32] s0"
    have l0: "length s0 = 72" by (simp add: s0_def)
    have s1: "length s1 = 72"
      using fold_list_update_range [of 0 32 s0 "\<lambda>i. hash ! i"] l0 by (simp add: s1_def)
    have "snd (Sign_key k hash sig) = fold (\<lambda>i sig. sig[32 + i := key_m_key k ! i]) [0..<32] s1"
      using len l0 s1 by (simp add: Sign_key_def Let_def s0_def [symmetric] s1_def [symmetric])
    also have "\<dots> = take 32 s1 @ map (\<lambda>i. key_m_key k ! i) [0..<32] @ drop 64 s1"
      using fold_list_update_range [of 32 32 s1 "\<lambda>i. key_m_key k ! i"] s1 by simp
    finally show ?thesis using len s1 map_nth [of "key_m_key k"] by simp
  qed
  with len show ?thesis
    by (auto simp: SetPrivKey_def new_CKey_def GetPubKey_def Verify_key_def CKey_IsValid_def)
qed

theorem private_key_revealed_witness:
  "SetPrivKey (take 32 (pub_m_key (GetPubKey \<lparr>key_m_key = replicate 32 7\<rparr>))) new_CKey = (True, \<lparr>key_m_key = replicate 32 7\<rparr>)"
  using private_key_revealed [of "\<lparr>key_m_key = replicate 32 7\<rparr>" "replicate 32 0"] by (simp add: CKey_IsValid_def)

end
