(* ===== verification/StdMap.thy ===== *)
theory StdMap
  imports WalletTypes
begin

text \<open>
  \<^verbatim>\<open>std::map\<close> as the wallet uses it: an association list in the order of its comparison, updated by
  \<^verbatim>\<open>operator[]\<close> and read by \<^verbatim>\<open>find\<close>. The locale states what the clients rely on; the three key types
  of the wallet are its interpretations.
\<close>

fun map_put :: "('k \<Rightarrow> 'k \<Rightarrow> bool) \<Rightarrow> 'k \<Rightarrow> 'v \<Rightarrow> ('k \<times> 'v) list \<Rightarrow> ('k \<times> 'v) list" where
  "map_put lt k v [] = [(k, v)]"
| "map_put lt k v ((k', v') # xs) =
     (if lt k k' then (k, v) # (k', v') # xs
      else if lt k' k then (k', v') # map_put lt k v xs
      else (k, v) # xs)"

definition sorted_map :: "('k \<Rightarrow> 'k \<Rightarrow> bool) \<Rightarrow> ('k \<times> 'v) list \<Rightarrow> bool" where
  "sorted_map lt xs = sorted_wrt lt (map fst xs)"

locale std_map =
  fixes lt :: "'k \<Rightarrow> 'k \<Rightarrow> bool"
  assumes irrefl: "\<not> lt x x"
    and trans: "lt x y \<Longrightarrow> lt y z \<Longrightarrow> lt x z"
    and linear: "lt x y \<or> x = y \<or> lt y x"
begin

lemma find_put: "map_of (map_put lt k v xs) = (map_of xs)(k \<mapsto> v)"
proof (induction xs)
  case Nil
  show ?case by auto
next
  case (Cons x xs)
  obtain k' v' where x: "x = (k', v')" by fastforce
  show ?case
    using Cons irrefl linear [of k k'] by (auto simp: x fun_eq_iff)
qed

lemma set_put: "set (map_put lt k v xs) \<subseteq> insert (k, v) (set xs)"
  by (induction xs) (auto split: if_splits)

lemma put_keys: "fst ` set (map_put lt k v xs) = insert k (fst ` set xs)"
  by (simp add: dom_map_of_conv_image_fst [symmetric] find_put)

lemma sorted_put: "sorted_map lt xs \<Longrightarrow> sorted_map lt (map_put lt k v xs)"
proof (induction xs)
  case Nil
  show ?case by (simp add: sorted_map_def)
next
  case (Cons x xs)
  obtain k' v' where x: "x = (k', v')" by fastforce
  have rest: "sorted_map lt xs" and less: "\<And>q. q \<in> fst ` set xs \<Longrightarrow> lt k' q"
    using Cons.prems by (auto simp: sorted_map_def x)
  show ?case
  proof (cases "lt k k'")
    case True
    then show ?thesis using Cons.prems less trans by (auto simp: sorted_map_def x)
  next
    case False
    show ?thesis
    proof (cases "lt k' k")
      case True
      with False Cons.IH [OF rest] put_keys [of k v xs] less show ?thesis
        by (auto simp: sorted_map_def x)
    next
      case False
      with \<open>\<not> lt k k'\<close> linear have "k = k'" by blast
      with Cons.prems irrefl show ?thesis by (simp add: sorted_map_def x)
    qed
  qed
qed

lemma sorted_distinct: "sorted_map lt xs \<Longrightarrow> distinct (map fst xs)"
proof -
  have "sorted_wrt lt ks \<Longrightarrow> distinct ks" for ks by (induction ks) (use irrefl in auto)
  then show "sorted_map lt xs \<Longrightarrow> distinct (map fst xs)" by (simp add: sorted_map_def)
qed

end

definition pubkey_less :: "CPubKey \<Rightarrow> CPubKey \<Rightarrow> bool" where
  "pubkey_less a b = memcmp_less (pub_m_key a) (pub_m_key b)"

interpretation digest_map: std_map memcmp_less
proof unfold_locales
  show "memcmp_less x y \<or> x = y \<or> memcmp_less y x" for x y by (rule memcmp_less_linear)
qed (auto intro: memcmp_less_trans)

interpretation pubkey_map: std_map pubkey_less
proof unfold_locales
  show "pubkey_less x y \<or> x = y \<or> pubkey_less y x" for x y
    using memcmp_less_linear [of "pub_m_key x" "pub_m_key y"] by (cases x; cases y) (auto simp: pubkey_less_def)
qed (auto simp: pubkey_less_def intro: memcmp_less_trans)

interpretation outpoint_map: std_map outpoint_less
proof unfold_locales
  show "outpoint_less x y \<or> x = y \<or> outpoint_less y x" for x y
    using memcmp_less_linear [of "out_hash x" "out_hash y"]
    by (cases x; cases y) (auto simp: outpoint_less_def)
  show "outpoint_less x y \<Longrightarrow> outpoint_less y z \<Longrightarrow> outpoint_less x z" for x y z
    using memcmp_less_trans [of "out_hash x" "out_hash y" "out_hash z"]
    by (auto simp: outpoint_less_def dest: memcmp_less_trans split: if_splits)
qed (simp add: outpoint_less_def)

end
