(* ===== verification/Crypter.thy ===== *)
theory Crypter
  imports WalletTypes
begin

text \<open>
  Model of \<^verbatim>\<open>BHTWalletPro/src/wallet/crypter.h\<close>: the XOR cipher of the wallet and the holder of its
  master key. An output argument the code leaves alone is returned as it was.
\<close>

definition str_bytes :: "string \<Rightarrow> bytes" where
  "str_bytes s = map of_char s"

definition Encrypt :: "bytes \<Rightarrow> string \<Rightarrow> bytes \<Rightarrow> bool \<times> bytes" where
  "Encrypt key passphrase crypted_key =
     (if length key \<noteq> 32 then (False, crypted_key)
      else if passphrase = [] then (False, crypted_key)
      else
        let crypted_key = key
        in (True, fold (\<lambda>i c. c[i := c ! i XOR str_bytes passphrase ! (i mod length passphrase)])
              [0..<min 32 (length crypted_key)] crypted_key))"

definition Decrypt :: "bytes \<Rightarrow> string \<Rightarrow> bytes \<Rightarrow> bool \<times> bytes" where
  "Decrypt crypted_key passphrase key = Encrypt crypted_key passphrase key"

definition SetKey :: "string \<Rightarrow> CKey \<Rightarrow> bytes \<Rightarrow> bytes \<Rightarrow> bool \<times> bytes" where
  "SetKey passphrase master_key key_encrypted key_out = Encrypt key_encrypted passphrase key_out"

definition SetKeyFromPassphrase :: "string \<Rightarrow> bytes \<Rightarrow> bytes \<Rightarrow> u32 \<Rightarrow> bytes \<Rightarrow> bool \<times> bytes" where
  "SetKeyFromPassphrase passphrase key_encrypted salt rounds key_out = Encrypt key_encrypted passphrase key_out"

record CCrypterMasterKey =
  master_m_key :: bytes
  m_crypted_key :: bytes

definition master_SetNull :: "CCrypterMasterKey \<Rightarrow> CCrypterMasterKey" where
  "master_SetNull m = m\<lparr>master_m_key := [], m_crypted_key := []\<rparr>"

definition GetCKey :: "CCrypterMasterKey \<Rightarrow> CKey" where
  "GetCKey m = snd (SetPrivKey (master_m_key m) new_CKey)"

definition master_GetPubKey :: "CCrypterMasterKey \<Rightarrow> CPubKey" where
  "master_GetPubKey m = GetPubKey (GetCKey m)"

definition master_SetPrivKey :: "bytes \<Rightarrow> CCrypterMasterKey \<Rightarrow> bool \<times> CCrypterMasterKey" where
  "master_SetPrivKey key m = (True, m\<lparr>master_m_key := key\<rparr>)"

definition master_Decrypt :: "CCrypterMasterKey \<Rightarrow> string \<Rightarrow> bytes \<Rightarrow> bool \<times> bytes" where
  "master_Decrypt m passphrase key = Decrypt (m_crypted_key m) passphrase key"

definition master_Encrypt :: "CCrypterMasterKey \<Rightarrow> string \<Rightarrow> bytes \<Rightarrow> bool \<times> bytes" where
  "master_Encrypt m passphrase crypted_key = Encrypt (master_m_key m) passphrase crypted_key"

section \<open>Facts\<close>

lemma fold_update_map:
  assumes "n \<le> length c"
  shows "fold (\<lambda>i c. c[i := g i (c ! i)]) [0..<n] c = map (\<lambda>i. g i (c ! i)) [0..<n] @ drop n c"
  using assms
proof (induction n)
  case (Suc n)
  then have "drop n c = c ! n # drop (Suc n) c" by (simp add: Cons_nth_drop_Suc)
  with Suc show ?case by (simp add: nth_append list_update_append)
qed simp

lemma Encrypt_eq:
  assumes "length key = 32" and "passphrase \<noteq> []"
  shows "Encrypt key passphrase out =
    (True, map (\<lambda>i. key ! i XOR str_bytes passphrase ! (i mod length passphrase)) [0..<32])"
  using fold_update_map [of 32 key "\<lambda>i b. b XOR str_bytes passphrase ! (i mod length passphrase)"] assms
  by (simp add: Encrypt_def)

text \<open>
  The cipher of the wallet: decrypting what was encrypted with the same passphrase gives the key
  back, and the key and its ciphertext together give away the passphrase characters (their XOR
  repeats the passphrase). Keys of other lengths and empty passphrases are refused by both.
\<close>

theorem crypter_roundtrip:
  assumes "length key = 32" and "p \<noteq> []"
  shows "\<exists>c. Encrypt key p o1 = (True, c) \<and> length c = 32 \<and> Decrypt c p o2 = (True, key) \<and>
           (\<forall>i<32. key ! i XOR c ! i = of_char (p ! (i mod length p)))"
proof -
  let ?c = "map (\<lambda>i. key ! i XOR str_bytes p ! (i mod length p)) [0..<32]"
  have "map (\<lambda>i. ?c ! i XOR str_bytes p ! (i mod length p)) [0..<32] = key"
    using assms(1) by (intro nth_equalityI) (auto simp: xor.assoc)
  then have "Decrypt ?c p o2 = (True, key)"
    unfolding Decrypt_def using Encrypt_eq [of ?c p o2] assms(2) by simp
  moreover have "key ! i XOR ?c ! i = of_char (p ! (i mod length p))" if "i < 32" for i
    using that assms(2) by (simp add: xor.assoc [symmetric] str_bytes_def)
  ultimately show ?thesis using Encrypt_eq [OF assms] by (intro exI [of _ ?c]) simp
qed

theorem crypter_roundtrip_witness:
  "\<exists>c. Encrypt (replicate 32 9) ''pw'' [] = (True, c) \<and> Decrypt c ''pw'' [] = (True, replicate 32 9)"
  using crypter_roundtrip [of "replicate 32 9" "''pw''" "[]" "[]"] by auto

end
