(* ===== verification/Bip39.thy ===== *)
theory Bip39
  imports Main
begin

text \<open>
  Model of the word list of \<^verbatim>\<open>BHTWalletPro/src/wallet/wallet.cpp\<close> (\<^verbatim>\<open>GetBIP39Word\<close> and
  \<^verbatim>\<open>GetBIP39Index\<close>). The table is given in two halves, in the order of the source.
\<close>

definition BIP39_WORDLIST_first :: "string list" where
  "BIP39_WORDLIST_first =
     [''abandon'', ''ability'', ''able'', ''about'', ''above'', ''absent'', ''absorb'', ''abstract'',
      ''absurd'', ''abuse'', ''access'', ''accident'', ''account'', ''accuse'', ''achieve'', ''acid'',
      ''acoustic'', ''acquire'', ''across'', ''act'', ''action'', ''actor'', ''actress'', ''actual'',
      ''adapt'', ''add'', ''addict'', ''address'', ''adjust'', ''admit'', ''adult'', ''advance'',
      ''advice'', ''aerobic'', ''affair'', ''afford'', ''afraid'', ''again'', ''age'', ''agent'',
      ''agree'', ''ahead'', ''aim'', ''air'', ''airport'', ''aisle'', ''alarm'', ''album'',
      ''alcohol'', ''alert'', ''alien'', ''all'', ''alley'', ''allow'', ''almost'', ''alone'',
      ''alpha'', ''already'', ''also'', ''alter'', ''always'', ''amateur'', ''amazing'', ''among'',
      ''amount'', ''amused'', ''analyst'', ''anchor'', ''ancient'', ''anger'', ''angle'', ''angry'',
      ''animal'', ''ankle'', ''announce'', ''annual'', ''another'', ''answer'', ''antenna'', ''antique'',
      ''anxiety'', ''any'', ''apart'', ''apology'', ''appear'', ''apple'', ''approve'', ''april'',
      ''arch'', ''arctic'', ''area'', ''arena'', ''argue'', ''arm'', ''armed'', ''armor'',
      ''army'', ''around'', ''arrange'', ''arrest'', ''arrive'', ''arrow'', ''art'', ''artefact'',
      ''artist'', ''artwork'', ''ask'', ''aspect'', ''assault'', ''asset'', ''assist'', ''assume'',
      ''asthma'', ''athlete'', ''atom'', ''attack'', ''attend'', ''attitude'', ''attract'', ''auction'',
      ''audit'', ''august'', ''aunt'', ''author'', ''auto'', ''autumn'', ''average'', ''avocado'',
      ''avoid'', ''awake'', ''aware'', ''away'', ''awesome'', ''awful'', ''awkward'', ''axis'',
      ''baby'', ''bachelor'', ''bacon'', ''badge'', ''bag'', ''balance'', ''balcony'', ''ball'',
      ''bamboo'', ''banana'', ''banner'', ''bar'', ''barely'', ''bargain'', ''barrel'', ''base'',
      ''basic'', ''basket'', ''battle'', ''beach'', ''bean'', ''beauty'', ''because'', ''become'',
      ''beef'', ''before'', ''begin'', ''behave'', ''behind'', ''believe'', ''below'', ''belt'',
      ''bench'', ''benefit'', ''best'', ''betray'', ''better'', ''between'', ''beyond'', ''bicycle'',
      ''bid'', ''bike'', ''bind'', ''biology'', ''bird'', ''birth'', ''bitter'', ''black'',
      ''blade'', ''blame'', ''blanket'', ''blast'', ''bleak'', ''bless'', ''blind'', ''blood'',
      ''blossom'', ''blouse'', ''blue'', ''blur'', ''blush'', ''board'', ''boat'', ''body'',
      ''boil'', ''bomb'', ''bone'', ''bonus'', ''book'', ''boost'', ''border'', ''boring'',
      ''borrow'', ''boss'', ''bottom'', ''bounce'', ''box'', ''boy'', ''bracket'', ''brain'',
      ''brand'', ''brass'', ''brave'', ''bread'', ''breeze'', ''brick'', ''bridge'', ''brief'',
      ''bright'', ''bring'', ''brisk'', ''broccoli'', ''broken'', ''bronze'', ''broom'', ''brother'',
      ''brown'', ''brush'', ''bubble'', ''buddy'', ''budget'', ''buffalo'', ''build'', ''bulb'',
      ''bulk'', ''bullet'', ''bundle'', ''bamboo'', ''burden'', ''burger'', ''burst'', ''bus'',
      ''business'', ''busy'', ''butter'', ''buyer'', ''buzz'', ''cabbage'', ''cabin'', ''cable'',
      ''cactus'', ''cage'', ''cake'', ''call'', ''calm'', ''camera'', ''camp'', ''can'',
      ''canal'', ''cancel'', ''candy'', ''cannon'', ''canoe'', ''canvas'', ''canyon'', ''capable'',
      ''capital'', ''captain'', ''car'', ''carbon'', ''card'', ''cargo'', ''carpet'', ''carry'',
      ''cart'', ''case'', ''cash'', ''casino'', ''castle'', ''casual'', ''cat'', ''catalog'',
      ''catch'', ''category'', ''cattle'', ''caught'', ''cause'', ''caution'', ''cave'', ''ceiling'',
      ''celery'', ''cement'', ''census'', ''century'', ''cereal'', ''certain'', ''chair'', ''chalk'',
      ''champion'', ''change'', ''chaos'', ''chapter'', ''charge'', ''chase'', ''chat'', ''cheap'',
      ''check'', ''cheese'', ''chef'', ''cherry'', ''chest'', ''chicken'', ''chief'', ''child'',
      ''chimney'', ''choice'', ''choose'', ''chronic'', ''chuckle'', ''chunk'', ''churn'', ''cigar'',
      ''cinnamon'', ''circle'', ''citizen'', ''city'', ''civil'', ''claim'', ''clap'', ''clarify'',
      ''claw'', ''clay'', ''clean'', ''clerk'', ''clever'', ''click'', ''client'', ''cliff'',
      ''climb'', ''clinic'', ''clip'', ''clock'', ''clog'', ''close'', ''cloth'', ''cloud'',
      ''clown'', ''club'', ''clump'', ''cluster'', ''clutch'', ''coach'', ''coast'', ''coconut'',
      ''code'', ''coffee'', ''coil'', ''coin'', ''collect'', ''color'', ''comet'', ''comfort'',
      ''comic'', ''common'', ''company'', ''concert'', ''conduct'', ''confirm'', ''congress'', ''connect'',
      ''consider'', ''control'', ''convince'', ''cook'', ''cool'', ''copper'', ''copy'', ''coral'',
      ''core'', ''corn'', ''correct'', ''cost'', ''cotton'', ''couch'', ''country'', ''couple'',
      ''course'', ''cousin'', ''cover'', ''coyote'', ''crack'', ''cradle'', ''craft'', ''cram'',
      ''crane'', ''crash'', ''crater'', ''crawl'', ''crazy'', ''cream'', ''credit'', ''creek'',
      ''crew'', ''cricket'', ''crime'', ''crisp'', ''critic'', ''crop'', ''cross'', ''crouch'',
      ''crowd'', ''crucial'', ''cruel'', ''cruise'', ''crumble'', ''crunch'', ''crush'', ''cry'',
      ''crystal'', ''cube'', ''culture'', ''cup'', ''cupboard'', ''curious'', ''current'', ''curtain'',
      ''curve'', ''cushion'', ''custom'', ''cute'', ''cycle'', ''dad'', ''damage'', ''damp'',
      ''dance'', ''danger'', ''daring'', ''dash'', ''daughter'', ''dawn'', ''day'', ''deal'',
      ''debate'', ''debris'', ''decade'', ''december'', ''decide'', ''decline'', ''decorate'', ''decrease'',
      ''deer'', ''defense'', ''define'', ''defy'', ''degree'', ''delay'', ''deliver'', ''demand'',
      ''demise'', ''denial'', ''dentist'', ''deny'', ''depart'', ''depend'', ''deposit'', ''depth'',
      ''deputy'', ''derive'', ''describe'', ''desert'', ''design'', ''desk'', ''despair'', ''destroy'',
      ''detail'', ''detect'', ''develop'', ''device'', ''devote'', ''diagram'', ''dial'', ''diamond'',
      ''diary'', ''dice'', ''diesel'', ''diet'', ''differ'', ''digital'', ''dignity'', ''dilemma'',
      ''dinner'', ''dinosaur'', ''direct'', ''dirt'', ''disagree'', ''discover'', ''disease'', ''dish'',
      ''dismiss'', ''disorder'', ''display'', ''distance'', ''divert'', ''divide'', ''divorce'', ''dizzy'',
      ''doctor'', ''document'', ''dog'', ''doll'', ''dolphin'', ''domain'', ''donate'', ''donkey'',
      ''donor'', ''door'', ''dose'', ''double'', ''dove'', ''draft'', ''dragon'', ''drama'',
      ''drastic'', ''draw'', ''dream'', ''dress'', ''drift'', ''drill'', ''drink'', ''drip'',
      ''drive'', ''drop'', ''drum'', ''dry'', ''duck'', ''dumb'', ''dune'', ''during'',
      ''dust'', ''dutch'', ''duty'', ''dwarf'', ''dynamic'', ''eager'', ''eagle'', ''early'',
      ''earn'', ''earth'', ''easily'', ''east'', ''easy'', ''echo'', ''ecology'', ''economy'',
      ''edge'', ''edit'', ''educate'', ''effort'', ''egg'', ''eight'', ''either'', ''elbow'',
      ''elder'', ''electric'', ''elegant'', ''element'', ''elephant'', ''elevator'', ''elite'', ''else'',
      ''embark'', ''embody'', ''embrace'', ''emerge'', ''emotion'', ''employ'', ''empower'', ''empty'',
      ''enable'', ''enact'', ''end'', ''endless'', ''endorse'', ''enemy'', ''energy'', ''enforce'',
      ''engage'', ''engine'', ''enhance'', ''enjoy'', ''enlist'', ''enough'', ''enrich'', ''enroll'',
      ''ensure'', ''enter'', ''entire'', ''entry'', ''envelope'', ''episode'', ''equal'', ''equip'',
      ''era'', ''erase'', ''erode'', ''erosion'', ''error'', ''erupt'', ''escape'', ''essay'',
      ''essence'', ''estate'', ''eternal'', ''ethics'', ''evidence'', ''evil'', ''evoke'', ''evolve'',
      ''exact'', ''example'', ''excess'', ''exchange'', ''excite'', ''exclude'', ''excuse'', ''execute'',
      ''exercise'', ''exhaust'', ''exhibit'', ''exile'', ''exist'', ''exit'', ''exotic'', ''expand'',
      ''expect'', ''expire'', ''explain'', ''expose'', ''express'', ''extend'', ''extra'', ''eye'',
      ''eyebrow'', ''fabric'', ''face'', ''faculty'', ''fade'', ''faint'', ''faith'', ''fall'',
      ''false'', ''fame'', ''family'', ''famous'', ''fan'', ''fancy'', ''fantasy'', ''farm'',
      ''fashion'', ''fat'', ''fatal'', ''father'', ''fatigue'', ''fault'', ''favorite'', ''feature'',
      ''february'', ''federal'', ''fee'', ''feed'', ''feel'', ''female'', ''fence'', ''festival'',
      ''fetch'', ''fever'', ''few'', ''fiber'', ''fiction'', ''field'', ''figure'', ''file'',
      ''film'', ''filter'', ''final'', ''find'', ''fine'', ''finger'', ''finish'', ''fire'',
      ''firm'', ''first'', ''fiscal'', ''fish'', ''fit'', ''fitness'', ''fix'', ''flag'',
      ''flame'', ''flash'', ''flat'', ''flavor'', ''flee'', ''flight'', ''flip'', ''float'',
      ''flock'', ''floor'', ''flower'', ''fluid'', ''flush'', ''fly'', ''foam'', ''focus'',
      ''fog'', ''foil'', ''fold'', ''follow'', ''food'', ''foot'', ''force'', ''forest'',
      ''forget'', ''fork'', ''fortune'', ''forum'', ''forward'', ''fossil'', ''foster'', ''found'',
      ''fox'', ''fragile'', ''frame'', ''frequent'', ''friend'', ''fringe'', ''frog'', ''front'',
      ''frost'', ''frown'', ''frozen'', ''fruit'', ''fuel'', ''fun'', ''funny'', ''furnace'',
      ''fury'', ''future'', ''gadget'', ''gain'', ''galaxy'', ''gallery'', ''game'', ''gap'',
      ''garage'', ''garbage'', ''garden'', ''garlic'', ''garment'', ''gas'', ''gasp'', ''gate'',
      ''gather'', ''gauge'', ''gaze'', ''general'', ''genius'', ''genre'', ''gentle'', ''genuine'',
      ''gesture'', ''ghost'', ''giant'', ''gift'', ''giggle'', ''ginger'', ''giraffe'', ''girl'',
      ''give'', ''glad'', ''glance'', ''glare'', ''glass'', ''gleam'', ''globe'', ''gloom'',
      ''glory'', ''gloss'', ''glove'', ''glow'', ''glue'', ''goal'', ''goat'', ''goddess'',
      ''gold'', ''golf'', ''good'', ''goose'', ''gorgeous'', ''gown'', ''grab'', ''grace'',
      ''grade'', ''grain'', ''grandmother'', ''grant'', ''grape'', ''grasp'', ''grass'', ''grate'',
      ''grave'', ''gravy'', ''gray'', ''grease'', ''great'', ''green'', ''greet'', ''grief'',
      ''grill'', ''grin'', ''grind'', ''grip'', ''grit'', ''groan'', ''grocery'', ''groom'',
      ''gross'', ''group'', ''grove'', ''growl'', ''grown'', ''guard'', ''guess'', ''guest'',
      ''guide'', ''guilt'', ''guitar'', ''gun'', ''gust'', ''gutter'', ''guy'', ''habit'',
      ''hair'', ''half'', ''hall'', ''hammer'', ''hamster'', ''hand'', ''happy'', ''harbor'',
      ''hard'', ''harsh'', ''harvest'', ''hat'', ''hatch'', ''hate'', ''haul'', ''have'',
      ''hawk'', ''hazard'', ''head'', ''health'', ''heart'', ''heavy'', ''hedgehog'', ''height'',
      ''hello'', ''helmet'', ''help'', ''hen'', ''her'', ''herb'', ''here'', ''hero'',
      ''hesitate'', ''hide'', ''high'', ''hill'', ''hint'', ''hip'', ''hire'', ''historian'',
      ''hold'', ''hole'', ''holiday'', ''hollow'', ''home'', ''honey'', ''hood'', ''hope'',
      ''horizon'', ''horn'', ''horror'', ''horse'', ''hospital'', ''hotel'', ''hour'', ''hover'',
      ''hub'', ''huge'', ''human'', ''humble'', ''humor'', ''hundred'', ''hungry'', ''hunt'',
      ''hurdle'', ''hurry'', ''hurt'', ''husband'', ''hybrid'', ''ice'', ''icon'', ''idea'',
      ''ideal'', ''identity'', ''idle'', ''ignore'', ''ill'', ''illegal'', ''illness'', ''image'',
      ''imitate'', ''immense'', ''immune'', ''impact'', ''impose'', ''improve'', ''impulse'', ''inch'',
      ''include'', ''income'', ''increase'', ''index'', ''indicate'', ''indoor'', ''industry'', ''infant'',
      ''inflict'', ''inform'', ''inherit'', ''initial'', ''inject'', ''injury'', ''ink'', ''innate'',
      ''inner'', ''innocent'', ''input'', ''inquiry'', ''insect'', ''inside'', ''inspire'', ''install'',
      ''intact'', ''interest'', ''interior'', ''internal'', ''invade'', ''invest'', ''invite'', ''involve'',
      ''iron'', ''island'', ''isolate'', ''issue'', ''item'', ''ivory'', ''jacket'', ''jaguar'',
      ''jar'', ''jazz'', ''jealous'', ''jeans'', ''jelly'', ''jewel'', ''jigsaw'', ''job'',
      ''join'', ''joke'', ''jolly'', ''journey'', ''joy'', ''judge'', ''juice'', ''jump'',
      ''jungle'', ''junior'', ''junk'', ''just'', ''kangaroo'', ''keen'', ''keep'', ''ketchup'',
      ''key'', ''kick'', ''kid'', ''kidney'', ''king'', ''kiss'', ''kit'', ''kitchen'',
      ''kite'', ''kitty'', ''knee'', ''knife'', ''knight'', ''knit'', ''knob'', ''knock'',
      ''knot'', ''know'', ''knowledge'', ''known'', ''label'', ''labor'', ''lace'', ''ladder'',
      ''lady'', ''lake'', ''lamb'', ''lamp'', ''land'', ''landscape'', ''lane'', ''language'',
      ''laptop'', ''large'', ''laser'', ''last'', ''latch'', ''late'', ''later'', ''laugh'',
      ''laundry'', ''lava'', ''law'', ''lawn'', ''lawsuit'', ''layer'', ''lazy'', ''lead'',
      ''leader'', ''leaf'', ''leap'', ''learn'', ''lease'', ''least'', ''leather'', ''leave'',
      ''lecture'', ''left'', ''legal'', ''lemon'', ''lend'', ''length'', ''lens'', ''leopard'',
      ''lesson'', ''letter'', ''level'', ''lever'', ''liberty'', ''library'', ''license'', ''life'',
      ''lift'', ''light'', ''like'', ''limb'', ''limit'', ''linen'', ''liner'', ''linger'',
      ''lion'', ''list'', ''live'', ''liver'', ''living'', ''lizard'', ''load'', ''loan'',
      ''lobby'', ''local'', ''lock'', ''lodge'', ''loft'', ''logic'', ''lonely'', ''long'',
      ''look'', ''loose'', ''lorry'', ''lot'', ''loyal'', ''lucky'', ''luggage'', ''lumber'',
      ''lunar'', ''lunch'', ''lunge'', ''lyric'', ''machine'', ''magic'', ''magistrate'', ''magnet'',
      ''maid'', ''mail'', ''main'', ''maintain'', ''major'', ''make'', ''mammal'', ''manage'',
      ''mandate'', ''mango'', ''manner'', ''manual'', ''march'', ''margin'', ''marine'', ''market'',
      ''marriage'', ''mask'', ''mass'', ''mast'', ''master'', ''match'', ''mate'', ''material'',
      ''math'', ''matter'', ''mature'', ''mayor'', ''meadow'', ''mean'', ''measure'', ''meat'',
      ''mechanic'', ''medal'', ''media'', ''melon'', ''melt'', ''member'', ''memory'', ''mention'']"

definition BIP39_WORDLIST_second :: "string list" where
  "BIP39_WORDLIST_second =
     [''mentor'', ''menu'', ''mercy'', ''merge'', ''merit'', ''merry'', ''mesh'', ''mess'',
      ''message'', ''metal'', ''meter'', ''method'', ''microphone'', ''middle'', ''midnight'', ''might'',
      ''mighty'', ''mild'', ''mile'', ''milk'', ''million'', ''mimic'', ''mind'', ''mine'',
      ''mineral'', ''minor'', ''mint'', ''minus'', ''minute'', ''miracle'', ''mirror'', ''misery'',
      ''miss'', ''mistake'', ''mix'', ''mixed'', ''mixture'', ''mobile'', ''model'', ''modify'',
      ''moist'', ''moment'', ''monarch'', ''money'', ''monkey'', ''monster'', ''month'', ''mood'',
      ''moon'', ''moral'', ''more'', ''morning'', ''mortal'', ''mortar'', ''mother'', ''motion'',
      ''motor'', ''motorcycle'', ''mount'', ''mouse'', ''mouth'', ''move'', ''movie'', ''much'',
      ''muck'', ''mural'', ''murder'', ''murky'', ''muscle'', ''museum'', ''mushroom'', ''music'',
      ''musical'', ''must'', ''mutual'', ''muzzle'', ''mystery'', ''myth'', ''nail'', ''naive'',
      ''name'', ''napkin'', ''narrow'', ''nasty'', ''nation'', ''native'', ''natural'', ''nature'',
      ''naval'', ''navigate'', ''near'', ''neck'', ''need'', ''negative'', ''neglect'', ''negotiate'',
      ''neighbor'', ''nerve'', ''nest'', ''network'', ''neutral'', ''news'', ''next'', ''nice'',
      ''night'', ''noble'', ''noise'', ''nominee'', ''none'', ''noon'', ''norm'', ''normal'',
      ''north'', ''nose'', ''notch'', ''notable'', ''note'', ''nothing'', ''notice'', ''notion'',
      ''novel'', ''nurse'', ''nylon'', ''oasis'', ''observe'', ''obtain'', ''occasion'', ''occupy'',
      ''ocean'', ''october'', ''odor'', ''offer'', ''office'', ''often'', ''olive'', ''olympic'',
      ''omit'', ''once'', ''one'', ''onion'', ''online'', ''only'', ''open'', ''opera'',
      ''opinion'', ''oppose'', ''option'', ''orange'', ''orbit'', ''orchard'', ''order'', ''organ'',
      ''origin'', ''orphan'', ''other'', ''outdoor'', ''outer'', ''output'', ''outrage'', ''outset'',
      ''oval'', ''oven'', ''over'', ''own'', ''owner'', ''oxide'', ''oxygen'', ''oyster'',
      ''ozone'', ''pacific'', ''package'', ''packet'', ''page'', ''paid'', ''pain'', ''paint'',
      ''pair'', ''palace'', ''palm'', ''panda'', ''panel'', ''panic'', ''paper'', ''parade'',
      ''parent'', ''park'', ''parrot'', ''party'', ''pass'', ''past'', ''paste'', ''patch'',
      ''patience'', ''patient'', ''patrol'', ''patron'', ''pattern'', ''pause'', ''pave'', ''payment'',
      ''peace'', ''peach'', ''peacock'', ''peak'', ''peanut'', ''pearl'', ''pedal'', ''penny'',
      ''people'', ''pepper'', ''percent'', ''perfect'', ''perch'', ''perform'', ''perhaps'', ''period'',
      ''permit'', ''person'', ''pest'', ''pet'', ''petal'', ''petty'', ''phase'', ''phone'',
      ''photo'', ''phrase'', ''physical'', ''piano'', ''pick'', ''picnic'', ''picture'', ''piece'',
      ''pigeon'', ''pillow'', ''pilot'', ''pin'', ''pink'', ''pioneer'', ''pipe'', ''pistol'',
      ''pitch'', ''pizza'', ''place'', ''plain'', ''plan'', ''plane'', ''planet'', ''plant'',
      ''plate'', ''platform'', ''play'', ''plaza'', ''plead'', ''please'', ''pledge'', ''pluck'',
      ''plumb'', ''plume'', ''plump'', ''plunge'', ''plural'', ''plus'', ''pocket'', ''poem'',
      ''poet'', ''point'', ''poise'', ''poison'', ''polar'', ''police'', ''pond'', ''pony'',
      ''pool'', ''popular'', ''portion'', ''position'', ''possess'', ''possible'', ''post'', ''pot'',
      ''potato'', ''potential'', ''poultry'', ''pound'', ''power'', ''practice'', ''praise'', ''predict'',
      ''prefer'', ''prefix'', ''pregnant'', ''premise'', ''premium'', ''prepare'', ''present'', ''preserve'',
      ''president'', ''press'', ''pressure'', ''prestige'', ''pretend'', ''pretty'', ''price'', ''pride'',
      ''priest'', ''primary'', ''prime'', ''print'', ''prior'', ''prison'', ''prize'', ''probe'',
      ''problem'', ''proceed'', ''process'', ''produce'', ''product'', ''profile'', ''program'', ''project'',
      ''promise'', ''promote'', ''prophet'', ''proposal'', ''prose'', ''protect'', ''protein'', ''protest'',
      ''proud'', ''prove'', ''provide'', ''province'', ''psychic'', ''public'', ''pudding'', ''pull'',
      ''pulse'', ''pumpkin'', ''punch'', ''pupil'', ''puppy'', ''purchase'', ''purse'', ''push'',
      ''puzzle'', ''python'', ''quality'', ''quantum'', ''quarter'', ''queen'', ''query'', ''quest'',
      ''quick'', ''quiet'', ''quilt'', ''quirk'', ''quota'', ''quote'', ''rabbit'', ''racial'',
      ''racism'', ''rack'', ''radar'', ''radio'', ''raft'', ''rail'', ''rain'', ''rainbow'',
      ''raise'', ''rally'', ''ranch'', ''random'', ''range'', ''rapid'', ''rare'', ''rather'',
      ''raven'', ''razor'', ''reach'', ''react'', ''read'', ''ready'', ''realm'', ''rebel'',
      ''recall'', ''receive'', ''recipe'', ''record'', ''recover'', ''reduce'', ''reflect'', ''reform'',
      ''refuse'', ''regard'', ''regime'', ''region'', ''regret'', ''regular'', ''reject'', ''relate'',
      ''relax'', ''release'', ''relief'', ''rely'', ''remain'', ''remark'', ''remedy'', ''remind'',
      ''remote'', ''remove'', ''render'', ''rent'', ''repair'', ''repeat'', ''replace'', ''report'',
      ''rescue'', ''resemble'', ''resist'', ''resort'', ''resource'', ''response'', ''rest'', ''restore'',
      ''result'', ''retail'', ''retain'', ''retire'', ''retreat'', ''return'', ''reveal'', ''review'',
      ''revolt'', ''reward'', ''rhythm'', ''rib'', ''ribbon'', ''rice'', ''rich'', ''ride'',
      ''ridge'', ''rifle'', ''right'', ''rigid'', ''rigor'', ''ring'', ''riot'', ''ripen'',
      ''rise'', ''risk'', ''ritual'', ''rival'', ''river'', ''roast'', ''robot'', ''robust'',
      ''rocket'', ''rock'', ''rocky'', ''romance'', ''roof'', ''room'', ''root'', ''rope'',
      ''rose'', ''rosy'', ''rotate'', ''rough'', ''round'', ''route'', ''rover'', ''royal'',
      ''rubber'', ''rugby'', ''ruler'', ''rumble'', ''rumor'', ''rural'', ''rust'', ''sack'',
      ''sacred'', ''saddle'', ''sadness'', ''safe'', ''sail'', ''saint'', ''salad'', ''salmon'',
      ''salon'', ''salary'', ''salute'', ''same'', ''sample'', ''sand'', ''satisfy'', ''satoshi'',
      ''sauce'', ''save'', ''say'', ''scale'', ''scam'', ''scan'', ''scare'', ''scene'',
      ''scent'', ''scheme'', ''scold'', ''scope'', ''score'', ''scorn'', ''scout'', ''scrap'',
      ''screen'', ''script'', ''scroll'', ''seal'', ''search'', ''season'', ''seat'', ''second'',
      ''secret'', ''section'', ''security'', ''seed'', ''seek'', ''seem'', ''segment'', ''seize'',
      ''select'', ''sell'', ''senate'', ''senior'', ''sense'', ''sentence'', ''series'', ''server'',
      ''settle'', ''setup'', ''seven'', ''sever'', ''shade'', ''shaft'', ''shake'', ''shall'',
      ''shame'', ''shape'', ''share'', ''shark'', ''sharp'', ''shave'', ''shed'', ''shell'',
      ''shelter'', ''shift'', ''shine'', ''ship'', ''shirt'', ''shock'', ''shoe'', ''shoot'',
      ''shop'', ''shore'', ''short'', ''shot'', ''should'', ''shoulder'', ''shout'', ''shove'',
      ''show'', ''shower'', ''shrimp'', ''shrine'', ''shrink'', ''shrug'', ''shut'', ''sibling'',
      ''sick'', ''side'', ''siege'', ''sight'', ''sign'', ''signal'', ''silence'', ''silent'',
      ''silk'', ''silly'', ''silver'', ''similar'', ''simple'', ''since'', ''singer'', ''single'',
      ''sink'', ''site'', ''siren'', ''sister'', ''situate'', ''six'', ''size'', ''skate'',
      ''skill'', ''skull'', ''slave'', ''sketch'', ''ski'', ''skirt'', ''slam'', ''slap'',
      ''slash'', ''slate'', ''slave'', ''sleep'', ''sleek'', ''slice'', ''slide'', ''slim'',
      ''slogan'', ''slope'', ''slot'', ''slow'', ''slush'', ''small'', ''smart'', ''smell'',
      ''smile'', ''smog'', ''smoke'', ''snake'', ''snap'', ''snare'', ''snarl'', ''sneak'',
      ''snow'', ''soak'', ''soap'', ''soar'', ''soccer'', ''social'', ''sock'', ''socket'',
      ''soda'', ''sofa'', ''soft'', ''software'', ''soil'', ''solar'', ''soldier'', ''solid'',
      ''solution'', ''solve'', ''some'', ''son'', ''song'', ''soon'', ''sophisticated'', ''sorry'',
      ''sort'', ''soul'', ''sound'', ''south'', ''space'', ''spare'', ''spark'', ''spatial'',
      ''speak'', ''spear'', ''special'', ''speed'', ''spell'', ''spend'', ''sphere'', ''spice'',
      ''spider'', ''spike'', ''spill'', ''spin'', ''spine'', ''spirit'', ''split'', ''spoil'',
      ''sponsor'', ''spoon'', ''sport'', ''spot'', ''spray'', ''spread'', ''spring'', ''spy'',
      ''squad'', ''square'', ''squeeze'', ''stadium'', ''staff'', ''stage'', ''stain'', ''stair'',
      ''stake'', ''stale'', ''stall'', ''stamp'', ''stand'', ''staple'', ''star'', ''start'',
      ''stash'', ''state'', ''station'', ''statue'', ''status'', ''steady'', ''steak'', ''steal'',
      ''steam'', ''steel'', ''steep'', ''steer'', ''stem'', ''step'', ''stew'', ''stick'',
      ''stiff'', ''still'', ''stock'', ''stomach'', ''stomp'', ''stone'', ''stool'', ''store'',
      ''storm'', ''story'', ''stout'', ''stove'', ''strap'', ''straw'', ''stray'', ''streak'',
      ''stream'', ''street'', ''strength'', ''stress'', ''stretch'', ''stride'', ''strike'', ''string'',
      ''strip'', ''stripe'', ''stroke'', ''strong'', ''struggle'', ''strut'', ''stub'', ''stuck'',
      ''student'', ''studio'', ''study'', ''stuff'', ''stumble'', ''stump'', ''stupid'', ''style'',
      ''subject'', ''submit'', ''subtle'', ''subway'', ''success'', ''such'', ''suck'', ''sudden'',
      ''suffer'', ''sugar'', ''suggest'', ''suit'', ''suite'', ''sulfur'', ''summer'', ''summit'',
      ''sun'', ''sunday'', ''sunlight'', ''sunny'', ''sunset'', ''super'', ''supply'', ''suppose'',
      ''supreme'', ''sure'', ''surface'', ''surge'', ''surprise'', ''surround'', ''survey'', ''suspect'',
      ''sustain'', ''swallow'', ''swamp'', ''swarm'', ''swear'', ''sweat'', ''sweep'', ''sweet'',
      ''swift'', ''swim'', ''swing'', ''switch'', ''sword'', ''syrup'', ''table'', ''tablet'',
      ''tackle'', ''tactic'', ''tail'', ''take'', ''tale'', ''talent'', ''talk'', ''tall'',
      ''tame'', ''tank'', ''tape'', ''target'', ''task'', ''taste'', ''tattoo'', ''taxi'',
      ''teach'', ''teacher'', ''team'', ''tear'', ''tease'', ''tech'', ''tempo'', ''ten'',
      ''tenant'', ''tender'', ''tennis'', ''tense'', ''tenth'', ''term'', ''terrace'', ''terrible'',
      ''test'', ''text'', ''than'', ''thank'', ''that'', ''theme'', ''then'', ''theory'',
      ''therapy'', ''there'', ''these'', ''thick'', ''thief'', ''thigh'', ''thing'', ''think'',
      ''third'', ''thirst'', ''thirteen'', ''thirty'', ''this'', ''thorn'', ''those'', ''three'',
      ''thrill'', ''thrive'', ''throat'', ''throne'', ''through'', ''throw'', ''thumb'', ''thunder'',
      ''thus'', ''ticket'', ''tiger'', ''tight'', ''timer'', ''tissue'', ''title'', ''toast'',
      ''tobacco'', ''today'', ''toddler'', ''toe'', ''together'', ''toilet'', ''token'', ''tomato'',
      ''tomorrow'', ''tone'', ''tongue'', ''tonight'', ''tool'', ''tooth'', ''topic'', ''torch'',
      ''tornado'', ''torpedo'', ''torrent'', ''total'', ''touch'', ''tough'', ''tour'', ''tourist'',
      ''toward'', ''tower'', ''town'', ''toxic'', ''toy'', ''trace'', ''track'', ''trade'',
      ''traffic'', ''tragic'', ''trail'', ''train'', ''trait'', ''trash'', ''travel'', ''tray'',
      ''treat'', ''treaty'', ''tree'', ''tremendous'', ''trend'', ''trial'', ''tribe'', ''tribute'',
      ''trick'', ''trigger'', ''trillion'', ''trim'', ''trip'', ''triumph'', ''troop'', ''tropical'',
      ''trouble'', ''trousers'', ''truck'', ''true'', ''truly'', ''trumpet'', ''trunk'', ''trust'',
      ''truth'', ''tulip'', ''tumor'', ''tuna'', ''tune'', ''tunnel'', ''turkey'', ''turn'',
      ''turtle'', ''twelve'', ''twenty'', ''twice'', ''twin'', ''twist'', ''two'', ''type'',
      ''typical'', ''ugly'', ''ultimate'', ''umbrella'', ''unable'', ''uncle'', ''under'', ''undergo'',
      ''unfair'', ''unfold'', ''unhappy'', ''uniform'', ''union'', ''unique'', ''unit'', ''unite'',
      ''universe'', ''unknown'', ''unless'', ''unlike'', ''unlock'', ''until'', ''unusual'', ''update'',
      ''upgrade'', ''uphold'', ''upon'', ''upper'', ''upset'', ''urban'', ''urge'', ''usage'',
      ''use'', ''used'', ''useful'', ''useless'', ''usual'', ''utility'', ''vacant'', ''vacuum'',
      ''vague'', ''valid'', ''valley'', ''valor'', ''value'', ''valve'', ''vampire'', ''van'',
      ''vanish'', ''vapor'', ''various'', ''vast'', ''vault'', ''veal'', ''vector'', ''velvet'',
      ''vendor'', ''venture'', ''venue'', ''verb'', ''verdict'', ''verify'', ''verse'', ''version'',
      ''versus'', ''very'', ''vessel'', ''veteran'', ''viable'', ''vibrant'', ''victim'', ''victory'',
      ''video'', ''view'', ''vigilant'', ''village'', ''vintage'', ''violin'', ''virtual'', ''virtue'',
      ''virus'', ''visa'', ''visible'', ''vision'', ''visit'', ''visual'', ''vital'', ''vivid'',
      ''vocal'', ''voice'', ''void'', ''volcano'', ''volume'', ''volunteer'', ''vote'', ''voyage'',
      ''wade'', ''wage'', ''wagon'', ''waist'', ''waste'', ''watch'', ''water'', ''wave'',
      ''weak'', ''wealth'', ''wealthy'', ''weapon'', ''wear'', ''weasel'', ''weather'', ''wedding'',
      ''weekend'', ''weigh'', ''welcome'', ''welfare'', ''west'', ''western'', ''whale'', ''what'',
      ''wheat'', ''wheel'', ''when'', ''where'', ''whether'', ''which'', ''while'', ''whisper'',
      ''whistle'', ''white'', ''whole'', ''whom'', ''whose'', ''wicked'', ''wide'', ''width'',
      ''wife'', ''wild'', ''will'', ''willing'', ''wind'', ''window'', ''wine'', ''wing'',
      ''wink'', ''winner'', ''winter'', ''wire'', ''wisdom'', ''wise'', ''wish'', ''witch'',
      ''withdraw'', ''within'', ''without'', ''witness'', ''wizard'', ''wobble'', ''woman'', ''wonder'',
      ''wood'', ''wool'', ''word'', ''work'', ''world'', ''worry'', ''worth'', ''worthwhile'',
      ''wrap'', ''wrath'', ''wreck'', ''wrestle'', ''wrist'', ''write'', ''wrong'', ''yacht'',
      ''year'', ''yellow'', ''yesterday'', ''yield'', ''young'', ''youth'', ''zebra'', ''zombie'',
      ''zone'', ''zoo'', ''zoom'']"

definition BIP39_WORDLIST :: "string list" where
  "BIP39_WORDLIST = BIP39_WORDLIST_first @ BIP39_WORDLIST_second"

definition BIP39_WORDLIST_SIZE :: nat where
  "BIP39_WORDLIST_SIZE = 2299"

definition GetBIP39Word :: "int \<Rightarrow> string" where
  "GetBIP39Word index =
     (if 0 \<le> index \<and> index < int BIP39_WORDLIST_SIZE then BIP39_WORDLIST ! nat index else [])"

text \<open>The search loop from index \<open>i\<close> on.\<close>

function index_from :: "string \<Rightarrow> nat \<Rightarrow> int" where
  "index_from word i =
     (if i < BIP39_WORDLIST_SIZE then
        if GetBIP39Word (int i) = word then int i else index_from word (i + 1)
      else - 1)"
  by pat_completeness auto
termination
  by (relation "measure (\<lambda>(word, i). BIP39_WORDLIST_SIZE - i)") auto

declare index_from.simps [simp del]

definition GetBIP39Index :: "string \<Rightarrow> int" where
  "GetBIP39Index word = index_from word 0"

text \<open>White space as \<^verbatim>\<open>operator>>\<close> on strings sees it, and a test all letters of the table pass.\<close>

definition is_space :: "char \<Rightarrow> bool" where
  "is_space c \<longleftrightarrow> (of_char c :: nat) \<in> {9, 10, 11, 12, 13, 32}"

definition letter :: "char \<Rightarrow> bool" where
  "letter c \<longleftrightarrow> digit6 c \<and> digit5 c"

lemma letter_not_space: "letter c \<Longrightarrow> \<not> is_space c"
  by (cases c) (auto simp: letter_def is_space_def of_char_Char)

lemma first_words: "list_all (\<lambda>w. w \<noteq> [] \<and> list_all letter w) BIP39_WORDLIST_first"
  by (simp add: BIP39_WORDLIST_first_def letter_def)

lemma second_words: "list_all (\<lambda>w. w \<noteq> [] \<and> list_all letter w) BIP39_WORDLIST_second"
  by (simp add: BIP39_WORDLIST_second_def letter_def)

lemma word_letters: "x \<in> set BIP39_WORDLIST \<Longrightarrow> x \<noteq> [] \<and> list_all letter x"
  using first_words second_words by (auto simp: BIP39_WORDLIST_def list_all_iff)

lemma length_BIP39_WORDLIST: "length BIP39_WORDLIST = BIP39_WORDLIST_SIZE"
  by (simp add: BIP39_WORDLIST_def BIP39_WORDLIST_first_def BIP39_WORDLIST_second_def BIP39_WORDLIST_SIZE_def)

lemma GetBIP39Word_nth: "k < BIP39_WORDLIST_SIZE \<Longrightarrow> GetBIP39Word (int k) = BIP39_WORDLIST ! k"
  by (simp add: GetBIP39Word_def)

lemma GetBIP39Word_in: "k < BIP39_WORDLIST_SIZE \<Longrightarrow> GetBIP39Word (int k) \<in> set BIP39_WORDLIST"
  by (simp add: GetBIP39Word_nth length_BIP39_WORDLIST)

text \<open>The loop returns the least index from its start on, or minus one.\<close>

lemma index_from_least:
  "(index_from x i = - 1 \<and> (\<forall>j. i \<le> j \<and> j < BIP39_WORDLIST_SIZE \<longrightarrow> BIP39_WORDLIST ! j \<noteq> x)) \<or>
   (\<exists>k. i \<le> k \<and> k < BIP39_WORDLIST_SIZE \<and> index_from x i = int k \<and> BIP39_WORDLIST ! k = x \<and>
      (\<forall>j. i \<le> j \<and> j < k \<longrightarrow> BIP39_WORDLIST ! j \<noteq> x))"
proof (induction "BIP39_WORDLIST_SIZE - i" arbitrary: i)
  case 0
  then show ?case by (subst index_from.simps) auto
next
  case (Suc n)
  then have i: "i < BIP39_WORDLIST_SIZE" by simp
  show ?case
  proof (cases "BIP39_WORDLIST ! i = x")
    case True
    with i have "index_from x i = int i" by (subst index_from.simps) (simp add: GetBIP39Word_nth)
    with True i show ?thesis by (intro disjI2 exI [of _ i]) auto
  next
    case False
    with i have step: "index_from x i = index_from x (i + 1)" by (subst index_from.simps) (simp add: GetBIP39Word_nth)
    have more: "(\<forall>j. i \<le> j \<and> j < m \<longrightarrow> BIP39_WORDLIST ! j \<noteq> x) \<longleftrightarrow> (\<forall>j. i + 1 \<le> j \<and> j < m \<longrightarrow> BIP39_WORDLIST ! j \<noteq> x)" for m
      using False by (metis Suc_eq_plus1 Suc_leI le_eq_less_or_eq Suc_le_lessD less_imp_le)
    have "BIP39_WORDLIST_SIZE - (i + 1) = n" using Suc.hyps(2) by simp
    with Suc.hyps(1) [of "i + 1"] show ?thesis unfolding step more by (auto dest: Suc_leD)
  qed
qed

lemma GetBIP39Index_in: "x \<in> set BIP39_WORDLIST \<Longrightarrow> 0 \<le> GetBIP39Index x"
  using index_from_least [of x 0] by (auto simp: GetBIP39Index_def in_set_conv_nth length_BIP39_WORDLIST)

text \<open>
  Looking a word up gives the first index that holds it, or minus one for a word that is not in
  the table. The table has 2299 entries, not the 2048 of BIP-39, and repeats two words: the words at
  243 and 1762 are found at 144 and 1754.
\<close>

theorem word_lookup:
  "(x \<notin> set BIP39_WORDLIST \<longrightarrow> GetBIP39Index x = - 1) \<and>
   (x \<in> set BIP39_WORDLIST \<longrightarrow>
      (\<exists>k<2299. GetBIP39Index x = int k \<and> GetBIP39Word (int k) = x \<and> (\<forall>j<k. GetBIP39Word (int j) \<noteq> x))) \<and>
   GetBIP39Word 243 = GetBIP39Word 144 \<and> GetBIP39Word 1762 = GetBIP39Word 1754"
proof (intro conjI impI)
  assume "x \<notin> set BIP39_WORDLIST"
  then show "GetBIP39Index x = - 1"
    using index_from_least [of x 0] nth_mem [of _ BIP39_WORDLIST]
    by (auto simp: GetBIP39Index_def length_BIP39_WORDLIST)
next
  assume "x \<in> set BIP39_WORDLIST"
  then obtain j where j: "j < BIP39_WORDLIST_SIZE" "BIP39_WORDLIST ! j = x"
    by (auto simp: in_set_conv_nth length_BIP39_WORDLIST)
  then obtain k where k: "k < BIP39_WORDLIST_SIZE" "GetBIP39Index x = int k" "BIP39_WORDLIST ! k = x"
    "\<forall>j<k. BIP39_WORDLIST ! j \<noteq> x"
    using index_from_least [of x 0] by (auto simp: GetBIP39Index_def)
  then show "\<exists>k<2299. GetBIP39Index x = int k \<and> GetBIP39Word (int k) = x \<and> (\<forall>j<k. GetBIP39Word (int j) \<noteq> x)"
    by (intro exI [of _ k]) (auto simp: BIP39_WORDLIST_SIZE_def GetBIP39Word_nth)
next
  have "length BIP39_WORDLIST_first = 1152" by (simp add: BIP39_WORDLIST_first_def)
  then have "GetBIP39Word 243 = BIP39_WORDLIST_first ! 243" "GetBIP39Word 144 = BIP39_WORDLIST_first ! 144"
    "GetBIP39Word 1762 = BIP39_WORDLIST_second ! 610" "GetBIP39Word 1754 = BIP39_WORDLIST_second ! 602"
    by (simp_all add: GetBIP39Word_def BIP39_WORDLIST_SIZE_def BIP39_WORDLIST_def nth_append)
  then show "GetBIP39Word 243 = GetBIP39Word 144" and "GetBIP39Word 1762 = GetBIP39Word 1754"
    by (simp_all add: BIP39_WORDLIST_first_def BIP39_WORDLIST_second_def)
qed

theorem word_lookup_witness:
  "GetBIP39Index ''notaword!'' = - 1"
proof -
  have "''notaword!'' \<notin> set BIP39_WORDLIST" using word_letters [of "''notaword!''"] by (auto simp: letter_def)
  then show ?thesis using word_lookup by blast
qed

end
