(* ===== verification/Wallet.thy ===== *)
theory Wallet
  imports StdMap Crypter Bip39 StateMachine
begin

text \<open>
  Model of \<^verbatim>\<open>BHTWalletPro/src/wallet/wallet.{h,cpp}\<close> with the database stub \<^verbatim>\<open>walletdb.h\<close>: the class
  \<^verbatim>\<open>CWallet\<close>, one definition per member function. Random draws, the clock and the contents of files are
  arguments; OpenSSL is the parameter \<open>S\<close>. The backup file is a byte list; reading past its end leaves
  variables uninitialised in the code, which is \<open>None\<close> here.
\<close>

section \<open>State\<close>

datatype OutputType = Legacy | P2SH_SegWit | Bech32 | Bech32m
datatype CoinType = BHC | BHTE
datatype SignatureType = ECDSA | Schnorr | ML_DSA

definition DEFAULT_TX_FEE :: int where "DEFAULT_TX_FEE = 1000"

record CRecipient =
  rcpt_scriptPubKey :: CScript
  rcpt_nAmount :: int
  rcpt_fSubtractFeeFromAmount :: bool

record CKeyPool =
  pool_nCreationTime :: int
  pool_vchPubKey :: CPubKey
  pool_output_type :: OutputType

record CWallet =
  m_locked :: bool
  m_encrypted :: bool
  m_dirty :: bool
  m_use_mldsa :: bool
  m_min_fee :: int
  m_default_sigtype :: SignatureType
  m_wallet_path :: string
  m_master_seed :: bytes
  m_master_key :: CCrypterMasterKey
  m_default_pubkey :: CPubKey
  m_keys :: "(CKeyID \<times> CKey) list"
  m_pubkey_to_keyid :: "(CPubKey \<times> CKeyID) list"
  m_pubkeys :: "(CKeyID \<times> CPubKey) list"
  m_wallet_txs :: "(uint256 \<times> CWalletTx) list"
  m_key_pools :: "CKeyPool list"

definition new_CWallet :: CWallet where
  "new_CWallet =
     \<lparr>m_locked = True, m_encrypted = False, m_dirty = False, m_use_mldsa = True,
      m_min_fee = DEFAULT_TX_FEE, m_default_sigtype = Schnorr, m_wallet_path = [], m_master_seed = [],
      m_master_key = \<lparr>master_m_key = [], m_crypted_key = []\<rparr>, m_default_pubkey = \<lparr>pub_m_key = []\<rparr>,
      m_keys = [], m_pubkey_to_keyid = [], m_pubkeys = [], m_wallet_txs = [], m_key_pools = []\<rparr>"

definition Create :: "string \<Rightarrow> CWallet" where
  "Create wallet_path = new_CWallet\<lparr>m_wallet_path := wallet_path\<rparr>"

section \<open>Keys\<close>

definition wallet_GetPubKey :: "CKeyID \<Rightarrow> CWallet \<Rightarrow> CPubKey" where
  "wallet_GetPubKey address w =
     (case map_of (m_pubkeys w) address of Some pk \<Rightarrow> pk | None \<Rightarrow> \<lparr>pub_m_key = []\<rparr>)"

definition wallet_GetKey :: "CKeyID \<Rightarrow> CWallet \<Rightarrow> CKey option" where
  "wallet_GetKey address w = map_of (m_keys w) address"

definition GetDefaultAddress :: "ssl \<Rightarrow> CWallet \<Rightarrow> string" where
  "GetDefaultAddress S w =
     (if CPubKey_IsValid (m_default_pubkey w)
      then uint160_ToString (CPubKey_GetID S (m_default_pubkey w)) else [])"

definition AddKey :: "ssl \<Rightarrow> CKey \<Rightarrow> CWallet \<Rightarrow> bool \<times> CWallet" where
  "AddKey S key w =
     (if CPubKey_IsValid (GetPubKey key) then
        let keyid = CPubKey_GetID S (GetPubKey key)
        in (True, w\<lparr>m_keys := map_put memcmp_less keyid key (m_keys w),
                    m_pubkeys := map_put memcmp_less keyid (GetPubKey key) (m_pubkeys w),
                    m_pubkey_to_keyid := map_put pubkey_less (GetPubKey key) keyid (m_pubkey_to_keyid w),
                    m_dirty := True\<rparr>)
      else (False, w))"

definition AddKeyPubKey :: "ssl \<Rightarrow> CKey \<Rightarrow> CPubKey \<Rightarrow> CWallet \<Rightarrow> bool \<times> CWallet" where
  "AddKeyPubKey S key pubkey w =
     (if CPubKey_IsValid pubkey \<and> CPubKey_GetID S pubkey = CPubKey_GetID S (GetPubKey key)
      then AddKey S key w else (False, w))"

definition GenerateNewKey ::
  "ssl \<Rightarrow> bytes option \<Rightarrow> int \<Rightarrow> OutputType \<Rightarrow> bool \<Rightarrow> CWallet \<Rightarrow> CPubKey \<times> CWallet" where
  "GenerateNewKey S rand now type internal w =
     (let key = snd (MakeNewKey rand new_CKey);
          pubkey = GetPubKey key
      in case AddKey S key w of
           (False, w) \<Rightarrow> (\<lparr>pub_m_key = []\<rparr>, w)
         | (True, w) \<Rightarrow>
             let keypool = \<lparr>pool_nCreationTime = now, pool_vchPubKey = pubkey, pool_output_type = type\<rparr>
             in (pubkey, w\<lparr>m_key_pools := m_key_pools w @ [keypool]\<rparr>))"

section \<open>Derivation\<close>

definition coin_index :: "CoinType \<Rightarrow> u32" where
  "coin_index coin = (case coin of BHC \<Rightarrow> 0 | BHTE \<Rightarrow> 1)"

definition CreateBip84Path :: "CoinType \<Rightarrow> bool \<Rightarrow> u32 list" where
  "CreateBip84Path coin internal =
     [0x8000002C, 0x80000000 OR coin_index coin, 0x80000000 OR 0, if internal then 1 else 0, 0, 0]"

definition ComputeBip32Path :: "string \<Rightarrow> CoinType \<Rightarrow> bool \<Rightarrow> u32 list" where
  "ComputeBip32Path purpose coin internal =
     [if purpose = ''84'' then 0x80000054 else if purpose = ''49'' then 0x80000031 else 0x8000002C,
      0x80000000 OR coin_index coin, 0x80000000 OR 0,
      if internal then 0x80000001 else 0x80000000, 0, 0]"

fun derive_loop :: "ssl \<Rightarrow> u32 list \<Rightarrow> CKey \<Rightarrow> CKey option" where
  "derive_loop S [] derived_key = Some derived_key"
| "derive_loop S (child_index # path) derived_key =
     (let hardened = child_index AND 0x80000000 \<noteq> 0;
          child_index = child_index AND 0x7FFFFFFF
      in case Derive_child S derived_key child_index hardened new_CKey of
           (False, _) \<Rightarrow> None
         | (True, child_key) \<Rightarrow> derive_loop S path child_key)"

definition DeriveKeyPath :: "ssl \<Rightarrow> u32 list \<Rightarrow> CWallet \<Rightarrow> CKey option" where
  "DeriveKeyPath S path w =
     (if master_m_key (m_master_key w) = [] then None
      else derive_loop S path (GetCKey (m_master_key w)))"

definition SetupHDChain :: "ssl \<Rightarrow> bool \<Rightarrow> CWallet \<Rightarrow> bool" where
  "SetupHDChain S internal w = (DeriveKeyPath S (CreateBip84Path BHC internal) w \<noteq> None)"

text \<open>
  \<^verbatim>\<open>DeriveChildKey\<close>: the hardened branch inserts a range between iterators of two different temporary
  vectors, which is undefined (\<open>None\<close>). So is reading the key bytes of an invalid parent.
\<close>

definition DeriveChildKey :: "ssl \<Rightarrow> CKey \<Rightarrow> CPubKey \<Rightarrow> u32 \<Rightarrow> CKey \<Rightarrow> (CKey \<times> CPubKey) option" where
  "DeriveChildKey S parent_key parent_pubkey child_index child_key =
     (let hardened = child_index AND 0x80000000 \<noteq> 0;
          child_index = child_index AND 0x7FFFFFFF
      in if hardened \<or> \<not> CKey_IsValid parent_key then None
         else
           let data = pub_m_key parent_pubkey @ be_index child_index;
               hash = ssl_HMAC_sha512 S (str_bytes ''BHTWallet'') data;
               child_key_data = map (\<lambda>i. take 32 hash ! i XOR GetKey parent_key ! i) [0..<32];
               child_key = snd (SetPrivKey child_key_data child_key)
           in Some (child_key, GetPubKey child_key))"

section \<open>Creation, encryption, locking\<close>

text \<open>\<open>draw\<close> lists the twelve indices the generator yields.\<close>

definition ComputeMnemonic :: "nat list \<Rightarrow> string list" where
  "ComputeMnemonic draw = map (\<lambda>i. GetBIP39Word (int (draw ! i))) [0..<12]"

definition ComputeMasterKey :: "ssl \<Rightarrow> string list \<Rightarrow> CWallet \<Rightarrow> bool \<times> CWallet" where
  "ComputeMasterKey S words w =
     (let entropy = concat (map (\<lambda>word. word @ '' '') words);
          seed = ssl_HMAC_sha512 S (str_bytes ''BHTWallet'') (str_bytes entropy);
          master_key = take 32 seed
      in (True, w\<lparr>m_master_seed := seed, m_master_key := snd (master_SetPrivKey master_key (m_master_key w))\<rparr>))"

definition EncryptWallet :: "string \<Rightarrow> CWallet \<Rightarrow> bool \<times> CWallet" where
  "EncryptWallet passphrase w =
     (if m_encrypted w then (False, w)
      else if master_m_key (m_master_key w) = [] then (False, w)
      else case Encrypt (master_m_key (m_master_key w)) passphrase [] of
             (False, _) \<Rightarrow> (False, w)
           | (True, crypted_key) \<Rightarrow> (True, w\<lparr>m_encrypted := True\<rparr>))"

definition Unlock :: "string \<Rightarrow> CWallet \<Rightarrow> bool \<times> CWallet" where
  "Unlock passphrase w =
     (if \<not> m_encrypted w then (True, w\<lparr>m_locked := False\<rparr>)
      else case master_Decrypt (m_master_key w) passphrase [] of
             (False, _) \<Rightarrow> (False, w)
           | (True, master_key) \<Rightarrow>
               (case master_SetPrivKey master_key (m_master_key w) of
                  (False, _) \<Rightarrow> (False, w)
                | (True, mk) \<Rightarrow> (True, w\<lparr>m_master_key := mk, m_locked := False\<rparr>)))"

definition Lock :: "CWallet \<Rightarrow> CWallet" where
  "Lock w = (if m_encrypted w then w\<lparr>m_locked := True\<rparr> else w)"

definition CreateWallet :: "ssl \<Rightarrow> nat list \<Rightarrow> string \<Rightarrow> CWallet \<Rightarrow> bool \<times> CWallet" where
  "CreateWallet S draw passphrase w =
     (let mnemonic_words = ComputeMnemonic draw;
          (ok, w) = ComputeMasterKey S mnemonic_words w
      in if \<not> ok then (False, w)
         else
           let w = (if passphrase \<noteq> [] \<and> master_m_key (m_master_key w) \<noteq> []
                    then snd (EncryptWallet passphrase w) else w)
           in if \<not> SetupHDChain S False w then (False, w)
              else (True, w\<lparr>m_default_pubkey := master_GetPubKey (m_master_key w), m_dirty := True, m_locked := False\<rparr>))"

text \<open>The database of \<^verbatim>\<open>walletdb.h\<close> stores nothing: every read fails and leaves its arguments alone.\<close>

definition ReadMasterKey :: "bytes \<Rightarrow> bytes \<Rightarrow> u32 \<Rightarrow> bool \<times> bytes \<times> bytes \<times> u32" where
  "ReadMasterKey key salt rounds = (False, key, salt, rounds)"

definition WriteMasterKey :: "bytes \<Rightarrow> bytes \<Rightarrow> u32 \<Rightarrow> bool" where
  "WriteMasterKey key salt rounds = False"

definition db_ReadKey :: "CKeyID \<Rightarrow> CKey \<Rightarrow> bool \<times> CKey" where
  "db_ReadKey key_id key = (False, key)"

definition db_WriteKey :: "CKeyID \<Rightarrow> CKey \<Rightarrow> bool" where
  "db_WriteKey key_id key = False"

definition db_WriteTx :: "uint256 \<Rightarrow> CWalletTx \<Rightarrow> bool" where
  "db_WriteTx hash tx = False"

definition LoadWallet :: "string \<Rightarrow> CWallet \<Rightarrow> bool \<times> CWallet" where
  "LoadWallet passphrase w =
     (case ReadMasterKey [] [] 0 of
        (False, _) \<Rightarrow> (False, w)
      | (True, crypted_key, salt, rounds) \<Rightarrow>
          let w = w\<lparr>m_master_key := (m_master_key w)\<lparr>m_crypted_key := crypted_key\<rparr>\<rparr>
          in case master_Decrypt (m_master_key w) passphrase [] of
               (False, _) \<Rightarrow> (False, w)
             | (True, master_key) \<Rightarrow>
                 let w = w\<lparr>m_master_key := snd (master_SetPrivKey master_key (m_master_key w))\<rparr>
                 in (True, w\<lparr>m_default_pubkey := master_GetPubKey (m_master_key w), m_encrypted := True,
                             m_locked := False, m_dirty := False\<rparr>))"

definition Load :: "string \<Rightarrow> string \<Rightarrow> CWallet option" where
  "Load wallet_path passphrase =
     (let w = new_CWallet\<lparr>m_wallet_path := wallet_path\<rparr>
      in case LoadWallet passphrase w of (False, _) \<Rightarrow> None | (True, w) \<Rightarrow> Some w)"

section \<open>Mnemonics\<close>

definition GetMnemonic :: "nat list \<Rightarrow> CWallet \<Rightarrow> string" where
  "GetMnemonic draw w =
     (if m_master_seed w = [] then
        let words = ComputeMnemonic draw
        in fold (\<lambda>i mnemonic. (if i > 0 then mnemonic @ '' '' else mnemonic) @ words ! i) [0..<length words] []
      else [])"

text \<open>\<^verbatim>\<open>iss >> word\<close>: skip white space, then read up to the next white space.\<close>

function split_words :: "string \<Rightarrow> string list" where
  "split_words s =
     (let s = dropWhile is_space s
      in if s = [] then [] else takeWhile (\<lambda>c. \<not> is_space c) s # split_words (dropWhile (\<lambda>c. \<not> is_space c) s))"
  by pat_completeness auto
termination
proof (relation "measure length")
  fix s x
  assume x: "x = dropWhile is_space s" and ne: "x \<noteq> []"
  then have "\<not> is_space (hd x)" by (simp add: hd_dropWhile)
  then have "length (dropWhile (\<lambda>c. \<not> is_space c) x) < length x"
    using ne by (cases x) (simp_all add: length_dropWhile_le le_imp_less_Suc)
  also have "\<dots> \<le> length s" using x by (simp add: length_dropWhile_le)
  finally show "(dropWhile (\<lambda>c. \<not> is_space c) x, s) \<in> measure length" by simp
qed simp

declare split_words.simps [simp del]

definition RestoreFromMnemonic :: "ssl \<Rightarrow> string \<Rightarrow> CWallet \<Rightarrow> bool \<times> CWallet" where
  "RestoreFromMnemonic S mnemonic w =
     (let words = split_words mnemonic
      in if length words \<noteq> 12 \<and> length words \<noteq> 24 then (False, w)
         else if \<exists>x\<in>set words. GetBIP39Index x < 0 then (False, w)
         else
           let (ok, w) = ComputeMasterKey S words w
           in if \<not> ok then (False, w)
              else if \<not> SetupHDChain S False w then (False, w)
              else (True, w\<lparr>m_default_pubkey := master_GetPubKey (m_master_key w), m_dirty := True, m_locked := False\<rparr>))"

section \<open>Transactions and balances\<close>

definition sign_input :: "ssl \<Rightarrow> CWallet \<Rightarrow> (COutPoint \<times> Coin) list \<Rightarrow> nat \<Rightarrow> CTransaction \<Rightarrow> CTransaction" where
  "sign_input S w coins i tx =
     (case map_of coins (prevout (vin tx ! i)) of
        None \<Rightarrow> tx
      | Some coin \<Rightarrow>
          (case wallet_GetKey (CScript_GetID (scriptPubKey (coin_out coin))) w of
             None \<Rightarrow> tx
           | Some key \<Rightarrow>
               (case ssl_ECDSA_sign S (take 32 (GetKey key)) (GetHash tx) of
                  None \<Rightarrow> tx
                | Some sig \<Rightarrow>
                    let signature = sig @ [0x01] @ pub_m_key (GetPubKey key)
                    in tx\<lparr>vin := (vin tx)[i := (vin tx ! i)\<lparr>scriptSig := script_push (scriptSig (vin tx ! i)) signature\<rparr>]\<rparr>)))"

definition SignTransaction :: "ssl \<Rightarrow> CWallet \<Rightarrow> CTransaction \<Rightarrow> (COutPoint \<times> Coin) list \<Rightarrow> bool \<times> CTransaction" where
  "SignTransaction S w tx coins = (True, fold (sign_input S w coins) [0..<length (vin tx)] tx)"

text \<open>The returned text, the transaction and its identifier; the fee argument is never written.\<close>

definition CreateTransaction ::
  "ssl \<Rightarrow> CRecipient list \<Rightarrow> bool \<Rightarrow> CWallet \<Rightarrow> string \<times> (CTransaction \<times> uint256) option" where
  "CreateTransaction S recipients sign w =
     (let newTx = new_CTransaction\<lparr>tx_version := 2, locktime := 0\<rparr>;
          newTx = fold (\<lambda>r t. t\<lparr>vout := vout t @ [\<lparr>nValue = rcpt_nAmount r, scriptPubKey = rcpt_scriptPubKey r\<rparr>]\<rparr>) recipients newTx;
          (ok, newTx) = (if sign then SignTransaction S w newTx [] else (True, newTx))
      in if \<not> ok then ([], None)
         else (uint256_ToString (GetHash newTx), Some (newTx, GetHash newTx)))"

definition CommitTransaction :: "int \<Rightarrow> CTransaction \<Rightarrow> CWallet \<Rightarrow> bool \<times> CWallet" where
  "CommitTransaction now tx w =
     (let txid = GetHash tx;
          wtx = new_CWalletTx\<lparr>m_tx_hash := txid, m_time := now, m_status := ''sending'', m_order_pos := -1\<rparr>
      in (True, w\<lparr>m_wallet_txs := map_put memcmp_less txid wtx (m_wallet_txs w)\<rparr>))"

definition GetTransaction :: "uint256 \<Rightarrow> CWallet \<Rightarrow> CTransaction option" where
  "GetTransaction txid w = (case map_of (m_wallet_txs w) txid of Some wtx \<Rightarrow> m_tx wtx | None \<Rightarrow> None)"

definition GetBalance :: "CWallet \<Rightarrow> int" where
  "GetBalance w = fold (\<lambda>tx total. total + (m_credit (snd tx) - m_debit (snd tx))) (m_wallet_txs w) 0"

definition GetSpendableBalance :: "CWallet \<Rightarrow> int" where
  "GetSpendableBalance w = GetBalance w"

definition GetUnconfirmedBalance :: "CWallet \<Rightarrow> int" where
  "GetUnconfirmedBalance w =
     fold (\<lambda>tx total. if m_confirmations (snd tx) < 6 then total + m_credit (snd tx) else total) (m_wallet_txs w) 0"

definition AvailableCoins :: "bool \<Rightarrow> CWallet \<Rightarrow> COutput list" where
  "AvailableCoins fOnlySafe w = []"

fun select_loop :: "int \<Rightarrow> COutput list \<Rightarrow> int \<Rightarrow> COutput list \<Rightarrow> CInputCoin list \<Rightarrow>
    bool \<times> int \<times> COutput list \<times> CInputCoin list" where
  "select_loop target [] value cs sel = (value \<ge> target, value, cs, sel)"
| "select_loop target (coin # coins) value cs sel =
     (let cs = cs @ [coin];
          sel = List.insert (CInputCoin_of (output_tx coin) (of_int (output_i coin))) sel;
          value = value + output_value coin
      in if value \<ge> target then (True, value, cs, sel) else select_loop target coins value cs sel)"

definition SelectCoins :: "int \<Rightarrow> CWallet \<Rightarrow> bool \<times> int \<times> COutput list \<times> CInputCoin list" where
  "SelectCoins target w = select_loop target (AvailableCoins True w) 0 [] []"

definition GetAddressesByAccount :: "string \<Rightarrow> CWallet \<Rightarrow> string option list" where
  "GetAddressesByAccount account w = map (\<lambda>entry. CPubKey_ToString (snd entry)) (m_pubkeys w)"

section \<open>Backup files\<close>

definition backup_key :: "CKeyID \<times> CKey \<Rightarrow> bytes" where
  "backup_key = (\<lambda>(keyID, key).
     let keyData = GetKey key in keyID @ le_bytes 4 (of_nat (length keyData) :: u32) @ keyData)"

definition backup_tx :: "uint256 \<times> CWalletTx \<Rightarrow> bytes" where
  "backup_tx = (\<lambda>(txHash, wtx). txHash @ le_bytes 8 (of_int (m_time wtx) :: u64))"

definition BackupWallet :: "u64 \<Rightarrow> CWallet \<Rightarrow> bytes" where
  "BackupWallet timestamp w =
     str_bytes ''BHTWALLETBACKUP_V1'' @ [10] @ le_bytes 4 (1 :: u32) @ le_bytes 8 timestamp @
     le_bytes 4 (of_nat (length (m_keys w)) :: u32) @ concat (map backup_key (m_keys w)) @
     le_bytes 8 (of_nat (length (m_wallet_txs w)) :: u64) @ concat (map backup_tx (m_wallet_txs w)) @
     [if m_encrypted w then 1 else 0]"

definition ExportWallet :: "u64 \<Rightarrow> CWallet \<Rightarrow> bytes" where
  "ExportWallet timestamp w = BackupWallet timestamp w"

text \<open>\<^verbatim>\<open>file.read\<close> of \<open>n\<close> bytes; \<open>None\<close> when the file ends first.\<close>

definition read_n :: "nat \<Rightarrow> bytes \<Rightarrow> (bytes \<times> bytes) option" where
  "read_n n file = (if n \<le> length file then Some (take n file, drop n file) else None)"

fun import_keys :: "ssl \<Rightarrow> nat \<Rightarrow> bytes \<Rightarrow> CWallet \<Rightarrow> (bytes \<times> CWallet) option" where
  "import_keys S 0 file w = Some (file, w)"
| "import_keys S (Suc n) file w =
     (case read_n 20 file of
        None \<Rightarrow> None
      | Some (keyID, file) \<Rightarrow>
          (case read_n 4 file of
             None \<Rightarrow> None
           | Some (keySize, file) \<Rightarrow>
               (case read_n (unat (le_word keySize :: u32)) file of
                  None \<Rightarrow> None
                | Some (keyData, file) \<Rightarrow>
                    let key = snd (SetPrivKey keyData new_CKey)
                    in import_keys S n file (snd (AddKey S key w)))))"

fun import_txs :: "nat \<Rightarrow> bytes \<Rightarrow> bytes option" where
  "import_txs 0 file = Some file"
| "import_txs (Suc n) file =
     (case read_n 32 file of
        None \<Rightarrow> None
      | Some (txHash, file) \<Rightarrow>
          (case read_n 8 file of None \<Rightarrow> None | Some (wtxTime, file) \<Rightarrow> import_txs n file))"

definition ImportWallet :: "ssl \<Rightarrow> bytes \<Rightarrow> CWallet \<Rightarrow> (bool \<times> CWallet) option" where
  "ImportWallet S file w =
     (let header = takeWhile (\<lambda>b. b \<noteq> 10) file;
          file = drop 1 (dropWhile (\<lambda>b. b \<noteq> 10) file)
      in if header \<noteq> str_bytes ''BHTWALLETBACKUP_V1'' then Some (False, w)
         else case read_n 4 file of
           None \<Rightarrow> None
         | Some (version, file) \<Rightarrow>
             if (le_word version :: u32) \<noteq> 1 then Some (False, w)
             else case read_n 8 file of
               None \<Rightarrow> None
             | Some (timestamp, file) \<Rightarrow>
                 (case read_n 4 file of
                    None \<Rightarrow> None
                  | Some (keyCount, file) \<Rightarrow>
                      (case import_keys S (unat (le_word keyCount :: u32)) file w of
                         None \<Rightarrow> None
                       | Some (file, w) \<Rightarrow>
                           (case read_n 8 file of
                              None \<Rightarrow> None
                            | Some (txCount, file) \<Rightarrow>
                                (case import_txs (unat (le_word txCount :: u64)) file of
                                   None \<Rightarrow> None
                                 | Some file \<Rightarrow>
                                     (case read_n 1 file of
                                        None \<Rightarrow> None
                                      | Some (encrypted, file) \<Rightarrow>
                                          Some (True, w\<lparr>m_encrypted := (encrypted = [1]), m_dirty := True\<rparr>)))))))"

section \<open>Settings\<close>

definition SetMinFee :: "int \<Rightarrow> CWallet \<Rightarrow> CWallet" where
  "SetMinFee fee w = w\<lparr>m_min_fee := fee\<rparr>"

definition SetDefaultSignatureType :: "SignatureType \<Rightarrow> CWallet \<Rightarrow> CWallet" where
  "SetDefaultSignatureType type w = w\<lparr>m_default_sigtype := type\<rparr>"

definition SetMLDSAEnabled :: "bool \<Rightarrow> CWallet \<Rightarrow> CWallet" where
  "SetMLDSAEnabled enabled w = w\<lparr>m_use_mldsa := enabled\<rparr>"

definition MarkDirty :: "CWallet \<Rightarrow> CWallet" where
  "MarkDirty w = w\<lparr>m_dirty := True\<rparr>"

end
