(* ===== verification/WalletProofs.thy ===== *)
theory WalletProofs
  imports Wallet
begin

text \<open>
  What holds of the wallet in every state its operations can reach: the key store is consistent, an
  encrypted wallet can never be unlocked again, no balance is ever recorded. And what its files and
  mnemonics are good for.
\<close>

section \<open>Runs of the wallet\<close>

datatype WalletOp =
    OpCreate "nat list" string
  | OpLoad string
  | OpEncrypt string
  | OpUnlock string
  | OpLock
  | OpGenerate "bytes option" int OutputType bool
  | OpAddKey CKey
  | OpAddKeyPubKey CKey CPubKey
  | OpCommit int CTransaction
  | OpImport bytes
  | OpRestore string
  | OpSetMinFee int
  | OpSetSigType SignatureType
  | OpSetMLDSA bool
  | OpMarkDirty

text \<open>
  One operation; the result is the return value (for void functions, true). An import whose file ends
  early is not a defined step and leaves the state.
\<close>

fun wallet_exec :: "ssl \<Rightarrow> WalletOp \<Rightarrow> CWallet \<Rightarrow> bool \<times> CWallet" where
  "wallet_exec S (OpCreate draw passphrase) w = CreateWallet S draw passphrase w"
| "wallet_exec S (OpLoad passphrase) w = LoadWallet passphrase w"
| "wallet_exec S (OpEncrypt passphrase) w = EncryptWallet passphrase w"
| "wallet_exec S (OpUnlock passphrase) w = Unlock passphrase w"
| "wallet_exec S OpLock w = (True, Lock w)"
| "wallet_exec S (OpGenerate rand now type internal) w =
     (case GenerateNewKey S rand now type internal w of (pk, w) \<Rightarrow> (CPubKey_IsValid pk, w))"
| "wallet_exec S (OpAddKey key) w = AddKey S key w"
| "wallet_exec S (OpAddKeyPubKey key pubkey) w = AddKeyPubKey S key pubkey w"
| "wallet_exec S (OpCommit now tx) w = CommitTransaction now tx w"
| "wallet_exec S (OpImport file) w = (case ImportWallet S file w of None \<Rightarrow> (False, w) | Some r \<Rightarrow> r)"
| "wallet_exec S (OpRestore mnemonic) w = RestoreFromMnemonic S mnemonic w"
| "wallet_exec S (OpSetMinFee fee) w = (True, SetMinFee fee w)"
| "wallet_exec S (OpSetSigType type) w = (True, SetDefaultSignatureType type w)"
| "wallet_exec S (OpSetMLDSA enabled) w = (True, SetMLDSAEnabled enabled w)"
| "wallet_exec S OpMarkDirty w = (True, MarkDirty w)"

definition wallet_inv :: "ssl \<Rightarrow> CWallet \<Rightarrow> bool" where
  "wallet_inv S w \<longleftrightarrow>
     m_crypted_key (m_master_key w) = [] \<and>
     sorted_map memcmp_less (m_keys w) \<and>
     (\<forall>(id, k)\<in>set (m_keys w). CKey_IsValid k \<and> id = CPubKey_GetID S (GetPubKey k)) \<and>
     m_pubkeys w = map (\<lambda>(id, k). (id, GetPubKey k)) (m_keys w) \<and>
     (\<forall>(h, t)\<in>set (m_wallet_txs w). length h = 32 \<and> m_credit t = 0 \<and> m_debit t = 0)"

section \<open>Every operation keeps the invariant\<close>

lemma GetPubKey_valid: "CPubKey_IsValid (GetPubKey k) \<longleftrightarrow> CKey_IsValid k"
  by (auto simp: CPubKey_IsValid_def GetPubKey_def CKey_IsValid_def)

lemma map_put_map:
  "map (\<lambda>(i, x). (i, f x)) (map_put lt k v xs) = map_put lt k (f v) (map (\<lambda>(i, x). (i, f x)) xs)"
  by (induction xs) auto

text \<open>The fields the invariant does not mention.\<close>

lemma wallet_inv_frame [simp]:
  "wallet_inv S (w\<lparr>m_encrypted := b\<rparr>) = wallet_inv S w"
  "wallet_inv S (w\<lparr>m_dirty := b\<rparr>) = wallet_inv S w"
  "wallet_inv S (w\<lparr>m_locked := b\<rparr>) = wallet_inv S w"
  "wallet_inv S (w\<lparr>m_use_mldsa := b\<rparr>) = wallet_inv S w"
  "wallet_inv S (w\<lparr>m_min_fee := fee\<rparr>) = wallet_inv S w"
  "wallet_inv S (w\<lparr>m_default_sigtype := ty\<rparr>) = wallet_inv S w"
  "wallet_inv S (w\<lparr>m_default_pubkey := pk\<rparr>) = wallet_inv S w"
  "wallet_inv S (w\<lparr>m_key_pools := ps\<rparr>) = wallet_inv S w"
  by (simp_all add: wallet_inv_def)

lemma AddKey_inv: "wallet_inv S w \<Longrightarrow> wallet_inv S (snd (AddKey S key w))"
proof (cases "CKey_IsValid key")
  case True
  assume inv: "wallet_inv S w"
  let ?id = "CPubKey_GetID S (GetPubKey key)"
  have "sorted_map memcmp_less (map_put memcmp_less ?id key (m_keys w))"
    using inv by (auto simp: wallet_inv_def intro: digest_map.sorted_put)
  moreover have "\<forall>(id, k)\<in>set (map_put memcmp_less ?id key (m_keys w)). CKey_IsValid k \<and> id = CPubKey_GetID S (GetPubKey k)"
    using inv True digest_map.set_put [of ?id key "m_keys w"] by (fastforce simp: wallet_inv_def)
  ultimately show ?thesis
    using inv True by (simp add: wallet_inv_def AddKey_def GetPubKey_valid Let_def map_put_map)
qed (simp add: AddKey_def GetPubKey_valid)

lemma import_keys_inv: "wallet_inv S w \<Longrightarrow> import_keys S n bs w = Some (bs', w') \<Longrightarrow> wallet_inv S w'"
proof (induction n arbitrary: bs w)
  case (Suc n)
  have "wallet_inv S w'" if "import_keys S n bs1 (snd (AddKey S key w)) = Some (bs', w')" for bs1 key
    using Suc.IH [OF AddKey_inv [OF Suc.prems(1)] that] .
  with Suc.prems(2) show ?case by (auto split: option.splits simp: Let_def)
qed simp

lemma CommitTransaction_inv: "wallet_inv S w \<Longrightarrow> wallet_inv S (snd (CommitTransaction now tx w))"
proof -
  assume inv: "wallet_inv S w"
  define t where "t = new_CWalletTx\<lparr>m_tx_hash := GetHash tx, m_time := now, m_status := ''sending'', m_order_pos := -1\<rparr>"
  let ?txs = "map_put memcmp_less (GetHash tx) t (m_wallet_txs w)"
  have t: "length (GetHash tx) = 32" "m_credit t = 0" "m_debit t = 0"
    by (simp_all add: GetHash_eq t_def new_CWalletTx_def)
  have old: "\<forall>(h, t)\<in>set (m_wallet_txs w). length h = 32 \<and> m_credit t = 0 \<and> m_debit t = 0"
    using inv by (simp add: wallet_inv_def)
  have "\<forall>x\<in>insert (GetHash tx, t) (set (m_wallet_txs w)). case x of (h, t) \<Rightarrow> length h = 32 \<and> m_credit t = 0 \<and> m_debit t = 0"
    using old t by simp
  then have "\<forall>x\<in>set ?txs. case x of (h, t) \<Rightarrow> length h = 32 \<and> m_credit t = 0 \<and> m_debit t = 0"
    using digest_map.set_put [of "GetHash tx" t "m_wallet_txs w"] by blast
  moreover have "snd (CommitTransaction now tx w) = w\<lparr>m_wallet_txs := ?txs\<rparr>"
    by (simp add: CommitTransaction_def t_def Let_def)
  ultimately show ?thesis using inv by (simp add: wallet_inv_def)
qed

lemma ImportWallet_cases:
  assumes "ImportWallet S bs w = Some (r, w')"
  shows "w' = w \<or> (\<exists>n bs1 bs2 w1 e. import_keys S n bs1 w = Some (bs2, w1) \<and> w' = w1\<lparr>m_encrypted := e, m_dirty := True\<rparr>)"
  using assms unfolding ImportWallet_def Let_def
  by (auto split: if_splits option.splits) blast

lemma ImportWallet_inv: "wallet_inv S w \<Longrightarrow> ImportWallet S bs w = Some (r, w') \<Longrightarrow> wallet_inv S w'"
  using ImportWallet_cases [of S bs w r w'] import_keys_inv [of S w] by auto

lemma master_key_inv:
  "wallet_inv S w \<Longrightarrow> wallet_inv S (w\<lparr>m_master_seed := s, m_master_key := snd (master_SetPrivKey k (m_master_key w))\<rparr>)"
  by (simp add: wallet_inv_def master_SetPrivKey_def)

lemma EncryptWallet_inv: "wallet_inv S w \<Longrightarrow> wallet_inv S (snd (EncryptWallet p w))"
  by (auto simp: EncryptWallet_def split: prod.splits bool.splits)

lemma CreateWallet_inv: "wallet_inv S w \<Longrightarrow> wallet_inv S (snd (CreateWallet S draw p w))"
proof -
  assume "wallet_inv S w"
  then have "wallet_inv S (snd (ComputeMasterKey S ws w))" for ws
    by (simp add: ComputeMasterKey_def Let_def master_key_inv)
  then have "wallet_inv S (snd (EncryptWallet p (snd (ComputeMasterKey S ws w)))) \<and> wallet_inv S (snd (ComputeMasterKey S ws w))" for ws
    by (simp add: EncryptWallet_inv)
  then show ?thesis
    by (auto simp: CreateWallet_def Let_def split_beta)
qed

lemma RestoreFromMnemonic_inv: "wallet_inv S w \<Longrightarrow> wallet_inv S (snd (RestoreFromMnemonic S m w))"
  by (auto simp: RestoreFromMnemonic_def ComputeMasterKey_def Let_def master_key_inv)

lemma Decrypt_empty: "m_crypted_key m = [] \<Longrightarrow> master_Decrypt m p key = (False, key)"
  by (simp add: master_Decrypt_def Decrypt_def Encrypt_def)

lemma Unlock_inv: "wallet_inv S w \<Longrightarrow> Unlock p w = (if m_encrypted w then (False, w) else (True, w\<lparr>m_locked := False\<rparr>))"
  by (simp add: Unlock_def wallet_inv_def Decrypt_empty)

lemma wallet_exec_inv:
  assumes "wallet_inv S w" and "wallet_exec S op w = (r, w')"
  shows "wallet_inv S w'"
proof (cases op)
  case (OpGenerate rand now type internal)
  define w1 where "w1 = snd (AddKey S (snd (MakeNewKey rand new_CKey)) w)"
  have "wallet_inv S w1" using AddKey_inv [OF assms(1)] by (simp add: w1_def)
  moreover have "w' = w1 \<or> (\<exists>p. w' = w1\<lparr>m_key_pools := p\<rparr>)"
    using assms(2) OpGenerate
    by (auto simp: GenerateNewKey_def w1_def Let_def split: prod.splits bool.splits)
  ultimately show ?thesis by auto
next
  case (OpImport bs)
  then show ?thesis using assms ImportWallet_inv [OF assms(1)] by (auto split: option.splits)
next
  case (OpCreate draw p)
  then show ?thesis using assms(2) CreateWallet_inv [OF assms(1), of draw p] by simp
next
  case (OpEncrypt p)
  then show ?thesis using assms(2) EncryptWallet_inv [OF assms(1), of p] by simp
next
  case (OpAddKey k)
  then show ?thesis using assms(2) AddKey_inv [OF assms(1), of k] by simp
next
  case (OpAddKeyPubKey k pk)
  then show ?thesis using assms AddKey_inv [OF assms(1), of k] by (auto simp: AddKeyPubKey_def split: if_splits)
next
  case (OpCommit now tx)
  then show ?thesis using assms(2) CommitTransaction_inv [OF assms(1), of now tx] by simp
next
  case (OpRestore m)
  then show ?thesis using assms(2) RestoreFromMnemonic_inv [OF assms(1), of m] by simp
next
  case (OpUnlock p)
  then show ?thesis using assms by (auto simp: Unlock_inv split: if_splits)
next
  case (OpLoad p)
  then show ?thesis using assms by (simp add: LoadWallet_def ReadMasterKey_def)
qed (use assms in \<open>auto simp: Lock_def SetMinFee_def SetDefaultSignatureType_def SetMLDSAEnabled_def
    MarkDirty_def split: if_splits\<close>)

interpretation wallet: kept_invariant "wallet_exec S" "wallet_inv S" for S
  by unfold_locales (rule wallet_exec_inv)

lemma Create_inv: "wallet_inv S (Create path)"
  by (simp add: wallet_inv_def Create_def new_CWallet_def sorted_map_def)

lemmas reachable_inv = wallet.run_inv [OF _ Create_inv]

section \<open>Keys and locking\<close>

text \<open>
  C28. The key store is consistent in every reachable state: a stored private key has 32 bytes, is
  filed under the identifier of its public key, and the public key filed under an identifier is that
  of the private key there; the two tables have the same identifiers, each once.
\<close>

theorem key_store_consistent:
  assumes "run (wallet_exec S) (Create path) tr w"
  shows "distinct (map fst (m_keys w)) \<and> map fst (m_pubkeys w) = map fst (m_keys w) \<and>
    (\<forall>a k. wallet_GetKey a w = Some k \<longrightarrow>
       CKey_IsValid k \<and> CPubKey_GetID S (GetPubKey k) = a \<and> wallet_GetPubKey a w = GetPubKey k)"
proof -
  have inv: "wallet_inv S w" by (rule reachable_inv [OF assms])
  have pk: "map_of (m_pubkeys w) a = map_option GetPubKey (map_of (m_keys w) a)" for a
  proof -
    have "map_of (map (\<lambda>(id, k). (id, GetPubKey k)) xs) a = map_option GetPubKey (map_of xs a)" for xs
      by (induction xs) auto
    with inv show ?thesis by (simp add: wallet_inv_def)
  qed
  have "CKey_IsValid k \<and> CPubKey_GetID S (GetPubKey k) = a \<and> wallet_GetPubKey a w = GetPubKey k"
    if "wallet_GetKey a w = Some k" for a k
  proof -
    have m: "map_of (m_keys w) a = Some k" using that by (simp add: wallet_GetKey_def)
    then have "(a, k) \<in> set (m_keys w)" by (rule map_of_SomeD)
    with inv have "CKey_IsValid k \<and> a = CPubKey_GetID S (GetPubKey k)" by (auto simp: wallet_inv_def)
    with m pk [of a] show ?thesis by (simp add: wallet_GetPubKey_def)
  qed
  moreover have "map fst (m_pubkeys w) = map fst (m_keys w)"
    using inv by (simp add: wallet_inv_def comp_def split_beta)
  ultimately show ?thesis
    using inv digest_map.sorted_distinct [of "m_keys w"] by (auto simp: wallet_inv_def)
qed

definition toy_ssl :: ssl where
  "toy_ssl = \<lparr>ssl_SHA256 = (\<lambda>m. take 32 (m @ replicate 32 0)), ssl_RIPEMD160 = (\<lambda>m. take 20 (m @ replicate 20 0)),
     ssl_HMAC_sha512 = (\<lambda>k m. replicate 64 7), ssl_ECDSA_sign = (\<lambda>k h. Some (replicate 70 1))\<rparr>"

lemma toy_ssl_ok: "ssl_ok toy_ssl"
  by (auto simp: ssl_ok_def toy_ssl_def min_def)

definition sample_key :: CKey where
  "sample_key = \<lparr>key_m_key = replicate 32 5\<rparr>"

definition sample_wallet :: CWallet where
  "sample_wallet = snd (AddKey toy_ssl sample_key (Create ''w''))"

lemma sample_added: "AddKey toy_ssl sample_key (Create ''w'') = (True, sample_wallet)"
  by (simp add: sample_wallet_def AddKey_def GetPubKey_valid Let_def) (simp add: CKey_IsValid_def sample_key_def)

lemma sample_run: "run (wallet_exec toy_ssl) (Create ''w'') [(OpAddKey sample_key, True)] sample_wallet"
  using run.run_step [OF run.run_start, of "wallet_exec toy_ssl" "OpAddKey sample_key" "Create ''w''"]
  by (simp add: sample_added)

lemma sample_lookup: "wallet_GetKey (CPubKey_GetID toy_ssl (GetPubKey sample_key)) sample_wallet = Some sample_key"
proof -
  have v: "CKey_IsValid sample_key" by (simp add: CKey_IsValid_def sample_key_def)
  show ?thesis
    by (simp add: wallet_GetKey_def sample_wallet_def AddKey_def GetPubKey_valid v Let_def digest_map.find_put)
qed

theorem key_store_consistent_witness:
  "wallet_GetPubKey (CPubKey_GetID toy_ssl (GetPubKey sample_key)) sample_wallet = GetPubKey sample_key"
  using key_store_consistent [OF sample_run] sample_lookup by blast

section \<open>Derivation and creation\<close>

lemma Derive_child_valid:
  assumes "ssl_ok S" and "CKey_IsValid k"
  shows "\<exists>c. Derive_child S k i h new_CKey = (True, c) \<and> CKey_IsValid c"
  using assms by (auto simp: Derive_child_def ssl_ok_def CKey_IsValid_def Let_def)

lemma derive_loop_total:
  assumes "ssl_ok S"
  shows "CKey_IsValid k \<Longrightarrow> \<exists>c. derive_loop S path k = Some c \<and> CKey_IsValid c"
proof (induction path arbitrary: k)
  case (Cons i path)
  obtain c where "Derive_child S k (i AND 0x7FFFFFFF) (i AND 0x80000000 \<noteq> 0) new_CKey = (True, c)" "CKey_IsValid c"
    using Derive_child_valid [OF assms Cons.prems] by blast
  with Cons.IH show ?case by simp
qed simp

lemma SetupHDChain_ok: "ssl_ok S \<Longrightarrow> length (master_m_key (m_master_key w)) = 32 \<Longrightarrow> SetupHDChain S b w"
  using derive_loop_total [of S "GetCKey (m_master_key w)" "CreateBip84Path BHC b"]
  by (auto simp: SetupHDChain_def DeriveKeyPath_def GetCKey_def SetPrivKey_def CKey_IsValid_def)

lemma ComputeMasterKey_result:
  assumes "ssl_ok S"
  shows "\<exists>w'. ComputeMasterKey S ws w = (True, w') \<and> length (m_master_seed w') = 64 \<and>
    m_master_seed w' = ssl_HMAC_sha512 S (str_bytes ''BHTWallet'') (str_bytes (concat (map (\<lambda>word. word @ '' '') ws))) \<and>
    master_m_key (m_master_key w') = take 32 (m_master_seed w') \<and> m_encrypted w' = m_encrypted w"
  using assms by (simp add: ComputeMasterKey_def Let_def master_SetPrivKey_def ssl_ok_def)

definition wallet_seed :: "ssl \<Rightarrow> string list \<Rightarrow> bytes" where
  "wallet_seed S ws = ssl_HMAC_sha512 S (str_bytes ''BHTWallet'') (str_bytes (concat (map (\<lambda>word. word @ '' '') ws)))"

lemma CreateWallet_result:
  assumes "ssl_ok S"
  shows "\<exists>w'. CreateWallet S draw p w = (True, w') \<and> m_master_seed w' = wallet_seed S (ComputeMnemonic draw) \<and>
    master_m_key (m_master_key w') = take 32 (m_master_seed w') \<and> \<not> m_locked w' \<and>
    (m_encrypted w' \<longleftrightarrow> m_encrypted w \<or> p \<noteq> [])"
proof -
  obtain w1 where w1: "ComputeMasterKey S (ComputeMnemonic draw) w = (True, w1)" "length (m_master_seed w1) = 64"
    "m_master_seed w1 = wallet_seed S (ComputeMnemonic draw)"
    "master_m_key (m_master_key w1) = take 32 (m_master_seed w1)" "m_encrypted w1 = m_encrypted w"
    using ComputeMasterKey_result [OF assms, of "ComputeMnemonic draw" w] unfolding wallet_seed_def by blast
  define w2 where "w2 = (if p \<noteq> [] then snd (EncryptWallet p w1) else w1)"
  have len: "length (master_m_key (m_master_key w1)) = 32" using w1 by simp
  then have ne: "master_m_key (m_master_key w1) \<noteq> []" by auto
  have w2: "m_master_key w2 = m_master_key w1" "m_master_seed w2 = m_master_seed w1"
    "m_encrypted w2 \<longleftrightarrow> m_encrypted w \<or> p \<noteq> []"
    using w1(5) ne Encrypt_eq [OF len] by (auto simp: w2_def EncryptWallet_def)
  have "SetupHDChain S False w2" using len w2(1) by (intro SetupHDChain_ok [OF assms]) simp
  then have "CreateWallet S draw p w = (True, w2\<lparr>m_default_pubkey := master_GetPubKey (m_master_key w2), m_dirty := True, m_locked := False\<rparr>)"
    using w1(1) ne by (simp add: CreateWallet_def w2_def Let_def)
  with w1 w2 show ?thesis by simp
qed

text \<open>
  C29. An encrypted wallet never unlocks again: whatever operations led to a state, once the wallet is
  marked encrypted every passphrase is refused by \<^verbatim>\<open>Unlock\<close>, because the encrypted master key is never
  stored; and \<^verbatim>\<open>Load\<close> refuses every stored wallet.
\<close>

theorem encrypted_never_unlocks:
  assumes "run (wallet_exec S) (Create path) tr w" and "m_encrypted w"
  shows "Unlock passphrase w = (False, w) \<and> Load path' passphrase = None"
  using assms Unlock_inv [OF reachable_inv [OF assms(1)]]
  by (simp add: Load_def LoadWallet_def ReadMasterKey_def)

theorem encrypted_never_unlocks_witness:
  "Unlock ''pw'' (snd (CreateWallet toy_ssl (replicate 12 3) ''pw'' (Create ''w''))) =
     (False, snd (CreateWallet toy_ssl (replicate 12 3) ''pw'' (Create ''w'')))"
proof -
  obtain w where w: "CreateWallet toy_ssl (replicate 12 3) ''pw'' (Create ''w'') = (True, w)" "m_encrypted w"
    using CreateWallet_result [OF toy_ssl_ok, of "replicate 12 3" "''pw''" "Create ''w''"] by auto
  then have "run (wallet_exec toy_ssl) (Create ''w'') [(OpCreate (replicate 12 3) ''pw'', True)] w"
    using run.run_step [OF run.run_start, of "wallet_exec toy_ssl" "OpCreate (replicate 12 3) ''pw''" "Create ''w''" True w]
    by simp
  from encrypted_never_unlocks [OF this w(2)] w(1) show ?thesis by simp
qed

section \<open>Mnemonics\<close>

lemma span_append:
  "\<not> P c \<Longrightarrow> takeWhile P (s @ c # t) = takeWhile P s \<and> dropWhile P (s @ c # t) = dropWhile P s @ c # t"
  by (induction s) auto

lemma split_words_blank: "dropWhile is_space s = [] \<Longrightarrow> split_words s = []"
  by (subst split_words.simps) (simp only: Let_def if_True simp_thms)

lemma split_words_word:
  "dropWhile is_space s \<noteq> [] \<Longrightarrow> split_words s = takeWhile (\<lambda>c. \<not> is_space c) (dropWhile is_space s) #
     split_words (dropWhile (\<lambda>c. \<not> is_space c) (dropWhile is_space s))"
  by (subst split_words.simps) (simp only: Let_def if_False)

lemma split_words_append:
  assumes "is_space c"
  shows "split_words (s @ c # t) = split_words s @ split_words t"
proof (induction s rule: split_words.induct)
  case (1 s)
  let ?s = "dropWhile is_space s"
  show ?case
  proof (cases "?s = []")
    case True
    then have "dropWhile is_space (s @ c # t) = dropWhile is_space t"
      using assms by (simp add: dropWhile_append)
    then have "split_words (s @ c # t) = split_words t"
      by (subst (1 2) split_words.simps) simp
    moreover have "split_words s = []" by (rule split_words_blank [OF True])
    ultimately show ?thesis by simp
  next
    case False
    then have "dropWhile is_space (s @ c # t) = ?s @ c # t"
      by (metis dropWhile_append dropWhile_eq_Nil_conv)
    then have "split_words (s @ c # t) = takeWhile (\<lambda>c. \<not> is_space c) ?s # split_words (dropWhile (\<lambda>c. \<not> is_space c) ?s @ c # t)"
      using split_words_word [of "s @ c # t"] span_append [of "\<lambda>c. \<not> is_space c" c ?s t] assms by simp
    also have "\<dots> = split_words s @ split_words t"
      using "1.IH" [OF refl False] split_words_word [OF False] by simp
    finally show ?thesis .
  qed
qed

lemma split_words_single:
  assumes "x \<noteq> []" and "list_all letter x"
  shows "split_words x = [x]"
proof -
  have n: "\<forall>c\<in>set x. \<not> is_space c" using assms(2) letter_not_space by (auto simp: list_all_iff)
  then have d: "dropWhile is_space x = x" using assms(1) by (cases x) auto
  have t: "takeWhile (\<lambda>c. \<not> is_space c) x = x" "dropWhile (\<lambda>c. \<not> is_space c) x = []"
    using n by (simp_all add: takeWhile_eq_all_conv dropWhile_eq_Nil_conv)
  have "split_words x = takeWhile (\<lambda>c. \<not> is_space c) x # split_words (dropWhile (\<lambda>c. \<not> is_space c) x)"
    using split_words_word [of x] unfolding d using assms(1) by blast
  then show ?thesis unfolding t using split_words_blank [of "[]"] by simp
qed

lemma split_joined:
  assumes "\<forall>x\<in>set ws. x \<noteq> [] \<and> list_all letter x" and "n \<le> length ws"
  shows "split_words (fold (\<lambda>i m. (if i > 0 then m @ '' '' else m) @ ws ! i) [0..<n] []) = take n ws"
  using assms(2)
proof (induction n)
  case 0
  show ?case by (simp add: split_words_blank)
next
  case (Suc n)
  let ?m = "fold (\<lambda>i m. (if i > 0 then m @ '' '' else m) @ ws ! i) [0..<n] []"
  have w: "split_words (ws ! n) = [ws ! n]" using assms(1) Suc.prems by (intro split_words_single) auto
  have sp: "is_space CHR '' ''" by (simp add: is_space_def)
  show ?case
  proof (cases n)
    case 0
    with w Suc.prems show ?thesis by (cases ws) simp_all
  next
    case (Suc k)
    then have "split_words (fold (\<lambda>i m. (if i > 0 then m @ '' '' else m) @ ws ! i) [0..<Suc n] []) = split_words (?m @ CHR '' '' # ws ! n)"
      by simp
    also have "\<dots> = take (Suc n) ws"
      using Suc.IH Suc.prems w by (simp add: split_words_append [OF sp] take_Suc_conv_app_nth)
    finally show ?thesis .
  qed
qed

text \<open>
  C30. A mnemonic restores the wallet it stands for: the phrase \<^verbatim>\<open>GetMnemonic\<close> makes of twelve drawn words
  is accepted by \<^verbatim>\<open>RestoreFromMnemonic\<close> on any wallet and yields the master seed that \<^verbatim>\<open>CreateWallet\<close>
  derives from the same draw. But a created wallet never shows its phrase: once \<^verbatim>\<open>CreateWallet\<close> has run
  \<^verbatim>\<open>GetMnemonic\<close> returns the empty string.
\<close>

theorem mnemonic_restores:
  assumes S: "ssl_ok S" and draw: "\<forall>i<12. draw ! i < 2299" and fresh: "m_master_seed w0 = []"
  shows "\<exists>w1 w2. RestoreFromMnemonic S (GetMnemonic draw w0) w = (True, w1) \<and>
     CreateWallet S draw p w' = (True, w2) \<and> m_master_seed w1 = m_master_seed w2 \<and>
     (\<forall>draw'. GetMnemonic draw' w2 = [])"
proof -
  let ?ws = "ComputeMnemonic draw"
  have len: "length ?ws = 12" by (simp add: ComputeMnemonic_def)
  have words: "\<forall>x\<in>set ?ws. x \<in> set BIP39_WORDLIST"
    using draw GetBIP39Word_in by (auto simp: ComputeMnemonic_def BIP39_WORDLIST_SIZE_def simp del: upt_Suc)
  have split: "split_words (GetMnemonic draw w0) = ?ws"
    using split_joined [of ?ws 12] words word_letters fresh len by (auto simp: GetMnemonic_def Let_def)
  obtain w1 where w1: "ComputeMasterKey S ?ws w = (True, w1)" "m_master_seed w1 = wallet_seed S ?ws"
    "master_m_key (m_master_key w1) = take 32 (m_master_seed w1)" "length (m_master_seed w1) = 64"
    using ComputeMasterKey_result [OF S, of ?ws w] unfolding wallet_seed_def by blast
  then have "SetupHDChain S False w1" by (intro SetupHDChain_ok [OF S]) simp
  moreover have "\<not> (\<exists>x\<in>set ?ws. GetBIP39Index x < 0)" using words GetBIP39Index_in by (auto simp: not_less)
  ultimately have "RestoreFromMnemonic S (GetMnemonic draw w0) w =
      (True, w1\<lparr>m_default_pubkey := master_GetPubKey (m_master_key w1), m_dirty := True, m_locked := False\<rparr>)"
    using w1(1) by (simp add: RestoreFromMnemonic_def split len)
  moreover obtain w2 where "CreateWallet S draw p w' = (True, w2)" "m_master_seed w2 = wallet_seed S ?ws"
    using CreateWallet_result [OF S, of draw p w'] by blast
  moreover have "wallet_seed S ?ws \<noteq> []" using w1(2,4) by auto
  ultimately show ?thesis using w1(2) by (auto simp: GetMnemonic_def)
qed

theorem mnemonic_restores_witness:
  "\<exists>w1. RestoreFromMnemonic toy_ssl (GetMnemonic (replicate 12 3) (Create ''a'')) (Create ''b'') = (True, w1)"
proof -
  have "\<forall>i<12. replicate 12 (3 :: nat) ! i < 2299" by simp
  moreover have "m_master_seed (Create ''a'') = []" by (simp add: Create_def new_CWallet_def)
  ultimately show ?thesis using mnemonic_restores [OF toy_ssl_ok, of "replicate 12 3" "Create ''a''"] by blast
qed

section \<open>Transactions, balances, backups\<close>

lemma CreateTransaction_result:
  "\<exists>t. CreateTransaction S rs sign w = (uint256_ToString (GetHash t), Some (t, GetHash t)) \<and> tx_version t = 2 \<and>
     vout t = map (\<lambda>r. \<lparr>nValue = rcpt_nAmount r, scriptPubKey = rcpt_scriptPubKey r\<rparr>) rs"
proof -
  let ?t = "fold (\<lambda>r t. t\<lparr>vout := vout t @ [\<lparr>nValue = rcpt_nAmount r, scriptPubKey = rcpt_scriptPubKey r\<rparr>]\<rparr>) rs
      (new_CTransaction\<lparr>tx_version := 2, locktime := 0\<rparr>)"
  have f: "fold (\<lambda>r t. t\<lparr>vout := vout t @ [g r]\<rparr>) rs t = t\<lparr>vout := vout t @ map g rs\<rparr>" for g t
    by (induction rs arbitrary: t) simp_all
  have "vin ?t = []" "tx_version ?t = 2" "vout ?t = map (\<lambda>r. \<lparr>nValue = rcpt_nAmount r, scriptPubKey = rcpt_scriptPubKey r\<rparr>) rs"
    by (simp_all add: f new_CTransaction_def)
  then show ?thesis
    by (intro exI [of _ ?t]) (simp add: CreateTransaction_def SignTransaction_def Let_def)
qed

text \<open>
  Every transaction the wallet creates has the same identifier, and committing one erases the
  record of the one committed before: after two commits the wallet holds what the second alone would
  have left.
\<close>

theorem created_transactions_collide:
  "\<exists>s t1 t2 id. CreateTransaction S rs1 sign1 w = (s, Some (t1, id)) \<and> CreateTransaction S rs2 sign2 w = (s, Some (t2, id)) \<and>
     map_of (m_wallet_txs (snd (CommitTransaction now2 t2 (snd (CommitTransaction now1 t1 w))))) =
     map_of (m_wallet_txs (snd (CommitTransaction now2 t2 w)))"
proof -
  obtain t1 t2 where c: "CreateTransaction S rs1 sign1 w = (uint256_ToString (GetHash t1), Some (t1, GetHash t1))"
    "CreateTransaction S rs2 sign2 w = (uint256_ToString (GetHash t2), Some (t2, GetHash t2))"
    and v: "tx_version t1 = tx_version t2"
    using CreateTransaction_result [of S rs1 sign1 w] CreateTransaction_result [of S rs2 sign2 w] by metis
  from v have "GetHash t1 = GetHash t2" by (simp add: GetHash_version)
  with c show ?thesis
    by (intro exI [of _ "uint256_ToString (GetHash t1)"] exI [of _ t1] exI [of _ t2] exI [of _ "GetHash t1"])
      (simp add: CommitTransaction_def Let_def digest_map.find_put)
qed

text \<open>
  The wallet never records money: in every reachable state the balance and the unconfirmed balance
  are zero, and coin selection succeeds exactly for targets that are not positive.
\<close>

theorem balance_always_zero:
  assumes "run (wallet_exec S) (Create path) tr w"
  shows "GetBalance w = 0 \<and> GetUnconfirmedBalance w = 0 \<and> (fst (SelectCoins target w) \<longleftrightarrow> target \<le> 0)"
proof -
  have z: "\<forall>(h, t)\<in>set (m_wallet_txs w). length h = 32 \<and> m_credit t = 0 \<and> m_debit t = 0"
    using reachable_inv [OF assms] by (simp add: wallet_inv_def)
  have bal: "fold (\<lambda>tx total. total + (m_credit (snd tx) - m_debit (snd tx))) xs a = a"
    if "\<forall>(h, t)\<in>set xs. length h = 32 \<and> m_credit t = 0 \<and> m_debit t = 0" for xs a
    using that by (induction xs arbitrary: a) auto
  have unc: "fold (\<lambda>tx total. if m_confirmations (snd tx) < 6 then total + m_credit (snd tx) else total) xs a = a"
    if "\<forall>(h, t)\<in>set xs. length h = 32 \<and> m_credit t = 0 \<and> m_debit t = 0" for xs a
    using that by (induction xs arbitrary: a) auto
  show ?thesis
    by (simp add: GetBalance_def GetUnconfirmedBalance_def SelectCoins_def AvailableCoins_def bal [OF z] unc [OF z])
qed

theorem balance_always_zero_witness:
  "GetBalance sample_wallet = 0 \<and> \<not> fst (SelectCoins 1 sample_wallet)"
  using balance_always_zero [OF sample_run, of 1] by simp

lemma read_n_append: "length xs = n \<Longrightarrow> read_n n (xs @ ys) = Some (xs, ys)"
  by (simp add: read_n_def)

lemma import_keys_backup:
  assumes "\<forall>(id, k)\<in>set ks. CKey_IsValid k \<and> length id = 20"
  shows "import_keys S (length ks) (concat (map backup_key ks) @ rest) w = Some (rest, w)"
  using assms
proof (induction ks arbitrary: w)
  case (Cons x ks)
  obtain id k where x: "x = (id, k)" by fastforce
  have k: "length (GetKey k) = 33" "length id = 20" using Cons.prems by (auto simp: x GetKey_def CKey_IsValid_def)
  have sz: "unat (le_word (le_bytes 4 (33 :: u32)) :: u32) = 33" by (simp add: le_word_le_bytes)
  have "AddKey S (snd (SetPrivKey (GetKey k) new_CKey)) w = (False, w)"
    using k by (simp add: SetPrivKey_def AddKey_def GetPubKey_valid CKey_IsValid_def new_CKey_def)
  then show ?case
    using Cons k by (simp add: x backup_key_def Let_def read_n_append sz)
qed simp

lemma import_txs_backup:
  "\<forall>(h, t)\<in>set ts. length h = 32 \<Longrightarrow> import_txs (length ts) (concat (map backup_tx ts) @ rest) = Some rest"
  by (induction ts) (auto simp: backup_tx_def read_n_append)

lemma backup_header:
  "takeWhile (\<lambda>b. b \<noteq> 10) (str_bytes ''BHTWALLETBACKUP_V1'' @ 10 # r) = str_bytes ''BHTWALLETBACKUP_V1''"
  "dropWhile (\<lambda>b. b \<noteq> 10) (str_bytes ''BHTWALLETBACKUP_V1'' @ 10 # r) = 10 # r"
  by (simp_all add: str_bytes_def)

text \<open>
  A backup restores nothing: importing the backup of any reachable wallet succeeds but adds no
  key, because the file holds keys with a trailing byte, of a length the import refuses. Of the saved
  state only the encryption flag arrives.
\<close>

theorem backup_restores_no_key:
  assumes S: "ssl_ok S" and r: "run (wallet_exec S) (Create path) tr w"
    and sizes: "length (m_keys w) < 2 ^ 32" "length (m_wallet_txs w) < 2 ^ 64"
  shows "ImportWallet S (BackupWallet timestamp w) w' = Some (True, w'\<lparr>m_encrypted := m_encrypted w, m_dirty := True\<rparr>)"
proof -
  have inv: "wallet_inv S w" by (rule reachable_inv [OF r])
  have ks: "\<forall>(id, k)\<in>set (m_keys w). CKey_IsValid k \<and> length id = 20"
  proof -
    have "length (CPubKey_GetID S pk) = 20" for pk
      using S by (simp add: CPubKey_GetID_def new_uint160_def ssl_ok_def Let_def)
    with inv show ?thesis by (auto simp: wallet_inv_def)
  qed
  have ts: "\<forall>(h, t)\<in>set (m_wallet_txs w). length h = 32" using inv by (auto simp: wallet_inv_def)
  have n: "unat (of_nat (length (m_keys w)) :: u32) = length (m_keys w)"
    "unat (of_nat (length (m_wallet_txs w)) :: u64) = length (m_wallet_txs w)"
    using sizes by (simp_all add: unat_of_nat_small)
  show ?thesis
    unfolding ImportWallet_def BackupWallet_def Let_def append.append_Cons append.append_Nil
    by (simp add: backup_header read_n_append le_word_le_bytes n import_keys_backup [OF ks] import_txs_backup [OF ts])
       (simp add: read_n_def)
qed

theorem backup_restores_no_key_witness:
  "ImportWallet toy_ssl (BackupWallet 9 sample_wallet) (Create ''x'') =
     Some (True, (Create ''x'')\<lparr>m_encrypted := m_encrypted sample_wallet, m_dirty := True\<rparr>)"
proof (rule backup_restores_no_key [OF toy_ssl_ok sample_run])
  have "m_keys sample_wallet = [(CPubKey_GetID toy_ssl (GetPubKey sample_key), sample_key)]" "m_wallet_txs sample_wallet = []"
    by (simp_all add: sample_wallet_def AddKey_def GetPubKey_valid CKey_IsValid_def sample_key_def Let_def Create_def new_CWallet_def)
  then show "length (m_keys sample_wallet) < 2 ^ 32" "length (m_wallet_txs sample_wallet) < 2 ^ 64" by simp_all
qed

end
