(* ===== verification/WalletDb.thy ===== *)
theory WalletDb
  imports Wallet StateMachine
begin

text \<open>
  Model of the database of the wallet (\<^verbatim>\<open>BHTWalletPro/src/wallet/walletdb.h\<close>, declared in \<^verbatim>\<open>wallet.h\<close>): every operation of
  \<^verbatim>\<open>CWalletDB\<close> as a value, with what it reports. The database has no state but its path. The operations the wallet calls have
  definitions of their own in \<open>Wallet\<close>, with which these agree.
\<close>

record CKeyMetadata =
  md_nVersion :: int
  md_nCreateTime :: int
  md_hdKeypath :: string
  md_key_id :: CKeyID
  md_has_key_origin :: bool

record CMasterKey =
  mk_vchCryptedKey :: bytes
  mk_vchSalt :: bytes
  mk_nDerivationMethod :: u32
  mk_nDeriveIterations :: u32
  mk_fUseChainCode :: bool

definition new_CMasterKey :: CMasterKey where
  "new_CMasterKey =
     \<lparr>mk_vchCryptedKey = [], mk_vchSalt = [], mk_nDerivationMethod = 0, mk_nDeriveIterations = 25000, mk_fUseChainCode = False\<rparr>"

record CWalletDB =
  m_db_path :: string

definition new_CWalletDB :: "string \<Rightarrow> CWalletDB" where
  "new_CWalletDB db_path = \<lparr>m_db_path = db_path\<rparr>"

datatype db_op =
    TxnBegin | TxnCommit | TxnAbort
  | WriteName string string | EraseName string
  | WriteTx uint256 CWalletTx | EraseTx uint256
  | ReadKey CKeyID CKey | WriteKey CKeyID CKey | WriteKeyPub CPubKey CKey | WriteKeyMetadata CKeyMetadata CPubKey
  | ReadCryptedKey CKeyID bytes bytes u32 | WriteCryptedKey CKeyID bytes bytes u32 | WriteCryptedKeyPub CPubKey bytes CKeyMetadata
  | EraseKey CKeyID
  | WriteHDChain uint256 | ReadHDChain uint256
  | WriteMasterKeyId u32 CMasterKey | WriteMasterKeyRaw bytes bytes u32 | ReadMasterKeyRaw bytes bytes u32
  | WriteCScript uint160 CScript | WriteWatchOnly CScript
  | Close

fun db_call :: "db_op \<Rightarrow> CWalletDB \<Rightarrow> bool \<times> CWalletDB" where
  "db_call TxnBegin db = (True, db)"
| "db_call TxnCommit db = (True, db)"
| "db_call TxnAbort db = (True, db)"
| "db_call (WriteName address label) db = (False, db)"
| "db_call (EraseName address) db = (False, db)"
| "db_call (WriteTx hash tx) db = (False, db)"
| "db_call (EraseTx hash) db = (False, db)"
| "db_call (ReadKey key_id key) db = (False, db)"
| "db_call (WriteKey key_id key) db = (False, db)"
| "db_call (WriteKeyPub pubkey key) db = (False, db)"
| "db_call (WriteKeyMetadata metadata pubkey) db = (False, db)"
| "db_call (ReadCryptedKey key_id key salt rounds) db = (False, db)"
| "db_call (WriteCryptedKey key_id key salt rounds) db = (False, db)"
| "db_call (WriteCryptedKeyPub pubkey crypted_key metadata) db = (False, db)"
| "db_call (EraseKey key_id) db = (False, db)"
| "db_call (WriteHDChain chain_code) db = (False, db)"
| "db_call (ReadHDChain chain_code) db = (False, db)"
| "db_call (WriteMasterKeyId ident master_key) db = (False, db)"
| "db_call (WriteMasterKeyRaw key salt rounds) db = (False, db)"
| "db_call (ReadMasterKeyRaw key salt rounds) db = (False, db)"
| "db_call (WriteCScript hash redeem_script) db = (False, db)"
| "db_call (WriteWatchOnly script) db = (False, db)"
| "db_call Close db = (True, db)"

text \<open>The calls of the wallet are these operations.\<close>

lemma wallet_calls:
  "fst (db_ReadKey key_id key) = fst (db_call (ReadKey key_id key) db)" "db_WriteKey key_id key = fst (db_call (WriteKey key_id key) db)"
  "db_WriteTx hash tx = fst (db_call (WriteTx hash tx) db)" "WriteMasterKey k salt rounds = fst (db_call (WriteMasterKeyRaw k salt rounds) db)"
  "fst (ReadMasterKey k salt rounds) = fst (db_call (ReadMasterKeyRaw k salt rounds) db)"
  by (simp_all add: db_ReadKey_def db_WriteKey_def db_WriteTx_def WriteMasterKey_def ReadMasterKey_def)

definition brackets :: "db_op \<Rightarrow> bool" where
  "brackets op \<longleftrightarrow> op \<in> {TxnBegin, TxnCommit, TxnAbort, Close}"

text \<open>
  The database stores nothing: in every sequence of calls exactly the calls that begin, commit, abort or close succeed, so a
  transaction commits with success although every write inside it has failed, and no read ever finds what was written.
\<close>

theorem database_keeps_nothing:
  assumes "run db_call (new_CWalletDB path) tr db"
  shows "db = new_CWalletDB path \<and> list_all (\<lambda>(op, ok). ok = brackets op) tr"
  using assms
proof (induction rule: run.induct)
  case (run_step tr db op ok db')
  have "fst (db_call op db) = brackets op \<and> snd (db_call op db) = db" by (cases op) (simp_all add: brackets_def)
  with run_step show ?case by simp
qed simp

end
