(* ===== verification/CxxString.thy ===== *)
theory CxxString
  imports TypeBridge
begin

text \<open>
  What the wallet uses of \<^verbatim>\<open>std::string\<close> and of the number conversions of the C++ library: searching,
  slicing, reading a number and printing one, with the exceptions they throw. Positions are
  \<^verbatim>\<open>size_t\<close> values; \<open>npos\<close> is the largest of them, and sums and differences of positions wrap around.
\<close>

section \<open>Positions and slices\<close>

text \<open>\<open>null_pointer\<close> is not an exception: it stands for the undefined behaviour of following a null pointer.\<close>

datatype cxx_exn = invalid_argument | out_of_range | null_pointer

type_synonym 'a res = "cxx_exn + 'a"

definition npos :: nat where
  "npos = 2 ^ 64 - 1"

definition sz_add :: "nat \<Rightarrow> nat \<Rightarrow> nat" where
  "sz_add a b = (a + b) mod 2 ^ 64"

definition sz_sub :: "nat \<Rightarrow> nat \<Rightarrow> nat" where
  "sz_sub a b = (a + 2 ^ 64 - b) mod 2 ^ 64"

fun starts_with :: "string \<Rightarrow> string \<Rightarrow> bool" where
  "starts_with [] s = True"
| "starts_with (p # ps) [] = False"
| "starts_with (p # ps) (c # cs) = (p = c \<and> starts_with ps cs)"

fun find_from :: "string \<Rightarrow> string \<Rightarrow> nat \<Rightarrow> nat" where
  "find_from pat [] i = (if pat = [] then i else npos)"
| "find_from pat (c # cs) i = (if starts_with pat (c # cs) then i else find_from pat cs (i + 1))"

text \<open>\<^verbatim>\<open>s.find(pat, pos)\<close>, \<^verbatim>\<open>s.substr(pos, n)\<close> and \<^verbatim>\<open>s[i]\<close>, which reads the terminator at the end.\<close>

definition str_find :: "string \<Rightarrow> string \<Rightarrow> nat \<Rightarrow> nat" where
  "str_find s pat pos = (if pos > length s then npos else find_from pat (drop pos s) pos)"

definition substr :: "string \<Rightarrow> nat \<Rightarrow> nat \<Rightarrow> string res" where
  "substr s pos n = (if pos > length s then Inl out_of_range else Inr (take n (drop pos s)))"

definition char_at :: "string \<Rightarrow> nat \<Rightarrow> char" where
  "char_at s i = (if i < length s then s ! i else CHR 0x00)"

text \<open>The loop \<^verbatim>\<open>while (i < s.length() && P(s[i])) i++\<close>.\<close>

function advance :: "(char \<Rightarrow> bool) \<Rightarrow> string \<Rightarrow> nat \<Rightarrow> nat" where
  "advance P s i = (if i < length s \<and> P (s ! i) then advance P s (i + 1) else i)"
  by pat_completeness auto
termination
  by (relation "measure (\<lambda>(P, s, i). length s - i)") auto

declare advance.simps [simp del]

section \<open>Numbers\<close>

definition is_space :: "char \<Rightarrow> bool" where
  "is_space c = (let n = (of_char c :: nat) in n = 32 \<or> (9 \<le> n \<and> n \<le> 13))"

definition take_sign :: "string \<Rightarrow> bool \<times> string" where
  "take_sign s =
     (case s of
        [] \<Rightarrow> (False, [])
      | c # cs \<Rightarrow> if c = CHR ''-'' then (True, cs) else if c = CHR ''+'' then (False, cs) else (False, s))"

definition skip_0x :: "string \<Rightarrow> string" where
  "skip_0x s =
     (case s of
        z # x # d # cs \<Rightarrow>
          if z = CHR ''0'' \<and> (x = CHR ''x'' \<or> x = CHR ''X'') \<and> hex_digit d \<noteq> None then d # cs else s
      | _ \<Rightarrow> s)"

definition hex_value :: "string \<Rightarrow> nat" where
  "hex_value s = foldl (\<lambda>n c. 16 * n + (case hex_digit c of None \<Rightarrow> 0 | Some b \<Rightarrow> unat b)) 0 s"

text \<open>
  The common part of \<^verbatim>\<open>strtoull\<close> and \<^verbatim>\<open>strtol\<close> with base 16: leading blanks, a sign, an optional prefix
  that a digit must follow, and the longest run of digits.
\<close>

definition scan_hex :: "string \<Rightarrow> bool \<times> string" where
  "scan_hex s =
     (case take_sign (dropWhile is_space s) of
        (neg, r) \<Rightarrow> (neg, takeWhile (\<lambda>c. hex_digit c \<noteq> None) (skip_0x r)))"

definition stoull16 :: "string \<Rightarrow> u64 res" where
  "stoull16 s =
     (case scan_hex s of
        (neg, ds) \<Rightarrow>
          if ds = [] then Inl invalid_argument
          else if hex_value ds \<ge> 2 ^ 64 then Inl out_of_range
          else Inr (if neg then - of_nat (hex_value ds) else of_nat (hex_value ds)))"

definition stoi16 :: "string \<Rightarrow> int res" where
  "stoi16 s =
     (case scan_hex s of
        (neg, ds) \<Rightarrow>
          let v = (if neg then - int (hex_value ds) else int (hex_value ds))
          in if ds = [] then Inl invalid_argument
             else if v < - (2 ^ 31) \<or> v \<ge> 2 ^ 31 then Inl out_of_range
             else Inr v)"

text \<open>\<open>to_base 10\<close> is \<^verbatim>\<open>std::to_string\<close> of an unsigned number, \<open>to_base 16\<close> the conversion \<^verbatim>\<open>%llx\<close>.\<close>

fun to_base :: "nat \<Rightarrow> nat \<Rightarrow> string" where
  "to_base b n = (if n < b \<or> b < 2 then [hex_chars ! (n mod 16)] else to_base b (n div b) @ [hex_chars ! (n mod b)])"

declare to_base.simps [simp del]

section \<open>Facts\<close>

lemma starts_with_append: "starts_with p s \<longleftrightarrow> (\<exists>r. s = p @ r)"
  by (induction p s rule: starts_with.induct) auto

lemma find_from_ge: "find_from pat s i \<noteq> npos \<Longrightarrow> i \<le> find_from pat s i \<and> find_from pat s i \<le> i + length s"
  by (induction pat s i rule: find_from.induct) (auto split: if_splits)

lemma find_from_less: "find_from (p # ps) s i \<noteq> npos \<Longrightarrow> find_from (p # ps) s i < i + length s"
  by (induction "p # ps" s i rule: find_from.induct) (auto split: if_splits)

lemma str_find_ge: "str_find s pat pos \<noteq> npos \<Longrightarrow> pos \<le> str_find s pat pos"
  using find_from_ge [of pat "drop pos s" pos] by (auto simp: str_find_def split: if_splits)

lemma str_find_less: "str_find s (p # ps) pos \<noteq> npos \<Longrightarrow> str_find s (p # ps) pos < length s"
  using find_from_less [of p ps "drop pos s" pos] by (auto simp: str_find_def split: if_splits)

lemma advance_ge: "i \<le> advance P s i"
  by (induction P s i rule: advance.induct) (subst advance.simps, auto)

lemma advance_le: "i \<le> length s \<Longrightarrow> advance P s i \<le> length s"
  by (induction P s i rule: advance.induct) (subst advance.simps, auto)

lemma find_char:
  "c \<notin> set xs \<Longrightarrow> find_from [c] (xs @ c # ys) i = i + length xs"
  by (induction xs arbitrary: i) auto

lemma find_char_none: "c \<notin> set xs \<Longrightarrow> find_from [c] xs i = npos"
  by (induction xs arbitrary: i) auto

text \<open>The forms in which the parsers use them: the rest of the text after a position is known.\<close>

lemma str_find_char:
  assumes "drop pos s = xs @ c # ys" and "c \<notin> set xs" and "pos \<le> length s"
  shows "str_find s [c] pos = pos + length xs"
  using assms find_char [OF assms(2), of ys pos] by (simp add: str_find_def)

lemma drop_after:
  assumes "drop pos s = xs @ ys"
  shows "drop (pos + length xs) s = ys"
  using assms by (metis add.commute append_eq_conv_conj drop_drop)

lemma char_at_drop: "drop i s = c # cs \<Longrightarrow> char_at s i = c"
  using hd_drop_conv_nth [of i s] by (cases "i < length s") (auto simp: char_at_def)

lemma advance_run:
  "drop i s = xs @ ys \<Longrightarrow> i \<le> length s \<Longrightarrow> list_all P xs \<Longrightarrow> (case ys of [] \<Rightarrow> True | y # _ \<Rightarrow> \<not> P y) \<Longrightarrow>
   advance P s i = i + length xs"
proof (induction xs arbitrary: i)
  case Nil
  then show ?case
    using nth_via_drop [of i s] by (subst advance.simps) (cases ys; auto)
next
  case (Cons x xs)
  have i: "i < length s" "s ! i = x" using Cons.prems(1) nth_via_drop [of i s x "xs @ ys"]
    by (cases "i < length s"; simp)+
  have "drop (Suc i) s = xs @ ys" using drop_after [of i s "[x]" "xs @ ys"] Cons.prems(1) by simp
  with Cons.IH [of "Suc i"] Cons.prems i show ?case by (subst advance.simps) simp
qed

section \<open>Reading back printed numbers\<close>

lemma hex_digit_char: "d < 16 \<Longrightarrow> (case hex_digit (hex_chars ! d) of None \<Rightarrow> 0 | Some b \<Rightarrow> unat b) = d"
  by (simp add: hex_digit_chars unsigned_of_nat take_bit_nat_eq_self)

lemma hex_value_snoc: "d < 16 \<Longrightarrow> hex_value (s @ [hex_chars ! d]) = 16 * hex_value s + d"
  by (simp add: hex_value_def hex_digit_char)

definition digit_string :: "string \<Rightarrow> bool" where
  "digit_string s \<longleftrightarrow> s \<noteq> [] \<and> set s \<subseteq> set hex_chars"

lemma to_base_digits: "2 \<le> b \<Longrightarrow> b \<le> 16 \<Longrightarrow> digit_string (to_base b n)"
proof (induction b n rule: to_base.induct)
  case (1 b n)
  have "hex_chars ! d \<in> set hex_chars" if "d < 16" for d
    using that by (intro nth_mem) (simp add: hex_chars_def)
  moreover have "n mod b < 16" using 1(2,3) mod_less_divisor [of b n] by linarith
  ultimately show ?case using 1 by (subst to_base.simps) (auto simp: digit_string_def)
qed

lemma digit_string_facts:
  assumes "c \<in> set hex_chars"
  shows "hex_digit c \<noteq> None" and "c \<noteq> CHR ''x''" and "c \<noteq> CHR ''X''" and "\<not> is_space c"
    and "c \<noteq> CHR ''-''" and "c \<noteq> CHR ''+''" and "c \<noteq> CHR 0x22"
  using assms by (auto simp: hex_chars_def hex_digit_def is_space_def)

lemma skip_0x_digits:
  assumes "set s \<subseteq> set hex_chars"
  shows "skip_0x s = s"
proof -
  have "x \<noteq> CHR ''x'' \<and> x \<noteq> CHR ''X''" if "s = z # x # r" for z x r
    using that assms digit_string_facts by auto
  then show ?thesis by (auto simp: skip_0x_def split: list.splits)
qed

lemma scan_digits:
  assumes "digit_string s"
  shows "scan_hex (s @ []) = (False, s)" and "scan_hex (''0x'' @ s) = (False, s)"
proof -
  obtain c cs where s: "s = c # cs" and c: "c \<in> set hex_chars" and cs: "set cs \<subseteq> set hex_chars"
    using assms by (cases s) (auto simp: digit_string_def)
  note f = digit_string_facts [OF c]
  have run: "takeWhile (\<lambda>c. hex_digit c \<noteq> None) s = s"
    using assms digit_string_facts(1) by (intro takeWhile_eq_all_conv [THEN iffD2]) (auto simp: digit_string_def)
  have "scan_hex s = (False, takeWhile (\<lambda>c. hex_digit c \<noteq> None) (skip_0x s))"
    using f s by (simp add: scan_hex_def take_sign_def)
  also have "skip_0x s = s" using assms by (intro skip_0x_digits) (simp add: digit_string_def)
  finally show "scan_hex (s @ []) = (False, s)" using run by simp
  have "scan_hex (''0x'' @ s) = (False, takeWhile (\<lambda>c. hex_digit c \<noteq> None) (skip_0x (''0x'' @ s)))"
    by (simp add: scan_hex_def take_sign_def is_space_def)
  also have "skip_0x (''0x'' @ s) = s" using f s by (simp add: skip_0x_def)
  finally show "scan_hex (''0x'' @ s) = (False, s)" using run by simp
qed

lemma stoull16_digits:
  assumes "digit_string s"
  shows "stoull16 s = (if hex_value s \<ge> 2 ^ 64 then Inl out_of_range else Inr (of_nat (hex_value s)))"
    and "stoull16 (''0x'' @ s) = (if hex_value s \<ge> 2 ^ 64 then Inl out_of_range else Inr (of_nat (hex_value s)))"
  using scan_digits [OF assms] assms by (simp_all add: stoull16_def digit_string_def)

lemma hex_value_to_base_16: "hex_value (to_base 16 n) = n"
proof (induction n rule: less_induct)
  case (less n)
  show ?case
  proof (cases "n < 16")
    case True
    then show ?thesis using hex_value_snoc [of n "[]"] by (subst to_base.simps) (simp add: hex_value_def)
  next
    case False
    then show ?thesis
      using less [of "n div 16"] by (subst to_base.simps) (simp add: hex_value_snoc)
  qed
qed

text \<open>The value of the decimal digits of a number when they are read as hexadecimal digits.\<close>

fun dec_as_hex :: "nat \<Rightarrow> nat" where
  "dec_as_hex n = (if n < 10 then n else 16 * dec_as_hex (n div 10) + n mod 10)"

declare dec_as_hex.simps [simp del]

lemma hex_value_to_base_10: "hex_value (to_base 10 n) = dec_as_hex n"
proof (induction n rule: dec_as_hex.induct)
  case (1 n)
  show ?case
  proof (cases "n < 10")
    case True
    then show ?thesis
      using hex_value_snoc [of n "[]"] by (subst to_base.simps, subst dec_as_hex.simps) (simp add: hex_value_def)
  next
    case False
    have "n mod 10 < 16" by (rule less_trans [OF mod_less_divisor]) simp_all
    then show ?thesis
      using 1 [OF False] False by (subst to_base.simps, subst dec_as_hex.simps) (simp add: hex_value_snoc)
  qed
qed

lemma dec_as_hex_ge: "n \<le> dec_as_hex n"
proof (induction n rule: dec_as_hex.induct)
  case (1 n)
  show ?case
  proof (cases "n < 10")
    case False
    have "n = 10 * (n div 10) + n mod 10" by simp
    also have "\<dots> \<le> 16 * dec_as_hex (n div 10) + n mod 10" using 1 [OF False] by linarith
    finally show ?thesis using False by (subst dec_as_hex.simps) simp
  qed (subst dec_as_hex.simps, simp)
qed

lemma dec_as_hex_greater: "10 \<le> n \<Longrightarrow> n < dec_as_hex n"
proof -
  assume n: "10 \<le> n"
  have "n = 10 * (n div 10) + n mod 10" by simp
  also have "\<dots> < 16 * dec_as_hex (n div 10) + n mod 10"
    using dec_as_hex_ge [of "n div 10"] n by linarith
  finally show ?thesis using n by (subst dec_as_hex.simps) simp
qed

lemma dec_as_hex_bound: "n < 10 ^ k \<Longrightarrow> 0 < k \<Longrightarrow> dec_as_hex n < 16 ^ k"
proof (induction n arbitrary: k rule: dec_as_hex.induct)
  case (1 n)
  show ?case
  proof (cases "n < 10")
    case True
    have "(16 :: nat) ^ 1 \<le> 16 ^ k" using 1(3) by (intro power_increasing) simp_all
    with True show ?thesis by (subst dec_as_hex.simps) simp
  next
    case False
    then obtain j where j: "k = Suc j" "0 < j" using 1(2,3) by (cases k; cases "k - 1") auto
    then have "n div 10 < 10 ^ j" using 1(2) by (simp add: less_mult_imp_div_less mult.commute)
    from 1(1) [OF False this j(2)] have "dec_as_hex (n div 10) < 16 ^ j" .
    moreover have "n mod 10 < 16" by (rule less_trans [OF mod_less_divisor]) simp_all
    ultimately have "16 * dec_as_hex (n div 10) + n mod 10 < 16 * 16 ^ j" by linarith
    then show ?thesis using False j by (subst dec_as_hex.simps) simp
  qed
qed

end
