(* ===== verification/Layer2Client.thy ===== *)
theory Layer2Client
  imports CxxString
begin

text \<open>
  Model of the class \<^verbatim>\<open>Layer2Client\<close> of \<^verbatim>\<open>BHTWalletPro/src/layer2/layer2_client.cpp\<close>: the JSON-RPC client of
  the second layer. WinINet, the clock, the random generator and the value read from an uninitialised
  variable are the fields of \<open>net\<close>, indexed by
  the number of the interaction. The functions pass the client and the \<open>world\<close> (the static request
  prefix, the number of interactions so far and, for the properties, the bodies posted so far) and
  return a C++ exception as \<open>Inl\<close>. The branch for other systems does not compile (it uses WinINet
  types), so the Windows branch is the one modelled. Locks and the progress callback, which no
  function calls, are not modelled.
\<close>

section \<open>Data\<close>

text \<open>Numbers of a default-initialised structure are indeterminate: \<open>None\<close>.\<close>

record BHTEAccount =
  acc_address :: string
  acc_balance :: "u64 option"
  acc_nonce :: "u64 option"
  acc_tokens :: "string list"
  acc_is_contract :: "bool option"
  acc_code_hash :: string

record BHTETransaction =
  tx_txid :: string
  tx_from :: string
  tx_to :: string
  tx_amount :: "u64 option"
  tx_fee :: "u64 option"
  tx_nonce :: "u64 option"
  tx_status :: string
  tx_block_number :: "u64 option"
  tx_timestamp :: "u64 option"
  tx_memo :: string
  tx_input_data :: bytes

definition new_tx :: BHTETransaction where
  "new_tx = \<lparr>tx_txid = [], tx_from = [], tx_to = [], tx_amount = None, tx_fee = None, tx_nonce = None,
     tx_status = [], tx_block_number = None, tx_timestamp = None, tx_memo = [], tx_input_data = []\<rparr>"

record BHTEBridgeStatus =
  bs_active :: "bool option"
  bs_last_synced_block :: "u64 option"
  bs_current_block :: "u64 option"
  bs_pending_deposits :: "u64 option"
  bs_pending_withdrawals :: "u64 option"
  bs_layer1_hash :: string
  bs_layer2_hash :: string
  bs_bridge_fee :: "u64 option"
  bs_min_deposit :: "u64 option"
  bs_min_withdrawal :: "u64 option"

record BHTEBlock =
  blk_number :: "u64 option"
  blk_hash :: string
  blk_timestamp :: "u64 option"
  blk_transactions :: "BHTETransaction list"

record Layer2Client =
  m_endpoint :: string
  m_proxy :: string
  m_connected :: bool
  m_timeout_ms :: u32
  m_last_error :: string
  m_hInternet :: bool
  m_hConnection :: bool

text \<open>The outcome of one HTTP request: the status code is \<open>None\<close> when querying it fails.\<close>

datatype http_result = OpenFailed | SendFailed | Answer "int option" "string list"

record net =
  InternetOpen :: "nat \<Rightarrow> bool"
  InternetCrackUrl :: "string \<Rightarrow> (string \<times> nat \<times> string) option"
  InternetConnect :: "nat \<Rightarrow> string \<Rightarrow> nat \<Rightarrow> bool"
  HttpRequest :: "nat \<Rightarrow> string \<Rightarrow> string \<Rightarrow> http_result"
  clock_ms :: "nat \<Rightarrow> u64"
  clock_s :: "nat \<Rightarrow> u64"
  RAND_bytes :: "nat \<Rightarrow> bytes"
  indeterminate :: "nat \<Rightarrow> u64"

record world =
  m_rpc_id_prefix :: string
  interactions :: nat
  posted :: "string list"

type_synonym cw = "Layer2Client \<times> world"

definition tick :: "world \<Rightarrow> world" where
  "tick w = w\<lparr>interactions := interactions w + 1\<rparr>"

section \<open>Construction and connection\<close>

definition new_Layer2Client :: "net \<Rightarrow> world \<Rightarrow> cw" where
  "new_Layer2Client N w =
     (\<lparr>m_endpoint = ''http://localhost:8545'', m_proxy = [], m_connected = False, m_timeout_ms = 30000,
       m_last_error = [], m_hInternet = False, m_hConnection = False\<rparr>,
      (tick w)\<lparr>m_rpc_id_prefix := concat (map hex_byte (take 8 (RAND_bytes N (interactions w))))\<rparr>)"

definition Connect :: "net \<Rightarrow> string \<Rightarrow> cw \<Rightarrow> bool \<times> cw" where
  "Connect N endpoint s =
     (case s of (c, w) \<Rightarrow>
        let c = c\<lparr>m_endpoint := endpoint, m_hInternet := False\<rparr>;
            opened = InternetOpen N (interactions w);
            w = tick w;
            c = c\<lparr>m_hInternet := opened\<rparr>
        in if \<not> opened then (False, (c\<lparr>m_last_error := ''Failed to initialize WinINet''\<rparr>, w))
           else (case InternetCrackUrl N endpoint of
                   None \<Rightarrow> (False, (c\<lparr>m_last_error := ''Failed to parse URL''\<rparr>, w))
                 | Some (hostName, port, path) \<Rightarrow>
                     let connected = InternetConnect N (interactions w) hostName port;
                         w = tick w;
                         c = c\<lparr>m_hConnection := connected\<rparr>
                     in if \<not> connected
                        then (False, (c\<lparr>m_last_error := ''Failed to connect to '' @ hostName @ '':'' @ to_base 10 port\<rparr>, w))
                        else (True, (c\<lparr>m_connected := True\<rparr>, w))))"

definition Disconnect :: "Layer2Client \<Rightarrow> Layer2Client" where
  "Disconnect c = c\<lparr>m_hConnection := False, m_hInternet := False, m_connected := False\<rparr>"

definition SetEndpoint :: "string \<Rightarrow> Layer2Client \<Rightarrow> Layer2Client" where
  "SetEndpoint endpoint c = c\<lparr>m_endpoint := endpoint\<rparr>"

definition SetProxy :: "string \<Rightarrow> Layer2Client \<Rightarrow> Layer2Client" where
  "SetProxy proxy c = c\<lparr>m_proxy := proxy\<rparr>"

definition SetTimeout :: "u32 \<Rightarrow> Layer2Client \<Rightarrow> Layer2Client" where
  "SetTimeout t c = c\<lparr>m_timeout_ms := t\<rparr>"

section \<open>Requests\<close>

text \<open>
  \<^verbatim>\<open>response += buffer\<close> appends a C string: of every chunk only the part before the first null
  character is kept.
\<close>

definition c_string :: "string \<Rightarrow> string" where
  "c_string s = takeWhile (\<lambda>c. c \<noteq> CHR 0x00) s"

definition sendHTTPPOST :: "net \<Rightarrow> string \<Rightarrow> string \<Rightarrow> cw \<Rightarrow> (bool \<times> string \<times> int) \<times> cw" where
  "sendHTTPPOST N url body s =
     (case s of (c, w) \<Rightarrow>
        if \<not> m_hConnection c then ((False, [], 0), (c\<lparr>m_last_error := ''Not connected''\<rparr>, w))
        else (case InternetCrackUrl N url of
                None \<Rightarrow> ((False, [], 0), (c\<lparr>m_last_error := ''Failed to parse URL''\<rparr>, w))
              | Some (hostName, port, urlPath) \<Rightarrow>
                  (case HttpRequest N (interactions w) (if urlPath = [] then ''/'' else urlPath) body of
                     OpenFailed \<Rightarrow> ((False, [], 0), (c\<lparr>m_last_error := ''Failed to open HTTP request''\<rparr>, tick w))
                   | SendFailed \<Rightarrow> ((False, [], 0), (c\<lparr>m_last_error := ''Failed to send HTTP request''\<rparr>, tick w))
                   | Answer status chunks \<Rightarrow>
                       ((True, concat (map c_string chunks), case status of None \<Rightarrow> 0 | Some k \<Rightarrow> k),
                        (c, (tick w)\<lparr>posted := posted w @ [body]\<rparr>)))))"

definition dq :: string where
  "dq = [CHR 0x22]"

definition quoted :: "string \<Rightarrow> string" where
  "quoted s = dq @ s @ dq"

text \<open>\<^verbatim>\<open>"key":\<close>, the start of a member of a JSON object.\<close>

definition member_key :: "string \<Rightarrow> string" where
  "member_key k = quoted k @ '':''"

definition generateRPCID :: "net \<Rightarrow> world \<Rightarrow> string \<times> world" where
  "generateRPCID N w =
     (let h = to_base 16 (unat (clock_ms N (interactions w)))
      in (m_rpc_id_prefix w @ ''_'' @ replicate (8 - length h) (CHR ''0'') @ h, tick w))"

definition buildJSONRPCRequest :: "net \<Rightarrow> string \<Rightarrow> string \<Rightarrow> world \<Rightarrow> string \<times> world" where
  "buildJSONRPCRequest N rpc_method params w =
     (case generateRPCID N w of
        (rid, w) \<Rightarrow>
          (''{'' @ member_key ''jsonrpc'' @ quoted ''2.0'' @ '','' @
           member_key ''method'' @ quoted rpc_method @ '','' @
           member_key ''params'' @ params @ '','' @
           member_key ''id'' @ quoted rid @ ''}'', w))"

definition int_string :: "int \<Rightarrow> string" where
  "int_string k = (if k < 0 then ''-'' @ to_base 10 (nat (- k)) else to_base 10 (nat k))"

definition sendRPCRequest :: "net \<Rightarrow> string \<Rightarrow> string \<Rightarrow> cw \<Rightarrow> (bool \<times> string) \<times> cw" where
  "sendRPCRequest N rpc_method params s =
     (case s of (c, w) \<Rightarrow>
        if \<not> m_connected c then ((False, []), (c\<lparr>m_last_error := ''Not connected to endpoint''\<rparr>, w))
        else (case buildJSONRPCRequest N rpc_method params w of
                (jsonBody, w) \<Rightarrow>
                  (case sendHTTPPOST N (m_endpoint c) jsonBody (c, w) of
                     ((ok, response, statusCode), (c, w)) \<Rightarrow>
                       if \<not> ok then ((False, response), (c, w))
                       else if statusCode \<noteq> 200
                       then ((False, response), (c\<lparr>m_last_error := ''HTTP error: '' @ int_string statusCode\<rparr>, w))
                       else ((True, response), (c, w)))))"

section \<open>Parsing\<close>

definition trimQuotes :: "string \<Rightarrow> string" where
  "trimQuotes s =
     (if length s \<ge> 2 \<and>
         ((hd s = CHR 0x22 \<and> last s = CHR 0x22) \<or> (hd s = CHR 0x27 \<and> last s = CHR 0x27))
      then take (length s - 2) (drop 1 s) else s)"

definition blank :: "char \<Rightarrow> bool" where
  "blank c \<longleftrightarrow> c = CHR '' '' \<or> c = CHR 0x0A"

text \<open>The loops that count opening and closing characters up to the matching one.\<close>

function nest_scan :: "string \<Rightarrow> string \<Rightarrow> string \<Rightarrow> nat \<Rightarrow> nat \<Rightarrow> nat" where
  "nest_scan opens closes s i n =
     (if i < length s \<and> n > 0
      then nest_scan opens closes s (i + 1)
             (if s ! i \<in> set opens then n + 1 else if s ! i \<in> set closes then n - 1 else n)
      else i)"
  by pat_completeness auto
termination
  by (relation "measure (\<lambda>(opens, closes, s, i, n). length s - i)") auto

declare nest_scan.simps [simp del]

text \<open>
  The value of a member: a string up to the next quote, a nested object or array, or anything up to
  a comma or line end. \<open>None\<close> is the \<^verbatim>\<open>break\<close>.
\<close>

definition read_value :: "string \<Rightarrow> nat \<Rightarrow> (string \<times> nat) option res" where
  "read_value obj valueStart =
     (let c = char_at obj valueStart
      in if c = CHR 0x22 then
           (let valueStart = valueStart + 1;
                valueEnd = str_find obj dq valueStart
            in if valueEnd = npos then Inr None
               else map_sum id (\<lambda>v. Some (v, valueEnd + 1)) (substr obj valueStart (valueEnd - valueStart)))
         else if c = CHR ''{'' \<or> c = CHR ''['' then
           (let valueEnd = nest_scan ''{['' ''}]'' obj (valueStart + 1) 1
            in map_sum id (\<lambda>v. Some (v, valueEnd)) (substr obj valueStart (valueEnd - valueStart)))
         else
           (let valueEnd = advance (\<lambda>c. c \<noteq> CHR '','' \<and> c \<noteq> CHR 0x0A) obj valueStart
            in map_sum id (\<lambda>v. Some (v, valueEnd)) (substr obj valueStart (valueEnd - valueStart))))"

lemma nest_scan_ge: "i \<le> nest_scan opens closes s i n"
  by (induction opens closes s i n rule: nest_scan.induct) (subst nest_scan.simps, auto)

lemma read_value_end: "read_value obj i = Inr (Some (v, e)) \<Longrightarrow> i \<le> e"
  using str_find_ge [of obj dq "i + 1"] nest_scan_ge [of "i + 1" "''{[''" "''}]''" obj 1] advance_ge [of i _ obj]
  by (auto simp: read_value_def Let_def map_sum_def substr_def split: if_splits sum.splits)

function parse_members :: "string \<Rightarrow> nat \<Rightarrow> (string \<rightharpoonup> string) \<Rightarrow> (string \<rightharpoonup> string) res" where
  "parse_members obj keyPos result =
     (if \<not> keyPos < length obj then Inr result
      else
        let keyStart = str_find obj dq keyPos;
            keyEnd = str_find obj dq (keyStart + 1);
            colonP = str_find obj '':'' keyEnd
        in if keyStart = npos \<or> keyEnd = npos then Inr result
           else (case substr obj (keyStart + 1) (keyEnd - keyStart - 1) of
                   Inl e \<Rightarrow> Inl e
                 | Inr key \<Rightarrow>
                     if colonP = npos then Inr result
                     else (case read_value obj (advance blank obj (colonP + 1)) of
                             Inl e \<Rightarrow> Inl e
                           | Inr None \<Rightarrow> Inr result
                           | Inr (Some (value, valueEnd)) \<Rightarrow>
                               parse_members obj (advance (\<lambda>c. c = CHR '','' \<or> blank c) obj valueEnd) (result(key \<mapsto> value)))))"
  by pat_completeness auto
termination
proof (relation "measure (\<lambda>(obj, keyPos, result). length obj - keyPos)")
  show "wf (measure (\<lambda>(obj, keyPos, result :: string \<rightharpoonup> string). length obj - keyPos))" by simp
next
  fix obj :: string and keyPos :: nat and result :: "string \<rightharpoonup> string" and keyStart keyEnd colonP key ov p val valueEnd
  assume a: "\<not> \<not> keyPos < length obj" "keyStart = str_find obj dq keyPos" "keyEnd = str_find obj dq (keyStart + 1)"
    "colonP = str_find obj '':'' keyEnd" "\<not> (keyStart = npos \<or> keyEnd = npos)" "colonP \<noteq> npos"
    "read_value obj (advance blank obj (colonP + 1)) = Inr ov" "ov = Some p" "(val, valueEnd) = p"
  have "keyPos \<le> keyStart" "keyStart + 1 \<le> keyEnd" "keyEnd \<le> colonP"
    using a str_find_ge by auto
  moreover have "colonP + 1 \<le> valueEnd"
    using read_value_end [of obj "advance blank obj (colonP + 1)" val valueEnd] a
      advance_ge [of "colonP + 1" blank obj] by (metis le_trans)
  moreover have "valueEnd \<le> advance (\<lambda>c. c = CHR '','' \<or> blank c) obj valueEnd" by (rule advance_ge)
  ultimately show "((obj, advance (\<lambda>c. c = CHR '','' \<or> blank c) obj valueEnd, result(key \<mapsto> val)), (obj, keyPos, result))
      \<in> measure (\<lambda>(obj, keyPos, result). length obj - keyPos)"
    using a(1) by auto
qed

declare parse_members.simps [simp del]

text \<open>
  The error branch: \<open>find\<close> may fail in the middle, and then positions wrap around. The result is the new
  value of \<^verbatim>\<open>m_last_error\<close>.
\<close>

definition error_message :: "string \<Rightarrow> nat \<Rightarrow> string \<Rightarrow> string res" where
  "error_message response errorPos last_error =
     (let msgStart = str_find response (quoted ''message'') errorPos
      in if msgStart = npos then Inr last_error
         else let msgStart = str_find response '':'' msgStart;
                  msgEnd = str_find response '','' msgStart;
                  msgEnd = (if msgEnd = npos then str_find response ''}'' msgStart else msgEnd)
              in map_sum id trimQuotes
                   (substr response (sz_add msgStart 1) (sz_sub (sz_sub msgEnd msgStart) 1)))"

text \<open>\<open>Inr (fields, error)\<close>: \<open>fields\<close> is \<open>None\<close> where the function returns false.\<close>

definition parseJSONResponse :: "string \<Rightarrow> string \<Rightarrow> ((string \<rightharpoonup> string) option \<times> string) res" where
  "parseJSONResponse response last_error =
     (let resultPos = str_find response (quoted ''result'') 0
      in if resultPos = npos then
           (let errorPos = str_find response (quoted ''error'') 0
            in if errorPos \<noteq> npos
               then map_sum id (\<lambda>e. (None, e)) (error_message response errorPos last_error)
               else Inr (None, last_error))
         else
           let colonPos = str_find response '':'' resultPos
           in if colonPos = npos then Inr (None, last_error)
              else
                let startPos = advance blank response (colonPos + 1)
                in if char_at response startPos = CHR ''{'' then
                     (let endPos = nest_scan ''{'' ''}'' response (startPos + 1) 1
                      in case substr response (startPos + 1) (sz_sub (endPos - startPos) 2) of
                           Inl e \<Rightarrow> Inl e
                         | Inr jsonObj \<Rightarrow>
                             map_sum id (\<lambda>m. (Some m, last_error)) (parse_members jsonObj 0 Map.empty))
                   else if char_at response startPos = CHR ''['' then
                     map_sum id (\<lambda>v. (Some [''_array'' \<mapsto> v], last_error)) (substr response startPos npos)
                   else
                     (let endPos = advance (\<lambda>c. c \<noteq> CHR '','' \<and> c \<noteq> CHR ''}'') response startPos
                      in map_sum id (\<lambda>v. (Some [''_value'' \<mapsto> v], last_error))
                           (substr response startPos (endPos - startPos))))"

definition parseHexToUint64 :: "string \<Rightarrow> u64 res" where
  "parseHexToUint64 hex = stoull16 (if take 2 hex = ''0x'' then drop 2 hex else hex)"

definition escape_char :: "char \<Rightarrow> string" where
  "escape_char c =
     (if c = CHR 0x22 then [CHR 0x5C, CHR 0x22]
      else if c = CHR 0x5C then [CHR 0x5C, CHR 0x5C]
      else if c = CHR 0x08 then [CHR 0x5C, CHR ''b'']
      else if c = CHR 0x0C then [CHR 0x5C, CHR ''f'']
      else if c = CHR 0x0A then [CHR 0x5C, CHR ''n'']
      else if c = CHR 0x0D then [CHR 0x5C, CHR ''r'']
      else if c = CHR 0x09 then [CHR 0x5C, CHR ''t'']
      else [c])"

definition escapeJSONString :: "string \<Rightarrow> string" where
  "escapeJSONString s = concat (map escape_char s)"

section \<open>Queries\<close>

text \<open>
  What every query does after its guard: try the calls in order until one is answered, then parse
  the answer. \<open>Unanswered\<close> is the \<^verbatim>\<open>return false\<close> after the last call, \<open>Unparsed\<close> a false result of the
  parser.
\<close>

datatype reply = Unanswered | Unparsed | Fields "string \<rightharpoonup> string"

fun rpc_query :: "net \<Rightarrow> (string \<times> string) list \<Rightarrow> cw \<Rightarrow> reply res \<times> cw" where
  "rpc_query N [] s = (Inr Unanswered, s)"
| "rpc_query N ((rpc_method, params) # calls) s =
     (case sendRPCRequest N rpc_method params s of
        ((ok, response), (c, w)) \<Rightarrow>
          if \<not> ok then rpc_query N calls (c, w)
          else (case parseJSONResponse response (m_last_error c) of
                  Inl e \<Rightarrow> (Inl e, (c, w))
                | Inr (None, err) \<Rightarrow> (Inr Unparsed, (c\<lparr>m_last_error := err\<rparr>, w))
                | Inr (Some m, err) \<Rightarrow> (Inr (Fields m), (c\<lparr>m_last_error := err\<rparr>, w))))"

text \<open>
  A query of the usual form: false when not connected, unanswered or unparsed; otherwise what
  \<open>extract\<close> makes of the members, which is \<open>None\<close> where the function returns false.
\<close>

definition query :: "net \<Rightarrow> (string \<times> string) list \<Rightarrow> ((string \<rightharpoonup> string) \<Rightarrow> 'a option res) \<Rightarrow> cw \<Rightarrow> 'a option res \<times> cw" where
  "query N calls extract s =
     (if \<not> m_connected (fst s) then (Inr None, s)
      else (case rpc_query N calls s of
              (Inl e, s) \<Rightarrow> (Inl e, s)
            | (Inr (Fields m), s) \<Rightarrow> (extract m, s)
            | (Inr _, s) \<Rightarrow> (Inr None, s)))"

text \<open>\<^verbatim>\<open>if (it != result.end()) x = f(it->second)\<close>, for an \<open>f\<close> that may throw and for one that does not.\<close>

definition set_parsed :: "(string \<rightharpoonup> string) \<Rightarrow> string \<Rightarrow> (u64 \<Rightarrow> 'a \<Rightarrow> 'a) \<Rightarrow> 'a res \<Rightarrow> 'a res" where
  "set_parsed m k upd x =
     (case x of
        Inl e \<Rightarrow> Inl e
      | Inr a \<Rightarrow> (case m k of None \<Rightarrow> Inr a | Some v \<Rightarrow> map_sum id (\<lambda>n. upd n a) (parseHexToUint64 v)))"

definition set_text :: "(string \<rightharpoonup> string) \<Rightarrow> string \<Rightarrow> (string \<Rightarrow> 'a \<Rightarrow> 'a) \<Rightarrow> 'a res \<Rightarrow> 'a res" where
  "set_text m k upd x = map_sum id (\<lambda>a. case m k of None \<Rightarrow> a | Some v \<Rightarrow> upd v a) x"

definition is_true :: "string \<Rightarrow> bool" where
  "is_true v \<longleftrightarrow> v = ''true'' \<or> v = ''1''"

definition GetAccount :: "net \<Rightarrow> string \<Rightarrow> BHTEAccount \<Rightarrow> cw \<Rightarrow> BHTEAccount option res \<times> cw" where
  "GetAccount N address account =
     query N [(''bhte_getAccount'', ''['' @ quoted address @ '']'')]
       (\<lambda>m. map_sum id Some
          (set_text m ''codeHash'' (\<lambda>v a. a\<lparr>acc_code_hash := trimQuotes v\<rparr>)
            (set_text m ''isContract'' (\<lambda>v a. a\<lparr>acc_is_contract := Some (is_true v)\<rparr>)
              (set_parsed m ''nonce'' (\<lambda>n a. a\<lparr>acc_nonce := Some n\<rparr>)
                (set_parsed m ''balance'' (\<lambda>n a. a\<lparr>acc_balance := Some n\<rparr>)
                  (Inr (account\<lparr>acc_address := address\<rparr>)))))))"

text \<open>The number under \<open>k\<close>, or else the bare value of the reply.\<close>

definition number_or_value :: "string \<Rightarrow> (string \<rightharpoonup> string) \<Rightarrow> u64 option res" where
  "number_or_value k m =
     (case m k of
        Some v \<Rightarrow> map_sum id Some (parseHexToUint64 v)
      | None \<Rightarrow> (case m ''_value'' of Some v \<Rightarrow> map_sum id Some (parseHexToUint64 v) | None \<Rightarrow> Inr None))"

definition GetBalance :: "net \<Rightarrow> string \<Rightarrow> cw \<Rightarrow> u64 option res \<times> cw" where
  "GetBalance N address =
     query N [(''eth_getBalance'', ''['' @ quoted address @ '', '' @ quoted ''latest'' @ '']''),
              (''bhte_getBalance'', ''['' @ quoted address @ '']'')]
       (number_or_value ''balance'')"

definition GetNonce :: "net \<Rightarrow> string \<Rightarrow> cw \<Rightarrow> u64 option res \<times> cw" where
  "GetNonce N address =
     query N [(''eth_getTransactionCount'', ''['' @ quoted address @ '', '' @ quoted ''latest'' @ '']''),
              (''bhte_getNonce'', ''['' @ quoted address @ '']'')]
       (number_or_value ''nonce'')"

text \<open>The loop that decodes pairs of hexadecimal digits; the last piece may be a single character.\<close>

function hex_pairs :: "string \<Rightarrow> bytes res" where
  "hex_pairs s =
     (if s = [] then Inr []
      else (case stoi16 (take 2 s) of
              Inl e \<Rightarrow> Inl e
            | Inr v \<Rightarrow> map_sum id ((#) (word_of_int v)) (hex_pairs (drop 2 s))))"
  by pat_completeness auto
termination
  by (relation "measure length") auto

declare hex_pairs.simps [simp del]

definition add_input :: "(string \<rightharpoonup> string) \<Rightarrow> BHTETransaction res \<Rightarrow> BHTETransaction res" where
  "add_input m x =
     (case x of
        Inl e \<Rightarrow> Inl e
      | Inr t \<Rightarrow>
          (case m ''input'' of
             None \<Rightarrow> Inr t
           | Some v \<Rightarrow>
               let inputHex = trimQuotes v
               in if length inputHex > 2
                  then map_sum id (\<lambda>bs. t\<lparr>tx_input_data := tx_input_data t @ bs\<rparr>) (hex_pairs (drop 2 inputHex))
                  else Inr t))"

definition transaction_fields :: "string \<Rightarrow> (string \<rightharpoonup> string) \<Rightarrow> BHTETransaction \<Rightarrow> BHTETransaction res" where
  "transaction_fields txid m tx =
     add_input m
       (set_text m ''status'' (\<lambda>v t. t\<lparr>tx_status := trimQuotes v\<rparr>)
         ((if m ''blockNumber'' \<noteq> Some ''null''
           then set_parsed m ''blockNumber'' (\<lambda>n t. t\<lparr>tx_block_number := Some n\<rparr>) else id)
           (set_parsed m ''nonce'' (\<lambda>n t. t\<lparr>tx_nonce := Some n\<rparr>)
             (set_parsed m ''gasPrice'' (\<lambda>n t. t\<lparr>tx_fee := Some n\<rparr>)
               (set_parsed m ''value'' (\<lambda>n t. t\<lparr>tx_amount := Some n\<rparr>)
                 (set_text m ''to'' (\<lambda>v t. t\<lparr>tx_to := trimQuotes v\<rparr>)
                   (set_text m ''from'' (\<lambda>v t. t\<lparr>tx_from := trimQuotes v\<rparr>)
                     (Inr (tx\<lparr>tx_txid := txid\<rparr>)))))))))"

definition GetTransaction :: "net \<Rightarrow> string \<Rightarrow> BHTETransaction \<Rightarrow> cw \<Rightarrow> BHTETransaction option res \<times> cw" where
  "GetTransaction N txid tx s =
     (if \<not> m_connected (fst s) then (Inr None, s)
      else (case rpc_query N [(''eth_getTransactionByHash'', ''['' @ quoted txid @ '']''),
                              (''bhte_getTransaction'', ''['' @ quoted txid @ '']'')] s of
              (Inl e, s) \<Rightarrow> (Inl e, s)
            | (Inr Unanswered, s) \<Rightarrow> (Inr None, s)
            | (Inr Unparsed, s) \<Rightarrow> (Inr (Some (tx\<lparr>tx_txid := txid, tx_status := ''pending''\<rparr>)), s)
            | (Inr (Fields m), s) \<Rightarrow> (map_sum id Some (transaction_fields txid m tx), s)))"

definition receipt_status :: "string \<Rightarrow> string" where
  "receipt_status v =
     (if trimQuotes v = ''0x1'' \<or> trimQuotes v = ''1'' then ''confirmed'' else ''failed'')"

definition GetTransactionReceipt :: "net \<Rightarrow> string \<Rightarrow> BHTETransaction \<Rightarrow> cw \<Rightarrow> BHTETransaction option res \<times> cw" where
  "GetTransactionReceipt N txid tx s =
     (if \<not> m_connected (fst s) then (Inr None, s)
      else (case rpc_query N [(''eth_getTransactionReceipt'', ''['' @ quoted txid @ '']''),
                              (''bhte_getTransactionReceipt'', ''['' @ quoted txid @ '']'')] s of
              (Inl e, s) \<Rightarrow> (Inl e, s)
            | (Inr Unanswered, s) \<Rightarrow> (Inr None, s)
            | (Inr Unparsed, s) \<Rightarrow> GetTransaction N txid tx s
            | (Inr (Fields m), s) \<Rightarrow>
                (map_sum id Some
                   (set_parsed m ''blockNumber'' (\<lambda>n t. t\<lparr>tx_block_number := Some n\<rparr>)
                     (set_text m ''status'' (\<lambda>v t. t\<lparr>tx_status := receipt_status v\<rparr>)
                       (Inr (tx\<lparr>tx_txid := txid\<rparr>)))), s)))"

section \<open>History\<close>

text \<open>
  A quoted member of a transaction object; \<^verbatim>\<open>find\<close> results are not checked, so positions may wrap
  around. The flag of the numeric member \<open>value\<close> is the next function.
\<close>

definition history_text :: "string \<Rightarrow> string \<Rightarrow> string option res" where
  "history_text k txObj =
     (let pos = str_find txObj (quoted k) 0
      in if pos = npos then Inr None
         else let colonP = str_find txObj '':'' pos;
                  quoteP = str_find txObj dq (sz_add colonP 1);
                  endQuoteP = str_find txObj dq (sz_add quoteP 1)
              in map_sum id Some (substr txObj (sz_add quoteP 1) (sz_sub (sz_sub endQuoteP quoteP) 1)))"

definition history_amount :: "string \<Rightarrow> u64 option res" where
  "history_amount txObj =
     (let valuePos = str_find txObj (quoted ''value'') 0
      in if valuePos = npos then Inr None
         else let colonP = str_find txObj '':'' valuePos
              in (case substr txObj (sz_add colonP 1) 20 of
                    Inl e \<Rightarrow> Inl e
                  | Inr valueStr \<Rightarrow> map_sum id Some (parseHexToUint64 valueStr)))"

definition history_entry :: "string \<Rightarrow> BHTETransaction res" where
  "history_entry txObj =
     (case history_text ''from'' txObj of
        Inl e \<Rightarrow> Inl e
      | Inr frm \<Rightarrow>
          (case history_text ''to'' txObj of
             Inl e \<Rightarrow> Inl e
           | Inr dest \<Rightarrow>
               (case history_amount txObj of
                  Inl e \<Rightarrow> Inl e
                | Inr amount \<Rightarrow>
                    Inr (new_tx\<lparr>tx_from := (case frm of None \<Rightarrow> [] | Some v \<Rightarrow> v),
                                tx_to := (case dest of None \<Rightarrow> [] | Some v \<Rightarrow> v),
                                tx_amount := amount\<rparr>))))"

function history_loop :: "string \<Rightarrow> nat \<Rightarrow> BHTETransaction list \<Rightarrow> BHTETransaction list res" where
  "history_loop txArray start history =
     (let txStart = str_find txArray ''{'' start;
          txEnd = str_find txArray ''}'' txStart
      in if txStart = npos \<or> txEnd = npos then Inr history
         else (case substr txArray txStart (txEnd - txStart + 1) of
                 Inl e \<Rightarrow> Inl e
               | Inr txObj \<Rightarrow>
                   (case history_entry txObj of
                      Inl e \<Rightarrow> Inl e
                    | Inr tx \<Rightarrow> history_loop txArray (txEnd + 1) (history @ [tx]))))"
  by pat_completeness auto
termination
proof (relation "measure (\<lambda>(txArray, start, history). length txArray + 1 - start)")
  fix txArray :: string and start :: nat and history :: "BHTETransaction list" and txStart txEnd txObj tx
  assume a: "txStart = str_find txArray ''{'' start" "txEnd = str_find txArray ''}'' txStart"
    "\<not> (txStart = npos \<or> txEnd = npos)"
  then have "start \<le> txStart" "txStart \<le> txEnd" "txEnd < length txArray"
    using str_find_ge str_find_less by auto
  then show "((txArray, txEnd + 1, history @ [tx]), (txArray, start, history))
      \<in> measure (\<lambda>(txArray, start, history). length txArray + 1 - start)" by simp
qed simp

declare history_loop.simps [simp del]

definition GetTransactionHistory :: "net \<Rightarrow> string \<Rightarrow> u64 \<Rightarrow> nat \<Rightarrow> cw \<Rightarrow> BHTETransaction list option res \<times> cw" where
  "GetTransactionHistory N address from_block limit =
     query N [(''bhte_getTransactionsByAddress'',
               ''[{'' @ member_key ''from'' @ quoted address @ '','' @
               member_key ''startBlock'' @ quoted (''0x'' @ to_base 16 (unat from_block)) @ '','' @
               member_key ''endBlock'' @ quoted ''latest'' @ '','' @
               dq @ '' '' @ quoted ''limit'' @ '':'' @ to_base 10 limit @ ''}]''),
              (''eth_getLogs'', ''['' @ quoted address @ '', '' @ to_base 10 limit @ '']'')]
       (\<lambda>m. case m ''transactions'' of
               None \<Rightarrow> Inr (Some [])
             | Some txArray \<Rightarrow> map_sum id Some (history_loop txArray 0 []))"

section \<open>Transactions and transfers\<close>

definition hex_bytes :: "bytes \<Rightarrow> string" where
  "hex_bytes bs = concat (map hex_byte bs)"

text \<open>\<^verbatim>\<open>"0x" + std::to_string(amount)\<close>: the decimal digits behind a hexadecimal prefix.\<close>

definition amount_text :: "u64 \<Rightarrow> string" where
  "amount_text n = ''0x'' @ to_base 10 (unat n)"

definition text_or_value :: "string \<Rightarrow> (string \<rightharpoonup> string) \<Rightarrow> string option res" where
  "text_or_value k m =
     Inr (case m k of Some v \<Rightarrow> Some (trimQuotes v) | None \<Rightarrow> map_option trimQuotes (m ''_value''))"

definition SendTransaction_params :: "string \<Rightarrow> string \<Rightarrow> u64 \<Rightarrow> u64 \<Rightarrow> string \<Rightarrow> bytes \<Rightarrow> string" where
  "SendTransaction_params from_address to_address amount fee memo signature =
     ''[{'' @ member_key ''from'' @ quoted from_address @ '','' @
     member_key ''to'' @ quoted to_address @ '','' @
     member_key ''value'' @ quoted (amount_text amount) @ '','' @
     member_key ''gasPrice'' @ quoted (amount_text fee) @ '','' @
     member_key ''data'' @ quoted (hex_bytes signature) @
     (if memo \<noteq> [] then '','' @ member_key ''memo'' @ quoted (escapeJSONString memo) else []) @ ''}]''"

definition SendTransaction :: "net \<Rightarrow> string \<Rightarrow> string \<Rightarrow> u64 \<Rightarrow> u64 \<Rightarrow> string \<Rightarrow> bytes \<Rightarrow> cw \<Rightarrow> string option res \<times> cw" where
  "SendTransaction N from_address to_address amount fee memo signature =
     (let params = SendTransaction_params from_address to_address amount fee memo signature
      in query N [(''eth_sendTransaction'', params), (''bhte_sendTransaction'', params)]
           (text_or_value ''transactionHash''))"

text \<open>The bare value of a reply, as a number and as a text.\<close>

definition value_number :: "(string \<rightharpoonup> string) \<Rightarrow> u64 option res" where
  "value_number m = (case m ''_value'' of None \<Rightarrow> Inr None | Some v \<Rightarrow> map_sum id Some (parseHexToUint64 v))"

definition member_text :: "string \<Rightarrow> (string \<rightharpoonup> string) \<Rightarrow> string option res" where
  "member_text k m = Inr (map_option trimQuotes (m k))"

definition CallContract :: "net \<Rightarrow> string \<Rightarrow> string \<Rightarrow> string \<Rightarrow> cw \<Rightarrow> u64 option res \<times> cw" where
  "CallContract N frm dest data =
     query N [(''eth_call'', ''[{'' @ member_key ''from'' @ quoted frm @ '','' @
               member_key ''to'' @ quoted dest @ '','' @ member_key ''data'' @ quoted data @
               ''}, '' @ quoted ''latest'' @ '']'')] value_number"

definition GetCode :: "net \<Rightarrow> string \<Rightarrow> cw \<Rightarrow> bytes option res \<times> cw" where
  "GetCode N address =
     query N [(''eth_getCode'', ''['' @ quoted address @ '', '' @ quoted ''latest'' @ '']'')]
       (\<lambda>m. case m ''_value'' of
               None \<Rightarrow> Inr None
             | Some v \<Rightarrow> if length (trimQuotes v) > 2 then map_sum id Some (hex_pairs (drop 2 (trimQuotes v)))
                         else Inr None)"

definition DepositToLayer2 :: "net \<Rightarrow> string \<Rightarrow> string \<Rightarrow> u64 \<Rightarrow> bytes \<Rightarrow> cw \<Rightarrow> string option res \<times> cw" where
  "DepositToLayer2 N layer1_txid layer2_address amount prf =
     query N [(''bhte_deposit'', ''[{'' @ member_key ''layer1Txid'' @ quoted layer1_txid @ '','' @
               member_key ''layer2Address'' @ quoted layer2_address @ '','' @
               member_key ''amount'' @ quoted (amount_text amount) @ '','' @
               member_key ''proof'' @ quoted (hex_bytes prf) @ ''}]'')] (member_text ''depositId'')"

definition WithdrawFromLayer2 :: "net \<Rightarrow> string \<Rightarrow> string \<Rightarrow> u64 \<Rightarrow> bytes \<Rightarrow> cw \<Rightarrow> string option res \<times> cw" where
  "WithdrawFromLayer2 N layer2_address layer1_address amount signature =
     query N [(''bhte_withdraw'', ''[{'' @ member_key ''layer2Address'' @ quoted layer2_address @ '','' @
               member_key ''layer1Address'' @ quoted layer1_address @ '','' @
               member_key ''amount'' @ quoted (amount_text amount) @ '','' @
               member_key ''signature'' @ quoted (hex_bytes signature) @ ''}]'')] (member_text ''withdrawalId'')"

section \<open>Bridge status, blocks and gas\<close>

definition GetBridgeStatus :: "net \<Rightarrow> BHTEBridgeStatus \<Rightarrow> cw \<Rightarrow> BHTEBridgeStatus option res \<times> cw" where
  "GetBridgeStatus N st =
     query N [(''bhte_getBridgeStatus'', ''[]'')]
       (\<lambda>m. map_sum id Some
          (set_parsed m ''minWithdrawal'' (\<lambda>n b. b\<lparr>bs_min_withdrawal := Some n\<rparr>)
           (set_parsed m ''minDeposit'' (\<lambda>n b. b\<lparr>bs_min_deposit := Some n\<rparr>)
            (set_parsed m ''bridgeFee'' (\<lambda>n b. b\<lparr>bs_bridge_fee := Some n\<rparr>)
             (set_parsed m ''pendingWithdrawals'' (\<lambda>n b. b\<lparr>bs_pending_withdrawals := Some n\<rparr>)
              (set_parsed m ''pendingDeposits'' (\<lambda>n b. b\<lparr>bs_pending_deposits := Some n\<rparr>)
               (set_parsed m ''currentBlock'' (\<lambda>n b. b\<lparr>bs_current_block := Some n\<rparr>)
                (set_parsed m ''lastSyncedBlock'' (\<lambda>n b. b\<lparr>bs_last_synced_block := Some n\<rparr>)
                 (set_text m ''active'' (\<lambda>v b. b\<lparr>bs_active := Some (is_true v)\<rparr>) (Inr st))))))))))"

definition GetLatestBlock :: "net \<Rightarrow> BHTEBlock \<Rightarrow> cw \<Rightarrow> BHTEBlock option res \<times> cw" where
  "GetLatestBlock N block s =
     (case query N [(''eth_blockNumber'', ''[]''), (''bhte_blockNumber'', ''[]'')] value_number s of
        (Inl e, s) \<Rightarrow> (Inl e, s)
      | (Inr None, s) \<Rightarrow> (Inr None, s)
      | (Inr (Some n), (c, w)) \<Rightarrow>
          (Inr (Some (block\<lparr>blk_number := Some n, blk_timestamp := Some (clock_s N (interactions w))\<rparr>)), (c, tick w)))"

definition GetBlockByNumber :: "net \<Rightarrow> u64 \<Rightarrow> BHTEBlock \<Rightarrow> cw \<Rightarrow> BHTEBlock option res \<times> cw" where
  "GetBlockByNumber N number block =
     query N [(''eth_getBlockByNumber'', ''['' @ quoted (''0x'' @ to_base 16 (unat number)) @ '', false]'')]
       (\<lambda>m. map_sum id Some
          (set_parsed m ''timestamp'' (\<lambda>n b. b\<lparr>blk_timestamp := Some n\<rparr>)
            (set_text m ''hash'' (\<lambda>v b. b\<lparr>blk_hash := trimQuotes v\<rparr>)
              (Inr (block\<lparr>blk_number := Some number\<rparr>)))))"

definition GetBlockByHash :: "net \<Rightarrow> string \<Rightarrow> BHTEBlock \<Rightarrow> cw \<Rightarrow> BHTEBlock option res \<times> cw" where
  "GetBlockByHash N hash block =
     query N [(''eth_getBlockByHash'', ''['' @ quoted hash @ '', false]'')]
       (\<lambda>m. map_sum id Some
          (set_parsed m ''timestamp'' (\<lambda>n b. b\<lparr>blk_timestamp := Some n\<rparr>)
            (set_parsed m ''number'' (\<lambda>n b. b\<lparr>blk_number := Some n\<rparr>)
              (Inr (block\<lparr>blk_hash := hash\<rparr>)))))"

definition EstimateGas :: "net \<Rightarrow> string \<Rightarrow> string \<Rightarrow> u64 \<Rightarrow> cw \<Rightarrow> string option res \<times> cw" where
  "EstimateGas N frm dest amount =
     query N [(''eth_estimateGas'', ''[{'' @ member_key ''from'' @ quoted frm @ '','' @
               member_key ''to'' @ quoted dest @ '','' @
               member_key ''value'' @ quoted (amount_text amount) @ ''}]'')] (member_text ''_value'')"

definition GetGasPrice :: "net \<Rightarrow> cw \<Rightarrow> u64 option res \<times> cw" where
  "GetGasPrice N = query N [(''eth_gasPrice'', ''[]''), (''bhte_gasPrice'', ''[]'')] value_number"

definition GetChainId :: "net \<Rightarrow> cw \<Rightarrow> u64 option res \<times> cw" where
  "GetChainId N = query N [(''eth_chainId'', ''[]''), (''bhte_chainId'', ''[]'')] value_number"

definition parseTransactionFromJSON :: "(string \<rightharpoonup> string) \<Rightarrow> BHTETransaction \<Rightarrow> bool \<times> BHTETransaction" where
  "parseTransactionFromJSON m tx = (False, tx)"

end
