(* ===== verification/Layer2Bridge.thy ===== *)
theory Layer2Bridge
  imports Layer2Client StateMachine
begin

text \<open>
  Model of the class \<^verbatim>\<open>BHTEBridge\<close> of \<^verbatim>\<open>BHTWalletPro/src/layer2/layer2_client.cpp\<close>, a state machine over two
  clients, and the properties of client and bridge.
\<close>

section \<open>The bridge\<close>

record BHTEBridge =
  m_layer1_endpoint :: string
  m_layer2_endpoint :: string
  m_layer1_client :: "Layer2Client option"
  m_layer2_client :: "Layer2Client option"
  m_running :: bool
  m_bridge_fee :: u64
  m_confirmation_blocks :: u64
  m_pending_deposits :: "string list"
  m_pending_withdrawals :: "string list"
  br_last_error :: string

type_synonym bw = "BHTEBridge \<times> world"

definition new_BHTEBridge :: BHTEBridge where
  "new_BHTEBridge = \<lparr>m_layer1_endpoint = [], m_layer2_endpoint = [], m_layer1_client = None, m_layer2_client = None,
     m_running = False, m_bridge_fee = 100, m_confirmation_blocks = 12, m_pending_deposits = [],
     m_pending_withdrawals = [], br_last_error = []\<rparr>"

definition Initialize :: "net \<Rightarrow> string \<Rightarrow> string \<Rightarrow> bw \<Rightarrow> bool \<times> bw" where
  "Initialize N layer1_endpoint layer2_endpoint s =
     (case s of (b, w) \<Rightarrow>
        (case new_Layer2Client N w of (c1, w) \<Rightarrow>
           (case new_Layer2Client N w of (c2, w) \<Rightarrow>
              (case Connect N layer1_endpoint (c1, w) of (ok1, (c1, w)) \<Rightarrow>
                 let b = b\<lparr>m_layer1_endpoint := layer1_endpoint, m_layer2_endpoint := layer2_endpoint,
                           m_layer1_client := Some c1, m_layer2_client := Some c2\<rparr>
                 in if \<not> ok1
                    then (False, (b\<lparr>br_last_error := ''Failed to connect to L1: '' @ m_last_error c1\<rparr>, w))
                    else (case Connect N layer2_endpoint (c2, w) of (ok2, (c2, w)) \<Rightarrow>
                            let b = b\<lparr>m_layer2_client := Some c2\<rparr>
                            in if \<not> ok2
                               then (False, (b\<lparr>br_last_error := ''Failed to connect to L2: '' @ m_last_error c2\<rparr>, w))
                               else (True, (b, w)))))))"

definition StartBridgeService :: "BHTEBridge \<Rightarrow> bool \<times> BHTEBridge" where
  "StartBridgeService b = (if m_running b then (True, b) else (True, b\<lparr>m_running := True\<rparr>))"

definition StopBridgeService :: "BHTEBridge \<Rightarrow> BHTEBridge" where
  "StopBridgeService b = b\<lparr>m_running := False\<rparr>"

definition syncBlockHeaders :: "net \<Rightarrow> bw \<Rightarrow> bool res \<times> bw" where
  "syncBlockHeaders N s =
     (case s of (b, w) \<Rightarrow>
        (case (m_layer1_client b, m_layer2_client b) of
           (Some c1, Some c2) \<Rightarrow>
             (case GetLatestBlock N \<lparr>blk_number = None, blk_hash = [], blk_timestamp = None, blk_transactions = []\<rparr> (c1, w) of
                (Inl e, (c1, w)) \<Rightarrow> (Inl e, (b\<lparr>m_layer1_client := Some c1\<rparr>, w))
              | (Inr None, (c1, w)) \<Rightarrow> (Inr False, (b\<lparr>m_layer1_client := Some c1\<rparr>, w))
              | (Inr (Some _), (c1, w)) \<Rightarrow>
                  (case GetLatestBlock N \<lparr>blk_number = None, blk_hash = [], blk_timestamp = None, blk_transactions = []\<rparr> (c2, w) of
                     (r, (c2, w)) \<Rightarrow>
                       (map_sum id (\<lambda>x. x \<noteq> None) r, (b\<lparr>m_layer1_client := Some c1, m_layer2_client := Some c2\<rparr>, w))))
         | _ \<Rightarrow> (Inr False, (b, w))))"

fun deposit_loop :: "net \<Rightarrow> BHTETransaction list \<Rightarrow> bw \<Rightarrow> bool res \<times> bw" where
  "deposit_loop N [] s = (Inr True, s)"
| "deposit_loop N (d # ds) (b, w) =
     (if tx_status d \<noteq> ''confirmed'' then deposit_loop N ds (b, w)
      else (case m_layer2_client b of
              None \<Rightarrow> (Inl null_pointer, (b, w))
            | Some c \<Rightarrow>
                (case DepositToLayer2 N (tx_txid d) (tx_to d)
                        (case tx_amount d of Some a \<Rightarrow> a | None \<Rightarrow> indeterminate N (interactions w)) [] (c, w) of
                   (Inl e, (c, w)) \<Rightarrow> (Inl e, (b\<lparr>m_layer2_client := Some c\<rparr>, w))
                 | (Inr None, (c, w)) \<Rightarrow> deposit_loop N ds (b\<lparr>m_layer2_client := Some c\<rparr>, w)
                 | (Inr (Some deposit_id), (c, w)) \<Rightarrow>
                     deposit_loop N ds (b\<lparr>m_layer2_client := Some c, m_pending_deposits := m_pending_deposits b @ [deposit_id]\<rparr>, w))))"

definition processPendingDepositsFromL1 :: "net \<Rightarrow> bw \<Rightarrow> bool res \<times> bw" where
  "processPendingDepositsFromL1 N s =
     (case s of (b, w) \<Rightarrow>
        (case m_layer1_client b of
           None \<Rightarrow> (Inr False, (b, w))
         | Some c \<Rightarrow>
             (case GetTransactionHistory N ''bridge_address'' 0 50 (c, w) of
                (Inl e, (c, w)) \<Rightarrow> (Inl e, (b\<lparr>m_layer1_client := Some c\<rparr>, w))
              | (Inr None, (c, w)) \<Rightarrow> (Inr False, (b\<lparr>m_layer1_client := Some c\<rparr>, w))
              | (Inr (Some deposits), (c, w)) \<Rightarrow> deposit_loop N deposits (b\<lparr>m_layer1_client := Some c\<rparr>, w))))"

definition submitWithdrawalToL1 :: "BHTETransaction \<Rightarrow> bool" where
  "submitWithdrawalToL1 withdrawal = True"

definition processPendingWithdrawalsToL1 :: "net \<Rightarrow> bw \<Rightarrow> bool res \<times> bw" where
  "processPendingWithdrawalsToL1 N s =
     (case s of (b, w) \<Rightarrow>
        (case m_layer2_client b of
           None \<Rightarrow> (Inr False, (b, w))
         | Some c \<Rightarrow>
             (case GetTransactionHistory N ''bridge_address'' 0 50 (c, w) of
                (Inl e, (c, w)) \<Rightarrow> (Inl e, (b\<lparr>m_layer2_client := Some c\<rparr>, w))
              | (Inr None, (c, w)) \<Rightarrow> (Inr False, (b\<lparr>m_layer2_client := Some c\<rparr>, w))
              | (Inr (Some withdrawals), (c, w)) \<Rightarrow>
                  (Inr True,
                   (b\<lparr>m_layer2_client := Some c,
                      m_pending_withdrawals := m_pending_withdrawals b @
                        map tx_txid (filter (\<lambda>t. tx_status t = ''confirmed'' \<and> submitWithdrawalToL1 t) withdrawals)\<rparr>, w)))))"

definition ProcessDeposits :: "net \<Rightarrow> bw \<Rightarrow> bool res \<times> bw" where
  "ProcessDeposits N s = (if \<not> m_running (fst s) then (Inr False, s) else processPendingDepositsFromL1 N s)"

definition ProcessWithdrawals :: "net \<Rightarrow> bw \<Rightarrow> bool res \<times> bw" where
  "ProcessWithdrawals N s = (if \<not> m_running (fst s) then (Inr False, s) else processPendingWithdrawalsToL1 N s)"

definition VerifyDepositProof :: "string \<Rightarrow> bytes \<Rightarrow> bool \<times> bytes" where
  "VerifyDepositProof layer1_txid prf = (True, [])"

definition SubmitWithdrawalProof :: "string \<Rightarrow> bytes \<Rightarrow> bool" where
  "SubmitWithdrawalProof withdrawal_id prf = True"

definition pending_entries :: "string list \<Rightarrow> BHTETransaction list" where
  "pending_entries ids = map (\<lambda>i. new_tx\<lparr>tx_txid := i, tx_status := ''pending''\<rparr>) ids"

definition GetPendingDeposits :: "BHTEBridge \<Rightarrow> BHTETransaction list" where
  "GetPendingDeposits b = pending_entries (m_pending_deposits b)"

definition GetPendingWithdrawals :: "BHTEBridge \<Rightarrow> BHTETransaction list" where
  "GetPendingWithdrawals b = pending_entries (m_pending_withdrawals b)"

definition SetBridgeFee :: "u64 \<Rightarrow> BHTEBridge \<Rightarrow> BHTEBridge" where
  "SetBridgeFee fee b = b\<lparr>m_bridge_fee := fee\<rparr>"

definition SetConfirmationBlocks :: "u64 \<Rightarrow> BHTEBridge \<Rightarrow> BHTEBridge" where
  "SetConfirmationBlocks blocks b = b\<lparr>m_confirmation_blocks := blocks\<rparr>"

text \<open>The public operations that change the bridge, and one step of it.\<close>

datatype bridge_op = OpInitialize string string | OpStart | OpStop | OpProcessDeposits | OpProcessWithdrawals
  | OpSetBridgeFee u64 | OpSetConfirmationBlocks u64

fun bridge_exec :: "net \<Rightarrow> bridge_op \<Rightarrow> bw \<Rightarrow> bool res \<times> bw" where
  "bridge_exec N (OpInitialize e1 e2) s = (case Initialize N e1 e2 s of (ok, s) \<Rightarrow> (Inr ok, s))"
| "bridge_exec N OpStart (b, w) = (case StartBridgeService b of (ok, b) \<Rightarrow> (Inr ok, (b, w)))"
| "bridge_exec N OpStop (b, w) = (Inr True, (StopBridgeService b, w))"
| "bridge_exec N OpProcessDeposits s = ProcessDeposits N s"
| "bridge_exec N OpProcessWithdrawals s = ProcessWithdrawals N s"
| "bridge_exec N (OpSetBridgeFee fee) (b, w) = (Inr True, (SetBridgeFee fee b, w))"
| "bridge_exec N (OpSetConfirmationBlocks n) (b, w) = (Inr True, (SetConfirmationBlocks n b, w))"

end
