(* ===== verification/Layer2Proofs.thy ===== *)
theory Layer2Proofs
  imports Layer2Bridge
begin

text \<open>Properties of the second-layer client and of the bridge.\<close>

section \<open>Amounts\<close>

text \<open>
  Amounts are misread: the text the client sends for an amount, read by the client's own number
  reader, is the amount exactly when it is below 10, because decimal digits follow a hexadecimal
  prefix; hexadecimal digits would be read back for every amount.
\<close>

theorem amounts_misread:
  "(parseHexToUint64 (amount_text n) = Inr n \<longleftrightarrow> n < 10) \<and>
   parseHexToUint64 (''0x'' @ to_base 16 (unat n)) = Inr n"
proof
  have lt: "unat n < 2 ^ 64" using unat_bound [of n] by simp
  have p: "parseHexToUint64 (''0x'' @ s) = (if hex_value s \<ge> 2 ^ 64 then Inl out_of_range else Inr (of_nat (hex_value s)))"
    if "digit_string s" for s
    using stoull16_digits(1) [OF that] by (simp add: parseHexToUint64_def)
  show "parseHexToUint64 (''0x'' @ to_base 16 (unat n)) = Inr n"
    using p [OF to_base_digits [of 16 "unat n"]] lt by (simp add: hex_value_to_base_16)
  have eq: "parseHexToUint64 (amount_text n) =
      (if dec_as_hex (unat n) \<ge> 2 ^ 64 then Inl out_of_range else Inr (of_nat (dec_as_hex (unat n))))"
    using p [OF to_base_digits [of 10 "unat n"]] by (simp add: amount_text_def hex_value_to_base_10)
  show "parseHexToUint64 (amount_text n) = Inr n \<longleftrightarrow> n < 10"
  proof (cases "unat n < 10")
    case True
    then have "dec_as_hex (unat n) = unat n" by (subst dec_as_hex.simps) simp
    with eq lt True show ?thesis by (simp add: word_less_nat_alt)
  next
    case False
    then have g: "unat n < dec_as_hex (unat n)" by (intro dec_as_hex_greater) simp
    have "of_nat (dec_as_hex (unat n)) \<noteq> n" if "dec_as_hex (unat n) < 2 ^ 64"
    proof
      assume "of_nat (dec_as_hex (unat n)) = n"
      then have "unat (of_nat (dec_as_hex (unat n)) :: u64) = unat n" by simp
      then show False using that g by (simp add: unsigned_of_nat take_bit_nat_eq_self)
    qed
    with eq False show ?thesis by (auto simp: word_less_nat_alt)
  qed
qed

section \<open>Members of an object\<close>

text \<open>The text of an object whose members are strings.\<close>

fun members :: "(string \<times> string) list \<Rightarrow> string" where
  "members [] = []"
| "members [(k, v)] = member_key k @ quoted v"
| "members ((k, v) # kvs) = member_key k @ quoted v @ '','' @ members kvs"

definition plain :: "string \<Rightarrow> bool" where
  "plain s \<longleftrightarrow> CHR 0x22 \<notin> set s \<and> CHR ''{'' \<notin> set s \<and> CHR ''}'' \<notin> set s"

lemma read_string_value:
  assumes "drop i obj = quoted v @ rest" and "CHR 0x22 \<notin> set v" and "i + length v + 1 < npos"
  shows "read_value obj i = Inr (Some (v, i + length v + 2))"
proof -
  have i: "i < length obj" using assms(1) by (cases "i < length obj") (simp_all add: quoted_def dq_def)
  have c: "char_at obj i = CHR 0x22" using assms(1) by (intro char_at_drop) (simp add: quoted_def dq_def)
  have d: "drop (i + 1) obj = v @ CHR 0x22 # rest"
    using drop_after [of i obj dq "v @ dq @ rest"] assms(1) by (simp add: quoted_def dq_def)
  have f: "str_find obj dq (i + 1) = i + 1 + length v"
    unfolding dq_def using d assms(2) i by (intro str_find_char) simp_all
  have "substr obj (i + 1) (length v) = Inr v" using d i by (simp add: substr_def)
  with c f assms(3) show ?thesis by (simp add: read_value_def Let_def)
qed

lemma parse_one_member:
  assumes d: "drop pos obj = member_key k @ quoted v @ rest" and plain: "CHR 0x22 \<notin> set k" "CHR 0x22 \<notin> set v"
    and len: "length obj < npos"
  shows "parse_members obj pos m = parse_members obj
    (advance (\<lambda>c. c = CHR '','' \<or> blank c) obj (pos + length (member_key k @ quoted v))) (m(k \<mapsto> v))"
proof -
  have pos: "pos < length obj" using d by (cases "pos < length obj") (simp_all add: member_key_def quoted_def dq_def)
  have d': "drop pos obj = CHR 0x22 # k @ CHR 0x22 # CHR '':'' # quoted v @ rest"
    using d by (simp add: member_key_def quoted_def dq_def)
  have tot: "pos + length (member_key k @ quoted v @ rest) = length obj"
    using arg_cong [OF d, of length] pos by simp
  have ks: "str_find obj dq pos = pos"
    using str_find_char [of pos obj "[]" "CHR 0x22"] d' pos by (simp add: dq_def)
  have d1: "drop (pos + 1) obj = k @ CHR 0x22 # CHR '':'' # quoted v @ rest"
    using drop_after [of pos obj "[CHR 0x22]"] d' by simp
  have ke: "str_find obj dq (pos + 1) = pos + 1 + length k"
    unfolding dq_def using d1 plain pos by (intro str_find_char) simp_all
  have d2: "drop (pos + 1 + length k) obj = [CHR 0x22] @ CHR '':'' # quoted v @ rest"
    using drop_after [OF d1] by simp
  have cp: "str_find obj '':'' (pos + 1 + length k) = pos + length k + 2"
    using str_find_char [of "pos + 1 + length k" obj "[CHR 0x22]" "CHR '':''"] d2 tot
    by (simp add: member_key_def quoted_def dq_def)
  have d3: "drop (pos + length k + 3) obj = quoted v @ rest"
    using drop_after [of "pos + 1 + length k" obj "[CHR 0x22, CHR '':'']"] d2 by (simp add: eval_nat_numeral)
  have adv: "advance blank obj (pos + length k + 3) = pos + length k + 3"
    using advance_run [of "pos + length k + 3" obj "[]"] d3 tot
    by (simp add: quoted_def dq_def member_key_def blank_def)
  have rv: "read_value obj (pos + length k + 3) = Inr (Some (v, pos + length (member_key k @ quoted v)))"
    using read_string_value [OF d3 plain(2)] tot len by (simp add: member_key_def quoted_def dq_def)
  have key: "substr obj (pos + 1) (length k) = Inr k" using d1 pos by (simp add: substr_def)
  have np: "pos \<noteq> npos" "pos + 1 + length k \<noteq> npos" "pos + length k + 2 \<noteq> npos"
    using tot len by (auto simp: member_key_def quoted_def dq_def)
  show ?thesis
    using pos ks ke cp adv rv key np by (subst parse_members.simps) (simp add: Let_def eval_nat_numeral)
qed

lemma parse_members_text:
  assumes "drop pos obj = members kvs" and "pos \<le> length obj" and "length obj < npos"
    and "list_all (\<lambda>(k, v). plain k \<and> plain v) kvs"
  shows "parse_members obj pos m = Inr (m ++ map_of (rev kvs))"
  using assms
proof (induction kvs arbitrary: pos m rule: members.induct)
  case 1
  then show ?case by (subst parse_members.simps) simp
next
  case (2 k v)
  let ?e = "pos + length (member_key k @ quoted v)"
  have d: "drop pos obj = member_key k @ quoted v @ []" using 2 by simp
  have e: "?e = length obj" using arg_cong [OF d, of length] 2(2) by (simp del: members.simps)
  then have "advance (\<lambda>c. c = CHR '','' \<or> blank c) obj ?e = length obj" by (subst advance.simps) simp
  moreover have "parse_members obj (length obj) (m(k \<mapsto> v)) = Inr (m(k \<mapsto> v))"
    by (subst parse_members.simps) simp
  ultimately show ?case using parse_one_member [OF d] 2 by (simp add: plain_def map_add_def fun_eq_iff)
next
  case (3 k v kv kvs)
  let ?e = "pos + length (member_key k @ quoted v)"
  have d: "drop pos obj = member_key k @ quoted v @ '','' @ members (kv # kvs)" using 3 by simp
  have de: "drop ?e obj = '','' @ members (kv # kvs)" using drop_after [of pos obj "member_key k @ quoted v"] d by simp
  have dn: "drop (?e + 1) obj = members (kv # kvs)" using drop_after [OF de] by simp
  have len: "?e + 1 \<le> length obj" using arg_cong [OF d, of length] by (cases "pos \<le> length obj") auto
  obtain k2 v2 where kv: "kv = (k2, v2)" by fastforce
  have "case members (kv # kvs) of [] \<Rightarrow> True | y # _ \<Rightarrow> \<not> (y = CHR '','' \<or> blank y)"
    using kv by (cases kvs) (simp_all add: member_key_def quoted_def dq_def blank_def)
  then have "advance (\<lambda>c. c = CHR '','' \<or> blank c) obj ?e = ?e + 1"
    using advance_run [OF de] len by simp
  then have "parse_members obj pos m = parse_members obj (?e + 1) (m(k \<mapsto> v))"
    using parse_one_member [OF d] 3 by (simp add: plain_def)
  also have "\<dots> = Inr (m(k \<mapsto> v) ++ map_of (rev (kv # kvs)))"
    using 3 dn len by simp
  finally show ?case by (simp add: map_add_def fun_eq_iff split: option.splits)
qed

section \<open>Replies\<close>

text \<open>The replies of a JSON-RPC server: an object or a bare value as the result.\<close>

definition reply_head :: "string \<Rightarrow> string" where
  "reply_head rid = ''{'' @ member_key ''jsonrpc'' @ quoted ''2.0'' @ '','' @ member_key ''id'' @ quoted rid @ '',''"

definition object_reply :: "string \<Rightarrow> (string \<times> string) list \<Rightarrow> string" where
  "object_reply rid kvs = reply_head rid @ member_key ''result'' @ ''{'' @ members kvs @ ''}}''"

definition value_reply :: "string \<Rightarrow> string \<Rightarrow> string" where
  "value_reply rid v = reply_head rid @ member_key ''result'' @ quoted v @ ''}''"

lemma find_skip: "p \<notin> set xs \<Longrightarrow> find_from (p # ps) (xs @ ys) i = find_from (p # ps) ys (i + length xs)"
  by (induction xs arbitrary: i) auto

lemma starts_with_closed:
  "c \<notin> set xs \<Longrightarrow> c \<notin> set ys \<Longrightarrow> starts_with (xs @ [c]) (ys @ c # zs) \<longleftrightarrow> xs = ys"
proof (induction xs arbitrary: ys)
  case Nil
  then show ?case by (cases ys) auto
next
  case (Cons x xs)
  then show ?case by (cases ys) auto
qed

text \<open>An identifier of a request: no quotes, and not the word the parser looks for.\<close>

definition rid_ok :: "string \<Rightarrow> bool" where
  "rid_ok rid \<longleftrightarrow> CHR 0x22 \<notin> set rid \<and> rid \<noteq> ''result''"

lemma find_result:
  assumes "rid_ok rid"
  shows "str_find (reply_head rid @ quoted ''result'' @ x) (quoted ''result'') 0 = length (reply_head rid)"
proof -
  define tl where "tl = CHR 0x22 # '','' @ quoted ''result'' @ x"
  have "find_from (quoted ''result'') (rid @ tl) i = i + length rid + 2" for i
    using assms find_skip [of "CHR 0x22" rid "''result'' @ dq" tl i]
    by (simp add: rid_ok_def tl_def quoted_def dq_def)
  moreover have "\<not> starts_with (''result'' @ dq) (rid @ tl)"
    using assms starts_with_closed [of "CHR 0x22" "''result''" rid] by (auto simp: rid_ok_def tl_def dq_def)
  moreover have "reply_head rid @ quoted ''result'' @ x
      = (''{'' @ member_key ''jsonrpc'' @ quoted ''2.0'' @ '','' @ member_key ''id'' @ dq) @ rid @ tl"
    by (simp add: reply_head_def tl_def quoted_def dq_def)
  ultimately show ?thesis
    by (simp add: str_find_def) (simp add: reply_head_def member_key_def quoted_def dq_def)
qed

text \<open>The position of the result, common to all replies.\<close>

lemma result_position:
  assumes "rid_ok rid" and "t = c # cs" and "\<not> blank c"
    and "length (reply_head rid @ member_key ''result'' @ t) < npos"
  defines "r \<equiv> reply_head rid @ member_key ''result'' @ t"
  defines "start \<equiv> length (reply_head rid) + 9"
  shows "str_find r (quoted ''result'') 0 \<noteq> npos"
    and "str_find r '':'' (str_find r (quoted ''result'') 0) + 1 = start"
    and "advance blank r start = start" and "drop start r = t" and "start < length r"
proof -
  let ?h = "length (reply_head rid)"
  have r: "r = reply_head rid @ quoted ''result'' @ '':'' @ t" by (simp add: r_def member_key_def)
  have f: "str_find r (quoted ''result'') 0 = ?h"
    unfolding r using find_result [OF assms(1), of "'':'' @ t"] by simp
  have len: "length (quoted ''result'') = 8" by (simp add: quoted_def dq_def)
  then show "str_find r (quoted ''result'') 0 \<noteq> npos"
    using f assms(4) by (simp add: member_key_def)
  have d: "drop ?h r = quoted ''result'' @ CHR '':'' # t" by (simp add: r)
  have "str_find r '':'' ?h = ?h + 8"
    using str_find_char [OF d] len by (simp add: r) (simp add: quoted_def dq_def)
  then show "str_find r '':'' (str_find r (quoted ''result'') 0) + 1 = start" by (simp add: f start_def)
  show ds: "drop start r = t" by (simp add: r start_def len)
  show "start < length r" using assms(2) by (simp add: r start_def len)
  then show "advance blank r start = start"
    using advance_run [of start r "[]" t blank] ds assms(2,3) by simp
qed

lemma nest_scan_flat:
  "drop i s = xs @ CHR ''}'' # ys \<Longrightarrow> CHR ''{'' \<notin> set xs \<Longrightarrow> CHR ''}'' \<notin> set xs \<Longrightarrow>
   nest_scan ''{'' ''}'' s i 1 = i + length xs + 1"
proof (induction xs arbitrary: i)
  case Nil
  then have "i < length s" "s ! i = CHR ''}''" using nth_via_drop [of i s] by (cases "i < length s"; simp)+
  moreover have "nest_scan ''{'' ''}'' s (Suc i) 0 = Suc i" by (subst nest_scan.simps) simp
  ultimately show ?case by (subst nest_scan.simps) simp
next
  case (Cons x xs)
  then have "i < length s" "s ! i = x" using nth_via_drop [of i s] by (cases "i < length s"; simp)+
  moreover have "drop (Suc i) s = xs @ CHR ''}'' # ys" using drop_after [of i s "[x]"] Cons.prems(1) by simp
  ultimately show ?case using Cons by (subst nest_scan.simps) auto
qed

lemma members_plain:
  assumes "list_all (\<lambda>(k, v). plain k \<and> plain v) kvs"
  shows "CHR ''{'' \<notin> set (members kvs)" and "CHR ''}'' \<notin> set (members kvs)"
  using assms by (induction kvs rule: members.induct) (auto simp: plain_def member_key_def quoted_def dq_def)

text \<open>
  The parser reads object results back: for a server reply whose result is an object of string
  members without quotes and braces, the parser returns exactly these members, the last one winning
  where a key occurs twice.
\<close>

theorem object_reply_parsed:
  assumes "rid_ok rid" and "list_all (\<lambda>(k, v). plain k \<and> plain v) kvs"
    and "length (object_reply rid kvs) < npos"
  shows "parseJSONResponse (object_reply rid kvs) err = Inr (Some (map_of (rev kvs)), err)"
proof -
  define start where "start = length (reply_head rid) + 9"
  let ?r = "object_reply rid kvs"
  have ro: "reply_head rid @ member_key ''result'' @ CHR ''{'' # members kvs @ ''}}'' = ?r"
    by (simp add: object_reply_def)
  have nb: "\<not> blank (CHR ''{'')" by (simp add: blank_def)
  note pos = result_position [OF assms(1) refl nb, of "members kvs @ ''}}''", unfolded ro, OF assms(3), folded start_def]
  have colon: "(str_find ?r '':'' (str_find ?r (quoted ''result'') 0) = npos) = False"
    using pos(2,5) assms(3) by simp
  have ch: "char_at ?r start = CHR ''{''" by (rule char_at_drop) (use pos(4) in simp)
  have d1: "drop (start + 1) ?r = members kvs @ CHR ''}'' # ''}''"
    using drop_after [of start ?r "''{''"] pos(4) by simp
  have e: "nest_scan ''{'' ''}'' ?r (start + 1) 1 = start + 1 + length (members kvs) + 1"
    using nest_scan_flat [OF d1] members_plain [OF assms(2)] by simp
  have tot: "start + length (members kvs) + 3 = length ?r"
    using arg_cong [OF pos(4), of length] pos(5) by simp
  have sz: "sz_sub (start + 1 + length (members kvs) + 1 - start) 2 = length (members kvs)"
    using tot assms(3) by (simp add: sz_sub_def npos_def)
  have sub: "substr ?r (start + 1) (length (members kvs)) = Inr (members kvs)"
    using d1 pos(5) by (simp add: substr_def)
  have pm: "parse_members (members kvs) 0 Map.empty = Inr (map_of (rev kvs))"
    using parse_members_text [of 0 "members kvs" kvs Map.empty] assms(2,3) tot by simp
  show ?thesis
    unfolding parseJSONResponse_def Let_def
    by (simp only: pos(1) pos(2) pos(3) colon ch e sz sub pm if_True if_False sum.case map_sum.simps id_apply simp_thms)
qed

theorem object_reply_parsed_witness:
  "parseJSONResponse (object_reply ''1'' [(''balance'', ''0x1f''), (''nonce'', ''0x2'')]) [] =
     Inr (Some [''balance'' \<mapsto> ''0x1f'', ''nonce'' \<mapsto> ''0x2''], [])"
proof -
  have "map_of (rev [(''balance'', ''0x1f''), (''nonce'', ''0x2'')]) = [''balance'' \<mapsto> ''0x1f'', ''nonce'' \<mapsto> ''0x2'']"
    by (auto simp: fun_eq_iff)
  moreover have "length (object_reply ''1'' [(''balance'', ''0x1f''), (''nonce'', ''0x2'')]) < npos"
    by (simp add: object_reply_def reply_head_def member_key_def quoted_def dq_def npos_def)
  ultimately show ?thesis
    using object_reply_parsed [of "''1''" "[(''balance'', ''0x1f''), (''nonce'', ''0x2'')]" "[]"]
    by (simp add: rid_ok_def plain_def)
qed

lemma value_reply_parsed:
  assumes "rid_ok rid" and "CHR '','' \<notin> set v" and "CHR ''}'' \<notin> set v" and "length (value_reply rid v) < npos"
  shows "parseJSONResponse (value_reply rid v) err = Inr (Some [''_value'' \<mapsto> quoted v], err)"
proof -
  define start where "start = length (reply_head rid) + 9"
  let ?r = "value_reply rid v" and ?P = "\<lambda>c. c \<noteq> CHR '','' \<and> c \<noteq> CHR ''}''"
  have ro: "reply_head rid @ member_key ''result'' @ CHR 0x22 # v @ dq @ ''}'' = ?r"
    by (simp add: value_reply_def quoted_def dq_def)
  have nb: "\<not> blank (CHR 0x22)" by (simp add: blank_def)
  note pos = result_position [OF assms(1) refl nb, of "v @ dq @ ''}''", unfolded ro, OF assms(4), folded start_def]
  have colon: "(str_find ?r '':'' (str_find ?r (quoted ''result'') 0) = npos) = False"
    using pos(2,5) assms(4) by simp
  have d: "drop start ?r = quoted v @ ''}''" using pos(4) by (simp add: quoted_def dq_def)
  have ch: "char_at ?r start = CHR 0x22" by (rule char_at_drop) (use pos(4) in simp)
  have ch': "(CHR 0x22 = CHR ''{'') = False" "(CHR 0x22 = CHR ''['') = False" by simp_all
  have e: "advance ?P ?r start = start + length (quoted v)"
    using advance_run [OF d, of ?P] pos(5) assms(2,3) by (auto simp: quoted_def dq_def list_all_iff)
  have sub: "substr ?r start (start + length (quoted v) - start) = Inr (quoted v)"
    using d pos(5) by (simp add: substr_def)
  show ?thesis
    unfolding parseJSONResponse_def Let_def
    by (simp only: pos(1) pos(2) pos(3) colon ch ch' e sub if_True if_False map_sum.simps id_apply simp_thms)
qed

lemma quoted_number_throws: "parseHexToUint64 (quoted v) = Inl invalid_argument"
proof -
  have "hex_digit (CHR 0x22) = None" by (simp add: hex_digit_def)
  then show ?thesis
    by (simp add: parseHexToUint64_def quoted_def dq_def stoull16_def scan_hex_def take_sign_def is_space_def
        skip_0x_def split: list.splits)
qed

text \<open>A server that answers every request with the reply \<open>r\<close>, and a client connected to it.\<close>

definition answers :: "net \<Rightarrow> string \<Rightarrow> Layer2Client \<Rightarrow> bool" where
  "answers N r c \<longleftrightarrow> m_connected c \<and> m_hConnection c \<and> InternetCrackUrl N (m_endpoint c) \<noteq> None \<and>
     (\<forall>n path body. HttpRequest N n path body = Answer (Some 200) [r]) \<and> CHR 0x00 \<notin> set r"

lemma c_string_id: "CHR 0x00 \<notin> set r \<Longrightarrow> c_string r = r"
  by (auto simp: c_string_def intro!: takeWhile_eq_all_conv [THEN iffD2])

lemma answered_request:
  assumes "answers N r c"
  shows "\<exists>w'. sendRPCRequest N m params (c, w) = ((True, r), (c, w'))"
  using assms
  by (auto simp: answers_def sendRPCRequest_def sendHTTPPOST_def buildJSONRPCRequest_def generateRPCID_def
      Let_def c_string_id)

lemma answered_query:
  assumes "answers N (value_reply rid v) c" and "rid_ok rid" and "CHR '','' \<notin> set v" and "CHR ''}'' \<notin> set v"
    and "length (value_reply rid v) < npos" and "calls \<noteq> []"
  shows "fst (query N calls extract (c, w)) = extract [''_value'' \<mapsto> quoted v]"
proof -
  obtain m params calls' where calls: "calls = (m, params) # calls'" using assms(6) by (cases calls) auto
  obtain w' where "sendRPCRequest N m params (c, w) = ((True, value_reply rid v), (c, w'))"
    using answered_request [OF assms(1)] by blast
  moreover have "m_connected c" using assms(1) by (simp add: answers_def)
  ultimately show ?thesis
    by (simp add: query_def calls value_reply_parsed [OF assms(2-5)])
qed

text \<open>
  Standard replies make the numeric queries throw: when the node answers with a quoted number as
  the result, as the JSON-RPC interface of Ethereum specifies, the queries for balance, nonce, gas
  price, chain identifier and latest block throw \<^verbatim>\<open>std::invalid_argument\<close> instead of returning the
  number, because the parser keeps the quotes of a bare value.
\<close>

theorem quoted_results_throw:
  assumes "answers N (value_reply rid v) c" and "rid_ok rid" and "CHR '','' \<notin> set v" and "CHR ''}'' \<notin> set v"
    and "length (value_reply rid v) < npos"
  shows "fst (GetBalance N address (c, w)) = Inl invalid_argument \<and>
    fst (GetNonce N address (c, w)) = Inl invalid_argument \<and>
    fst (GetGasPrice N (c, w)) = Inl invalid_argument \<and>
    fst (GetChainId N (c, w)) = Inl invalid_argument \<and>
    fst (GetLatestBlock N block (c, w)) = Inl invalid_argument"
proof -
  note q = answered_query [OF assms]
  have e: "number_or_value k [''_value'' \<mapsto> quoted v] = Inl invalid_argument"
    "value_number [''_value'' \<mapsto> quoted v] = Inl invalid_argument" for k
    by (simp_all add: number_or_value_def value_number_def quoted_number_throws)
  have "fst (GetLatestBlock N block (c, w)) = Inl invalid_argument"
    using q [of "[(''eth_blockNumber'', ''[]''), (''bhte_blockNumber'', ''[]'')]" value_number w] e(2)
    by (auto simp: GetLatestBlock_def split: prod.splits)
  then show ?thesis
    by (simp add: GetBalance_def GetNonce_def GetGasPrice_def GetChainId_def q e)
qed

definition toy_net :: "string \<Rightarrow> net" where
  "toy_net r = \<lparr>InternetOpen = \<lambda>_. True, InternetCrackUrl = \<lambda>_. Some (''localhost'', 8545, []),
     InternetConnect = \<lambda>_ _ _. True, HttpRequest = \<lambda>_ _ _. Answer (Some 200) [r], clock_ms = \<lambda>_. 1,
     clock_s = \<lambda>_. 1, RAND_bytes = \<lambda>_. replicate 8 0, indeterminate = \<lambda>_. 0\<rparr>"

definition toy_client :: Layer2Client where
  "toy_client = \<lparr>m_endpoint = ''http://localhost:8545'', m_proxy = [], m_connected = True, m_timeout_ms = 30000,
     m_last_error = [], m_hInternet = True, m_hConnection = True\<rparr>"

definition toy_world :: world where
  "toy_world = \<lparr>m_rpc_id_prefix = ''bht'', interactions = 0, posted = []\<rparr>"

theorem quoted_results_throw_witness:
  "fst (GetBalance (toy_net (value_reply ''1'' ''0x10'')) ''0xab'' (toy_client, toy_world)) = Inl invalid_argument"
proof -
  have "answers (toy_net (value_reply ''1'' ''0x10'')) (value_reply ''1'' ''0x10'') toy_client"
    by (simp add: answers_def toy_net_def toy_client_def value_reply_def reply_head_def member_key_def quoted_def dq_def)
  moreover have "length (value_reply ''1'' ''0x10'') < npos"
    by (simp add: value_reply_def reply_head_def member_key_def quoted_def dq_def npos_def)
  ultimately show ?thesis
    using quoted_results_throw [of _ "''1''" "''0x10''" toy_client "''0xab''" toy_world] by (simp add: rid_ok_def)
qed

section \<open>Escaping\<close>

text \<open>Reading an escaped text back; a bare quote would end the text early.\<close>

fun unescape :: "string \<Rightarrow> string option" where
  "unescape [] = Some []"
| "unescape (c # cs) =
     (if c = CHR 0x22 then None
      else if c = CHR 0x5C then
        (case cs of
           [] \<Rightarrow> None
         | d # ds \<Rightarrow>
             map_option ((#)
               (if d = CHR ''b'' then CHR 0x08 else if d = CHR ''f'' then CHR 0x0C else if d = CHR ''n'' then CHR 0x0A
                else if d = CHR ''r'' then CHR 0x0D else if d = CHR ''t'' then CHR 0x09 else d)) (unescape ds))
      else map_option ((#) c) (unescape cs))"

text \<open>
  Memos survive escaping: reading the escaped form of any text back, as a JSON reader does, gives
  the text, and no quote ends it early.
\<close>

theorem escape_roundtrip: "unescape (escapeJSONString s) = Some s"
  by (induction s) (auto simp: escapeJSONString_def escape_char_def)

section \<open>The bridge forwards nothing\<close>

lemma history_entry_status: "history_entry t = Inr x \<Longrightarrow> tx_status x = []"
  by (auto simp: history_entry_def new_tx_def split: sum.splits)

lemma history_loop_status:
  "history_loop txArray start hist = Inr h \<Longrightarrow> \<forall>t \<in> set hist. tx_status t = [] \<Longrightarrow> \<forall>t \<in> set h. tx_status t = []"
proof (induction txArray start hist arbitrary: h rule: history_loop.induct)
  case (1 txArray start hist)
  define i where "i = str_find txArray ''{'' start"
  define e where "e = str_find txArray ''}'' i"
  note step = 1(2) [unfolded history_loop.simps [of txArray start hist] Let_def, folded i_def, folded e_def]
  show ?case
  proof (cases "i = npos \<or> e = npos")
    case True
    with step 1(3) show ?thesis by simp
  next
    case False
    with step obtain obj where obj: "substr txArray i (e - i + 1) = Inr obj"
      by (cases "substr txArray i (e - i + 1)") auto
    with step False obtain t where t: "history_entry obj = Inr t" by (cases "history_entry obj") auto
    have "history_loop txArray (e + 1) (hist @ [t]) = Inr h" using step False obj t by simp
    then show ?thesis
      using 1(1) [OF i_def e_def False obj t] 1(3) history_entry_status [OF t] by simp
  qed
qed

lemma map_sum_Inr: "map_sum id f x = Inr y \<longleftrightarrow> (\<exists>z. x = Inr z \<and> y = f z)"
  by (cases x) auto

lemma history_status:
  assumes "GetTransactionHistory N a n l s = (Inr (Some h), s')"
  shows "\<forall>t \<in> set h. tx_status t = []"
proof -
  obtain m where "(case m ''transactions'' of None \<Rightarrow> Inr (Some [])
      | Some txArray \<Rightarrow> map_sum id Some (history_loop txArray 0 [])) = (Inr (Some h) :: BHTETransaction list option res)"
    using assms unfolding GetTransactionHistory_def query_def
    by (auto split: if_splits prod.splits sum.splits reply.splits)
  then show ?thesis
    using history_loop_status [of _ 0 "[]"] by (auto simp: map_sum_Inr split: option.splits)
qed

text \<open>The bodies posted so far are calls of the given methods.\<close>

definition request_head :: "string \<Rightarrow> string" where
  "request_head m = ''{'' @ member_key ''jsonrpc'' @ quoted ''2.0'' @ '','' @ member_key ''method'' @ quoted m @ '',''"

definition only_calls :: "string list \<Rightarrow> world \<Rightarrow> bool" where
  "only_calls ms w \<longleftrightarrow> list_all (\<lambda>body. list_ex (\<lambda>m. starts_with (request_head m) body) ms) (posted w)"

lemma build_head:
  "buildJSONRPCRequest N m params w = (body, w') \<Longrightarrow> starts_with (request_head m) body \<and> posted w' = posted w"
  by (auto simp: buildJSONRPCRequest_def generateRPCID_def tick_def request_head_def starts_with_append Let_def)

lemma post_posted:
  "sendHTTPPOST N url body s = (r, s') \<Longrightarrow> posted (snd s') = posted (snd s) \<or> posted (snd s') = posted (snd s) @ [body]"
  by (auto simp: sendHTTPPOST_def tick_def split: prod.splits if_splits option.splits http_result.splits)

lemma send_calls:
  assumes "sendRPCRequest N m params s = (r, s')" and "m \<in> set ms" and "only_calls ms (snd s)"
  shows "only_calls ms (snd s')"
proof -
  obtain c w where s: "s = (c, w)" by fastforce
  show ?thesis
  proof (cases "m_connected c")
    case True
    obtain body w1 where body: "buildJSONRPCRequest N m params w = (body, w1)" by fastforce
    obtain ok response code c2 w2 where post: "sendHTTPPOST N (m_endpoint c) body (c, w1) = ((ok, response, code), (c2, w2))"
      by (metis prod.exhaust)
    have "snd s' = w2"
      using assms(1) True by (auto simp: sendRPCRequest_def s body post split: if_splits)
    moreover have "list_ex (\<lambda>m. starts_with (request_head m) body) ms"
      using build_head [OF body] assms(2) by (auto simp: list_ex_iff)
    ultimately show ?thesis
      using post_posted [OF post] build_head [OF body] assms(3) by (auto simp: only_calls_def s)
  qed (use assms s in \<open>auto simp: sendRPCRequest_def\<close>)
qed

lemma query_calls:
  assumes "query N calls extract s = (r, s')" and "fst ` set calls \<subseteq> set ms" and "only_calls ms (snd s)"
  shows "only_calls ms (snd s')"
proof -
  have "rpc_query N cs s = (r, s') \<Longrightarrow> fst ` set cs \<subseteq> set ms \<Longrightarrow> only_calls ms (snd s) \<Longrightarrow> only_calls ms (snd s')" for cs r s s'
  proof (induction cs arbitrary: s)
    case (Cons call cs)
    obtain m params where call: "call = (m, params)" by fastforce
    obtain ok response c w where send: "sendRPCRequest N m params s = ((ok, response), (c, w))" by (metis prod.exhaust)
    have "only_calls ms w" using send_calls [OF send _ Cons.prems(3)] Cons.prems(2) call by simp
    then show ?case using Cons send call by (auto split: if_splits sum.splits option.splits)
  qed simp
  with assms show ?thesis
    by (auto simp: query_def split: if_splits prod.splits sum.splits reply.splits)
qed

definition bridge_calls :: "string list" where
  "bridge_calls = [''bhte_getTransactionsByAddress'', ''eth_getLogs'']"

definition bridge_inv :: "bw \<Rightarrow> bool" where
  "bridge_inv s \<longleftrightarrow> m_pending_deposits (fst s) = [] \<and> m_pending_withdrawals (fst s) = [] \<and> only_calls bridge_calls (snd s)"

lemma history_calls:
  assumes "GetTransactionHistory N a n l (c, w) = (r, (c', w'))" and "only_calls bridge_calls w"
  shows "only_calls bridge_calls w'"
  using query_calls [OF assms(1) [unfolded GetTransactionHistory_def], of bridge_calls] assms(2) by (simp add: bridge_calls_def)

lemma deposit_loop_nothing:
  "\<forall>t \<in> set ds. tx_status t = [] \<Longrightarrow> deposit_loop N ds s = (Inr True, s)"
  by (induction ds) (cases s; simp)+

lemma Connect_posted: "Connect N e (c, w) = (ok, (c', w')) \<Longrightarrow> posted w' = posted w"
  by (auto simp: Connect_def Let_def tick_def split: if_splits option.splits prod.splits)

lemma Initialize_inv:
  assumes "bridge_inv s" and "Initialize N e1 e2 s = (ok, s')"
  shows "bridge_inv s'"
  using assms
  by (auto simp: Initialize_def bridge_inv_def only_calls_def new_Layer2Client_def tick_def Let_def
      dest!: Connect_posted split: prod.splits if_splits)

lemma ProcessDeposits_inv:
  assumes "bridge_inv s" and "ProcessDeposits N s = (r, s')"
  shows "bridge_inv s'"
proof (cases "m_running (fst s)")
  case True
  obtain b w where s: "s = (b, w)" by fastforce
  show ?thesis
  proof (cases "m_layer1_client b")
    case (Some c)
    obtain x c' w' where h: "GetTransactionHistory N ''bridge_address'' 0 50 (c, w) = (x, (c', w'))" by (metis prod.exhaust)
    have ok: "only_calls bridge_calls w'" using history_calls [OF h] assms(1) s by (simp add: bridge_inv_def)
    have "s' = (b\<lparr>m_layer1_client := Some c'\<rparr>, w')"
      using assms(2) True s Some h history_status deposit_loop_nothing
      by (auto simp: ProcessDeposits_def processPendingDepositsFromL1_def split: sum.splits option.splits)
    with ok assms(1) s show ?thesis by (simp add: bridge_inv_def)
  qed (use assms True s in \<open>auto simp: ProcessDeposits_def processPendingDepositsFromL1_def\<close>)
qed (use assms in \<open>auto simp: ProcessDeposits_def\<close>)

lemma ProcessWithdrawals_inv:
  assumes "bridge_inv s" and "ProcessWithdrawals N s = (r, s')"
  shows "bridge_inv s'"
proof (cases "m_running (fst s)")
  case True
  obtain b w where s: "s = (b, w)" by fastforce
  show ?thesis
  proof (cases "m_layer2_client b")
    case (Some c)
    obtain x c' w' where h: "GetTransactionHistory N ''bridge_address'' 0 50 (c, w) = (x, (c', w'))" by (metis prod.exhaust)
    have ok: "only_calls bridge_calls w'" using history_calls [OF h] assms(1) s by (simp add: bridge_inv_def)
    have "filter (\<lambda>t. tx_status t = ''confirmed'' \<and> submitWithdrawalToL1 t) ts = []" if "x = Inr (Some ts)" for ts
      using history_status h that by (auto simp: filter_empty_conv)
    then show ?thesis
      using assms True s Some h ok
      by (auto simp: bridge_inv_def ProcessWithdrawals_def processPendingWithdrawalsToL1_def split: sum.splits option.splits)
  qed (use assms True s in \<open>auto simp: ProcessWithdrawals_def processPendingWithdrawalsToL1_def\<close>)
qed (use assms in \<open>auto simp: ProcessWithdrawals_def\<close>)

lemma bridge_exec_inv:
  assumes "bridge_inv s" and "bridge_exec N op s = (r, s')"
  shows "bridge_inv s'"
proof -
  obtain b w where s: "s = (b, w)" by fastforce
  show ?thesis
  proof (cases op)
    case (OpInitialize e1 e2)
    with assms show ?thesis using Initialize_inv by (auto split: prod.splits)
  next
    case OpProcessDeposits
    with assms show ?thesis using ProcessDeposits_inv by simp
  next
    case OpProcessWithdrawals
    with assms show ?thesis using ProcessWithdrawals_inv by simp
  qed (use assms s in \<open>auto simp: bridge_inv_def StartBridgeService_def StopBridgeService_def SetBridgeFee_def
      SetConfirmationBlocks_def split: if_splits\<close>)
qed

interpretation bridge: kept_invariant "bridge_exec N" bridge_inv for N
  by unfold_locales (rule bridge_exec_inv)

text \<open>
  C23. The bridge forwards nothing: whatever the nodes answer and in whatever order the public
  operations are called, the lists of pending deposits and withdrawals stay empty and every request
  the bridge posts asks for a transaction history. (Entries of a history never get a status, and only
  entries with the status confirmed are forwarded.)
\<close>

theorem bridge_forwards_nothing:
  assumes "run (bridge_exec N) (new_BHTEBridge, w0) tr (b, w)" and "posted w0 = []"
  shows "GetPendingDeposits b = [] \<and> GetPendingWithdrawals b = [] \<and> only_calls bridge_calls w"
proof -
  have "bridge_inv (new_BHTEBridge, w0)"
    using assms(2) by (simp add: bridge_inv_def new_BHTEBridge_def only_calls_def)
  from bridge.run_inv [OF assms(1) this] show ?thesis
    by (simp add: bridge_inv_def GetPendingDeposits_def GetPendingWithdrawals_def pending_entries_def)
qed

text \<open>A node that reports a confirmed deposit.\<close>

definition deposit_reply :: string where
  "deposit_reply = reply_head ''1'' @ member_key ''result'' @ ''{'' @ member_key ''transactions'' @ ''[{'' @
     member_key ''from'' @ quoted ''alice'' @ '','' @ member_key ''to'' @ quoted ''bob'' @ '','' @
     member_key ''value'' @ ''0x5,'' @ member_key ''status'' @ quoted ''confirmed'' @ ''}]}}''"

definition deposit_session :: "(bridge_op \<times> bool res) list \<times> bw" where
  "deposit_session = exec_all (bridge_exec (toy_net deposit_reply))
     [OpInitialize ''http://l1'' ''http://l2'', OpStart, OpProcessDeposits, OpProcessWithdrawals] (new_BHTEBridge, toy_world)"

theorem bridge_forwards_nothing_witness:
  "GetPendingDeposits (fst (snd deposit_session)) = [] \<and> GetPendingWithdrawals (fst (snd deposit_session)) = [] \<and>
   only_calls bridge_calls (snd (snd deposit_session))"
proof -
  have "run (bridge_exec (toy_net deposit_reply)) (new_BHTEBridge, toy_world) (fst deposit_session)
      (fst (snd deposit_session), snd (snd deposit_session))"
    using run_exec_all [of "bridge_exec (toy_net deposit_reply)" "(new_BHTEBridge, toy_world)"
        "[OpInitialize ''http://l1'' ''http://l2'', OpStart, OpProcessDeposits, OpProcessWithdrawals]"]
    by (simp add: deposit_session_def)
  from bridge_forwards_nothing [OF this] show ?thesis by (simp add: toy_world_def)
qed

end
