(* ===== verification/HardwareWallet.thy ===== *)
theory HardwareWallet
  imports CxxString WalletTypes "HOL-Library.Monad_Syntax"
begin

text \<open>
  Model of \<^verbatim>\<open>BHTWalletPro/src/hardware/hardware_wallet.cpp\<close> (Windows branch): derivation paths, the report
  and command layers of the device protocol, the operations of \<^verbatim>\<open>CHardwareWallet\<close> and the manager. The
  operating system is the record \<open>hid\<close>, whose functions are indexed by the number of the interaction.
  Accesses outside a buffer and through a null pointer and freeing twice are the faults \<open>out_of_bounds\<close>,
  \<open>null_dereference\<close> and \<open>double_free\<close>; a receiving loop that does not end is \<open>None\<close>.
\<close>

section \<open>Data\<close>

datatype HardwareWalletType = Unknown | Ledger | Trezor | BitBox02 | Keystone | Coldcard | Jade

datatype HardwareError = NoError | NotConnected | DeviceNotFound | Timeout | InvalidData | Denied | Cancelled | UnknownError

datatype hw_fault = out_of_bounds | null_dereference | double_free

text \<open>The type of a device is indeterminate (\<open>None\<close>) when no branch sets it.\<close>

record HardwareWalletInfo =
  info_type :: "HardwareWalletType option"
  info_manufacturer :: string
  info_product :: string
  info_serial_number :: string
  info_path :: string
  info_connected :: bool
  info_has_screen :: "bool option"
  info_has_keypad :: "bool option"
  info_firmware_version :: string

record HWWPath =
  address_n :: "u32 list"
  address_n_count :: nat

record CHardwareWallet =
  hw_type :: HardwareWalletType
  hw_connected :: bool
  hw_initialized :: bool
  hw_has_screen :: bool
  hw_has_keypad :: bool
  hw_firmware_version :: string
  hw_serial_number :: string
  hw_label :: string
  hw_device :: bool
  hw_preparsed :: bool
  hw_out_len :: nat
  hw_in_len :: nat

record hid =
  CreateFile :: "nat \<Rightarrow> string \<Rightarrow> bool"
  GetPreparsedData :: "nat \<Rightarrow> bool"
  GetCaps :: "nat \<Rightarrow> (nat \<times> nat) option"
  WriteReport :: "nat \<Rightarrow> bytes \<Rightarrow> bool"
  ReadReport :: "nat \<Rightarrow> nat \<Rightarrow> bytes option"

text \<open>The number of interactions so far, and the reports written so far.\<close>

record hw_world =
  hw_steps :: nat
  hw_reports :: "bytes list"

definition hw_tick :: "hw_world \<Rightarrow> hw_world" where
  "hw_tick w = w\<lparr>hw_steps := hw_steps w + 1\<rparr>"

section \<open>Commands\<close>

record APDUCommand =
  apdu_cla :: byte
  apdu_ins :: byte
  apdu_p1 :: byte
  apdu_p2 :: byte
  apdu_data_length :: byte
  apdu_data :: bytes

definition APDU_Serialize :: "APDUCommand \<Rightarrow> bytes" where
  "APDU_Serialize c = [apdu_cla c, apdu_ins c, apdu_p1 c, apdu_p2 c, apdu_data_length c] @ apdu_data c"

record APDUResponse =
  status_hi :: byte
  status_lo :: byte
  resp_data :: bytes

definition IsSuccess :: "APDUResponse \<Rightarrow> bool" where
  "IsSuccess r \<longleftrightarrow> status_hi r = 0x90 \<and> status_lo r = 0x6F"

definition IsTimeout :: "APDUResponse \<Rightarrow> bool" where
  "IsTimeout r \<longleftrightarrow> status_hi r = 0x6D \<or> status_lo r = 0x6D"

definition IsCancelled :: "APDUResponse \<Rightarrow> bool" where
  "IsCancelled r \<longleftrightarrow> status_hi r = 0x6E \<or> status_lo r = 0x6E"

definition GetStatus :: "APDUResponse \<Rightarrow> u16" where
  "GetStatus r = push_bit 8 (ucast (status_hi r)) OR ucast (status_lo r)"

section \<open>Paths\<close>

text \<open>The lines \<^verbatim>\<open>std::getline\<close> splits a text into at a slash.\<close>

function getlines :: "string \<Rightarrow> string list" where
  "getlines s =
     (if s = [] then []
      else takeWhile (\<lambda>c. c \<noteq> CHR ''/'') s # getlines (drop 1 (dropWhile (\<lambda>c. c \<noteq> CHR ''/'') s)))"
  by pat_completeness auto
termination
proof (relation "measure length")
  fix s :: string assume "s \<noteq> []"
  then have "length (drop 1 (dropWhile (\<lambda>c. c \<noteq> CHR ''/'') s)) < length s"
    using length_dropWhile_le [of "\<lambda>c. c \<noteq> CHR ''/''" s] by (cases s) (auto simp: le_imp_less_Suc)
  then show "(drop 1 (dropWhile (\<lambda>c. c \<noteq> CHR ''/'') s), s) \<in> measure length" by simp
qed simp

declare getlines.simps [simp del]

definition is_dec :: "char \<Rightarrow> bool" where
  "is_dec c \<longleftrightarrow> 48 \<le> (of_char c :: nat) \<and> (of_char c :: nat) \<le> 57"

definition dec_value :: "string \<Rightarrow> nat" where
  "dec_value s = foldl (\<lambda>n c. 10 * n + ((of_char c :: nat) - 48)) 0 s"

text \<open>\<^verbatim>\<open>std::stoul\<close> with base 10; \<open>W\<close> is the width of \<^verbatim>\<open>unsigned long\<close>, 32 on Windows and 64 elsewhere.\<close>

definition stoul10 :: "nat \<Rightarrow> string \<Rightarrow> nat res" where
  "stoul10 W s =
     (case take_sign (dropWhile is_space s) of
        (neg, r) \<Rightarrow>
          let ds = takeWhile is_dec r; v = dec_value ds
          in if ds = [] then Inl invalid_argument
             else if v \<ge> 2 ^ W then Inl out_of_range
             else Inr (if neg then (2 ^ W - v) mod 2 ^ W else v))"

definition segment_value :: "nat \<Rightarrow> string \<Rightarrow> u32 res" where
  "segment_value W segment =
     (let hardened = (last segment = CHR 0x27 \<or> last segment = CHR ''h'');
          num_str = (if hardened then butlast segment else segment)
      in map_sum id (\<lambda>v. if hardened then of_nat v OR 0x80000000 else of_nat v) (stoul10 W num_str))"

fun parse_segments :: "nat \<Rightarrow> string list \<Rightarrow> u32 list \<Rightarrow> u32 list" where
  "parse_segments W [] acc = acc"
| "parse_segments W (segment # segments) acc =
     (if \<not> length acc < 16 then acc
      else if segment = [] then parse_segments W segments acc
      else (case segment_value W segment of
              Inl e \<Rightarrow> parse_segments W segments acc
            | Inr v \<Rightarrow> parse_segments W segments (acc @ [v])))"

definition Parse :: "nat \<Rightarrow> string \<Rightarrow> HWWPath" where
  "Parse W path_str =
     (let vs = parse_segments W (getlines path_str) []
      in \<lparr>address_n = vs @ replicate (16 - length vs) 0, address_n_count = length vs\<rparr>)"

definition segment_text :: "u32 \<Rightarrow> string" where
  "segment_text addr =
     (if addr AND 0x80000000 \<noteq> 0 then to_base 10 (unat (addr AND 0x7FFFFFFF)) @ [CHR 0x27]
      else to_base 10 (unat addr))"

definition ToString :: "HWWPath \<Rightarrow> string" where
  "ToString p =
     fold (\<lambda>i ss. (if i > 0 then ss @ ''/'' else ss) @ segment_text (address_n p ! i)) [0..<address_n_count p] []"

section \<open>Reports\<close>

definition overwrite :: "nat \<Rightarrow> bytes \<Rightarrow> bytes \<Rightarrow> bytes" where
  "overwrite i src buf = take i buf @ src @ drop (i + length src) buf"

text \<open>
  With an output report length of 0 the subtraction wraps around and everything is copied behind an
  empty buffer.
\<close>

definition sendHIDReport :: "hid \<Rightarrow> CHardwareWallet \<Rightarrow> bytes \<Rightarrow> hw_world \<Rightarrow> (hw_fault + bool) \<times> hw_world" where
  "sendHIDReport H hw data w =
     (if \<not> hw_device hw then (Inr False, w)
      else if hw_out_len hw = 0 then (Inl out_of_bounds, w)
      else let report = overwrite 1 (take (hw_out_len hw - 1) data) (replicate (hw_out_len hw) 0)
           in (Inr (WriteReport H (hw_steps w) report), (hw_tick w)\<lparr>hw_reports := hw_reports w @ [report]\<rparr>))"

text \<open>A report of no bytes leaves \<^verbatim>\<open>data\<close> as it was.\<close>

definition receiveHIDReport :: "hid \<Rightarrow> CHardwareWallet \<Rightarrow> bytes \<Rightarrow> hw_world \<Rightarrow> (bool \<times> bytes) \<times> hw_world" where
  "receiveHIDReport H hw data w =
     (if \<not> hw_device hw then ((False, data), w)
      else (case ReadReport H (hw_steps w) (hw_in_len hw) of
              None \<Rightarrow> ((False, data), hw_tick w)
            | Some report \<Rightarrow> ((True, if report = [] then data else drop 1 report), hw_tick w)))"

function ledger_send :: "hid \<Rightarrow> CHardwareWallet \<Rightarrow> bytes \<Rightarrow> nat \<Rightarrow> bytes \<Rightarrow> hw_world \<Rightarrow> (hw_fault + bool) \<times> hw_world" where
  "ledger_send H hw apdu offset packet w =
     (if offset < length apdu then
        (let chunk = take 63 (drop offset apdu);
             packet = overwrite 1 chunk (packet[0 := if offset = 0 then 0x01 else 0x00])
         in case sendHIDReport H hw packet w of
              (Inl e, w) \<Rightarrow> (Inl e, w)
            | (Inr ok, w) \<Rightarrow> if \<not> ok then (Inr False, w) else ledger_send H hw apdu (offset + length chunk) packet w)
      else (Inr True, w))"
  by pat_completeness auto
termination
  by (relation "measure (\<lambda>(H, hw, apdu, offset, packet, w). length apdu - offset)") auto

declare ledger_send.simps [simp del]

text \<open>The inner loop collects continuation packets until the last one.\<close>

partial_function (option) ledger_continue ::
  "hid \<Rightarrow> CHardwareWallet \<Rightarrow> bytes \<Rightarrow> bytes \<Rightarrow> hw_world \<Rightarrow> ((bool \<times> bytes) \<times> hw_world) option" where
  "ledger_continue H hw reply response_data w =
     (case receiveHIDReport H hw reply w of
        ((ok, reply), w) \<Rightarrow>
          if \<not> ok then Some ((False, response_data), w)
          else if reply = [] then ledger_continue H hw reply response_data w
          else let cont_type = hd reply;
                   response_data = (if cont_type = 0x02 \<or> cont_type = 0x03 then response_data @ tl reply else response_data)
               in if cont_type = 0x03 then Some ((True, response_data), w)
                  else ledger_continue H hw reply response_data w)"

definition drop_status :: "bytes \<Rightarrow> bytes" where
  "drop_status bs = take (length bs - 2) bs"

partial_function (option) ledger_receive ::
  "hid \<Rightarrow> CHardwareWallet \<Rightarrow> hw_world \<Rightarrow> ((bool \<times> bytes) \<times> hw_world) option" where
  "ledger_receive H hw w =
     (case receiveHIDReport H hw [] w of
        ((ok, reply), w) \<Rightarrow>
          if \<not> ok then Some ((False, []), w)
          else if reply = [] then ledger_receive H hw w
          else if hd reply = 0x01 then
            Option.bind (ledger_continue H hw reply [] w)
              (\<lambda>((ok, response_data), w).
                 if \<not> ok then Some ((False, []), w)
                 else if length response_data \<ge> 2 then Some ((True, drop_status response_data), w)
                 else ledger_receive H hw w)
          else if hd reply = 0x03 then
            Some ((True, if length (tl reply) \<ge> 2 then drop_status (tl reply) else tl reply), w)
          else ledger_receive H hw w)"

section \<open>The command exchange\<close>

definition trezor_header :: "bytes \<Rightarrow> bytes" where
  "trezor_header apdu =
     (replicate 64 0)[0 := 0x23, 1 := word_of_nat (length apdu), 2 := word_of_nat (length apdu div 2 ^ 8),
        3 := word_of_nat (length apdu div 2 ^ 16), 4 := word_of_nat (length apdu div 2 ^ 24)]"

type_synonym 'a hw_run = "((hw_fault + 'a) \<times> hw_world) option"

definition exchangeAPDU :: "hid \<Rightarrow> CHardwareWallet \<Rightarrow> byte \<Rightarrow> byte \<Rightarrow> byte \<Rightarrow> byte \<Rightarrow> bytes \<Rightarrow> hw_world \<Rightarrow> (bool \<times> bytes) hw_run" where
  "exchangeAPDU H hw cla ins p1 p2 data w =
     (if hw_type hw = Ledger then
        (case ledger_send H hw ([cla, ins, p1, p2, word_of_nat (length data)] @ data) 0 (replicate 65 0) w of
           (Inl e, w) \<Rightarrow> Some (Inl e, w)
         | (Inr ok, w) \<Rightarrow>
             if \<not> ok then Some (Inr (False, []), w)
             else map_option (\<lambda>(r, w). (Inr r, w)) (ledger_receive H hw w))
      else if hw_type hw = Trezor then
        (let apdu = [cla, ins, p1, p2] @ data
         in if 5 + length apdu > 64 then Some (Inl out_of_bounds, w)
            else (case sendHIDReport H hw (overwrite 5 apdu (trezor_header apdu)) w of
                    (Inl e, w) \<Rightarrow> Some (Inl e, w)
                  | (Inr ok, w) \<Rightarrow>
                      if \<not> ok then Some (Inr (False, []), w)
                      else (case receiveHIDReport H hw [] w of
                              ((ok, reply), w) \<Rightarrow>
                                if \<not> ok then Some (Inr (False, []), w)
                                else if length reply \<ge> 2 then
                                  (if length reply < 3 then Some (Inl out_of_bounds, w)
                                   else Some (Inr (True, take (length reply - 3) (drop 1 reply)), w))
                                else Some (Inr (False, []), w))))
      else Some (Inr (False, []), w))"

section \<open>The device class\<close>

text \<open>Running an exchange and using its answer: faults and loops without end pass through.\<close>

definition with_answer :: "(bool \<times> bytes) hw_run \<Rightarrow> (bool \<Rightarrow> bytes \<Rightarrow> hw_fault + 'a) \<Rightarrow> 'a hw_run" where
  "with_answer r f =
     map_option (\<lambda>(x, w). (case x of Inl e \<Rightarrow> Inl e | Inr (ok, response) \<Rightarrow> f ok response, w)) r"

definition new_CHardwareWallet :: CHardwareWallet where
  "new_CHardwareWallet =
     \<lparr>hw_type = Unknown, hw_connected = False, hw_initialized = False, hw_has_screen = False, hw_has_keypad = False,
      hw_firmware_version = [], hw_serial_number = [], hw_label = [], hw_device = False, hw_preparsed = False,
      hw_out_len = 0, hw_in_len = 0\<rparr>"

text \<open>
  The branches of \<^verbatim>\<open>EnumerateDevices\<close> on the vendor and product number of a device: its type, names and
  whether it has a screen and keys. A Ledger with another product number keeps an indeterminate type and flags.
\<close>

definition classify :: "u16 \<Rightarrow> u16 \<Rightarrow> HardwareWalletType option \<times> string \<times> string \<times> bool option" where
  "classify vid pid =
     (if vid = 0x2C97 then
        (if pid = 1 \<or> pid = 2 \<or> pid = 3 \<or> pid = 4 then (Some Ledger, ''Ledger'', ''Ledger Nano'', Some True)
         else if pid = 5 \<or> pid = 6 then (Some Ledger, ''Ledger'', ''Ledger Stax'', Some True)
         else (None, [], [], None))
      else if vid = 0x1209 then (Some Trezor, ''SatoshiLabs'', ''Trezor'', Some True)
      else if vid = 0x03EB then (Some BitBox02, ''Shift Cryptosecurity'', ''BitBox02'', Some True)
      else if vid = 0x04C4 then (Some Keystone, ''Keystone'', ''Keystone 3'', Some True)
      else if vid = 0x04B4 then (Some Coldcard, ''Coinkite'', ''Coldcard'', Some True)
      else if vid = 0x0483 then (Some Jade, ''Jade'', ''Jade Hardware Wallet'', Some True)
      else (Some Unknown, ''Unknown'', ''Unknown HID Device'', None))"

text \<open>
  What the operating system answers about one HID interface: the path (absent when the details cannot
  be read), whether it opens, the vendor and product number, and three wide strings without their terminators.
\<close>

record hid_interface =
  if_path :: "u16 list option"
  if_opens :: bool
  if_attributes :: "(u16 \<times> u16) option"
  if_serial :: "u16 list option"
  if_product :: "u16 list option"
  if_manufacturer :: "u16 list option"

text \<open>A wide string copied character by character, and a wide string read as a C string of its bytes.\<close>

definition narrow :: "u16 list \<Rightarrow> string" where
  "narrow ws = map (\<lambda>c. char_of (unat (ucast c :: byte))) ws"

definition wide_as_c_string :: "u16 list \<Rightarrow> string" where
  "wide_as_c_string ws =
     map (\<lambda>b. char_of (unat b))
       (takeWhile (\<lambda>b. b \<noteq> 0) (concat (map (\<lambda>c. [ucast c, ucast (drop_bit 8 c)]) ws) :: bytes))"

definition interface_info :: "u16 list \<Rightarrow> u16 \<times> u16 \<Rightarrow> hid_interface \<Rightarrow> HardwareWalletInfo" where
  "interface_info path attrib i =
     (case classify (fst attrib) (snd attrib) of
        (t, manufacturer, product, flag) \<Rightarrow>
          \<lparr>info_type = t,
           info_manufacturer = (case if_manufacturer i of None \<Rightarrow> manufacturer | Some s \<Rightarrow> wide_as_c_string s),
           info_product = (case if_product i of None \<Rightarrow> product | Some s \<Rightarrow> narrow s),
           info_serial_number = (case if_serial i of None \<Rightarrow> [] | Some s \<Rightarrow> narrow s),
           info_path = narrow path, info_connected = True, info_has_screen = flag, info_has_keypad = flag,
           info_firmware_version = []\<rparr>)"

text \<open>An indeterminate type is read as the argument \<open>junk_type\<close>.\<close>

definition EnumerateDevices :: "HardwareWalletType \<Rightarrow> hid_interface list \<Rightarrow> HardwareWalletInfo list" where
  "EnumerateDevices junk_type interfaces =
     fold (\<lambda>i devices.
        case if_path i of
          None \<Rightarrow> devices
        | Some path \<Rightarrow>
            if \<not> if_opens i then devices
            else (case if_attributes i of
                    None \<Rightarrow> devices
                  | Some attrib \<Rightarrow>
                      let info = interface_info path attrib i
                      in if (case info_type info of Some t \<Rightarrow> t | None \<Rightarrow> junk_type) \<noteq> Unknown then devices @ [info] else devices))
       interfaces []"

definition Disconnect :: "CHardwareWallet \<Rightarrow> CHardwareWallet" where
  "Disconnect hw = hw\<lparr>hw_preparsed := False, hw_device := False, hw_connected := False, hw_initialized := False, hw_type := Unknown\<rparr>"

definition initialize :: "hid \<Rightarrow> CHardwareWallet \<Rightarrow> hw_world \<Rightarrow> (bool \<times> CHardwareWallet) hw_run" where
  "initialize H hw w =
     (if \<not> hw_connected hw then Some (Inr (False, hw), w)
      else if hw_type hw = Ledger then
        with_answer (exchangeAPDU H hw 0xE0 0x06 0x00 0x00 [] w)
          (\<lambda>ok _. Inr (ok, if ok then hw\<lparr>hw_initialized := True\<rparr> else hw))
      else if hw_type hw = Trezor then
        with_answer (exchangeAPDU H hw 0x00 0x03 0x00 0x00 ((replicate 64 0)[0 := 0x00, 1 := 0x03]) w)
          (\<lambda>ok _. Inr (ok, if ok then hw\<lparr>hw_initialized := True\<rparr> else hw))
      else Some (Inr (True, hw\<lparr>hw_initialized := True\<rparr>), w))"

definition authenticate :: "CHardwareWallet \<Rightarrow> bool" where
  "authenticate hw = True"

definition version_text :: "bytes \<Rightarrow> string" where
  "version_text r = to_base 10 (unat (r ! 0)) @ ''.'' @ to_base 10 (unat (r ! 1)) @ ''.'' @ to_base 10 (unat (r ! 2))"

definition getDeviceInfo :: "hid \<Rightarrow> CHardwareWallet \<Rightarrow> hw_world \<Rightarrow> (bool \<times> CHardwareWallet) hw_run" where
  "getDeviceInfo H hw w =
     (if hw_type hw = Ledger then
        with_answer (exchangeAPDU H hw 0xE0 0x06 0x00 0x00 [] w)
          (\<lambda>ok response. Inr (True,
             if ok \<and> length response \<ge> 4 then hw\<lparr>hw_firmware_version := version_text response\<rparr> else hw))
      else if hw_type hw = Trezor then Some (Inr (True, hw\<lparr>hw_firmware_version := ''Unknown''\<rparr>), w)
      else Some (Inr (True, hw), w))"

text \<open>An indeterminate flag of the device record is read as the argument \<open>junk\<close>.\<close>

definition Connect :: "hid \<Rightarrow> bool \<Rightarrow> HardwareWalletType \<Rightarrow> HardwareWalletInfo \<Rightarrow> CHardwareWallet \<Rightarrow> hw_world
    \<Rightarrow> (bool \<times> CHardwareWallet) hw_run" where
  "Connect H junk junk_type device hw w =
     (let hw = (if hw_connected hw then Disconnect hw else hw);
          opened = CreateFile H (hw_steps w) (info_path device);
          w = hw_tick w;
          hw = hw\<lparr>hw_device := opened\<rparr>
      in if \<not> opened then Some (Inr (False, hw), w)
         else if \<not> GetPreparsedData H (hw_steps w) then Some (Inr (False, hw\<lparr>hw_device := False\<rparr>), hw_tick w)
         else let w = hw_tick w;
                  hw = hw\<lparr>hw_preparsed := True\<rparr>
              in (case GetCaps H (hw_steps w) of
                    None \<Rightarrow> Some (Inr (False, hw\<lparr>hw_device := False\<rparr>), hw_tick w)
                  | Some (out_len, in_len) \<Rightarrow>
                      let hw = hw\<lparr>hw_out_len := out_len, hw_in_len := in_len,
                                  hw_type := (case info_type device of Some t \<Rightarrow> t | None \<Rightarrow> junk_type),
                                  hw_has_screen := (case info_has_screen device of Some b \<Rightarrow> b | None \<Rightarrow> junk),
                                  hw_has_keypad := (case info_has_keypad device of Some b \<Rightarrow> b | None \<Rightarrow> junk),
                                  hw_connected := True\<rparr>
                      in do {
                           (r, w) \<leftarrow> initialize H hw (hw_tick w);
                           case r of
                             Inl e \<Rightarrow> Some (Inl e, w)
                           | Inr (ok, hw) \<Rightarrow>
                               if \<not> ok then Some (Inr (False, Disconnect hw), w)
                               else if \<not> authenticate hw then Some (Inr (False, Disconnect hw), w)
                               else do {
                                      (r, w) \<leftarrow> getDeviceInfo H hw w;
                                      case r of
                                        Inl e \<Rightarrow> Some (Inl e, w)
                                      | Inr (ok, hw) \<Rightarrow> Some (Inr (ok, if ok then hw else Disconnect hw), w)
                                    }
                         }))"

definition GetFirmwareVersion :: "hid \<Rightarrow> CHardwareWallet \<Rightarrow> hw_world \<Rightarrow> (bool \<times> string) hw_run" where
  "GetFirmwareVersion H hw w =
     (let stored = (hw_firmware_version hw \<noteq> [], hw_firmware_version hw)
      in if \<not> hw_connected hw then Some (Inr (False, []), w)
         else if hw_type hw = Ledger then
           with_answer (exchangeAPDU H hw 0xE0 0x06 0x00 0x00 [] w)
             (\<lambda>ok response. Inr (if ok \<and> length response \<ge> 4 then (True, version_text response) else stored))
         else Some (Inr stored, w))"

definition GetSerialNumber :: "CHardwareWallet \<Rightarrow> bool \<times> string" where
  "GetSerialNumber hw =
     (if \<not> hw_connected hw then (False, []) else (hw_serial_number hw \<noteq> [], hw_serial_number hw))"

definition GetSHA256 :: "ssl \<Rightarrow> bytes \<Rightarrow> bytes" where
  "GetSHA256 S data = ssl_SHA256 S data"

definition computeHmacSHA512 :: "ssl \<Rightarrow> bytes \<Rightarrow> bytes \<Rightarrow> bytes" where
  "computeHmacSHA512 S key data = ssl_HMAC_sha512 S key data"

definition derivePrivateKey :: "HWWPath \<Rightarrow> bytes" where
  "derivePrivateKey path = replicate 32 0x01"

definition be_bytes :: "u32 \<Rightarrow> bytes" where
  "be_bytes addr = [ucast (drop_bit 24 addr), ucast (drop_bit 16 addr), ucast (drop_bit 8 addr), ucast addr]"

definition path_data :: "HWWPath \<Rightarrow> bytes" where
  "path_data path = concat (map (\<lambda>i. be_bytes (address_n path ! i)) [0..<address_n_count path])"

definition counted_path :: "HWWPath \<Rightarrow> bytes" where
  "counted_path path = word_of_nat (address_n_count path) # path_data path"

text \<open>Reading 34 elements of a buffer of 33 is out of bounds.\<close>

definition GetPublicKey :: "hid \<Rightarrow> CHardwareWallet \<Rightarrow> HWWPath \<Rightarrow> hw_world \<Rightarrow> (bool \<times> bytes) hw_run" where
  "GetPublicKey H hw path w =
     (if \<not> hw_connected hw then Some (Inr (False, []), w)
      else if hw_type hw = Ledger then
        with_answer (exchangeAPDU H hw 0xE0 0x02 0x00 0x00 (path_data path) w)
          (\<lambda>ok response.
             if \<not> ok then Inr (False, [])
             else if length response \<ge> 33 then
               (if length response < 34 then Inl out_of_bounds else Inr (True, take 33 (drop 1 response)))
             else Inr (False, []))
      else if hw_type hw = Trezor then
        with_answer (exchangeAPDU H hw 0x00 0x03 0x00 0x00 (counted_path path @ [0x00]) w)
          (\<lambda>ok response.
             if \<not> ok then Inr (False, [])
             else if length response \<ge> 33 then Inr (True, take 33 response)
             else Inr (False, []))
      else Some (Inr (False, []), w))"

section \<open>Addresses\<close>

definition BASE58_ALPHABET :: string where
  "BASE58_ALPHABET = ''123456789ABCDEFGHJKLMNPQRSTUVWXYZabcdefghijkmnopqrstuvwxyz''"

text \<open>One pass over the bytes, from the last to the first: quotients by 58 and the final remainder.\<close>

definition divide_58 :: "bytes \<Rightarrow> bytes \<times> nat" where
  "divide_58 data =
     fold (\<lambda>i (data, carry).
        let temp = unat (data ! (i - 1)) + carry * 256
        in (data[i - 1 := word_of_nat (temp div 58)], temp mod 58)) (rev [1..<length data + 1]) (data, 0)"

definition pop_zeros :: "bytes \<Rightarrow> bytes" where
  "pop_zeros data = rev (dropWhile (\<lambda>b. b = 0) (rev data))"

partial_function (option) base58_loop :: "bytes \<Rightarrow> string \<Rightarrow> string option" where
  "base58_loop data result =
     (if data = [] then Some result
      else (case divide_58 data of
              (data, carry) \<Rightarrow> base58_loop (pop_zeros data) (BASE58_ALPHABET ! carry # result)))"

definition base58_text :: "bytes \<Rightarrow> string option" where
  "base58_text address_data =
     (let leading_zeros = length (takeWhile (\<lambda>b. b = 0) address_data)
      in map_option (\<lambda>r. replicate leading_zeros (CHR ''1'') @ r) (base58_loop (drop leading_zeros address_data) []))"

definition address_payload :: "ssl \<Rightarrow> bytes \<Rightarrow> bytes" where
  "address_payload S public_key =
     (let body = 0x00 # take 20 (ssl_RIPEMD160 S (ssl_SHA256 S public_key))
      in body @ take 4 (ssl_SHA256 S (ssl_SHA256 S body)))"

definition GetAddress :: "ssl \<Rightarrow> hid \<Rightarrow> CHardwareWallet \<Rightarrow> HWWPath \<Rightarrow> hw_world \<Rightarrow> (bool \<times> string) hw_run" where
  "GetAddress S H hw path w =
     (if \<not> hw_connected hw then Some (Inr (False, []), w)
      else do {
             (r, w) \<leftarrow> GetPublicKey H hw path w;
             case r of
               Inl e \<Rightarrow> Some (Inl e, w)
             | Inr (ok, public_key) \<Rightarrow>
                 if \<not> ok then Some (Inr (False, []), w)
                 else do {
                        text \<leftarrow> base58_text (address_payload S public_key);
                        Some (Inr (True, text), w)
                      }
           })"

section \<open>Signatures and the rest of the device\<close>

text \<open>The Ledger branch drops two more bytes after \<^verbatim>\<open>exchangeAPDU\<close> has dropped the status word.\<close>

definition signature_answer :: "HardwareWalletType \<Rightarrow> bool \<Rightarrow> bytes \<Rightarrow> hw_fault + (bool \<times> bytes)" where
  "signature_answer t ok response =
     (if \<not> ok then Inr (False, [])
      else if length response \<ge> 64 then Inr (True, if t = Ledger then drop_status response else response)
      else Inr (False, []))"

definition be_length :: "bytes \<Rightarrow> bytes" where
  "be_length bs = [word_of_nat (length bs div 2 ^ 24), word_of_nat (length bs div 2 ^ 16), word_of_nat (length bs div 2 ^ 8), word_of_nat (length bs)]"

definition SignTransaction :: "hid \<Rightarrow> CHardwareWallet \<Rightarrow> HWWPath \<Rightarrow> bytes \<Rightarrow> hw_world \<Rightarrow> (bool \<times> bytes) hw_run" where
  "SignTransaction H hw path tx_data w =
     (if \<not> hw_connected hw then Some (Inr (False, []), w)
      else if hw_type hw = Ledger then
        with_answer (exchangeAPDU H hw 0xE0 0x04 0x00 0x00 (path_data path @ tx_data) w) (signature_answer Ledger)
      else if hw_type hw = Trezor then
        with_answer (exchangeAPDU H hw 0x00 0x08 0x00 0x00 (counted_path path @ be_length tx_data @ tx_data) w)
          (signature_answer Trezor)
      else Some (Inr (False, []), w))"

definition SignMessage :: "hid \<Rightarrow> CHardwareWallet \<Rightarrow> HWWPath \<Rightarrow> bytes \<Rightarrow> hw_world \<Rightarrow> (bool \<times> bytes) hw_run" where
  "SignMessage H hw path message_data w =
     (if \<not> hw_connected hw then Some (Inr (False, []), w)
      else if hw_type hw = Ledger then
        with_answer (exchangeAPDU H hw 0xE0 0x04 0x00 0x00
            ([0x31, word_of_nat (length message_data + 1)] @ path_data path @ message_data) w) (signature_answer Ledger)
      else if hw_type hw = Trezor then
        with_answer (exchangeAPDU H hw 0x00 0x16 0x00 0x00 (counted_path path @ message_data) w) (signature_answer Trezor)
      else Some (Inr (False, []), w))"

definition DisplayAddress :: "hid \<Rightarrow> CHardwareWallet \<Rightarrow> HWWPath \<Rightarrow> hw_world \<Rightarrow> bool hw_run" where
  "DisplayAddress H hw path w =
     (if \<not> hw_connected hw \<or> \<not> hw_has_screen hw then Some (Inr False, w)
      else if hw_type hw = Ledger then
        with_answer (exchangeAPDU H hw 0xE0 0x0E 0x00 0x00 (path_data path) w) (\<lambda>ok _. Inr ok)
      else if hw_type hw = Trezor then
        with_answer (exchangeAPDU H hw 0x00 0x17 0x00 0x00 (counted_path path @ [0x01]) w) (\<lambda>ok _. Inr ok)
      else Some (Inr False, w))"

definition WipeDevice :: "CHardwareWallet \<Rightarrow> bool" where
  "WipeDevice hw = hw_connected hw"

definition SetupDevice :: "string \<Rightarrow> string \<Rightarrow> CHardwareWallet \<Rightarrow> bool \<times> CHardwareWallet" where
  "SetupDevice label passphrase hw =
     (if \<not> hw_connected hw then (False, hw) else (True, hw\<lparr>hw_label := label\<rparr>))"

definition RestoreDevice :: "string \<Rightarrow> string \<Rightarrow> CHardwareWallet \<Rightarrow> bool" where
  "RestoreDevice mnemonic passphrase hw = hw_connected hw"

definition GetErrorString :: "HardwareError \<Rightarrow> string" where
  "GetErrorString err =
     (case err of
        NoError \<Rightarrow> ''No error''
      | NotConnected \<Rightarrow> ''Hardware wallet is not connected''
      | DeviceNotFound \<Rightarrow> ''Hardware wallet device not found''
      | Timeout \<Rightarrow> ''Communication timeout''
      | InvalidData \<Rightarrow> ''Invalid data received''
      | Denied \<Rightarrow> ''Operation denied by user''
      | Cancelled \<Rightarrow> ''Operation cancelled by user''
      | UnknownError \<Rightarrow> ''Unknown error'')"

section \<open>The manager\<close>

text \<open>
  The list of connected devices holds owning pointers; \<open>None\<close> is a null pointer, which moving a
  pointer out of the list leaves behind. Devices are told apart by the number under which they were created.
\<close>

record CHWWalletManager =
  mgr_enabled :: bool
  mgr_auto_connect :: bool
  mgr_initialized :: bool
  m_connected_devices :: "(nat \<times> CHardwareWallet) option list"
  mgr_created :: nat

definition new_CHWWalletManager :: CHWWalletManager where
  "new_CHWWalletManager = \<lparr>mgr_enabled = True, mgr_auto_connect = True, mgr_initialized = False,
     m_connected_devices = [], mgr_created = 0\<rparr>"

definition mgr_Initialize :: "CHWWalletManager \<Rightarrow> bool \<times> CHWWalletManager" where
  "mgr_Initialize m = (if mgr_initialized m then (True, m) else (True, m\<lparr>mgr_initialized := True\<rparr>))"

definition mgr_Shutdown :: "CHWWalletManager \<Rightarrow> hw_fault + CHWWalletManager" where
  "mgr_Shutdown m =
     (if None \<in> set (m_connected_devices m) then Inl null_dereference
      else Inr (m\<lparr>m_connected_devices := [], mgr_initialized := False\<rparr>))"

definition SetEnabled :: "bool \<Rightarrow> CHWWalletManager \<Rightarrow> CHWWalletManager" where
  "SetEnabled enabled m = m\<lparr>mgr_enabled := enabled\<rparr>"

definition SetAutoConnect :: "bool \<Rightarrow> CHWWalletManager \<Rightarrow> CHWWalletManager" where
  "SetAutoConnect auto_connect m = m\<lparr>mgr_auto_connect := auto_connect\<rparr>"

text \<open>
  When \<^verbatim>\<open>Connect\<close> fails the new object is destroyed, which frees its preparsed data if the pointer is set:
  after \<^verbatim>\<open>HidP_GetCaps\<close> failed the data have already been freed and the pointer has not been reset.
\<close>

definition ConnectDevice :: "hid \<Rightarrow> bool \<Rightarrow> HardwareWalletType \<Rightarrow> HardwareWalletInfo \<Rightarrow> CHWWalletManager \<Rightarrow> hw_world
    \<Rightarrow> ((nat \<times> CHardwareWallet) option \<times> CHWWalletManager) hw_run" where
  "ConnectDevice H junk junk_type device m w =
     do {
       (r, w) \<leftarrow> Connect H junk junk_type device new_CHardwareWallet w;
       case r of
         Inl e \<Rightarrow> Some (Inl e, w)
       | Inr (ok, hw) \<Rightarrow>
           if \<not> ok \<and> hw_preparsed hw then Some (Inl double_free, w)
           else if \<not> ok then Some (Inr (None, m\<lparr>mgr_created := mgr_created m + 1\<rparr>), w)
           else Some (Inr (Some (mgr_created m, hw),
                           m\<lparr>m_connected_devices := m_connected_devices m @ [None], mgr_created := mgr_created m + 1\<rparr>), w)
     }"

text \<open>The pointer of the argument, as the number of the device or null; the first match is removed.\<close>

fun remove_device :: "nat option \<Rightarrow> (nat \<times> CHardwareWallet) option list \<Rightarrow> hw_fault + (nat \<times> CHardwareWallet) option list" where
  "remove_device p [] = Inr []"
| "remove_device p (d # ds) =
     (if map_option fst d = p then (if d = None then Inl null_dereference else Inr ds)
      else map_sum id ((#) d) (remove_device p ds))"

definition DisconnectDevice :: "nat option \<Rightarrow> CHWWalletManager \<Rightarrow> hw_fault + CHWWalletManager" where
  "DisconnectDevice p m =
     map_sum id (\<lambda>ds. m\<lparr>m_connected_devices := ds\<rparr>) (remove_device p (m_connected_devices m))"

end
