(* ===== verification/HardwareProofs.thy ===== *)
theory HardwareProofs
  imports HardwareWallet StateMachine
begin

text \<open>
  Properties of the hardware wallet: derivation paths and their texts, the base 58 text of addresses, the
  packets of the Ledger protocol, connecting to Trezor devices, and the manager of connected devices.
\<close>

section \<open>Derivation paths\<close>

lemma dec_value_snoc: "dec_value (s @ [c]) = 10 * dec_value s + ((of_char c :: nat) - 48)"
  by (simp add: dec_value_def)

lemma dec_digit:
  assumes "d < 10"
  shows "of_char (hex_chars ! d) = (48 + d :: nat)"
proof -
  have "d = 0 \<or> d = 1 \<or> d = 2 \<or> d = 3 \<or> d = 4 \<or> d = 5 \<or> d = 6 \<or> d = 7 \<or> d = 8 \<or> d = 9"
    using assms by presburger
  then show ?thesis by (elim disjE) (simp_all add: hex_chars_def)
qed

lemma dec_value_to_base: "dec_value (to_base 10 n) = n"
proof (induction n rule: less_induct)
  case (less n)
  show ?case
  proof (cases "n < 10")
    case True
    then show ?thesis
      using dec_value_snoc [of "[]" "hex_chars ! n"] by (subst to_base.simps) (simp add: dec_digit dec_value_def)
  next
    case False
    then show ?thesis
      using less [of "n div 10"] by (subst to_base.simps) (simp add: dec_value_snoc dec_digit)
  qed
qed

lemma to_base_dec: "set (to_base 10 n) \<subseteq> Collect is_dec"
proof (induction n rule: less_induct)
  case (less n)
  show ?case
  proof (cases "n < 10")
    case True
    then show ?thesis by (subst to_base.simps) (simp add: dec_digit is_dec_def)
  next
    case False
    have "is_dec (hex_chars ! (n mod 10))" using mod_less_divisor [of 10 n] by (simp add: is_dec_def dec_digit)
    with False show ?thesis using less [of "n div 10"] by (subst to_base.simps) simp
  qed
qed

lemma to_base_nonempty: "to_base b n \<noteq> []"
  by (subst to_base.simps) simp

lemma is_dec_facts: "is_dec c \<Longrightarrow> \<not> is_space c \<and> c \<noteq> CHR ''-'' \<and> c \<noteq> CHR ''+'' \<and> c \<noteq> CHR ''/'' \<and> c \<noteq> CHR 0x27 \<and> c \<noteq> CHR ''h''"
  by (auto simp: is_dec_def is_space_def Let_def)

lemma stoul10_to_base:
  assumes "n < 2 ^ W"
  shows "stoul10 W (to_base 10 n) = Inr n"
proof -
  obtain c cs where s: "to_base 10 n = c # cs" using to_base_nonempty [of 10 n] by (cases "to_base 10 n") auto
  then have c: "is_dec c" using to_base_dec [of n] by auto
  have "takeWhile is_dec (to_base 10 n) = to_base 10 n"
    using to_base_dec [of n] by (intro takeWhile_eq_all_conv [THEN iffD2]) auto
  then show ?thesis
    using is_dec_facts [OF c] assms s dec_value_to_base [of n]
    by (simp add: stoul10_def take_sign_def Let_def)
qed

lemma segment_text_chars: "segment_text a \<noteq> [] \<and> CHR ''/'' \<notin> set (segment_text a)"
proof -
  have "CHR ''/'' \<notin> set (to_base 10 n)" for n using to_base_dec [of n] is_dec_facts by blast
  then show ?thesis using to_base_nonempty by (simp add: segment_text_def)
qed

lemma hardened_bits:
  fixes a :: u32
  assumes "a AND 0x80000000 \<noteq> 0"
  shows "(a AND 0x7FFFFFFF) OR 0x80000000 = a"
proof -
  have m: "(0x80000000 :: u32) = 2 ^ 31" by simp
  have "bit a 31" using assms and_exp_eq_0_iff_not_bit [of a 31] unfolding m by blast
  have "(a AND 0x7FFFFFFF) OR 0x80000000 = (a OR 0x80000000) AND (0x7FFFFFFF OR 0x80000000)"
    by (rule bit.disj_conj_distrib2)
  also have "(0x7FFFFFFF OR 0x80000000 :: u32) = -1" by simp
  also have "(a OR 0x80000000) AND -1 = a OR 2 ^ 31" by simp
  also have "\<dots> = a"
    by (rule bit_word_eqI) (use \<open>bit a 31\<close> in \<open>auto simp only: bit_or_iff bit_exp_iff\<close>)
  finally show ?thesis .
qed

lemma segment_value_text:
  assumes "32 \<le> W"
  shows "segment_value W (segment_text a) = Inr a"
proof -
  have W: "(2 :: nat) ^ 32 \<le> 2 ^ W" using assms by (intro power_increasing) simp_all
  have small: "unat b < 2 ^ W" for b :: u32
    using unsigned_less [where ?'a = nat, of b] W by simp
  show ?thesis
  proof (cases "a AND 0x80000000 \<noteq> 0")
    case True
    show ?thesis
      using True small hardened_bits [OF True] by (simp add: segment_value_def segment_text_def stoul10_to_base)
  next
    case False
    obtain l where l: "last (to_base 10 (unat a)) = l" "is_dec l"
      using to_base_dec [of "unat a"] last_in_set [OF to_base_nonempty [of 10 "unat a"]] by auto
    show ?thesis
      using False small is_dec_facts [OF l(2)] l(1) by (simp add: segment_value_def segment_text_def stoul10_to_base)
  qed
qed

text \<open>Texts separated by slashes.\<close>

fun joined :: "string list \<Rightarrow> string" where
  "joined [] = []"
| "joined [x] = x"
| "joined (x # y # xs) = x @ ''/'' @ joined (y # xs)"

lemma joined_snoc: "joined (xs @ [y]) = (if xs = [] then y else joined xs @ ''/'' @ y)"
  by (induction xs rule: joined.induct) auto

lemma ToString_joined: "ToString p = joined (map (\<lambda>i. segment_text (address_n p ! i)) [0..<address_n_count p])"
proof -
  have "fold (\<lambda>i ss. (if i > 0 then ss @ ''/'' else ss) @ segment_text (address_n p ! i)) [0..<n] [] =
    joined (map (\<lambda>i. segment_text (address_n p ! i)) [0..<n])" for n
    by (induction n) (auto simp: joined_snoc)
  then show ?thesis by (simp add: ToString_def)
qed

lemma getlines_joined: "\<forall>x\<in>set xs. x \<noteq> [] \<and> CHR ''/'' \<notin> set x \<Longrightarrow> getlines (joined xs) = xs"
proof (induction xs rule: joined.induct)
  case 1
  show ?case by (simp add: getlines.simps)
next
  case (2 x)
  then have "takeWhile (\<lambda>c. c \<noteq> CHR ''/'') x = x" "dropWhile (\<lambda>c. c \<noteq> CHR ''/'') x = []" by auto
  moreover have "getlines [] = []" by (subst getlines.simps) simp
  ultimately show ?case using 2 by (subst getlines.simps) (simp del: dropWhile_eq_Nil_conv takeWhile_eq_all_conv)
next
  case (3 x y xs)
  then have x: "CHR ''/'' \<notin> set x" "x \<noteq> []" by auto
  then have "takeWhile (\<lambda>c. c \<noteq> CHR ''/'') (x @ CHR ''/'' # joined (y # xs)) = x"
    "dropWhile (\<lambda>c. c \<noteq> CHR ''/'') (x @ CHR ''/'' # joined (y # xs)) = CHR ''/'' # joined (y # xs)"
    by (auto simp: takeWhile_tail dropWhile_append3 takeWhile_append2)
  with 3 x show ?case by (subst getlines.simps) simp
qed

lemma parse_segments_texts:
  "32 \<le> W \<Longrightarrow> length acc + length as \<le> 16 \<Longrightarrow> parse_segments W (map segment_text as) acc = acc @ as"
  by (induction as arbitrary: acc) (auto simp: segment_text_chars segment_value_text)

definition valid_path :: "HWWPath \<Rightarrow> bool" where
  "valid_path p \<longleftrightarrow> length (address_n p) = 16 \<and> address_n_count p \<le> 16 \<and> list_all (\<lambda>a. a = 0) (drop (address_n_count p) (address_n p))"

text \<open>
  C26. Printing and reading paths: a path of at most 16 steps is read back from its text, hardened
  steps included, where \<^verbatim>\<open>unsigned long\<close> has 32 or 64 bits.
\<close>

theorem path_roundtrip:
  assumes "valid_path p" and "32 \<le> W"
  shows "Parse W (ToString p) = p"
proof -
  let ?n = "address_n_count p" and ?as = "address_n p"
  have l: "length ?as = 16" "?n \<le> 16" using assms(1) by (auto simp: valid_path_def)
  have take: "map (\<lambda>i. segment_text (?as ! i)) [0..<?n] = map segment_text (take ?n ?as)"
    using l by (intro nth_equalityI) auto
  have "getlines (ToString p) = map segment_text (take ?n ?as)"
    unfolding ToString_joined take using segment_text_chars by (intro getlines_joined) auto
  then have "parse_segments W (getlines (ToString p)) [] = take ?n ?as"
    using parse_segments_texts [of W "[]" "take ?n ?as"] assms(2) l by simp
  moreover have "take ?n ?as @ replicate (16 - ?n) 0 = ?as"
  proof -
    have "drop ?n ?as = replicate (16 - ?n) 0"
      using assms(1) l by (intro replicate_eqI) (auto simp: valid_path_def list_all_iff)
    then show ?thesis by (metis append_take_drop_id)
  qed
  ultimately show ?thesis using l by (simp add: Parse_def Let_def min_def)
qed

theorem path_roundtrip_witness:
  "Parse 32 (ToString \<lparr>address_n = [0x8000002C, 0x80000000, 0x80000000, 0, 7] @ replicate 11 0, address_n_count = 5\<rparr>) =
     \<lparr>address_n = [0x8000002C, 0x80000000, 0x80000000, 0, 7] @ replicate 11 0, address_n_count = 5\<rparr>"
  by (rule path_roundtrip) (simp_all add: valid_path_def list_all_iff)

section \<open>Addresses\<close>

text \<open>The little-endian and the big-endian number of a list of bytes.\<close>

fun le_number :: "bytes \<Rightarrow> nat" where
  "le_number [] = 0"
| "le_number (b # bs) = unat b + 256 * le_number bs"

definition be_number :: "bytes \<Rightarrow> nat" where
  "be_number bs = foldl (\<lambda>n b. 256 * n + unat b) 0 bs"

text \<open>The digits of a number in base 58, and the Base58 text of a list of bytes.\<close>

fun digits_58 :: "nat \<Rightarrow> string" where
  "digits_58 n = (if n = 0 then [] else digits_58 (n div 58) @ [BASE58_ALPHABET ! (n mod 58)])"

declare digits_58.simps [simp del]

definition base58_of :: "bytes \<Rightarrow> string" where
  "base58_of bs =
     replicate (length (takeWhile (\<lambda>b. b = 0) bs)) (CHR ''1'') @ digits_58 (be_number (dropWhile (\<lambda>b. b = 0) bs))"

lemma byte_less: "unat (b :: byte) < 256"
  using unsigned_less [where ?'a = nat, of b] by simp

lemma le_number_snoc: "le_number (bs @ [b]) = le_number bs + 256 ^ length bs * unat b"
  by (induction bs) (simp_all add: algebra_simps)

lemma be_number_rev: "be_number bs = le_number (rev bs)"
proof (induction bs rule: rev_induct)
  case (snoc b bs)
  then show ?case by (simp add: be_number_def)
qed (simp add: be_number_def)

lemma le_number_inj: "length xs = length ys \<Longrightarrow> le_number xs = le_number ys \<Longrightarrow> xs = ys"
proof (induction xs ys rule: list_induct2)
  case (Cons x xs y ys)
  have "unat x = le_number (x # xs) mod 256" "unat y = le_number (y # ys) mod 256"
    using byte_less by simp_all
  with Cons.prems have x: "unat x = unat y" by metis
  with Cons show ?case by (simp add: word_unat_eq_iff)
qed simp

lemma le_number_zero: "le_number bs = 0 \<longleftrightarrow> (\<forall>b\<in>set bs. b = 0)"
  by (induction bs) (auto simp: unat_eq_0)

text \<open>One pass divides the little-endian number by 58.\<close>

definition division_step :: "nat \<Rightarrow> bytes \<times> nat \<Rightarrow> bytes \<times> nat" where
  "division_step i s =
     (let temp = unat (fst s ! (i - 1)) + snd s * 256
      in ((fst s)[i - 1 := word_of_nat (temp div 58)], temp mod 58))"

lemma divide_58_steps: "divide_58 data = fold division_step (rev [1..<length data + 1]) (data, 0)"
  unfolding divide_58_def by (rule fold_cong) (auto simp: division_step_def)

lemma regroup: "q * 58 + r = t \<Longrightarrow> 58 * (q + 256 * l) + r = t + 256 * (58 * l)" for q r t l :: nat
  by (simp add: algebra_simps)

lemma division_suffix:
  assumes "n \<le> length data"
  shows "case fold division_step (rev [n + 1..<length data + 1]) (data, 0) of
     (data', carry) \<Rightarrow> length data' = length data \<and> take n data' = take n data \<and> carry < 58 \<and>
       58 * le_number (drop n data') + carry = le_number (drop n data)"
  using assms
proof (induction "length data - n" arbitrary: n)
  case 0
  then show ?case by simp
next
  case (Suc k)
  then have n: "n < length data" by simp
  obtain d c where d: "fold division_step (rev [n + 2..<length data + 1]) (data, 0) = (d, c)" by fastforce
  with Suc.hyps(1) [of "n + 1"] Suc.hyps(2) n
  have IH: "length d = length data" "take (n + 1) d = take (n + 1) data" "c < 58"
    "58 * le_number (drop (n + 1) d) + c = le_number (drop (n + 1) data)" by auto
  have dn: "d ! n = data ! n" using IH(2) n by (metis less_add_one nth_take)
  let ?t = "unat (data ! n) + c * 256"
  have up: "[n + 1..<length data + 1] = (n + 1) # [n + 2..<length data + 1]" using n by (simp add: upt_rec)
  have f: "fold division_step (rev [n + 1..<length data + 1]) (data, 0) = (d[n := word_of_nat (?t div 58)], ?t mod 58)"
    unfolding up using d dn by (simp add: division_step_def Let_def)
  have small: "?t div 58 < 256" using byte_less [of "data ! n"] IH(3) by (simp add: less_mult_imp_div_less)
  have q: "unat (word_of_nat (?t div 58) :: byte) = ?t div 58" using small by (simp add: unsigned_of_nat take_bit_nat_eq_self)
  have dd: "drop n (d[n := word_of_nat (?t div 58)]) = word_of_nat (?t div 58) # drop (n + 1) d"
    using n IH(1) by (simp add: drop_update_swap Cons_nth_drop_Suc [symmetric])
  have orig: "drop n data = data ! n # drop (n + 1) data" using n by (simp add: Cons_nth_drop_Suc)
  have "58 * (?t div 58 + 256 * le_number (drop (n + 1) d)) + ?t mod 58 = ?t + 256 * (58 * le_number (drop (n + 1) d))"
    by (rule regroup) (rule div_mult_mod_eq)
  also have "\<dots> = unat (data ! n) + 256 * le_number (drop (n + 1) data)" using IH(4) by linarith
  finally have num: "58 * (?t div 58 + 256 * le_number (drop (n + 1) d)) + ?t mod 58 = le_number (drop n data)"
    using orig by simp
  have tk: "take n (d[n := word_of_nat (?t div 58)]) = take n data"
    using IH(2) by (metis le_add1 min.absorb1 take_take take_update_cancel order_refl)
  show ?case unfolding f using dd q num tk IH(1) by simp
qed

lemma divide_58_number:
  assumes "divide_58 data = (data', carry)"
  shows "length data' = length data" "le_number data' = le_number data div 58" "carry = le_number data mod 58"
proof -
  have *: "length data' = length data" "carry < 58" "58 * le_number data' + carry = le_number data"
    using division_suffix [of 0 data] assms by (simp_all add: divide_58_steps)
  show "length data' = length data" by (rule *(1))
  show "le_number data' = le_number data div 58" "carry = le_number data mod 58"
    using *(2,3) by (metis div_mult_self4 div_less add_0 add.commute mult.commute less_numeral_extra(3) zero_less_numeral div_mult_self1 , metis mod_less mod_mult_self2 add.commute mult.commute)
qed

lemma le_number_append: "le_number (xs @ ys) = le_number xs + 256 ^ length xs * le_number ys"
  by (induction xs) (simp_all add: algebra_simps)

lemma pop_zeros_number: "le_number (pop_zeros data) = le_number data"
proof -
  have "data = pop_zeros data @ rev (takeWhile (\<lambda>b. b = 0) (rev data))"
    unfolding pop_zeros_def by (metis rev_append rev_rev_ident takeWhile_dropWhile_id)
  moreover have "le_number (rev (takeWhile (\<lambda>b. b = 0) (rev data))) = 0"
    by (auto simp: le_number_zero dest: set_takeWhileD)
  ultimately show ?thesis by (metis add.right_neutral le_number_append mult_0_right)
qed

lemma pop_zeros_positive: "pop_zeros data \<noteq> [] \<Longrightarrow> 0 < le_number (pop_zeros data)"
proof -
  assume ne: "pop_zeros data \<noteq> []"
  then have "dropWhile (\<lambda>b. b = 0) (rev data) \<noteq> []" by (simp add: pop_zeros_def)
  from hd_dropWhile [OF this] ne have "last (pop_zeros data) \<noteq> 0" by (simp add: pop_zeros_def last_rev)
  with ne have "\<not> (\<forall>b\<in>set (pop_zeros data). b = 0)" using last_in_set by blast
  then show ?thesis using le_number_zero [of "pop_zeros data"] by blast
qed

lemma base58_loop_digits:
  "(data \<noteq> [] \<longrightarrow> 0 < le_number data) \<Longrightarrow> base58_loop data result = Some (digits_58 (le_number data) @ result)"
proof (induction "le_number data" arbitrary: data result rule: less_induct)
  case less
  show ?case
  proof (cases "data = []")
    case True
    then show ?thesis by (subst base58_loop.simps) (simp add: digits_58.simps)
  next
    case False
    obtain d c where d: "divide_58 data = (d, c)" by fastforce
    note n = divide_58_number [OF d]
    have pos: "0 < le_number data" using less.prems False by simp
    then have "le_number (pop_zeros d) < le_number data" by (simp add: pop_zeros_number n)
    from less.hyps [OF this, of "BASE58_ALPHABET ! c # result"] pop_zeros_positive [of d]
    have "base58_loop (pop_zeros d) (BASE58_ALPHABET ! c # result) =
      Some (digits_58 (le_number data div 58) @ BASE58_ALPHABET ! (le_number data mod 58) # result)"
      by (auto simp: pop_zeros_number n)
    moreover have "digits_58 (le_number data) = digits_58 (le_number data div 58) @ [BASE58_ALPHABET ! (le_number data mod 58)]"
      using pos by (subst digits_58.simps) simp
    ultimately show ?thesis using False d by (subst base58_loop.simps) simp
  qed
qed

lemma drop_zeros: "drop (length (takeWhile P xs)) xs = dropWhile P xs"
  by (rule dropWhile_eq_drop [symmetric])

lemma base58_text_digits:
  "base58_text bs = Some (replicate (length (takeWhile (\<lambda>b. b = 0) bs)) (CHR ''1'') @ digits_58 (le_number (dropWhile (\<lambda>b. b = 0) bs)))"
proof -
  let ?d = "dropWhile (\<lambda>b. b = 0) bs"
  have "0 < le_number ?d" if "?d \<noteq> []"
  proof -
    have "hd ?d \<noteq> 0" "hd ?d \<in> set ?d" using that hd_dropWhile [of "\<lambda>b. b = 0" bs] by auto
    then show ?thesis using le_number_zero [of ?d] by blast
  qed
  then have "base58_loop ?d [] = Some (digits_58 (le_number ?d))"
    using base58_loop_digits [of ?d "[]"] by simp
  then show ?thesis by (simp add: base58_text_def Let_def drop_zeros)
qed

lemma alphabet_distinct: "distinct BASE58_ALPHABET" "length BASE58_ALPHABET = 58"
  by (simp_all add: BASE58_ALPHABET_def)

lemma digits_58_inj: "digits_58 m = digits_58 n \<Longrightarrow> m = n"
proof (induction m arbitrary: n rule: less_induct)
  case (less m)
  have empty: "digits_58 k = [] \<longleftrightarrow> k = 0" for k by (subst digits_58.simps) simp
  show ?case
  proof (cases "m = 0 \<or> n = 0")
    case True
    with less.prems show ?thesis using empty by metis
  next
    case False
    then have e: "digits_58 (m div 58) @ [BASE58_ALPHABET ! (m mod 58)] = digits_58 (n div 58) @ [BASE58_ALPHABET ! (n mod 58)]"
      using less.prems digits_58.simps [of m] digits_58.simps [of n] by simp
    then have "m mod 58 = n mod 58" using nth_eq_iff_index_eq [OF alphabet_distinct(1), of "m mod 58" "n mod 58"] alphabet_distinct(2) by simp
    moreover have "m div 58 = n div 58" using less.IH [of "m div 58" "n div 58"] e False by simp
    ultimately show ?thesis by (metis div_mult_mod_eq)
  qed
qed

text \<open>
  C25. The address text: the loop always ends, and prints the digits in base 58 of the little-endian
  number of the bytes after the leading zeros. It is the Base58 text of the bytes, which reads them as a
  big-endian number, exactly when those bytes read the same from both ends.
\<close>

theorem address_text:
  "base58_text bs = Some (replicate (length (takeWhile (\<lambda>b. b = 0) bs)) (CHR ''1'') @ digits_58 (le_number (dropWhile (\<lambda>b. b = 0) bs))) \<and>
   (base58_text bs = Some (base58_of bs) \<longleftrightarrow> rev (dropWhile (\<lambda>b. b = 0) bs) = dropWhile (\<lambda>b. b = 0) bs)"
proof -
  let ?d = "dropWhile (\<lambda>b. b = 0) bs"
  have "base58_text bs = Some (base58_of bs) \<longleftrightarrow> le_number ?d = le_number (rev ?d)"
    using digits_58_inj by (auto simp: base58_text_digits base58_of_def be_number_rev)
  also have "\<dots> \<longleftrightarrow> rev ?d = ?d" using le_number_inj [of ?d "rev ?d"] by auto
  finally show ?thesis using base58_text_digits by blast
qed

section \<open>The Ledger protocol\<close>

text \<open>The part of a report that carries a piece of the command.\<close>

definition carried :: "bytes \<Rightarrow> bytes" where
  "carried report = take 63 (drop 2 report)"

lemma overwrite_length: "i + length src \<le> length buf \<Longrightarrow> length (overwrite i src buf) = length buf"
  by (simp add: overwrite_def)

lemma overwrite_1: "length src < length buf \<Longrightarrow> overwrite 1 src buf = hd buf # src @ drop (Suc (length src)) buf"
  by (cases buf) (simp_all add: overwrite_def)

lemma packet_report:
  fixes m :: byte
  assumes "65 \<le> n" and "length packet = 65" and "length chunk \<le> 63"
  defines "p \<equiv> overwrite 1 chunk (packet[0 := m])"
  shows "length p = 65"
    and "length (overwrite 1 (take (n - 1) p) (replicate n 0)) = n"
    and "overwrite 1 (take (n - 1) p) (replicate n 0) ! 0 = 0"
    and "overwrite 1 (take (n - 1) p) (replicate n 0) ! 1 = m"
    and "take (length chunk) (carried (overwrite 1 (take (n - 1) p) (replicate n 0))) = chunk"
    and "length (carried (overwrite 1 (take (n - 1) p) (replicate n 0))) = 63"
proof -
  obtain x xs where px: "packet = x # xs" using assms(2) by (cases packet) auto
  have p: "p = m # chunk @ drop (length chunk) xs"
    using assms(3,2) px by (simp add: p_def overwrite_def)
  show lp: "length p = 65" using p px assms(2,3) by simp
  obtain k where k: "n = Suc k" "64 \<le> k" using assms(1) by (cases n) auto
  have r: "overwrite 1 (take (n - 1) p) (replicate n 0) = 0 # take k p @ drop (length (take k p)) (replicate k 0)"
    using k by (simp add: overwrite_def)
  obtain j where j: "k = Suc j" "63 \<le> j" using k(2) by (cases k) auto
  have tk: "take k p = m # take j (chunk @ drop (length chunk) xs)" using p j by simp
  let ?c = "chunk @ drop (length chunk) xs"
  have lc: "length ?c = 64" using px assms(2,3) by simp
  show "length (overwrite 1 (take (n - 1) p) (replicate n 0)) = n" unfolding r using k lp by simp
  show "overwrite 1 (take (n - 1) p) (replicate n 0) ! 0 = 0" unfolding r by simp
  show "overwrite 1 (take (n - 1) p) (replicate n 0) ! 1 = m" unfolding r tk by simp
  have c: "carried (overwrite 1 (take (n - 1) p) (replicate n 0)) = take 63 ?c"
    unfolding carried_def r tk using j lc assms(3) by (simp add: min_def)
  show "take (length chunk) (carried (overwrite 1 (take (n - 1) p) (replicate n 0))) = chunk"
    unfolding c using assms(3) by simp
  show "length (carried (overwrite 1 (take (n - 1) p) (replicate n 0))) = 63" unfolding c using lc by simp
qed

lemma take_step: "c = d \<Longrightarrow> n = length d + m \<Longrightarrow> take m xs = ys \<Longrightarrow> take n (c @ xs) = d @ ys"
  by simp

lemma take_last: "take k c = d \<Longrightarrow> length c = 63 \<Longrightarrow> k \<le> 63 \<Longrightarrow> take k (c @ xs) = d"
  by simp

lemma div_step: "n = a + 63 \<Longrightarrow> n div 63 = Suc (a div 63)" for a n :: nat
  by simp

lemma ledger_send_reports:
  assumes "hw_device hw" and "65 \<le> hw_out_len hw" and "\<And>n r. WriteReport H n r"
    and "length packet = 65" and "offset \<le> length apdu"
  shows "\<exists>rs. ledger_send H hw apdu offset packet w =
      (Inr True, w\<lparr>hw_steps := hw_steps w + length rs, hw_reports := hw_reports w @ rs\<rparr>) \<and>
    length rs = (length apdu - offset + 62) div 63 \<and>
    take (length apdu - offset) (concat (map carried rs)) = drop offset apdu \<and>
    (\<forall>i<length rs. length (rs ! i) = hw_out_len hw \<and> rs ! i ! 0 = 0 \<and> rs ! i ! 1 = (if offset = 0 \<and> i = 0 then 1 else 0))"
  using assms(4,5)
proof (induction "length apdu - offset" arbitrary: offset packet w rule: less_induct)
  case less
  show ?case
  proof (cases "offset < length apdu")
    case False
    then show ?thesis using less.prems by (subst ledger_send.simps) simp
  next
    case True
    let ?chunk = "take 63 (drop offset apdu)" and ?m = "if offset = 0 then 1 else 0 :: byte"
    let ?p = "overwrite 1 ?chunk (packet[0 := ?m])"
    let ?r = "overwrite 1 (take (hw_out_len hw - 1) ?p) (replicate (hw_out_len hw) 0)"
    let ?o = "offset + length ?chunk"
    let ?w = "w\<lparr>hw_steps := hw_steps w + 1, hw_reports := hw_reports w @ [?r]\<rparr>"
    have c63: "length ?chunk \<le> 63" by simp
    note facts = packet_report [OF assms(2) less.prems(1) c63, of ?m]
    have send: "sendHIDReport H hw ?p w = (Inr True, ?w)"
      using assms(1-3) by (simp add: sendHIDReport_def hw_tick_def Let_def)
    have l: "length ?chunk = min 63 (length apdu - offset)" by (simp add: min.commute)
    have dec: "length apdu - ?o < length apdu - offset" and le: "?o \<le> length apdu" using l True by linarith+
    from less.hyps [OF dec facts(1) le, of ?w] obtain rs where
      rs: "ledger_send H hw apdu ?o ?p ?w = (Inr True, ?w\<lparr>hw_steps := hw_steps ?w + length rs, hw_reports := hw_reports ?w @ rs\<rparr>)"
        "length rs = (length apdu - ?o + 62) div 63"
        "take (length apdu - ?o) (concat (map carried rs)) = drop ?o apdu"
        "\<forall>i<length rs. length (rs ! i) = hw_out_len hw \<and> rs ! i ! 0 = 0 \<and> rs ! i ! 1 = (if ?o = 0 \<and> i = 0 then 1 else 0)"
      by blast
    have "ledger_send H hw apdu offset packet w = ledger_send H hw apdu ?o ?p ?w"
      using True send by (subst ledger_send.simps) (simp add: Let_def)
    then have run: "ledger_send H hw apdu offset packet w =
      (Inr True, w\<lparr>hw_steps := hw_steps w + length (?r # rs), hw_reports := hw_reports w @ ?r # rs\<rparr>)"
      using rs(1) by simp
    have len: "length (?r # rs) = (length apdu - offset + 62) div 63"
    proof (cases "63 \<le> length apdu - offset")
      case True
      then have "length apdu - offset + 62 = (length apdu - ?o + 62) + 63" using l by simp
      note step = div_step [OF this]
      have "length (?r # rs) = Suc ((length apdu - ?o + 62) div 63)" by (simp only: rs(2) list.size(4) add_Suc_right add_0_right)
      then show ?thesis using step by (rule trans [OF _ sym])
    next
      case False
      then have "length apdu - ?o = 0" "1 \<le> length apdu - offset" "length apdu - offset < 63" using l True by simp_all
      then show ?thesis using rs(2) by simp
    qed
    have body: "take (length apdu - offset) (concat (map carried (?r # rs))) = drop offset apdu"
    proof (cases "63 \<le> length apdu - offset")
      case True
      then have "carried ?r = ?chunk" using facts(5,6) l by simp
      moreover have "length apdu - offset = length ?chunk + (length apdu - ?o)" using True l by simp
      ultimately have "take (length apdu - offset) (concat (map carried (?r # rs))) = ?chunk @ drop ?o apdu"
        using take_step [OF _ _ rs(3)] by (simp only: list.map concat.simps)
      moreover have o: "?o = 63 + offset" using True l by linarith
      have "?chunk @ drop ?o apdu = drop offset apdu"
        unfolding o by (simp only: drop_drop [symmetric] append_take_drop_id)
      ultimately show ?thesis by (rule trans)
    next
      case False
      then have "length apdu - offset = length ?chunk" "?chunk = drop offset apdu" using l by simp_all
      then show ?thesis using take_last [OF facts(5) facts(6) c63] by (simp only: list.map concat.simps)
    qed
    have "\<forall>i<length (?r # rs). length ((?r # rs) ! i) = hw_out_len hw \<and> (?r # rs) ! i ! 0 = 0 \<and>
        (?r # rs) ! i ! 1 = (if offset = 0 \<and> i = 0 then 1 else 0)"
    proof (intro allI impI)
      fix i assume i: "i < length (?r # rs)"
      have "?o \<noteq> 0" using True by simp
      then show "length ((?r # rs) ! i) = hw_out_len hw \<and> (?r # rs) ! i ! 0 = 0 \<and> (?r # rs) ! i ! 1 = (if offset = 0 \<and> i = 0 then 1 else 0)"
        using i rs(4) facts(2-4) by (cases i) (use True in auto)
    qed
    with run len body show ?thesis by blast
  qed
qed

text \<open>
  The packets a device sends from interaction \<open>n\<close> on: each report is a report number, the type of the
  packet and its payload.
\<close>

fun device_sends :: "hid \<Rightarrow> nat \<Rightarrow> nat \<Rightarrow> (byte \<times> bytes) list \<Rightarrow> bool" where
  "device_sends H in_len n [] = True"
| "device_sends H in_len n (p # ps) =
     ((\<exists>rid. ReadReport H n in_len = Some (rid # fst p # snd p)) \<and> device_sends H in_len (Suc n) ps)"

lemma receive_packet:
  assumes "hw_device hw" and "device_sends H (hw_in_len hw) (hw_steps w) (p # ps)"
  shows "receiveHIDReport H hw data w = ((True, fst p # snd p), hw_tick w)"
  using assms by (auto simp: receiveHIDReport_def device_sends.simps)

lemma ledger_continue_packets:
  assumes "hw_device hw" and "device_sends H (hw_in_len hw) (hw_steps w) (map (Pair 2) ps @ [(3, q)])"
  shows "ledger_continue H hw reply acc w = Some ((True, acc @ concat ps @ q), w\<lparr>hw_steps := hw_steps w + length ps + 1\<rparr>)"
  using assms(2)
proof (induction ps arbitrary: reply acc w)
  case Nil
  then show ?case
    using receive_packet [OF assms(1), of H w "(3, q)" "[]" reply] by (subst ledger_continue.simps) (simp add: hw_tick_def)
next
  case (Cons p ps)
  then have "device_sends H (hw_in_len hw) (hw_steps (hw_tick w)) (map (Pair 2) ps @ [(3, q)])"
    by (simp add: device_sends.simps hw_tick_def)
  from Cons.IH [OF this] Cons.prems receive_packet [OF assms(1), of H w "(2, p)" "map (Pair 2) ps @ [(3, q)]" reply]
  show ?case by (subst ledger_continue.simps) (simp add: hw_tick_def)
qed

lemma ledger_receive_packets:
  assumes "hw_device hw" and "device_sends H (hw_in_len hw) (hw_steps w) ((1, p0) # map (Pair 2) ps @ [(3, q)])"
    and "2 \<le> length (concat ps @ q)"
  shows "ledger_receive H hw w = Some ((True, drop_status (concat ps @ q)), w\<lparr>hw_steps := hw_steps w + length ps + 2\<rparr>)"
proof -
  have "device_sends H (hw_in_len hw) (hw_steps (hw_tick w)) (map (Pair 2) ps @ [(3, q)])"
    using assms(2) by (simp add: device_sends.simps hw_tick_def)
  from ledger_continue_packets [OF assms(1) this, of "1 # p0" "[]"] receive_packet [OF assms(1,2), of "[]"] assms(3)
  show ?thesis by (subst ledger_receive.simps) (simp add: hw_tick_def)
qed

definition sign_command :: "HWWPath \<Rightarrow> bytes \<Rightarrow> bytes" where
  "sign_command path tx = [0xE0, 0x04, 0x00, 0x00, word_of_nat (length (path_data path @ tx))] @ path_data path @ tx"

lemma drop_status_twice: "drop_status (drop_status bs) = take (length bs - 4) bs"
  by (auto simp: drop_status_def min_def)

text \<open>
  C24. Signing on a Ledger: when the device takes every report and answers with a first packet, continuation
  packets and a last packet of together at least 66 bytes, then the reports carry the command in pieces of 63
  bytes, and the signature returned is the answer without its last four bytes: two for the status word and
  two more of the signature. The payload of the first packet is lost.
\<close>

theorem ledger_signature:
  assumes "hw_connected hw" and "hw_type hw = Ledger" and "hw_device hw" and "65 \<le> hw_out_len hw"
    and "\<And>n r. WriteReport H n r"
    and "device_sends H (hw_in_len hw) (hw_steps w + (length (sign_command path tx) + 62) div 63)
       ((1, p0) # map (Pair 2) ps @ [(3, q)])"
    and "66 \<le> length (concat ps @ q)"
  shows "\<exists>rs w'. SignTransaction H hw path tx w = Some (Inr (True, take (length (concat ps @ q) - 4) (concat ps @ q)), w') \<and>
    hw_reports w' = hw_reports w @ rs \<and>
    take (length (sign_command path tx)) (concat (map carried rs)) = sign_command path tx"
proof -
  let ?c = "sign_command path tx" and ?b = "concat ps @ q"
  from ledger_send_reports [OF assms(3-5), of "replicate 65 0" 0 ?c w] obtain rs where
    send: "ledger_send H hw ?c 0 (replicate 65 0) w = (Inr True, w\<lparr>hw_steps := hw_steps w + length rs, hw_reports := hw_reports w @ rs\<rparr>)"
    and n: "length rs = (length ?c + 62) div 63" and body: "take (length ?c) (concat (map carried rs)) = ?c"
    by auto
  let ?w = "w\<lparr>hw_steps := hw_steps w + length rs, hw_reports := hw_reports w @ rs\<rparr>"
  have "device_sends H (hw_in_len hw) (hw_steps ?w) ((1, p0) # map (Pair 2) ps @ [(3, q)])"
    using assms(6) n by (simp del: device_sends.simps)
  moreover have "2 \<le> length ?b" using assms(7) by linarith
  ultimately have receive: "ledger_receive H hw ?w =
      Some ((True, drop_status ?b), ?w\<lparr>hw_steps := hw_steps ?w + length ps + 2\<rparr>)"
    by (intro ledger_receive_packets [OF assms(3)])
  have "exchangeAPDU H hw 0xE0 0x04 0x00 0x00 (path_data path @ tx) w =
      Some (Inr (True, drop_status ?b), ?w\<lparr>hw_steps := hw_steps ?w + length ps + 2\<rparr>)"
    using send receive assms(2) by (simp add: exchangeAPDU_def sign_command_def)
  moreover have "64 \<le> length (drop_status ?b)" using assms(7) by (simp add: drop_status_def)
  ultimately show ?thesis using body assms(1,2)
    by (simp add: SignTransaction_def with_answer_def signature_answer_def drop_status_twice)
qed

text \<open>A device that accepts every report and answers from interaction 1 on.\<close>

definition sample_hid :: hid where
  "sample_hid = \<lparr>CreateFile = (\<lambda>n p. True), GetPreparsedData = (\<lambda>n. True), GetCaps = (\<lambda>n. Some (65, 65)),
     WriteReport = (\<lambda>n r. True),
     ReadReport = (\<lambda>n l. if n = 1 then Some [0, 1, 7] else if n = 2 then Some ([0, 2] @ replicate 62 5)
       else if n = 3 then Some ([0, 3] @ [1, 2, 3, 4, 5, 6, 0x90, 0x00]) else None)\<rparr>"

definition sample_ledger :: CHardwareWallet where
  "sample_ledger = new_CHardwareWallet\<lparr>hw_connected := True, hw_type := Ledger, hw_device := True, hw_out_len := 65, hw_in_len := 65\<rparr>"

definition sample_path :: HWWPath where
  "sample_path = \<lparr>address_n = 44 # replicate 15 0, address_n_count = 1\<rparr>"

theorem ledger_signature_witness:
  "\<exists>rs w'. SignTransaction sample_hid sample_ledger sample_path [1, 2] \<lparr>hw_steps = 0, hw_reports = []\<rparr> =
      Some (Inr (True, replicate 62 5 @ [1, 2, 3, 4]), w') \<and>
    hw_reports w' = rs \<and> take 11 (concat (map carried rs)) = [0xE0, 0x04, 0x00, 0x00, 6, 0, 0, 0, 44, 1, 2]"
proof -
  let ?w = "\<lparr>hw_steps = 0, hw_reports = []\<rparr> :: hw_world" and ?q = "[1, 2, 3, 4, 5, 6, 0x90, 0x00] :: bytes"
  have c: "sign_command sample_path [1, 2] = [0xE0, 0x04, 0x00, 0x00, 6, 0, 0, 0, 44, 1, 2]"
    by (simp add: sample_path_def sign_command_def path_data_def be_bytes_def)
  have s: "device_sends sample_hid (hw_in_len sample_ledger) (hw_steps ?w + (length (sign_command sample_path [1, 2]) + 62) div 63)
    ((1, [7]) # map (Pair 2) [replicate 62 5] @ [(3, ?q)])"
    unfolding c by (simp add: sample_hid_def)
  have b: "take (length (concat [replicate 62 5] @ ?q) - 4) (concat [replicate 62 5] @ ?q) = replicate 62 5 @ [1, 2, 3, 4]"
    by simp
  have "66 \<le> length (concat [replicate 62 5] @ ?q)" by simp
  then have "\<exists>rs w'. SignTransaction sample_hid sample_ledger sample_path [1, 2] ?w =
      Some (Inr (True, take (length (concat [replicate 62 5] @ ?q) - 4) (concat [replicate 62 5] @ ?q)), w') \<and>
    hw_reports w' = hw_reports ?w @ rs \<and>
    take (length (sign_command sample_path [1, 2])) (concat (map carried rs)) = sign_command sample_path [1, 2]"
    by (intro ledger_signature [OF _ _ _ _ _ s]) (simp_all add: sample_ledger_def sample_hid_def)
  then show ?thesis unfolding c b by (simp add: eval_nat_numeral)
qed

section \<open>Trezor devices\<close>

text \<open>
  No Trezor connects: \<^verbatim>\<open>Connect\<close> to a device of that type returns false or, as soon as the device opens and
  reports its capabilities, writes behind the 64 bytes of the request.
\<close>

theorem trezor_never_connects:
  assumes "info_type device = Some Trezor"
  shows "\<exists>r w'. Connect H junk junk_type device hw w = Some (r, w') \<and>
    (r = Inl out_of_bounds \<or> (\<exists>hw'. r = Inr (False, hw'))) \<and>
    (r = Inl out_of_bounds \<longleftrightarrow> CreateFile H (hw_steps w) (info_path device) \<and> GetPreparsedData H (hw_steps w + 1) \<and>
       GetCaps H (hw_steps w + 2) \<noteq> None)"
proof (cases "CreateFile H (hw_steps w) (info_path device) \<and> GetPreparsedData H (hw_steps w + 1)")
  case True
  show ?thesis
  proof (cases "GetCaps H (hw_steps w + 2)")
    case None
    then show ?thesis using True by (simp add: Connect_def Let_def hw_tick_def)
  next
    case (Some lens)
    then show ?thesis
      using True assms by (cases lens) (simp add: Connect_def Let_def hw_tick_def initialize_def with_answer_def exchangeAPDU_def)
  qed
next
  case False
  then show ?thesis by (auto simp: Connect_def Let_def hw_tick_def)
qed

definition sample_trezor :: HardwareWalletInfo where
  "sample_trezor = \<lparr>info_type = Some Trezor, info_manufacturer = [], info_product = [], info_serial_number = [], info_path = [],
     info_connected = True, info_has_screen = Some True, info_has_keypad = Some True, info_firmware_version = []\<rparr>"

theorem trezor_never_connects_witness:
  "\<exists>r w'. Connect sample_hid True Unknown sample_trezor new_CHardwareWallet \<lparr>hw_steps = 0, hw_reports = []\<rparr> = Some (r, w') \<and> r = Inl out_of_bounds"
  using trezor_never_connects [of sample_trezor sample_hid True Unknown new_CHardwareWallet "\<lparr>hw_steps = 0, hw_reports = []\<rparr>"]
  by (auto simp: sample_trezor_def sample_hid_def)

section \<open>The manager\<close>

datatype mgr_op = OpInitialize | OpShutdown | OpConnect HardwareWalletInfo | OpDisconnect "nat option" | OpSetEnabled bool | OpSetAutoConnect bool

datatype mgr_result = Done | Connected "nat \<times> CHardwareWallet" | Refused | Faulted hw_fault | Unanswered

text \<open>An operation that reaches a fault or never returns leaves the state as it was: the program does not continue.\<close>

fun mgr_exec :: "hid \<Rightarrow> bool \<Rightarrow> HardwareWalletType \<Rightarrow> mgr_op \<Rightarrow> CHWWalletManager \<times> hw_world \<Rightarrow> mgr_result \<times> (CHWWalletManager \<times> hw_world)" where
  "mgr_exec H junk junk_type OpInitialize (m, w) = (Done, (snd (mgr_Initialize m), w))"
| "mgr_exec H junk junk_type OpShutdown (m, w) =
     (case mgr_Shutdown m of Inl e \<Rightarrow> (Faulted e, (m, w)) | Inr m \<Rightarrow> (Done, (m, w)))"
| "mgr_exec H junk junk_type (OpConnect device) (m, w) =
     (case ConnectDevice H junk junk_type device m w of
        None \<Rightarrow> (Unanswered, (m, w))
      | Some (Inl e, w') \<Rightarrow> (Faulted e, (m, w))
      | Some (Inr (None, m), w) \<Rightarrow> (Refused, (m, w))
      | Some (Inr (Some d, m), w) \<Rightarrow> (Connected d, (m, w)))"
| "mgr_exec H junk junk_type (OpDisconnect p) (m, w) =
     (case DisconnectDevice p m of Inl e \<Rightarrow> (Faulted e, (m, w)) | Inr m \<Rightarrow> (Done, (m, w)))"
| "mgr_exec H junk junk_type (OpSetEnabled b) (m, w) = (Done, (SetEnabled b m, w))"
| "mgr_exec H junk junk_type (OpSetAutoConnect b) (m, w) = (Done, (SetAutoConnect b m, w))"

definition connects :: "(mgr_op \<times> mgr_result) list \<Rightarrow> nat" where
  "connects tr = length (filter (\<lambda>(op, r). case r of Connected d \<Rightarrow> True | _ \<Rightarrow> False) tr)"

lemma remove_device_nulls:
  "remove_device p (replicate k None) =
     (case p of Some d \<Rightarrow> Inr (replicate k None) | None \<Rightarrow> if k = 0 then Inr [] else Inl null_dereference)"
  by (induction k) (auto split: option.splits)

lemma ConnectDevice_devices:
  assumes "ConnectDevice H junk junk_type device m w = Some (Inr (r, m'), w')"
  shows "m_connected_devices m' = (if r = None then m_connected_devices m else m_connected_devices m @ [None])"
proof -
  obtain x w1 where c: "Connect H junk junk_type device new_CHardwareWallet w = Some (x, w1)"
    using assms by (cases "Connect H junk junk_type device new_CHardwareWallet w") (auto simp: ConnectDevice_def)
  show ?thesis
  proof (cases x)
    case (Inr y)
    then show ?thesis using assms c by (cases y) (auto simp: ConnectDevice_def split: if_splits)
  qed (use assms c in \<open>simp add: ConnectDevice_def\<close>)
qed

lemma mgr_exec_devices:
  assumes "mgr_exec H junk junk_type op (m, w) = (r, (m', w'))" and "m_connected_devices m = replicate k None"
  shows "m_connected_devices m' = replicate (k + (case r of Connected d \<Rightarrow> 1 | _ \<Rightarrow> 0)) None"
proof (cases op)
  case (OpConnect device)
  with assms show ?thesis
    by (auto simp: replicate_append_same dest!: ConnectDevice_devices split: option.splits sum.splits)
next
  case (OpDisconnect p)
  with assms show ?thesis
    by (auto simp: DisconnectDevice_def remove_device_nulls split: option.splits sum.splits if_splits)
next
  case OpShutdown
  with assms show ?thesis by (auto simp: mgr_Shutdown_def split: if_splits)
qed (use assms in \<open>auto simp: mgr_Initialize_def SetEnabled_def SetAutoConnect_def split: if_splits\<close>)

lemma manager_devices:
  assumes "run (mgr_exec H junk junk_type) (new_CHWWalletManager, w0) tr s"
  shows "m_connected_devices (fst s) = replicate (connects tr) None"
  using assms
proof (induction rule: run.induct)
  case run_start
  show ?case by (simp add: connects_def new_CHWWalletManager_def)
next
  case (run_step tr s op r s')
  then show ?case
    using mgr_exec_devices [of H junk junk_type op "fst s" "snd s" r "fst s'" "snd s'" "connects tr"]
    by (cases r) (simp_all add: connects_def)
qed

text \<open>
  The manager keeps a null pointer for every device it hands out: in every run, disconnecting a device it
  has handed out changes nothing, and once a device has been connected \<^verbatim>\<open>Shutdown\<close> (also the destructor's
  call of it) follows a null pointer.
\<close>

theorem manager_loses_devices:
  assumes "run (mgr_exec H junk junk_type) (new_CHWWalletManager, w0) tr (m, w)"
  shows "(\<forall>d. DisconnectDevice (Some d) m = Inr m) \<and>
    mgr_Shutdown m = (if connects tr = 0 then Inr (m\<lparr>m_connected_devices := [], mgr_initialized := False\<rparr>) else Inl null_dereference)"
  using manager_devices [OF assms]
  by (auto simp: DisconnectDevice_def remove_device_nulls mgr_Shutdown_def)

definition sample_bitbox :: HardwareWalletInfo where
  "sample_bitbox = sample_trezor\<lparr>info_type := Some BitBox02\<rparr>"

theorem manager_loses_devices_witness:
  "\<exists>tr m w. run (mgr_exec sample_hid True Unknown) (new_CHWWalletManager, \<lparr>hw_steps = 0, hw_reports = []\<rparr>) tr (m, w) \<and>
     connects tr = 1 \<and> mgr_Shutdown m = Inl null_dereference"
proof -
  let ?s = "(new_CHWWalletManager, \<lparr>hw_steps = 0, hw_reports = []\<rparr>)"
  obtain tr m w where e: "exec_all (mgr_exec sample_hid True Unknown) [OpInitialize, OpConnect sample_bitbox] ?s = (tr, (m, w))"
    by (metis prod.exhaust)
  from run_of_exec_all [OF e] have r: "run (mgr_exec sample_hid True Unknown) ?s tr (m, w)" .
  have "connects tr = 1" using e
    by (auto simp: connects_def ConnectDevice_def Connect_def initialize_def getDeviceInfo_def authenticate_def sample_bitbox_def
        sample_trezor_def sample_hid_def new_CHardwareWallet_def Let_def)
  with manager_loses_devices [OF r] r show ?thesis by auto
qed

section \<open>Names of devices\<close>

text \<open>The manufacturer of a device is cut after its first letter: the wide string is read as a string of bytes.\<close>

lemma manufacturer_cut:
  fixes c :: u16
  assumes "drop_bit 8 c = 0" and "c \<noteq> 0"
  shows "wide_as_c_string (c # ws) = [char_of (unat c)]"
proof -
  have "(ucast (drop_bit 8 c) :: byte) = 0" using assms(1) by simp
  moreover have small: "unat c < 256"
  proof -
    have "push_bit 8 (drop_bit 8 c) + take_bit 8 c = c" by (rule bits_ident)
    then have "c = take_bit 8 c" using assms(1) by simp
    then have "unat c = unat (take_bit 8 c)" by simp
    then show ?thesis using take_bit_nat_less_exp [of 8 "unat c"] by (simp add: unsigned_take_bit_eq)
  qed
  moreover have "unat (ucast c :: byte) = unat c" using small by (simp add: unsigned_ucast_eq take_bit_nat_eq_self)
  moreover from this have "(ucast c :: byte) \<noteq> 0" using assms(2) by (metis unat_eq_0 unsigned_0)
  ultimately show ?thesis by (simp add: wide_as_c_string_def)
qed

end
