(* ===== verification/WalletSigner.thy ===== *)
theory WalletSigner
  imports WalletTypes "HOL-Library.Monad_Syntax"
begin

text \<open>
  Model of \<^verbatim>\<open>BHTWalletPro/src/crypto/mldsa_signer.cpp\<close>: the wallet's ML-DSA signer, which calls liboqs when
  the build has it and hashes with SHA-256 otherwise, and the hybrid signer that adds ECDSA. The
  libraries are parameters: liboqs (the record \<open>sig_lib\<close>), the digests of OpenSSL (\<open>ssl\<close>) and its elliptic
  curve functions (\<open>ec_lib\<close>). Accesses outside a buffer are the fault \<open>buffer_overrun\<close>.
\<close>

section \<open>Libraries\<close>

datatype MLDSALevel = Level2 | Level3 | Level5

datatype signer_fault = buffer_overrun | null_key

text \<open>
  \<open>sig_new\<close> fails in a build without liboqs; a key pair and a signature are what the library writes and
  whether it reports success; its random input is a number.
\<close>

record 'alg sig_lib =
  sig_new :: "MLDSALevel \<Rightarrow> 'alg option"
  length_public_key :: "'alg \<Rightarrow> nat"
  length_secret_key :: "'alg \<Rightarrow> nat"
  sig_keypair :: "'alg \<Rightarrow> nat \<Rightarrow> bool \<times> bytes \<times> bytes"
  sig_sign :: "'alg \<Rightarrow> bytes \<Rightarrow> bytes \<Rightarrow> bytes option"
  sig_verify :: "'alg \<Rightarrow> bytes \<Rightarrow> bytes \<Rightarrow> bytes \<Rightarrow> bool"

text \<open>
  Whether the curve exists; the bytes written for the point of a scalar; what \<^verbatim>\<open>ECDSA_do_sign\<close> does when it
  is given no key; and \<^verbatim>\<open>ECDSA_do_verify\<close> on a digest, the two halves of a signature and a public key.
\<close>

record ec_lib =
  ec_group :: bool
  ec_point :: "bytes \<Rightarrow> bytes"
  ec_sign_without_key :: "bytes \<Rightarrow> signer_fault + (bytes \<times> bytes) option"
  ec_verify :: "bytes \<Rightarrow> bytes \<Rightarrow> bytes \<Rightarrow> bytes \<Rightarrow> bool"

section \<open>The signer\<close>

record 'alg CMLDSASigner =
  sg_level :: MLDSALevel
  sg_has_key :: bool
  sg_public_key :: bytes
  sg_private_key :: bytes
  sg_sig :: "'alg option"

fun GetSignatureSizeForLevel :: "MLDSALevel \<Rightarrow> nat" where
  "GetSignatureSizeForLevel Level2 = 2420"
| "GetSignatureSizeForLevel Level3 = 3293"
| "GetSignatureSizeForLevel Level5 = 4595"

fun GetPublicKeySizeForLevel :: "MLDSALevel \<Rightarrow> nat" where
  "GetPublicKeySizeForLevel Level2 = 1312"
| "GetPublicKeySizeForLevel Level3 = 1952"
| "GetPublicKeySizeForLevel Level5 = 2592"

fun GetPrivateKeySizeForLevel :: "MLDSALevel \<Rightarrow> nat" where
  "GetPrivateKeySizeForLevel Level2 = 2560"
| "GetPrivateKeySizeForLevel Level3 = 4032"
| "GetPrivateKeySizeForLevel Level5 = 4896"

definition GetSignatureSize :: "'alg CMLDSASigner \<Rightarrow> nat" where
  "GetSignatureSize c = GetSignatureSizeForLevel (sg_level c)"

definition GetPublicKeySize :: "'alg CMLDSASigner \<Rightarrow> nat" where
  "GetPublicKeySize c = GetPublicKeySizeForLevel (sg_level c)"

definition GetPrivateKeySize :: "'alg CMLDSASigner \<Rightarrow> nat" where
  "GetPrivateKeySize c = GetPrivateKeySizeForLevel (sg_level c)"

definition resize :: "nat \<Rightarrow> bytes \<Rightarrow> bytes" where
  "resize n bs = take n bs @ replicate (n - length bs) 0"

definition write_front :: "bytes \<Rightarrow> bytes \<Rightarrow> bytes" where
  "write_front src buf = src @ drop (length src) buf"

definition new_CMLDSASigner :: "'alg sig_lib \<Rightarrow> MLDSALevel \<Rightarrow> 'alg CMLDSASigner" where
  "new_CMLDSASigner L level =
     (let base = \<lparr>sg_level = level, sg_has_key = False, sg_public_key = [], sg_private_key = [], sg_sig = None\<rparr>
      in case sig_new L level of
           None \<Rightarrow> base
         | Some alg \<Rightarrow> base\<lparr>sg_sig := Some alg, sg_public_key := resize (length_public_key L alg) [],
                           sg_private_key := resize (length_secret_key L alg) []\<rparr>)"

text \<open>The library writes as many bytes as its keys have; shorter buffers, as after \<^verbatim>\<open>ClearKeys\<close>, are overrun.\<close>

definition GenerateKeyPair :: "'alg sig_lib \<Rightarrow> ssl \<Rightarrow> nat \<Rightarrow> bytes option \<Rightarrow> 'alg CMLDSASigner
    \<Rightarrow> signer_fault + bool \<times> 'alg CMLDSASigner" where
  "GenerateKeyPair L S rnd rand c =
     (case sg_sig c of
        Some alg \<Rightarrow>
          (case sig_keypair L alg rnd of
             (ok, pk, sk) \<Rightarrow>
               if length (sg_public_key c) < length pk \<or> length (sg_private_key c) < length sk then Inl buffer_overrun
               else let c = c\<lparr>sg_public_key := write_front pk (sg_public_key c), sg_private_key := write_front sk (sg_private_key c)\<rparr>
                    in if ok then Inr (True, c\<lparr>sg_has_key := True\<rparr>) else Inr (False, c))
      | None \<Rightarrow>
          let c = c\<lparr>sg_public_key := resize (GetPublicKeySize c) (sg_public_key c),
                    sg_private_key := resize (GetPrivateKeySize c) (sg_private_key c)\<rparr>
          in case rand of
               None \<Rightarrow> Inr (False, c)
             | Some r \<Rightarrow>
                 let c = c\<lparr>sg_private_key := write_front r (sg_private_key c)\<rparr>
                 in Inr (True, c\<lparr>sg_public_key := write_front (ssl_SHA256 S (sg_private_key c)) (sg_public_key c), sg_has_key := True\<rparr>))"

definition SetKeyPair :: "bytes \<Rightarrow> bytes \<Rightarrow> 'alg CMLDSASigner \<Rightarrow> bool \<times> 'alg CMLDSASigner" where
  "SetKeyPair private_key public_key c =
     (if length private_key \<noteq> GetPrivateKeySize c \<or> length public_key \<noteq> GetPublicKeySize c then (False, c)
      else (True, c\<lparr>sg_private_key := private_key, sg_public_key := public_key, sg_has_key := True\<rparr>))"

text \<open>
  \<^verbatim>\<open>OQS_SIG_sign\<close> writes into a buffer of \<^verbatim>\<open>GetSignatureSize()\<close> bytes and \<^verbatim>\<open>OQS_SIG_sign\<close> and \<^verbatim>\<open>OQS_SIG_verify\<close> read
  keys of the library's lengths.
\<close>

definition Sign :: "'alg sig_lib \<Rightarrow> ssl \<Rightarrow> bytes \<Rightarrow> 'alg CMLDSASigner \<Rightarrow> signer_fault + bytes" where
  "Sign L S message c =
     (if \<not> sg_has_key c then Inr []
      else (case sg_sig c of
              Some alg \<Rightarrow>
                if length (sg_private_key c) < length_secret_key L alg then Inl buffer_overrun
                else (case sig_sign L alg message (sg_private_key c) of
                        None \<Rightarrow> Inr []
                      | Some signature \<Rightarrow>
                          if GetSignatureSize c < length signature then Inl buffer_overrun else Inr signature)
            | None \<Rightarrow> Inr (ssl_SHA256 S (ssl_SHA256 S message @ sg_private_key c) @ sg_public_key c)))"

definition SignInPlace :: "'alg sig_lib \<Rightarrow> ssl \<Rightarrow> bytes \<Rightarrow> 'alg CMLDSASigner \<Rightarrow> signer_fault + bool \<times> bytes" where
  "SignInPlace L S data c =
     map_sum id (\<lambda>signature. if signature = [] then (False, data) else (True, data @ signature)) (Sign L S data c)"

definition Verify :: "'alg sig_lib \<Rightarrow> bytes \<Rightarrow> bytes \<Rightarrow> 'alg CMLDSASigner \<Rightarrow> signer_fault + bool" where
  "Verify L message signature c =
     (if signature = [] \<or> sg_public_key c = [] then Inr False
      else (case sg_sig c of
              Some alg \<Rightarrow>
                if length (sg_public_key c) < length_public_key L alg then Inl buffer_overrun
                else Inr (sig_verify L alg message signature (sg_public_key c))
            | None \<Rightarrow>
                if length signature < 32 then Inr False
                else Inr (drop 32 signature = sg_public_key c)))"

definition ClearKeys :: "'alg CMLDSASigner \<Rightarrow> 'alg CMLDSASigner" where
  "ClearKeys c = c\<lparr>sg_private_key := [], sg_public_key := [], sg_has_key := False\<rparr>"

text \<open>The names of the algorithms, where \<open>use_mldsa\<close> and \<open>macros\<close> say what the build defines.\<close>

datatype signer_algorithm = OQS_dilithium MLDSALevel | Dilithium3 | Dilithium3_Fallback

definition getAlgorithmName :: "bool \<Rightarrow> bool \<Rightarrow> 'alg CMLDSASigner \<Rightarrow> signer_algorithm" where
  "getAlgorithmName use_mldsa macros c =
     (if use_mldsa then (if macros then OQS_dilithium (sg_level c) else Dilithium3) else Dilithium3_Fallback)"

section \<open>The hybrid signer\<close>

record 'alg CMLDSAHybridSigner =
  m_mldsa_signer :: "'alg CMLDSASigner"
  m_has_ecdsa_key :: bool
  m_has_mldsa_key :: bool
  m_ecdsa_private :: bytes
  m_ecdsa_public :: bytes
  m_mldsa_private :: bytes
  m_mldsa_public :: bytes

definition new_CMLDSAHybridSigner :: "'alg sig_lib \<Rightarrow> MLDSALevel \<Rightarrow> 'alg CMLDSAHybridSigner" where
  "new_CMLDSAHybridSigner L level =
     \<lparr>m_mldsa_signer = new_CMLDSASigner L level, m_has_ecdsa_key = False, m_has_mldsa_key = False, m_ecdsa_private = [],
      m_ecdsa_public = [], m_mldsa_private = [], m_mldsa_public = []\<rparr>"

definition hybrid_GenerateKeyPair :: "'alg sig_lib \<Rightarrow> ssl \<Rightarrow> ec_lib \<Rightarrow> nat \<Rightarrow> bytes option \<Rightarrow> bytes option \<Rightarrow> 'alg CMLDSAHybridSigner
    \<Rightarrow> signer_fault + bool \<times> 'alg CMLDSAHybridSigner" where
  "hybrid_GenerateKeyPair L S E rnd rand rand_ec h =
     (case GenerateKeyPair L S rnd rand (m_mldsa_signer h) of
        Inl e \<Rightarrow> Inl e
      | Inr (ok, c) \<Rightarrow>
          let priv = resize 32 (m_ecdsa_private h);
              priv = (case rand_ec of None \<Rightarrow> priv | Some r \<Rightarrow> write_front r priv);
              pub = resize 33 (m_ecdsa_public h);
              h = h\<lparr>m_has_ecdsa_key := True, m_has_mldsa_key := ok, m_mldsa_signer := c, m_ecdsa_private := priv, m_ecdsa_public := pub\<rparr>
          in if \<not> ec_group E then Inr (False, h)
             else Inr (ok, h\<lparr>m_ecdsa_public := write_front (ec_point E priv) pub\<rparr>))"

definition hybrid_SetKeyPair :: "bytes \<Rightarrow> bytes \<Rightarrow> bytes \<Rightarrow> bytes \<Rightarrow> 'alg CMLDSAHybridSigner \<Rightarrow> bool \<times> 'alg CMLDSAHybridSigner" where
  "hybrid_SetKeyPair ecdsa_private ecdsa_public mldsa_private mldsa_public h =
     (case SetKeyPair mldsa_private mldsa_public (m_mldsa_signer h) of
        (ok, c) \<Rightarrow>
          let has_ecdsa = (ecdsa_private \<noteq> [] \<and> ecdsa_public \<noteq> [])
          in (has_ecdsa \<and> ok,
              h\<lparr>m_ecdsa_private := ecdsa_private, m_ecdsa_public := ecdsa_public, m_mldsa_private := mldsa_private,
                m_mldsa_public := mldsa_public, m_has_ecdsa_key := has_ecdsa, m_has_mldsa_key := ok, m_mldsa_signer := c\<rparr>))"

text \<open>The ECDSA key is read into a number that is not used: the signing call gets a null key.\<close>

definition hybrid_Sign :: "'alg sig_lib \<Rightarrow> ssl \<Rightarrow> ec_lib \<Rightarrow> bytes \<Rightarrow> bool \<Rightarrow> 'alg CMLDSAHybridSigner \<Rightarrow> signer_fault + bytes" where
  "hybrid_Sign L S E message hybrid h =
     (case (if hybrid \<and> m_has_mldsa_key h then Sign L S message (m_mldsa_signer h) else Inr []) of
        Inl e \<Rightarrow> Inl e
      | Inr signature \<Rightarrow>
          if \<not> m_has_ecdsa_key h then Inr signature
          else if length (m_ecdsa_private h) < 32 then Inl buffer_overrun
          else (case ec_sign_without_key E (ssl_SHA256 S message) of
                  Inl e \<Rightarrow> Inl e
                | Inr None \<Rightarrow> Inr signature
                | Inr (Some (r, s)) \<Rightarrow> Inr (signature @ r @ s)))"

definition hybrid_Verify :: "'alg sig_lib \<Rightarrow> ssl \<Rightarrow> ec_lib \<Rightarrow> bytes \<Rightarrow> bytes \<Rightarrow> bool \<Rightarrow> 'alg CMLDSAHybridSigner \<Rightarrow> signer_fault + bool" where
  "hybrid_Verify L S E message signature hybrid h =
     (let mldsa_sig_size = GetSignatureSizeForLevel (sg_level (m_mldsa_signer h));
          mldsa = (if hybrid \<and> m_has_mldsa_key h \<and> length signature \<ge> mldsa_sig_size
                   then Verify L message (take mldsa_sig_size signature) (m_mldsa_signer h) else Inr True)
      in case mldsa of
           Inl e \<Rightarrow> Inl e
         | Inr False \<Rightarrow> Inr False
         | Inr True \<Rightarrow>
             if \<not> m_has_ecdsa_key h then Inr True
             else let offset = (if hybrid \<and> m_has_mldsa_key h then mldsa_sig_size else 0)
                  in if length signature < offset + 64 then Inr True
                     else if length (m_ecdsa_public h) < 33 then Inl buffer_overrun
                     else Inr (ec_verify E (ssl_SHA256 S message) (take 32 (drop offset signature))
                            (take 32 (drop (offset + 32) signature)) (take 33 (m_ecdsa_public h))))"

section \<open>The build without liboqs\<close>

lemma size_bounds: "32 \<le> GetPublicKeySizeForLevel l" "32 + GetPublicKeySizeForLevel l + 64 < GetSignatureSizeForLevel l"
  by (cases l; simp)+

lemma resize_length: "length (resize n bs) = n"
  by (simp add: resize_def)

lemma write_front_length: "length src \<le> length buf \<Longrightarrow> length (write_front src buf) = length buf"
  by (simp add: write_front_def)

lemma generated_fallback:
  assumes "ssl_ok S" and "sg_sig c = None" and "GenerateKeyPair L S rnd (Some r) c = Inr (ok, c')"
  shows "ok \<and> sg_sig c' = None \<and> sg_has_key c' \<and> sg_level c' = sg_level c \<and> length (sg_public_key c') = GetPublicKeySize c"
proof -
  have "length (ssl_SHA256 S m) \<le> length (resize (GetPublicKeySizeForLevel (sg_level c)) bs)" for m bs
    using assms(1) size_bounds(1) by (simp add: ssl_ok_def resize_length)
  from write_front_length [OF this] show ?thesis
    using assms(2,3) by (auto simp: GenerateKeyPair_def Let_def GetPublicKeySize_def resize_length)
qed

lemma suffix_length:
  assumes "drop n xs = ys" and "ys \<noteq> []"
  shows "length xs = n + length ys"
proof -
  have "n < length xs" using assms by (metis drop_all linorder_not_less)
  moreover have "length xs - n = length ys" using assms(1) by (metis length_drop)
  ultimately show ?thesis by linarith
qed

lemma fallback_Verify:
  assumes "sg_sig c = None" and "sg_public_key c \<noteq> []"
  shows "Verify L message signature c = Inr (length signature = 32 + length (sg_public_key c) \<and> drop 32 signature = sg_public_key c)"
proof (cases "drop 32 signature = sg_public_key c")
  case True
  from suffix_length [OF True assms(2)] have "length signature = 32 + length (sg_public_key c)" .
  moreover from this have "signature \<noteq> []" "\<not> length signature < 32" by auto
  ultimately show ?thesis using True assms by (simp add: Verify_def)
next
  case False
  then show ?thesis using assms by (simp add: Verify_def)
qed

text \<open>
  C27. Without liboqs anyone who knows the public key can sign: with generated keys \<^verbatim>\<open>Verify\<close> accepts
  exactly the texts of any 32 bytes followed by the public key, whatever the message is. It accepts what
  \<^verbatim>\<open>Sign\<close> produces, for the message that was signed and for every other message.
\<close>

theorem fallback_signatures_forgeable:
  assumes "ssl_ok S" and "sg_sig c = None" and "GenerateKeyPair L S rnd (Some r) c = Inr (ok, c')"
  shows "Verify L message signature c' =
      Inr (length signature = 32 + GetPublicKeySize c \<and> drop 32 signature = sg_public_key c') \<and>
    (\<exists>s. Sign L S original c' = Inr s \<and> Verify L message s c' = Inr True)"
proof -
  note g = generated_fallback [OF assms]
  have "sg_public_key c' \<noteq> []" using g size_bounds(1) [of "sg_level c"] by (auto simp: GetPublicKeySize_def)
  with g have v: "Verify L m s c' = Inr (length s = 32 + GetPublicKeySize c \<and> drop 32 s = sg_public_key c')" for m s
    using fallback_Verify [of c' L m s] by simp
  have "Sign L S original c' = Inr (ssl_SHA256 S (ssl_SHA256 S original @ sg_private_key c') @ sg_public_key c')"
    using g by (simp add: Sign_def)
  moreover have "length (ssl_SHA256 S m) = 32" for m using assms(1) by (simp add: ssl_ok_def)
  ultimately show ?thesis using g by (auto simp: v)
qed

definition no_liboqs :: "unit sig_lib" where
  "no_liboqs = \<lparr>sig_new = (\<lambda>l. None), length_public_key = (\<lambda>a. 0), length_secret_key = (\<lambda>a. 0), sig_keypair = (\<lambda>a n. (False, [], [])),
     sig_sign = (\<lambda>a m k. None), sig_verify = (\<lambda>a m s k. False)\<rparr>"

definition signer_ssl :: ssl where
  "signer_ssl = \<lparr>ssl_SHA256 = (\<lambda>m. replicate 32 7), ssl_RIPEMD160 = (\<lambda>m. replicate 20 7), ssl_HMAC_sha512 = (\<lambda>k m. replicate 64 7),
     ssl_ECDSA_sign = (\<lambda>k m. None)\<rparr>"

theorem fallback_signatures_forgeable_witness:
  "\<exists>c'. GenerateKeyPair no_liboqs signer_ssl 0 (Some (replicate 4032 1)) (new_CMLDSASigner no_liboqs Level3) = Inr (True, c') \<and>
    (\<exists>s. Sign no_liboqs signer_ssl [1] c' = Inr s \<and> Verify no_liboqs [2] s c' = Inr True)"
proof -
  let ?c = "new_CMLDSASigner no_liboqs Level3"
  have c: "sg_sig ?c = None" by (simp add: new_CMLDSASigner_def no_liboqs_def)
  have S: "ssl_ok signer_ssl" by (simp add: ssl_ok_def signer_ssl_def)
  obtain ok c' where g: "GenerateKeyPair no_liboqs signer_ssl 0 (Some (replicate 4032 1)) ?c = Inr (ok, c')"
    using c by (simp add: GenerateKeyPair_def Let_def)
  from fallback_signatures_forgeable [OF S c g, of "[2]" "[]" "[1]"] generated_fallback [OF S c g] g show ?thesis by auto
qed

section \<open>The hybrid signer\<close>

text \<open>
  The hybrid verification skips what does not fit: once both keys are set, every signature shorter than an
  ML-DSA signature is accepted for every message, in every build. Without liboqs all signatures of the hybrid
  signer are that short, so that it verifies none of its own signatures.
\<close>

theorem hybrid_accepts_unchecked:
  assumes "ssl_ok S" and "m_has_mldsa_key h" and "\<And>d r s. ec_sign_without_key E d = Inr (Some (r, s)) \<Longrightarrow> length r = 32 \<and> length s = 32"
  shows "(length signature < GetSignatureSizeForLevel (sg_level (m_mldsa_signer h)) \<longrightarrow>
       hybrid_Verify L S E message signature True h = Inr True) \<and>
    (sg_sig (m_mldsa_signer h) = None \<longrightarrow> length (sg_public_key (m_mldsa_signer h)) = GetPublicKeySize (m_mldsa_signer h) \<longrightarrow>
       hybrid_Sign L S E original True h = Inr s \<longrightarrow> hybrid_Verify L S E message s True h = Inr True)"
proof -
  let ?c = "m_mldsa_signer h" and ?n = "GetSignatureSizeForLevel (sg_level (m_mldsa_signer h))"
  have short: "hybrid_Verify L S E message s True h = Inr True" if "length s < ?n" for s
    using that assms(2) by (simp add: hybrid_Verify_def Let_def)
  have "length s < ?n" if "sg_sig ?c = None" "length (sg_public_key ?c) = GetPublicKeySize ?c" "hybrid_Sign L S E original True h = Inr s"
  proof -
    have h32: "length (ssl_SHA256 S m) = 32" for m using assms(1) by (simp add: ssl_ok_def)
    have "Sign L S original ?c = Inr [] \<or> (\<exists>t. Sign L S original ?c = Inr t \<and> length t = 32 + GetPublicKeySizeForLevel (sg_level ?c))"
      using that(1,2) h32 by (auto simp: Sign_def GetPublicKeySize_def)
    then obtain t where t: "Sign L S original ?c = Inr t" "length t \<le> 32 + GetPublicKeySizeForLevel (sg_level ?c)" by auto
    with that(3) assms(2,3) have "length s \<le> length t + 64"
      by (auto simp: hybrid_Sign_def split: if_splits sum.splits option.splits)
    then show ?thesis using t(2) size_bounds(2) [of "sg_level ?c"] by linarith
  qed
  then show ?thesis using short by blast
qed

definition signer_ec :: ec_lib where
  "signer_ec = \<lparr>ec_group = True, ec_point = (\<lambda>k. replicate 33 2), ec_sign_without_key = (\<lambda>d. Inl null_key), ec_verify = (\<lambda>d r s k. False)\<rparr>"

theorem hybrid_accepts_unchecked_witness:
  "hybrid_Verify no_liboqs signer_ssl signer_ec [1, 2, 3] [] True
     ((new_CMLDSAHybridSigner no_liboqs Level3)\<lparr>m_has_mldsa_key := True, m_has_ecdsa_key := True, m_ecdsa_public := replicate 33 2\<rparr>) = Inr True"
proof -
  let ?h = "(new_CMLDSAHybridSigner no_liboqs Level3)\<lparr>m_has_mldsa_key := True, m_has_ecdsa_key := True, m_ecdsa_public := replicate 33 2\<rparr>"
  have "ssl_ok signer_ssl" by (simp add: ssl_ok_def signer_ssl_def)
  moreover have "0 < GetSignatureSizeForLevel (sg_level (m_mldsa_signer ?h))"
    by (cases "sg_level (m_mldsa_signer ?h)") simp_all
  ultimately show ?thesis
    using hybrid_accepts_unchecked [of signer_ssl ?h signer_ec "[]" no_liboqs "[1, 2, 3]"] by (simp add: signer_ec_def)
qed

end
