(* ===== verification/Binary64.thy ===== *)
theory Binary64
  imports Complex_Main "HOL-Library.Log_Nat"
begin

text \<open>
  What the wallet uses of IEEE double-precision arithmetic: rounding to 53 significant bits, to nearest with
  ties to even, of the exact result of one operation, and printing with eight decimals. Doubles are the rationals
  they stand for. The range of exponents is not limited: amounts stay far from its ends.
\<close>

section \<open>Rounding\<close>

definition half_even :: "rat \<Rightarrow> int" where
  "half_even x =
     (let f = \<lfloor>x\<rfloor>; d = x - of_int f
      in if d < 1 / 2 then f else if d > 1 / 2 then f + 1 else if even f then f else f + 1)"

definition two_to :: "int \<Rightarrow> rat" where
  "two_to k = (if k \<ge> 0 then 2 ^ nat k else 1 / 2 ^ nat (- k))"

text \<open>The exponent \<open>e\<close> with \<open>two_to e \<le> x < two_to (e + 1)\<close>, from the bit lengths of numerator and denominator.\<close>

definition exponent :: "rat \<Rightarrow> int" where
  "exponent x =
     (case quotient_of x of
        (n, d) \<Rightarrow> let e = bitlen n - bitlen d in if two_to e \<le> x then e else e - 1)"

definition round_positive :: "rat \<Rightarrow> rat" where
  "round_positive x = (let u = two_to (exponent x - 52) in of_int (half_even (x / u)) * u)"

definition fl :: "rat \<Rightarrow> rat" where
  "fl x = (if x = 0 then 0 else if x < 0 then - round_positive (- x) else round_positive x)"

text \<open>Conversion to an integer drops the fraction.\<close>

definition trunc :: "rat \<Rightarrow> int" where
  "trunc x = (if x < 0 then \<lceil>x\<rceil> else \<lfloor>x\<rfloor>)"

section \<open>Facts\<close>

lemma half_even_error: "\<bar>of_int (half_even x) - x\<bar> \<le> 1 / 2"
proof -
  have "of_int \<lfloor>x\<rfloor> \<le> x" "x < of_int \<lfloor>x\<rfloor> + 1" by linarith+
  then show ?thesis by (auto simp: half_even_def Let_def abs_le_iff field_simps)
qed

lemma two_to_pos: "0 < two_to k"
  by (simp add: two_to_def)

lemma two_to_add: "two_to (a + b) = two_to a * two_to b"
proof -
  have k: "two_to k = 2 powi k" for k by (simp add: two_to_def power_int_def power_inverse field_simps)
  show ?thesis unfolding k by (simp add: power_int_add)
qed

lemma exponent_bounds:
  assumes "0 < x"
  shows "two_to (exponent x) \<le> x" "x < two_to (exponent x + 1)"
proof -
  obtain n d where q: "quotient_of x = (n, d)" by fastforce
  have d: "0 < d" and x: "x = of_int n / of_int d" using quotient_of_denom_pos [OF q] quotient_of_div [OF q] by auto
  have n: "0 < n" using assms x d by (simp add: zero_less_divide_iff)
  have bits: "two_to (bitlen k - 1) \<le> of_int k \<and> of_int k < two_to (bitlen k)" if "0 < k" for k
  proof -
    have b: "2 ^ nat (bitlen k - 1) \<le> k" "k < 2 ^ nat (bitlen k)" using bitlen_bounds [OF that] by auto
    have "1 \<le> bitlen k" using bitlen_nonneg [of k] bitlen_eq_zero_iff [of k] that by linarith
    then have "two_to (bitlen k - 1) = of_int (2 ^ nat (bitlen k - 1))" "two_to (bitlen k) = of_int (2 ^ nat (bitlen k))"
      by (auto simp: two_to_def)
    then show ?thesis using b by (simp only: of_int_le_iff of_int_less_iff)
  qed
  let ?e = "bitlen n - bitlen d"
  have "x < two_to (?e + 1)"
  proof -
    have "of_int n < two_to (bitlen n)" "two_to (bitlen d - 1) \<le> of_int d" using bits n d by auto
    then have "x < two_to (bitlen n) / two_to (bitlen d - 1)"
      unfolding x using d n two_to_pos by (intro frac_less) auto
    also have "\<dots> = two_to (?e + 1)"
      using two_to_add [of "?e + 1" "bitlen d - 1"] two_to_pos [of "bitlen d - 1"] by (simp add: field_simps)
    finally show ?thesis .
  qed
  moreover have "two_to (?e - 1) \<le> x"
  proof -
    have "two_to (bitlen n - 1) \<le> of_int n" "of_int d < two_to (bitlen d)" using bits n d by auto
    then have "two_to (bitlen n - 1) / two_to (bitlen d) \<le> x"
      unfolding x using d n two_to_pos [of "bitlen n - 1"] by (intro frac_le) auto
    moreover have "two_to (bitlen n - 1) / two_to (bitlen d) = two_to (?e - 1)"
      using two_to_add [of "?e - 1" "bitlen d"] two_to_pos [of "bitlen d"] by (simp add: field_simps)
    ultimately show ?thesis by simp
  qed
  ultimately show "two_to (exponent x) \<le> x" "x < two_to (exponent x + 1)"
    using q by (auto simp: exponent_def Let_def)
qed

text \<open>The relative error of a rounding is at most \<open>2 ^ -53\<close>, and in terms of a bound on the number.\<close>

lemma fl_error_exponent:
  assumes "0 < x"
  shows "\<bar>fl x - x\<bar> \<le> two_to (exponent x - 53)"
proof -
  let ?u = "two_to (exponent x - 52)"
  have "fl x - x = (of_int (half_even (x / ?u)) - x / ?u) * ?u"
    using assms two_to_pos [of "exponent x - 52"] by (simp add: fl_def round_positive_def Let_def field_simps)
  then have "\<bar>fl x - x\<bar> = \<bar>of_int (half_even (x / ?u)) - x / ?u\<bar> * ?u"
    using two_to_pos [of "exponent x - 52"] by (simp add: abs_mult)
  also have "\<dots> \<le> 1 / 2 * ?u"
    using half_even_error [of "x / ?u"] two_to_pos [of "exponent x - 52"] by (intro mult_right_mono) auto
  also have "\<dots> = two_to (exponent x - 53)"
    using two_to_add [of "exponent x - 53" 1] by (simp add: two_to_def)
  finally show ?thesis .
qed

lemma fl_error:
  assumes "0 \<le> x"
  shows "\<bar>fl x - x\<bar> \<le> x * two_to (- 53)"
proof (cases "x = 0")
  case False
  then have "0 < x" using assms by simp
  from fl_error_exponent [OF this] have "\<bar>fl x - x\<bar> \<le> two_to (exponent x) * two_to (- 53)"
    using two_to_add [of "exponent x" "- 53"] by simp
  also have "\<dots> \<le> x * two_to (- 53)"
    using exponent_bounds(1) [OF \<open>0 < x\<close>] two_to_pos [of "- 53"] by (intro mult_right_mono) auto
  finally show ?thesis .
qed (simp add: fl_def)

lemma two_to_le: "two_to a \<le> two_to b \<Longrightarrow> a \<le> b"
proof (rule ccontr)
  assume *: "two_to a \<le> two_to b" "\<not> a \<le> b"
  have "two_to a = two_to b * 2 ^ nat (a - b)"
    using two_to_add [of b "a - b"] *(2) by (simp add: two_to_def [of "a - b"])
  moreover have "(1 :: rat) < 2 ^ nat (a - b)" using *(2) by simp
  ultimately show False using *(1) two_to_pos [of b] by simp
qed

lemma two_to_mono: "a \<le> b \<Longrightarrow> two_to a \<le> two_to b"
proof -
  assume "a \<le> b"
  then have "two_to b = two_to a * 2 ^ nat (b - a)" using two_to_add [of a "b - a"] by (simp add: two_to_def [of "b - a"])
  then show ?thesis using two_to_pos [of a] by simp
qed

lemma fl_error_below:
  assumes "0 \<le> x" and "x < two_to k"
  shows "\<bar>fl x - x\<bar> \<le> two_to (k - 54)"
proof (cases "x = 0")
  case False
  then have pos: "0 < x" using assms by simp
  from exponent_bounds(1) [OF pos] assms(2) have "two_to (exponent x) < two_to k" by simp
  then have "exponent x \<noteq> k" "exponent x \<le> k" using two_to_le [of "exponent x" k] by auto
  then have "exponent x - 53 \<le> k - 54" by simp
  from fl_error_exponent [OF pos] two_to_mono [OF this] show ?thesis by simp
qed (use two_to_pos [of "k - 54"] in \<open>simp add: fl_def less_imp_le\<close>)

lemma half_even_nonneg: "0 \<le> x \<Longrightarrow> 0 \<le> half_even x"
  by (auto simp: half_even_def Let_def)

lemma fl_nonneg: "0 \<le> x \<Longrightarrow> 0 \<le> fl x"
  using two_to_pos [of "exponent x - 52"]
  by (auto simp: fl_def round_positive_def Let_def intro!: mult_nonneg_nonneg half_even_nonneg divide_nonneg_pos)

lemma fl_minus: "fl (- x) = - fl x"
  by (simp add: fl_def)

lemma half_even_int: "half_even (of_int n) = n"
  by (simp add: half_even_def)

lemma fl_of_int:
  assumes "\<bar>n\<bar> < 2 ^ 53"
  shows "fl (of_int n) = of_int n"
proof -
  have pos: "fl (of_int m) = of_int m" if m: "0 < m" "m < 2 ^ 53" for m
  proof -
    let ?e = "exponent (of_int m)"
    have b: "two_to ?e \<le> of_int m" using exponent_bounds(1) [of "of_int m"] m by simp
    have "of_int m < (two_to 53 :: rat)"
    proof -
      have "(of_int m :: rat) < of_int (2 ^ 53)" using m(2) by (simp only: of_int_less_iff)
      then show ?thesis by (simp add: two_to_def)
    qed
    with b have "two_to ?e < two_to 53" by simp
    then have e: "?e \<le> 52" using two_to_le [of 53 ?e] by (cases "53 \<le> ?e") (auto dest: two_to_mono)
    have u: "two_to (?e - 52) = 1 / 2 ^ nat (52 - ?e)" using e by (auto simp: two_to_def)
    have "of_int m / two_to (?e - 52) = of_int (m * 2 ^ nat (52 - ?e))" unfolding u by simp
    then have "half_even (of_int m / two_to (?e - 52)) = m * 2 ^ nat (52 - ?e)" by (simp only: half_even_int)
    then have "round_positive (of_int m) = of_int (m * 2 ^ nat (52 - ?e)) * two_to (?e - 52)"
      by (simp add: round_positive_def Let_def)
    also have "\<dots> = of_int m" unfolding u by simp
    finally show ?thesis using m by (simp add: fl_def)
  qed
  show ?thesis
  proof (cases "n = 0")
    case False
    then show ?thesis using pos [of n] pos [of "- n"] assms fl_minus [of "of_int n"] by (cases "0 < n") auto
  qed (simp add: fl_def)
qed

end
