(* ===== verification/Amounts.thy ===== *)
theory Amounts
  imports Binary64 CxxString
begin

text \<open>
  The conversions of amounts in \<^verbatim>\<open>BHTWalletPro/src/qt/walletmodel.cpp\<close>: amounts are integers of the smallest unit,
  printed as decimal numbers of coins by a floating-point division and read by a floating-point product.
\<close>

section \<open>Printing\<close>

definition SATOSHI :: int where
  "SATOSHI = 100000000"

definition pad8 :: "nat \<Rightarrow> string" where
  "pad8 n = map (\<lambda>k. hex_chars ! (n div 10 ^ k mod 10)) [7, 6, 5, 4, 3, 2, 1, 0]"

text \<open>\<^verbatim>\<open>QString::number(x, 'f', 8)\<close>: the nearest number with eight decimals, ties upwards in magnitude.\<close>

definition number_f8 :: "rat \<Rightarrow> string" where
  "number_f8 x =
     (let n = nat \<lfloor>\<bar>x\<bar> * 100000000 + 1 / 2\<rfloor>
      in (if x < 0 then ''-'' else []) @ to_base 10 (n div 100000000) @ ''.'' @ pad8 (n mod 100000000))"

definition amountToDecimalString :: "int \<Rightarrow> string" where
  "amountToDecimalString amount = number_f8 (fl (fl (of_int amount) / of_int SATOSHI))"

definition quantityToHex :: "int \<Rightarrow> string" where
  "quantityToHex amount = ''0x'' @ to_base 16 (unat (word_of_int amount :: u64))"

text \<open>Reading a number of coins: the product is rounded, its fraction is dropped.\<close>

definition amount_of_double :: "(rat \<Rightarrow> int) \<Rightarrow> rat \<Rightarrow> int" where
  "amount_of_double undefined_cast x =
     (let y = fl (x * of_int SATOSHI)
      in if - (2 ^ 63) \<le> trunc y \<and> trunc y < 2 ^ 63 then trunc y else undefined_cast y)"

section \<open>Exactness of printed amounts\<close>

text \<open>The exact decimal text of an amount.\<close>

definition decimal_text :: "int \<Rightarrow> string" where
  "decimal_text a =
     (if a < 0 then ''-'' else []) @ to_base 10 (nat \<bar>a\<bar> div 100000000) @ ''.'' @ pad8 (nat \<bar>a\<bar> mod 100000000)"

lemma quotient_error:
  assumes "0 \<le> a" and "a < 2 ^ 26 * 100000000"
  shows "\<bar>fl (of_int a / 100000000) * 100000000 - of_int a\<bar> < 1 / 2" "0 \<le> fl (of_int a / 100000000)"
proof -
  have "(of_int a :: rat) < of_int (2 ^ 26 * 100000000)" using assms(2) by (simp only: of_int_less_iff)
  then have small: "(of_int a / 100000000 :: rat) < two_to 26" by (simp add: two_to_def field_simps)
  have "\<bar>fl (of_int a / 100000000) - of_int a / 100000000\<bar> \<le> two_to (26 - 54)"
    using assms(1) small by (intro fl_error_below) auto
  then have e: "\<bar>fl (of_int a / 100000000) - of_int a / 100000000\<bar> \<le> 1 / 2 ^ 28" by (simp add: two_to_def)
  have "fl (of_int a / 100000000) * 100000000 - of_int a = (fl (of_int a / 100000000) - of_int a / 100000000) * 100000000"
    by (simp add: field_simps)
  then have "\<bar>fl (of_int a / 100000000) * 100000000 - of_int a\<bar> = \<bar>fl (of_int a / 100000000) - of_int a / 100000000\<bar> * 100000000"
    by (simp only: abs_mult abs_numeral)
  also have "\<dots> \<le> 1 / 2 ^ 28 * 100000000" using e by (rule mult_right_mono) simp
  also have "\<dots> < 1 / 2" by simp
  finally show "\<bar>fl (of_int a / 100000000) * 100000000 - of_int a\<bar> < 1 / 2" .
  show "0 \<le> fl (of_int a / 100000000)" using assms(1) by (intro fl_nonneg) simp
qed

lemma nearest_unit:
  fixes y :: rat
  assumes "\<bar>y - of_int a\<bar> < 1 / 2"
  shows "\<lfloor>y + 1 / 2\<rfloor> = a"
proof (rule floor_unique)
  show "of_int a \<le> y + 1 / 2" "y + 1 / 2 < of_int a + 1" using assms by linarith+
qed

lemma number_f8_exact:
  assumes "\<bar>a\<bar> < 2 ^ 26 * SATOSHI"
  shows "number_f8 (fl (fl (of_int a) / of_int SATOSHI)) = decimal_text a"
proof -
  let ?q = "\<lambda>a. fl (of_int a / 100000000)"
  have bound: "\<bar>a\<bar> < 2 ^ 26 * 100000000" using assms by (simp add: SATOSHI_def)
  then have "\<bar>a\<bar> < 2 ^ 53" by simp
  then have fa: "number_f8 (fl (fl (of_int a) / of_int SATOSHI)) = number_f8 (?q a)"
    by (simp add: SATOSHI_def fl_of_int)
  have e: "\<bar>?q \<bar>a\<bar> * 100000000 - of_int \<bar>a\<bar>\<bar> < 1 / 2" "0 \<le> ?q \<bar>a\<bar>"
    using quotient_error [of "\<bar>a\<bar>"] bound by auto
  have abs: "\<bar>?q a\<bar> = ?q \<bar>a\<bar>"
    using e(2) fl_minus [of "of_int a / 100000000"] by (cases "a < 0") auto
  have n: "\<lfloor>\<bar>?q a\<bar> * 100000000 + 1 / 2\<rfloor> = \<bar>a\<bar>" unfolding abs by (rule nearest_unit [OF e(1)])
  have sign: "?q a < 0 \<longleftrightarrow> a < 0"
  proof (cases "a < 0")
    case True
    then have "1 \<le> (of_int \<bar>a\<bar> :: rat)" by simp
    then have "0 < ?q \<bar>a\<bar>" using e(1) by (cases "?q \<bar>a\<bar> \<le> 0") (auto simp: abs_less_iff e(2) intro: antisym)
    then show ?thesis using True fl_minus [of "of_int \<bar>a\<bar> / 100000000"] by simp
  next
    case False
    then show ?thesis using e(2) by simp
  qed
  have "number_f8 (?q a) = decimal_text a"
    unfolding number_f8_def decimal_text_def Let_def n sign by (simp add: nat_div_distrib nat_mod_distrib)
  with fa show ?thesis by simp
qed

text \<open>
  Amounts of less than 2^26 coins are printed exactly, in spite of the rounding of the quotient.
\<close>

theorem amounts_printed_exactly:
  assumes "\<bar>a\<bar> < 2 ^ 26 * SATOSHI"
  shows "amountToDecimalString a = decimal_text a"
  using number_f8_exact [OF assms] by (simp add: amountToDecimalString_def)

theorem amounts_printed_exactly_witness: "amountToDecimalString (- 29000001) = ''-0.29000001''"
proof -
  have "amountToDecimalString (- 29000001) = decimal_text (- 29000001)"
    by (rule amounts_printed_exactly) (simp add: SATOSHI_def)
  then show ?thesis by (simp add: decimal_text_def pad8_def hex_chars_def to_base.simps)
qed

section \<open>Amounts lost in reading\<close>

lemma amount_read_near:
  assumes "0 \<le> a" and "a < 2 ^ 51"
  shows "amount_of_double ub (fl (of_int a / of_int SATOSHI)) \<in> {a - 1, a}"
proof -
  let ?x = "fl (of_int a / 100000000)" and ?u = "two_to (- 53)"
  let ?y = "fl (?x * 100000000)"
  have x0: "0 \<le> ?x" using assms(1) by (intro fl_nonneg) simp
  have y0: "0 \<le> ?y" using x0 by (intro fl_nonneg) simp
  have u: "?u = 1 / 2 ^ 53" by (simp add: two_to_def)
  have ab: "(of_int a :: rat) < 2 ^ 51"
  proof -
    have "(of_int a :: rat) < of_int (2 ^ 51)" using assms(2) by (simp only: of_int_less_iff)
    then show ?thesis by simp
  qed
  have "\<bar>?x - of_int a / 100000000\<bar> \<le> of_int a / 100000000 * ?u" using assms(1) by (intro fl_error) simp
  moreover have "of_int a / 100000000 * ?u \<le> 1 / 4 / 100000000" using ab unfolding u by (simp add: field_simps)
  ultimately have "\<bar>?x - of_int a / 100000000\<bar> \<le> 1 / 4 / 100000000" by linarith
  then have e1: "\<bar>?x * 100000000 - of_int a\<bar> \<le> 1 / 4" by (auto simp: abs_le_iff field_simps)
  have "?x * 100000000 \<le> 2 ^ 51 + 1 / 4" using e1 ab by linarith
  then have "?x * 100000000 * ?u \<le> (2 ^ 51 + 1 / 4) * ?u" using two_to_pos [of "- 53"] by (intro mult_right_mono) auto
  moreover have "(2 ^ 51 + 1 / 4) * ?u \<le> 1 / 2" unfolding u by simp
  moreover have "\<bar>?y - ?x * 100000000\<bar> \<le> ?x * 100000000 * ?u" using x0 by (intro fl_error) simp
  ultimately have near: "\<bar>?y - of_int a\<bar> \<le> 3 / 4" using e1 by linarith
  have fl: "\<lfloor>?y\<rfloor> \<in> {a - 1, a}" using near by (simp; linarith)
  have t: "trunc ?y = \<lfloor>?y\<rfloor>" using y0 by (simp add: trunc_def)
  have "b \<in> {a - 1, a} \<Longrightarrow> - (2 ^ 63) \<le> b \<and> b < 2 ^ 63" for b using assms by auto
  from this [OF fl] have "amount_of_double ub ?x = \<lfloor>?y\<rfloor>"
    unfolding amount_of_double_def SATOSHI_def Let_def of_int_numeral t by (rule if_P)
  then show ?thesis using fl by (simp add: SATOSHI_def)
qed

text \<open>
  Reading back the double nearest to an amount gives the amount or one unit less, for all
  amounts below 2^51 units; both happen.
\<close>

theorem amounts_read_short:
  assumes "0 \<le> a" and "a < 2 ^ 51"
  shows "amount_of_double ub (fl (of_int a / of_int SATOSHI)) \<in> {a - 1, a} \<and>
    amount_of_double ub (fl (29 / 100)) = 28999999 \<and> amount_of_double ub (fl (1 / 4)) = 25000000"
proof -
  have "amount_of_double ub (fl (29 / 100)) = 28999999"
  proof -
    have "trunc (fl (fl (29 / 100) * of_int SATOSHI)) = 28999999" by code_simp
    then show ?thesis by (simp add: amount_of_double_def Let_def)
  qed
  moreover have "amount_of_double ub (fl (1 / 4)) = 25000000"
  proof -
    have "trunc (fl (fl (1 / 4) * of_int SATOSHI)) = 25000000" by code_simp
    then show ?thesis by (simp add: amount_of_double_def Let_def)
  qed
  ultimately show ?thesis using amount_read_near [OF assms] by simp
qed

theorem amounts_read_short_witness: "amount_of_double (\<lambda>x. 0) (fl (of_int 7 / of_int SATOSHI)) \<in> {6, 7}"
  using amounts_read_short [of 7 "\<lambda>x. 0"] by simp

end
