(* ===== verification/TransactionRecord.thy ===== *)
theory TransactionRecord
  imports Amounts
begin

text \<open>
  Model of \<^verbatim>\<open>BHTWalletPro/src/qt/transactionrecord.h\<close> and \<^verbatim>\<open>.cpp\<close>: one line of the transaction history. The unused
  queue of notifications is left out.
\<close>

datatype tx_type =
  Other | Generated | SendToSelf | SendToAddress | SendToOther | RecvWithAddress | RecvFromOther | RecvFromSelf
  | BHTToAsset | AssetToBHT | Layer2Deposit | Layer2Withdrawal | HardwareTx

datatype tx_status =
  Confirmations | Confirmed | Conflicted | Abandoned | OpenUntilDate | OpenUntilBlock | Unconfirmed | Confirming
  | Immature | MaturesIn | DidNotMature | OffChain | Online | HW

record TransactionRecord =
  tr_hash :: bytes
  tr_generated_coinbase_hash :: bytes
  tr_idx :: nat
  tr_time :: int
  tr_type :: tx_type
  tr_address :: string
  tr_debit :: int
  tr_credit :: int
  tr_fee :: int
  tr_locktime :: int
  tr_status :: tx_status
  tr_depth :: int
  tr_cur_format_i :: int
  tr_asset :: string
  tr_txid :: string
  tr_narration :: string

definition new_TransactionRecord :: TransactionRecord where
  "new_TransactionRecord =
     \<lparr>tr_hash = replicate 32 0, tr_generated_coinbase_hash = replicate 32 0, tr_idx = 0, tr_time = 0, tr_type = Other, tr_address = [],
      tr_debit = 0, tr_credit = 0, tr_fee = 0, tr_locktime = 0, tr_status = Confirmed, tr_depth = 0, tr_cur_format_i = 0,
      tr_asset = [], tr_txid = [], tr_narration = []\<rparr>"

fun tx_type_text :: "tx_type \<Rightarrow> string" where
  "tx_type_text Other = ''Other''"
| "tx_type_text Generated = ''Generated''"
| "tx_type_text SendToSelf = ''SendToSelf''"
| "tx_type_text SendToAddress = ''SendToAddress''"
| "tx_type_text SendToOther = ''SendToOther''"
| "tx_type_text RecvWithAddress = ''RecvWithAddress''"
| "tx_type_text RecvFromOther = ''RecvFromOther''"
| "tx_type_text RecvFromSelf = ''RecvFromSelf''"
| "tx_type_text BHTToAsset = ''BHTToAsset''"
| "tx_type_text AssetToBHT = ''AssetToBHT''"
| "tx_type_text Layer2Deposit = ''Layer2Deposit''"
| "tx_type_text Layer2Withdrawal = ''Layer2Withdrawal''"
| "tx_type_text HardwareTx = ''HardwareTx''"

definition record_add :: "bytes \<Rightarrow> int \<Rightarrow> tx_type \<Rightarrow> string \<Rightarrow> int \<Rightarrow> int \<Rightarrow> int \<Rightarrow> int \<Rightarrow> tx_status \<Rightarrow> int \<Rightarrow> int \<Rightarrow> string \<Rightarrow> TransactionRecord" where
  "record_add hash time type address debit credit fee locktime status depth cur_format_i asset =
     new_TransactionRecord\<lparr>tr_hash := hash, tr_time := time, tr_type := type, tr_address := address, tr_debit := debit, tr_credit := credit,
       tr_fee := fee, tr_locktime := locktime, tr_status := status, tr_depth := depth, tr_cur_format_i := cur_format_i, tr_asset := asset\<rparr>"

definition getTransactionHTML :: "string \<Rightarrow> string" where
  "getTransactionHTML address =
     ''<html><body style='' @ [CHR 0x27] @ ''font-family: sans-serif;'' @ [CHR 0x27] @ ''>'' @
     ''<h3>Transaction Details</h3>'' @ ''<p>Address: '' @ address @ ''</p>'' @ ''</body></html>''"

definition record_updateStatus :: "bytes \<Rightarrow> TransactionRecord \<Rightarrow> TransactionRecord" where
  "record_updateStatus newHash r =
     (let r = r\<lparr>tr_hash := newHash\<rparr> in if tr_depth r \<ge> 6 then r\<lparr>tr_status := Confirmed\<rparr> else r)"

definition record_create :: "bytes \<Rightarrow> int \<Rightarrow> bytes \<Rightarrow> nat \<Rightarrow> int \<Rightarrow> int \<Rightarrow> string \<Rightarrow> string \<Rightarrow> int \<Rightarrow> string \<Rightarrow> TransactionRecord" where
  "record_create hashBlock time hash position credit debit address asset fee narration =
     new_TransactionRecord\<lparr>tr_generated_coinbase_hash := hashBlock, tr_hash := hash, tr_idx := position, tr_time := time, tr_address := address,
       tr_debit := debit, tr_credit := credit, tr_fee := fee, tr_asset := asset, tr_narration := narration,
       tr_type := (if credit > 0 \<and> debit = 0 then RecvWithAddress else if debit > 0 \<and> credit = 0 then SendToAddress else Other),
       tr_status := Unconfirmed, tr_depth := 0, tr_cur_format_i := 0\<rparr>"

definition isAbandoned :: "TransactionRecord \<Rightarrow> bool" where
  "isAbandoned r \<longleftrightarrow> tr_status r = Abandoned"

definition formatSubtractFeeFromAmount :: "bool \<Rightarrow> int \<Rightarrow> string" where
  "formatSubtractFeeFromAmount subtract_fee amount =
     (let text = number_f8 (fl (fl (of_int \<bar>amount\<bar>) / 100000000))
      in if subtract_fee then text @ '' (fee subtracted)'' else text)"

end
