(* ===== verification/WalletRpc.thy ===== *)
theory WalletRpc
  imports TransactionRecord
begin

text \<open>
  The calls of \<^verbatim>\<open>WalletModel\<close> (\<^verbatim>\<open>BHTWalletPro/src/qt/walletmodel.cpp\<close>) to the nodes: JSON values, the call itself with
  its error paths, and the conversions of replies. What the model uses of Qt is the record \<open>qt\<close>; functions that
  depend on the outside are indexed by the number of the interaction. The keys of a JSON object are an
  association list without repetitions.
\<close>

section \<open>JSON values\<close>

datatype json = JUndefined | JNull | JBool bool | JDouble rat | JString string | JArray "json list" | JObject "(string \<times> json) list"

fun toObject :: "json \<Rightarrow> (string \<times> json) list" where
  "toObject (JObject o') = o'"
| "toObject _ = []"

fun toArray :: "json \<Rightarrow> json list" where
  "toArray (JArray js) = js"
| "toArray _ = []"

fun toString_or :: "string \<Rightarrow> json \<Rightarrow> string" where
  "toString_or d (JString s) = s"
| "toString_or d _ = d"

abbreviation toString :: "json \<Rightarrow> string" where
  "toString \<equiv> toString_or []"

fun toBool :: "json \<Rightarrow> bool" where
  "toBool (JBool b) = b"
| "toBool _ = False"

definition jvalue :: "string \<Rightarrow> (string \<times> json) list \<Rightarrow> json" where
  "jvalue k obj = (case map_of obj k of None \<Rightarrow> JUndefined | Some v \<Rightarrow> v)"

fun jset :: "string \<Rightarrow> json \<Rightarrow> (string \<times> json) list \<Rightarrow> (string \<times> json) list" where
  "jset k v [] = [(k, v)]"
| "jset k v ((k', v') # obj) = (if k = k' then (k, v) # obj else (k', v') # jset k v obj)"

section \<open>What the model uses of Qt\<close>

datatype net_reply = NetTimeout | NetError string | NetReply int string

text \<open>
  In the order of the fields: whether an address is a valid URL with a scheme; the answer to a posted request; the
  document of a text, if it is one, and the text of the parse error; the compact text of a document;
  \<^verbatim>\<open>toVariant().toLongLong()\<close> and \<^verbatim>\<open>toInt()\<close> of a JSON value, \<^verbatim>\<open>toInt()\<close> of a setting, \<^verbatim>\<open>toDouble\<close> and
  \<^verbatim>\<open>toULongLong\<close> with base 16 of a text, \<^verbatim>\<open>QByteArray::fromHex\<close>, the result of converting a double outside the
  range of \<^verbatim>\<open>qint64\<close>, the settings, the clock in seconds and in milliseconds, the sorting of \<^verbatim>\<open>std::sort\<close>, the
  home directory, the state of a child process, its start and its end, its number and its error text. Amounts are integers
  in the range of \<^verbatim>\<open>qint64\<close>; the negation of the least one, which C++ leaves undefined, is the mathematical one.
\<close>

record qt =
  qt_url_valid :: "string \<Rightarrow> bool"
  qt_post :: "nat \<Rightarrow> string \<Rightarrow> json \<Rightarrow> (string \<times> string) option \<Rightarrow> nat \<Rightarrow> net_reply"
  qt_parse :: "string \<Rightarrow> json option \<times> string"
  qt_text :: "json \<Rightarrow> string"
  qt_long :: "json \<Rightarrow> int"
  qt_int :: "json \<Rightarrow> int"
  qt_setting_int :: "string \<Rightarrow> int"
  qt_toDouble :: "string \<Rightarrow> rat option"
  qt_hex64 :: "string \<Rightarrow> u64 option"
  qt_fromHex :: "string \<Rightarrow> bytes"
  qt_cast :: "rat \<Rightarrow> int"
  qt_settings :: "string \<rightharpoonup> string"
  qt_now :: "nat \<Rightarrow> int"
  qt_msecs :: "nat \<Rightarrow> int"
  qt_sort :: "TransactionRecord list \<Rightarrow> TransactionRecord list"
  qt_home :: string
  qt_running :: "nat \<Rightarrow> bool \<Rightarrow> bool"
  qt_started :: "nat \<Rightarrow> string \<Rightarrow> string \<Rightarrow> string list \<Rightarrow> bool"
  qt_finished :: "nat \<Rightarrow> bool \<Rightarrow> bool"
  qt_pid :: "nat \<Rightarrow> bool \<Rightarrow> int"
  qt_process_error :: "nat \<Rightarrow> bool \<Rightarrow> string"

definition setting :: "qt \<Rightarrow> string \<Rightarrow> string \<Rightarrow> string" where
  "setting q k d = (case qt_settings q k of None \<Rightarrow> d | Some s \<Rightarrow> s)"

definition setting_int :: "qt \<Rightarrow> string \<Rightarrow> int \<Rightarrow> int" where
  "setting_int q k d = (case qt_settings q k of None \<Rightarrow> d | Some s \<Rightarrow> qt_setting_int q s)"

text \<open>White space at both ends, prefixes and case, on texts of ASCII characters.\<close>

definition trimmed :: "string \<Rightarrow> string" where
  "trimmed s = rev (dropWhile is_space (rev (dropWhile is_space s)))"

definition lower :: "char \<Rightarrow> char" where
  "lower c = (let n = (of_char c :: nat) in if 65 \<le> n \<and> n \<le> 90 then char_of (n + 32) else c)"

definition same_nocase :: "string \<Rightarrow> string \<Rightarrow> bool" where
  "same_nocase s t \<longleftrightarrow> map lower s = map lower t"

definition starts_nocase :: "string \<Rightarrow> string \<Rightarrow> bool" where
  "starts_nocase p s \<longleftrightarrow> starts_with (map lower p) (map lower s)"

definition int_text :: "int \<Rightarrow> string" where
  "int_text i = (if i < 0 then ''-'' else []) @ to_base 10 (nat \<bar>i\<bar>)"

section \<open>Calls\<close>

record rpc_request =
  rq_endpoint :: string
  rq_payload :: json
  rq_auth :: "(string \<times> string) option"
  rq_timeout :: nat

record rpc_world =
  rpc_steps :: nat
  rpc_posted :: "rpc_request list"

datatype rpc_result = RpcError string | RpcOk json

definition POLL_RPC_TIMEOUT_MS :: nat where
  "POLL_RPC_TIMEOUT_MS = 1200"

definition rpc_payload :: "qt \<Rightarrow> nat \<Rightarrow> string \<Rightarrow> json list \<Rightarrow> json" where
  "rpc_payload q n method params =
     JObject [(''jsonrpc'', JString ''2.0''), (''id'', JString (''bht-wallet-'' @ int_text (qt_msecs q n))),
       (''method'', JString method), (''params'', JArray params)]"

definition rpc_answer :: "qt \<Rightarrow> string \<Rightarrow> net_reply \<Rightarrow> rpc_result" where
  "rpc_answer q endpoint reply =
     (case reply of
        NetTimeout \<Rightarrow> RpcError (''RPC timeout: '' @ endpoint)
      | NetError e \<Rightarrow> RpcError e
      | NetReply status body \<Rightarrow>
          if status < 200 \<or> status \<ge> 300 then RpcError (''HTTP '' @ int_text status @ '': '' @ take 200 body)
          else (case qt_parse q body of
                  (Some (JObject obj), _) \<Rightarrow>
                    if jvalue ''error'' obj \<noteq> JUndefined \<and> jvalue ''error'' obj \<noteq> JNull
                    then RpcError (toString_or ''RPC error'' (jvalue ''message'' (toObject (jvalue ''error'' obj))))
                    else RpcOk (jvalue ''result'' obj)
                | (_, e) \<Rightarrow> RpcError (''Invalid JSON-RPC response: '' @ e)))"

definition rpcCall :: "qt \<Rightarrow> string \<Rightarrow> string \<Rightarrow> json list \<Rightarrow> string \<times> string \<Rightarrow> nat \<Rightarrow> rpc_world \<Rightarrow> rpc_result \<times> rpc_world" where
  "rpcCall q endpoint method params user timeout w =
     (if \<not> qt_url_valid q endpoint then (RpcError (''Invalid RPC endpoint: '' @ endpoint), w)
      else let n = rpc_steps w;
               payload = rpc_payload q n method params;
               auth = (if fst user = [] then None else Some user)
           in (rpc_answer q endpoint (qt_post q n endpoint payload auth timeout),
               w\<lparr>rpc_steps := n + 1,
                 rpc_posted := rpc_posted w @ [\<lparr>rq_endpoint = endpoint, rq_payload = payload, rq_auth = auth, rq_timeout = timeout\<rparr>]\<rparr>))"

section \<open>Conversions\<close>

definition amountFromJson :: "qt \<Rightarrow> json \<Rightarrow> int" where
  "amountFromJson q val =
     (case val of
        JDouble x \<Rightarrow> amount_of_double (qt_cast q) x
      | _ \<Rightarrow>
          let s = trimmed (toString val)
          in if s = [] then 0
             else if starts_nocase ''0x'' s then
               (case qt_hex64 q (drop 2 s) of Some v \<Rightarrow> sint v | None \<Rightarrow> 0)
             else (case qt_toDouble q s of Some x \<Rightarrow> amount_of_double (qt_cast q) x | None \<Rightarrow> 0))"

definition uint256FromHex :: "qt \<Rightarrow> string \<Rightarrow> bytes" where
  "uint256FromHex q val =
     (let bs = qt_fromHex q (if starts_nocase ''0x'' val then drop 2 val else val);
          copyLen = min (length bs) 32
      in fold (\<lambda>i out. out[copyLen - i - 1 := bs ! (length bs - i - 1)]) [0..<copyLen] (replicate 32 0))"

definition txStatusFromConfirmations :: "int \<Rightarrow> tx_status" where
  "txStatusFromConfirmations confirmations =
     (if confirmations < 0 then Conflicted
      else if confirmations = 0 then Unconfirmed
      else if confirmations < 6 then Confirming
      else Confirmed)"

end
