(* ===== verification/AddressTable.thy ===== *)
theory AddressTable
  imports StateMachine
begin

text \<open>
  Model of \<^verbatim>\<open>AddressTableModel\<close> of \<^verbatim>\<open>BHTWalletPro/src/qt/walletmodel.cpp\<close>: the address book, two lists and a map from
  addresses to rows. Rows and columns are \<^verbatim>\<open>int\<close>; a read or write of a list outside its bounds, which Qt does
  not allow, is the fault \<open>index_out_of_range\<close>. Signals to views carry no state and are left out.
\<close>

section \<open>Data\<close>

datatype qvariant = QNull | QStr string | QNum int | QBool bool

datatype item_role = DisplayRole | EditRole | UserRole | OtherRole nat

datatype orientation = Horizontal | Vertical

datatype item_flag = ItemIsEditable | ItemIsEnabled | ItemIsSelectable

datatype qt_fault = index_out_of_range

text \<open>An index is a row and a column; \<^verbatim>\<open>createIndex\<close> with a negative number gives an invalid one.\<close>

record QModelIndex =
  idx_row :: int
  idx_column :: int

definition isValid :: "QModelIndex \<Rightarrow> bool" where
  "isValid i \<longleftrightarrow> 0 \<le> idx_row i \<and> 0 \<le> idx_column i"

record AddressTableModel =
  m_addresses :: "string list"
  m_labels :: "string list"
  m_address_to_row :: "string \<rightharpoonup> nat"

section \<open>Reading\<close>

definition rowCount :: "AddressTableModel \<Rightarrow> int" where
  "rowCount t = int (length (m_addresses t))"

definition columnCount :: "AddressTableModel \<Rightarrow> int" where
  "columnCount t = 3"

definition list_at :: "'a list \<Rightarrow> int \<Rightarrow> qt_fault + 'a" where
  "list_at xs i = (if 0 \<le> i \<and> i < int (length xs) then Inr (xs ! nat i) else Inl index_out_of_range)"

definition table_data :: "QModelIndex \<Rightarrow> item_role \<Rightarrow> AddressTableModel \<Rightarrow> qt_fault + qvariant" where
  "table_data index role t =
     (if \<not> isValid index \<or> idx_row index \<ge> int (length (m_addresses t)) then Inr QNull
      else if role = DisplayRole \<or> role = EditRole then
        (if idx_column index = 0 then map_sum id QStr (list_at (m_labels t) (idx_row index))
         else if idx_column index = 1 then map_sum id QStr (list_at (m_addresses t) (idx_row index))
         else Inr QNull)
      else if role = UserRole then Inr (QStr ''send'')
      else Inr QNull)"

definition headerData :: "int \<Rightarrow> orientation \<Rightarrow> item_role \<Rightarrow> qvariant" where
  "headerData section orient role =
     (if orient \<noteq> Horizontal \<or> role \<noteq> DisplayRole then QNull
      else if section = 0 then QStr ''Label''
      else if section = 1 then QStr ''Address''
      else QNull)"

definition table_flags :: "QModelIndex \<Rightarrow> item_flag set" where
  "table_flags index =
     (if \<not> isValid index then {}
      else if idx_column index = 0 then {ItemIsEditable, ItemIsEnabled, ItemIsSelectable}
      else {ItemIsEnabled, ItemIsSelectable})"

definition table_index :: "int \<Rightarrow> int \<Rightarrow> QModelIndex" where
  "table_index row column = \<lparr>idx_row = row, idx_column = column\<rparr>"

definition labelForAddress :: "string \<Rightarrow> AddressTableModel \<Rightarrow> qt_fault + string" where
  "labelForAddress address t =
     (case m_address_to_row t address of
        Some row \<Rightarrow> list_at (m_labels t) (int row)
      | None \<Rightarrow> Inr [])"

fun address_search :: "string \<Rightarrow> string list \<Rightarrow> string list \<Rightarrow> int \<Rightarrow> qt_fault + string" where
  "address_search label [] addresses i = Inr []"
| "address_search label (l # labels) addresses i =
     (if l = label then list_at addresses i else address_search label labels addresses (i + 1))"

definition addressForLabel :: "string \<Rightarrow> AddressTableModel \<Rightarrow> qt_fault + string" where
  "addressForLabel label t = address_search label (m_labels t) (m_addresses t) 0"

section \<open>Writing\<close>

definition setData :: "QModelIndex \<Rightarrow> string \<Rightarrow> item_role \<Rightarrow> AddressTableModel \<Rightarrow> bool \<times> AddressTableModel" where
  "setData index val role t =
     (if \<not> isValid index \<or> role \<noteq> EditRole then (False, t)
      else if idx_column index = 0 \<and> idx_row index < int (length (m_labels t)) then
        (True, t\<lparr>m_labels := (m_labels t)[nat (idx_row index) := val]\<rparr>)
      else (False, t))"

definition updateEntry :: "string \<Rightarrow> string \<Rightarrow> AddressTableModel \<Rightarrow> qt_fault + AddressTableModel" where
  "updateEntry address label t =
     (case m_address_to_row t address of
        Some row \<Rightarrow>
          if row < length (m_labels t) then Inr (t\<lparr>m_labels := (m_labels t)[row := label]\<rparr>) else Inl index_out_of_range
      | None \<Rightarrow>
          Inr \<lparr>m_addresses = m_addresses t @ [address], m_labels = m_labels t @ [label],
               m_address_to_row = (m_address_to_row t)(address \<mapsto> length (m_addresses t))\<rparr>)"

definition addAddress :: "string \<Rightarrow> string \<Rightarrow> AddressTableModel \<Rightarrow> qt_fault + bool \<times> AddressTableModel" where
  "addAddress address label t = map_sum id (Pair True) (updateEntry address label t)"

definition updateAddress :: "string \<Rightarrow> string \<Rightarrow> AddressTableModel \<Rightarrow> qt_fault + bool \<times> AddressTableModel" where
  "updateAddress address label t = map_sum id (Pair True) (updateEntry address label t)"

definition remove_at :: "nat \<Rightarrow> 'a list \<Rightarrow> 'a list" where
  "remove_at i xs = take i xs @ drop (Suc i) xs"

definition remove_row :: "nat \<Rightarrow> AddressTableModel \<Rightarrow> AddressTableModel" where
  "remove_row row t =
     \<lparr>m_addresses = remove_at row (m_addresses t), m_labels = remove_at row (m_labels t),
      m_address_to_row = (m_address_to_row t)(m_addresses t ! row := None)\<rparr>"

definition removeRows :: "int \<Rightarrow> int \<Rightarrow> AddressTableModel \<Rightarrow> bool \<times> AddressTableModel" where
  "removeRows row count t =
     (if row < 0 \<or> row + count > int (length (m_addresses t)) then (False, t)
      else (True, (remove_row (nat row) ^^ nat count) t))"

definition removeAddress :: "string \<Rightarrow> AddressTableModel \<Rightarrow> bool \<times> AddressTableModel" where
  "removeAddress address t =
     (case m_address_to_row t address of
        Some row \<Rightarrow> removeRows (int row) 1 t
      | None \<Rightarrow> (False, t))"

definition empty_table :: AddressTableModel where
  "empty_table = \<lparr>m_addresses = [], m_labels = [], m_address_to_row = Map.empty\<rparr>"

definition new_AddressTableModel :: "qt_fault + AddressTableModel" where
  "new_AddressTableModel =
     (case updateEntry ''bht1qdemo1234567890abcdefghijklmn'' ''Main Address'' empty_table of
        Inl e \<Rightarrow> Inl e
      | Inr t \<Rightarrow> updateEntry ''bht1qreceive0987654321zyxwvutsrqpo'' ''Receive Address'' t)"

section \<open>Tables that store values under keys\<close>

text \<open>Storing a list of entries one after the other; a fault ends it.\<close>

fun store_all :: "('k \<Rightarrow> 'v \<Rightarrow> 's \<Rightarrow> 'e + 's) \<Rightarrow> ('k \<times> 'v) list \<Rightarrow> 's \<Rightarrow> 'e + 's" where
  "store_all store [] s = Inr s"
| "store_all store ((k, v) # kvs) s = (case store k v s of Inl e \<Rightarrow> Inl e | Inr s \<Rightarrow> store_all store kvs s)"

text \<open>
  The contract of a component that stores values under keys: storing succeeds, keeps the invariant and
  updates the map the state stands for, and reading returns what that map has.
\<close>

locale keyed_store =
  fixes store :: "'k \<Rightarrow> 'v \<Rightarrow> 's \<Rightarrow> 'e + 's"
    and read :: "'k \<Rightarrow> 's \<Rightarrow> 'e + 'v"
    and abs :: "'s \<Rightarrow> 'k \<rightharpoonup> 'v"
    and inv :: "'s \<Rightarrow> bool"
    and default :: 'v
  assumes store_abs: "inv s \<Longrightarrow> \<exists>s'. store k v s = Inr s' \<and> inv s' \<and> abs s' = (abs s)(k \<mapsto> v)"
    and read_abs: "inv s \<Longrightarrow> read k s = Inr (case abs s k of None \<Rightarrow> default | Some v \<Rightarrow> v)"
begin

lemma store_all_abs:
  "inv s \<Longrightarrow> \<exists>s'. store_all store kvs s = Inr s' \<and> inv s' \<and> abs s' = abs s ++ map_of (rev kvs)"
proof (induction kvs arbitrary: s)
  case Nil
  then show ?case by simp
next
  case (Cons kv kvs)
  obtain k v where kv: "kv = (k, v)" by fastforce
  from store_abs [OF Cons.prems, of k v] obtain s1 where s1: "store k v s = Inr s1" "inv s1" "abs s1 = (abs s)(k \<mapsto> v)" by blast
  from Cons.IH [OF s1(2)] obtain s' where s': "store_all store kvs s1 = Inr s'" "inv s'" "abs s' = abs s1 ++ map_of (rev kvs)" by blast
  have "abs s1 ++ map_of (rev kvs) = abs s ++ map_of (rev (kv # kvs))"
    using s1(3) kv by (auto simp: fun_eq_iff map_add_def split: option.splits)
  with s1 s' kv show ?case by auto
qed

lemma read_after_store_all:
  "inv s \<Longrightarrow> \<exists>s'. store_all store kvs s = Inr s' \<and>
     (\<forall>k. read k s' = Inr (case map_of (rev kvs) k of Some v \<Rightarrow> v | None \<Rightarrow> (case abs s k of None \<Rightarrow> default | Some v \<Rightarrow> v)))"
proof -
  assume "inv s"
  from store_all_abs [OF this] obtain s' where s': "store_all store kvs s = Inr s'" "inv s'" "abs s' = abs s ++ map_of (rev kvs)" by blast
  have "read k s' = Inr (case map_of (rev kvs) k of Some v \<Rightarrow> v | None \<Rightarrow> (case abs s k of None \<Rightarrow> default | Some v \<Rightarrow> v))" for k
    using read_abs [OF s'(2), of k] s'(3) by (simp add: map_add_def split: option.splits)
  with s'(1) show ?thesis by blast
qed

end

section \<open>The address book as a map\<close>

text \<open>
  A table is consistent when its lists have one length, no address occurs twice and the map files each
  address under its row; it then stands for the map from its addresses to their labels.
\<close>

definition consistent :: "AddressTableModel \<Rightarrow> bool" where
  "consistent t \<longleftrightarrow> length (m_labels t) = length (m_addresses t) \<and> distinct (m_addresses t) \<and>
     (\<forall>a i. m_address_to_row t a = Some i \<longleftrightarrow> i < length (m_addresses t) \<and> m_addresses t ! i = a)"

definition book :: "AddressTableModel \<Rightarrow> string \<rightharpoonup> string" where
  "book t = map_of (zip (m_addresses t) (m_labels t))"

lemma consistent_row:
  assumes "consistent t" and "i < length (m_addresses t)"
  shows "m_address_to_row t (m_addresses t ! i) = Some i" "i < length (m_labels t)"
    "book t (m_addresses t ! i) = Some (m_labels t ! i)"
proof -
  have c: "length (m_labels t) = length (m_addresses t)" "distinct (m_addresses t)"
    "\<And>a i. m_address_to_row t a = Some i \<longleftrightarrow> i < length (m_addresses t) \<and> m_addresses t ! i = a"
    using assms(1) by (simp_all add: consistent_def)
  show "m_address_to_row t (m_addresses t ! i) = Some i" "i < length (m_labels t)" using c assms(2) by auto
  show "book t (m_addresses t ! i) = Some (m_labels t ! i)"
    unfolding book_def by (rule map_of_zip_nth) (use c assms(2) in simp_all)
qed

lemma consistent_none:
  assumes "consistent t"
  shows "m_address_to_row t a = None \<longleftrightarrow> a \<notin> set (m_addresses t)"
  using assms unfolding consistent_def by (metis in_set_conv_nth not_None_eq)

lemma book_none: "consistent t \<Longrightarrow> a \<notin> set (m_addresses t) \<Longrightarrow> book t a = None"
  by (simp add: book_def consistent_def map_of_zip_is_None)

lemma row_cases:
  assumes "consistent t"
  obtains (absent) "m_address_to_row t a = None" "a \<notin> set (m_addresses t)" "book t a = None"
    | (row) i where "i < length (m_addresses t)" "m_addresses t ! i = a" "m_address_to_row t a = Some i"
        "i < length (m_labels t)" "book t a = Some (m_labels t ! i)"
proof (cases "a \<in> set (m_addresses t)")
  case True
  then obtain i where "i < length (m_addresses t)" "m_addresses t ! i = a" by (auto simp: in_set_conv_nth)
  with consistent_row [OF assms, of i] row [of i] show thesis by auto
next
  case False
  with assms show thesis by (intro absent) (auto simp: consistent_none book_none)
qed

lemma labelForAddress_book:
  assumes "consistent t"
  shows "labelForAddress a t = Inr (case book t a of None \<Rightarrow> [] | Some l \<Rightarrow> l)"
  by (rule row_cases [OF assms, of a]) (simp_all add: labelForAddress_def list_at_def)

lemma updateEntry_book:
  assumes "consistent t"
  shows "\<exists>t'. updateEntry a l t = Inr t' \<and> consistent t' \<and> book t' = (book t)(a \<mapsto> l)"
proof (rule row_cases [OF assms, of a])
  fix i assume r: "i < length (m_addresses t)" "m_addresses t ! i = a" "m_address_to_row t a = Some i" "i < length (m_labels t)"
  let ?t = "t\<lparr>m_labels := (m_labels t)[i := l]\<rparr>"
  have c: "consistent ?t" using assms by (simp add: consistent_def)
  have "book ?t = (book t)(a \<mapsto> l)"
  proof
    fix b
    show "book ?t b = ((book t)(a \<mapsto> l)) b"
    proof (rule row_cases [OF c, of b])
      fix j assume j: "j < length (m_addresses ?t)" "m_addresses ?t ! j = b" "book ?t b = Some (m_labels ?t ! j)"
      show ?thesis
      proof (cases "j = i")
        case False
        then have "b \<noteq> a" using j r assms by (auto simp: consistent_def nth_eq_iff_index_eq)
        moreover have "book t b = Some (m_labels t ! j)" using consistent_row(3) [OF assms, of j] j by simp
        ultimately show ?thesis using j False by simp
      qed (use j r in simp)
    next
      assume b: "b \<notin> set (m_addresses ?t)" "book ?t b = None"
      then have "b \<noteq> a" "book t b = None" using r assms by (auto simp: book_none)
      with b show ?thesis by simp
    qed
  qed
  with c r show ?thesis by (simp add: updateEntry_def)
next
  assume n: "m_address_to_row t a = None" "a \<notin> set (m_addresses t)"
  let ?t = "\<lparr>m_addresses = m_addresses t @ [a], m_labels = m_labels t @ [l],
      m_address_to_row = (m_address_to_row t)(a \<mapsto> length (m_addresses t))\<rparr>"
  have l: "length (m_labels t) = length (m_addresses t)" using assms by (simp add: consistent_def)
  have "consistent ?t"
    using assms n by (auto simp: consistent_def nth_append less_Suc_eq in_set_conv_nth split: if_splits)
  moreover have "book ?t = (book t)(a \<mapsto> l)"
  proof -
    have "book ?t = [a \<mapsto> l] ++ book t" using l by (simp add: book_def)
    also have "\<dots> = (book t)(a \<mapsto> l)"
      using book_none [OF assms n(2)] by (auto simp: fun_eq_iff map_add_def split: option.splits)
    finally show ?thesis .
  qed
  ultimately show ?thesis using n by (simp add: updateEntry_def)
qed

interpretation addresses: keyed_store updateEntry labelForAddress book consistent "[]"
  by unfold_locales (rule updateEntry_book, assumption, rule labelForAddress_book, assumption)

lemma new_table_consistent: "\<exists>t. new_AddressTableModel = Inr t \<and> consistent t"
proof -
  have "consistent empty_table" by (simp add: consistent_def empty_table_def)
  from addresses.store_all_abs [OF this, of "[(''bht1qdemo1234567890abcdefghijklmn'', ''Main Address''),
      (''bht1qreceive0987654321zyxwvutsrqpo'', ''Receive Address'')]"]
  show ?thesis by (auto simp: new_AddressTableModel_def split: sum.splits)
qed


section \<open>Removal\<close>

lemma remove_at_nth: "r < length xs \<Longrightarrow> i < length xs - 1 \<Longrightarrow> remove_at r xs ! i = xs ! (if i < r then i else Suc i)"
  by (simp add: remove_at_def nth_append)

lemma remove_at_length: "r < length xs \<Longrightarrow> length (remove_at r xs) = length xs - 1"
  by (simp add: remove_at_def)

text \<open>
  Removing an entry misfiles the entries behind it: the map keeps their old rows, so that afterwards each
  of them is given the label of its successor, and asking for the label of the last entry is out of range.
\<close>

theorem removal_misfiles_labels:
  assumes "consistent t" and "r < length (m_addresses t)" and "i < length (m_addresses t)" and "i \<noteq> r"
  shows "\<exists>t'. removeAddress (m_addresses t ! r) t = (True, t') \<and>
    labelForAddress (m_addresses t ! i) t' =
      (if i < r then Inr (m_labels t ! i)
       else if Suc i < length (m_addresses t) then Inr (m_labels t ! Suc i)
       else Inl index_out_of_range)"
proof -
  note r = consistent_row [OF assms(1,2)] and i = consistent_row [OF assms(1,3)]
  have l: "length (m_labels t) = length (m_addresses t)" using assms(1) by (simp add: consistent_def)
  have ne: "m_addresses t ! i \<noteq> m_addresses t ! r"
    using assms by (auto simp: consistent_def nth_eq_iff_index_eq)
  let ?t = "remove_row r t"
  have "removeAddress (m_addresses t ! r) t = (True, ?t)"
    using r(1) assms(2) by (simp add: removeAddress_def removeRows_def)
  moreover have "m_address_to_row ?t (m_addresses t ! i) = Some i" using ne i(1) by (simp add: remove_row_def)
  then have "labelForAddress (m_addresses t ! i) ?t =
      (if i < length (m_addresses t) - 1 then Inr (remove_at r (m_labels t) ! i) else Inl index_out_of_range)"
    using assms(2) l by (simp add: labelForAddress_def list_at_def remove_row_def remove_at_length) linarith
  ultimately show ?thesis
    using assms(2-4) l remove_at_nth [of r "m_labels t" i] by (auto simp: less_diff_conv)
qed

theorem removal_misfiles_labels_witness:
  "\<exists>t t'. store_all updateEntry [(''a'', ''1''), (''b'', ''2''), (''c'', ''3'')] empty_table = Inr t \<and>
     removeAddress ''a'' t = (True, t') \<and> labelForAddress ''b'' t' = Inr ''3''"
proof -
  let ?t = "\<lparr>m_addresses = [''a'', ''b'', ''c''], m_labels = [''1'', ''2'', ''3''],
    m_address_to_row = [''a'' \<mapsto> 0, ''b'' \<mapsto> 1, ''c'' \<mapsto> 2]\<rparr>"
  have s: "store_all updateEntry [(''a'', ''1''), (''b'', ''2''), (''c'', ''3'')] empty_table = Inr ?t"
    by (simp add: updateEntry_def empty_table_def numeral_2_eq_2)
  have "consistent empty_table" by (simp add: consistent_def empty_table_def)
  from addresses.store_all_abs [OF this] s have "consistent ?t" by (metis sum.inject(2))
  from removal_misfiles_labels [OF this, of 0 1] s show ?thesis by auto
qed

end
