(* ===== verification/WalletModel.thy ===== *)
theory WalletModel
  imports WalletRpc AddressTable
begin

text \<open>
  Model of \<^verbatim>\<open>WalletModel\<close> and \<^verbatim>\<open>TransactionTableModel\<close> (\<^verbatim>\<open>BHTWalletPro/src/qt/walletmodel.cpp\<close>): the state the wallet
  keeps of the two chains, sending, building and broadcasting transactions, the proofs of the bridge, the
  history, and the node processes. Locks, timers and signals are left out; an optional error text of the caller is part
  of the result.
\<close>

section \<open>Data\<close>

datatype StatusCode = OK | INVALID_ADDRESS | DUPLICATE_ADDRESS | WALLET_UNLOCK_NEEDED | WALLET_KEYPOOL_NEEDED | ERROR

record SendCoinsReturn =
  ret_status :: StatusCode
  ret_msg :: string
  ret_txid :: string

record SendCoinsRecipient =
  rcp_address :: string
  rcp_label :: string
  rcp_asset :: string
  rcp_amount :: int
  rcp_subtract_fee :: bool

record ChainState =
  cs_chain :: string
  cs_endpoint :: string
  cs_connected :: bool
  cs_height :: int
  cs_peers :: int
  cs_balance :: int
  cs_bestBlock :: string
  cs_lastError :: string

record BridgeVerification =
  bv_valid :: bool
  bv_chain :: string
  bv_txid :: string
  bv_confirmations :: int
  bv_height :: int
  bv_blockHash :: string
  bv_stateRoot :: string
  bv_message :: string
  bv_proofJson :: string

record NodeProcessState =
  np_chain :: string
  np_executable :: string
  np_dataDir :: string
  np_arguments :: "string list"
  np_managed :: bool
  np_running :: bool
  np_pid :: int
  np_lastError :: string

record TransactionBuildResult =
  tb_ok :: bool
  tb_chain :: string
  tb_rawHex :: string
  tb_signedHex :: string
  tb_txid :: string
  tb_message :: string
  tb_fee :: int
  tb_complete :: bool

text \<open>The last field is the static variable of \<^verbatim>\<open>checkBalanceChanged\<close>; \<open>wm_table\<close> is the shared table of transactions.\<close>

record WalletModel =
  wm_balances :: "int list"
  wm_watch_only :: bool
  wm_encryption_status :: int
  wm_bht :: ChainState
  wm_bhte :: ChainState
  wm_last_poll :: "int option"
  wm_bht_process :: bool
  wm_bhte_process :: bool
  wm_indexed :: "TransactionRecord list"
  wm_table :: "TransactionRecord list"
  wm_lastBalance :: int

type_synonym wm_state = "WalletModel \<times> rpc_world"

definition new_ChainState :: "string \<Rightarrow> string \<Rightarrow> ChainState" where
  "new_ChainState chain endpoint =
     \<lparr>cs_chain = chain, cs_endpoint = endpoint, cs_connected = False, cs_height = 0, cs_peers = 0, cs_balance = 0,
      cs_bestBlock = [], cs_lastError = []\<rparr>"

definition new_WalletModel :: "qt \<Rightarrow> WalletModel" where
  "new_WalletModel q =
     \<lparr>wm_balances = replicate 6 0, wm_watch_only = False, wm_encryption_status = 0,
      wm_bht = new_ChainState ''BHT'' (setting q ''bhtRpcEndpoint'' ''http://127.0.0.1:18332''),
      wm_bhte = new_ChainState ''BHTE'' (setting q ''bhteRpcEndpoint'' ''http://127.0.0.1:8545''),
      wm_last_poll = None, wm_bht_process = False, wm_bhte_process = False, wm_indexed = [], wm_table = [], wm_lastBalance = 0\<rparr>"

section \<open>Simple queries\<close>

definition getBalance :: "WalletModel \<Rightarrow> int" where "getBalance m = wm_balances m ! 0"
definition getUnconfirmedBalance :: "WalletModel \<Rightarrow> int" where "getUnconfirmedBalance m = wm_balances m ! 1"
definition getImmatureBalance :: "WalletModel \<Rightarrow> int" where "getImmatureBalance m = wm_balances m ! 2"
definition getWatchOnlyBalance :: "WalletModel \<Rightarrow> int" where "getWatchOnlyBalance m = wm_balances m ! 3"
definition getWatchUnconfirmedBalance :: "WalletModel \<Rightarrow> int" where "getWatchUnconfirmedBalance m = wm_balances m ! 4"
definition getWatchImmatureBalance :: "WalletModel \<Rightarrow> int" where "getWatchImmatureBalance m = wm_balances m ! 5"

text \<open>The six balances \<^verbatim>\<open>updateStatus\<close> and \<^verbatim>\<open>checkBalanceChanged\<close> announce.\<close>

definition announced :: "WalletModel \<Rightarrow> int list" where
  "announced m = [getBalance m, getUnconfirmedBalance m, getImmatureBalance m, getWatchOnlyBalance m,
     getWatchUnconfirmedBalance m, getWatchImmatureBalance m]"

definition setEncryptionStatus :: "int \<Rightarrow> WalletModel \<Rightarrow> WalletModel" where
  "setEncryptionStatus status m = (if wm_encryption_status m \<noteq> status then m\<lparr>wm_encryption_status := status\<rparr> else m)"

definition updateWatchOnlyBalance :: "bool \<Rightarrow> WalletModel \<Rightarrow> WalletModel" where
  "updateWatchOnlyBalance haveWatchOnly m = m\<lparr>wm_watch_only := haveWatchOnly\<rparr>"

definition setRpcEndpoints :: "string \<Rightarrow> string \<Rightarrow> WalletModel \<Rightarrow> WalletModel" where
  "setRpcEndpoints bht bhte m =
     (let m = (if bht \<noteq> [] then m\<lparr>wm_bht := (wm_bht m)\<lparr>cs_endpoint := bht\<rparr>\<rparr> else m)
      in if bhte \<noteq> [] then m\<lparr>wm_bhte := (wm_bhte m)\<lparr>cs_endpoint := bhte\<rparr>\<rparr> else m)"

definition checkBalanceChanged :: "WalletModel \<Rightarrow> int list option \<times> WalletModel" where
  "checkBalanceChanged m =
     (if getBalance m \<noteq> wm_lastBalance m then (Some (announced m), m\<lparr>wm_lastBalance := getBalance m\<rparr>) else (None, m))"

definition validateAddress :: "string \<Rightarrow> bool" where
  "validateAddress address =
     (if starts_with ''0x'' address \<and> length address = 42 then True
      else if starts_with ''bhte1'' address then length address \<ge> 42
      else if starts_with ''bht1'' address \<or> starts_with ''tb1'' address then length address \<ge> 42
      else if starts_with ''1'' address \<or> starts_with ''3'' address \<or> starts_with ''b'' address then length address \<ge> 26
      else False)"

definition getDataDir :: "qt \<Rightarrow> string" where
  "getDataDir q = qt_home q @ ''/BHT''"

definition getWalletFile :: "qt \<Rightarrow> string" where
  "getWalletFile q = qt_home q @ ''/BHT/wallet.dat''"

text \<open>Queries that are answered without looking at the state; the identifier of a transaction is its 32 bytes.\<close>

definition isWalletEnabled :: bool where "isWalletEnabled = True"
definition isMultiWalletEnabled :: bool where "isMultiWalletEnabled = False"
definition getWalletName :: string where "getWalletName = ''Default Wallet''"
definition getDisplayName :: string where "getDisplayName = ''BHT Wallet''"
definition hdEnabled :: bool where "hdEnabled = True"
definition getDefaultWalletType :: int where "getDefaultWalletType = 0"
definition getDefaultInternal :: bool where "getDefaultInternal = False"
definition hdKeypoolAffected :: bool where "hdKeypoolAffected = False"

definition getPurpose :: "string \<Rightarrow> string" where
  "getPurpose addr = ''receive''"

definition getTransactionDetails :: "bytes \<Rightarrow> bool \<times> string \<times> string" where
  "getTransactionDetails txid = (True, ''0.00000000'', ''confirmed'')"

definition getAddressBookMapping :: "string \<rightharpoonup> string" where
  "getAddressBookMapping = [''Sample Address'' \<mapsto> ''bht1qsampleaddress1234567890abcdef'']"

definition listTxid :: "u64 \<Rightarrow> int \<Rightarrow> (string \<rightharpoonup> bytes list)" where
  "listTxid minOrderPos nCreateTime = Map.empty"

definition getTransactionStatus :: "bytes \<Rightarrow> string" where
  "getTransactionStatus txid = ''confirmed''"

definition getTransactionAmount :: "bytes \<Rightarrow> string" where
  "getTransactionAmount txid = ''0.00000000''"

section \<open>Calls to the nodes\<close>

definition bht_user :: "qt \<Rightarrow> string \<times> string" where
  "bht_user q = (setting q ''bhtRpcUser'' [], setting q ''bhtRpcPassword'' [])"

definition bht_call :: "qt \<Rightarrow> string \<Rightarrow> json list \<Rightarrow> nat \<Rightarrow> wm_state \<Rightarrow> rpc_result \<times> wm_state" where
  "bht_call q method params timeout = (\<lambda>(m, w).
     case rpcCall q (cs_endpoint (wm_bht m)) method params (bht_user q) timeout w of (r, w) \<Rightarrow> (r, (m, w)))"

definition bhte_call :: "qt \<Rightarrow> string \<Rightarrow> json list \<Rightarrow> nat \<Rightarrow> wm_state \<Rightarrow> rpc_result \<times> wm_state" where
  "bhte_call q method params timeout = (\<lambda>(m, w).
     case rpcCall q (cs_endpoint (wm_bhte m)) method params ([], []) timeout w of (r, w) \<Rightarrow> (r, (m, w)))"

text \<open>The account, or the empty text together with the error.\<close>

definition getDefaultBHTEAccount :: "qt \<Rightarrow> nat \<Rightarrow> wm_state \<Rightarrow> (string \<times> string) \<times> wm_state" where
  "getDefaultBHTEAccount q timeout s =
     (let account = setting q ''bhteDefaultAccount'' []
      in if account \<noteq> [] then ((account, []), s)
         else (case bhte_call q ''eth_accounts'' [] timeout s of
                 (RpcError e, s) \<Rightarrow> (([], e), s)
               | (RpcOk result, s) \<Rightarrow>
                   (case toArray result of
                      [] \<Rightarrow> (([], ''No BHTE account returned by eth_accounts.''), s)
                    | a # _ \<Rightarrow> ((toString a, []), s))))"

section \<open>Refreshing the state of the chains\<close>

definition refreshBHTState :: "qt \<Rightarrow> wm_state \<Rightarrow> bool \<times> wm_state" where
  "refreshBHTState q = (\<lambda>(m, w).
     let next' = (wm_bht m)\<lparr>cs_endpoint := setting q ''bhtRpcEndpoint''
           (if cs_endpoint (wm_bht m) = [] then ''http://127.0.0.1:18332'' else cs_endpoint (wm_bht m))\<rparr>;
         call = (\<lambda>method w. rpcCall q (cs_endpoint next') method [] (bht_user q) POLL_RPC_TIMEOUT_MS w)
     in case call ''getblockchaininfo'' w of
          (RpcError e, w) \<Rightarrow> (False, (m\<lparr>wm_bht := next'\<lparr>cs_connected := False, cs_lastError := e\<rparr>\<rparr>, w))
        | (RpcOk result, w) \<Rightarrow>
            let info = toObject result;
                next' = next'\<lparr>cs_connected := True, cs_height := qt_long q (jvalue ''blocks'' info),
                  cs_bestBlock := toString (jvalue ''bestblockhash'' info), cs_lastError := []\<rparr>;
                (r1, w) = call ''getnetworkinfo'' w;
                next' = (case r1 of RpcOk result \<Rightarrow> next'\<lparr>cs_peers := qt_int q (jvalue ''connections'' (toObject result))\<rparr>
                          | RpcError e \<Rightarrow> next');
                (r2, w) = call ''getbalance'' w
            in (case r2 of
                  RpcOk result \<Rightarrow>
                    let b = amountFromJson q result
                    in (True, (m\<lparr>wm_balances := (wm_balances m)[0 := b], wm_bht := next'\<lparr>cs_balance := b\<rparr>\<rparr>, w))
                | RpcError e \<Rightarrow> (True, (m\<lparr>wm_bht := next'\<rparr>, w))))"

definition refreshBHTEState :: "qt \<Rightarrow> wm_state \<Rightarrow> bool \<times> wm_state" where
  "refreshBHTEState q = (\<lambda>(m, w).
     let next' = (wm_bhte m)\<lparr>cs_endpoint := setting q ''bhteRpcEndpoint''
           (if cs_endpoint (wm_bhte m) = [] then ''http://127.0.0.1:8545'' else cs_endpoint (wm_bhte m))\<rparr>;
         call = (\<lambda>method params w. rpcCall q (cs_endpoint next') method params ([], []) POLL_RPC_TIMEOUT_MS w)
     in case call ''eth_blockNumber'' [] w of
          (RpcError e, w) \<Rightarrow> (False, (m\<lparr>wm_bhte := next'\<lparr>cs_connected := False, cs_lastError := e\<rparr>\<rparr>, w))
        | (RpcOk result, w) \<Rightarrow>
            let next' = next'\<lparr>cs_connected := True, cs_height := amountFromJson q result, cs_lastError := []\<rparr>;
                (r1, w) = call ''net_peerCount'' [] w;
                next' = (case r1 of
                            RpcOk result \<Rightarrow> next'\<lparr>cs_peers := sint (word_of_int (amountFromJson q result) :: 32 word)\<rparr>
                          | RpcError e \<Rightarrow> next');
                ((account, e), (m, w)) = getDefaultBHTEAccount q POLL_RPC_TIMEOUT_MS (m, w)
            in if account = [] then (True, (m\<lparr>wm_bhte := next'\<rparr>, w))
               else (case call ''eth_getBalance'' [JString account, JString ''latest''] w of
                       (RpcOk result, w) \<Rightarrow> (True, (m\<lparr>wm_bhte := next'\<lparr>cs_balance := amountFromJson q result\<rparr>\<rparr>, w))
                     | (RpcError e, w) \<Rightarrow> (True, (m\<lparr>wm_bhte := next'\<rparr>, w))))"

section \<open>The transaction history\<close>

definition bht_record :: "qt \<Rightarrow> json \<Rightarrow> TransactionRecord" where
  "bht_record q val =
     (let obj = toObject val;
          txid = toString (jvalue ''txid'' obj);
          amount = amountFromJson q (jvalue ''amount'' obj);
          depth = qt_int q (jvalue ''confirmations'' obj);
          r = new_TransactionRecord\<lparr>tr_txid := txid, tr_hash := uint256FromHex q txid, tr_time := qt_long q (jvalue ''time'' obj),
                tr_address := toString (jvalue ''address'' obj), tr_asset := ''BHT'', tr_narration := toString (jvalue ''category'' obj)\<rparr>;
          r = (if amount \<ge> 0 then r\<lparr>tr_credit := amount, tr_type := RecvWithAddress\<rparr>
               else r\<lparr>tr_debit := - amount, tr_type := SendToAddress\<rparr>)
      in r\<lparr>tr_fee := amountFromJson q (jvalue ''fee'' obj), tr_depth := depth, tr_status := txStatusFromConfirmations depth\<rparr>)"

definition bhte_record :: "qt \<Rightarrow> string \<Rightarrow> json \<Rightarrow> TransactionRecord" where
  "bhte_record q account val =
     (let obj = toObject val;
          txid = toString_or (toString (jvalue ''txid'' obj)) (jvalue ''hash'' obj);
          from = toString (jvalue ''from'' obj);
          to = toString (jvalue ''to'' obj);
          incoming = same_nocase to account;
          amount = amountFromJson q (jvalue ''value'' obj);
          timestamp = qt_long q (jvalue ''timestamp'' obj);
          depth = qt_int q (jvalue ''confirmations'' obj)
      in new_TransactionRecord\<lparr>tr_txid := txid, tr_hash := uint256FromHex q txid,
           tr_time := (if timestamp = 0 then qt_long q (jvalue ''time'' obj) else timestamp),
           tr_address := (if incoming then from else to), tr_asset := ''BHTE'',
           tr_narration := (if incoming then ''incoming'' else ''outgoing''),
           tr_credit := (if incoming then amount else 0), tr_debit := (if incoming then 0 else amount),
           tr_fee := amountFromJson q (jvalue ''fee'' obj), tr_depth := depth, tr_status := txStatusFromConfirmations depth,
           tr_type := (if incoming then RecvWithAddress else SendToAddress)\<rparr>)"

definition setTransactions :: "TransactionRecord list \<Rightarrow> WalletModel \<Rightarrow> WalletModel" where
  "setTransactions transactions m = m\<lparr>wm_table := transactions\<rparr>"

text \<open>The result is success and the error text.\<close>

definition refreshBHTTransactions :: "qt \<Rightarrow> wm_state \<Rightarrow> (bool \<times> string) \<times> wm_state" where
  "refreshBHTTransactions q s =
     (case bht_call q ''listtransactions''
             [JString ''*'', JDouble (of_int (setting_int q ''bhtHistoryCount'' 100)), JDouble 0, JBool True] POLL_RPC_TIMEOUT_MS s of
        (RpcError e, s) \<Rightarrow> ((False, e), s)
      | (RpcOk result, (m, w)) \<Rightarrow> ((True, []), (m\<lparr>wm_indexed := wm_indexed m @ map (bht_record q) (toArray result)\<rparr>, w)))"

definition refreshBHTETransactions :: "qt \<Rightarrow> wm_state \<Rightarrow> (bool \<times> string) \<times> wm_state" where
  "refreshBHTETransactions q s =
     (case getDefaultBHTEAccount q POLL_RPC_TIMEOUT_MS s of
        ((account, e), s) \<Rightarrow>
          if account = [] then ((False, e), s)
          else let method = setting q ''bhteHistoryMethod'' ''bhte_getTransactionsByAddress''
               in if trimmed method = [] then ((True, []), s)
                  else (case bhte_call q method
                               [JString account, JDouble (of_int (setting_int q ''bhteHistoryCount'' 100))] POLL_RPC_TIMEOUT_MS s of
                          (RpcError e, s) \<Rightarrow> ((False, e), s)
                        | (RpcOk result, (m, w)) \<Rightarrow>
                            ((True, []), (m\<lparr>wm_indexed := wm_indexed m @ map (bhte_record q account) (toArray result)\<rparr>, w))))"

definition syncTransactionHistory :: "qt \<Rightarrow> wm_state \<Rightarrow> (bool \<times> string) \<times> wm_state" where
  "syncTransactionHistory q = (\<lambda>(m, w).
     case refreshBHTTransactions q (m\<lparr>wm_indexed := []\<rparr>, w) of
       ((bhtOk, bhtError), s) \<Rightarrow>
         (case refreshBHTETransactions q s of
            ((bhteOk, bhteError), (m, w)) \<Rightarrow>
              let sorted' = qt_sort q (wm_indexed m);
                  errors = (if \<not> bhtOk \<and> bhtError \<noteq> [] then [''BHT: '' @ bhtError] else []) @
                           (if \<not> bhteOk \<and> bhteError \<noteq> [] then [''BHTE: '' @ bhteError] else [])
              in ((bhtOk \<or> bhteOk, (case errors of [] \<Rightarrow> [] | [e] \<Rightarrow> e | e # e' # _ \<Rightarrow> e @ ''; '' @ e')),
                  (setTransactions sorted' (m\<lparr>wm_indexed := sorted'\<rparr>), w))))"

definition refreshChainStates :: "qt \<Rightarrow> wm_state \<Rightarrow> bool \<times> wm_state" where
  "refreshChainStates q s =
     (case refreshBHTState q s of
        (bht, s) \<Rightarrow>
          (case refreshBHTEState q s of
             (bhte, s) \<Rightarrow> (bht \<or> bhte, snd (syncTransactionHistory q s))))"

definition pollTimerFires :: "qt \<Rightarrow> wm_state \<Rightarrow> int list option \<times> wm_state" where
  "pollTimerFires q = (\<lambda>(m, w).
     let now = qt_now q (rpc_steps w);
         due = (case wm_last_poll m of None \<Rightarrow> True | Some t \<Rightarrow> now - t \<ge> 15);
         (m, w) = (if due then snd (refreshChainStates q (m\<lparr>wm_last_poll := Some now\<rparr>, w)) else (m, w))
     in case checkBalanceChanged m of (r, m) \<Rightarrow> (r, (m, w)))"

section \<open>Sending\<close>

definition failed :: "StatusCode \<Rightarrow> string \<Rightarrow> SendCoinsReturn" where
  "failed status msg = \<lparr>ret_status = status, ret_msg = msg, ret_txid = []\<rparr>"

fun recipients_error :: "SendCoinsRecipient list \<Rightarrow> SendCoinsReturn option" where
  "recipients_error [] = None"
| "recipients_error (r # rs) =
     (if \<not> validateAddress (rcp_address r) then Some (failed INVALID_ADDRESS (''Invalid address: '' @ rcp_address r))
      else if rcp_asset r = ''BHTE'' \<and> \<not> (starts_with ''0x'' (rcp_address r) \<or> starts_with ''bhte1'' (rcp_address r))
      then Some (failed INVALID_ADDRESS ''BHTE transfers require a BHTE account address.'')
      else recipients_error rs)"

definition decimal_json :: "qt \<Rightarrow> int \<Rightarrow> json" where
  "decimal_json q amount = JDouble (case qt_toDouble q (amountToDecimalString amount) of Some x \<Rightarrow> x | None \<Rightarrow> 0)"

definition sendCoins :: "qt \<Rightarrow> SendCoinsRecipient list \<Rightarrow> wm_state \<Rightarrow> SendCoinsReturn \<times> wm_state" where
  "sendCoins q recipients s =
     (case recipients_error recipients of
        Some e \<Rightarrow> (e, s)
      | None \<Rightarrow>
          (case recipients of
             [] \<Rightarrow> (failed ERROR ''No recipients.'', s)
           | recipient # _ \<Rightarrow>
               if rcp_asset recipient = ''BHTE'' then
                 (case getDefaultBHTEAccount q 8000 s of
                    ((from, e), s) \<Rightarrow>
                      if from = [] then
                        (failed ERROR (if e = [] then ''No BHTE account configured. Set bhteDefaultAccount or unlock an account on the BHTE node.'' else e), s)
                      else let tx = [(''from'', JString from), (''to'', JString (rcp_address recipient)),
                                     (''value'', JString (quantityToHex (rcp_amount recipient))), (''gas'', JString ''0x5208'')]
                           in (case bhte_call q ''eth_sendTransaction'' [JObject tx] 8000 s of
                                 (RpcError e, s) \<Rightarrow> (failed ERROR e, s)
                               | (RpcOk result, s) \<Rightarrow>
                                   (\<lparr>ret_status = OK, ret_msg = ''BHTE transaction broadcast.'', ret_txid = toString result\<rparr>,
                                    snd (refreshBHTEState q s))))
               else (case bht_call q ''sendtoaddress''
                            [JString (rcp_address recipient), decimal_json q (rcp_amount recipient), JString (rcp_label recipient),
                             JString [], JBool (rcp_subtract_fee recipient)] 8000 s of
                       (RpcError e, s) \<Rightarrow> (failed ERROR e, s)
                     | (RpcOk result, s) \<Rightarrow>
                         (\<lparr>ret_status = OK, ret_msg = ''BHT transaction broadcast.'', ret_txid = toString result\<rparr>,
                          snd (refreshBHTState q s)))))"

definition broadcastRawTransaction :: "qt \<Rightarrow> string \<Rightarrow> string \<Rightarrow> wm_state \<Rightarrow> SendCoinsReturn \<times> wm_state" where
  "broadcastRawTransaction q chain rawTransaction s =
     (case (if same_nocase chain ''BHTE'' then bhte_call q ''eth_sendRawTransaction'' [JString rawTransaction] 8000 s
            else bht_call q ''sendrawtransaction'' [JString rawTransaction] 8000 s) of
        (RpcError e, s) \<Rightarrow> (failed ERROR e, s)
      | (RpcOk result, s) \<Rightarrow> (\<lparr>ret_status = OK, ret_msg = ''Raw transaction broadcast.'', ret_txid = toString result\<rparr>, s))"

section \<open>Building transactions\<close>

definition new_build :: "string \<Rightarrow> TransactionBuildResult" where
  "new_build chain = \<lparr>tb_ok = False, tb_chain = chain, tb_rawHex = [], tb_signedHex = [], tb_txid = [], tb_message = [], tb_fee = 0, tb_complete = False\<rparr>"

definition buildBHTRawTransaction :: "qt \<Rightarrow> string \<Rightarrow> int \<Rightarrow> bool \<Rightarrow> bool \<Rightarrow> wm_state \<Rightarrow> TransactionBuildResult \<times> wm_state" where
  "buildBHTRawTransaction q toAddress amount subtractFee sign s =
     (let b = new_build ''BHT''
      in if \<not> validateAddress toAddress \<or> amount \<le> 0 then (b\<lparr>tb_message := ''Invalid BHT destination or amount.''\<rparr>, s)
         else (case bht_call q ''createrawtransaction'' [JArray [], JObject [(toAddress, decimal_json q amount)]] 8000 s of
                 (RpcError e, s) \<Rightarrow> (b\<lparr>tb_message := e\<rparr>, s)
               | (RpcOk result, s) \<Rightarrow>
                   let b = b\<lparr>tb_rawHex := toString result\<rparr>;
                       options = (if subtractFee then [(''subtractFeeFromOutputs'', JArray [JDouble 0])] else [])
                   in (case bht_call q ''fundrawtransaction'' [JString (tb_rawHex b), JObject options] 8000 s of
                         (RpcError e, s) \<Rightarrow> (b\<lparr>tb_message := e\<rparr>, s)
                       | (RpcOk result, s) \<Rightarrow>
                           let funded = toObject result;
                               b = b\<lparr>tb_rawHex := toString_or (tb_rawHex b) (jvalue ''hex'' funded),
                                     tb_fee := amountFromJson q (jvalue ''fee'' funded)\<rparr>
                           in if \<not> sign then (b\<lparr>tb_ok := True, tb_message := ''BHT transaction built.''\<rparr>, s)
                              else (case bht_call q ''signrawtransactionwithwallet'' [JString (tb_rawHex b)] 8000 s of
                                      (RpcError e, s) \<Rightarrow> (b\<lparr>tb_message := e\<rparr>, s)
                                    | (RpcOk result, s) \<Rightarrow>
                                        let signed_tx = toObject result;
                                            b = b\<lparr>tb_signedHex := toString (jvalue ''hex'' signed_tx),
                                                  tb_complete := toBool (jvalue ''complete'' signed_tx)\<rparr>
                                        in if \<not> tb_complete b then (b\<lparr>tb_message := ''BHT transaction signing incomplete.''\<rparr>, s)
                                           else (b\<lparr>tb_ok := True, tb_message := ''BHT transaction built and signed.''\<rparr>, s)))))"

definition estimate_gas :: "qt \<Rightarrow> (string \<times> json) list \<Rightarrow> wm_state \<Rightarrow> (string \<times> json) list \<times> wm_state" where
  "estimate_gas q tx s =
     (case bhte_call q ''eth_estimateGas'' [JObject tx] 8000 s of
        (RpcOk result, s) \<Rightarrow> (jset ''gas'' (JString (toString result)) tx, s)
      | (RpcError e, s) \<Rightarrow> (jset ''gas'' (JString ''0x5208'') tx, s))"

definition add_field :: "qt \<Rightarrow> string \<Rightarrow> string \<Rightarrow> json list \<Rightarrow> (string \<times> json) list \<Rightarrow> wm_state \<Rightarrow> (string \<times> json) list \<times> wm_state" where
  "add_field q key method params tx s =
     (case bhte_call q method params 8000 s of
        (RpcOk result, s) \<Rightarrow> (jset key (JString (toString result)) tx, s)
      | (RpcError e, s) \<Rightarrow> (tx, s))"

definition buildBHTERawTransaction :: "qt \<Rightarrow> string \<Rightarrow> int \<Rightarrow> bool \<Rightarrow> wm_state \<Rightarrow> TransactionBuildResult \<times> wm_state" where
  "buildBHTERawTransaction q toAddress amount sign s =
     (let b = new_build ''BHTE''
      in if \<not> validateAddress toAddress \<or> amount \<le> 0 then (b\<lparr>tb_message := ''Invalid BHTE destination or amount.''\<rparr>, s)
         else (case getDefaultBHTEAccount q 8000 s of
                 ((from, e), s) \<Rightarrow>
                   if from = [] then (b\<lparr>tb_message := (if e = [] then ''No BHTE account configured.'' else e)\<rparr>, s)
                   else let tx = [(''from'', JString from), (''to'', JString toAddress), (''value'', JString (quantityToHex amount))];
                            (tx, s) = estimate_gas q tx s;
                            (tx, s) = add_field q ''nonce'' ''eth_getTransactionCount'' [JString from, JString ''pending''] tx s;
                            (tx, s) = add_field q ''chainId'' ''eth_chainId'' [] tx s;
                            b = b\<lparr>tb_rawHex := qt_text q (JObject tx)\<rparr>
                        in if \<not> sign then (b\<lparr>tb_ok := True, tb_message := ''BHTE transaction request built.''\<rparr>, s)
                           else (case bhte_call q ''eth_signTransaction'' [JObject tx] 8000 s of
                                   (RpcError e, s) \<Rightarrow> (b\<lparr>tb_message := ''BHTE node did not sign transaction: '' @ e\<rparr>, s)
                                 | (RpcOk result, s) \<Rightarrow>
                                     let b = (case result of
                                                JObject o' \<Rightarrow>
                                                  b\<lparr>tb_signedHex := toString_or (toString (jvalue ''rawTransaction'' o')) (jvalue ''raw'' o'),
                                                    tb_txid := toString_or (toString (jvalue ''hash'' o')) (jvalue ''tx'' o')\<rparr>
                                              | _ \<Rightarrow> b\<lparr>tb_signedHex := toString result\<rparr>);
                                         b = b\<lparr>tb_complete := (tb_signedHex b \<noteq> [])\<rparr>
                                     in (b\<lparr>tb_ok := tb_complete b, tb_message := ''BHTE transaction built and signed by node.''\<rparr>, s))))"

definition buildSignAndBroadcast :: "qt \<Rightarrow> string \<Rightarrow> string \<Rightarrow> int \<Rightarrow> bool \<Rightarrow> wm_state \<Rightarrow> SendCoinsReturn \<times> wm_state" where
  "buildSignAndBroadcast q chain toAddress amount subtractFee s =
     (if same_nocase chain ''BHTE'' then
        (case buildBHTERawTransaction q toAddress amount True s of
           (b, s) \<Rightarrow> if \<not> tb_ok b then (failed ERROR (tb_message b), s) else broadcastRawTransaction q ''BHTE'' (tb_signedHex b) s)
      else
        (case buildBHTRawTransaction q toAddress amount subtractFee True s of
           (b, s) \<Rightarrow> if \<not> tb_ok b then (failed ERROR (tb_message b), s) else broadcastRawTransaction q ''BHT'' (tb_signedHex b) s))"

section \<open>Proofs of the bridge\<close>

text \<open>The text, and the error.\<close>

definition createBHTDepositProof :: "qt \<Rightarrow> string \<Rightarrow> wm_state \<Rightarrow> (string \<times> string) \<times> wm_state" where
  "createBHTDepositProof q txid s =
     (case bht_call q ''gettxoutproof'' [JArray [JString txid]] 8000 s of
        (RpcError e, s) \<Rightarrow> (([], e), s)
      | (RpcOk result, s) \<Rightarrow> ((toString result, []), s))"

definition createBHTEAccountProof :: "qt \<Rightarrow> string \<Rightarrow> wm_state \<Rightarrow> (string \<times> string) \<times> wm_state" where
  "createBHTEAccountProof q address s =
     (case bhte_call q ''eth_getProof'' [JString address, JArray [], JString ''latest''] 8000 s of
        (RpcError e, s) \<Rightarrow> (([], e), s)
      | (RpcOk result, s) \<Rightarrow> ((qt_text q (JObject (toObject result)), []), s))"

definition new_verification :: "string \<Rightarrow> string \<Rightarrow> BridgeVerification" where
  "new_verification chain txid =
     \<lparr>bv_valid = False, bv_chain = chain, bv_txid = txid, bv_confirmations = 0, bv_height = 0, bv_blockHash = [], bv_stateRoot = [],
      bv_message = [], bv_proofJson = []\<rparr>"

definition verifyBHTDepositProof :: "qt \<Rightarrow> string \<Rightarrow> string \<Rightarrow> int \<Rightarrow> wm_state \<Rightarrow> BridgeVerification \<times> wm_state" where
  "verifyBHTDepositProof q txid pf minConfirmations s =
     (let v = new_verification ''BHT'' txid
      in if trimmed txid = [] \<or> trimmed pf = [] then (v\<lparr>bv_message := ''Missing BHT txid or merkle proof.''\<rparr>, s)
         else (case bht_call q ''verifytxoutproof'' [JString (trimmed pf)] 8000 s of
                 (RpcError e, s) \<Rightarrow> (v\<lparr>bv_message := e\<rparr>, s)
               | (RpcOk result, s) \<Rightarrow>
                   if \<not> list_ex (\<lambda>j. same_nocase (toString j) txid) (toArray result)
                   then (v\<lparr>bv_message := ''Proof does not contain requested transaction.''\<rparr>, s)
                   else (case bht_call q ''getrawtransaction'' [JString txid, JBool True] 8000 s of
                           (RpcError e, s) \<Rightarrow> (v\<lparr>bv_message := e\<rparr>, s)
                         | (RpcOk result, s) \<Rightarrow>
                             let tx = toObject result;
                                 v = v\<lparr>bv_confirmations := qt_long q (jvalue ''confirmations'' tx),
                                       bv_blockHash := toString (jvalue ''blockhash'' tx),
                                       bv_height := qt_long q (jvalue ''blockheight'' tx), bv_proofJson := pf\<rparr>
                             in if bv_confirmations v < minConfirmations
                                then (v\<lparr>bv_message := ''Proof is valid but has only '' @ int_text (bv_confirmations v) @
                                        '' confirmations; '' @ int_text minConfirmations @ '' required.''\<rparr>, s)
                                else (v\<lparr>bv_valid := True, bv_message := ''BHT deposit proof verified.''\<rparr>, s))))"

definition verifyBHTEAccountProof :: "qt \<Rightarrow> string \<Rightarrow> string \<Rightarrow> wm_state \<Rightarrow> BridgeVerification \<times> wm_state" where
  "verifyBHTEAccountProof q address proofJson s =
     (let v = (new_verification ''BHTE'' address)\<lparr>bv_proofJson := proofJson\<rparr>
      in case qt_parse q proofJson of
           (Some (JObject pf), _) \<Rightarrow>
             let proofAddress = toString (jvalue ''address'' pf)
             in if proofAddress \<noteq> [] \<and> \<not> same_nocase proofAddress address
                then (v\<lparr>bv_message := ''BHTE proof address does not match requested account.''\<rparr>, s)
                else let hasAccountProof = (toArray (jvalue ''accountProof'' pf) \<noteq> []);
                         hasBalance = (map_of pf ''balance'' \<noteq> None);
                         hasStateRoot = (map_of pf ''storageHash'' \<noteq> None \<or> map_of pf ''storageRoot'' \<noteq> None)
                     in if \<not> hasAccountProof \<or> \<not> hasBalance \<or> \<not> hasStateRoot
                        then (v\<lparr>bv_message := ''BHTE proof is missing accountProof, balance or storage hash.''\<rparr>, s)
                        else (case bhte_call q ''eth_blockNumber'' [] POLL_RPC_TIMEOUT_MS s of
                                (r, s) \<Rightarrow>
                                  (v\<lparr>bv_height := (case r of RpcOk result \<Rightarrow> amountFromJson q result | RpcError e \<Rightarrow> 0),
                                     bv_stateRoot := toString_or (toString (jvalue ''storageRoot'' pf)) (jvalue ''storageHash'' pf),
                                     bv_valid := True, bv_message := ''BHTE account proof structure verified.''\<rparr>, s))
         | (_, e) \<Rightarrow> (v\<lparr>bv_message := ''Invalid BHTE account proof JSON: '' @ e\<rparr>, s))"

section \<open>Node processes\<close>

text \<open>\<^verbatim>\<open>split(' ', Qt::SkipEmptyParts)\<close>.\<close>

fun split_words :: "string \<Rightarrow> string \<Rightarrow> string list" where
  "split_words [] w = (if w = [] then [] else [w])"
| "split_words (c # cs) w = (if c = CHR '' '' then (if w = [] then split_words cs [] else w # split_words cs []) else split_words cs (w @ [c]))"

definition chain_key :: "bool \<Rightarrow> string \<Rightarrow> string" where
  "chain_key bhte suffix = (if bhte then ''bhte'' else ''bht'') @ suffix"

definition has_process :: "bool \<Rightarrow> WalletModel \<Rightarrow> bool" where
  "has_process bhte m = (if bhte then wm_bhte_process m else wm_bht_process m)"

definition rpc_tick :: "rpc_world \<Rightarrow> rpc_world" where
  "rpc_tick w = w\<lparr>rpc_steps := rpc_steps w + 1\<rparr>"

definition getNodeProcessState :: "qt \<Rightarrow> string \<Rightarrow> wm_state \<Rightarrow> NodeProcessState" where
  "getNodeProcessState q chain = (\<lambda>(m, w).
     let bhte = same_nocase chain ''BHTE''; n = rpc_steps w;
         running = (has_process bhte m \<and> qt_running q n bhte)
     in \<lparr>np_chain = (if bhte then ''BHTE'' else ''BHT''), np_executable = setting q (chain_key bhte ''NodePath'') [],
         np_dataDir = setting q (chain_key bhte ''DataDir'') (getDataDir q),
         np_arguments = split_words (setting q (chain_key bhte ''NodeArgs'') []) [],
         np_managed = has_process bhte m, np_running = running, np_pid = (if running then qt_pid q n bhte else 0),
         np_lastError = (if has_process bhte m then qt_process_error q n bhte else [])\<rparr>)"

definition startManagedNode :: "qt \<Rightarrow> string \<Rightarrow> wm_state \<Rightarrow> (bool \<times> string) \<times> wm_state" where
  "startManagedNode q chain = (\<lambda>(m, w).
     let bhte = same_nocase chain ''BHTE''; n = rpc_steps w;
         executable = trimmed (setting q (chain_key bhte ''NodePath'') []);
         dataDir = setting q (chain_key bhte ''DataDir'') (getDataDir q);
         args = split_words (setting q (chain_key bhte ''NodeArgs'') []) []
     in if executable = [] then ((False, ''No '' @ (if bhte then ''BHTE'' else ''BHT'') @ '' node executable configured.''), (m, w))
        else if has_process bhte m \<and> qt_running q n bhte then ((True, []), (m, w))
        else let m = (if bhte then m\<lparr>wm_bhte_process := True\<rparr> else m\<lparr>wm_bht_process := True\<rparr>)
             in if qt_started q n executable dataDir args then ((True, []), (m, rpc_tick w))
                else ((False, qt_process_error q n bhte), (m, rpc_tick w)))"

text \<open>Two waits: after asking the process to end, and after killing it.\<close>

definition stopManagedNode :: "qt \<Rightarrow> string \<Rightarrow> wm_state \<Rightarrow> (bool \<times> string) \<times> wm_state" where
  "stopManagedNode q chain = (\<lambda>(m, w).
     let bhte = same_nocase chain ''BHTE''; n = rpc_steps w
     in if \<not> has_process bhte m \<or> \<not> qt_running q n bhte then ((True, []), (m, w))
        else if qt_finished q n bhte then ((True, []), (m, rpc_tick w))
        else if qt_finished q (n + 1) bhte then ((True, []), (m, rpc_tick (rpc_tick w)))
        else ((False, qt_process_error q (n + 1) bhte), (m, rpc_tick (rpc_tick w))))"

section \<open>The table of transactions\<close>

definition shown_amount :: "TransactionRecord \<Rightarrow> int" where
  "shown_amount tx = (if tr_credit tx > 0 then tr_credit tx else - tr_debit tx)"

definition coins_text :: "int \<Rightarrow> string" where
  "coins_text amount = number_f8 (fl (fl (of_int amount) / 100000000))"

definition formatAsset :: "string \<Rightarrow> int \<Rightarrow> string" where
  "formatAsset asset_symbol amount = coins_text amount @ '' '' @ asset_symbol"

definition formatAssetAmount :: "int \<Rightarrow> string" where
  "formatAssetAmount amount = coins_text amount @ '' BHC''"

definition tx_type_code :: "tx_type \<Rightarrow> int" where
  "tx_type_code t =
     (case t of Other \<Rightarrow> 0 | Generated \<Rightarrow> 1 | SendToSelf \<Rightarrow> 2 | SendToAddress \<Rightarrow> 3 | SendToOther \<Rightarrow> 4 | RecvWithAddress \<Rightarrow> 5
      | RecvFromOther \<Rightarrow> 6 | RecvFromSelf \<Rightarrow> 7 | BHTToAsset \<Rightarrow> 8 | AssetToBHT \<Rightarrow> 9 | Layer2Deposit \<Rightarrow> 10 | Layer2Withdrawal \<Rightarrow> 11
      | HardwareTx \<Rightarrow> 12)"

definition tx_status_code :: "tx_status \<Rightarrow> int" where
  "tx_status_code t =
     (case t of Confirmations \<Rightarrow> 0 | Confirmed \<Rightarrow> 1 | Conflicted \<Rightarrow> 2 | Abandoned \<Rightarrow> 3 | OpenUntilDate \<Rightarrow> 4 | OpenUntilBlock \<Rightarrow> 5
      | Unconfirmed \<Rightarrow> 6 | Confirming \<Rightarrow> 7 | Immature \<Rightarrow> 8 | MaturesIn \<Rightarrow> 9 | DidNotMature \<Rightarrow> 10 | OffChain \<Rightarrow> 11 | Online \<Rightarrow> 12 | HW \<Rightarrow> 13)"

definition transaction_rowCount :: "TransactionRecord list \<Rightarrow> int" where
  "transaction_rowCount txs = int (length txs)"

definition transaction_columnCount :: int where
  "transaction_columnCount = 8"

definition transaction_flags :: "QModelIndex \<Rightarrow> item_flag set" where
  "transaction_flags index = {ItemIsEnabled, ItemIsSelectable}"

definition transaction_index :: "int \<Rightarrow> int \<Rightarrow> QModelIndex" where
  "transaction_index row column = \<lparr>idx_row = row, idx_column = column\<rparr>"

text \<open>The role \<open>OtherRole k\<close> is \<^verbatim>\<open>Qt::UserRole + k\<close>; \<open>date_text\<close> is the formatting of dates by Qt.\<close>

definition transaction_display :: "(int \<Rightarrow> string) \<Rightarrow> int \<Rightarrow> TransactionRecord \<Rightarrow> qvariant" where
  "transaction_display date_text column tx =
     (if column = 2 then QStr (date_text (tr_time tx))
      else if column = 3 then QStr (tx_type_text (tr_type tx))
      else if column = 4 then QStr (take 20 (tr_address tx))
      else if column = 6 then QStr (coins_text (shown_amount tx))
      else if column = 7 then QStr (tr_asset tx)
      else QNull)"

definition transaction_role :: "item_role \<Rightarrow> TransactionRecord \<Rightarrow> qvariant" where
  "transaction_role role tx =
     (case role of
        UserRole \<Rightarrow> QStr (tr_txid tx)
      | OtherRole k \<Rightarrow>
          if k = 1 then QStr (tr_txid tx) else if k = 3 then QStr (tr_address tx) else if k = 4 then QStr (tr_narration tx)
          else if k = 5 then QNum (shown_amount tx) else if k = 8 then QNum (tr_time tx) else if k = 9 then QNum (tx_type_code (tr_type tx))
          else if k = 6 then QNum (tx_status_code (tr_status tx)) else if k = 10 then QNum (tr_depth tx) else QNull
      | _ \<Rightarrow> QNull)"

definition transaction_data :: "(int \<Rightarrow> string) \<Rightarrow> QModelIndex \<Rightarrow> item_role \<Rightarrow> TransactionRecord list \<Rightarrow> qvariant" where
  "transaction_data date_text index role txs =
     (if \<not> isValid index \<or> idx_row index \<ge> int (length txs) then QNull
      else let tx = txs ! nat (idx_row index)
           in if role = DisplayRole then transaction_display date_text (idx_column index) tx else transaction_role role tx)"

definition transaction_row_data :: "int \<Rightarrow> item_role \<Rightarrow> TransactionRecord list \<Rightarrow> qvariant" where
  "transaction_row_data row role txs =
     (if row < 0 \<or> row \<ge> int (length txs) then QNull
      else let tx = txs ! nat row
           in if role = OtherRole 3 then QStr (tr_address tx)
              else if role = OtherRole 5 then QNum (shown_amount tx)
              else QNull)"

definition transaction_header :: "int \<Rightarrow> orientation \<Rightarrow> item_role \<Rightarrow> qvariant" where
  "transaction_header section orient role =
     (if orient \<noteq> Horizontal \<or> role \<noteq> DisplayRole then QNull
      else if section = 0 then QStr ''Status''
      else if section = 2 then QStr ''Date''
      else if section = 3 then QStr ''Type''
      else if section = 4 then QStr ''Description''
      else if section = 5 then QStr ''+/-''
      else if section = 6 then QStr ''Amount''
      else QNull)"

end
