(* ===== verification/PaymentForms.thy ===== *)
theory PaymentForms
  imports WalletModel
begin

text \<open>
  Model of the forms for paying and for requesting payments: \<^verbatim>\<open>SendCoinsEntry\<close> and \<^verbatim>\<open>SendCoinsDialog\<close>
  (\<^verbatim>\<open>BHTWalletPro/src/qt/sendcoinsdialog.cpp\<close>) and \<^verbatim>\<open>ReceiveCoinsDialog\<close> (\<^verbatim>\<open>receivecoinsdialog.cpp\<close>). The state of a form
  is the content of its fields and labels; an edit that changes a field calls the slot that is connected to it.
  Layout, colours and the picture of the code are left out, message boxes are results.
\<close>

section \<open>The entry for one recipient\<close>

record SendCoinsEntry =
  en_address :: string
  en_label :: string
  en_amount :: string
  en_asset :: int
  en_subtract :: bool
  en_address_hint :: string
  en_amount_hint :: string
  en_style :: string
  en_matching :: bool
  en_address_to_label :: "string \<rightharpoonup> string"

definition new_SendCoinsEntry :: SendCoinsEntry where
  "new_SendCoinsEntry =
     \<lparr>en_address = [], en_label = [], en_amount = [], en_asset = 0, en_subtract = False, en_address_hint = ''Enter a BHT address'',
      en_amount_hint = ''Amount in BHT'', en_style = [], en_matching = False, en_address_to_label = Map.empty\<rparr>"

text \<open>The text of the asset box; no item is chosen at other indices.\<close>

definition asset_text :: "int \<Rightarrow> string" where
  "asset_text i = (if i = 0 then ''BHT'' else if i = 1 then ''BHTE'' else [])"

definition setValid :: "bool \<Rightarrow> SendCoinsEntry \<Rightarrow> SendCoinsEntry" where
  "setValid v e = e\<lparr>en_style := (if v then [] else ''border: 1px solid red;'')\<rparr>"

definition handleAddressChanged :: "string \<Rightarrow> SendCoinsEntry \<Rightarrow> SendCoinsEntry" where
  "handleAddressChanged a e =
     (let e = e\<lparr>en_matching := False\<rparr> in if trimmed a \<noteq> [] then setValid True e else e)"

definition updateLabel :: "SendCoinsEntry \<Rightarrow> SendCoinsEntry" where
  "updateLabel e = (case en_address_to_label e (en_address e) of None \<Rightarrow> e | Some l \<Rightarrow> e\<lparr>en_label := l\<rparr>)"

definition handleAssetChanged :: "int \<Rightarrow> SendCoinsEntry \<Rightarrow> SendCoinsEntry" where
  "handleAssetChanged index e =
     (if index = 1 then e\<lparr>en_address_hint := ''Enter a BHTE 0x account'', en_amount_hint := ''Amount in BHTE''\<rparr>
      else e\<lparr>en_address_hint := ''Enter a BHT address'', en_amount_hint := ''Amount in BHT''\<rparr>)"

text \<open>Edits of the fields.\<close>

definition edit_address :: "string \<Rightarrow> SendCoinsEntry \<Rightarrow> SendCoinsEntry" where
  "edit_address a e = (if a = en_address e then e else handleAddressChanged a (e\<lparr>en_address := a\<rparr>))"

definition edit_label :: "string \<Rightarrow> SendCoinsEntry \<Rightarrow> SendCoinsEntry" where
  "edit_label l e = (if l = en_label e then e else updateLabel (e\<lparr>en_label := l\<rparr>))"

definition edit_amount :: "string \<Rightarrow> SendCoinsEntry \<Rightarrow> SendCoinsEntry" where
  "edit_amount t e = e\<lparr>en_amount := t\<rparr>"

definition choose_asset :: "int \<Rightarrow> SendCoinsEntry \<Rightarrow> SendCoinsEntry" where
  "choose_asset i e = (if i = en_asset e then e else handleAssetChanged i (e\<lparr>en_asset := i\<rparr>))"

text \<open>\<^verbatim>\<open>toDouble()\<close> of a text that is no number is 0.\<close>

definition text_amount :: "qt \<Rightarrow> string \<Rightarrow> int" where
  "text_amount q t = amount_of_double (qt_cast q) (case qt_toDouble q t of Some x \<Rightarrow> x | None \<Rightarrow> 0)"

definition getValue :: "qt \<Rightarrow> SendCoinsEntry \<Rightarrow> SendCoinsRecipient" where
  "getValue q e =
     \<lparr>rcp_address = en_address e, rcp_label = en_label e, rcp_asset = asset_text (en_asset e), rcp_amount = text_amount q (en_amount e),
      rcp_subtract_fee = en_subtract e\<rparr>"

definition setValue :: "SendCoinsRecipient \<Rightarrow> SendCoinsEntry \<Rightarrow> SendCoinsEntry" where
  "setValue v e = edit_amount (coins_text (rcp_amount v)) (edit_label (rcp_label v) (edit_address (rcp_address v) e))"

definition setAddress :: "string \<Rightarrow> SendCoinsEntry \<Rightarrow> SendCoinsEntry" where
  "setAddress addr e = edit_address addr e"

definition on_pasteButton_clicked :: "string \<Rightarrow> SendCoinsEntry \<Rightarrow> SendCoinsEntry" where
  "on_pasteButton_clicked clipboard e =
     (let t = (if starts_with ''bht:'' clipboard then
                 let t = drop 4 clipboard; p = str_find t ''?'' 0 in if p \<noteq> npos \<and> p > 0 then take p t else t
               else clipboard)
      in if t \<noteq> [] then edit_address t e else e)"

definition on_useAvailableBalance_clicked :: "WalletModel option \<Rightarrow> SendCoinsEntry \<Rightarrow> SendCoinsEntry" where
  "on_useAvailableBalance_clicked model e =
     (case model of None \<Rightarrow> e | Some m \<Rightarrow> edit_amount (coins_text (getBalance m)) e)"

definition clear_entry :: "SendCoinsEntry \<Rightarrow> SendCoinsEntry" where
  "clear_entry e = edit_label [] (edit_amount [] (edit_address [] e))"

definition validate :: "SendCoinsEntry \<Rightarrow> bool" where
  "validate e \<longleftrightarrow> trimmed (en_address e) \<noteq> []"

definition getAmountSatoshis :: "qt \<Rightarrow> SendCoinsEntry \<Rightarrow> int" where
  "getAmountSatoshis q e = text_amount q (en_amount e)"

definition isClear :: "SendCoinsEntry \<Rightarrow> bool" where
  "isClear e \<longleftrightarrow> en_address e = [] \<and> en_amount e = []"

definition currentAsset :: "SendCoinsEntry \<Rightarrow> string" where
  "currentAsset e = asset_text (en_asset e)"

section \<open>The dialog for sending\<close>

datatype notice = Warning string | Information string | Critical string

record SendCoinsDialog =
  sd_model :: bool
  sd_entry :: SendCoinsEntry
  sd_combo :: int
  sd_current_asset :: int
  sd_balances :: "int list"
  sd_title :: string
  sd_fee_text :: string
  sd_balance_text :: string
  sd_return_value :: string
  sd_accepted :: bool

definition new_SendCoinsDialog :: SendCoinsDialog where
  "new_SendCoinsDialog =
     \<lparr>sd_model = False, sd_entry = new_SendCoinsEntry, sd_combo = 0, sd_current_asset = 0, sd_balances = replicate 6 0,
      sd_title = ''Send BHT'', sd_fee_text = ''Estimated fee: 0.00000000 BHT'', sd_balance_text = ''Balance: 0.00000000 BHT'',
      sd_return_value = [], sd_accepted = False\<rparr>"

definition setBalanceBalance :: "int list \<Rightarrow> SendCoinsDialog \<Rightarrow> SendCoinsDialog" where
  "setBalanceBalance balances d =
     d\<lparr>sd_balances := balances,
       sd_balance_text := ''Balance: '' @ coins_text (balances ! 0) @ '' '' @ (if sd_current_asset d = 1 then ''BHTE'' else ''BHT'')\<rparr>"

definition dialog_setModel :: "WalletModel option \<Rightarrow> SendCoinsDialog \<Rightarrow> SendCoinsDialog" where
  "dialog_setModel model d =
     (case model of
        None \<Rightarrow> d\<lparr>sd_model := False\<rparr>
      | Some m \<Rightarrow> setBalanceBalance [getBalance m, getUnconfirmedBalance m, getImmatureBalance m, getWatchOnlyBalance m, 0, 0]
                    (d\<lparr>sd_model := True\<rparr>))"

definition updateFeeSection :: "SendCoinsDialog \<Rightarrow> SendCoinsDialog" where
  "updateFeeSection d = d\<lparr>sd_fee_text := ''Estimated fee: 0.00000100 '' @ (if sd_current_asset d = 1 then ''BHTE gas'' else ''BHT'')\<rparr>"

definition dialog_handleAssetChanged :: "int \<Rightarrow> SendCoinsDialog \<Rightarrow> SendCoinsDialog" where
  "dialog_handleAssetChanged idx d =
     (let d = d\<lparr>sd_current_asset := idx, sd_title := ''Send '' @ (if idx = 1 then ''BHTE'' else ''BHT''),
                sd_entry := choose_asset idx (sd_entry d)\<rparr>;
          d = updateFeeSection d
      in setBalanceBalance (sd_balances d) d)"

definition dialog_choose_asset :: "int \<Rightarrow> SendCoinsDialog \<Rightarrow> SendCoinsDialog" where
  "dialog_choose_asset idx d =
     (if idx = sd_combo d then d else dialog_handleAssetChanged idx (d\<lparr>sd_combo := idx\<rparr>))"

definition on_clearButton_clicked :: "SendCoinsDialog \<Rightarrow> SendCoinsDialog" where
  "on_clearButton_clicked d = d\<lparr>sd_entry := clear_entry (sd_entry d)\<rparr>"

definition pasteEntry :: "SendCoinsRecipient \<Rightarrow> SendCoinsDialog \<Rightarrow> SendCoinsDialog" where
  "pasteEntry recipient d = d\<lparr>sd_entry := setValue recipient (sd_entry d)\<rparr>"

definition on_sendButton_clicked :: "qt \<Rightarrow> SendCoinsDialog \<Rightarrow> wm_state \<Rightarrow> notice option \<times> SendCoinsDialog \<times> wm_state" where
  "on_sendButton_clicked q d s =
     (if \<not> sd_model d then (None, d, s)
      else let recipient = getValue q (sd_entry d)
           in if rcp_address recipient = [] then (Some (Warning ''Please enter a valid address.''), d, s)
              else if rcp_amount recipient \<le> 0 then (Some (Warning ''Please enter a valid amount.''), d, s)
              else (case sendCoins q [recipient] s of
                      (result, s) \<Rightarrow>
                        if ret_status result = OK
                        then (Some (Information (''Transaction created!'' @ [CHR 0x0A, CHR 0x0A] @ ''TXID: '' @ ret_txid result)),
                              d\<lparr>sd_return_value := ret_txid result, sd_accepted := True\<rparr>, s)
                        else (Some (Critical (ret_msg result)), d, s)))"

section \<open>The dialog for requesting payments\<close>

text \<open>\<open>rd_asset\<close> is the member \<^verbatim>\<open>m_current_asset\<close>, \<open>rd_combo\<close> the index of the box; \<^verbatim>\<open>QUrlQuery::toString\<close> is a parameter.\<close>

record ReceiveCoinsDialog =
  rd_asset :: string
  rd_combo :: int
  rd_label :: string
  rd_amount :: string
  rd_message :: string
  rd_address :: string
  rd_address_edit :: string
  rd_uri :: string
  rd_address_label :: string

type_synonym query_text = "(string \<times> string) list \<Rightarrow> string"

definition payment_query :: "ReceiveCoinsDialog \<Rightarrow> (string \<times> string) list" where
  "payment_query d =
     (if rd_label d \<noteq> [] then [(''label'', rd_label d)] else []) @
     (if rd_amount d \<noteq> [] then [(''amount'', rd_amount d)] else []) @
     (if rd_message d \<noteq> [] then [(''message'', rd_message d)] else [])"

definition generateQRCode :: "query_text \<Rightarrow> string \<Rightarrow> ReceiveCoinsDialog \<Rightarrow> ReceiveCoinsDialog" where
  "generateQRCode query address d =
     (let uri = (if rd_asset d = ''BHTE'' then ''bhte'' else ''bht'') @ '':'' @ address;
          queryString = query (payment_query d)
      in d\<lparr>rd_uri := (if queryString \<noteq> [] then uri @ ''?'' @ queryString else uri), rd_address_label := address\<rparr>)"

text \<open>\<^verbatim>\<open>leftJustified(n, '0').left(n)\<close>.\<close>

definition justified :: "nat \<Rightarrow> string \<Rightarrow> string" where
  "justified n s = take n (s @ replicate (n - length s) CHR ''0'')"

definition clock_seed :: "int \<Rightarrow> string" where
  "clock_seed msecs = to_base 16 (unat (word_of_int msecs :: u64))"

definition generateNewAddress :: "query_text \<Rightarrow> int \<Rightarrow> ReceiveCoinsDialog \<Rightarrow> ReceiveCoinsDialog" where
  "generateNewAddress query msecs d =
     (let seed = clock_seed msecs;
          dummyAddress = (if rd_asset d = ''BHTE'' then ''0x'' @ justified 40 seed else ''bht1q'' @ justified 38 seed)
      in generateQRCode query dummyAddress (d\<lparr>rd_address := dummyAddress, rd_address_edit := dummyAddress\<rparr>))"

definition new_ReceiveCoinsDialog :: "query_text \<Rightarrow> int \<Rightarrow> ReceiveCoinsDialog" where
  "new_ReceiveCoinsDialog query msecs =
     generateNewAddress query msecs
       \<lparr>rd_asset = ''BHC'', rd_combo = 0, rd_label = [], rd_amount = [], rd_message = [], rd_address = [], rd_address_edit = [], rd_uri = [],
        rd_address_label = []\<rparr>"

definition receive_choose_asset :: "query_text \<Rightarrow> int \<Rightarrow> int \<Rightarrow> ReceiveCoinsDialog \<Rightarrow> ReceiveCoinsDialog" where
  "receive_choose_asset query msecs i d =
     (if i = rd_combo d then d else generateNewAddress query msecs (d\<lparr>rd_combo := i, rd_asset := asset_text i\<rparr>))"

definition receive_clear :: "query_text \<Rightarrow> int \<Rightarrow> ReceiveCoinsDialog \<Rightarrow> ReceiveCoinsDialog" where
  "receive_clear query msecs d = generateNewAddress query msecs (d\<lparr>rd_label := [], rd_amount := [], rd_message := []\<rparr>)"

text \<open>The text copied to the clipboard, if any.\<close>

definition copyAddress :: "ReceiveCoinsDialog \<Rightarrow> string option" where
  "copyAddress d = (if rd_address d \<noteq> [] then Some (rd_address d) else None)"

definition copyURI :: "ReceiveCoinsDialog \<Rightarrow> string option" where
  "copyURI d = (if rd_uri d \<noteq> [] then Some (rd_uri d) else None)"

definition copyLabel :: "ReceiveCoinsDialog \<Rightarrow> string option" where
  "copyLabel d = (if rd_label d \<noteq> [] then Some (rd_label d) else None)"

end
