(* ===== verification/WalletModelProofs.thy ===== *)
theory WalletModelProofs
  imports WalletModel "HOL-Library.Multiset"
begin

text \<open>
  Properties of the wallet model: what sending posts to the nodes, which proofs of the bridge are accepted, the
  history, and the balances in every reachable state.
\<close>

section \<open>What the calls post\<close>

text \<open>The requests posted between two states of the network, and their methods.\<close>

definition rq_method :: "rpc_request \<Rightarrow> string" where
  "rq_method r = toString (jvalue ''method'' (toObject (rq_payload r)))"

definition rq_params :: "rpc_request \<Rightarrow> json list" where
  "rq_params r = toArray (jvalue ''params'' (toObject (rq_payload r)))"

definition posts :: "rpc_world \<Rightarrow> rpc_world \<Rightarrow> rpc_request list" where
  "posts w w' = drop (length (rpc_posted w)) (rpc_posted w')"

definition extends :: "rpc_world \<Rightarrow> rpc_world \<Rightarrow> bool" where
  "extends w w' \<longleftrightarrow> (\<exists>rs. rpc_posted w' = rpc_posted w @ rs)"

lemma extends_refl [simp]: "extends w w"
  by (simp add: extends_def)

lemma posts_refl [simp]: "posts w w = []"
  by (simp add: posts_def)

lemma extends_trans: "extends w w1 \<Longrightarrow> extends w1 w2 \<Longrightarrow> extends w w2"
  by (auto simp: extends_def)

lemma posts_trans: "extends w w1 \<Longrightarrow> extends w1 w2 \<Longrightarrow> posts w w2 = posts w w1 @ posts w1 w2"
  by (auto simp: extends_def posts_def)

text \<open>Every request posted satisfies \<open>P\<close>.\<close>

definition only_posts :: "(rpc_request \<Rightarrow> bool) \<Rightarrow> rpc_world \<Rightarrow> rpc_world \<Rightarrow> bool" where
  "only_posts P w w' \<longleftrightarrow> extends w w' \<and> list_all P (posts w w')"

lemma only_posts_refl [simp]: "only_posts P w w"
  by (simp add: only_posts_def)

lemma only_posts_trans: "only_posts P w w1 \<Longrightarrow> only_posts P w1 w2 \<Longrightarrow> only_posts P w w2"
  using posts_trans [of w w1 w2] by (auto simp: only_posts_def intro: extends_trans)

lemma payload_fields:
  "jvalue ''method'' (toObject (rpc_payload q n method params)) = JString method"
  "jvalue ''params'' (toObject (rpc_payload q n method params)) = JArray params"
  by (simp_all add: rpc_payload_def jvalue_def)

lemma rpcCall_posts:
  assumes "rpcCall q endpoint method params user timeout w = (r, w')"
  shows "extends w w' \<and> (posts w w' = [] \<and> (\<exists>e. r = RpcError e) \<or>
    (\<exists>rq. posts w w' = [rq] \<and> rq_method rq = method \<and> rq_params rq = params))"
proof (cases "qt_url_valid q endpoint")
  case True
  let ?rq = "\<lparr>rq_endpoint = endpoint, rq_payload = rpc_payload q (rpc_steps w) method params,
      rq_auth = (if fst user = [] then None else Some user), rq_timeout = timeout\<rparr>"
  have "rpc_posted w' = rpc_posted w @ [?rq]" using assms True by (auto simp: rpcCall_def Let_def)
  moreover have "rq_method ?rq = method" "rq_params ?rq = params"
    by (simp_all add: rq_method_def rq_params_def payload_fields)
  ultimately show ?thesis by (auto simp: extends_def posts_def)
qed (use assms in \<open>auto simp: rpcCall_def\<close>)

lemma call_posts:
  assumes "bht_call q method params timeout (m, w) = (r, (m', w')) \<or> bhte_call q method params timeout (m, w) = (r, (m', w'))"
  shows "m' = m" "extends w w'" "posts w w' = [] \<and> (\<exists>e. r = RpcError e) \<or>
    (\<exists>rq. posts w w' = [rq] \<and> rq_method rq = method \<and> rq_params rq = params)"
  using assms by (auto simp: bht_call_def bhte_call_def split: prod.splits dest: rpcCall_posts)

definition paying :: "rpc_request \<Rightarrow> bool" where
  "paying r \<longleftrightarrow> rq_method r \<in> {''sendtoaddress'', ''eth_sendTransaction'', ''sendrawtransaction'', ''eth_sendRawTransaction''}"

lemma quiet_call:
  assumes "bht_call q method params timeout (m, w) = (r, (m', w')) \<or> bhte_call q method params timeout (m, w) = (r, (m', w'))"
    and "method \<notin> {''sendtoaddress'', ''eth_sendTransaction'', ''sendrawtransaction'', ''eth_sendRawTransaction''}"
  shows "m' = m \<and> only_posts (\<lambda>r. \<not> paying r) w w'"
  using call_posts [OF assms(1)] assms(2) by (auto simp: only_posts_def paying_def)

lemma quiet_rpc:
  assumes "rpcCall q endpoint method params user timeout w = (r, w')"
    and "method \<notin> {''sendtoaddress'', ''eth_sendTransaction'', ''sendrawtransaction'', ''eth_sendRawTransaction''}"
  shows "only_posts (\<lambda>r. \<not> paying r) w w'"
  using rpcCall_posts [OF assms(1)] assms(2) by (auto simp: only_posts_def paying_def)

lemma account_quiet:
  assumes "getDefaultBHTEAccount q timeout (m, w) = (x, (m', w'))"
  shows "m' = m \<and> only_posts (\<lambda>r. \<not> paying r) w w'"
proof (cases "setting q ''bhteDefaultAccount'' [] = []")
  case True
  obtain r m1 w1 where c: "bhte_call q ''eth_accounts'' [] timeout (m, w) = (r, (m1, w1))" by (metis prod.exhaust)
  have "m' = m1 \<and> w' = w1" using assms True c by (auto simp: getDefaultBHTEAccount_def split: rpc_result.splits list.splits)
  with quiet_call [of q "''eth_accounts''" "[]" timeout m w r m1 w1] c show ?thesis by simp
qed (use assms in \<open>simp add: getDefaultBHTEAccount_def\<close>)

lemma refreshBHTState_quiet:
  assumes "refreshBHTState q (m, w) = (b, (m', w'))"
  shows "only_posts (\<lambda>r. \<not> paying r) w w'"
proof -
  let ?e = "setting q ''bhtRpcEndpoint'' (if cs_endpoint (wm_bht m) = [] then ''http://127.0.0.1:18332'' else cs_endpoint (wm_bht m))"
  let ?c = "\<lambda>method w. rpcCall q ?e method [] (bht_user q) POLL_RPC_TIMEOUT_MS w"
  obtain r1 w1 where c1: "?c ''getblockchaininfo'' w = (r1, w1)" by fastforce
  obtain r2 w2 where c2: "?c ''getnetworkinfo'' w1 = (r2, w2)" by fastforce
  obtain r3 w3 where c3: "?c ''getbalance'' w2 = (r3, w3)" by fastforce
  have "w' = w1 \<or> w' = w3"
    using assms c1 c2 c3 by (cases r1; cases r3) (auto simp: refreshBHTState_def Let_def)
  with quiet_rpc [OF c1] quiet_rpc [OF c2] quiet_rpc [OF c3] show ?thesis by (auto intro: only_posts_trans)
qed

lemma refreshBHTEState_quiet:
  assumes "refreshBHTEState q (m, w) = (b, (m', w'))"
  shows "only_posts (\<lambda>r. \<not> paying r) w w'"
proof -
  let ?e = "setting q ''bhteRpcEndpoint'' (if cs_endpoint (wm_bhte m) = [] then ''http://127.0.0.1:8545'' else cs_endpoint (wm_bhte m))"
  let ?c = "\<lambda>method params w. rpcCall q ?e method params ([], []) POLL_RPC_TIMEOUT_MS w"
  obtain r1 w1 where c1: "?c ''eth_blockNumber'' [] w = (r1, w1)" by fastforce
  obtain r2 w2 where c2: "?c ''net_peerCount'' [] w1 = (r2, w2)" by fastforce
  obtain account e m3 w3 where c3: "getDefaultBHTEAccount q POLL_RPC_TIMEOUT_MS (m, w2) = ((account, e), (m3, w3))" by (metis prod.exhaust)
  obtain r4 w4 where c4: "?c ''eth_getBalance'' [JString account, JString ''latest''] w3 = (r4, w4)" by fastforce
  have "w' = w1 \<or> w' = w3 \<or> w' = w4"
    using assms c1 c2 c3 c4 by (cases r1; cases r4; cases "account = []") (auto simp: refreshBHTEState_def Let_def)
  with quiet_rpc [OF c1] quiet_rpc [OF c2] account_quiet [OF c3] quiet_rpc [OF c4] show ?thesis by (auto intro: only_posts_trans)
qed

section \<open>Sending\<close>

text \<open>The payments among the requests: the method and the address each names.\<close>

definition payee :: "rpc_request \<Rightarrow> string" where
  "payee r =
     (case rq_params r of
        JString a # _ \<Rightarrow> a
      | JObject tx # _ \<Rightarrow> toString (jvalue ''to'' tx)
      | _ \<Rightarrow> [])"

definition payments :: "rpc_world \<Rightarrow> rpc_world \<Rightarrow> (string \<times> string) list" where
  "payments w w' = map (\<lambda>r. (rq_method r, payee r)) (filter paying (posts w w'))"

lemma payments_quiet: "only_posts (\<lambda>r. \<not> paying r) w w' \<Longrightarrow> payments w w' = []"
  by (simp add: only_posts_def payments_def list_all_iff filter_empty_conv)

lemma payments_trans: "extends w w1 \<Longrightarrow> extends w1 w2 \<Longrightarrow> payments w w2 = payments w w1 @ payments w1 w2"
  using posts_trans [of w w1 w2] by (simp add: payments_def)

lemma only_posts_extends: "only_posts P w w' \<Longrightarrow> extends w w'"
  by (simp add: only_posts_def)

text \<open>A paying call names its payee, and posts it if it succeeds.\<close>

lemma paying_call:
  assumes "bht_call q method params timeout (m, w) = (r, (m', w')) \<or> bhte_call q method params timeout (m, w) = (r, (m', w'))"
    and "method \<in> {''sendtoaddress'', ''eth_sendTransaction''}"
    and "(\<exists>ps. params = JString a # ps) \<or> (\<exists>tx. params = [JObject tx] \<and> jvalue ''to'' tx = JString a)"
  shows "extends w w' \<and> (payments w w' = [(method, a)] \<or> payments w w' = [] \<and> (\<exists>e. r = RpcError e))"
proof -
  from call_posts(2,3) [OF assms(1)] consider (none) "extends w w'" "posts w w' = []" "\<exists>e. r = RpcError e"
    | (one) rq where "extends w w'" "posts w w' = [rq]" "rq_method rq = method" "rq_params rq = params" by blast
  then show ?thesis
  proof cases
    case none
    then show ?thesis by (simp add: payments_def)
  next
    case one
    then have "paying rq" using assms(2) by (auto simp: paying_def)
    moreover have "payee rq = a" using assms(3) one(4) by (auto simp: payee_def)
    ultimately show ?thesis using one by (simp add: payments_def)
  qed
qed

definition pay_method :: "SendCoinsRecipient \<Rightarrow> string" where
  "pay_method r = (if rcp_asset r = ''BHTE'' then ''eth_sendTransaction'' else ''sendtoaddress'')"

lemma sendCoins_payments:
  assumes "sendCoins q (r # rs) (m, w) = (ret, (m', w'))"
  shows "extends w w' \<and> (payments w w' = [] \<or> payments w w' = [(pay_method r, rcp_address r)]) \<and>
    (ret_status ret = OK \<longrightarrow> payments w w' = [(pay_method r, rcp_address r)])"
proof (cases "recipients_error (r # rs)")
  case (Some e)
  have "ret_status e \<noteq> OK" if "recipients_error rs' = Some e" for rs'
    using that by (induction rs') (auto simp: failed_def split: if_splits)
  from this [OF Some] Some assms show ?thesis by (simp add: sendCoins_def payments_def del: recipients_error.simps)
next
  case None
  show ?thesis
  proof (cases "rcp_asset r = ''BHTE''")
    case True
    obtain src e m1 w1 where acc: "getDefaultBHTEAccount q 8000 (m, w) = ((src, e), (m1, w1))" by (metis prod.exhaust)
    note quiet = account_quiet [OF acc]
    let ?tx = "[(''from'', JString src), (''to'', JString (rcp_address r)), (''value'', JString (quantityToHex (rcp_amount r))), (''gas'', JString ''0x5208'')]"
    obtain x m2 w2 where c: "bhte_call q ''eth_sendTransaction'' [JObject ?tx] 8000 (m1, w1) = (x, (m2, w2))" by (metis prod.exhaust)
    have p: "extends w1 w2 \<and> (payments w1 w2 = [(pay_method r, rcp_address r)] \<or> payments w1 w2 = [] \<and> (\<exists>e. x = RpcError e))"
      using paying_call [OF disjI2 [OF c], of "rcp_address r"] True by (simp add: jvalue_def pay_method_def)
    obtain b m3 w3 where f: "refreshBHTEState q (m2, w2) = (b, (m3, w3))" by (metis prod.exhaust)
    note f' = refreshBHTEState_quiet [OF f]
    have "src = [] \<and> w' = w1 \<and> ret_status ret \<noteq> OK \<or> w' = w2 \<and> ret_status ret \<noteq> OK \<or> w' = w3 \<and> (\<exists>j. x = RpcOk j)"
      using assms None True acc c f by (cases x) (auto simp: sendCoins_def failed_def split: if_splits)
    moreover have "payments w w1 = []" "payments w2 w3 = []" "extends w w1" "extends w2 w3"
      using quiet f' by (auto intro: payments_quiet only_posts_extends)
    ultimately show ?thesis
      using p payments_trans [of w w1 w2] payments_trans [of w w2 w3] extends_trans [of w w1 w2] extends_trans [of w w2 w3] by auto
  next
    case False
    let ?ps = "[JString (rcp_address r), decimal_json q (rcp_amount r), JString (rcp_label r), JString [], JBool (rcp_subtract_fee r)]"
    obtain x m2 w2 where c: "bht_call q ''sendtoaddress'' ?ps 8000 (m, w) = (x, (m2, w2))" by (metis prod.exhaust)
    have p: "extends w w2 \<and> (payments w w2 = [(pay_method r, rcp_address r)] \<or> payments w w2 = [] \<and> (\<exists>e. x = RpcError e))"
      using paying_call [OF disjI1 [OF c], of "rcp_address r"] False by (simp add: pay_method_def)
    obtain b m3 w3 where f: "refreshBHTState q (m2, w2) = (b, (m3, w3))" by (metis prod.exhaust)
    note f' = refreshBHTState_quiet [OF f]
    have "w' = w2 \<and> ret_status ret \<noteq> OK \<or> w' = w3 \<and> (\<exists>j. x = RpcOk j)"
      using assms None False c f by (cases x) (auto simp: sendCoins_def failed_def split: if_splits)
    moreover have "payments w2 w3 = []" "extends w2 w3" using f' by (auto intro: payments_quiet only_posts_extends)
    ultimately show ?thesis using p payments_trans [of w w2 w3] extends_trans [of w w2 w3] by auto
  qed
qed

text \<open>
  C35. Only the first recipient is paid: whatever the nodes answer, sending to a list of recipients posts at most
  one payment, to the first of them, and when it reports success it has posted that payment and no other. The
  other recipients are checked and then forgotten: if they pass, the call does exactly what it does without them.
\<close>

theorem send_pays_first_only:
  assumes "sendCoins q (r # rs) (m, w) = (ret, (m', w'))"
  shows "(payments w w' = [] \<or> payments w w' = [(pay_method r, rcp_address r)]) \<and>
    (ret_status ret = OK \<longrightarrow> payments w w' = [(pay_method r, rcp_address r)]) \<and>
    (recipients_error (r # rs) = None \<longrightarrow> sendCoins q [r] (m, w) = (ret, (m', w')))"
proof -
  have "sendCoins q [r] (m, w) = sendCoins q (r # rs) (m, w)" if "recipients_error (r # rs) = None"
    using that by (auto simp: sendCoins_def split: if_splits)
  with sendCoins_payments [OF assms] assms show ?thesis by simp
qed

text \<open>A system in which every node answers every request with the text \<open>id\<close>.\<close>

definition sample_qt :: qt where
  "sample_qt = \<lparr>qt_url_valid = (\<lambda>u. True), qt_post = (\<lambda>n e p a t. NetReply 200 ''x''),
     qt_parse = (\<lambda>t. (Some (JObject [(''result'', JString ''id'')]), [])), qt_text = (\<lambda>j. []), qt_long = (\<lambda>j. 0), qt_int = (\<lambda>j. 0),
     qt_setting_int = (\<lambda>s. 0), qt_toDouble = (\<lambda>s. None), qt_hex64 = (\<lambda>s. None), qt_fromHex = (\<lambda>s. []), qt_cast = (\<lambda>x. 0),
     qt_settings = Map.empty, qt_now = (\<lambda>n. 0), qt_msecs = (\<lambda>n. 0), qt_sort = rev \<circ> sort_key tr_time, qt_home = [], qt_running = (\<lambda>n b. False),
     qt_started = (\<lambda>n e d a. True), qt_finished = (\<lambda>n b. True), qt_pid = (\<lambda>n b. 0), qt_process_error = (\<lambda>n b. [])\<rparr>"

definition sample_recipient :: "string \<Rightarrow> SendCoinsRecipient" where
  "sample_recipient a = \<lparr>rcp_address = a, rcp_label = [], rcp_asset = ''BHT'', rcp_amount = 5, rcp_subtract_fee = False\<rparr>"

theorem send_pays_first_only_witness:
  "\<exists>ret m' w'. sendCoins sample_qt [sample_recipient ''1aaaaaaaaaaaaaaaaaaaaaaaaa'', sample_recipient ''1bbbbbbbbbbbbbbbbbbbbbbbbb'']
      (new_WalletModel sample_qt, \<lparr>rpc_steps = 0, rpc_posted = []\<rparr>) = (ret, (m', w')) \<and>
    ret_status ret = OK \<and> payments \<lparr>rpc_steps = 0, rpc_posted = []\<rparr> w' = [(''sendtoaddress'', ''1aaaaaaaaaaaaaaaaaaaaaaaaa'')]"
proof -
  let ?rs = "[sample_recipient ''1bbbbbbbbbbbbbbbbbbbbbbbbb'']" and ?r = "sample_recipient ''1aaaaaaaaaaaaaaaaaaaaaaaaa''"
  obtain ret m' w' where s: "sendCoins sample_qt (?r # ?rs) (new_WalletModel sample_qt, \<lparr>rpc_steps = 0, rpc_posted = []\<rparr>) = (ret, (m', w'))"
    by (metis prod.exhaust)
  have ok: "ret_status ret = OK"
  proof -
    have v: "recipients_error (?r # ?rs) = None" by (simp add: sample_recipient_def validateAddress_def)
    have "\<exists>m w. bht_call sample_qt meth params timeout s = (RpcOk (JString ''id''), (m, w))" for meth params timeout s
      by (cases s) (simp add: bht_call_def rpcCall_def sample_qt_def rpc_answer_def jvalue_def Let_def)
    then obtain m2 w2 where "bht_call sample_qt ''sendtoaddress'' [JString (rcp_address ?r), decimal_json sample_qt (rcp_amount ?r), JString (rcp_label ?r),
        JString [], JBool (rcp_subtract_fee ?r)] 8000 (new_WalletModel sample_qt, \<lparr>rpc_steps = 0, rpc_posted = []\<rparr>) = (RpcOk (JString ''id''), (m2, w2))"
      by blast
    moreover have "rcp_asset ?r \<noteq> ''BHTE''" by (simp add: sample_recipient_def)
    ultimately show ?thesis using s v by (auto simp: sendCoins_def)
  qed
  from send_pays_first_only [OF s] ok s show ?thesis by (auto simp: sample_recipient_def pay_method_def)
qed

section \<open>Proofs of the bridge\<close>

text \<open>
  Account proofs of the second chain are accepted by their shape alone: a text is accepted exactly when it is a JSON
  object with an account proof that is a non-empty array, a balance and a storage hash, of whatever content, and
  its address, if it has one, is the account asked for. Neither the proof nor the state root is checked, whatever
  the nodes answer.
\<close>

theorem account_proof_shape_only:
  "bv_valid (fst (verifyBHTEAccountProof q address text s)) \<longleftrightarrow>
     (\<exists>pf e. qt_parse q text = (Some (JObject pf), e) \<and>
        (toString (jvalue ''address'' pf) = [] \<or> same_nocase (toString (jvalue ''address'' pf)) address) \<and>
        (\<exists>j js. jvalue ''accountProof'' pf = JArray (j # js)) \<and> ''balance'' \<in> fst ` set pf \<and>
        (''storageHash'' \<in> fst ` set pf \<or> ''storageRoot'' \<in> fst ` set pf))"
proof -
  obtain d e where p: "qt_parse q text = (d, e)" by fastforce
  have arr: "toArray x \<noteq> [] \<longleftrightarrow> (\<exists>j js. x = JArray (j # js))" for x by (cases x) (auto simp: neq_Nil_conv)
  have keys: "map_of pf k \<noteq> None \<longleftrightarrow> k \<in> fst ` set pf" for pf :: "(string \<times> json) list" and k by (simp add: map_of_eq_None_iff)
  show ?thesis
  proof (cases "\<exists>pf. d = Some (JObject pf)")
    case True
    then obtain pf where d: "d = Some (JObject pf)" by blast
    let ?addr = "toString (jvalue ''address'' pf) \<noteq> [] \<and> \<not> same_nocase (toString (jvalue ''address'' pf)) address"
    let ?shape = "toArray (jvalue ''accountProof'' pf) \<noteq> [] \<and> map_of pf ''balance'' \<noteq> None \<and> (map_of pf ''storageHash'' \<noteq> None \<or> map_of pf ''storageRoot'' \<noteq> None)"
    have "bv_valid (fst (verifyBHTEAccountProof q address text s)) \<longleftrightarrow> \<not> ?addr \<and> ?shape"
    proof -
      obtain x s1 where "bhte_call q ''eth_blockNumber'' [] POLL_RPC_TIMEOUT_MS s = (x, s1)" by (metis prod.exhaust)
      then show ?thesis by (auto simp: verifyBHTEAccountProof_def p d new_verification_def Let_def)
    qed
    then show ?thesis unfolding arr keys using p d by auto
  next
    case False
    have "\<not> bv_valid (fst (verifyBHTEAccountProof q address text s))"
    proof (cases d)
      case (Some j)
      with False p show ?thesis by (cases j) (auto simp: verifyBHTEAccountProof_def new_verification_def Let_def)
    qed (use p in \<open>simp add: verifyBHTEAccountProof_def new_verification_def Let_def\<close>)
    with False p show ?thesis by auto
  qed
qed

text \<open>
  A deposit proof is accepted exactly when both texts are not blank, the node finds the transaction in the proof and
  reports it with at least the required number of confirmations, in that order.
\<close>

theorem deposit_proof_accepted:
  "bv_valid (fst (verifyBHTDepositProof q txid pf n s)) \<longleftrightarrow>
     trimmed txid \<noteq> [] \<and> trimmed pf \<noteq> [] \<and>
     (\<exists>found s1 tx s2. bht_call q ''verifytxoutproof'' [JString (trimmed pf)] 8000 s = (RpcOk found, s1) \<and>
        (\<exists>j\<in>set (toArray found). same_nocase (toString j) txid) \<and>
        bht_call q ''getrawtransaction'' [JString txid, JBool True] 8000 s1 = (RpcOk tx, s2) \<and>
        n \<le> qt_long q (jvalue ''confirmations'' (toObject tx)))"
proof -
  obtain r1 s1 where c1: "bht_call q ''verifytxoutproof'' [JString (trimmed pf)] 8000 s = (r1, s1)" by (metis prod.exhaust)
  obtain r2 s2 where c2: "bht_call q ''getrawtransaction'' [JString txid, JBool True] 8000 s1 = (r2, s2)" by (metis prod.exhaust)
  show ?thesis
  proof (cases r1)
    case (RpcOk found)
    then show ?thesis
      by (cases r2) (auto simp: verifyBHTDepositProof_def c1 c2 new_verification_def Let_def list_ex_iff not_less)
  qed (auto simp: verifyBHTDepositProof_def c1 new_verification_def Let_def)
qed

section \<open>The history\<close>

declare setTransactions_def [simp]

definition entries :: "rpc_result \<Rightarrow> json list" where
  "entries r = (case r of RpcOk j \<Rightarrow> toArray j | RpcError e \<Rightarrow> [])"

lemma calls_ignore_history:
  "bht_call q method params timeout (m\<lparr>wm_indexed := x\<rparr>, w) = (case bht_call q method params timeout (m, w) of (r, (m', w')) \<Rightarrow> (r, (m\<lparr>wm_indexed := x\<rparr>, w')))"
  "bhte_call q method params timeout (m\<lparr>wm_indexed := x\<rparr>, w) = (case bhte_call q method params timeout (m, w) of (r, (m', w')) \<Rightarrow> (r, (m\<lparr>wm_indexed := x\<rparr>, w')))"
  by (simp_all add: bht_call_def bhte_call_def split: prod.splits)

lemma account_ignores_history:
  "getDefaultBHTEAccount q timeout (m\<lparr>wm_indexed := x\<rparr>, w) =
     (case getDefaultBHTEAccount q timeout (m, w) of (r, (m', w')) \<Rightarrow> (r, (m\<lparr>wm_indexed := x\<rparr>, w')))"
proof -
  obtain r m1 w1 where c: "bhte_call q ''eth_accounts'' [] timeout (m, w) = (r, (m1, w1))" by (metis prod.exhaust)
  show ?thesis
    by (cases r) (auto simp: getDefaultBHTEAccount_def calls_ignore_history c Let_def split: list.splits)
qed

text \<open>
  The history after synchronising: when an account is known, the table shows exactly the entries both nodes
  listed, each once, newest first; a node that does not answer contributes nothing and the other's entries are shown.
  (\<^verbatim>\<open>std::sort\<close> orders by time and leaves the order of simultaneous entries open.)
\<close>

theorem history_synchronised:
  assumes "\<And>l. mset (qt_sort q l) = mset l" and "\<And>l. sorted_wrt (\<lambda>a b. tr_time b \<le> tr_time a) (qt_sort q l)"
    and "bht_call q ''listtransactions'' [JString ''*'', JDouble (of_int (setting_int q ''bhtHistoryCount'' 100)), JDouble 0, JBool True]
           POLL_RPC_TIMEOUT_MS (m, w) = (r1, (m1, w1))"
    and "getDefaultBHTEAccount q POLL_RPC_TIMEOUT_MS (m, w1) = ((account, e), (m2, w2))" and "account \<noteq> []"
    and "setting q ''bhteHistoryMethod'' ''bhte_getTransactionsByAddress'' = method" and "trimmed method \<noteq> []"
    and "bhte_call q method [JString account, JDouble (of_int (setting_int q ''bhteHistoryCount'' 100))] POLL_RPC_TIMEOUT_MS (m, w2) = (r2, (m3, w3))"
  shows "\<exists>ok err m'. syncTransactionHistory q (m, w) = ((ok, err), (m', w3)) \<and>
    (ok \<longleftrightarrow> (\<exists>j. r1 = RpcOk j) \<or> (\<exists>j. r2 = RpcOk j)) \<and>
    sorted_wrt (\<lambda>a b. tr_time b \<le> tr_time a) (wm_table m') \<and>
    mset (wm_table m') = mset (map (bht_record q) (entries r1) @ map (bhte_record q account) (entries r2))"
proof -
  let ?x1 = "map (bht_record q) (entries r1)" and ?x2 = "map (bhte_record q account) (entries r2)"
  have "\<exists>e1. refreshBHTTransactions q (m\<lparr>wm_indexed := []\<rparr>, w) = ((\<exists>j. r1 = RpcOk j, e1), (m\<lparr>wm_indexed := ?x1\<rparr>, w1))"
    by (cases r1) (simp_all add: refreshBHTTransactions_def calls_ignore_history assms(3) entries_def)
  then obtain e1 where s1: "refreshBHTTransactions q (m\<lparr>wm_indexed := []\<rparr>, w) = ((\<exists>j. r1 = RpcOk j, e1), (m\<lparr>wm_indexed := ?x1\<rparr>, w1))" by blast
  have "\<exists>e2. refreshBHTETransactions q (m\<lparr>wm_indexed := ?x1\<rparr>, w1) = ((\<exists>j. r2 = RpcOk j, e2), (m\<lparr>wm_indexed := ?x1 @ ?x2\<rparr>, w3))"
    using assms(5,7) by (cases r2)
      (simp_all add: refreshBHTETransactions_def account_ignores_history calls_ignore_history assms(4,6,8) entries_def Let_def)
  then obtain e2 where s2: "refreshBHTETransactions q (m\<lparr>wm_indexed := ?x1\<rparr>, w1) = ((\<exists>j. r2 = RpcOk j, e2), (m\<lparr>wm_indexed := ?x1 @ ?x2\<rparr>, w3))" by blast
  show ?thesis
    unfolding syncTransactionHistory_def by (simp add: s1 s2 Let_def assms(1,2))
qed

definition history_qt :: qt where
  "history_qt = sample_qt\<lparr>qt_settings := [''bhteDefaultAccount'' \<mapsto> ''0xabc''], qt_long := (\<lambda>j. case j of JDouble x \<Rightarrow> \<lfloor>x\<rfloor> | _ \<Rightarrow> 0),
     qt_parse := (\<lambda>t. (Some (JObject [(''result'', JArray [JObject [(''time'', JDouble 1)], JObject [(''time'', JDouble 2)]])]), []))\<rparr>"

lemma history_qt_sort: "mset (qt_sort history_qt l) = mset l" "sorted_wrt (\<lambda>a b. tr_time b \<le> tr_time a) (qt_sort history_qt l)"
proof -
  show "mset (qt_sort history_qt l) = mset l" by (simp add: history_qt_def sample_qt_def)
  have "sorted_wrt (\<lambda>a b. tr_time a \<le> tr_time b) (sort_key tr_time l)"
    using sorted_sort_key [of tr_time l] by (simp add: sorted_map)
  then show "sorted_wrt (\<lambda>a b. tr_time b \<le> tr_time a) (qt_sort history_qt l)"
    by (simp add: history_qt_def sample_qt_def sorted_wrt_rev)
qed

theorem history_synchronised_witness:
  "\<exists>ok err m' w'. syncTransactionHistory history_qt (new_WalletModel history_qt, \<lparr>rpc_steps = 0, rpc_posted = []\<rparr>) = ((ok, err), (m', w')) \<and>
     ok \<and> sorted_wrt (\<lambda>a b. tr_time b \<le> tr_time a) (wm_table m') \<and> length (wm_table m') = 4"
proof -
  let ?q = history_qt and ?m = "new_WalletModel history_qt" and ?w = "\<lparr>rpc_steps = 0, rpc_posted = []\<rparr>"
  let ?r = "RpcOk (JArray [JObject [(''time'', JDouble 1)], JObject [(''time'', JDouble 2)]])"
  have call: "\<exists>m w. bht_call ?q meth params timeout s = (?r, (m, w))" "\<exists>m w. bhte_call ?q meth params timeout s = (?r, (m, w))"
    for meth params timeout s
    by (cases s, simp add: bht_call_def bhte_call_def rpcCall_def history_qt_def sample_qt_def rpc_answer_def jvalue_def Let_def)+
  obtain m1 w1 where 1: "bht_call ?q ''listtransactions'' [JString ''*'', JDouble (of_int (setting_int ?q ''bhtHistoryCount'' 100)), JDouble 0, JBool True]
      POLL_RPC_TIMEOUT_MS (?m, ?w) = (?r, (m1, w1))" using call(1) by blast
  have 2: "getDefaultBHTEAccount ?q POLL_RPC_TIMEOUT_MS (?m, w1) = ((''0xabc'', []), (?m, w1))"
  proof -
    have "setting ?q ''bhteDefaultAccount'' [] = ''0xabc''" by (simp add: setting_def history_qt_def)
    then show ?thesis by (simp add: getDefaultBHTEAccount_def Let_def)
  qed
  have 3: "setting ?q ''bhteHistoryMethod'' ''bhte_getTransactionsByAddress'' = ''bhte_getTransactionsByAddress''"
    by (simp add: setting_def history_qt_def)
  obtain m3 w3 where 4: "bhte_call ?q ''bhte_getTransactionsByAddress'' [JString ''0xabc'', JDouble (of_int (setting_int ?q ''bhteHistoryCount'' 100))]
      POLL_RPC_TIMEOUT_MS (?m, w1) = (?r, (m3, w3))" using call(2) by blast
  have 5: "''0xabc'' \<noteq> ([] :: string)" "trimmed ''bhte_getTransactionsByAddress'' \<noteq> []" by (simp_all add: trimmed_def is_space_def)
  from history_synchronised [OF history_qt_sort 1 2 5(1) 3 5(2) 4] obtain ok err m' where
    s: "syncTransactionHistory ?q (?m, ?w) = ((ok, err), (m', w3))" "ok" "sorted_wrt (\<lambda>a b. tr_time b \<le> tr_time a) (wm_table m')"
      "mset (wm_table m') = mset (map (bht_record ?q) (entries ?r) @ map (bhte_record ?q ''0xabc'') (entries ?r))" by auto
  have "length (wm_table m') = 4" using mset_eq_length [OF s(4)] by (simp add: entries_def)
  with s(1-3) show ?thesis by auto
qed

section \<open>Balances\<close>

datatype wm_op =
  OpSend "SendCoinsRecipient list" | OpBroadcast string string | OpBuildSend string string int bool | OpBuildBHT string int bool bool
  | OpBuildBHTE string int bool | OpEndpoints string string | OpRefresh | OpSync | OpPoll | OpDepositProof string | OpAccountProof string
  | OpVerifyDeposit string string int | OpVerifyAccount string string | OpStart string | OpStop string | OpEncryption int | OpWatchOnly bool

fun wm_exec :: "qt \<Rightarrow> wm_op \<Rightarrow> wm_state \<Rightarrow> unit \<times> wm_state" where
  "wm_exec q (OpSend rs) s = ((), snd (sendCoins q rs s))"
| "wm_exec q (OpBroadcast chain raw) s = ((), snd (broadcastRawTransaction q chain raw s))"
| "wm_exec q (OpBuildSend chain to amount sub) s = ((), snd (buildSignAndBroadcast q chain to amount sub s))"
| "wm_exec q (OpBuildBHT to amount sub sign) s = ((), snd (buildBHTRawTransaction q to amount sub sign s))"
| "wm_exec q (OpBuildBHTE to amount sign) s = ((), snd (buildBHTERawTransaction q to amount sign s))"
| "wm_exec q (OpEndpoints a b) (m, w) = ((), (setRpcEndpoints a b m, w))"
| "wm_exec q OpRefresh s = ((), snd (refreshChainStates q s))"
| "wm_exec q OpSync s = ((), snd (syncTransactionHistory q s))"
| "wm_exec q OpPoll s = ((), snd (pollTimerFires q s))"
| "wm_exec q (OpDepositProof txid) s = ((), snd (createBHTDepositProof q txid s))"
| "wm_exec q (OpAccountProof a) s = ((), snd (createBHTEAccountProof q a s))"
| "wm_exec q (OpVerifyDeposit txid pf n) s = ((), snd (verifyBHTDepositProof q txid pf n s))"
| "wm_exec q (OpVerifyAccount a pf) s = ((), snd (verifyBHTEAccountProof q a pf s))"
| "wm_exec q (OpStart chain) s = ((), snd (startManagedNode q chain s))"
| "wm_exec q (OpStop chain) s = ((), snd (stopManagedNode q chain s))"
| "wm_exec q (OpEncryption st) (m, w) = ((), (setEncryptionStatus st m, w))"
| "wm_exec q (OpWatchOnly b) (m, w) = ((), (updateWatchOnlyBalance b m, w))"

text \<open>The first balance is that of the first chain; nothing else is ever announced.\<close>

definition balances_inv :: "wm_state \<Rightarrow> bool" where
  "balances_inv s \<longleftrightarrow> wm_balances (fst s) = [cs_balance (wm_bht (fst s)), 0, 0, 0, 0, 0]"

lemma call_model [simp]:
  "fst (snd (bht_call q method params timeout s)) = fst s" "fst (snd (bhte_call q method params timeout s)) = fst s"
  by (auto simp: bht_call_def bhte_call_def split: prod.splits)

lemma account_model [simp]: "fst (snd (getDefaultBHTEAccount q timeout s)) = fst s"
proof -
  obtain x s' where c: "getDefaultBHTEAccount q timeout s = (x, s')" by (metis prod.exhaust)
  show ?thesis using account_quiet [of q timeout "fst s" "snd s" x "fst s'" "snd s'"] c by simp
qed

lemma inv_fst: "fst s' = fst s \<Longrightarrow> balances_inv s \<Longrightarrow> balances_inv s'"
  by (simp add: balances_inv_def)

lemma bht_call_inv: "bht_call q meth params timeout s = (r, s') \<Longrightarrow> balances_inv s \<Longrightarrow> balances_inv s'"
  using call_model(1) [of q meth params timeout s] inv_fst [of s' s] by simp

lemma bhte_call_inv: "bhte_call q meth params timeout s = (r, s') \<Longrightarrow> balances_inv s \<Longrightarrow> balances_inv s'"
  using call_model(2) [of q meth params timeout s] inv_fst [of s' s] by simp

lemma account_inv: "getDefaultBHTEAccount q timeout s = (r, s') \<Longrightarrow> balances_inv s \<Longrightarrow> balances_inv s'"
  using account_model [of q timeout s] inv_fst [of s' s] by simp

lemmas call_invs = bht_call_inv bhte_call_inv account_inv

lemma refreshBHTState_inv:
  assumes "balances_inv s"
  shows "balances_inv (snd (refreshBHTState q s))"
proof -
  obtain m w where s: "s = (m, w)" by fastforce
  let ?e = "setting q ''bhtRpcEndpoint'' (if cs_endpoint (wm_bht m) = [] then ''http://127.0.0.1:18332'' else cs_endpoint (wm_bht m))"
  let ?c = "\<lambda>method w. rpcCall q ?e method [] (bht_user q) POLL_RPC_TIMEOUT_MS w"
  obtain r1 w1 where c1: "?c ''getblockchaininfo'' w = (r1, w1)" by fastforce
  obtain r2 w2 where c2: "?c ''getnetworkinfo'' w1 = (r2, w2)" by fastforce
  obtain r3 w3 where c3: "?c ''getbalance'' w2 = (r3, w3)" by fastforce
  show ?thesis
    using assms s c1 c2 c3 by (cases r1; cases r2; cases r3) (simp_all add: refreshBHTState_def balances_inv_def Let_def)
qed

lemma refreshBHTEState_model:
  "wm_balances (fst (snd (refreshBHTEState q (m, w)))) = wm_balances m \<and> wm_bht (fst (snd (refreshBHTEState q (m, w)))) = wm_bht m"
proof -
  let ?e = "setting q ''bhteRpcEndpoint'' (if cs_endpoint (wm_bhte m) = [] then ''http://127.0.0.1:8545'' else cs_endpoint (wm_bhte m))"
  let ?c = "\<lambda>method params w. rpcCall q ?e method params ([], []) POLL_RPC_TIMEOUT_MS w"
  obtain r1 w1 where c1: "?c ''eth_blockNumber'' [] w = (r1, w1)" by fastforce
  obtain r2 w2 where c2: "?c ''net_peerCount'' [] w1 = (r2, w2)" by fastforce
  obtain account e m3 w3 where c3: "getDefaultBHTEAccount q POLL_RPC_TIMEOUT_MS (m, w2) = ((account, e), (m3, w3))" by (metis prod.exhaust)
  obtain r4 w4 where c4: "?c ''eth_getBalance'' [JString account, JString ''latest''] w3 = (r4, w4)" by fastforce
  have "m3 = m" using account_quiet [OF c3] by simp
  then show ?thesis
    using c1 c2 c3 c4 by (cases r1; cases r4; cases "account = []") (simp_all add: refreshBHTEState_def Let_def)
qed

lemma refreshBHTEState_inv: "balances_inv s \<Longrightarrow> balances_inv (snd (refreshBHTEState q s))"
  using refreshBHTEState_model [of q "fst s" "snd s"] by (simp add: balances_inv_def)

lemma sync_inv: "balances_inv s \<Longrightarrow> balances_inv (snd (syncTransactionHistory q s))"
proof -
  assume s: "balances_inv s"
  obtain m w where m: "s = (m, w)" by fastforce
  have 1: "balances_inv (snd (refreshBHTTransactions q t))" if "balances_inv t" for t
  proof -
    obtain r m' w' where c: "bht_call q ''listtransactions'' [JString ''*'', JDouble (of_int (setting_int q ''bhtHistoryCount'' 100)), JDouble 0, JBool True]
        POLL_RPC_TIMEOUT_MS t = (r, (m', w'))" by (metis prod.exhaust)
    from bht_call_inv [OF c that] show ?thesis by (cases r) (auto simp: refreshBHTTransactions_def c balances_inv_def)
  qed
  have 2: "balances_inv (snd (refreshBHTETransactions q t))" if "balances_inv t" for t
  proof -
    obtain a e t1 where a: "getDefaultBHTEAccount q POLL_RPC_TIMEOUT_MS t = ((a, e), t1)" by (metis prod.exhaust)
    obtain r m' w' where c: "bhte_call q (setting q ''bhteHistoryMethod'' ''bhte_getTransactionsByAddress'')
        [JString a, JDouble (of_int (setting_int q ''bhteHistoryCount'' 100))] POLL_RPC_TIMEOUT_MS t1 = (r, (m', w'))" by (metis prod.exhaust)
    note t1 = account_inv [OF a that]
    from t1 bhte_call_inv [OF c t1] show ?thesis by (cases r) (auto simp: refreshBHTETransactions_def a c balances_inv_def Let_def)
  qed
  obtain x s1 where x: "refreshBHTTransactions q (m\<lparr>wm_indexed := []\<rparr>, w) = (x, s1)" by (metis prod.exhaust)
  obtain y m2 w2 where y: "refreshBHTETransactions q s1 = (y, (m2, w2))" by (metis prod.exhaust)
  have "balances_inv s1" using 1 [of "(m\<lparr>wm_indexed := []\<rparr>, w)"] s m x by (simp add: balances_inv_def)
  from 2 [OF this] y have "balances_inv (m2, w2)" by simp
  then show ?thesis using m x y by (cases x; cases y) (simp add: syncTransactionHistory_def balances_inv_def Let_def)
qed

lemma refresh_inv: "balances_inv s \<Longrightarrow> balances_inv (snd (refreshChainStates q s))"
proof -
  assume s: "balances_inv s"
  obtain b1 s1 where 1: "refreshBHTState q s = (b1, s1)" by (metis prod.exhaust)
  obtain b2 s2 where 2: "refreshBHTEState q s1 = (b2, s2)" by (metis prod.exhaust)
  have "balances_inv s1" using refreshBHTState_inv [OF s, of q] 1 by simp
  then have "balances_inv s2" using refreshBHTEState_inv [of s1 q] 2 by simp
  from sync_inv [OF this] show ?thesis by (simp add: refreshChainStates_def 1 2)
qed

lemma poll_inv:
  assumes "balances_inv (m, w)"
  shows "balances_inv (snd (pollTimerFires q (m, w)))"
proof -
  let ?s = "if (case wm_last_poll m of None \<Rightarrow> True | Some t \<Rightarrow> qt_now q (rpc_steps w) - t \<ge> 15)
    then snd (refreshChainStates q (m\<lparr>wm_last_poll := Some (qt_now q (rpc_steps w))\<rparr>, w)) else (m, w)"
  have "balances_inv ?s" using assms refresh_inv [of "(m\<lparr>wm_last_poll := Some (qt_now q (rpc_steps w))\<rparr>, w)" q] by (auto simp: balances_inv_def)
  moreover obtain m1 w1 where s: "?s = (m1, w1)" by fastforce
  ultimately have "balances_inv (m1, w1)" by simp
  then show ?thesis using s by (simp add: pollTimerFires_def Let_def checkBalanceChanged_def balances_inv_def)
qed

lemma send_inv:
  assumes "balances_inv s"
  shows "balances_inv (snd (sendCoins q rs s))"
proof (cases "recipients_error rs")
  case None
  show ?thesis
  proof (cases rs)
    case (Cons r rs')
    show ?thesis
    proof (cases "rcp_asset r = ''BHTE''")
      case True
      obtain src e s1 where a: "getDefaultBHTEAccount q 8000 s = ((src, e), s1)" by (metis prod.exhaust)
      let ?tx = "[(''from'', JString src), (''to'', JString (rcp_address r)), (''value'', JString (quantityToHex (rcp_amount r))), (''gas'', JString ''0x5208'')]"
      obtain x s2 where c: "bhte_call q ''eth_sendTransaction'' [JObject ?tx] 8000 s1 = (x, s2)" by (metis prod.exhaust)
      note s1 = account_inv [OF a assms]
      note s2 = bhte_call_inv [OF c s1]
      from s1 s2 refreshBHTEState_inv [OF s2, of q] show ?thesis
        using True None Cons a c by (cases x) (auto simp: sendCoins_def)
    next
      case False
      obtain x s2 where c: "bht_call q ''sendtoaddress'' [JString (rcp_address r), decimal_json q (rcp_amount r), JString (rcp_label r),
          JString [], JBool (rcp_subtract_fee r)] 8000 s = (x, s2)" by (metis prod.exhaust)
      note s2 = bht_call_inv [OF c assms]
      from s2 refreshBHTState_inv [OF s2, of q] show ?thesis
        using False None Cons c by (cases x) (auto simp: sendCoins_def)
    qed
  qed (use None assms in \<open>simp add: sendCoins_def\<close>)
qed (use assms in \<open>simp add: sendCoins_def\<close>)

text \<open>The operations that only call the nodes leave the model as it is.\<close>

lemma broadcast_model: "fst (snd (broadcastRawTransaction q chain raw s)) = fst s"
proof -
  obtain r1 s1 where 1: "bhte_call q ''eth_sendRawTransaction'' [JString raw] 8000 s = (r1, s1)" by (metis prod.exhaust)
  obtain r2 s2 where 2: "bht_call q ''sendrawtransaction'' [JString raw] 8000 s = (r2, s2)" by (metis prod.exhaust)
  have "fst s1 = fst s" "fst s2 = fst s"
    using call_model(2) [of q "''eth_sendRawTransaction''" "[JString raw]" 8000 s] call_model(1) [of q "''sendrawtransaction''" "[JString raw]" 8000 s] 1 2
    by simp_all
  then show ?thesis using 1 2 by (cases r1; cases r2) (simp_all add: broadcastRawTransaction_def)
qed

lemma buildBHT_model: "fst (snd (buildBHTRawTransaction q to amount sub sign s)) = fst s"
proof -
  let ?raw = "\<lambda>r. case r of RpcOk j \<Rightarrow> toString j | RpcError e \<Rightarrow> []"
  obtain r1 s1 where 1: "bht_call q ''createrawtransaction'' [JArray [], JObject [(to, decimal_json q amount)]] 8000 s = (r1, s1)"
    by (metis prod.exhaust)
  obtain r2 s2 where 2: "bht_call q ''fundrawtransaction'' [JString (?raw r1), JObject (if sub then [(''subtractFeeFromOutputs'', JArray [JDouble 0])] else [])] 8000 s1 = (r2, s2)"
    by (metis prod.exhaust)
  obtain r3 s3 where 3: "bht_call q ''signrawtransactionwithwallet''
      [JString (toString_or (?raw r1) (jvalue ''hex'' (case r2 of RpcOk j \<Rightarrow> toObject j | RpcError e \<Rightarrow> [])))] 8000 s2 = (r3, s3)"
    by (metis prod.exhaust)
  have m: "fst s1 = fst s" "fst s2 = fst s1" "fst s3 = fst s2"
    using call_model(1) 1 2 3 by (metis fst_conv snd_conv)+
  show ?thesis
  proof (cases "validateAddress to \<and> amount > 0")
    case True
    show ?thesis
    proof (cases r1)
      case (RpcOk j1)
      then show ?thesis
        using True 1 2 3 m by (cases r2; cases r3) (auto simp: buildBHTRawTransaction_def new_build_def Let_def)
    qed (use True 1 m in \<open>simp add: buildBHTRawTransaction_def Let_def\<close>)
  qed (auto simp: buildBHTRawTransaction_def Let_def)
qed

lemma field_model:
  "fst (snd (estimate_gas q tx s)) = fst s" "fst (snd (add_field q key method params tx s)) = fst s"
proof -
  obtain r1 s1 where 1: "bhte_call q ''eth_estimateGas'' [JObject tx] 8000 s = (r1, s1)" by (metis prod.exhaust)
  have "fst s1 = fst s" using call_model(2) 1 by (metis fst_conv snd_conv)
  then show "fst (snd (estimate_gas q tx s)) = fst s" using 1 by (cases r1) (simp_all add: estimate_gas_def)
  obtain r2 s2 where 2: "bhte_call q method params 8000 s = (r2, s2)" by (metis prod.exhaust)
  have "fst s2 = fst s" using call_model(2) 2 by (metis fst_conv snd_conv)
  then show "fst (snd (add_field q key method params tx s)) = fst s" using 2 by (cases r2) (simp_all add: add_field_def)
qed

lemma buildBHTE_model: "fst (snd (buildBHTERawTransaction q to amount sign s)) = fst s"
proof -
  obtain src e s0 where 0: "getDefaultBHTEAccount q 8000 s = ((src, e), s0)" by (metis prod.exhaust)
  obtain t1 s1 where 1: "estimate_gas q [(''from'', JString src), (''to'', JString to), (''value'', JString (quantityToHex amount))] s0 = (t1, s1)"
    by (metis prod.exhaust)
  obtain t2 s2 where 2: "add_field q ''nonce'' ''eth_getTransactionCount'' [JString src, JString ''pending''] t1 s1 = (t2, s2)"
    by (metis prod.exhaust)
  obtain t3 s3 where 3: "add_field q ''chainId'' ''eth_chainId'' [] t2 s2 = (t3, s3)" by (metis prod.exhaust)
  obtain r s4 where 4: "bhte_call q ''eth_signTransaction'' [JObject t3] 8000 s3 = (r, s4)" by (metis prod.exhaust)
  have m: "fst s0 = fst s" "fst s1 = fst s0" "fst s2 = fst s1" "fst s3 = fst s2" "fst s4 = fst s3"
    using account_model 0 field_model 1 2 3 call_model(2) 4 by (metis fst_conv snd_conv)+
  show ?thesis
  proof (cases "validateAddress to \<and> amount > 0 \<and> src \<noteq> [] \<and> sign")
    case True
    then show ?thesis using 0 1 2 3 4 m by (cases r) (auto simp: buildBHTERawTransaction_def Let_def)
  next
    case False
    then show ?thesis using 0 1 2 3 m by (auto simp: buildBHTERawTransaction_def Let_def)
  qed
qed

lemma buildSend_model: "fst (snd (buildSignAndBroadcast q chain to amount sub s)) = fst s"
proof -
  obtain b1 s1 where 1: "buildBHTERawTransaction q to amount True s = (b1, s1)" by (metis prod.exhaust)
  obtain b2 s2 where 2: "buildBHTRawTransaction q to amount sub True s = (b2, s2)" by (metis prod.exhaust)
  have "fst s1 = fst s" "fst s2 = fst s" using buildBHTE_model buildBHT_model 1 2 by (metis snd_conv)+
  then show ?thesis by (simp add: buildSignAndBroadcast_def 1 2 broadcast_model)
qed

lemma verify_model:
  "fst (snd (createBHTDepositProof q txid s)) = fst s" "fst (snd (createBHTEAccountProof q txid s)) = fst s"
  "fst (snd (verifyBHTDepositProof q txid pf n s)) = fst s" "fst (snd (verifyBHTEAccountProof q txid pf s)) = fst s"
proof -
  obtain r1 s1 where 1: "bht_call q ''gettxoutproof'' [JArray [JString txid]] 8000 s = (r1, s1)" by (metis prod.exhaust)
  obtain r2 s2 where 2: "bhte_call q ''eth_getProof'' [JString txid, JArray [], JString ''latest''] 8000 s = (r2, s2)" by (metis prod.exhaust)
  obtain r3 s3 where 3: "bht_call q ''verifytxoutproof'' [JString (trimmed pf)] 8000 s = (r3, s3)" by (metis prod.exhaust)
  obtain r4 s4 where 4: "bht_call q ''getrawtransaction'' [JString txid, JBool True] 8000 s3 = (r4, s4)" by (metis prod.exhaust)
  obtain r5 s5 where 5: "bhte_call q ''eth_blockNumber'' [] POLL_RPC_TIMEOUT_MS s = (r5, s5)" by (metis prod.exhaust)
  have m: "fst s1 = fst s" "fst s2 = fst s" "fst s3 = fst s" "fst s4 = fst s3" "fst s5 = fst s"
    using call_model 1 2 3 4 5 by (metis fst_conv snd_conv)+
  show "fst (snd (createBHTDepositProof q txid s)) = fst s" using 1 m by (cases r1) (simp_all add: createBHTDepositProof_def)
  show "fst (snd (createBHTEAccountProof q txid s)) = fst s" using 2 m by (cases r2) (simp_all add: createBHTEAccountProof_def)
  show "fst (snd (verifyBHTDepositProof q txid pf n s)) = fst s"
    using 3 4 m by (cases r3; cases r4) (simp_all add: verifyBHTDepositProof_def Let_def)
  obtain d e where p: "qt_parse q pf = (d, e)" by fastforce
  show "fst (snd (verifyBHTEAccountProof q txid pf s)) = fst s"
    using 5 m p by (auto simp: verifyBHTEAccountProof_def Let_def split: option.splits json.splits)
qed

lemma process_inv:
  assumes "balances_inv (m, w)"
  shows "balances_inv (snd (startManagedNode q chain (m, w)))" "balances_inv (snd (stopManagedNode q chain (m, w)))"
  using assms by (simp_all add: startManagedNode_def stopManagedNode_def balances_inv_def Let_def)

lemma wm_exec_inv:
  assumes "balances_inv s" and "wm_exec q op s = (r, s')"
  shows "balances_inv s'"
proof -
  obtain m w where s: "s = (m, w)" by fastforce
  have same: "balances_inv (snd x)" if "fst (snd x) = fst s" for x :: "'a \<times> wm_state"
    using that assms(1) inv_fst by blast
  have s': "s' = snd (wm_exec q op s)" using assms(2) by simp
  show ?thesis
  proof (cases op)
    case (OpSend rs)
    with s' assms(1) show ?thesis by (simp add: send_inv)
  next
    case OpRefresh
    with s' assms(1) show ?thesis by (simp add: refresh_inv)
  next
    case OpSync
    with s' assms(1) show ?thesis by (simp add: sync_inv)
  next
    case OpPoll
    with s' s assms(1) show ?thesis by (simp add: poll_inv)
  next
    case (OpStart chain)
    with s' s assms(1) show ?thesis by (simp add: process_inv)
  next
    case (OpStop chain)
    with s' s assms(1) show ?thesis by (simp add: process_inv)
  qed (use assms(1) s s' in \<open>auto simp: balances_inv_def broadcast_model buildSend_model buildBHT_model buildBHTE_model verify_model
      setRpcEndpoints_def setEncryptionStatus_def updateWatchOnlyBalance_def Let_def\<close>)
qed

interpretation wallet_model: kept_invariant "wm_exec q" balances_inv for q
  by unfold_locales (rule wm_exec_inv)

text \<open>
  The balances shown: in every reachable state the balance of the wallet is the one last reported by the node of
  the first chain, and the other five balances (unconfirmed, immature and watch-only ones) are zero: nothing ever sets them.
\<close>

theorem balances_always:
  assumes "run (wm_exec q) (new_WalletModel q, w0) tr (m, w)"
  shows "announced m = [cs_balance (wm_bht m), 0, 0, 0, 0, 0]"
proof -
  have "balances_inv (new_WalletModel q, w0)"
    by (simp add: balances_inv_def new_WalletModel_def new_ChainState_def numeral_eq_Suc)
  from wallet_model.run_inv [OF assms this] show ?thesis
    by (simp add: balances_inv_def announced_def getBalance_def getUnconfirmedBalance_def getImmatureBalance_def getWatchOnlyBalance_def
        getWatchUnconfirmedBalance_def getWatchImmatureBalance_def)
qed

theorem balances_always_witness:
  "\<exists>tr m w. run (wm_exec sample_qt) (new_WalletModel sample_qt, \<lparr>rpc_steps = 0, rpc_posted = []\<rparr>) tr (m, w) \<and>
     announced m = [cs_balance (wm_bht m), 0, 0, 0, 0, 0]"
proof -
  obtain tr m w where e: "exec_all (wm_exec sample_qt) [OpRefresh, OpPoll] (new_WalletModel sample_qt, \<lparr>rpc_steps = 0, rpc_posted = []\<rparr>) = (tr, (m, w))"
    by (metis prod.exhaust)
  from balances_always [OF run_of_exec_all [OF e]] run_of_exec_all [OF e] show ?thesis by blast
qed

end
