(* ===== verification/PaymentProofs.thy ===== *)
theory PaymentProofs
  imports PaymentForms WalletModelProofs
begin

text \<open>
  What the forms for paying and for requesting payments do: the addresses shown for receiving, payment links, the
  button for the whole balance, and the button that sends.
\<close>

section \<open>Addresses for receiving\<close>

lemma to_base_length:
  "16 ^ k \<le> n \<Longrightarrow> n < 16 ^ Suc k \<Longrightarrow> length (to_base 16 n) = Suc k"
proof (induction k arbitrary: n)
  case 0
  then show ?case by (subst to_base.simps) simp
next
  case (Suc k)
  from Suc.prems have "16 ^ k \<le> n div 16" "n div 16 < 16 ^ Suc k" by auto
  moreover have "16 \<le> n" using Suc.prems(1) one_le_power [of 16 k] by (simp add: le_trans [of 16 "16 * 16 ^ k"])
  ultimately show ?case using Suc.IH [of "n div 16"] by (subst to_base.simps) simp
qed

lemma justified_length: "length (justified n s) = n"
  by (simp add: justified_def)

lemma justified_seed:
  assumes "2 ^ 40 \<le> t" and "t < 2 ^ 44" and "11 \<le> n"
  shows "hex_value (take 11 (justified n (clock_seed t))) = nat t"
proof -
  have u: "unat (word_of_int t :: u64) = nat t"
    using assms by (simp add: unat_eq_nat_uint uint_word_of_int_eq take_bit_int_eq_self)
  have "length (clock_seed t) = 11"
    unfolding clock_seed_def u using assms(1,2) by (intro to_base_length [of 10, simplified]) auto
  then have "take 11 (justified n (clock_seed t)) = clock_seed t"
    using assms(3) by (simp add: justified_def)
  then show ?thesis by (simp add: clock_seed_def u hex_value_to_base_16)
qed

lemma seed_digits: "set (clock_seed t) \<subseteq> set hex_chars"
  using to_base_digits [of 16] by (simp add: clock_seed_def digit_string_def)

lemma justified_digits: "set (justified n (clock_seed t)) \<subseteq> set hex_chars"
proof -
  have zero: "CHR ''0'' \<in> set hex_chars" by (simp add: hex_chars_def)
  have "set (replicate k CHR ''0'') \<subseteq> set hex_chars" for k using zero by (cases "k = 0") simp_all
  with seed_digits [of t] have "set (clock_seed t @ replicate (n - length (clock_seed t)) CHR ''0'') \<subseteq> set hex_chars"
    by (simp only: set_append Un_subset_iff)
  then show ?thesis unfolding justified_def by (rule order_trans [OF set_take_subset])
qed

lemma new_address:
  "rd_address (generateNewAddress query t d) =
     (if rd_asset d = ''BHTE'' then ''0x'' @ justified 40 (clock_seed t) else ''bht1q'' @ justified 38 (clock_seed t))"
  by (simp add: generateNewAddress_def generateQRCode_def Let_def)



section \<open>Payment links\<close>

lemma paste_link:
  assumes "CHR ''?'' \<notin> set a" and "a \<noteq> []" and "length a < npos" and "r = [] \<or> (\<exists>x. r = CHR ''?'' # x)"
  shows "en_address (on_pasteButton_clicked (''bht:'' @ a @ r) e) = a"
proof -
  have edit: "en_address (edit_address a e) = a" by (simp add: edit_address_def handleAddressChanged_def setValid_def Let_def)
  from assms(4) show ?thesis
  proof
    assume "r = []"
    then show ?thesis using assms edit find_char_none [OF assms(1)]
      by (simp add: on_pasteButton_clicked_def str_find_def Let_def)
  next
    assume "\<exists>x. r = CHR ''?'' # x"
    then obtain x where r: "r = CHR ''?'' # x" by blast
    have "str_find (a @ r) ''?'' 0 = length a"
      using str_find_char [of 0 "a @ r" a "CHR ''?''" x] assms(1) r by simp
    then show ?thesis using assms edit r by (simp add: on_pasteButton_clicked_def Let_def)
  qed
qed

lemma new_link:
  assumes "d' = generateNewAddress query t d"
  shows "\<exists>r. rd_uri d' = (if rd_asset d = ''BHTE'' then ''bhte:'' else ''bht:'') @ rd_address d' @ r \<and> (r = [] \<or> (\<exists>x. r = CHR ''?'' # x))"
  using assms by (auto simp: generateNewAddress_def generateQRCode_def Let_def)

text \<open>
  C38. Pasting the link of a payment request into the form for sending fills in its address, for requests of the first
  chain. A link of the second chain is not recognised: the form takes the whole link for the address, and as the
  recipient of a payment of the first chain it is accepted.
\<close>

theorem payment_link_roundtrip:
  assumes "d' = generateNewAddress query t d" and "copyURI d' = Some uri"
  shows "(rd_asset d \<noteq> ''BHTE'' \<longrightarrow> en_address (on_pasteButton_clicked uri e) = rd_address d') \<and>
    (rd_asset d = ''BHTE'' \<longrightarrow> en_address (on_pasteButton_clicked uri e) = uri \<and> validateAddress uri \<and>
       recipients_error [\<lparr>rcp_address = uri, rcp_label = l, rcp_asset = ''BHT'', rcp_amount = a, rcp_subtract_fee = b\<rparr>] = None)"
proof -
  have uri: "uri = rd_uri d'" using assms(2) by (simp add: copyURI_def split: if_splits)
  obtain r where r: "uri = (if rd_asset d = ''BHTE'' then ''bhte:'' else ''bht:'') @ rd_address d' @ r" "r = [] \<or> (\<exists>x. r = CHR ''?'' # x)"
    using new_link [OF assms(1)] uri by blast
  show ?thesis
  proof (cases "rd_asset d = ''BHTE''")
    case True
    have "length uri \<ge> 26" using r(1) True assms(1) by (simp add: new_address justified_length)
    moreover have "en_address (on_pasteButton_clicked uri e) = uri"
      using r(1) True by (simp add: on_pasteButton_clicked_def edit_address_def handleAddressChanged_def setValid_def Let_def)
    ultimately show ?thesis using r(1) True by (simp add: validateAddress_def)
  next
    case False
    then have a: "rd_address d' = ''bht1q'' @ justified 38 (clock_seed t)" using assms(1) by (simp add: new_address)
    have "CHR ''?'' \<notin> set (rd_address d')" using justified_digits [of 38 t] by (auto simp: a hex_chars_def)
    then have "en_address (on_pasteButton_clicked (''bht:'' @ rd_address d' @ r) e) = rd_address d'"
      using r(2) by (intro paste_link) (simp_all add: a justified_length npos_def)
    with r(1) False show ?thesis by simp
  qed
qed

theorem payment_link_roundtrip_witness:
  "en_address (on_pasteButton_clicked (rd_uri (new_ReceiveCoinsDialog (\<lambda>l. []) 1700000000000)) new_SendCoinsEntry) =
     rd_address (new_ReceiveCoinsDialog (\<lambda>l. []) 1700000000000)"
proof -
  let ?d = "\<lparr>rd_asset = ''BHC'', rd_combo = 0, rd_label = [], rd_amount = [], rd_message = [], rd_address = [], rd_address_edit = [], rd_uri = [],
        rd_address_label = []\<rparr>"
  have new: "new_ReceiveCoinsDialog (\<lambda>l. []) 1700000000000 = generateNewAddress (\<lambda>l. []) 1700000000000 ?d"
    by (simp only: new_ReceiveCoinsDialog_def)
  have "copyURI (generateNewAddress (\<lambda>l. []) 1700000000000 ?d) = Some (rd_uri (generateNewAddress (\<lambda>l. []) 1700000000000 ?d))"
    by (simp add: copyURI_def generateNewAddress_def generateQRCode_def Let_def)
  from payment_link_roundtrip [OF refl this, of new_SendCoinsEntry] show ?thesis unfolding new by simp
qed

section \<open>The whole balance\<close>

lemma coins_text_exact: "\<bar>a\<bar> < 2 ^ 26 * SATOSHI \<Longrightarrow> coins_text a = decimal_text a"
  using number_f8_exact [of a] by (simp add: coins_text_def SATOSHI_def)

text \<open>
  C37. The button for the whole balance never asks for more than the balance, and for at most one unit less: if the text of
  a balance is read as the double nearest to it, the amount of the payment is the balance or one unit below. For a balance
  of 0.29 coins it is one unit below.
\<close>

theorem max_button_never_overspends:
  assumes "0 \<le> getBalance m" and "getBalance m < 2 ^ 51"
    and reads: "qt_toDouble q (decimal_text (getBalance m)) = Some (fl (of_int (getBalance m) / of_int SATOSHI))"
  shows "rcp_amount (getValue q (on_useAvailableBalance_clicked (Some m) e)) \<in> {getBalance m - 1, getBalance m} \<and>
    (getBalance m = 29000000 \<longrightarrow> rcp_amount (getValue q (on_useAvailableBalance_clicked (Some m) e)) = 28999999)"
proof -
  let ?b = "getBalance m"
  have "coins_text ?b = decimal_text ?b" using assms(1,2) by (intro coins_text_exact) (simp add: SATOSHI_def)
  then have amount: "rcp_amount (getValue q (on_useAvailableBalance_clicked (Some m) e)) = amount_of_double (qt_cast q) (fl (of_int ?b / of_int SATOSHI))"
    using reads by (simp add: getValue_def on_useAvailableBalance_clicked_def edit_amount_def text_amount_def)
  have "trunc (fl (fl (of_int 29000000 / of_int SATOSHI) * of_int SATOSHI)) = 28999999" by code_simp
  then have "amount_of_double (qt_cast q) (fl (of_int 29000000 / of_int SATOSHI)) = 28999999" by (simp only: amount_of_double_def Let_def) simp
  with amount amount_read_near [OF assms(1,2), of "qt_cast q"] show ?thesis by auto
qed

theorem max_button_never_overspends_witness:
  "rcp_amount (getValue (sample_qt\<lparr>qt_toDouble := (\<lambda>t. Some (fl (of_int 29000000 / of_int SATOSHI)))\<rparr>)
     (on_useAvailableBalance_clicked (Some (new_WalletModel sample_qt\<lparr>wm_balances := [29000000, 0, 0, 0, 0, 0]\<rparr>)) new_SendCoinsEntry)) = 28999999"
proof -
  let ?m = "new_WalletModel sample_qt\<lparr>wm_balances := [29000000, 0, 0, 0, 0, 0]\<rparr>"
  have b: "getBalance ?m = 29000000" by (simp add: getBalance_def)
  show ?thesis
    using max_button_never_overspends [of ?m "sample_qt\<lparr>qt_toDouble := (\<lambda>t. Some (fl (of_int 29000000 / of_int SATOSHI)))\<rparr>" new_SendCoinsEntry]
    unfolding b by simp
qed

section \<open>The button that sends\<close>

text \<open>
  What the button that sends does: it posts at most one payment, to the address in the form and on the chain of the
  asset chosen in the entry; it closes the dialog only if that payment was posted; without a model, with
  an empty address or with an amount that is not positive it posts nothing.
\<close>

theorem send_button_pays_form:
  assumes "on_sendButton_clicked q d (m, w) = (n, d', (m', w'))" and "\<not> sd_accepted d"
  shows "set (payments w w') \<subseteq> {(if en_asset (sd_entry d) = 1 then ''eth_sendTransaction'' else ''sendtoaddress'', en_address (sd_entry d))} \<and>
    length (payments w w') \<le> 1 \<and> (sd_accepted d' \<longrightarrow> length (payments w w') = 1) \<and>
    (\<not> sd_model d \<or> en_address (sd_entry d) = [] \<or> text_amount q (en_amount (sd_entry d)) \<le> 0 \<longrightarrow> w' = w \<and> d' = d)"
proof -
  let ?r = "getValue q (sd_entry d)"
  have r: "rcp_address ?r = en_address (sd_entry d)" "rcp_amount ?r = text_amount q (en_amount (sd_entry d))"
    "pay_method ?r = (if en_asset (sd_entry d) = 1 then ''eth_sendTransaction'' else ''sendtoaddress'')"
    by (auto simp: getValue_def pay_method_def asset_text_def)
  obtain ret m1 w1 where s: "sendCoins q [?r] (m, w) = (ret, (m1, w1))" by (metis prod.exhaust)
  note pays = sendCoins_payments [OF s]
  show ?thesis
  proof (cases "\<not> sd_model d \<or> rcp_address ?r = [] \<or> rcp_amount ?r \<le> 0")
    case True
    then have "w' = w \<and> d' = d" using assms(1) by (auto simp: on_sendButton_clicked_def Let_def split: if_splits)
    then show ?thesis using assms(2) by (simp add: payments_def)
  next
    case False
    then have "w' = w1" "sd_accepted d' \<longrightarrow> ret_status ret = OK"
      using assms s by (auto simp: on_sendButton_clicked_def Let_def split: if_splits)
    with pays r False show ?thesis by auto
  qed
qed

text \<open>
  The title of the dialog follows its own box of assets and not the box of the entry: here it says \<open>Send BHT\<close>, and the payment is
  made on the second chain.
\<close>

definition paying_dialog :: SendCoinsDialog where
  "paying_dialog =
     (let d = dialog_setModel (Some (new_WalletModel sample_qt)) new_SendCoinsDialog
      in d\<lparr>sd_entry := edit_amount ''1'' (edit_address (''0x'' @ replicate 40 CHR ''a'') (choose_asset 1 (sd_entry d)))\<rparr>)"

definition paying_qt :: qt where
  "paying_qt = history_qt\<lparr>qt_toDouble := (\<lambda>t. Some 1)\<rparr>"

theorem send_button_pays_form_witness:
  "\<exists>n d' m' w'. on_sendButton_clicked paying_qt paying_dialog (new_WalletModel paying_qt, \<lparr>rpc_steps = 0, rpc_posted = []\<rparr>) = (n, d', (m', w')) \<and>
     sd_accepted d' \<and> payments \<lparr>rpc_steps = 0, rpc_posted = []\<rparr> w' = [(''eth_sendTransaction'', ''0x'' @ replicate 40 CHR ''a'')] \<and>
     sd_title paying_dialog = ''Send BHT''"
proof -
  let ?s = "(new_WalletModel paying_qt, \<lparr>rpc_steps = 0, rpc_posted = []\<rparr>)" and ?a = "''0x'' @ replicate 40 CHR ''a''"
  obtain n d' m' w' where c: "on_sendButton_clicked paying_qt paying_dialog ?s = (n, d', (m', w'))" by (metis prod.exhaust)
  have d: "sd_model paying_dialog" "\<not> sd_accepted paying_dialog" "sd_title paying_dialog = ''Send BHT''"
    "en_address (sd_entry paying_dialog) = ?a" "en_asset (sd_entry paying_dialog) = 1"
    by (simp_all add: paying_dialog_def dialog_setModel_def setBalanceBalance_def new_SendCoinsDialog_def new_SendCoinsEntry_def
        edit_amount_def edit_address_def choose_asset_def handleAssetChanged_def handleAddressChanged_def setValid_def Let_def)
  let ?r = "getValue paying_qt (sd_entry paying_dialog)"
  have "trunc (fl (1 * of_int SATOSHI)) = 100000000" by code_simp
  then have amount: "rcp_amount ?r > 0" by (simp add: getValue_def text_amount_def paying_qt_def amount_of_double_def Let_def)
  have r: "rcp_address ?r = ?a" "rcp_asset ?r = ''BHTE''" using d by (simp_all add: getValue_def asset_text_def)
  have valid: "recipients_error [?r] = None" using r by (simp add: validateAddress_def)
  have "\<exists>j m w. bhte_call paying_qt meth params timeout s = (RpcOk j, (m, w))" for meth params timeout s
    by (cases s) (simp add: bhte_call_def rpcCall_def paying_qt_def history_qt_def sample_qt_def rpc_answer_def jvalue_def Let_def)
  moreover have "getDefaultBHTEAccount paying_qt 8000 s = ((''0xabc'', []), s)" for s
    by (simp add: getDefaultBHTEAccount_def setting_def paying_qt_def history_qt_def)
  ultimately obtain ret m1 w1 where s: "sendCoins paying_qt [?r] ?s = (ret, (m1, w1))" "ret_status ret = OK"
  proof -
    assume calls: "\<And>method params timeout s. \<exists>j m w. bhte_call paying_qt method params timeout s = (RpcOk j, (m, w))"
      and account: "\<And>s. getDefaultBHTEAccount paying_qt 8000 s = ((''0xabc'', []), s)"
      and goal: "\<And>ret m1 w1. sendCoins paying_qt [?r] ?s = (ret, (m1, w1)) \<Longrightarrow> ret_status ret = OK \<Longrightarrow> thesis"
    let ?tx = "[(''from'', JString ''0xabc''), (''to'', JString (rcp_address ?r)), (''value'', JString (quantityToHex (rcp_amount ?r))), (''gas'', JString ''0x5208'')]"
    obtain j m w where "bhte_call paying_qt ''eth_sendTransaction'' [JObject ?tx] 8000 ?s = (RpcOk j, (m, w))" using calls by blast
    then have "ret_status (fst (sendCoins paying_qt [?r] ?s)) = OK"
      using valid account r by (simp add: sendCoins_def del: recipients_error.simps)
    with goal show thesis by (metis prod.exhaust_sel fst_conv)
  qed
  have "sd_accepted d'" using c s d amount r by (auto simp: on_sendButton_clicked_def Let_def)
  with send_button_pays_form [OF c d(2)] d c show ?thesis by (cases "payments \<lparr>rpc_steps = 0, rpc_posted = []\<rparr> w'") auto
qed

end
