(* ===== verification/MainWindow.thy ===== *)
theory MainWindow
  imports PaymentForms
begin

text \<open>
  Model of the main window \<^verbatim>\<open>BHTWalletGUI\<close> (\<^verbatim>\<open>BHTWalletPro/src/qt/bitcoingui.cpp\<close>) and of the start of the
  application (\<^verbatim>\<open>main.cpp\<close>). The widgets the program writes to after building them are a workspace; each rebuild makes
  a new one and deletes the old one, and the window keeps pointers to them: \<open>gui_widgets\<close> stands for the stack of
  pages, the group of buttons, the table of nodes and the four labels, which every rebuild sets together,
  \<open>gui_console\<close> for \<^verbatim>\<open>m_consoleOutput\<close>, which only the developer page sets. Following a pointer into a deleted
  workspace is the fault \<open>UseAfterFree\<close>; the deletion Qt defers to the event loop is modelled as immediate. Texts are UTF-8 bytes,
  message boxes are results, stored settings are texts. Layout, icons, shortcuts and the texts that never
  change are left out.
\<close>

section \<open>Widgets and state\<close>

datatype gui_fault = UseAfterFree

datatype page = OverviewPage | TransactionsPage | AddressesPage | BHTEBridgePage | NodePage | SecurityPage | HardwarePage | DeveloperPage | SettingsPage

record label =
  lb_text :: string
  lb_tip :: string
  lb_style :: string

type_synonym table_items = "nat \<times> nat \<rightharpoonup> string \<times> string"

record workspace =
  ws_pages :: "page list"
  ws_page :: nat
  ws_buttons :: "(string \<times> nat) list"
  ws_checked :: nat
  ws_mode :: string
  ws_bht_balance :: string
  ws_bhte_balance :: string
  ws_bht_status :: label
  ws_bhte_status :: label
  ws_nodes :: table_items
  ws_console :: "string list"

record BHTWalletGUI =
  gui_language :: int
  gui_developerMode :: bool
  gui_settings :: "string \<rightharpoonup> string"
  gui_heap :: "nat \<rightharpoonup> workspace"
  gui_next :: nat
  gui_widgets :: "nat option"
  gui_console :: "nat option"
  gui_wallet :: "wm_state option"
  gui_actions :: bool
  gui_title :: string
  gui_message :: string

definition gui_qt :: "qt \<Rightarrow> BHTWalletGUI \<Rightarrow> qt" where
  "gui_qt q g = q\<lparr>qt_settings := gui_settings g\<rparr>"

text \<open>The second text is a list of bytes.\<close>

definition gui_text :: "int \<Rightarrow> string \<Rightarrow> nat list \<Rightarrow> string" where
  "gui_text language en zh = (if language = 1 then map char_of zh else en)"

text \<open>\<^verbatim>\<open>toBool\<close> of a stored text, and the text of a stored \<^verbatim>\<open>bool\<close>.\<close>

definition text_bool :: "string \<Rightarrow> bool" where
  "text_bool s \<longleftrightarrow> map lower s \<notin> {[], ''0'', ''false''}"

definition bool_text :: "bool \<Rightarrow> string" where
  "bool_text b = (if b then ''true'' else ''false'')"

section \<open>The workspace\<close>

definition createMainContentWidget :: "bool \<Rightarrow> page list" where
  "createMainContentWidget developerMode =
     [OverviewPage, TransactionsPage, AddressesPage, BHTEBridgePage, NodePage, SecurityPage, HardwarePage] @
     (if developerMode then [DeveloperPage] else []) @ [SettingsPage]"

definition createNavWidget :: "int \<Rightarrow> bool \<Rightarrow> (string \<times> nat) list" where
  "createNavWidget language developerMode =
     [(gui_text language ''Overview'' [230,166,130,232,167,136], 0),
      (gui_text language ''Transactions'' [228,186,164,230,152,147], 1),
      (gui_text language ''Addresses'' [229,156,176,229,157,128,231,176,191], 2),
      (gui_text language ''BHTE Bridge'' [66,72,84,69,32,232,183,168,233,147,190,230,161,165], 3),
      (gui_text language ''BHT/BHTE Nodes'' [66,72,84,47,66,72,84,69,32,232,138,130,231,130,185], 4),
      (gui_text language ''Security'' [229,174,137,229,133,168], 5),
      (gui_text language ''Hardware Wallet'' [231,161,172,228,187,182,233,146,177,229,140,133], 6)] @
     (if developerMode
      then [(gui_text language ''Developer'' [229,188,128,229,143,145,232,128,133], 7), (gui_text language ''Settings'' [232,174,190,231,189,174], 8)]
      else [(gui_text language ''Settings'' [232,174,190,231,189,174], 7)])"

definition disconnected :: "int \<Rightarrow> string" where
  "disconnected language = gui_text language ''Disconnected'' [230,156,170,232,191,158,230,142,165]"

text \<open>The two rows of the table of nodes as they are built.\<close>

definition createNodePage :: "int \<Rightarrow> table_items" where
  "createNodePage language = (\<lambda>(row, column).
     if row < 2 \<and> column < 8 then
       Some (([[''BHT'', gui_text language ''Full node / SPV'' [229,133,168,232,138,130,231,130,185,32,47,32,83,80,86], ''18332'', ''18334'', ''0'', ''0'', ''0%'', disconnected language],
               [''BHTE'', gui_text language ''Layer 2 RPC'' [228,186,140,229,177,130,32,82,80,67], ''8545'', ''8546'', ''0'', ''0'', ''0%'', disconnected language]]
              ! row) ! column, [])
     else None)"

text \<open>The lines of the console; the text it starts with ends with a line break.\<close>

definition createDeveloperPage :: "int \<Rightarrow> string list" where
  "createDeveloperPage language =
     [gui_text language ''Developer mode enabled.'' [229,188,128,229,143,145,232,128,133,230,168,161,229,188,143,229,183,178,229,144,175,231,148,168,227,128,130], gui_text language ''RPC console is ready.'' [82,80,67,32,230,142,167,229,136,182,229,143,176,229,183,178,229,176,177,231,187,170,227,128,130], []]"

definition new_workspace :: "int \<Rightarrow> bool \<Rightarrow> workspace" where
  "new_workspace language developerMode =
     \<lparr>ws_pages = createMainContentWidget developerMode, ws_page = 0,
      ws_buttons = createNavWidget language developerMode, ws_checked = 0,
      ws_mode = (if developerMode then gui_text language ''Developer mode'' [229,188,128,229,143,145,232,128,133,230,168,161,229,188,143] else gui_text language ''Standard mode'' [230,160,135,229,135,134,230,168,161,229,188,143]),
      ws_bht_balance = ''0.00000000'', ws_bhte_balance = ''0.00000000'',
      ws_bht_status = \<lparr>lb_text = disconnected language, lb_tip = [], lb_style = []\<rparr>,
      ws_bhte_status = \<lparr>lb_text = disconnected language, lb_tip = [], lb_style = []\<rparr>,
      ws_nodes = createNodePage language,
      ws_console = (if developerMode then createDeveloperPage language else [])\<rparr>"

text \<open>Access through the pointers; nothing is done through a null pointer.\<close>

definition with_space :: "nat option \<Rightarrow> (workspace \<Rightarrow> workspace) \<Rightarrow> BHTWalletGUI \<Rightarrow> gui_fault + BHTWalletGUI" where
  "with_space p f g =
     (case p of
        None \<Rightarrow> Inr g
      | Some a \<Rightarrow>
          (case gui_heap g a of
             None \<Rightarrow> Inl UseAfterFree
           | Some ws \<Rightarrow> Inr (g\<lparr>gui_heap := (gui_heap g)(a \<mapsto> f ws)\<rparr>)))"

section \<open>Views of the chains\<close>

definition statusText :: "int \<Rightarrow> ChainState \<Rightarrow> string" where
  "statusText language state =
     (if cs_connected state then gui_text language ''Connected'' [229,183,178,232,191,158,230,142,165]
      else if cs_lastError state = [] then disconnected language else cs_lastError state)"

definition paintStatus :: "int \<Rightarrow> ChainState \<Rightarrow> label" where
  "paintStatus language state =
     \<lparr>lb_text = statusText language state, lb_tip = cs_lastError state,
      lb_style = (if cs_connected state then ''color: #0f7b3f; font-weight: 700;'' else ''color: #a33a2f; font-weight: 700;'')\<rparr>"

definition setItem :: "nat \<times> nat \<Rightarrow> string \<Rightarrow> table_items \<Rightarrow> table_items" where
  "setItem rc val t = t(rc \<mapsto> (val, case t rc of None \<Rightarrow> [] | Some (_, tip) \<Rightarrow> tip))"

definition setToolTip :: "nat \<times> nat \<Rightarrow> string \<Rightarrow> table_items \<Rightarrow> table_items" where
  "setToolTip rc tip t = (case t rc of None \<Rightarrow> t | Some (val, _) \<Rightarrow> t(rc \<mapsto> (val, tip)))"

definition show_node :: "int \<Rightarrow> nat \<Rightarrow> ChainState \<Rightarrow> table_items \<Rightarrow> table_items" where
  "show_node language row state t =
     (let t = setItem (row, 2) (cs_endpoint state) t;
          t = setItem (row, 4) (int_text (cs_height state)) t;
          t = setItem (row, 5) (int_text (cs_peers state)) t;
          t = setItem (row, 6) (if cs_connected state then gui_text language ''RPC ready'' [82,80,67,32,229,176,177,231,187,170] else gui_text language ''Waiting'' [231,173,137,229,190,133,228,184,173]) t;
          t = setItem (row, 7) (statusText language state) t
      in setToolTip (row, 7) (cs_lastError state) t)"

definition updateChainStateViews :: "ChainState \<Rightarrow> ChainState \<Rightarrow> BHTWalletGUI \<Rightarrow> gui_fault + BHTWalletGUI" where
  "updateChainStateViews bht bhte g =
     with_space (gui_widgets g)
       (\<lambda>ws. ws\<lparr>ws_bht_balance := coins_text (cs_balance bht), ws_bhte_balance := coins_text (cs_balance bhte),
          ws_bht_status := paintStatus (gui_language g) bht, ws_bhte_status := paintStatus (gui_language g) bhte,
          ws_nodes := show_node (gui_language g) 1 bhte (show_node (gui_language g) 0 bht (ws_nodes ws))\<rparr>) g"

definition show_wallet :: "BHTWalletGUI \<Rightarrow> gui_fault + BHTWalletGUI" where
  "show_wallet g =
     (case gui_wallet g of None \<Rightarrow> Inr g | Some (m, w) \<Rightarrow> updateChainStateViews (wm_bht m) (wm_bhte m) g)"

definition applyRuntimeSettings :: "BHTWalletGUI \<Rightarrow> BHTWalletGUI" where
  "applyRuntimeSettings g = g\<lparr>gui_title := gui_text (gui_language g) ''BHT Wallet Pro'' [66,72,84,32,233,146,177,229,140,133,32,80,114,111]\<rparr>"

definition rebuildWorkspace :: "BHTWalletGUI \<Rightarrow> gui_fault + BHTWalletGUI" where
  "rebuildWorkspace g =
     (let a = gui_next g;
          heap = (case gui_widgets g of None \<Rightarrow> gui_heap g | Some old \<Rightarrow> (gui_heap g)(old := None))
      in show_wallet (applyRuntimeSettings
           (g\<lparr>gui_heap := heap(a \<mapsto> new_workspace (gui_language g) (gui_developerMode g)), gui_next := a + 1,
              gui_widgets := Some a, gui_console := (if gui_developerMode g then Some a else gui_console g)\<rparr>)))"

definition switchPage :: "int \<Rightarrow> BHTWalletGUI \<Rightarrow> gui_fault + BHTWalletGUI" where
  "switchPage index g =
     with_space (gui_widgets g)
       (\<lambda>ws. if index < 0 \<or> index \<ge> int (length (ws_pages ws)) then ws
             else ws\<lparr>ws_page := nat index,
                    ws_checked := (if nat index \<in> snd ` set (ws_buttons ws) then nat index else ws_checked ws)\<rparr>) g"

definition appendConsoleLine :: "string \<Rightarrow> BHTWalletGUI \<Rightarrow> gui_fault + BHTWalletGUI" where
  "appendConsoleLine line g = with_space (gui_console g) (\<lambda>ws. ws\<lparr>ws_console := ws_console ws @ [line]\<rparr>) g"

section \<open>Settings\<close>

text \<open>The fields the options dialog and the settings page share, and those only one of them has.\<close>

record endpoint_form =
  ef_language :: int
  ef_developer :: bool
  ef_bhtRpc :: string
  ef_bhtUser :: string
  ef_bhtPassword :: string
  ef_bhteRpc :: string
  ef_bhteAccount :: string

record options_form = endpoint_form +
  of_network :: string

record settings_form = endpoint_form +
  sf_bhteWs :: string
  sf_bhteHistoryMethod :: string
  sf_bhtNodePath :: string
  sf_bhtDataDir :: string
  sf_bhtNodeArgs :: string
  sf_bhteNodePath :: string
  sf_bhteDataDir :: string
  sf_bhteNodeArgs :: string

text \<open>\<^verbatim>\<open>currentData().toInt()\<close> of the box of languages.\<close>

definition combo_data :: "int \<Rightarrow> int" where
  "combo_data index = (if index = 1 then 1 else 0)"

definition options_opened :: "qt \<Rightarrow> BHTWalletGUI \<Rightarrow> options_form" where
  "options_opened q g =
     (let stored = setting (gui_qt q g)
      in \<lparr>ef_language = gui_language g, ef_developer = gui_developerMode g,
          ef_bhtRpc = stored ''bhtRpcEndpoint'' ''http://127.0.0.1:18332'', ef_bhtUser = stored ''bhtRpcUser'' [],
          ef_bhtPassword = stored ''bhtRpcPassword'' [], ef_bhteRpc = stored ''bhteRpcEndpoint'' ''http://127.0.0.1:8545'',
          ef_bhteAccount = stored ''bhteDefaultAccount'' [], of_network = ''Mainnet''\<rparr>)"

definition createSettingsPage :: "qt \<Rightarrow> BHTWalletGUI \<Rightarrow> settings_form" where
  "createSettingsPage q g =
     (let stored = setting (gui_qt q g);
          dataDir = (if gui_wallet g = None then [] else getDataDir q)
      in \<lparr>ef_language = gui_language g, ef_developer = gui_developerMode g,
          ef_bhtRpc = stored ''bhtRpcEndpoint'' ''http://127.0.0.1:18332'', ef_bhtUser = stored ''bhtRpcUser'' [],
          ef_bhtPassword = stored ''bhtRpcPassword'' [], ef_bhteRpc = stored ''bhteRpcEndpoint'' ''http://127.0.0.1:8545'',
          ef_bhteAccount = stored ''bhteDefaultAccount'' [], sf_bhteWs = stored ''bhteWsEndpoint'' ''ws://127.0.0.1:8546'',
          sf_bhteHistoryMethod = stored ''bhteHistoryMethod'' ''bhte_getTransactionsByAddress'',
          sf_bhtNodePath = stored ''bhtNodePath'' [], sf_bhtDataDir = stored ''bhtDataDir'' dataDir, sf_bhtNodeArgs = stored ''bhtNodeArgs'' [],
          sf_bhteNodePath = stored ''bhteNodePath'' [], sf_bhteDataDir = stored ''bhteDataDir'' dataDir, sf_bhteNodeArgs = stored ''bhteNodeArgs'' []\<rparr>)"

definition save_endpoints :: "'a endpoint_form_scheme \<Rightarrow> BHTWalletGUI \<Rightarrow> BHTWalletGUI" where
  "save_endpoints f g =
     g\<lparr>gui_language := combo_data (ef_language f), gui_developerMode := ef_developer f,
       gui_settings := (gui_settings g)
         (''language'' \<mapsto> (if combo_data (ef_language f) = 1 then ''zh_CN'' else ''en''),
          ''developerMode'' \<mapsto> bool_text (ef_developer f),
          ''bhtRpcEndpoint'' \<mapsto> trimmed (ef_bhtRpc f),
          ''bhtRpcUser'' \<mapsto> ef_bhtUser f,
          ''bhtRpcPassword'' \<mapsto> ef_bhtPassword f,
          ''bhteRpcEndpoint'' \<mapsto> trimmed (ef_bhteRpc f),
          ''bhteDefaultAccount'' \<mapsto> trimmed (ef_bhteAccount f))\<rparr>"

definition save_node_paths :: "settings_form \<Rightarrow> BHTWalletGUI \<Rightarrow> BHTWalletGUI" where
  "save_node_paths f g =
     g\<lparr>gui_settings := (gui_settings g)
         (''bhteWsEndpoint'' \<mapsto> trimmed (sf_bhteWs f),
          ''bhteHistoryMethod'' \<mapsto> trimmed (sf_bhteHistoryMethod f),
          ''bhtNodePath'' \<mapsto> trimmed (sf_bhtNodePath f),
          ''bhtDataDir'' \<mapsto> trimmed (sf_bhtDataDir f),
          ''bhtNodeArgs'' \<mapsto> trimmed (sf_bhtNodeArgs f),
          ''bhteNodePath'' \<mapsto> trimmed (sf_bhteNodePath f),
          ''bhteDataDir'' \<mapsto> trimmed (sf_bhteDataDir f),
          ''bhteNodeArgs'' \<mapsto> trimmed (sf_bhteNodeArgs f))\<rparr>"

text \<open>Refreshing the wallet model announces the new states to the window; the first component is the result of the refresh.\<close>

definition refresh_wallet :: "qt \<Rightarrow> BHTWalletGUI \<Rightarrow> gui_fault + bool \<times> BHTWalletGUI" where
  "refresh_wallet q g =
     (case gui_wallet g of
        None \<Rightarrow> Inr (False, g)
      | Some s \<Rightarrow>
          (case refreshChainStates (gui_qt q g) s of
             (ok, s) \<Rightarrow> (case show_wallet (g\<lparr>gui_wallet := Some s\<rparr>) of Inl e \<Rightarrow> Inl e | Inr g \<Rightarrow> Inr (ok, g))))"

definition endpoints_entered :: "qt \<Rightarrow> 'a endpoint_form_scheme \<Rightarrow> BHTWalletGUI \<Rightarrow> gui_fault + BHTWalletGUI" where
  "endpoints_entered q f g =
     (let g = g\<lparr>gui_wallet := map_option (\<lambda>(m, w). (setRpcEndpoints (trimmed (ef_bhtRpc f)) (trimmed (ef_bhteRpc f)) m, w)) (gui_wallet g)\<rparr>
      in case refresh_wallet q g of Inl e \<Rightarrow> Inl e | Inr (ok, g) \<Rightarrow> rebuildWorkspace g)"

text \<open>The options dialog; the argument is what it holds when it is accepted, if it is.\<close>

definition showOptions :: "qt \<Rightarrow> options_form option \<Rightarrow> BHTWalletGUI \<Rightarrow> gui_fault + BHTWalletGUI" where
  "showOptions q accepted g =
     (case accepted of
        None \<Rightarrow> Inr g
      | Some f \<Rightarrow>
          (case endpoints_entered q f (save_endpoints f g) of
             Inl e \<Rightarrow> Inl e
           | Inr g \<Rightarrow> Inr (g\<lparr>gui_message := gui_text (gui_language g) ''Settings updated'' [232,174,190,231,189,174,229,183,178,230,155,180,230,150,176]\<rparr>)))"

definition applySettings :: "qt \<Rightarrow> settings_form \<Rightarrow> BHTWalletGUI \<Rightarrow> gui_fault + BHTWalletGUI" where
  "applySettings q f g = endpoints_entered q f (save_node_paths f (save_endpoints f g))"

section \<open>The debug window\<close>

text \<open>The number of pages is read through the pointer to the stack.\<close>

definition showDebugWindow :: "BHTWalletGUI \<Rightarrow> gui_fault + BHTWalletGUI" where
  "showDebugWindow g =
     (case (if gui_developerMode g then Inr g
            else rebuildWorkspace (g\<lparr>gui_developerMode := True, gui_settings := (gui_settings g)(''developerMode'' \<mapsto> bool_text True)\<rparr>)) of
        Inl e \<Rightarrow> Inl e
      | Inr g \<Rightarrow>
          (case (case gui_widgets g of
                   None \<Rightarrow> switchPage 0 g
                 | Some a \<Rightarrow>
                     (case gui_heap g a of
                        None \<Rightarrow> Inl UseAfterFree
                      | Some ws \<Rightarrow> switchPage (int (length (ws_pages ws)) - 2) g)) of
             Inl e \<Rightarrow> Inl e
           | Inr g \<Rightarrow> appendConsoleLine (gui_text (gui_language g) ''Debug window opened.'' [232,176,131,232,175,149,231,170,151,229,143,163,229,183,178,230,137,147,229,188,128,227,128,130]) g))"

definition run_clicked :: "string \<Rightarrow> string \<Rightarrow> BHTWalletGUI \<Rightarrow> gui_fault + BHTWalletGUI" where
  "run_clicked chain command g =
     (case appendConsoleLine (''['' @ chain @ ''] > '' @ command) g of
        Inl e \<Rightarrow> Inl e
      | Inr g \<Rightarrow> appendConsoleLine (gui_text (gui_language g) ''RPC transport is not connected yet.'' [82,80,67,32,228,188,160,232,190,147,229,176,154,230,156,170,232,191,158,230,142,165,227,128,130]) g)"

section \<open>Buttons of the pages\<close>

text \<open>Each handler gives the text of its message box, if it shows one.\<close>

definition start_clicked :: "qt \<Rightarrow> bool \<Rightarrow> BHTWalletGUI \<Rightarrow> string option \<times> BHTWalletGUI" where
  "start_clicked q bhte g =
     (case gui_wallet g of
        None \<Rightarrow> (Some [], g)
      | Some s \<Rightarrow>
          (case startManagedNode (gui_qt q g) (if bhte then ''BHTE'' else ''BHT'') s of
             ((ok, e), s) \<Rightarrow>
               let g = g\<lparr>gui_wallet := Some s\<rparr>
               in if ok then (None, g\<lparr>gui_message :=
                      (if bhte then gui_text (gui_language g) ''BHTE node started'' [66,72,84,69,32,232,138,130,231,130,185,229,183,178,229,144,175,229,138,168]
                       else gui_text (gui_language g) ''BHT node started'' [66,72,84,32,232,138,130,231,130,185,229,183,178,229,144,175,229,138,168])\<rparr>)
                  else (Some e, g)))"

definition stop_clicked :: "qt \<Rightarrow> bool \<Rightarrow> BHTWalletGUI \<Rightarrow> string option \<times> BHTWalletGUI" where
  "stop_clicked q bhte g =
     (case gui_wallet g of
        None \<Rightarrow> (Some [], g)
      | Some s \<Rightarrow>
          (case stopManagedNode (gui_qt q g) (if bhte then ''BHTE'' else ''BHT'') s of
             ((ok, e), s) \<Rightarrow>
               let g = g\<lparr>gui_wallet := Some s\<rparr>
               in if ok then (None, g\<lparr>gui_message :=
                      (if bhte then gui_text (gui_language g) ''BHTE node stopped'' [66,72,84,69,32,232,138,130,231,130,185,229,183,178,229,129,156,230,173,162]
                       else gui_text (gui_language g) ''BHT node stopped'' [66,72,84,32,232,138,130,231,130,185,229,183,178,229,129,156,230,173,162])\<rparr>)
                  else (Some e, g)))"

definition rescan_clicked :: "qt \<Rightarrow> BHTWalletGUI \<Rightarrow> gui_fault + BHTWalletGUI" where
  "rescan_clicked q g =
     (case refresh_wallet q g of
        Inl e \<Rightarrow> Inl e
      | Inr (ok, g) \<Rightarrow> Inr (g\<lparr>gui_message :=
          (if ok then gui_text (gui_language g) ''RPC state refreshed'' [82,80,67,32,231,138,182,230,128,129,229,183,178,229,136,183,230,150,176]
           else gui_text (gui_language g) ''RPC refresh finished with disconnected chains'' [82,80,67,32,229,136,183,230,150,176,229,174,140,230,136,144,239,188,140,228,189,134,228,187,141,230,156,137,233,147,190,230,156,170,232,191,158,230,142,165])\<rparr>))"

definition openData_clicked :: "qt \<Rightarrow> BHTWalletGUI \<Rightarrow> string option" where
  "openData_clicked q g = Some (if gui_wallet g = None then [] else getDataDir q)"

definition verification_box :: "int \<Rightarrow> bool \<Rightarrow> string \<Rightarrow> int \<Rightarrow> string \<Rightarrow> string" where
  "verification_box language valid what number message =
     (if valid then gui_text language ''Valid'' [230,156,137,230,149,136] else gui_text language ''Invalid'' [230,151,160,230,149,136]) @ [CHR 0x0A] @
     what @ '': '' @ int_text number @ [CHR 0x0A] @ gui_text language ''Message'' [230,182,136,230,129,175] @ '': '' @ message"

definition verifyDeposit_clicked :: "qt \<Rightarrow> string \<Rightarrow> string \<Rightarrow> BHTWalletGUI \<Rightarrow> string option \<times> BHTWalletGUI" where
  "verifyDeposit_clicked q depositTxid depositProof g =
     (case gui_wallet g of
        None \<Rightarrow> (None, g)
      | Some s \<Rightarrow>
          (case verifyBHTDepositProof (gui_qt q g) depositTxid depositProof 12 s of
             (result, s) \<Rightarrow>
               (Some (verification_box (gui_language g) (bv_valid result) (gui_text (gui_language g) ''Confirmations'' [231,161,174,232,174,164,230,149,176])
                  (bv_confirmations result) (bv_message result)), g\<lparr>gui_wallet := Some s\<rparr>)))"

definition verifyAccount_clicked :: "qt \<Rightarrow> string \<Rightarrow> string \<Rightarrow> BHTWalletGUI \<Rightarrow> string option \<times> BHTWalletGUI" where
  "verifyAccount_clicked q withdrawFrom accountProof g =
     (case gui_wallet g of
        None \<Rightarrow> (None, g)
      | Some s \<Rightarrow>
          (case verifyBHTEAccountProof (gui_qt q g) withdrawFrom accountProof s of
             (result, s) \<Rightarrow>
               (Some (verification_box (gui_language g) (bv_valid result) (gui_text (gui_language g) ''Height'' [233,171,152,229,186,166])
                  (bv_height result) (bv_message result)), g\<lparr>gui_wallet := Some s\<rparr>)))"

text \<open>The dialog for sending works on the wallet model of the window; a press of its button with a form.\<close>

definition dialog_sends :: "qt \<Rightarrow> SendCoinsDialog \<Rightarrow> BHTWalletGUI \<Rightarrow> BHTWalletGUI" where
  "dialog_sends q d g =
     (case gui_wallet g of
        None \<Rightarrow> g
      | Some s \<Rightarrow> (case on_sendButton_clicked (gui_qt q g) d s of (n, d, s) \<Rightarrow> g\<lparr>gui_wallet := Some s\<rparr>))"

text \<open>The timer of the wallet model; a poll that refreshes announces the new states.\<close>

definition poll_due :: "qt \<Rightarrow> wm_state \<Rightarrow> bool" where
  "poll_due q = (\<lambda>(m, w). case wm_last_poll m of None \<Rightarrow> True | Some t \<Rightarrow> qt_now q (rpc_steps w) - t \<ge> 15)"

definition poll_fires :: "qt \<Rightarrow> BHTWalletGUI \<Rightarrow> gui_fault + BHTWalletGUI" where
  "poll_fires q g =
     (case gui_wallet g of
        None \<Rightarrow> Inr g
      | Some s \<Rightarrow>
          let g' = g\<lparr>gui_wallet := Some (snd (pollTimerFires (gui_qt q g) s))\<rparr>
          in if poll_due (gui_qt q g) s then show_wallet g' else Inr g')"

section \<open>Start\<close>

definition new_BHTWalletGUI :: "(string \<rightharpoonup> string) \<Rightarrow> gui_fault + BHTWalletGUI" where
  "new_BHTWalletGUI settings =
     rebuildWorkspace
       \<lparr>gui_language = (if (case settings ''language'' of None \<Rightarrow> ''en'' | Some l \<Rightarrow> l) = ''zh_CN'' then 1 else 0),
        gui_developerMode = (case settings ''developerMode'' of None \<Rightarrow> False | Some s \<Rightarrow> text_bool s),
        gui_settings = settings, gui_heap = Map.empty, gui_next = 0, gui_widgets = None, gui_console = None,
        gui_wallet = None, gui_actions = True, gui_title = ''BHT Wallet Pro'', gui_message = ''Ready''\<rparr>"

definition setWalletActionsEnabled :: "bool \<Rightarrow> BHTWalletGUI \<Rightarrow> BHTWalletGUI" where
  "setWalletActionsEnabled enabled g = g\<lparr>gui_actions := enabled\<rparr>"

definition setWalletModel :: "wm_state option \<Rightarrow> BHTWalletGUI \<Rightarrow> gui_fault + BHTWalletGUI" where
  "setWalletModel walletModel g = show_wallet (setWalletActionsEnabled (walletModel \<noteq> None) (g\<lparr>gui_wallet := walletModel\<rparr>))"

definition start_application :: "qt \<Rightarrow> gui_fault + BHTWalletGUI" where
  "start_application q =
     (case new_BHTWalletGUI (qt_settings q) of
        Inl e \<Rightarrow> Inl e
      | Inr g \<Rightarrow> setWalletModel (Some (new_WalletModel q, \<lparr>rpc_steps = 0, rpc_posted = []\<rparr>)) g)"

section \<open>Status bar\<close>

text \<open>Slots for the client model: the tip of the icon of connections; height, tip, progress bar and label.\<close>

definition updateNumberOfConnections :: "int \<Rightarrow> string" where
  "updateNumberOfConnections n =
     (if n = 0 then ''No active connection to the BHT network''
      else if n < 4 then ''Catching up... ('' @ int_text n @ '' active connections)''
      else ''Connected to '' @ int_text n @ '' peers'')"

record progress_view =
  pv_header :: string
  pv_tip :: string
  pv_bar_visible :: bool
  pv_bar :: int
  pv_label :: string
  pv_label_visible :: bool

definition percent_of :: "rat \<Rightarrow> rat \<Rightarrow> int" where
  "percent_of x n = (let y = fl (x * n) in if y < 0 then \<lceil>y\<rceil> else \<lfloor>y\<rfloor>)"

definition updateNumberOfBlocks :: "int \<Rightarrow> rat \<Rightarrow> progress_view \<Rightarrow> progress_view" where
  "updateNumberOfBlocks numberOfBlocks progress v =
     (let pending = (progress < fl (99 / 100))
      in v\<lparr>pv_header := ''1 behind'',
           pv_tip := ''Block height: '' @ int_text numberOfBlocks @ [CHR 0x0A] @
             (if pending then ''Synchronization pending... verification progress: '' @ int_text (percent_of progress 100) @ ''%''
              else ''Up to date. Block height: '' @ int_text numberOfBlocks),
           pv_bar_visible := pending, pv_bar := percent_of progress 1000000000,
           pv_label := (if pending then ''Synchronizing...'' else if progress < 1 then ''Verifying blocks...'' else pv_label v),
           pv_label_visible := (progress < 1)\<rparr>)"

section \<open>Actions that only report\<close>

text \<open>The texts that follow the first line say that the action is a demonstration.\<close>

definition demo :: "string \<Rightarrow> string" where
  "demo s = s @ [CHR 0x0A, CHR 0x0A] @ ''This is a demo implementation.''"

definition createWallet :: "string \<Rightarrow> string option" where
  "createWallet name = (if name = [] then None else Some (demo (''Wallet '' @ [CHR 0x27] @ name @ [CHR 0x27] @ '' will be created.'')))"

definition openWallet :: "string \<Rightarrow> string option" where
  "openWallet path = (if path = [] then None else Some (demo (''Opening wallet: '' @ path)))"

definition closeWallet :: "bool \<Rightarrow> string option" where
  "closeWallet confirmed = (if confirmed then Some (demo ''Wallet closed.'') else None)"

definition gui_backupWallet :: "string \<Rightarrow> string option" where
  "gui_backupWallet path = (if path = [] then None else Some (demo (''Wallet backed up to: '' @ path)))"

definition gui_signMessage :: "string \<Rightarrow> string \<Rightarrow> string option" where
  "gui_signMessage address message =
     (if address = [] \<or> message = [] then None
      else Some (demo (''Message signed.'' @ [CHR 0x0A, CHR 0x0A] @ ''Address: '' @ address)))"

definition gui_verifyMessage :: "string \<Rightarrow> string \<Rightarrow> string \<Rightarrow> string option" where
  "gui_verifyMessage address signature message =
     (if address = [] \<or> signature = [] \<or> message = [] then None else Some (demo ''Message verified.''))"

definition gui_lockWallet :: "string option" where
  "gui_lockWallet = Some (demo ''Wallet locked.'')"

definition gui_unlockWallet :: "string \<Rightarrow> string option" where
  "gui_unlockWallet passphrase = (if passphrase = [] then None else Some (demo ''Wallet unlocked.''))"

definition handleURI :: "string \<Rightarrow> string option \<times> bool" where
  "handleURI uri = (Some (demo (''URI: '' @ uri)), True)"

end
