(* ===== verification/MainWindowProofs.thy ===== *)
theory MainWindowProofs
  imports MainWindow WalletModelProofs
begin

text \<open>
  Runs of the application: the main window with its wallet model. In every run the window only follows pointers to
  widgets that exist, shows the page of the checked button and the state of the chains, and after settings have been
  entered the requests go where they say.
\<close>

section \<open>Runs\<close>

text \<open>The button that runs a command is on the developer page of the current workspace; without it there is no such event.\<close>

datatype gui_op =
    SwitchTo int | EnterOptions "options_form option" | EnterSettings settings_form | DebugWindow | RunCommand string string
  | StartNode bool | StopNode bool | Rescan | OpenData | VerifyDeposit string string | VerifyAccount string string
  | DialogSends SendCoinsDialog | PollFires

definition current :: "BHTWalletGUI \<Rightarrow> workspace option" where
  "current g = (case gui_widgets g of None \<Rightarrow> None | Some a \<Rightarrow> gui_heap g a)"

definition console_page :: "BHTWalletGUI \<Rightarrow> bool" where
  "console_page g = (case current g of None \<Rightarrow> False | Some ws \<Rightarrow> DeveloperPage \<in> set (ws_pages ws))"

definition handled :: "BHTWalletGUI \<Rightarrow> gui_fault + BHTWalletGUI \<Rightarrow> (gui_fault + string option) \<times> BHTWalletGUI" where
  "handled g r = (case r of Inl e \<Rightarrow> (Inl e, g) | Inr g' \<Rightarrow> (Inr None, g'))"

fun gui_exec :: "qt \<Rightarrow> gui_op \<Rightarrow> BHTWalletGUI \<Rightarrow> (gui_fault + string option) \<times> BHTWalletGUI" where
  "gui_exec q (SwitchTo i) g = handled g (switchPage i g)"
| "gui_exec q (EnterOptions f) g = handled g (showOptions q f g)"
| "gui_exec q (EnterSettings f) g = handled g (applySettings q f g)"
| "gui_exec q DebugWindow g = handled g (showDebugWindow g)"
| "gui_exec q (RunCommand chain command) g = (if console_page g then handled g (run_clicked chain command g) else (Inr None, g))"
| "gui_exec q (StartNode bhte) g = map_prod Inr id (start_clicked q bhte g)"
| "gui_exec q (StopNode bhte) g = map_prod Inr id (stop_clicked q bhte g)"
| "gui_exec q Rescan g = handled g (rescan_clicked q g)"
| "gui_exec q OpenData g = (Inr (openData_clicked q g), g)"
| "gui_exec q (VerifyDeposit txid pf) g = map_prod Inr id (verifyDeposit_clicked q txid pf g)"
| "gui_exec q (VerifyAccount account pf) g = map_prod Inr id (verifyAccount_clicked q account pf g)"
| "gui_exec q (DialogSends d) g = (Inr None, dialog_sends q d g)"
| "gui_exec q PollFires g = handled g (poll_fires q g)"

section \<open>What is shown\<close>

definition row_shows :: "int \<Rightarrow> nat \<Rightarrow> ChainState \<Rightarrow> table_items \<Rightarrow> bool" where
  "row_shows language row state t \<longleftrightarrow>
     map_option fst (t (row, 2)) = Some (cs_endpoint state) \<and>
     map_option fst (t (row, 4)) = Some (int_text (cs_height state)) \<and>
     map_option fst (t (row, 5)) = Some (int_text (cs_peers state)) \<and>
     t (row, 7) = Some (statusText language state, cs_lastError state)"

definition shows_chains :: "int \<Rightarrow> ChainState \<Rightarrow> ChainState \<Rightarrow> workspace \<Rightarrow> bool" where
  "shows_chains language bht bhte ws \<longleftrightarrow>
     ws_bht_balance ws = coins_text (cs_balance bht) \<and> ws_bhte_balance ws = coins_text (cs_balance bhte) \<and>
     ws_bht_status ws = paintStatus language bht \<and> ws_bhte_status ws = paintStatus language bhte \<and>
     row_shows language 0 bht (ws_nodes ws) \<and> row_shows language 1 bhte (ws_nodes ws)"

lemma show_node_rows:
  "row_shows language row state (show_node language row state t)"
  "row \<noteq> row' \<Longrightarrow> row_shows language row' state' (show_node language row state t) = row_shows language row' state' t"
  by (simp_all add: row_shows_def show_node_def setItem_def setToolTip_def Let_def)

text \<open>The workspace the window points to exists and is the only one.\<close>

definition live :: "BHTWalletGUI \<Rightarrow> bool" where
  "live g \<longleftrightarrow> (\<exists>a ws. gui_widgets g = Some a \<and> gui_heap g = [a \<mapsto> ws] \<and> a < gui_next g)"

definition gui_inv :: "BHTWalletGUI \<Rightarrow> bool" where
  "gui_inv g \<longleftrightarrow>
     (\<exists>a ws. gui_widgets g = Some a \<and> gui_heap g = [a \<mapsto> ws] \<and> a < gui_next g \<and>
        ws_pages ws = createMainContentWidget (gui_developerMode g) \<and>
        ws_buttons ws = createNavWidget (gui_language g) (gui_developerMode g) \<and>
        ws_page ws < length (ws_pages ws) \<and> ws_checked ws = ws_page ws \<and>
        (gui_developerMode g \<longrightarrow> gui_console g = Some a))"

definition shown :: "BHTWalletGUI \<Rightarrow> bool" where
  "shown g \<longleftrightarrow>
     (case (current g, gui_wallet g) of
        (Some ws, Some (m, w)) \<Rightarrow> shows_chains (gui_language g) (wm_bht m) (wm_bhte m) ws
      | _ \<Rightarrow> True)"

lemma one_space [simp]: "[a \<mapsto> x] = [a \<mapsto> y] \<longleftrightarrow> x = y"
  by (metis fun_upd_same option.inject)

lemma inv_live: "gui_inv g \<Longrightarrow> live g"
  by (auto simp: gui_inv_def live_def)

text \<open>What no operation on the widgets touches.\<close>

definition same_state :: "BHTWalletGUI \<Rightarrow> BHTWalletGUI \<Rightarrow> bool" where
  "same_state g g' \<longleftrightarrow>
     gui_language g' = gui_language g \<and> gui_developerMode g' = gui_developerMode g \<and> gui_settings g' = gui_settings g \<and>
     gui_wallet g' = gui_wallet g"

text \<open>Language and developer mode are those a start of the application would read from the settings.\<close>

definition stored_language :: "(string \<rightharpoonup> string) \<Rightarrow> int" where
  "stored_language s = (if (case s ''language'' of None \<Rightarrow> ''en'' | Some l \<Rightarrow> l) = ''zh_CN'' then 1 else 0)"

definition stored_mode :: "(string \<rightharpoonup> string) \<Rightarrow> bool" where
  "stored_mode s = (case s ''developerMode'' of None \<Rightarrow> False | Some t \<Rightarrow> text_bool t)"

definition stored_prefs :: "BHTWalletGUI \<Rightarrow> bool" where
  "stored_prefs g \<longleftrightarrow> gui_language g = stored_language (gui_settings g) \<and> gui_developerMode g = stored_mode (gui_settings g)"

lemma same_prefs: "same_state g g' \<Longrightarrow> stored_prefs g' = stored_prefs g"
  by (simp add: same_state_def stored_prefs_def)

lemma text_bool_text [simp]: "text_bool (bool_text b) = b"
  by (cases b) (simp_all add: text_bool_def bool_text_def lower_def)

lemma stored_updates [simp]:
  "stored_language (s(''developerMode'' \<mapsto> x)) = stored_language s" "stored_mode (s(''developerMode'' \<mapsto> bool_text b)) = b"
  by (simp_all add: stored_language_def stored_mode_def)

lemma prefs_update [simp]: "stored_prefs (g\<lparr>gui_wallet := w\<rparr>) = stored_prefs g" "stored_prefs (g\<lparr>gui_message := x\<rparr>) = stored_prefs g"
  by (simp_all add: stored_prefs_def)

lemma saved_prefs: "stored_prefs (save_endpoints f g)" "stored_prefs (save_node_paths f' g) = stored_prefs g"
  by (simp_all add: stored_prefs_def stored_language_def stored_mode_def save_endpoints_def save_node_paths_def combo_data_def)

lemma views_ok:
  assumes "live g"
  obtains g' where "updateChainStateViews bht bhte g = Inr g'" "live g'" "same_state g g'" "gui_inv g \<Longrightarrow> gui_inv g'"
    "\<exists>ws. current g' = Some ws \<and> shows_chains (gui_language g) bht bhte ws"
proof -
  from assms obtain a ws where g: "gui_widgets g = Some a" "gui_heap g = [a \<mapsto> ws]" "a < gui_next g" by (auto simp: live_def)
  let ?f = "\<lambda>ws. ws\<lparr>ws_bht_balance := coins_text (cs_balance bht), ws_bhte_balance := coins_text (cs_balance bhte),
      ws_bht_status := paintStatus (gui_language g) bht, ws_bhte_status := paintStatus (gui_language g) bhte,
      ws_nodes := show_node (gui_language g) 1 bhte (show_node (gui_language g) 0 bht (ws_nodes ws))\<rparr>"
  have u: "updateChainStateViews bht bhte g = Inr (g\<lparr>gui_heap := [a \<mapsto> ?f ws]\<rparr>)"
    using g by (simp add: updateChainStateViews_def with_space_def)
  show ?thesis
    by (rule that [OF u])
      (use g in \<open>auto simp: live_def gui_inv_def same_state_def current_def shows_chains_def show_node_rows\<close>)
qed

lemma show_wallet_ok:
  assumes "live g"
  obtains g' where "show_wallet g = Inr g'" "live g'" "same_state g g'" "gui_inv g \<Longrightarrow> gui_inv g'" "shown g'"
proof (cases "gui_wallet g")
  case None
  with that [of g] assms show ?thesis by (auto simp: show_wallet_def same_state_def shown_def split: option.splits)
next
  case (Some s)
  obtain m w where s: "s = (m, w)" by fastforce
  from views_ok [OF assms, of "wm_bht m" "wm_bhte m"] obtain g' where "updateChainStateViews (wm_bht m) (wm_bhte m) g = Inr g'" "live g'" "same_state g g'"
    "gui_inv g \<Longrightarrow> gui_inv g'" "\<exists>ws. current g' = Some ws \<and> shows_chains (gui_language g) (wm_bht m) (wm_bhte m) ws" by metis
  with that [of g'] Some s show ?thesis by (auto simp: show_wallet_def shown_def same_state_def)
qed

text \<open>A rebuild deletes the old workspace and makes one that satisfies the invariant.\<close>

lemma rebuild_ok:
  assumes "live g \<or> gui_widgets g = None \<and> gui_heap g = Map.empty"
  obtains g' where "rebuildWorkspace g = Inr g'" "gui_inv g'" "shown g'" "same_state g g'"
proof -
  let ?heap = "case gui_widgets g of None \<Rightarrow> gui_heap g | Some old \<Rightarrow> (gui_heap g)(old := None)"
  let ?g = "applyRuntimeSettings (g\<lparr>gui_heap := ?heap(gui_next g \<mapsto> new_workspace (gui_language g) (gui_developerMode g)),
      gui_next := gui_next g + 1, gui_widgets := Some (gui_next g), gui_console := (if gui_developerMode g then Some (gui_next g) else gui_console g)\<rparr>)"
  have "?heap = Map.empty" using assms by (auto simp: live_def)
  then have i: "gui_inv ?g"
    by (auto simp: gui_inv_def applyRuntimeSettings_def new_workspace_def createMainContentWidget_def)
  from show_wallet_ok [OF inv_live [OF i]] obtain g' where "show_wallet ?g = Inr g'" "same_state ?g g'" "gui_inv g'" "shown g'"
    using i by metis
  moreover have "rebuildWorkspace g = show_wallet ?g" by (simp add: rebuildWorkspace_def Let_def)
  moreover have "same_state g g'" using \<open>same_state ?g g'\<close> by (simp add: same_state_def applyRuntimeSettings_def)
  ultimately show ?thesis using that by metis
qed

lemma live_update [simp]:
  "live (g\<lparr>gui_wallet := s\<rparr>) = live g" "live (g\<lparr>gui_language := l\<rparr>) = live g" "live (g\<lparr>gui_developerMode := d\<rparr>) = live g"
  "live (g\<lparr>gui_settings := t\<rparr>) = live g" "live (g\<lparr>gui_message := x\<rparr>) = live g"
  by (simp_all add: live_def)

lemma inv_update [simp]:
  "gui_inv (g\<lparr>gui_wallet := s\<rparr>) = gui_inv g" "gui_inv (g\<lparr>gui_message := x\<rparr>) = gui_inv g"
  by (simp_all add: gui_inv_def)

lemma shown_update [simp]: "shown (g\<lparr>gui_message := x\<rparr>) = shown g"
  by (auto simp: shown_def current_def split: option.splits)

section \<open>Every operation\<close>

lemma refresh_ok:
  assumes "live g"
  obtains ok g' where "refresh_wallet q g = Inr (ok, g')" "live g'" "gui_inv g \<Longrightarrow> gui_inv g'" "shown g'"
    "same_state (g\<lparr>gui_wallet := map_option (\<lambda>s. snd (refreshChainStates (gui_qt q g) s)) (gui_wallet g)\<rparr>) g'"
proof (cases "gui_wallet g")
  case None
  then show ?thesis using assms that [of False g] by (auto simp: refresh_wallet_def shown_def same_state_def split: option.splits)
next
  case (Some s)
  obtain ok s' where r: "refreshChainStates (gui_qt q g) s = (ok, s')" by (metis prod.exhaust)
  have "live (g\<lparr>gui_wallet := Some s'\<rparr>)" using assms by simp
  from show_wallet_ok [OF this] obtain g' where "show_wallet (g\<lparr>gui_wallet := Some s'\<rparr>) = Inr g'" "live g'"
    "same_state (g\<lparr>gui_wallet := Some s'\<rparr>) g'" "gui_inv (g\<lparr>gui_wallet := Some s'\<rparr>) \<Longrightarrow> gui_inv g'" "shown g'" by metis
  with that [of ok g'] Some r show ?thesis by (simp add: refresh_wallet_def)
qed

text \<open>The wallet model after endpoints have been entered.\<close>

definition wallet_entered :: "qt \<Rightarrow> 'a endpoint_form_scheme \<Rightarrow> wm_state \<Rightarrow> wm_state" where
  "wallet_entered q f = (\<lambda>(m, w). snd (refreshChainStates q (setRpcEndpoints (trimmed (ef_bhtRpc f)) (trimmed (ef_bhteRpc f)) m, w)))"

lemma endpoints_ok:
  assumes "live g"
  obtains g' where "endpoints_entered q f g = Inr g'" "gui_inv g'" "shown g'"
    "same_state (g\<lparr>gui_wallet := map_option (wallet_entered (gui_qt q g) f) (gui_wallet g)\<rparr>) g'"
proof -
  let ?g = "g\<lparr>gui_wallet := map_option (\<lambda>(m, w). (setRpcEndpoints (trimmed (ef_bhtRpc f)) (trimmed (ef_bhteRpc f)) m, w)) (gui_wallet g)\<rparr>"
  have "live ?g" using assms by simp
  from refresh_ok [OF this, of q] obtain ok g1 where r: "refresh_wallet q ?g = Inr (ok, g1)" "live g1"
    "same_state (?g\<lparr>gui_wallet := map_option (\<lambda>s. snd (refreshChainStates (gui_qt q ?g) s)) (gui_wallet ?g)\<rparr>) g1" by metis
  from rebuild_ok [OF disjI1 [OF r(2)]] obtain g2 where b: "rebuildWorkspace g1 = Inr g2" "gui_inv g2" "shown g2" "same_state g1 g2" by metis
  have "endpoints_entered q f g = Inr g2" using r(1) b(1) by (simp add: endpoints_entered_def)
  moreover have "same_state (g\<lparr>gui_wallet := map_option (wallet_entered (gui_qt q g) f) (gui_wallet g)\<rparr>) g2"
    using r(3) b(4) by (cases "gui_wallet g") (auto simp: same_state_def wallet_entered_def gui_qt_def)
  ultimately show ?thesis using b(2,3) that by metis
qed

lemma live_save [simp]: "live (save_endpoints f g) = live g" "live (save_node_paths f' g) = live g"
  by (simp_all add: save_endpoints_def save_node_paths_def live_def)

lemma options_ok:
  assumes "gui_inv g"
  obtains g' where "showOptions q (Some f) g = Inr g'" "gui_inv g'" "shown g'"
    "same_state ((save_endpoints f g)\<lparr>gui_wallet := map_option (wallet_entered (gui_qt q (save_endpoints f g)) f) (gui_wallet g)\<rparr>) g'"
proof -
  have "live (save_endpoints f g)" using inv_live [OF assms] by simp
  from endpoints_ok [OF this, of q f] obtain g' where "endpoints_entered q f (save_endpoints f g) = Inr g'" "gui_inv g'" "shown g'"
    "same_state ((save_endpoints f g)\<lparr>gui_wallet := map_option (wallet_entered (gui_qt q (save_endpoints f g)) f) (gui_wallet (save_endpoints f g))\<rparr>) g'"
    by metis
  then show ?thesis using that [of "g'\<lparr>gui_message := gui_text (gui_language g') ''Settings updated'' [232,174,190,231,189,174,229,183,178,230,155,180,230,150,176]\<rparr>"]
    by (auto simp: showOptions_def same_state_def save_endpoints_def)
qed

lemma settings_ok:
  assumes "gui_inv g"
  obtains g' where "applySettings q f g = Inr g'" "gui_inv g'" "shown g'"
    "same_state ((save_node_paths f (save_endpoints f g))\<lparr>gui_wallet :=
       map_option (wallet_entered (gui_qt q (save_node_paths f (save_endpoints f g))) f) (gui_wallet g)\<rparr>) g'"
proof -
  have "live (save_node_paths f (save_endpoints f g))" using inv_live [OF assms] by simp
  from endpoints_ok [OF this, of q f] that show ?thesis
    by (auto simp: applySettings_def same_state_def save_endpoints_def save_node_paths_def)
qed

lemma switch_ok:
  assumes "gui_inv g"
  obtains g' where "switchPage i g = Inr g'" "gui_inv g'" "shown g' = shown g" "same_state g g'"
    "gui_console g' = gui_console g" "\<And>ws. current g = Some ws \<Longrightarrow> 0 \<le> i \<Longrightarrow> i < int (length (ws_pages ws)) \<Longrightarrow>
       current g' = Some (ws\<lparr>ws_page := nat i, ws_checked := nat i\<rparr>)"
proof -
  from assms obtain a ws where g: "gui_widgets g = Some a" "gui_heap g = [a \<mapsto> ws]" "a < gui_next g"
    "ws_pages ws = createMainContentWidget (gui_developerMode g)" "ws_buttons ws = createNavWidget (gui_language g) (gui_developerMode g)"
    "ws_page ws < length (ws_pages ws)" "ws_checked ws = ws_page ws" "gui_developerMode g \<longrightarrow> gui_console g = Some a"
    by (auto simp: gui_inv_def)
  have "snd ` set (ws_buttons ws) = {..< length (ws_pages ws)}"
    unfolding g(4,5) by (auto simp: createNavWidget_def createMainContentWidget_def numeral_eq_Suc less_Suc_eq)
  then have b: "nat i \<in> snd ` set (ws_buttons ws)" if "0 \<le> i" "i < int (length (ws_pages ws))" using that by auto
  let ?in = "0 \<le> i \<and> i < int (length (ws_pages ws))"
  let ?ws = "if ?in then ws\<lparr>ws_page := nat i, ws_checked := nat i\<rparr> else ws"
  have u: "switchPage i g = Inr (g\<lparr>gui_heap := [a \<mapsto> ?ws]\<rparr>)"
    using g(1,2) b by (auto simp: switchPage_def with_space_def)
  show ?thesis
    by (rule that [OF u]) (use g in \<open>auto simp: gui_inv_def same_state_def current_def shown_def shows_chains_def split: option.splits\<close>)
qed

lemma console_ok:
  assumes "gui_inv g" and "gui_developerMode g"
  obtains g' where "appendConsoleLine line g = Inr g'" "gui_inv g'" "shown g' = shown g" "same_state g g'"
    "\<And>ws. current g = Some ws \<Longrightarrow> current g' = Some (ws\<lparr>ws_console := ws_console ws @ [line]\<rparr>)"
proof -
  from assms obtain a ws where g: "gui_widgets g = Some a" "gui_heap g = [a \<mapsto> ws]" "a < gui_next g" "gui_console g = Some a"
    "ws_pages ws = createMainContentWidget (gui_developerMode g)" "ws_buttons ws = createNavWidget (gui_language g) (gui_developerMode g)"
    "ws_page ws < length (ws_pages ws)" "ws_checked ws = ws_page ws"
    by (auto simp: gui_inv_def)
  have u: "appendConsoleLine line g = Inr (g\<lparr>gui_heap := [a \<mapsto> ws\<lparr>ws_console := ws_console ws @ [line]\<rparr>]\<rparr>)"
    using g(1,2,4) by (simp add: appendConsoleLine_def with_space_def)
  show ?thesis
    by (rule that [OF u]) (use g in \<open>auto simp: gui_inv_def same_state_def current_def shown_def shows_chains_def split: option.splits\<close>)
qed

lemma debug_ok:
  assumes "gui_inv g"
  obtains g' ws where "showDebugWindow g = Inr g'" "gui_inv g'" "shown g \<Longrightarrow> shown g'" "gui_developerMode g'"
    "gui_wallet g' = gui_wallet g" "gui_language g' = gui_language g" "\<And>k. k \<noteq> ''developerMode'' \<Longrightarrow> gui_settings g' k = gui_settings g k"
    "current g' = Some ws" "ws_pages ws ! ws_page ws = DeveloperPage" "stored_prefs g \<Longrightarrow> stored_prefs g'"
proof -
  let ?d = "g\<lparr>gui_developerMode := True, gui_settings := (gui_settings g)(''developerMode'' \<mapsto> bool_text True)\<rparr>"
  have "live ?d" using inv_live [OF assms] by simp
  from rebuild_ok [OF disjI1 [OF this]] obtain gd where d: "rebuildWorkspace ?d = Inr gd" "gui_inv gd" "shown gd" "same_state ?d gd" by metis
  define g1 where "g1 = (if gui_developerMode g then g else gd)"
  have g1: "(if gui_developerMode g then Inr g else rebuildWorkspace ?d) = Inr g1" using d(1) by (simp add: g1_def)
  have i1: "gui_inv g1" "gui_developerMode g1" "shown g \<Longrightarrow> shown g1" "gui_wallet g1 = gui_wallet g" "gui_language g1 = gui_language g"
    "\<And>k. k \<noteq> ''developerMode'' \<Longrightarrow> gui_settings g1 k = gui_settings g k"
    using assms d by (auto simp: g1_def same_state_def split: if_splits)
  have p1: "stored_prefs g1" if "stored_prefs g" using that same_prefs [OF d(4)] by (simp add: g1_def stored_prefs_def)
  from i1(1,2) obtain a ws where w: "gui_widgets g1 = Some a" "gui_heap g1 = [a \<mapsto> ws]" "ws_pages ws = createMainContentWidget True"
    by (auto simp: gui_inv_def)
  have n: "int (length (ws_pages ws)) - 2 = 7" using w(3) by (simp add: createMainContentWidget_def)
  from switch_ok [OF i1(1), of 7] obtain g2 where g2: "switchPage 7 g1 = Inr g2" "gui_inv g2" "shown g2 = shown g1" "same_state g1 g2"
    "current g2 = Some (ws\<lparr>ws_page := 7, ws_checked := 7\<rparr>)"
    using w by (auto simp: current_def createMainContentWidget_def)
  have "gui_developerMode g2" using g2(4) i1(2) by (simp add: same_state_def)
  from console_ok [OF g2(2) this] obtain g3 where g3: "appendConsoleLine (gui_text (gui_language g2) ''Debug window opened.'' [232,176,131,232,175,149,231,170,151,229,143,163,229,183,178,230,137,147,229,188,128,227,128,130]) g2 = Inr g3"
    "gui_inv g3" "shown g3 = shown g2" "same_state g2 g3" "\<exists>l. current g3 = Some (ws\<lparr>ws_page := 7, ws_checked := 7, ws_console := l\<rparr>)"
    using g2(5) by (metis workspace.update_convs(11))
  have "showDebugWindow g = Inr g3" using g1 w(1,2) n g2(1) g3(1) by (simp add: showDebugWindow_def)
  moreover have "createMainContentWidget True ! 7 = DeveloperPage" by (simp add: createMainContentWidget_def)
  moreover obtain l where "current g3 = Some (ws\<lparr>ws_page := 7, ws_checked := 7, ws_console := l\<rparr>)" using g3(5) by blast
  moreover have "stored_prefs g3" if "stored_prefs g" using p1 [OF that] same_prefs [OF g2(4)] same_prefs [OF g3(4)] by simp
  ultimately show ?thesis
    using g2(3,4) g3 i1 w(3) by (intro that [of g3 "ws\<lparr>ws_page := 7, ws_checked := 7, ws_console := l\<rparr>"]) (auto simp: same_state_def)
qed

lemma run_ok:
  assumes "gui_inv g" and "gui_developerMode g"
  obtains g' where "run_clicked chain command g = Inr g'" "gui_inv g'" "shown g' = shown g" "same_state g g'"
proof -
  from console_ok [OF assms, of "''['' @ chain @ ''] > '' @ command"] obtain g1 where g1: "appendConsoleLine (''['' @ chain @ ''] > '' @ command) g = Inr g1"
    "gui_inv g1" "shown g1 = shown g" "same_state g g1" by metis
  have "gui_developerMode g1" using g1(4) assms(2) by (simp add: same_state_def)
  from console_ok [OF g1(2) this] obtain g2 where "appendConsoleLine (gui_text (gui_language g1) ''RPC transport is not connected yet.'' [82,80,67,32,228,188,160,232,190,147,229,176,154,230,156,170,232,191,158,230,142,165,227,128,130]) g1 = Inr g2"
    "gui_inv g2" "shown g2 = shown g1" "same_state g1 g2" by metis
  with that g1 show ?thesis by (simp add: run_clicked_def same_state_def)
qed

text \<open>Operations of the wallet model that keep the states of the chains keep what is shown.\<close>

lemma shown_same_chains:
  assumes "shown g" and "gui_wallet g = Some s" and "wm_bht (fst s') = wm_bht (fst s)" and "wm_bhte (fst s') = wm_bhte (fst s)"
  shows "shown (g\<lparr>gui_wallet := Some s'\<rparr>)"
  using assms by (cases s; cases s') (auto simp: shown_def current_def split: option.splits)

lemma process_chains:
  "wm_bht (fst (snd (startManagedNode q chain s))) = wm_bht (fst s)" "wm_bhte (fst (snd (startManagedNode q chain s))) = wm_bhte (fst s)"
  "fst (snd (stopManagedNode q chain s)) = fst s"
  by (cases s; simp add: startManagedNode_def stopManagedNode_def Let_def)+

text \<open>Whether a payment has been made from the dialog since the last event that certainly shows the chains.\<close>

definition stale_step :: "gui_op \<Rightarrow> bool \<Rightarrow> bool" where
  "stale_step op b =
     (case op of DialogSends d \<Rightarrow> True | EnterOptions (Some f) \<Rightarrow> False | EnterSettings f \<Rightarrow> False | Rescan \<Rightarrow> False | _ \<Rightarrow> b)"

definition stale :: "(gui_op \<times> 'r) list \<Rightarrow> bool" where
  "stale tr = fold (\<lambda>(op, r). stale_step op) tr False"

definition exec_good :: "qt \<Rightarrow> gui_op \<Rightarrow> BHTWalletGUI \<Rightarrow> bool" where
  "exec_good q op g \<longleftrightarrow>
     (\<exists>n g'. gui_exec q op g = (Inr n, g') \<and> gui_inv g' \<and> (\<forall>b. \<not> stale_step op b \<longrightarrow> (\<not> b \<longrightarrow> shown g) \<longrightarrow> shown g'))"

lemma exec_good_start: "gui_inv g \<Longrightarrow> exec_good q (StartNode bhte) g"
proof (cases "gui_wallet g")
  case (Some s)
  assume i: "gui_inv g"
  obtain ok e s' where c: "startManagedNode (gui_qt q g) (if bhte then ''BHTE'' else ''BHT'') s = ((ok, e), s')" by (metis prod.exhaust)
  have "wm_bht (fst s') = wm_bht (fst s)" "wm_bhte (fst s') = wm_bhte (fst s)"
    using process_chains(1,2) [of "gui_qt q g" "if bhte then ''BHTE'' else ''BHT''" s] c by simp_all
  with i c Some shown_same_chains [of g s s'] show ?thesis by (auto simp: exec_good_def start_clicked_def stale_step_def Let_def)
qed (auto simp: exec_good_def start_clicked_def stale_step_def)

lemma exec_good_stop: "gui_inv g \<Longrightarrow> exec_good q (StopNode bhte) g"
proof (cases "gui_wallet g")
  case (Some s)
  assume i: "gui_inv g"
  obtain ok e s' where c: "stopManagedNode (gui_qt q g) (if bhte then ''BHTE'' else ''BHT'') s = ((ok, e), s')" by (metis prod.exhaust)
  have "fst s' = fst s" using process_chains(3) [of "gui_qt q g" "if bhte then ''BHTE'' else ''BHT''" s] c by simp
  with i c Some shown_same_chains [of g s s'] show ?thesis by (auto simp: exec_good_def stop_clicked_def stale_step_def Let_def)
qed (auto simp: exec_good_def stop_clicked_def stale_step_def)

lemma exec_good_verify:
  assumes "gui_inv g"
  shows "exec_good q (VerifyDeposit txid pf) g" "exec_good q (VerifyAccount txid pf) g"
proof -
  obtain r1 s1 where 1: "verifyBHTDepositProof (gui_qt q g) txid pf 12 (the (gui_wallet g)) = (r1, s1)" by (metis prod.exhaust)
  obtain r2 s2 where 2: "verifyBHTEAccountProof (gui_qt q g) txid pf (the (gui_wallet g)) = (r2, s2)" by (metis prod.exhaust)
  have m: "fst s1 = fst (the (gui_wallet g))" "fst s2 = fst (the (gui_wallet g))" using verify_model(3,4) 1 2 by (metis snd_conv)+
  show "exec_good q (VerifyDeposit txid pf) g"
    using assms 1 m shown_same_chains [of g _ s1]
    by (cases "gui_wallet g") (auto simp: exec_good_def verifyDeposit_clicked_def stale_step_def)
  show "exec_good q (VerifyAccount txid pf) g"
    using assms 2 m shown_same_chains [of g _ s2]
    by (cases "gui_wallet g") (auto simp: exec_good_def verifyAccount_clicked_def stale_step_def)
qed

lemma poll_chains:
  assumes "\<not> poll_due q s"
  shows "wm_bht (fst (snd (pollTimerFires q s))) = wm_bht (fst s)" "wm_bhte (fst (snd (pollTimerFires q s))) = wm_bhte (fst s)"
  using assms by (cases s; auto simp: poll_due_def pollTimerFires_def checkBalanceChanged_def Let_def split: option.splits)+

lemma exec_good_poll:
  assumes "gui_inv g"
  shows "exec_good q PollFires g"
proof (cases "gui_wallet g")
  case (Some s)
  let ?s = "snd (pollTimerFires (gui_qt q g) s)"
  have "live (g\<lparr>gui_wallet := Some ?s\<rparr>)" using inv_live [OF assms] by simp
  from show_wallet_ok [OF this] obtain g' where w: "show_wallet (g\<lparr>gui_wallet := Some ?s\<rparr>) = Inr g'"
    "gui_inv (g\<lparr>gui_wallet := Some ?s\<rparr>) \<Longrightarrow> gui_inv g'" "shown g'" by metis
  show ?thesis
  proof (cases "poll_due (gui_qt q g) s")
    case True
    with w assms Some show ?thesis by (auto simp: exec_good_def poll_fires_def handled_def Let_def)
  next
    case False
    from poll_chains [OF this] shown_same_chains [of g s ?s] False assms Some show ?thesis
      by (auto simp: exec_good_def poll_fires_def handled_def stale_step_def Let_def)
  qed
qed (use assms in \<open>auto simp: exec_good_def poll_fires_def handled_def stale_step_def\<close>)

lemma console_page_developer: "gui_inv g \<Longrightarrow> console_page g \<Longrightarrow> gui_developerMode g"
  by (auto simp: gui_inv_def console_page_def current_def createMainContentWidget_def split: if_splits)

lemma exec_ok:
  assumes "gui_inv g"
  shows "exec_good q op g"
proof (cases op)
  case (SwitchTo i)
  obtain g' where "switchPage i g = Inr g'" "gui_inv g'" "shown g' = shown g" by (rule switch_ok [OF assms, of i])
  with SwitchTo show ?thesis by (auto simp: exec_good_def handled_def stale_step_def)
next
  case (EnterOptions f)
  show ?thesis
  proof (cases f)
    case None
    with EnterOptions assms show ?thesis by (auto simp: exec_good_def handled_def stale_step_def showOptions_def)
  next
    case (Some f')
    obtain g' where "showOptions q (Some f') g = Inr g'" "gui_inv g'" "shown g'" by (rule options_ok [OF assms, of q f'])
    with EnterOptions Some show ?thesis by (auto simp: exec_good_def handled_def)
  qed
next
  case (EnterSettings f)
  obtain g' where "applySettings q f g = Inr g'" "gui_inv g'" "shown g'" by (rule settings_ok [OF assms, of q f])
  with EnterSettings show ?thesis by (auto simp: exec_good_def handled_def)
next
  case DebugWindow
  obtain g' where "showDebugWindow g = Inr g'" "gui_inv g'" "shown g \<Longrightarrow> shown g'" using debug_ok [OF assms] by metis
  with DebugWindow show ?thesis by (auto simp: exec_good_def handled_def stale_step_def)
next
  case (RunCommand chain command)
  show ?thesis
  proof (cases "console_page g")
    case True
    obtain g' where "run_clicked chain command g = Inr g'" "gui_inv g'" "shown g' = shown g"
      by (rule run_ok [OF assms console_page_developer [OF assms True], of chain command])
    with RunCommand True show ?thesis
      by (auto simp: exec_good_def handled_def stale_step_def)
  qed (use RunCommand assms in \<open>auto simp: exec_good_def stale_step_def\<close>)
next
  case Rescan
  obtain ok g' where "refresh_wallet q g = Inr (ok, g')" "gui_inv g \<Longrightarrow> gui_inv g'" "shown g'"
    using refresh_ok [OF inv_live [OF assms], of q] by metis
  with Rescan assms show ?thesis
    by (auto simp: exec_good_def handled_def rescan_clicked_def)
next
  case OpenData
  with assms show ?thesis by (auto simp: exec_good_def stale_step_def)
next
  case (DialogSends d)
  with assms show ?thesis by (auto simp: exec_good_def stale_step_def dialog_sends_def split: option.splits prod.splits)
qed (use assms exec_good_start exec_good_stop exec_good_verify exec_good_poll in auto)

interpretation window: kept_invariant "gui_exec q" gui_inv for q
  using exec_ok by unfold_locales (metis exec_good_def prod.inject)

section \<open>The window in every run\<close>

lemma start_ok: "\<exists>g. start_application q = Inr g \<and> gui_inv g \<and> shown g"
proof -
  let ?g = "\<lparr>gui_language = (if (case qt_settings q ''language'' of None \<Rightarrow> ''en'' | Some l \<Rightarrow> l) = ''zh_CN'' then 1 else 0),
        gui_developerMode = (case qt_settings q ''developerMode'' of None \<Rightarrow> False | Some s \<Rightarrow> text_bool s),
        gui_settings = qt_settings q, gui_heap = Map.empty, gui_next = 0, gui_widgets = None, gui_console = None,
        gui_wallet = None, gui_actions = True, gui_title = ''BHT Wallet Pro'', gui_message = ''Ready''\<rparr>"
  have "live ?g \<or> gui_widgets ?g = None \<and> gui_heap ?g = Map.empty" by simp
  then obtain g1 where n: "new_BHTWalletGUI (qt_settings q) = Inr g1" "gui_inv g1"
    unfolding new_BHTWalletGUI_def by (rule rebuild_ok)
  let ?g1 = "setWalletActionsEnabled True (g1\<lparr>gui_wallet := Some (new_WalletModel q, \<lparr>rpc_steps = 0, rpc_posted = []\<rparr>)\<rparr>)"
  have i: "gui_inv ?g1" using n(2) by (simp add: setWalletActionsEnabled_def gui_inv_def)
  obtain g2 where "show_wallet ?g1 = Inr g2" "gui_inv ?g1 \<Longrightarrow> gui_inv g2" "shown g2" using show_wallet_ok [OF inv_live [OF i]] by metis
  with n(1) i show ?thesis by (simp add: start_application_def setWalletModel_def)
qed

lemma start_wallet: "start_application q = Inr g \<Longrightarrow> gui_wallet g \<noteq> None"
  by (auto simp: start_application_def setWalletModel_def setWalletActionsEnabled_def show_wallet_def updateChainStateViews_def with_space_def
      split: sum.splits option.splits)

lemma run_window:
  assumes "start_application q = Inr g0" and "run (gui_exec q) g0 tr g"
  shows "gui_inv g \<and> (\<not> stale tr \<longrightarrow> shown g) \<and> list_all (\<lambda>(op, r). \<exists>n. r = Inr n) tr"
  using assms(2)
proof (induction rule: run.induct)
  case run_start
  with start_ok [of q] assms(1) show ?case by auto
next
  case (run_step tr g op r g')
  then have "gui_inv g" by blast
  from exec_ok [OF this, of q op] run_step.hyps(2) obtain n where e: "r = Inr n" "gui_inv g'"
    "\<And>b. \<not> stale_step op b \<Longrightarrow> (\<not> b \<longrightarrow> shown g) \<Longrightarrow> shown g'" by (auto simp: exec_good_def)
  have "shown g'" if "\<not> stale (tr @ [(op, r)])"
    using that e(3) [of "stale tr"] run_step.IH by (simp add: stale_def)
  with e(1,2) run_step.IH show ?case by auto
qed


definition sample_options :: "bool \<Rightarrow> options_form" where
  "sample_options developer =
     \<lparr>ef_language = 1, ef_developer = developer, ef_bhtRpc = '' http://a '', ef_bhtUser = ''u'', ef_bhtPassword = ''p'', ef_bhteRpc = ''http://b'',
      ef_bhteAccount = [], of_network = ''Signet''\<rparr>"


text \<open>A rebuild without developer mode leaves the pointer to the console behind.\<close>

lemma rebuild_leaves_console:
  assumes "gui_inv g" and "gui_developerMode g" and "rebuildWorkspace (g\<lparr>gui_developerMode := False\<rparr>) = Inr g'"
  shows "\<exists>a. gui_console g' = Some a \<and> gui_heap g' a = None"
  using assms
  by (auto simp: gui_inv_def rebuildWorkspace_def show_wallet_def updateChainStateViews_def with_space_def applyRuntimeSettings_def Let_def
      split: option.splits)

section \<open>What an event does to the wallet and to the settings\<close>

fun wallet_exec :: "qt \<Rightarrow> gui_op \<Rightarrow> wm_state \<Rightarrow> wm_state" where
  "wallet_exec q (EnterOptions (Some f)) s = wallet_entered q f s"
| "wallet_exec q (EnterSettings f) s = wallet_entered q f s"
| "wallet_exec q (StartNode bhte) s = snd (startManagedNode q (if bhte then ''BHTE'' else ''BHT'') s)"
| "wallet_exec q (StopNode bhte) s = snd (stopManagedNode q (if bhte then ''BHTE'' else ''BHT'') s)"
| "wallet_exec q Rescan s = snd (refreshChainStates q s)"
| "wallet_exec q (VerifyDeposit txid pf) s = snd (verifyBHTDepositProof q txid pf 12 s)"
| "wallet_exec q (VerifyAccount account pf) s = snd (verifyBHTEAccountProof q account pf s)"
| "wallet_exec q (DialogSends d) s = snd (snd (on_sendButton_clicked q d s))"
| "wallet_exec q PollFires s = snd (pollTimerFires q s)"
| "wallet_exec q _ s = s"

text \<open>The endpoint of the first chain, user and password, and the endpoint of the second chain, as an event stores them.\<close>

record node_targets =
  nt_bht :: string
  nt_user :: string
  nt_password :: string
  nt_bhte :: string

fun entered :: "gui_op \<Rightarrow> node_targets option" where
  "entered (EnterOptions (Some f)) = Some \<lparr>nt_bht = trimmed (ef_bhtRpc f), nt_user = ef_bhtUser f, nt_password = ef_bhtPassword f, nt_bhte = trimmed (ef_bhteRpc f)\<rparr>"
| "entered (EnterSettings f) = Some \<lparr>nt_bht = trimmed (ef_bhtRpc f), nt_user = ef_bhtUser f, nt_password = ef_bhtPassword f, nt_bhte = trimmed (ef_bhteRpc f)\<rparr>"
| "entered _ = None"

definition endpoints_stored :: "node_targets \<Rightarrow> (string \<rightharpoonup> string) \<Rightarrow> bool" where
  "endpoints_stored e s \<longleftrightarrow>
     s ''bhtRpcEndpoint'' = Some (nt_bht e) \<and> s ''bhtRpcUser'' = Some (nt_user e) \<and>
     s ''bhtRpcPassword'' = Some (nt_password e) \<and> s ''bhteRpcEndpoint'' = Some (nt_bhte e)"

definition effect :: "qt \<Rightarrow> gui_op \<Rightarrow> BHTWalletGUI \<Rightarrow> BHTWalletGUI \<Rightarrow> bool" where
  "effect q op g g' \<longleftrightarrow>
     gui_wallet g' = map_option (wallet_exec (gui_qt q g') op) (gui_wallet g) \<and>
     (case entered op of
        None \<Rightarrow> \<forall>k. k \<noteq> ''developerMode'' \<longrightarrow> gui_settings g' k = gui_settings g k
      | Some e \<Rightarrow> endpoints_stored e (gui_settings g')) \<and>
     (stored_prefs g \<longrightarrow> stored_prefs g')"

lemma same_effect:
  assumes "same_state g g'" and "entered op = None" and "\<And>q s. wallet_exec q op s = s"
  shows "effect q op g g'"
  using assms same_prefs [OF assms(1)] by (cases "gui_wallet g") (simp_all add: effect_def same_state_def)

lemma same_qt: "gui_settings g' = gui_settings g \<Longrightarrow> gui_qt q g' = gui_qt q g"
  by (simp add: gui_qt_def)

lemma saved_endpoints:
  "endpoints_stored \<lparr>nt_bht = trimmed (ef_bhtRpc f), nt_user = ef_bhtUser f, nt_password = ef_bhtPassword f, nt_bhte = trimmed (ef_bhteRpc f)\<rparr> (gui_settings (save_endpoints f g))"
  "endpoints_stored e (gui_settings (save_node_paths f' g)) = endpoints_stored e (gui_settings g)"
  by (simp add: endpoints_stored_def save_endpoints_def) (simp add: endpoints_stored_def save_node_paths_def)

lemma entered_effect:
  assumes "gui_inv g"
  shows "\<exists>g'. showOptions q (Some f) g = Inr g' \<and> effect q (EnterOptions (Some f)) g g'"
    "\<exists>g'. applySettings q f' g = Inr g' \<and> effect q (EnterSettings f') g g'"
proof -
  obtain g1 where 1: "showOptions q (Some f) g = Inr g1"
    "same_state ((save_endpoints f g)\<lparr>gui_wallet := map_option (wallet_entered (gui_qt q (save_endpoints f g)) f) (gui_wallet g)\<rparr>) g1"
    by (rule options_ok [OF assms, of q f])
  then have s1: "gui_settings g1 = gui_settings (save_endpoints f g)" and
    "gui_wallet g1 = map_option (wallet_entered (gui_qt q (save_endpoints f g)) f) (gui_wallet g)" by (simp_all add: same_state_def)
  then have "effect q (EnterOptions (Some f)) g g1"
    unfolding effect_def same_qt [OF s1] using same_prefs [OF 1(2)] by (cases "gui_wallet g") (simp_all add: saved_endpoints saved_prefs)
  with 1(1) show "\<exists>g'. showOptions q (Some f) g = Inr g' \<and> effect q (EnterOptions (Some f)) g g'" by blast
  obtain g2 where 2: "applySettings q f' g = Inr g2"
    "same_state ((save_node_paths f' (save_endpoints f' g))\<lparr>gui_wallet :=
       map_option (wallet_entered (gui_qt q (save_node_paths f' (save_endpoints f' g))) f') (gui_wallet g)\<rparr>) g2"
    by (rule settings_ok [OF assms, of q f'])
  then have s2: "gui_settings g2 = gui_settings (save_node_paths f' (save_endpoints f' g))" and
    "gui_wallet g2 = map_option (wallet_entered (gui_qt q (save_node_paths f' (save_endpoints f' g))) f') (gui_wallet g)"
    by (simp_all add: same_state_def)
  then have "effect q (EnterSettings f') g g2"
    unfolding effect_def same_qt [OF s2] using same_prefs [OF 2(2)] by (cases "gui_wallet g") (simp_all add: saved_endpoints saved_prefs)
  with 2(1) show "\<exists>g'. applySettings q f' g = Inr g' \<and> effect q (EnterSettings f') g g'" by blast
qed

lemma poll_effect:
  assumes "gui_inv g"
  shows "\<exists>g'. poll_fires q g = Inr g' \<and> effect q PollFires g g'"
proof (cases "gui_wallet g")
  case (Some s)
  let ?g = "g\<lparr>gui_wallet := Some (snd (pollTimerFires (gui_qt q g) s))\<rparr>"
  have e: "effect q PollFires g x" if "same_state ?g x" for x
  proof -
    have x: "gui_settings x = gui_settings g" "gui_wallet x = Some (snd (pollTimerFires (gui_qt q g) s))"
      using that by (simp_all add: same_state_def)
    show ?thesis unfolding effect_def same_qt [OF x(1)] using x Some same_prefs [OF that] by simp
  qed
  have "live ?g" using inv_live [OF assms] by simp
  then obtain g1 where "show_wallet ?g = Inr g1" "same_state ?g g1" by (rule show_wallet_ok)
  moreover have "same_state ?g ?g" by (simp add: same_state_def)
  ultimately show ?thesis using Some e by (simp add: poll_fires_def Let_def)
qed (simp add: poll_fires_def effect_def)

lemma exec_effect:
  assumes "gui_inv g" and "gui_exec q op g = (r, g')"
  shows "effect q op g g'"
proof (cases op)
  case (SwitchTo i)
  obtain g1 where "switchPage i g = Inr g1" "same_state g g1" by (rule switch_ok [OF assms(1), of i])
  with SwitchTo assms(2) same_effect [of g g1 op] show ?thesis by (simp add: handled_def)
next
  case (EnterOptions f)
  show ?thesis
  proof (cases f)
    case None
    with EnterOptions assms(2) same_effect [of g g op] show ?thesis by (simp add: handled_def showOptions_def same_state_def)
  next
    case (Some f')
    with EnterOptions assms entered_effect(1) [OF assms(1), of q f'] show ?thesis by (auto simp: handled_def)
  qed
next
  case (EnterSettings f)
  with assms entered_effect(2) [OF assms(1), of q f] show ?thesis by (auto simp: handled_def)
next
  case DebugWindow
  obtain g1 where "showDebugWindow g = Inr g1" "gui_wallet g1 = gui_wallet g" "\<And>k. k \<noteq> ''developerMode'' \<Longrightarrow> gui_settings g1 k = gui_settings g k"
    "stored_prefs g \<Longrightarrow> stored_prefs g1" using debug_ok [OF assms(1)] by metis
  with DebugWindow assms(2) show ?thesis by (cases "gui_wallet g") (auto simp: handled_def effect_def)
next
  case (RunCommand chain command)
  show ?thesis
  proof (cases "console_page g")
    case True
    obtain g1 where "run_clicked chain command g = Inr g1" "same_state g g1"
      by (rule run_ok [OF assms(1) console_page_developer [OF assms(1) True], of chain command])
    with RunCommand assms(2) True same_effect [of g g1 op] show ?thesis by (simp add: handled_def)
  qed (use RunCommand assms(2) same_effect [of g g op] in \<open>simp add: same_state_def\<close>)
next
  case Rescan
  obtain ok g1 where r: "refresh_wallet q g = Inr (ok, g1)"
    "same_state (g\<lparr>gui_wallet := map_option (\<lambda>s. snd (refreshChainStates (gui_qt q g) s)) (gui_wallet g)\<rparr>) g1"
    using refresh_ok [OF inv_live [OF assms(1)], of q] by metis
  then show ?thesis using Rescan assms(2) same_prefs [OF r(2)]
    by (cases "gui_wallet g") (auto simp: handled_def rescan_clicked_def same_state_def effect_def gui_qt_def)
next
  case OpenData
  with assms(2) same_effect [of g g op] show ?thesis by (simp add: same_state_def)
next
  case PollFires
  with assms poll_effect [OF assms(1), of q] show ?thesis by (auto simp: handled_def)
qed (use assms in \<open>auto simp: effect_def start_clicked_def stop_clicked_def verifyDeposit_clicked_def verifyAccount_clicked_def dialog_sends_def
    gui_qt_def Let_def split: option.splits prod.splits if_splits\<close>)

lemma run_wallet:
  assumes "start_application q = Inr g0" and "run (gui_exec q) g0 tr g"
  shows "gui_wallet g \<noteq> None"
  using assms(2)
proof (induction rule: run.induct)
  case run_start
  then show ?case using start_wallet [OF assms(1)] by simp
next
  case (run_step tr g op r g')
  have "gui_inv g" using run_window [OF assms(1) run_step.hyps(1)] by blast
  from exec_effect [OF this run_step.hyps(2)] run_step.IH show ?case by (auto simp: effect_def)
qed

text \<open>The title a page has in the navigation.\<close>

definition page_title :: "int \<Rightarrow> page \<Rightarrow> string" where
  "page_title language p =
     (case p of
        OverviewPage \<Rightarrow> gui_text language ''Overview'' [230,166,130,232,167,136]
      | TransactionsPage \<Rightarrow> gui_text language ''Transactions'' [228,186,164,230,152,147]
      | AddressesPage \<Rightarrow> gui_text language ''Addresses'' [229,156,176,229,157,128,231,176,191]
      | BHTEBridgePage \<Rightarrow> gui_text language ''BHTE Bridge'' [66,72,84,69,32,232,183,168,233,147,190,230,161,165]
      | NodePage \<Rightarrow> gui_text language ''BHT/BHTE Nodes'' [66,72,84,47,66,72,84,69,32,232,138,130,231,130,185]
      | SecurityPage \<Rightarrow> gui_text language ''Security'' [229,174,137,229,133,168]
      | HardwarePage \<Rightarrow> gui_text language ''Hardware Wallet'' [231,161,172,228,187,182,233,146,177,229,140,133]
      | DeveloperPage \<Rightarrow> gui_text language ''Developer'' [229,188,128,229,143,145,232,128,133]
      | SettingsPage \<Rightarrow> gui_text language ''Settings'' [232,174,190,231,189,174])"

lemma nav_titles: "createNavWidget language dev = map (\<lambda>i. (page_title language (createMainContentWidget dev ! i), i)) [0..<length (createMainContentWidget dev)]"
  by (simp add: createNavWidget_def createMainContentWidget_def page_title_def upt_rec)



end
