(* ===== verification/NodeTraffic.thy ===== *)
theory NodeTraffic
  imports MainWindowProofs
begin

text \<open>
  Where the requests of the application go: once endpoints and credentials have been entered, every later request of the
  wallet model goes to one of the two endpoints, and the credentials go to the first one only.
\<close>

section \<open>Requests of the wallet model\<close>

definition goes :: "node_targets \<Rightarrow> rpc_request \<Rightarrow> bool" where
  "goes e r \<longleftrightarrow>
     rq_endpoint r = nt_bht e \<and> rq_auth r = (if nt_user e = [] then None else Some (nt_user e, nt_password e)) \<or>
     rq_endpoint r = nt_bhte e \<and> rq_auth r = None"

text \<open>What the settings say, with the defaults of the code for what is not stored.\<close>

definition targets :: "qt \<Rightarrow> node_targets" where
  "targets q =
     \<lparr>nt_bht = setting q ''bhtRpcEndpoint'' ''http://127.0.0.1:18332'', nt_user = setting q ''bhtRpcUser'' [],
      nt_password = setting q ''bhtRpcPassword'' [], nt_bhte = setting q ''bhteRpcEndpoint'' ''http://127.0.0.1:8545''\<rparr>"

definition aimed :: "node_targets \<Rightarrow> qt \<Rightarrow> WalletModel \<Rightarrow> bool" where
  "aimed e q m \<longleftrightarrow> targets q = e \<and> cs_endpoint (wm_bht m) = nt_bht e \<and> cs_endpoint (wm_bhte m) = nt_bhte e"

lemma stored_targets: "endpoints_stored e (qt_settings q) \<Longrightarrow> targets q = e"
  by (simp add: endpoints_stored_def targets_def setting_def)

lemma targets_kept:
  "(\<And>k. k \<noteq> ''developerMode'' \<Longrightarrow> gui_settings g' k = gui_settings g k) \<Longrightarrow> targets (gui_qt q g') = targets (gui_qt q g)"
  by (simp add: targets_def setting_def gui_qt_def)

text \<open>A step from a model with the endpoints of \<open>e\<close> keeps them and posts to them only.\<close>

definition reaches :: "node_targets \<Rightarrow> qt \<Rightarrow> wm_state \<Rightarrow> wm_state \<Rightarrow> bool" where
  "reaches e q s s' \<longleftrightarrow> (aimed e q (fst s) \<longrightarrow> aimed e q (fst s') \<and> only_posts (goes e) (snd s) (snd s'))"

lemma reaches_refl [simp]: "reaches e q s s"
  by (simp add: reaches_def)

lemma reaches_trans [trans]: "reaches e q s s1 \<Longrightarrow> reaches e q s1 s2 \<Longrightarrow> reaches e q s s2"
  unfolding reaches_def by (blast intro: only_posts_trans)

lemma reaches_model:
  assumes "cs_endpoint (wm_bht m') = cs_endpoint (wm_bht m)" and "cs_endpoint (wm_bhte m') = cs_endpoint (wm_bhte m)"
    and "rpc_posted w' = rpc_posted w"
  shows "reaches e q (m, w) (m', w')"
  using assms by (auto simp: reaches_def aimed_def only_posts_def extends_def posts_def)

lemma rpc_goes:
  assumes "rpcCall q endpoint method params user timeout w = (r, w')"
    and "\<And>rq. rq_endpoint rq = endpoint \<Longrightarrow> rq_auth rq = (if fst user = [] then None else Some user) \<Longrightarrow> P rq"
  shows "only_posts P w w'"
  using assms by (auto simp: rpcCall_def only_posts_def extends_def posts_def Let_def split: if_splits)

lemma bht_rpc_goes:
  assumes "aimed e q m" and "rpcCall q (cs_endpoint (wm_bht m)) method params (bht_user q) timeout w = (r, w')"
  shows "only_posts (goes e) w w'"
  by (rule rpc_goes [OF assms(2)]) (use assms(1) in \<open>auto simp: goes_def aimed_def targets_def bht_user_def\<close>)

lemma bhte_rpc_goes:
  assumes "aimed e q m" and "rpcCall q (cs_endpoint (wm_bhte m)) method params ([], []) timeout w = (r, w')"
  shows "only_posts (goes e) w w'"
  by (rule rpc_goes [OF assms(2)]) (use assms(1) in \<open>auto simp: goes_def aimed_def\<close>)

lemma call_reaches:
  "reaches e q s (snd (bht_call q method params timeout s))"
  "reaches e q s (snd (bhte_call q method params timeout s))"
  by (auto simp: reaches_def bht_call_def bhte_call_def split: prod.splits dest: bht_rpc_goes bhte_rpc_goes)

lemma call_reaches':
  "bht_call q meth params timeout s = (r, s') \<Longrightarrow> reaches e q s s'"
  "bhte_call q meth params timeout s = (r, s') \<Longrightarrow> reaches e q s s'"
  using call_reaches by (metis snd_conv)+

lemma account_reaches: "getDefaultBHTEAccount q timeout s = (x, s') \<Longrightarrow> reaches e q s s'"
  by (auto simp: getDefaultBHTEAccount_def Let_def dest: call_reaches' split: if_splits prod.splits rpc_result.splits list.splits)

text \<open>The endpoints a refresh uses are the stored ones.\<close>

lemma aimed_settings:
  assumes "aimed e q m"
  shows "setting q ''bhtRpcEndpoint'' (if cs_endpoint (wm_bht m) = [] then ''http://127.0.0.1:18332'' else cs_endpoint (wm_bht m)) = cs_endpoint (wm_bht m)"
    and "setting q ''bhteRpcEndpoint'' (if cs_endpoint (wm_bhte m) = [] then ''http://127.0.0.1:8545'' else cs_endpoint (wm_bhte m)) = cs_endpoint (wm_bhte m)"
  using assms by (auto simp: aimed_def targets_def setting_def split: option.splits)

lemma refreshBHTState_reaches: "reaches e q s (snd (refreshBHTState q s))"
proof (cases s)
  case (Pair m w)
  show ?thesis
  proof (cases "aimed e q m")
    case True
    note set = aimed_settings(1) [OF True]
    let ?c = "\<lambda>method w. rpcCall q (cs_endpoint (wm_bht m)) method [] (bht_user q) POLL_RPC_TIMEOUT_MS w"
    obtain r1 w1 where c1: "?c ''getblockchaininfo'' w = (r1, w1)" by fastforce
    obtain r2 w2 where c2: "?c ''getnetworkinfo'' w1 = (r2, w2)" by fastforce
    obtain r3 w3 where c3: "?c ''getbalance'' w2 = (r3, w3)" by fastforce
    have p: "only_posts (goes e) w w1" "only_posts (goes e) w w3"
      using bht_rpc_goes [OF True c1] bht_rpc_goes [OF True c2] bht_rpc_goes [OF True c3] by (auto intro: only_posts_trans)
    show ?thesis
      unfolding Pair refreshBHTState_def prod.case Let_def set
      using True p c1 c2 c3 by (cases r1; cases r2; cases r3) (simp_all add: reaches_def aimed_def)
  qed (simp add: reaches_def Pair)
qed

lemma refreshBHTEState_reaches: "reaches e q s (snd (refreshBHTEState q s))"
proof (cases s)
  case (Pair m w)
  show ?thesis
  proof (cases "aimed e q m")
    case True
    note set = aimed_settings(2) [OF True]
    let ?c = "\<lambda>method params w. rpcCall q (cs_endpoint (wm_bhte m)) method params ([], []) POLL_RPC_TIMEOUT_MS w"
    obtain r1 w1 where c1: "?c ''eth_blockNumber'' [] w = (r1, w1)" by fastforce
    obtain r2 w2 where c2: "?c ''net_peerCount'' [] w1 = (r2, w2)" by fastforce
    obtain account err m3 w3 where c3: "getDefaultBHTEAccount q POLL_RPC_TIMEOUT_MS (m, w2) = ((account, err), (m3, w3))" by (metis prod.exhaust)
    obtain r4 w4 where c4: "?c ''eth_getBalance'' [JString account, JString ''latest''] w3 = (r4, w4)" by fastforce
    have m3: "m3 = m" using account_quiet [OF c3] by simp
    have "only_posts (goes e) w2 w3" using account_reaches [OF c3, of e] True by (simp add: reaches_def)
    then have p: "only_posts (goes e) w w1" "only_posts (goes e) w w3" "only_posts (goes e) w w4"
      using bhte_rpc_goes [OF True c1] bhte_rpc_goes [OF True c2] bhte_rpc_goes [OF True c4] by (auto intro: only_posts_trans)
    show ?thesis
      unfolding Pair refreshBHTEState_def prod.case Let_def set
      using True p c1 c2 c3 c4 m3 by (cases r1; cases r2; cases "account = []"; cases r4) (simp_all add: reaches_def aimed_def)
  qed (simp add: reaches_def Pair)
qed

lemmas refresh_reaches = refreshBHTState_reaches refreshBHTEState_reaches

lemma sync_reaches: "reaches e q s (snd (syncTransactionHistory q s))"
proof -
  obtain m w where s: "s = (m, w)" by fastforce
  let ?m = "m\<lparr>wm_indexed := []\<rparr>"
  obtain r1 s1 where 1: "refreshBHTTransactions q (?m, w) = (r1, s1)" by (metis prod.exhaust)
  obtain r2 m2 w2 where 2: "refreshBHTETransactions q s1 = (r2, (m2, w2))" by (metis prod.exhaust)
  have "reaches e q s (?m, w)" unfolding s by (rule reaches_model) simp_all
  also have "reaches e q (?m, w) s1"
  proof -
    obtain r m1 w1 where c: "bht_call q ''listtransactions''
             [JString ''*'', JDouble (of_int (setting_int q ''bhtHistoryCount'' 100)), JDouble 0, JBool True] POLL_RPC_TIMEOUT_MS (?m, w) = (r, (m1, w1))"
      by (metis prod.exhaust)
    have "reaches e q (m1, w1) s1"
      using 1 c by (cases r) (auto simp: refreshBHTTransactions_def intro: reaches_model)
    with call_reaches'(1) [OF c] show ?thesis by (rule reaches_trans)
  qed
  also have "reaches e q s1 (m2, w2)"
  proof -
    obtain account err s3 where a: "getDefaultBHTEAccount q POLL_RPC_TIMEOUT_MS s1 = ((account, err), s3)" by (metis prod.exhaust)
    obtain r m4 w4 where c: "bhte_call q (setting q ''bhteHistoryMethod'' ''bhte_getTransactionsByAddress'')
             [JString account, JDouble (of_int (setting_int q ''bhteHistoryCount'' 100))] POLL_RPC_TIMEOUT_MS s3 = (r, (m4, w4))"
      by (metis prod.exhaust)
    have "(m2, w2) = s3 \<or> (m2, w2) = (m4, w4) \<or> (\<exists>l. (m2, w2) = (m4\<lparr>wm_indexed := l\<rparr>, w4))"
      using 2 a c by (cases r) (auto simp: refreshBHTETransactions_def Let_def split: if_splits)
    moreover have "reaches e q (m4, w4) (m4\<lparr>wm_indexed := l\<rparr>, w4)" for l by (rule reaches_model) simp_all
    ultimately show ?thesis using account_reaches [OF a, of e] call_reaches'(2) [OF c, of e] by (metis reaches_trans)
  qed
  also have "reaches e q (m2, w2) (snd (syncTransactionHistory q s))"
    using 1 2 by (cases r1; cases r2) (auto simp: s syncTransactionHistory_def setTransactions_def Let_def intro: reaches_model)
  finally show ?thesis .
qed

lemma refreshChainStates_reaches: "reaches e q s (snd (refreshChainStates q s))"
proof -
  obtain b1 s1 where 1: "refreshBHTState q s = (b1, s1)" by (metis prod.exhaust)
  obtain b2 s2 where 2: "refreshBHTEState q s1 = (b2, s2)" by (metis prod.exhaust)
  have "reaches e q s s1" "reaches e q s1 s2" using refresh_reaches 1 2 by (metis snd_conv)+
  with sync_reaches [of e q s2] 1 2 show ?thesis by (auto simp: refreshChainStates_def intro: reaches_trans)
qed

lemma poll_reaches: "reaches e q s (snd (pollTimerFires q s))"
proof -
  obtain m w where s: "s = (m, w)" by fastforce
  define s1 where "s1 = (if poll_due q (m, w) then snd (refreshChainStates q (m\<lparr>wm_last_poll := Some (qt_now q (rpc_steps w))\<rparr>, w)) else (m, w))"
  have "reaches e q (m, w) (m\<lparr>wm_last_poll := Some (qt_now q (rpc_steps w))\<rparr>, w)" by (rule reaches_model) simp_all
  then have "reaches e q s s1" using refreshChainStates_reaches [of e q] by (auto simp: s1_def s intro: reaches_trans)
  moreover have "reaches e q s1 (snd (pollTimerFires q s))"
  proof (cases s1)
    case (Pair m1 w1)
    have "snd (pollTimerFires q s) = (snd (checkBalanceChanged m1), w1)"
      using Pair by (cases "poll_due q (m, w)") (auto simp: s1_def s pollTimerFires_def poll_due_def Let_def split_beta)
    then show ?thesis using Pair by (auto simp: checkBalanceChanged_def intro: reaches_model)
  qed
  ultimately show ?thesis by (rule reaches_trans)
qed

lemma sendCoins_reaches: "reaches e q s (snd (sendCoins q recipients s))"
proof (cases recipients)
  case (Cons recipient rs)
  obtain src err s1 where a: "getDefaultBHTEAccount q 8000 s = ((src, err), s1)" by (metis prod.exhaust)
  obtain r2 s2 where b: "bhte_call q ''eth_sendTransaction'' [JObject [(''from'', JString src), (''to'', JString (rcp_address recipient)),
      (''value'', JString (quantityToHex (rcp_amount recipient))), (''gas'', JString ''0x5208'')]] 8000 s1 = (r2, s2)" by (metis prod.exhaust)
  obtain r3 s3 where c: "bht_call q ''sendtoaddress'' [JString (rcp_address recipient), decimal_json q (rcp_amount recipient),
      JString (rcp_label recipient), JString [], JBool (rcp_subtract_fee recipient)] 8000 s = (r3, s3)" by (metis prod.exhaust)
  have "snd (sendCoins q recipients s) \<in> {s, s1, s2, snd (refreshBHTEState q s2), s3, snd (refreshBHTState q s3)}"
    using a b c Cons by (cases r2; cases r3) (auto simp: sendCoins_def split: option.splits)
  moreover have "reaches e q s s1" "reaches e q s1 s2" "reaches e q s s3"
    using account_reaches [OF a] call_reaches'(2) [OF b] call_reaches'(1) [OF c] by simp_all
  ultimately show ?thesis using refresh_reaches(1) [of e q s3] refresh_reaches(2) [of e q s2] by (auto intro: reaches_trans)
qed (auto simp: sendCoins_def split: option.splits)

lemma dialog_reaches: "reaches e q s (snd (snd (on_sendButton_clicked q d s)))"
proof -
  obtain r s1 where "sendCoins q [getValue q (sd_entry d)] s = (r, s1)" by (metis prod.exhaust)
  with sendCoins_reaches [of e q s "[getValue q (sd_entry d)]"] show ?thesis by (simp add: on_sendButton_clicked_def Let_def)
qed

lemma verify_reaches:
  "reaches e q s (snd (verifyBHTDepositProof q txid pf n s))" "reaches e q s (snd (verifyBHTEAccountProof q txid pf s))"
proof -
  obtain r1 s1 where 1: "bht_call q ''verifytxoutproof'' [JString (trimmed pf)] 8000 s = (r1, s1)" by (metis prod.exhaust)
  obtain r2 s2 where 2: "bht_call q ''getrawtransaction'' [JString txid, JBool True] 8000 s1 = (r2, s2)" by (metis prod.exhaust)
  obtain r3 s3 where 3: "bhte_call q ''eth_blockNumber'' [] POLL_RPC_TIMEOUT_MS s = (r3, s3)" by (metis prod.exhaust)
  have r: "reaches e q s s1" "reaches e q s1 s2" "reaches e q s s3"
    using call_reaches'(1) [OF 1] call_reaches'(1) [OF 2] call_reaches'(2) [OF 3] by simp_all
  have "snd (verifyBHTDepositProof q txid pf n s) \<in> {s, s1, s2}"
    using 1 2 by (cases r1; cases r2) (simp_all add: verifyBHTDepositProof_def Let_def)
  then show "reaches e q s (snd (verifyBHTDepositProof q txid pf n s))" using r by (auto intro: reaches_trans)
  obtain d x where p: "qt_parse q pf = (d, x)" by fastforce
  have "snd (verifyBHTEAccountProof q txid pf s) \<in> {s, s3}"
    using 3 p by (auto simp: verifyBHTEAccountProof_def Let_def split: option.splits json.splits)
  then show "reaches e q s (snd (verifyBHTEAccountProof q txid pf s))" using r by auto
qed

lemma process_reaches: "reaches e q s (snd (startManagedNode q chain s))" "reaches e q s (snd (stopManagedNode q chain s))"
  by (cases s; auto simp: startManagedNode_def stopManagedNode_def rpc_tick_def Let_def intro!: reaches_model)+

section \<open>Requests of the application\<close>

lemma wallet_exec_reaches:
  assumes "entered op = None"
  shows "reaches e q s (wallet_exec q op s)"
  using assms
  by (cases op rule: entered.cases)
    (simp_all add: refreshChainStates_reaches poll_reaches dialog_reaches verify_reaches process_reaches)

lemma wallet_entered_reaches:
  assumes "endpoints_stored e (qt_settings q)" and "nt_bht e = trimmed (ef_bhtRpc f)" and "nt_bhte e = trimmed (ef_bhteRpc f)"
    and "nt_bht e \<noteq> []" and "nt_bhte e \<noteq> []"
  shows "aimed e q (fst (wallet_entered q f s)) \<and> only_posts (goes e) (snd s) (snd (wallet_entered q f s))"
proof -
  obtain m w where s: "s = (m, w)" by fastforce
  let ?m = "setRpcEndpoints (trimmed (ef_bhtRpc f)) (trimmed (ef_bhteRpc f)) m"
  have "aimed e q ?m" using assms stored_targets [OF assms(1)] by (auto simp: aimed_def setRpcEndpoints_def Let_def)
  with refreshChainStates_reaches [of e q "(?m, w)"] show ?thesis by (auto simp: s reaches_def wallet_entered_def)
qed

lemma entered_wallet:
  assumes "entered op = Some e"
  obtains f :: endpoint_form where "nt_bht e = trimmed (ef_bhtRpc f)" "nt_bhte e = trimmed (ef_bhteRpc f)" "\<And>q s. wallet_exec q op s = wallet_entered q f s"
  using assms
proof (cases op rule: entered.cases)
  case (1 f)
  show ?thesis by (rule that [of "endpoint_form.truncate f"]) (use 1 assms in \<open>auto simp: endpoint_form.truncate_def wallet_entered_def\<close>)
next
  case (2 f)
  show ?thesis by (rule that [of "endpoint_form.truncate f"]) (use 2 assms in \<open>auto simp: endpoint_form.truncate_def wallet_entered_def\<close>)
qed (use assms in auto)

lemma run_reaches:
  assumes "run (gui_exec q) g1 tr g2" and "gui_inv g1" and "gui_wallet g1 = Some s1" and "aimed e (gui_qt q g1) (fst s1)"
    and "\<forall>(op, r)\<in>set tr. entered op = None"
  shows "\<exists>s2. gui_wallet g2 = Some s2 \<and> aimed e (gui_qt q g2) (fst s2) \<and> only_posts (goes e) (snd s1) (snd s2)"
  using assms
proof (induction rule: run.induct)
  case run_start
  then show ?case by simp
next
  case (run_step tr g op r g')
  then obtain s where s: "gui_wallet g = Some s" "aimed e (gui_qt q g) (fst s)" "only_posts (goes e) (snd s1) (snd s)" by auto
  have n: "entered op = None" using run_step.prems by auto
  have "gui_inv g" by (rule window.run_inv [OF run_step.hyps(1) run_step.prems(1)])
  from exec_effect [OF this run_step.hyps(2)] n have
    f: "gui_wallet g' = Some (wallet_exec (gui_qt q g') op s)" "\<And>k. k \<noteq> ''developerMode'' \<Longrightarrow> gui_settings g' k = gui_settings g k"
    using s(1) by (auto simp: effect_def)
  have "aimed e (gui_qt q g') (fst s)" using s(2) targets_kept [OF f(2), of q] by (simp add: aimed_def)
  with wallet_exec_reaches [OF n, of e "gui_qt q g'" s] f(1) s(3) show ?case by (auto simp: reaches_def intro: only_posts_trans)
qed


definition sample_targets :: node_targets where
  "sample_targets = \<lparr>nt_bht = ''http://a'', nt_user = ''u'', nt_password = ''p'', nt_bhte = ''http://b''\<rparr>"

lemma sample_entered: "entered (EnterOptions (Some (sample_options b))) = Some sample_targets"
  by (simp add: sample_options_def sample_targets_def trimmed_def is_space_def)


section \<open>Blank endpoints\<close>

text \<open>
  Clearing the field of an endpoint disconnects the chain for good: \<^verbatim>\<open>setRpcEndpoints\<close> ignores blank endpoints, but the blank text has been
  stored, and every refresh takes it from the settings instead of falling back to the default; nothing is posted to the first chain.
\<close>

theorem blank_endpoint_disconnects:
  assumes "qt_settings q ''bhtRpcEndpoint'' = Some []" and "\<not> qt_url_valid q []"
  shows "refreshBHTState q (m, w) = (False, (m\<lparr>wm_bht := (wm_bht m)\<lparr>cs_endpoint := [], cs_connected := False,
    cs_lastError := ''Invalid RPC endpoint: ''\<rparr>\<rparr>, w))"
  using assms by (simp add: refreshBHTState_def setting_def rpcCall_def Let_def)

end
