(* ===== verification/Restart.thy ===== *)
theory Restart
  imports NodeTraffic
begin

text \<open>
  A restart of the application: a second start reads the settings that the first run has left. Language, developer
  mode, pages and endpoints are those in force when the first run ended, and until endpoints are entered requests go to them.
\<close>

lemma start_state:
  assumes "start_application q = Inr g"
  shows "stored_prefs g" and "gui_settings g = qt_settings q" and "\<exists>w. gui_wallet g = Some (new_WalletModel q, w)"
proof -
  let ?w = "Some (new_WalletModel q, \<lparr>rpc_steps = 0, rpc_posted = []\<rparr>)"
  let ?n = "\<lparr>gui_language = stored_language (qt_settings q), gui_developerMode = stored_mode (qt_settings q),
        gui_settings = qt_settings q, gui_heap = Map.empty, gui_next = 0, gui_widgets = None, gui_console = None,
        gui_wallet = None, gui_actions = True, gui_title = ''BHT Wallet Pro'', gui_message = ''Ready''\<rparr>"
  have n: "new_BHTWalletGUI (qt_settings q) = rebuildWorkspace ?n"
    by (simp add: new_BHTWalletGUI_def stored_language_def stored_mode_def)
  have "live ?n \<or> gui_widgets ?n = None \<and> gui_heap ?n = Map.empty" by simp
  then obtain g1 where g1: "rebuildWorkspace ?n = Inr g1" "gui_inv g1" "same_state ?n g1" by (rule rebuild_ok)
  let ?g1 = "setWalletActionsEnabled True (g1\<lparr>gui_wallet := ?w\<rparr>)"
  have "live ?g1" using inv_live [OF g1(2)] by (simp add: setWalletActionsEnabled_def live_def)
  then obtain g2 where g2: "show_wallet ?g1 = Inr g2" "same_state ?g1 g2" by (rule show_wallet_ok)
  have g: "g = g2" using assms n g1(1) g2(1) by (simp add: start_application_def setWalletModel_def)
  have f: "gui_language g = stored_language (qt_settings q)" "gui_developerMode g = stored_mode (qt_settings q)"
    "gui_settings g = qt_settings q" "gui_wallet g = ?w"
    using g1(3) g2(2) by (simp_all add: g same_state_def setWalletActionsEnabled_def)
  then show "stored_prefs g" "gui_settings g = qt_settings q" "\<exists>w. gui_wallet g = Some (new_WalletModel q, w)"
    by (simp_all add: stored_prefs_def)
qed

lemma new_model_aimed: "aimed (targets q) q (new_WalletModel q)"
  by (simp add: aimed_def targets_def new_WalletModel_def new_ChainState_def)

definition nonblank :: "gui_op \<Rightarrow> bool" where
  "nonblank op \<longleftrightarrow> (case entered op of None \<Rightarrow> True | Some e \<Rightarrow> nt_bht e \<noteq> [] \<and> nt_bhte e \<noteq> [])"

text \<open>An event leaves the wallet model aimed at what the settings say.\<close>

lemma exec_aimed:
  assumes "gui_inv g" and "gui_exec q op g = (r, g')" and "nonblank op" and "gui_wallet g = Some (m, w)"
    and "aimed (targets (gui_qt q g)) (gui_qt q g) m"
  shows "\<exists>m' w'. gui_wallet g' = Some (m', w') \<and> aimed (targets (gui_qt q g')) (gui_qt q g') m'"
proof -
  note eff = exec_effect [OF assms(1,2)]
  let ?s = "wallet_exec (gui_qt q g') op (m, w)"
  have w: "gui_wallet g' = Some ?s" using eff assms(4) by (simp add: effect_def)
  have "aimed (targets (gui_qt q g')) (gui_qt q g') (fst ?s)"
  proof (cases "entered op")
    case None
    then have k: "targets (gui_qt q g') = targets (gui_qt q g)" using eff by (intro targets_kept) (simp add: effect_def)
    then have "aimed (targets (gui_qt q g')) (gui_qt q g') m" using assms(5) by (simp add: aimed_def)
    with wallet_exec_reaches [OF None, of "targets (gui_qt q g')" "gui_qt q g'" "(m, w)"] show ?thesis by (simp add: reaches_def)
  next
    case (Some e)
    then have st: "endpoints_stored e (qt_settings (gui_qt q g'))" using eff by (simp add: effect_def gui_qt_def)
    obtain f :: endpoint_form where f: "nt_bht e = trimmed (ef_bhtRpc f)" "nt_bhte e = trimmed (ef_bhteRpc f)"
      "\<And>q s. wallet_exec q op s = wallet_entered q f s" using entered_wallet [OF Some] by metis
    have "nt_bht e \<noteq> []" "nt_bhte e \<noteq> []" using assms(3) Some by (simp_all add: nonblank_def)
    from wallet_entered_reaches [OF st f(1,2) this, of "(m, w)"] show ?thesis
      by (simp add: f(3) stored_targets [OF st])
  qed
  with w show ?thesis by (metis prod.collapse)
qed

lemma run_kept:
  assumes "start_application q = Inr g0" and "run (gui_exec q) g0 tr g" and "list_all (\<lambda>(op, r). nonblank op) tr"
  shows "stored_prefs g \<and> (\<exists>m w. gui_wallet g = Some (m, w) \<and> aimed (targets (gui_qt q g)) (gui_qt q g) m)"
  using assms(2,3)
proof (induction rule: run.induct)
  case run_start
  have "gui_qt q g0 = q" using start_state(2) [OF assms(1)] by (simp add: gui_qt_def)
  with start_state [OF assms(1)] new_model_aimed [of q] show ?case by metis
next
  case (run_step tr g op r g')
  then obtain m w where k: "stored_prefs g" "gui_wallet g = Some (m, w)" "aimed (targets (gui_qt q g)) (gui_qt q g) m" by auto
  have i: "gui_inv g" using run_window [OF assms(1) run_step.hyps(1)] by blast
  have "stored_prefs g'" using exec_effect [OF i run_step.hyps(2)] k(1) by (simp add: effect_def)
  moreover have "nonblank op" using run_step.prems by simp
  ultimately show ?case using exec_aimed [OF i run_step.hyps(2) _ k(2,3)] by blast
qed



text \<open>
  Requests follow the settings from the start on: in any stretch of a run in which no endpoints are entered, after one in
  which none was entered blank, every request goes to the endpoints the settings hold, with the credentials they hold for the first
  chain and with none for the second.
\<close>

theorem requests_follow_settings:
  assumes "start_application q = Inr g0" and "run (gui_exec q) g0 tr g" and "list_all (\<lambda>(op, r). nonblank op) tr"
    and "run (gui_exec q) g tr' g'" and "\<forall>(op, r)\<in>set tr'. entered op = None"
    and "gui_wallet g = Some (m, w)" and "gui_wallet g' = Some (m', w')"
  shows "only_posts (goes (targets (gui_qt q g))) w w'"
proof -
  have "gui_inv g" using run_window [OF assms(1,2)] by blast
  moreover have "aimed (targets (gui_qt q g)) (gui_qt q g) (fst (m, w))" using run_kept [OF assms(1-3)] assms(6) by auto
  ultimately show ?thesis using run_reaches [OF assms(4) _ assms(6) _ assms(5)] assms(7) by auto
qed

end
