(* ===== verification/TransactionFilter.thy ===== *)
theory TransactionFilter
  imports WalletModelProofs
begin

text \<open>
  Model of the view of the transaction history: \<^verbatim>\<open>TransactionFilterProxy\<close> and \<^verbatim>\<open>TransactionView\<close>
  (\<^verbatim>\<open>BHTWalletPro/src/qt/transactionview.cpp\<close>) and the parts of \<^verbatim>\<open>OverviewPage\<close> that compute texts (\<^verbatim>\<open>overviewpage.cpp\<close>). Dates
  of Qt are a parameter, points of time are seconds since the epoch; a copy to the clipboard is a result. The table is
  sorted by a role for which the model has no data, so the rows keep the order of the model.
\<close>

section \<open>The filter\<close>

text \<open>Conversions of variants: \<^verbatim>\<open>toLongLong\<close> of a number, \<^verbatim>\<open>toString\<close>, \<^verbatim>\<open>toBool\<close> of a number.\<close>

fun var_long :: "qvariant \<Rightarrow> int" where
  "var_long (QNum n) = n"
| "var_long _ = 0"

fun var_string :: "qvariant \<Rightarrow> string" where
  "var_string (QStr s) = s"
| "var_string (QNum n) = int_text n"
| "var_string (QBool b) = (if b then ''true'' else ''false'')"
| "var_string QNull = []"

fun var_bool :: "qvariant \<Rightarrow> bool" where
  "var_bool (QNum n) = (n \<noteq> 0)"
| "var_bool (QBool b) = b"
| "var_bool _ = False"

definition contains_nocase :: "string \<Rightarrow> string \<Rightarrow> bool" where
  "contains_nocase pat s = list_ex (\<lambda>i. starts_nocase pat (drop i s)) [0..<Suc (length s)]"

record TransactionFilterProxy =
  fp_date_from :: "int option"
  fp_date_to :: "int option"
  fp_type :: int
  fp_search :: string
  fp_min_amount :: int
  fp_show_inactive :: bool

text \<open>\<^verbatim>\<open>0xFFFFFFFF\<close> as an \<^verbatim>\<open>int\<close>.\<close>

definition ALL_TYPES :: int where
  "ALL_TYPES = - 1"

definition new_TransactionFilterProxy :: TransactionFilterProxy where
  "new_TransactionFilterProxy =
     \<lparr>fp_date_from = None, fp_date_to = None, fp_type = ALL_TYPES, fp_search = [], fp_min_amount = 0, fp_show_inactive = True\<rparr>"

definition setDateRange :: "int option \<Rightarrow> int option \<Rightarrow> TransactionFilterProxy \<Rightarrow> TransactionFilterProxy" where
  "setDateRange a b p = p\<lparr>fp_date_from := a, fp_date_to := b\<rparr>"

definition setTypeFilter :: "int \<Rightarrow> TransactionFilterProxy \<Rightarrow> TransactionFilterProxy" where
  "setTypeFilter type p = p\<lparr>fp_type := type\<rparr>"

definition setSearchString :: "string \<Rightarrow> TransactionFilterProxy \<Rightarrow> TransactionFilterProxy" where
  "setSearchString search p = p\<lparr>fp_search := search\<rparr>"

definition setMinAmount :: "int \<Rightarrow> TransactionFilterProxy \<Rightarrow> TransactionFilterProxy" where
  "setMinAmount amount p = p\<lparr>fp_min_amount := amount\<rparr>"

definition setShowInactive :: "bool \<Rightarrow> TransactionFilterProxy \<Rightarrow> TransactionFilterProxy" where
  "setShowInactive shown p = p\<lparr>fp_show_inactive := shown\<rparr>"

text \<open>A role of the row; the columns are of no concern to it.\<close>

definition row_role :: "TransactionRecord list \<Rightarrow> nat \<Rightarrow> item_role \<Rightarrow> qvariant" where
  "row_role txs i role = transaction_data (\<lambda>t. []) (transaction_index (int i) 0) role txs"

definition filterAcceptsRow :: "TransactionFilterProxy \<Rightarrow> TransactionRecord list \<Rightarrow> nat \<Rightarrow> bool" where
  "filterAcceptsRow p txs i =
     (let time = var_long (row_role txs i (OtherRole 8));
          address = var_string (row_role txs i (OtherRole 3));
          label = var_string (row_role txs i (OtherRole 4));
          txid = var_string (row_role txs i UserRole);
          amount = var_long (row_role txs i (OtherRole 5))
      in if (case fp_date_from p of None \<Rightarrow> False | Some a \<Rightarrow> time < a) then False
         else if (case fp_date_to p of None \<Rightarrow> False | Some b \<Rightarrow> time > b) then False
         else if fp_search p \<noteq> [] \<and> \<not> contains_nocase (fp_search p) address \<and> \<not> contains_nocase (fp_search p) label \<and>
                 \<not> contains_nocase (fp_search p) txid then False
         else if fp_min_amount p > 0 \<and> \<bar>amount\<bar> < fp_min_amount p then False
         else True)"

definition shown_rows :: "TransactionFilterProxy \<Rightarrow> TransactionRecord list \<Rightarrow> nat list" where
  "shown_rows p txs = filter (filterAcceptsRow p txs) [0..<length txs]"

section \<open>The view\<close>

datatype DateEnum = All | Today | ThisWeek | ThisMonth | LastMonth | ThisYear | Range

record QDate =
  q_year :: int
  q_month :: int
  q_day :: int

text \<open>Of Qt: the second at which a time of a day, in seconds, falls, the addition of days and months, and the day of the week.\<close>

record calendar =
  cal_time :: "QDate \<Rightarrow> nat \<Rightarrow> int"
  cal_addDays :: "QDate \<Rightarrow> int \<Rightarrow> QDate"
  cal_addMonths :: "QDate \<Rightarrow> int \<Rightarrow> QDate"
  cal_dayOfWeek :: "QDate \<Rightarrow> int"

record TransactionView =
  tv_proxy :: "TransactionFilterProxy option"
  tv_range_visible :: bool
  tv_range_from :: QDate
  tv_range_to :: QDate

definition first_of_month :: "QDate \<Rightarrow> QDate" where
  "first_of_month d = \<lparr>q_year = q_year d, q_month = q_month d, q_day = 1\<rparr>"

definition on_proxy :: "(TransactionFilterProxy \<Rightarrow> TransactionFilterProxy) \<Rightarrow> TransactionView \<Rightarrow> TransactionView" where
  "on_proxy f v = v\<lparr>tv_proxy := map_option f (tv_proxy v)\<rparr>"

definition dateRangeChanged :: "calendar \<Rightarrow> TransactionView \<Rightarrow> TransactionView" where
  "dateRangeChanged c v =
     on_proxy (setDateRange (Some (cal_time c (tv_range_from v) 0)) (Some (cal_time c (tv_range_to v) 86399))) v"

definition chooseDate :: "calendar \<Rightarrow> QDate \<Rightarrow> DateEnum \<Rightarrow> TransactionView \<Rightarrow> TransactionView" where
  "chooseDate c current choice v =
     (if tv_proxy v = None then v
      else let v = v\<lparr>tv_range_visible := False\<rparr>;
               midnight = (\<lambda>d. Some (cal_time c d 0))
           in case choice of
                All \<Rightarrow> on_proxy (setDateRange None None) v
              | Today \<Rightarrow> on_proxy (setDateRange (midnight current) None) v
              | ThisWeek \<Rightarrow> on_proxy (setDateRange (midnight (cal_addDays c current (- (cal_dayOfWeek c current - 1)))) None) v
              | ThisMonth \<Rightarrow> on_proxy (setDateRange (midnight (first_of_month current)) None) v
              | LastMonth \<Rightarrow> on_proxy (setDateRange (midnight (cal_addMonths c (first_of_month current) (- 1))) (midnight (first_of_month current))) v
              | ThisYear \<Rightarrow> on_proxy (setDateRange (midnight \<lparr>q_year = q_year current, q_month = 1, q_day = 1\<rparr>) None) v
              | Range \<Rightarrow> dateRangeChanged c (v\<lparr>tv_range_visible := True\<rparr>))"

text \<open>All items of the box of types carry the same value.\<close>

definition chooseType :: "int \<Rightarrow> TransactionView \<Rightarrow> TransactionView" where
  "chooseType idx v = on_proxy (setTypeFilter ALL_TYPES) v"

definition changedSearch :: "string \<Rightarrow> TransactionView \<Rightarrow> TransactionView" where
  "changedSearch text v = on_proxy (setSearchString text) v"

text \<open>The argument is the number the text of the field denotes, if it is a whole number.\<close>

definition changedAmount :: "int option \<Rightarrow> TransactionView \<Rightarrow> TransactionView" where
  "changedAmount number v = on_proxy (setMinAmount (case number of Some n \<Rightarrow> n | None \<Rightarrow> 0)) v"

definition setModel :: "bool \<Rightarrow> TransactionView \<Rightarrow> TransactionView" where
  "setModel has_table v = (if has_table then v\<lparr>tv_proxy := Some new_TransactionFilterProxy\<rparr> else v)"

text \<open>The selected row is a row of the model, if there is one; an empty text is not copied.\<close>

definition copy_role :: "item_role \<Rightarrow> TransactionRecord list \<Rightarrow> nat option \<Rightarrow> string option" where
  "copy_role role txs selected =
     (case selected of
        None \<Rightarrow> None
      | Some i \<Rightarrow> let t = var_string (row_role txs i role) in if t \<noteq> [] then Some t else None)"

definition copyAddress :: "TransactionRecord list \<Rightarrow> nat option \<Rightarrow> string option" where
  "copyAddress = copy_role (OtherRole 3)"

definition copyLabel :: "TransactionRecord list \<Rightarrow> nat option \<Rightarrow> string option" where
  "copyLabel = copy_role (OtherRole 4)"

definition copyAmount :: "TransactionRecord list \<Rightarrow> nat option \<Rightarrow> string option" where
  "copyAmount = copy_role (OtherRole 5)"

definition copyTxID :: "TransactionRecord list \<Rightarrow> nat option \<Rightarrow> string option" where
  "copyTxID = copy_role UserRole"

definition copyTxPlainText :: "TransactionRecord list \<Rightarrow> nat option \<Rightarrow> string option" where
  "copyTxPlainText txs selected =
     map_option (\<lambda>i. ''Transaction ID: '' @ var_string (row_role txs i UserRole) @ [CHR 0x0A] @
       ''Address: '' @ var_string (row_role txs i (OtherRole 3)) @ [CHR 0x0A] @
       ''Amount: '' @ var_string (row_role txs i (OtherRole 5)) @ [CHR 0x0A]) selected"

definition showDetails :: "TransactionRecord list \<Rightarrow> nat option \<Rightarrow> string option" where
  "showDetails txs selected =
     map_option (\<lambda>i. ''Transaction Details'' @ [CHR 0x0A, CHR 0x0A] @
       ''Transaction ID: '' @ var_string (row_role txs i UserRole) @ [CHR 0x0A] @
       ''Date: '' @ var_string (row_role txs i (OtherRole 8)) @ [CHR 0x0A] @
       ''Type: '' @ var_string (row_role txs i (OtherRole 9)) @ [CHR 0x0A] @
       ''Address: '' @ var_string (row_role txs i (OtherRole 3)) @ [CHR 0x0A] @
       ''Amount: '' @ var_string (row_role txs i (OtherRole 5)) @ '' BHC'' @ [CHR 0x0A]) selected"

text \<open>The row of the view that is selected for a transaction.\<close>

definition focusTransaction :: "string \<Rightarrow> TransactionFilterProxy \<Rightarrow> TransactionRecord list \<Rightarrow> nat option" where
  "focusTransaction txid p txs =
     (let rows = shown_rows p txs
      in find (\<lambda>k. var_string (row_role txs (rows ! k) UserRole) = txid) [0..<length rows])"

section \<open>The overview page\<close>

definition NUM_ITEMS :: nat where
  "NUM_ITEMS = 5"

definition formatBalance :: "bool \<Rightarrow> int \<Rightarrow> string" where
  "formatBalance privacy amount = (if privacy then ''***** BHC'' else coins_text amount @ '' BHC'')"

text \<open>The texts and the visibility of the labels.\<close>

record OverviewLabels =
  ov_balance :: string
  ov_unconfirmed :: string
  ov_immature :: "string \<times> bool"
  ov_total :: string
  ov_watch_only :: "string \<times> bool"

definition setBalance :: "bool \<Rightarrow> int \<Rightarrow> int \<Rightarrow> int \<Rightarrow> int \<Rightarrow> OverviewLabels" where
  "setBalance privacy balance unconfirmed immature watchOnly =
     \<lparr>ov_balance = formatBalance privacy balance, ov_unconfirmed = formatBalance privacy unconfirmed,
      ov_immature = (''Immature: '' @ formatBalance privacy immature, immature \<noteq> 0),
      ov_total = formatBalance privacy (balance + unconfirmed + immature),
      ov_watch_only = (''Watch-only: '' @ formatBalance privacy watchOnly, watchOnly \<noteq> 0)\<rparr>"

definition row_hidden :: "nat \<Rightarrow> bool" where
  "row_hidden i \<longleftrightarrow> i \<ge> NUM_ITEMS"

definition paint_amount :: "TransactionRecord list \<Rightarrow> nat \<Rightarrow> string" where
  "paint_amount txs i =
     (let amountText = coins_text (var_long (row_role txs i (OtherRole 5))) @ '' BHC''
      in if var_bool (row_role txs i (OtherRole 6)) then amountText else ''['' @ amountText @ '']'')"

section \<open>What the filter shows\<close>

lemma row_role_nth: "i < length txs \<Longrightarrow> role \<noteq> DisplayRole \<Longrightarrow> row_role txs i role = transaction_role role (txs ! i)"
  by (simp add: row_role_def transaction_data_def transaction_index_def isValid_def)

text \<open>The records a filter is meant to show: those in the period whose text matches and whose amount is large enough.\<close>

definition wanted :: "TransactionFilterProxy \<Rightarrow> TransactionRecord \<Rightarrow> bool" where
  "wanted p tx \<longleftrightarrow>
     (\<forall>a. fp_date_from p = Some a \<longrightarrow> a \<le> tr_time tx) \<and> (\<forall>b. fp_date_to p = Some b \<longrightarrow> tr_time tx \<le> b) \<and>
     (fp_search p = [] \<or> contains_nocase (fp_search p) (tr_address tx) \<or> contains_nocase (fp_search p) (tr_narration tx) \<or>
        contains_nocase (fp_search p) (tr_txid tx)) \<and>
     fp_min_amount p \<le> \<bar>shown_amount tx\<bar>"

lemma accepts_wanted:
  assumes "i < length txs"
  shows "filterAcceptsRow p txs i = wanted p (txs ! i)"
proof -
  have "(0 < fp_min_amount p \<and> \<bar>x\<bar> < fp_min_amount p) \<longleftrightarrow> \<not> fp_min_amount p \<le> \<bar>x\<bar>" for x :: int by auto
  with assms show ?thesis
    by (auto simp: filterAcceptsRow_def wanted_def row_role_nth transaction_role_def Let_def split: option.splits)
qed

text \<open>
  The table shows exactly the records in the chosen period that match the search and reach the least amount, in the
  order of the history; the type of the records and the choice to hide inactive ones have no influence.
\<close>

theorem filter_shows_wanted:
  "map ((!) txs) (shown_rows p txs) = filter (wanted p) txs \<and>
   shown_rows (setShowInactive b (setTypeFilter t p)) txs = shown_rows p txs"
proof -
  have f: "shown_rows p txs = filter (\<lambda>i. wanted p (txs ! i)) [0..<length txs]" for p
    unfolding shown_rows_def by (rule filter_cong) (simp_all add: accepts_wanted)
  have "map ((!) txs) (filter (\<lambda>i. wanted p (txs ! i)) [0..<length txs]) = filter (wanted p) (map ((!) txs) [0..<length txs])"
    by (simp add: filter_map o_def)
  then have "map ((!) txs) (shown_rows p txs) = filter (wanted p) txs" by (simp only: f map_nth)
  moreover have "wanted (setShowInactive b (setTypeFilter t p)) = wanted p"
    by (simp add: wanted_def fun_eq_iff setShowInactive_def setTypeFilter_def)
  ultimately show ?thesis by (simp add: f)
qed

text \<open>
  A record is shown both for the last month and for this month exactly if it is of the first second of this month: the
  periods overlap there.
\<close>

theorem months_overlap:
  assumes "tv_proxy v = Some p" and "fp_search p = []" and "fp_min_amount p \<le> 0"
    and "cal_time c (cal_addMonths c (first_of_month d) (- 1)) 0 \<le> cal_time c (first_of_month d) 0"
  shows "tx \<in> set (filter (wanted (the (tv_proxy (chooseDate c d LastMonth v)))) txs) \<and>
     tx \<in> set (filter (wanted (the (tv_proxy (chooseDate c d ThisMonth v)))) txs) \<longleftrightarrow>
     tx \<in> set txs \<and> tr_time tx = cal_time c (first_of_month d) 0"
  using assms by (auto simp: chooseDate_def on_proxy_def setDateRange_def wanted_def Let_def)

definition sample_calendar :: calendar where
  "sample_calendar =
     \<lparr>cal_time = (\<lambda>d s. (q_month d * 31 + q_day d) * 86400 + int s), cal_addDays = (\<lambda>d n. d\<lparr>q_day := q_day d + n\<rparr>),
      cal_addMonths = (\<lambda>d n. d\<lparr>q_month := q_month d + n\<rparr>), cal_dayOfWeek = (\<lambda>d. 1)\<rparr>"

theorem months_overlap_witness:
  "\<exists>v tx. tx \<in> set (filter (wanted (the (tv_proxy (chooseDate sample_calendar \<lparr>q_year = 2026, q_month = 5, q_day = 7\<rparr> LastMonth v)))) [tx]) \<and>
     tx \<in> set (filter (wanted (the (tv_proxy (chooseDate sample_calendar \<lparr>q_year = 2026, q_month = 5, q_day = 7\<rparr> ThisMonth v)))) [tx])"
proof -
  let ?d = "\<lparr>q_year = 2026, q_month = 5, q_day = 7\<rparr>"
  let ?v = "setModel True \<lparr>tv_proxy = None, tv_range_visible = False, tv_range_from = ?d, tv_range_to = ?d\<rparr>"
  let ?tx = "new_TransactionRecord\<lparr>tr_time := cal_time sample_calendar (first_of_month ?d) 0\<rparr>"
  have order: "cal_time sample_calendar (cal_addMonths sample_calendar (first_of_month ?d) (- 1)) 0 \<le> cal_time sample_calendar (first_of_month ?d) 0"
    by (simp add: sample_calendar_def first_of_month_def)
  have p: "tv_proxy ?v = Some new_TransactionFilterProxy" "fp_search new_TransactionFilterProxy = []" "fp_min_amount new_TransactionFilterProxy \<le> 0"
    by (simp_all add: setModel_def new_TransactionFilterProxy_def)
  have "?tx \<in> set [?tx] \<and> tr_time ?tx = cal_time sample_calendar (first_of_month ?d) 0" by simp
  then have "?tx \<in> set (filter (wanted (the (tv_proxy (chooseDate sample_calendar ?d LastMonth ?v)))) [?tx]) \<and>
     ?tx \<in> set (filter (wanted (the (tv_proxy (chooseDate sample_calendar ?d ThisMonth ?v)))) [?tx])"
    by (rule iffD2 [OF months_overlap [OF p order]])
  then show ?thesis by blast
qed

text \<open>
  No record that comes from the nodes is ever marked as unconfirmed on the overview page: the mark depends on the status
  being zero, the code of a status that no synchronised record has.
\<close>

lemma synchronised_status: "tx_status_code (txStatusFromConfirmations n) \<noteq> 0"
  by (simp add: txStatusFromConfirmations_def tx_status_code_def)

theorem overview_never_marks_unconfirmed:
  assumes "i < length txs" and "txs ! i \<in> range (bht_record q) \<union> range (bhte_record q account)"
  shows "paint_amount txs i = coins_text (shown_amount (txs ! i)) @ '' BHC''"
proof -
  have "\<exists>n. tr_status (txs ! i) = txStatusFromConfirmations n"
    using assms(2) by (auto simp: bht_record_def bhte_record_def Let_def)
  then have "tx_status_code (tr_status (txs ! i)) \<noteq> 0" using synchronised_status by metis
  then show ?thesis using assms(1) by (simp add: paint_amount_def row_role_nth transaction_role_def Let_def)
qed

theorem overview_never_marks_unconfirmed_witness:
  "tr_status (bht_record sample_qt JNull) = Unconfirmed \<and> paint_amount [bht_record sample_qt JNull] 0 = coins_text 0 @ '' BHC''"
proof -
  have "tr_status (bht_record sample_qt JNull) = Unconfirmed" "shown_amount (bht_record sample_qt JNull) = 0"
    by (simp_all add: bht_record_def sample_qt_def txStatusFromConfirmations_def shown_amount_def new_TransactionRecord_def jvalue_def
        amountFromJson_def trimmed_def Let_def)
  with overview_never_marks_unconfirmed [of 0 "[bht_record sample_qt JNull]" sample_qt "[]"] show ?thesis by simp
qed

end
