(* ===== verification/ClientState.thy ===== *)
theory ClientState
  imports Binary64 StateMachine
begin

text \<open>
  Model of \<^verbatim>\<open>ClientModel\<close> (\<^verbatim>\<open>BHTWalletPro/src/qt/clientmodel.cpp\<close>): what the wallet shows of the network. Signals are left out,
  the clock and the settings are arguments. The counter of blocks is an integer; at one block per second it reaches the end of
  \<^verbatim>\<open>int\<close> after 68 years.
\<close>

section \<open>State and operations\<close>

record ClientModel =
  cm_num_connections :: int
  cm_num_blocks :: int
  cm_last_block_date :: "int option"
  cm_verification_progress :: rat
  cm_network_active :: bool
  cm_status_bar_warnings :: string

datatype BlockSource = BLOCK_SOURCE_NONE | BLOCK_SOURCE_REINDEX | BLOCK_SOURCE_DISK | BLOCK_SOURCE_NETWORK

definition new_ClientModel :: ClientModel where
  "new_ClientModel =
     \<lparr>cm_num_connections = 0, cm_num_blocks = 0, cm_last_block_date = None, cm_verification_progress = 0, cm_network_active = True,
      cm_status_bar_warnings = []\<rparr>"

definition getNumConnections :: "ClientModel \<Rightarrow> int" where
  "getNumConnections m = cm_num_connections m"

definition getNumBlocks :: "ClientModel \<Rightarrow> int" where
  "getNumBlocks m = cm_num_blocks m"

definition getVerificationProgress :: "ClientModel \<Rightarrow> rat" where
  "getVerificationProgress m = cm_verification_progress m"

definition setNetworkActive :: "bool \<Rightarrow> ClientModel \<Rightarrow> ClientModel" where
  "setNetworkActive active m = (if cm_network_active m \<noteq> active then m\<lparr>cm_network_active := active\<rparr> else m)"

definition updateNumConnections :: "int \<Rightarrow> ClientModel \<Rightarrow> ClientModel" where
  "updateNumConnections n m = (if cm_num_connections m \<noteq> n then m\<lparr>cm_num_connections := n\<rparr> else m)"

definition updateNetworkActive :: "bool \<Rightarrow> ClientModel \<Rightarrow> ClientModel" where
  "updateNetworkActive active m = (if cm_network_active m \<noteq> active then m\<lparr>cm_network_active := active\<rparr> else m)"

definition updateTimer :: "int \<Rightarrow> ClientModel \<Rightarrow> ClientModel" where
  "updateTimer now m =
     m\<lparr>cm_num_blocks := cm_num_blocks m + 1,
       cm_verification_progress := min 1 (fl (cm_verification_progress m + fl (1 / 1000))),
       cm_last_block_date := Some now\<rparr>"

definition getProxyInfo :: "(string \<rightharpoonup> string) \<Rightarrow> string option" where
  "getProxyInfo settings = (case settings ''proxy'' of None \<Rightarrow> None | Some p \<Rightarrow> if p \<noteq> [] then Some p else None)"

definition getHeaderTipHeight :: "(int option \<Rightarrow> int) \<Rightarrow> ClientModel \<Rightarrow> bool \<times> int \<times> int" where
  "getHeaderTipHeight toSecs m = (True, cm_num_blocks m, toSecs (cm_last_block_date m))"

definition getBlockSource :: BlockSource where
  "getBlockSource = BLOCK_SOURCE_NETWORK"

definition getNetworkName :: string where
  "getNetworkName = ''main''"

section \<open>Runs\<close>

datatype client_op = Tick int | SetActive bool | Connections int | UpdateActive bool

fun client_exec :: "client_op \<Rightarrow> ClientModel \<Rightarrow> unit \<times> ClientModel" where
  "client_exec (Tick now) m = ((), updateTimer now m)"
| "client_exec (SetActive b) m = ((), setNetworkActive b m)"
| "client_exec (Connections n) m = ((), updateNumConnections n m)"
| "client_exec (UpdateActive b) m = ((), updateNetworkActive b m)"

definition is_tick :: "client_op \<Rightarrow> bool" where
  "is_tick op = (case op of Tick now \<Rightarrow> True | _ \<Rightarrow> False)"

definition ticks :: "(client_op \<times> unit) list \<Rightarrow> nat" where
  "ticks tr = length (filter (is_tick \<circ> fst) tr)"

text \<open>One tick raises the progress by a thousandth, up to the rounding of two operations.\<close>

definition tick_gain :: rat where
  "tick_gain = 1 / 1000 - 1 / 2 ^ 52"

lemma tick_progress:
  assumes "0 \<le> x" and "x \<le> 1"
  shows "min 1 (x + tick_gain) \<le> min 1 (fl (x + fl (1 / 1000)))" "0 \<le> fl (x + fl (1 / 1000))"
proof -
  let ?c = "fl (1 / 1000) :: rat"
  have c: "\<bar>?c - 1 / 1000\<bar> \<le> two_to (1 - 54)" by (rule fl_error_below) (simp_all add: two_to_def)
  have c0: "0 \<le> ?c" by (intro fl_nonneg) simp
  have e: "two_to (1 - 54) = 1 / 2 ^ 53" by (simp add: two_to_def)
  have "?c \<le> 1 / 1000 + 1 / 2 ^ 53" using c unfolding e by linarith
  moreover have "(1 / 1000 + 1 / 2 ^ 53 :: rat) < 1" by simp
  ultimately have "x + ?c < 2" using assms(2) by linarith
  then have "x + ?c < two_to 1" by (simp add: two_to_def)
  then have s: "\<bar>fl (x + ?c) - (x + ?c)\<bar> \<le> two_to (1 - 54)" using assms(1) c0 by (intro fl_error_below) simp_all
  have "(1 / 2 ^ 52 :: rat) = 1 / 2 ^ 53 + 1 / 2 ^ 53" by simp
  with s c have "x + tick_gain \<le> fl (x + ?c)" unfolding e tick_gain_def abs_le_iff by linarith
  then show "min 1 (x + tick_gain) \<le> min 1 (fl (x + ?c))" by (rule min.mono [OF order_refl])
  show "0 \<le> fl (x + ?c)" using assms(1) c0 by (intro fl_nonneg) simp
qed

definition counts_ticks :: "nat \<Rightarrow> ClientModel \<Rightarrow> bool" where
  "counts_ticks n m \<longleftrightarrow>
     cm_num_blocks m = int n \<and> 0 \<le> cm_verification_progress m \<and> cm_verification_progress m \<le> 1 \<and>
     min 1 (of_nat n * tick_gain) \<le> cm_verification_progress m"

lemma counts_ticks_step:
  assumes "counts_ticks n m" and "client_exec op m = (r, m')"
  shows "counts_ticks (if is_tick op then Suc n else n) m'"
proof (cases op)
  case (Tick now)
  let ?x = "cm_verification_progress m"
  have x: "0 \<le> ?x" "?x \<le> 1" "min 1 (of_nat n * tick_gain) \<le> ?x" using assms(1) by (simp_all add: counts_ticks_def)
  have "0 \<le> tick_gain" by (simp add: tick_gain_def)
  then have "min 1 (of_nat (Suc n) * tick_gain) \<le> min 1 (?x + tick_gain)" using x(3) by (auto simp: algebra_simps min_def split: if_splits)
  with tick_progress [OF x(1,2)] assms Tick show ?thesis
    by (auto simp: counts_ticks_def updateTimer_def is_tick_def min_def split: if_splits)
qed (use assms in \<open>auto simp: counts_ticks_def setNetworkActive_def updateNumConnections_def updateNetworkActive_def is_tick_def\<close>)

lemma run_counts_ticks: "run client_exec new_ClientModel tr m \<Longrightarrow> counts_ticks (ticks tr) m"
proof (induction rule: run.induct)
  case run_start
  show ?case by (simp add: counts_ticks_def ticks_def new_ClientModel_def)
next
  case (run_step tr m op r m')
  from counts_ticks_step [OF run_step.IH run_step.hyps(2)] show ?case by (simp add: ticks_def split: if_splits)
qed

text \<open>
  The height and the progress of the synchronisation that the wallet shows are the time since its start: the height is the
  number of ticks of the timer, and after 1001 ticks the progress is complete, whatever the number of connections and
  whether or not the network is active.
\<close>

theorem client_progress_is_time:
  assumes "run client_exec new_ClientModel tr m"
  shows "getNumBlocks m = int (ticks tr) \<and> 0 \<le> getVerificationProgress m \<and> getVerificationProgress m \<le> 1 \<and>
    (ticks tr \<ge> 1001 \<longrightarrow> getVerificationProgress m = 1)"
proof -
  have c: "counts_ticks (ticks tr) m" by (rule run_counts_ticks [OF assms])
  have "cm_verification_progress m = 1" if "ticks tr \<ge> 1001"
  proof -
    have "(1001 :: rat) * tick_gain \<le> of_nat (ticks tr) * tick_gain"
      using that by (intro mult_right_mono) (simp_all add: tick_gain_def)
    moreover have "1 \<le> (1001 :: rat) * tick_gain" by (simp add: tick_gain_def)
    ultimately have "min 1 (of_nat (ticks tr) * tick_gain) = 1" by linarith
    then show ?thesis using c by (simp add: counts_ticks_def)
  qed
  with c show ?thesis by (simp add: counts_ticks_def getNumBlocks_def getVerificationProgress_def)
qed

theorem client_progress_is_time_witness:
  "getVerificationProgress (snd (exec_all client_exec (SetActive False # replicate 1001 (Tick 0)) new_ClientModel)) = 1"
proof -
  have "fst ` set (fst (exec_all client_exec (replicate k (Tick 0)) m)) \<subseteq> {Tick 0} \<and> length (fst (exec_all client_exec (replicate k (Tick 0)) m)) = k" for k m
    by (induction k arbitrary: m) (auto simp: split_beta Let_def)
  then have "ticks (fst (exec_all client_exec (replicate k (Tick 0)) m)) = k" for k m
  proof -
    assume *: "\<And>k m. fst ` set (fst (exec_all client_exec (replicate k (Tick 0)) m)) \<subseteq> {Tick 0} \<and> length (fst (exec_all client_exec (replicate k (Tick 0)) m)) = k"
    from * [of k m] have "filter (is_tick \<circ> fst) (fst (exec_all client_exec (replicate k (Tick 0)) m)) = fst (exec_all client_exec (replicate k (Tick 0)) m)"
      by (intro filter_True) (auto simp: is_tick_def)
    with * [of k m] show ?thesis by (simp add: ticks_def)
  qed
  then have "ticks (fst (exec_all client_exec (SetActive False # replicate 1001 (Tick 0)) new_ClientModel)) \<ge> 1001"
    by (simp add: ticks_def split_beta Let_def)
  with client_progress_is_time [OF run_exec_all] show ?thesis by blast
qed

end
