(* ===== verification/Overview.thy ===== *)
theory Overview
  imports TransactionFilter ClientState
begin

text \<open>
  Model of the overview page (\<^verbatim>\<open>BHTWalletPro/src/qt/overviewpage.cpp\<close>) as a component with a state, connected to the table of the
  wallet model and to the client model, and of the remaining actions of \<^verbatim>\<open>TransactionView\<close>. The rows that \<^verbatim>\<open>setRowHidden\<close> hides
  are a set of row numbers of the list; a reset of the model behind a list makes all its rows visible. The table only ever changes by a reset.
\<close>

section \<open>State\<close>

record overview_page =
  pg_wallet :: bool
  pg_client :: bool
  pg_connected :: bool
  pg_filter :: "TransactionFilterProxy option"
  pg_privacy :: bool
  pg_labels :: OverviewLabels
  pg_list_visible :: bool
  pg_hidden :: "nat set"
  pg_alert :: "string \<times> bool"
  pg_sync_icons :: "bool \<times> bool"

definition new_OverviewPage :: overview_page where
  "new_OverviewPage =
     \<lparr>pg_wallet = False, pg_client = False, pg_connected = False, pg_filter = None, pg_privacy = False,
      pg_labels = \<lparr>ov_balance = ''0.00000000 BHC'', ov_unconfirmed = ''0.00000000 BHC'',
        ov_immature = (''Immature: 0.00000000 BHC'', False), ov_total = ''0.00000000 BHC'', ov_watch_only = (''Watch-only: 0.00000000 BHC'', False)\<rparr>,
      pg_list_visible = True, pg_hidden = {}, pg_alert = ([], False), pg_sync_icons = (True, True)\<rparr>"

section \<open>Operations\<close>

definition limitTransactionRows :: "TransactionRecord list \<Rightarrow> overview_page \<Rightarrow> overview_page" where
  "limitTransactionRows txs p =
     (case pg_filter p of
        None \<Rightarrow> p
      | Some f \<Rightarrow>
          p\<lparr>pg_hidden := fold (\<lambda>i hidden. if row_hidden i then insert i hidden else hidden - {i}) [0..<length (shown_rows f txs)] (pg_hidden p)\<rparr>)"

definition page_setWalletModel :: "TransactionRecord list \<Rightarrow> bool \<Rightarrow> overview_page \<Rightarrow> overview_page" where
  "page_setWalletModel txs model p =
     (let p = p\<lparr>pg_wallet := model\<rparr>
      in if \<not> model then p
         else limitTransactionRows txs
           (p\<lparr>pg_filter := Some (setShowInactive False new_TransactionFilterProxy), pg_hidden := {}\<rparr>))"

definition updateAlerts :: "string \<Rightarrow> overview_page \<Rightarrow> overview_page" where
  "updateAlerts warnings p = p\<lparr>pg_alert := (warnings, warnings \<noteq> [])\<rparr>"

definition page_setClientModel :: "ClientModel option \<Rightarrow> overview_page \<Rightarrow> overview_page" where
  "page_setClientModel model p =
     (case model of
        None \<Rightarrow> p\<lparr>pg_client := False\<rparr>
      | Some c \<Rightarrow> updateAlerts (cm_status_bar_warnings c) (p\<lparr>pg_client := True, pg_connected := True\<rparr>))"

definition page_setBalance :: "int \<Rightarrow> int \<Rightarrow> int \<Rightarrow> int \<Rightarrow> overview_page \<Rightarrow> overview_page" where
  "page_setBalance balance unconfirmed immature watchOnly p =
     p\<lparr>pg_labels := setBalance (pg_privacy p) balance unconfirmed immature watchOnly\<rparr>"

definition setPrivacy :: "bool \<Rightarrow> overview_page \<Rightarrow> overview_page" where
  "setPrivacy privacy p = p\<lparr>pg_privacy := privacy, pg_list_visible := \<not> privacy\<rparr>"

definition handleTransactionClicked :: "TransactionRecord list \<Rightarrow> nat \<Rightarrow> overview_page \<Rightarrow> nat option" where
  "handleTransactionClicked txs index p =
     (case pg_filter p of
        None \<Rightarrow> None
      | Some f \<Rightarrow> let rows = shown_rows f txs in if index < length rows then Some (rows ! index) else None)"

definition showOutOfSyncWarning :: "bool \<Rightarrow> overview_page \<Rightarrow> overview_page" where
  "showOutOfSyncWarning shown p = p\<lparr>pg_sync_icons := (shown, shown)\<rparr>"

text \<open>What the list shows: rows of the table.\<close>

definition visible_rows :: "TransactionRecord list \<Rightarrow> overview_page \<Rightarrow> nat list" where
  "visible_rows txs p =
     (case pg_filter p of
        None \<Rightarrow> []
      | Some f \<Rightarrow> let rows = shown_rows f txs in map ((!) rows) (filter (\<lambda>i. i \<notin> pg_hidden p) [0..<length rows]))"

section \<open>Runs\<close>

text \<open>
  The page with the table of the wallet model and the client model. \<open>Synchronised\<close> is a reset of the table,
  \<open>AnnounceAlert\<close> the slot \<^verbatim>\<open>ClientModel::updateAlert\<close>. The result is the row a click announces.
\<close>

record overview_state =
  os_page :: overview_page
  os_table :: "TransactionRecord list"
  os_client :: ClientModel

datatype overview_op =
    AttachWallet bool | AttachClient bool | NewBalance int int int int | SetPrivacy bool | Clicked nat | OutOfSync bool
  | Synchronised "TransactionRecord list" | ClientStep client_op | AnnounceAlert

fun overview_exec :: "overview_op \<Rightarrow> overview_state \<Rightarrow> nat option \<times> overview_state" where
  "overview_exec (AttachWallet model) s = (None, s\<lparr>os_page := page_setWalletModel (os_table s) model (os_page s)\<rparr>)"
| "overview_exec (AttachClient model) s =
     (None, s\<lparr>os_page := page_setClientModel (if model then Some (os_client s) else None) (os_page s)\<rparr>)"
| "overview_exec (NewBalance b u i w) s = (None, s\<lparr>os_page := page_setBalance b u i w (os_page s)\<rparr>)"
| "overview_exec (SetPrivacy b) s = (None, s\<lparr>os_page := setPrivacy b (os_page s)\<rparr>)"
| "overview_exec (Clicked row) s = (handleTransactionClicked (os_table s) row (os_page s), s)"
| "overview_exec (OutOfSync b) s = (None, s\<lparr>os_page := showOutOfSyncWarning b (os_page s)\<rparr>)"
| "overview_exec (Synchronised txs) s = (None, s\<lparr>os_table := txs, os_page := (os_page s)\<lparr>pg_hidden := {}\<rparr>\<rparr>)"
| "overview_exec (ClientStep op) s = (None, s\<lparr>os_client := snd (client_exec op (os_client s))\<rparr>)"
| "overview_exec AnnounceAlert s =
     (None, if pg_connected (os_page s) then s\<lparr>os_page := updateAlerts (cm_status_bar_warnings (os_client s)) (os_page s)\<rparr> else s)"

definition overview_start :: "TransactionRecord list \<Rightarrow> overview_state" where
  "overview_start txs = \<lparr>os_page = new_OverviewPage, os_table = txs, os_client = new_ClientModel\<rparr>"

section \<open>Rows and alerts\<close>

lemma limit_hides:
  "fold (\<lambda>i hidden. if row_hidden i then insert i hidden else hidden - {i}) [0..<n] {} = {NUM_ITEMS..<n}"
  by (induction n) (auto simp: row_hidden_def NUM_ITEMS_def)

lemma filter_below: "filter (\<lambda>i. i \<notin> {k..<n}) [0..<n] = [0..<min k n]"
proof (induction n)
  case (Suc n)
  have "filter (\<lambda>i. i \<notin> {k..<Suc n}) [0..<n] = filter (\<lambda>i. i \<notin> {k..<n}) [0..<n]" by (rule filter_cong) auto
  with Suc show ?case by (auto simp: min_def le_Suc_eq)
qed simp

text \<open>Whether the wallet model was attached after the last reset of the table.\<close>

definition limited_step :: "overview_op \<Rightarrow> bool \<Rightarrow> bool" where
  "limited_step op b = (case op of AttachWallet model \<Rightarrow> model \<or> b | Synchronised txs \<Rightarrow> False | _ \<Rightarrow> b)"

definition limited :: "(overview_op \<times> 'r) list \<Rightarrow> bool" where
  "limited tr = fold (\<lambda>(op, r). limited_step op) tr False"

definition page_filter :: TransactionFilterProxy where
  "page_filter = setShowInactive False new_TransactionFilterProxy"

definition overview_inv :: "bool \<Rightarrow> overview_state \<Rightarrow> bool" where
  "overview_inv b s \<longleftrightarrow>
     pg_filter (os_page s) \<in> {None, Some page_filter} \<and>
     pg_hidden (os_page s) = (if b then {NUM_ITEMS..<length (shown_rows page_filter (os_table s))} else {}) \<and>
     (b \<longrightarrow> pg_filter (os_page s) = Some page_filter) \<and>
     pg_list_visible (os_page s) = (\<not> pg_privacy (os_page s)) \<and>
     pg_alert (os_page s) = ([], False) \<and> cm_status_bar_warnings (os_client s) = []"

lemma client_warnings: "cm_status_bar_warnings (snd (client_exec op c)) = cm_status_bar_warnings c"
  by (cases op)
    (simp_all add: updateTimer_def setNetworkActive_def updateNumConnections_def updateNetworkActive_def)

lemma overview_step: "overview_inv b s \<Longrightarrow> overview_inv (limited_step op b) (snd (overview_exec op s))"
  by (cases op)
    (auto simp: overview_inv_def limited_step_def page_setWalletModel_def limitTransactionRows_def limit_hides page_filter_def [symmetric]
      page_setClientModel_def updateAlerts_def page_setBalance_def setPrivacy_def showOutOfSyncWarning_def client_warnings Let_def)

lemma run_overview: "run overview_exec (overview_start txs) tr s \<Longrightarrow> overview_inv (limited tr) s"
proof (induction rule: run.induct)
  case run_start
  show ?case by (simp add: overview_inv_def overview_start_def limited_def new_OverviewPage_def new_ClientModel_def)
next
  case (run_step tr s op r s')
  then show ?case using overview_step [of "limited tr" s op] by (simp add: limited_def)
qed

interpretation overview: kept_invariant overview_exec "\<lambda>s. \<exists>b. overview_inv b s"
  using overview_step by unfold_locales (metis snd_conv)

text \<open>The filter of the page accepts every row.\<close>

lemma page_filter_rows: "shown_rows page_filter txs = [0..<length txs]"
  by (simp add: shown_rows_def filter_id_conv accepts_wanted wanted_def page_filter_def setShowInactive_def new_TransactionFilterProxy_def)

section \<open>Properties\<close>

text \<open>
  The overview shows the five newest transactions only until the first synchronisation: in every run, once a wallet model has been attached, the list
  shows the first five rows of the table if it was attached after the last reset of the table, and all rows
  otherwise. The limit is connected to the insertion and removal of rows, but the table announces resets.
\<close>

theorem overview_limit_lost:
  assumes "run overview_exec (overview_start txs) tr s" and "pg_filter (os_page s) \<noteq> None"
  shows "visible_rows (os_table s) (os_page s) = [0..<(if limited tr then min NUM_ITEMS (length (os_table s)) else length (os_table s))]"
proof -
  note i = run_overview [OF assms(1), unfolded overview_inv_def page_filter_rows]
  have f: "pg_filter (os_page s) = Some page_filter" using i assms(2) by auto
  have "map ((!) [0..<n]) (filter P [0..<n]) = filter P [0..<n]" for n P
    by (rule map_idI) auto
  then have v: "visible_rows (os_table s) (os_page s) = filter (\<lambda>i. i \<notin> pg_hidden (os_page s)) [0..<length (os_table s)]"
    by (simp add: visible_rows_def f page_filter_rows)
  show ?thesis
  proof (cases "limited tr")
    case True
    then have h: "pg_hidden (os_page s) = {NUM_ITEMS..<length (os_table s)}" using i by simp
    show ?thesis unfolding v h filter_below using True by simp
  next
    case False
    then have h: "pg_hidden (os_page s) = {}" using i by simp
    show ?thesis unfolding v h using False by simp
  qed
qed

theorem overview_limit_lost_witness:
  "visible_rows (replicate 9 new_TransactionRecord)
     (os_page (snd (exec_all overview_exec [AttachWallet True, Synchronised (replicate 9 new_TransactionRecord)] (overview_start [])))) = [0..<9]"
proof -
  let ?x = "exec_all overview_exec [AttachWallet True, Synchronised (replicate 9 new_TransactionRecord)] (overview_start [])"
  have "run overview_exec (overview_start []) (fst ?x) (snd ?x)" by (rule run_exec_all)
  moreover have "pg_filter (os_page (snd ?x)) \<noteq> None" "\<not> limited (fst ?x)" "os_table (snd ?x) = replicate 9 new_TransactionRecord"
    by (simp_all add: page_setWalletModel_def limitTransactionRows_def limited_def limited_step_def Let_def)
  ultimately show ?thesis using overview_limit_lost [of "[]" "fst ?x" "snd ?x"] by simp
qed

text \<open>
  No alert is ever shown and the privacy setting always decides whether the list is visible; but it does not touch
  the labels: whatever the balance, switching it on leaves the amount in the label.
\<close>

theorem overview_privacy:
  "(run overview_exec (overview_start txs) tr s \<longrightarrow> pg_alert (os_page s) = ([], False) \<and> pg_list_visible (os_page s) = (\<not> pg_privacy (os_page s))) \<and>
   (\<exists>tr s. run overview_exec (overview_start txs) tr s \<and> pg_privacy (os_page s) \<and> ov_balance (pg_labels (os_page s)) = coins_text n @ '' BHC'')"
proof -
  have "pg_alert (os_page s) = ([], False) \<and> pg_list_visible (os_page s) = (\<not> pg_privacy (os_page s))"
    if "run overview_exec (overview_start txs) tr s"
    using run_overview [OF that] by (simp add: overview_inv_def)
  moreover
  let ?x = "exec_all overview_exec [NewBalance n 0 0 0, SetPrivacy True] (overview_start txs)"
  have "run overview_exec (overview_start txs) (fst ?x) (snd ?x)" by (rule run_exec_all)
  moreover have "pg_privacy (os_page (snd ?x)) \<and> ov_balance (pg_labels (os_page (snd ?x))) = coins_text n @ '' BHC''"
    by (simp add: page_setBalance_def setPrivacy_def setBalance_def formatBalance_def overview_start_def new_OverviewPage_def)
  ultimately show ?thesis by blast
qed

section \<open>Actions of the transaction view\<close>

text \<open>The menu opens on a row if a row is selected; it then offers every action.\<close>

definition contextualMenu :: "bool \<Rightarrow> nat option \<Rightarrow> bool" where
  "contextualMenu index_valid selected = (index_valid \<and> selected \<noteq> None)"

text \<open>The messages the actions report; they have no other effect.\<close>

definition abandonTx :: "bool \<Rightarrow> (string \<times> string) option" where
  "abandonTx confirmed = (if confirmed then Some (''Abandon Transaction'', ''Transaction abandoned.'') else None)"

definition exportClicked :: "string option \<Rightarrow> (string \<times> string) option" where
  "exportClicked filename = map_option (\<lambda>f. (''Export'', ''Transaction history exported to '' @ f)) filename"

text \<open>\<^verbatim>\<open>QString::replace\<close> of every occurrence of a text that is not empty.\<close>

function replace_all :: "string \<Rightarrow> string \<Rightarrow> string \<Rightarrow> string" where
  "replace_all pat new [] = []"
| "replace_all pat new (c # cs) =
     (if pat \<noteq> [] \<and> starts_with pat (c # cs) then new @ replace_all pat new (drop (length pat) (c # cs))
      else c # replace_all pat new cs)"
  by pat_completeness auto
termination by (relation "measure (\<lambda>(pat, new, s). length s)") (auto simp: neq_Nil_conv)

definition openThirdPartyTxUrl :: "string \<Rightarrow> TransactionRecord list \<Rightarrow> nat option \<Rightarrow> string option" where
  "openThirdPartyTxUrl url txs selected =
     map_option (\<lambda>i. replace_all ''%s'' (var_string (row_role txs i UserRole)) url) selected"

lemma replace_none: "CHR ''%'' \<notin> set s \<Longrightarrow> replace_all ''%s'' new s = s"
  by (induction s) auto

lemma replace_once:
  "CHR ''%'' \<notin> set a \<Longrightarrow> CHR ''%'' \<notin> set b \<Longrightarrow> replace_all ''%s'' new (a @ ''%s'' @ b) = a @ new @ b"
  by (induction a) (auto simp: replace_none)

text \<open>
  The address of a transaction at a third party is the template with the identifier of the selected transaction in the place of its mark,
  whatever the identifier is.
\<close>

theorem third_party_url:
  assumes "i < length txs" and "CHR ''%'' \<notin> set a" and "CHR ''%'' \<notin> set b"
  shows "openThirdPartyTxUrl (a @ ''%s'' @ b) txs (Some i) = Some (a @ tr_txid (txs ! i) @ b)"
  using assms replace_once [OF assms(2,3)] by (simp add: openThirdPartyTxUrl_def row_role_nth transaction_role_def)

end
