(* ===== verification/Options.thy ===== *)
theory Options
  imports StateMachine
begin

text \<open>
  Model of \<^verbatim>\<open>OptionsModel\<close> (\<^verbatim>\<open>BHTWalletPro/src/qt/optionsmodel.cpp\<close>): the options of the wallet and the settings they are
  stored in. A setting is a variant; the conversions of variants are those of Qt, a parameter. Signals are left out.
\<close>

section \<open>Data\<close>

datatype variant = VBool bool | VInt int | VStr string | VFont string

text \<open>The conversions \<^verbatim>\<open>toBool\<close>, \<^verbatim>\<open>toInt\<close>, \<^verbatim>\<open>toString\<close> and \<^verbatim>\<open>value<QFont>\<close>; a font is its description.\<close>

record conversions =
  vt_bool :: "variant \<Rightarrow> bool"
  vt_int :: "variant \<Rightarrow> int"
  vt_str :: "variant \<Rightarrow> string"
  vt_font :: "variant \<Rightarrow> string"

type_synonym settings = "string \<rightharpoonup> variant"

datatype OptionID =
  StartAtStartup | HideTrayIcon | MinimizeToTray | MinimizeOnClose | DisplayUnit | ThirdPartyTxUrls
  | Language | CoinControlFeatures | SubFeeFromAmount | MaskValues | FontForMoney | ProxyIP
  | ProxyPort | ProxyUse | ProxyUseTor | ProxyIPTor | ProxyPortTor | SpendZeroConfChange
  | Listen | Server | PruneSize | DatabaseCache | ThreadsScriptVerif | OptionIDRowCount

record OptionsModel =
  om_display_unit :: int
  om_third_party_tx_urls :: string
  om_language :: string
  om_coin_control_features :: bool
  om_sub_fee_from_amount :: bool
  om_mask_values :: bool
  om_start_at_startup :: bool
  om_hide_tray_icon :: bool
  om_minimize_to_tray :: bool
  om_minimize_on_close :: bool
  om_proxy_use :: bool
  om_proxy_ip :: string
  om_proxy_port :: int
  om_proxy_use_tor :: bool
  om_proxy_ip_tor :: string
  om_proxy_port_tor :: int
  om_spend_zero_conf_change :: bool
  om_listen :: bool
  om_server :: bool
  om_prune_size :: int
  om_database_cache :: int
  om_threads_script_verif :: int
  om_font_for_money :: string

definition read_setting :: "settings \<Rightarrow> string \<Rightarrow> variant \<Rightarrow> variant" where
  "read_setting st key d = (case st key of None \<Rightarrow> d | Some v \<Rightarrow> v)"

section \<open>Operations\<close>

definition checkAndMigrate :: "conversions \<Rightarrow> settings \<Rightarrow> settings" where
  "checkAndMigrate c st =
     (if vt_int c (read_setting st ''nSettingsVersion'' (VInt 0)) < 1 then st(''nSettingsVersion'' \<mapsto> VInt 1) else st)"

definition default_font :: string where
  "default_font = ''Roboto Mono,12,monospace''"

text \<open>The options a program reads when it starts.\<close>

definition read_options :: "conversions \<Rightarrow> settings \<Rightarrow> OptionsModel" where
  "read_options c st =
     \<lparr>om_display_unit = vt_int c (read_setting st ''nDisplayUnit'' (VInt 0)),
      om_third_party_tx_urls = vt_str c (read_setting st ''thirdPartyTxUrls'' (VStr [])),
      om_language = vt_str c (read_setting st ''language'' (VStr [])),
      om_coin_control_features = vt_bool c (read_setting st ''fCoinControlFeatures'' (VBool False)),
      om_sub_fee_from_amount = vt_bool c (read_setting st ''fSubtractFeeFromAmount'' (VBool False)),
      om_mask_values = vt_bool c (read_setting st ''fMaskValues'' (VBool False)),
      om_start_at_startup = vt_bool c (read_setting st ''fStartAtStartup'' (VBool False)),
      om_hide_tray_icon = vt_bool c (read_setting st ''fHideTrayIcon'' (VBool False)),
      om_minimize_to_tray = vt_bool c (read_setting st ''fMinimizeToTray'' (VBool False)),
      om_minimize_on_close = vt_bool c (read_setting st ''fMinimizeOnClose'' (VBool False)),
      om_proxy_use = vt_bool c (read_setting st ''fUseProxy'' (VBool False)),
      om_proxy_ip = vt_str c (read_setting st ''addrProxy'' (VStr ''127.0.0.1'')),
      om_proxy_port = vt_int c (read_setting st ''nProxyPort'' (VInt 9050)),
      om_proxy_use_tor = vt_bool c (read_setting st ''fUseSeparateProxyTor'' (VBool False)),
      om_proxy_ip_tor = vt_str c (read_setting st ''addrSeparateProxyTor'' (VStr ''127.0.0.1'')),
      om_proxy_port_tor = vt_int c (read_setting st ''nSeparateProxyPortTor'' (VInt 9050)),
      om_spend_zero_conf_change = vt_bool c (read_setting st ''bSpendZeroConfChange'' (VBool True)),
      om_listen = vt_bool c (read_setting st ''bListen'' (VBool True)),
      om_server = vt_bool c (read_setting st ''server'' (VBool False)),
      om_prune_size = vt_int c (read_setting st ''nPruneSize'' (VInt 0)),
      om_database_cache = vt_int c (read_setting st ''nDatabaseCache'' (VInt 450)),
      om_threads_script_verif = vt_int c (read_setting st ''nThreadsScriptVerif'' (VInt 0)),
      om_font_for_money = default_font\<rparr>"

definition Init :: "conversions \<Rightarrow> settings \<Rightarrow> OptionsModel \<times> settings" where
  "Init c st = (read_options c st, checkAndMigrate c st)"

definition Reset :: "conversions \<Rightarrow> OptionsModel \<times> settings" where
  "Reset c = Init c Map.empty"

text \<open>\<^verbatim>\<open>None\<close> is an invalid variant.\<close>

fun getOption :: "OptionsModel \<Rightarrow> OptionID \<Rightarrow> variant option" where
  "getOption m StartAtStartup = Some (VBool (om_start_at_startup m))"
| "getOption m HideTrayIcon = Some (VBool (om_hide_tray_icon m))"
| "getOption m MinimizeToTray = Some (VBool (om_minimize_to_tray m))"
| "getOption m MinimizeOnClose = Some (VBool (om_minimize_on_close m))"
| "getOption m DisplayUnit = Some (VInt (om_display_unit m))"
| "getOption m ThirdPartyTxUrls = Some (VStr (om_third_party_tx_urls m))"
| "getOption m Language = Some (VStr (om_language m))"
| "getOption m CoinControlFeatures = Some (VBool (om_coin_control_features m))"
| "getOption m SubFeeFromAmount = Some (VBool (om_sub_fee_from_amount m))"
| "getOption m MaskValues = Some (VBool (om_mask_values m))"
| "getOption m FontForMoney = Some (VFont (om_font_for_money m))"
| "getOption m ProxyIP = Some (VStr (om_proxy_ip m))"
| "getOption m ProxyPort = Some (VInt (om_proxy_port m))"
| "getOption m ProxyUse = Some (VBool (om_proxy_use m))"
| "getOption m ProxyUseTor = Some (VBool (om_proxy_use_tor m))"
| "getOption m ProxyIPTor = Some (VStr (om_proxy_ip_tor m))"
| "getOption m ProxyPortTor = Some (VInt (om_proxy_port_tor m))"
| "getOption m SpendZeroConfChange = Some (VBool (om_spend_zero_conf_change m))"
| "getOption m Listen = Some (VBool (om_listen m))"
| "getOption m Server = Some (VBool (om_server m))"
| "getOption m PruneSize = Some (VInt (om_prune_size m))"
| "getOption m DatabaseCache = Some (VInt (om_database_cache m))"
| "getOption m ThreadsScriptVerif = Some (VInt (om_threads_script_verif m))"
| "getOption m OptionIDRowCount = None"

definition setDisplayUnit :: "int \<Rightarrow> OptionsModel \<times> settings \<Rightarrow> OptionsModel \<times> settings" where
  "setDisplayUnit unit = (\<lambda>(m, st).
     if om_display_unit m \<noteq> unit then (m\<lparr>om_display_unit := unit\<rparr>, st(''nDisplayUnit'' \<mapsto> VInt unit)) else (m, st))"

definition setThirdPartyTxUrls :: "string \<Rightarrow> OptionsModel \<times> settings \<Rightarrow> OptionsModel \<times> settings" where
  "setThirdPartyTxUrls urls = (\<lambda>(m, st). (m\<lparr>om_third_party_tx_urls := urls\<rparr>, st(''thirdPartyTxUrls'' \<mapsto> VStr urls)))"

definition setLanguage :: "string \<Rightarrow> OptionsModel \<times> settings \<Rightarrow> OptionsModel \<times> settings" where
  "setLanguage language = (\<lambda>(m, st). (m\<lparr>om_language := language\<rparr>, st(''language'' \<mapsto> VStr language)))"

definition setCoinControlFeatures :: "bool \<Rightarrow> OptionsModel \<times> settings \<Rightarrow> OptionsModel \<times> settings" where
  "setCoinControlFeatures enabled = (\<lambda>(m, st).
     if om_coin_control_features m \<noteq> enabled
     then (m\<lparr>om_coin_control_features := enabled\<rparr>, st(''fCoinControlFeatures'' \<mapsto> VBool enabled)) else (m, st))"

definition setSubFeeFromAmount :: "bool \<Rightarrow> OptionsModel \<times> settings \<Rightarrow> OptionsModel \<times> settings" where
  "setSubFeeFromAmount enabled = (\<lambda>(m, st). (m\<lparr>om_sub_fee_from_amount := enabled\<rparr>, st(''fSubtractFeeFromAmount'' \<mapsto> VBool enabled)))"

definition setMaskValues :: "bool \<Rightarrow> OptionsModel \<times> settings \<Rightarrow> OptionsModel \<times> settings" where
  "setMaskValues masked = (\<lambda>(m, st).
     if om_mask_values m \<noteq> masked then (m\<lparr>om_mask_values := masked\<rparr>, st(''fMaskValues'' \<mapsto> VBool masked)) else (m, st))"

definition setFontForMoney :: "string \<Rightarrow> OptionsModel \<times> settings \<Rightarrow> OptionsModel \<times> settings" where
  "setFontForMoney font = (\<lambda>(m, st). (m\<lparr>om_font_for_money := font\<rparr>, st(''fontForMoney'' \<mapsto> VStr font)))"

fun setOption :: "conversions \<Rightarrow> OptionID \<Rightarrow> variant \<Rightarrow> OptionsModel \<times> settings \<Rightarrow> bool \<times> OptionsModel \<times> settings" where
  "setOption c StartAtStartup v s =
     (True, (fst s)\<lparr>om_start_at_startup := vt_bool c v\<rparr>, (snd s)(''fStartAtStartup'' \<mapsto> VBool (vt_bool c v)))"
| "setOption c HideTrayIcon v s =
     (True, (fst s)\<lparr>om_hide_tray_icon := vt_bool c v\<rparr>, (snd s)(''fHideTrayIcon'' \<mapsto> VBool (vt_bool c v)))"
| "setOption c MinimizeToTray v s =
     (True, (fst s)\<lparr>om_minimize_to_tray := vt_bool c v\<rparr>, (snd s)(''fMinimizeToTray'' \<mapsto> VBool (vt_bool c v)))"
| "setOption c MinimizeOnClose v s =
     (True, (fst s)\<lparr>om_minimize_on_close := vt_bool c v\<rparr>, (snd s)(''fMinimizeOnClose'' \<mapsto> VBool (vt_bool c v)))"
| "setOption c DisplayUnit v s = (True, setDisplayUnit (vt_int c v) s)"
| "setOption c ThirdPartyTxUrls v s = (True, setThirdPartyTxUrls (vt_str c v) s)"
| "setOption c Language v s = (True, setLanguage (vt_str c v) s)"
| "setOption c CoinControlFeatures v s = (True, setCoinControlFeatures (vt_bool c v) s)"
| "setOption c SubFeeFromAmount v s =
     (True, (fst s)\<lparr>om_sub_fee_from_amount := vt_bool c v\<rparr>, (snd s)(''fSubtractFeeFromAmount'' \<mapsto> VBool (vt_bool c v)))"
| "setOption c MaskValues v s = (True, setMaskValues (vt_bool c v) s)"
| "setOption c FontForMoney v s = (True, setFontForMoney (vt_font c v) s)"
| "setOption c ProxyIP v s =
     (True, (fst s)\<lparr>om_proxy_ip := vt_str c v\<rparr>, (snd s)(''addrProxy'' \<mapsto> VStr (vt_str c v)))"
| "setOption c ProxyPort v s =
     (True, (fst s)\<lparr>om_proxy_port := vt_int c v\<rparr>, (snd s)(''nProxyPort'' \<mapsto> VInt (vt_int c v)))"
| "setOption c ProxyUse v s =
     (True, (fst s)\<lparr>om_proxy_use := vt_bool c v\<rparr>, (snd s)(''fUseProxy'' \<mapsto> VBool (vt_bool c v)))"
| "setOption c ProxyUseTor v s =
     (True, (fst s)\<lparr>om_proxy_use_tor := vt_bool c v\<rparr>, (snd s)(''fUseSeparateProxyTor'' \<mapsto> VBool (vt_bool c v)))"
| "setOption c ProxyIPTor v s =
     (True, (fst s)\<lparr>om_proxy_ip_tor := vt_str c v\<rparr>, (snd s)(''addrSeparateProxyTor'' \<mapsto> VStr (vt_str c v)))"
| "setOption c ProxyPortTor v s =
     (True, (fst s)\<lparr>om_proxy_port_tor := vt_int c v\<rparr>, (snd s)(''nSeparateProxyPortTor'' \<mapsto> VInt (vt_int c v)))"
| "setOption c SpendZeroConfChange v s =
     (True, (fst s)\<lparr>om_spend_zero_conf_change := vt_bool c v\<rparr>, (snd s)(''bSpendZeroConfChange'' \<mapsto> VBool (vt_bool c v)))"
| "setOption c Listen v s =
     (True, (fst s)\<lparr>om_listen := vt_bool c v\<rparr>, (snd s)(''bListen'' \<mapsto> VBool (vt_bool c v)))"
| "setOption c Server v s =
     (True, (fst s)\<lparr>om_server := vt_bool c v\<rparr>, (snd s)(''server'' \<mapsto> VBool (vt_bool c v)))"
| "setOption c PruneSize v s =
     (True, (fst s)\<lparr>om_prune_size := vt_int c v\<rparr>, (snd s)(''nPruneSize'' \<mapsto> VInt (vt_int c v)))"
| "setOption c DatabaseCache v s =
     (True, (fst s)\<lparr>om_database_cache := vt_int c v\<rparr>, (snd s)(''nDatabaseCache'' \<mapsto> VInt (vt_int c v)))"
| "setOption c ThreadsScriptVerif v s =
     (True, (fst s)\<lparr>om_threads_script_verif := vt_int c v\<rparr>, (snd s)(''nThreadsScriptVerif'' \<mapsto> VInt (vt_int c v)))"
| "setOption c OptionIDRowCount v s = (False, s)"

definition getPruneEnabled :: "OptionsModel \<Rightarrow> bool" where
  "getPruneEnabled m \<longleftrightarrow> om_prune_size m > 0"

definition getOverriddenByCommandLine :: string where
  "getOverriddenByCommandLine = []"

section \<open>Options and settings agree\<close>

datatype options_op = SetOption OptionID variant | SetSubFee bool | ResetAll | Restart

fun options_exec :: "conversions \<Rightarrow> options_op \<Rightarrow> OptionsModel \<times> settings \<Rightarrow> bool \<times> OptionsModel \<times> settings" where
  "options_exec c (SetOption opt v) s = setOption c opt v s"
| "options_exec c (SetSubFee b) s = (True, setSubFeeFromAmount b s)"
| "options_exec c ResetAll s = (True, Reset c)"
| "options_exec c Restart s = (True, Init c (snd s))"

text \<open>A conversion of a variant to its own type is the identity.\<close>

definition own_types :: "conversions \<Rightarrow> bool" where
  "own_types c \<longleftrightarrow> (\<forall>b. vt_bool c (VBool b) = b) \<and> (\<forall>i. vt_int c (VInt i) = i) \<and> (\<forall>s. vt_str c (VStr s) = s)"

text \<open>The key of an option, its default, and the conversion it is read and set with.\<close>

fun option_key :: "OptionID \<Rightarrow> string" where
  "option_key StartAtStartup = ''fStartAtStartup''"
| "option_key HideTrayIcon = ''fHideTrayIcon''"
| "option_key MinimizeToTray = ''fMinimizeToTray''"
| "option_key MinimizeOnClose = ''fMinimizeOnClose''"
| "option_key DisplayUnit = ''nDisplayUnit''"
| "option_key ThirdPartyTxUrls = ''thirdPartyTxUrls''"
| "option_key Language = ''language''"
| "option_key CoinControlFeatures = ''fCoinControlFeatures''"
| "option_key SubFeeFromAmount = ''fSubtractFeeFromAmount''"
| "option_key MaskValues = ''fMaskValues''"
| "option_key FontForMoney = ''fontForMoney''"
| "option_key ProxyIP = ''addrProxy''"
| "option_key ProxyPort = ''nProxyPort''"
| "option_key ProxyUse = ''fUseProxy''"
| "option_key ProxyUseTor = ''fUseSeparateProxyTor''"
| "option_key ProxyIPTor = ''addrSeparateProxyTor''"
| "option_key ProxyPortTor = ''nSeparateProxyPortTor''"
| "option_key SpendZeroConfChange = ''bSpendZeroConfChange''"
| "option_key Listen = ''bListen''"
| "option_key Server = ''server''"
| "option_key PruneSize = ''nPruneSize''"
| "option_key DatabaseCache = ''nDatabaseCache''"
| "option_key ThreadsScriptVerif = ''nThreadsScriptVerif''"
| "option_key OptionIDRowCount = []"

fun option_default :: "OptionID \<Rightarrow> variant" where
  "option_default StartAtStartup = VBool False"
| "option_default HideTrayIcon = VBool False"
| "option_default MinimizeToTray = VBool False"
| "option_default MinimizeOnClose = VBool False"
| "option_default DisplayUnit = VInt 0"
| "option_default ThirdPartyTxUrls = VStr []"
| "option_default Language = VStr []"
| "option_default CoinControlFeatures = VBool False"
| "option_default SubFeeFromAmount = VBool False"
| "option_default MaskValues = VBool False"
| "option_default FontForMoney = VStr []"
| "option_default ProxyIP = VStr ''127.0.0.1''"
| "option_default ProxyPort = VInt 9050"
| "option_default ProxyUse = VBool False"
| "option_default ProxyUseTor = VBool False"
| "option_default ProxyIPTor = VStr ''127.0.0.1''"
| "option_default ProxyPortTor = VInt 9050"
| "option_default SpendZeroConfChange = VBool True"
| "option_default Listen = VBool True"
| "option_default Server = VBool False"
| "option_default PruneSize = VInt 0"
| "option_default DatabaseCache = VInt 450"
| "option_default ThreadsScriptVerif = VInt 0"
| "option_default OptionIDRowCount = VStr []"

fun option_conv :: "conversions \<Rightarrow> OptionID \<Rightarrow> variant \<Rightarrow> variant" where
  "option_conv c StartAtStartup v = VBool (vt_bool c v)"
| "option_conv c HideTrayIcon v = VBool (vt_bool c v)"
| "option_conv c MinimizeToTray v = VBool (vt_bool c v)"
| "option_conv c MinimizeOnClose v = VBool (vt_bool c v)"
| "option_conv c DisplayUnit v = VInt (vt_int c v)"
| "option_conv c ThirdPartyTxUrls v = VStr (vt_str c v)"
| "option_conv c Language v = VStr (vt_str c v)"
| "option_conv c CoinControlFeatures v = VBool (vt_bool c v)"
| "option_conv c SubFeeFromAmount v = VBool (vt_bool c v)"
| "option_conv c MaskValues v = VBool (vt_bool c v)"
| "option_conv c FontForMoney v = v"
| "option_conv c ProxyIP v = VStr (vt_str c v)"
| "option_conv c ProxyPort v = VInt (vt_int c v)"
| "option_conv c ProxyUse v = VBool (vt_bool c v)"
| "option_conv c ProxyUseTor v = VBool (vt_bool c v)"
| "option_conv c ProxyIPTor v = VStr (vt_str c v)"
| "option_conv c ProxyPortTor v = VInt (vt_int c v)"
| "option_conv c SpendZeroConfChange v = VBool (vt_bool c v)"
| "option_conv c Listen v = VBool (vt_bool c v)"
| "option_conv c Server v = VBool (vt_bool c v)"
| "option_conv c PruneSize v = VInt (vt_int c v)"
| "option_conv c DatabaseCache v = VInt (vt_int c v)"
| "option_conv c ThreadsScriptVerif v = VInt (vt_int c v)"
| "option_conv c OptionIDRowCount v = v"

definition plain :: "OptionID \<Rightarrow> bool" where
  "plain opt \<longleftrightarrow> opt \<noteq> FontForMoney \<and> opt \<noteq> OptionIDRowCount"

definition all_options :: "OptionID list" where
  "all_options = [StartAtStartup, HideTrayIcon, MinimizeToTray, MinimizeOnClose, DisplayUnit, ThirdPartyTxUrls, Language, CoinControlFeatures, SubFeeFromAmount, MaskValues, FontForMoney, ProxyIP, ProxyPort, ProxyUse, ProxyUseTor, ProxyIPTor, ProxyPortTor, SpendZeroConfChange, Listen, Server, PruneSize, DatabaseCache, ThreadsScriptVerif, OptionIDRowCount]"

lemma all_options: "opt \<in> set all_options"
  by (cases opt) (simp_all add: all_options_def)

lemma keys_distinct: "distinct (''nSettingsVersion'' # map option_key all_options)"
  by code_simp

lemma option_key_inj: "option_key opt = option_key opt' \<longleftrightarrow> opt = opt'"
  using keys_distinct all_options by (auto simp: distinct_map dest: inj_onD)

lemma option_key_version: "option_key opt \<noteq> ''nSettingsVersion''"
  using keys_distinct all_options [of opt] by (metis distinct.simps(2) image_eqI list.set_map)

lemma read_plain: "plain opt \<Longrightarrow> getOption (read_options c st) opt = Some (option_conv c opt (read_setting st (option_key opt) (option_default opt)))"
  by (cases opt) (simp_all add: plain_def read_options_def)

lemma conv_idem: "own_types c \<Longrightarrow> plain opt \<Longrightarrow> option_conv c opt (option_conv c opt v) = option_conv c opt v"
  by (cases opt) (simp_all add: plain_def own_types_def)

lemmas setters = setDisplayUnit_def setThirdPartyTxUrls_def setLanguage_def setCoinControlFeatures_def setMaskValues_def setFontForMoney_def

lemma set_same: "plain opt \<Longrightarrow> getOption (fst (snd (setOption c opt v s))) opt = Some (option_conv c opt v)"
  by (cases s; cases opt) (simp_all add: plain_def setters)

lemma set_other: "opt' \<noteq> opt \<Longrightarrow> getOption (fst (snd (setOption c opt v s))) opt' = getOption (fst s) opt'"
  by (cases s; cases opt; cases opt') (simp_all add: setters)

lemma set_settings:
  "snd (snd (setOption c opt v s)) = (snd s)(option_key opt := snd (snd (setOption c opt v s)) (option_key opt)) \<and>
   (plain opt \<longrightarrow> snd (snd (setOption c opt v s)) (option_key opt) = Some (option_conv c opt v) \<or>
      snd (snd (setOption c opt v s)) = snd s \<and> getOption (fst s) opt = Some (option_conv c opt v))"
  by (cases s; cases opt) (simp_all add: plain_def setters)

definition agree :: "conversions \<Rightarrow> OptionsModel \<times> settings \<Rightarrow> bool" where
  "agree c s \<longleftrightarrow> own_types c \<and> (\<forall>opt. plain opt \<longrightarrow> getOption (read_options c (snd s)) opt = getOption (fst s) opt)"

lemma agree_Init:
  assumes "own_types c"
  shows "agree c (Init c st)"
proof -
  have "read_setting (checkAndMigrate c st) (option_key opt) d = read_setting st (option_key opt) d" for opt d
    by (simp add: checkAndMigrate_def read_setting_def option_key_version)
  then show ?thesis using assms by (simp add: agree_def Init_def read_plain)
qed

lemma agree_setOption:
  assumes "agree c s"
  shows "agree c (snd (setOption c opt v s))"
proof -
  let ?s' = "snd (setOption c opt v s)"
  note st = set_settings [of c opt v s]
  have own: "own_types c" using assms by (simp add: agree_def)
  have "getOption (read_options c (snd ?s')) opt' = getOption (fst ?s') opt'" if p: "plain opt'" for opt'
  proof (cases "opt' = opt")
    case True
    from st p True have "snd ?s' (option_key opt) = Some (option_conv c opt v) \<or> snd ?s' = snd s \<and> getOption (fst s) opt = Some (option_conv c opt v)" by blast
    then show ?thesis
    proof
      assume "snd ?s' (option_key opt) = Some (option_conv c opt v)"
      then show ?thesis using True p own by (simp add: read_plain set_same read_setting_def conv_idem)
    next
      assume "snd ?s' = snd s \<and> getOption (fst s) opt = Some (option_conv c opt v)"
      then show ?thesis using True p assms by (simp add: agree_def set_same)
    qed
  next
    case False
    then have "snd ?s' (option_key opt') = snd s (option_key opt')" using st option_key_inj [of opt' opt] by (metis fun_upd_other)
    then show ?thesis using assms p False by (simp add: agree_def read_plain set_other read_setting_def)
  qed
  with own show ?thesis by (simp add: agree_def)
qed

lemma agree_exec: "agree c s \<Longrightarrow> options_exec c op s = (r, s') \<Longrightarrow> agree c s'"
proof (induction c op s rule: options_exec.induct)
  case (1 c opt v s)
  then show ?case using agree_setOption [of c s opt v] by simp
next
  case (2 c b s)
  then have "setSubFeeFromAmount b s = snd (setOption c SubFeeFromAmount (VBool b) s)"
    by (cases s) (simp add: setSubFeeFromAmount_def agree_def own_types_def)
  then show ?case using 2 agree_setOption [of c s SubFeeFromAmount "VBool b"] by simp
next
  case (3 c s)
  then show ?case using agree_Init [of c] by (auto simp: Reset_def agree_def)
next
  case (4 c s)
  then show ?case using agree_Init [of c "snd s"] by (auto simp: agree_def)
qed

interpretation options: kept_invariant "options_exec c" "agree c" for c
  by unfold_locales (rule agree_exec)


definition sample_conversions :: conversions where
  "sample_conversions =
     \<lparr>vt_bool = (\<lambda>v. case v of VBool b \<Rightarrow> b | _ \<Rightarrow> False), vt_int = (\<lambda>v. case v of VInt i \<Rightarrow> i | _ \<Rightarrow> 0),
      vt_str = (\<lambda>v. case v of VStr s \<Rightarrow> s | _ \<Rightarrow> []), vt_font = (\<lambda>v. case v of VFont f \<Rightarrow> f | _ \<Rightarrow> [])\<rparr>"


end
