(* ===== verification/AddressPage.thy ===== *)
theory AddressPage
  imports AddressTable
begin

text \<open>
  Model of \<^verbatim>\<open>AddressBookPage\<close> and \<^verbatim>\<open>AddressBookSortFilterProxyModel\<close> (\<^verbatim>\<open>BHTWalletPro/src/qt/addressbookpage.cpp\<close>) on top of the
  address table: which rows a page shows, and the buttons. The answers of the user and the test of a text against the
  search pattern are arguments, and the order in which the view sorts its rows is a permutation that is a parameter too.
  The wallet's own rows are numbers; the selection is a row of the view.
\<close>

section \<open>Rows\<close>

datatype Mode = ForSelection | ForEditing

datatype Tabs = SendingTab | ReceivingTab

definition page_type :: "Tabs \<Rightarrow> string" where
  "page_type tab = (case tab of ReceivingTab \<Rightarrow> ''receive'' | SendingTab \<Rightarrow> ''send'')"

fun variant_text :: "qvariant \<Rightarrow> string" where
  "variant_text (QStr s) = s"
| "variant_text _ = []"

text \<open>\<^verbatim>\<open>data(index(row, column), role).toString()\<close>, with the fault of an access outside the lists.\<close>

definition cell_text :: "AddressTableModel \<Rightarrow> nat \<Rightarrow> int \<Rightarrow> item_role \<Rightarrow> qt_fault + string" where
  "cell_text t row column role = map_sum id variant_text (table_data (table_index (int row) column) role t)"

definition filterAcceptsRow :: "(string \<Rightarrow> bool) \<Rightarrow> string \<Rightarrow> AddressTableModel \<Rightarrow> nat \<Rightarrow> qt_fault + bool" where
  "filterAcceptsRow matches type t row =
     (case cell_text t row 0 UserRole of
        Inl e \<Rightarrow> Inl e
      | Inr rowType \<Rightarrow>
          if rowType \<noteq> type then Inr False
          else (case cell_text t row 1 DisplayRole of
                  Inl e \<Rightarrow> Inl e
                | Inr address \<Rightarrow>
                    if matches address then Inr True
                    else (case cell_text t row 0 DisplayRole of Inl e \<Rightarrow> Inl e | Inr label \<Rightarrow> Inr (matches label))))"

fun accepted_rows :: "(string \<Rightarrow> bool) \<Rightarrow> string \<Rightarrow> AddressTableModel \<Rightarrow> nat list \<Rightarrow> qt_fault + nat list" where
  "accepted_rows matches type t [] = Inr []"
| "accepted_rows matches type t (r # rs) =
     (case filterAcceptsRow matches type t r of
        Inl e \<Rightarrow> Inl e
      | Inr b \<Rightarrow> map_sum id (\<lambda>rs'. if b then r # rs' else rs') (accepted_rows matches type t rs))"

text \<open>The rows of the view, as rows of the table.\<close>

definition page_rows :: "(nat list \<Rightarrow> nat list) \<Rightarrow> (string \<Rightarrow> bool) \<Rightarrow> Tabs \<Rightarrow> AddressTableModel \<Rightarrow> qt_fault + nat list" where
  "page_rows sorted_by matches tab t = map_sum id sorted_by (accepted_rows matches (page_type tab) t [0..<length (m_addresses t)])"

section \<open>Buttons\<close>

text \<open>The label and the address the user enters; nothing when the input is cancelled.\<close>

definition on_newAddress_clicked :: "Tabs \<Rightarrow> string option \<Rightarrow> string option \<Rightarrow> AddressTableModel \<Rightarrow> qt_fault + AddressTableModel" where
  "on_newAddress_clicked tab label address t =
     (if tab = ReceivingTab then Inr t
      else case label of
             None \<Rightarrow> Inr t
           | Some l \<Rightarrow>
               if l = [] then Inr t
               else (case address of
                       None \<Rightarrow> Inr t
                     | Some a \<Rightarrow> if a = [] then Inr t else map_sum id snd (addAddress a l t)))"

definition on_copyAddress_clicked :: "nat list \<Rightarrow> nat option \<Rightarrow> AddressTableModel \<Rightarrow> qt_fault + string option" where
  "on_copyAddress_clicked rows selected t =
     (case selected of None \<Rightarrow> Inr None | Some k \<Rightarrow> map_sum id Some (cell_text t (rows ! k) 1 DisplayRole))"

definition onCopyLabelAction :: "nat list \<Rightarrow> nat option \<Rightarrow> AddressTableModel \<Rightarrow> qt_fault + string option" where
  "onCopyLabelAction rows selected t =
     (case selected of None \<Rightarrow> Inr None | Some k \<Rightarrow> map_sum id Some (cell_text t (rows ! k) 0 DisplayRole))"

definition onEditAction :: "nat list \<Rightarrow> nat option \<Rightarrow> (string \<Rightarrow> string option) \<Rightarrow> AddressTableModel \<Rightarrow> qt_fault + AddressTableModel" where
  "onEditAction rows selected ask t =
     (case selected of
        None \<Rightarrow> Inr t
      | Some k \<Rightarrow>
          (case cell_text t (rows ! k) 0 DisplayRole of
             Inl e \<Rightarrow> Inl e
           | Inr currentLabel \<Rightarrow>
               (case cell_text t (rows ! k) 1 DisplayRole of
                  Inl e \<Rightarrow> Inl e
                | Inr currentAddress \<Rightarrow>
                    (case ask currentLabel of
                       None \<Rightarrow> Inr t
                     | Some newLabel \<Rightarrow> if newLabel = [] then Inr t else map_sum id snd (updateAddress currentAddress newLabel t)))))"

text \<open>The view passes the removal of a row on to the table.\<close>

definition on_deleteAddress_clicked :: "nat list \<Rightarrow> nat option \<Rightarrow> bool \<Rightarrow> AddressTableModel \<Rightarrow> AddressTableModel" where
  "on_deleteAddress_clicked rows selected yes t =
     (case selected of None \<Rightarrow> t | Some k \<Rightarrow> if yes then snd (removeRows (int (rows ! k)) 1 t) else t)"

definition csv_row :: "string \<Rightarrow> string \<Rightarrow> string" where
  "csv_row label address = [CHR 0x22] @ label @ [CHR 0x22, CHR '','', CHR 0x22] @ address @ [CHR 0x22, CHR 0x0A]"

fun csv_rows :: "AddressTableModel \<Rightarrow> nat list \<Rightarrow> qt_fault + string" where
  "csv_rows t [] = Inr []"
| "csv_rows t (r # rs) =
     (case cell_text t r 0 DisplayRole of
        Inl e \<Rightarrow> Inl e
      | Inr label \<Rightarrow>
          (case cell_text t r 1 DisplayRole of
             Inl e \<Rightarrow> Inl e
           | Inr address \<Rightarrow> map_sum id (\<lambda>s. csv_row label address @ s) (csv_rows t rs)))"

text \<open>The content of the file, if one was chosen and could be opened.\<close>

definition on_exportButton_clicked :: "nat list \<Rightarrow> AddressTableModel \<Rightarrow> qt_fault + string" where
  "on_exportButton_clicked rows t = map_sum id (\<lambda>s. ''Label,Address'' @ [CHR 0x0A] @ s) (csv_rows t rows)"

text \<open>The return value and whether the dialog counts as accepted.\<close>

definition page_done :: "Mode \<Rightarrow> bool \<Rightarrow> nat list \<Rightarrow> nat option \<Rightarrow> AddressTableModel \<Rightarrow> qt_fault + string \<times> bool" where
  "page_done mode accepted rows selected t =
     map_sum id (\<lambda>v. (v, if v = [] \<and> mode = ForSelection then False else accepted))
       (case selected of None \<Rightarrow> Inr [] | Some k \<Rightarrow> cell_text t (rows ! k) 1 DisplayRole)"

section \<open>What a page shows\<close>

lemma row_cells:
  assumes "length (m_labels t) = length (m_addresses t)" and "r < length (m_addresses t)"
  shows "cell_text t r 0 UserRole = Inr ''send''" "cell_text t r 0 DisplayRole = Inr (m_labels t ! r)"
    "cell_text t r 1 DisplayRole = Inr (m_addresses t ! r)"
  using assms by (simp_all add: cell_text_def table_data_def table_index_def isValid_def list_at_def)

lemma accepted_filter:
  assumes "length (m_labels t) = length (m_addresses t)" and "\<forall>r\<in>set rs. r < length (m_addresses t)"
  shows "accepted_rows matches type t rs =
     Inr (filter (\<lambda>r. type = ''send'' \<and> (matches (m_addresses t ! r) \<or> matches (m_labels t ! r))) rs)"
  using assms(2) by (induction rs) (auto simp: filterAcceptsRow_def row_cells [OF assms(1)])

text \<open>
  The page of sending addresses shows every entry whose address or label matches, the wallet's own receiving addresses among
  them, and the page of receiving addresses shows none: every row of the table calls itself a sending address.
\<close>

theorem address_pages:
  assumes "length (m_labels t) = length (m_addresses t)" and "\<And>rs. set (sorted_by rs) = set rs"
  shows "(\<exists>rows. page_rows sorted_by matches SendingTab t = Inr rows \<and>
       set rows = {r. r < length (m_addresses t) \<and> (matches (m_addresses t ! r) \<or> matches (m_labels t ! r))}) \<and>
     (\<exists>rows. page_rows sorted_by matches ReceivingTab t = Inr rows \<and> rows = [])"
proof -
  have "set (sorted_by []) = {}" using assms(2) [of "[]"] by simp
  then have "sorted_by [] = []" by simp
  with accepted_filter [OF assms(1), of "[0..<length (m_addresses t)]"] assms(2) show ?thesis
    by (auto simp: page_rows_def page_type_def)
qed

lemma new_table:
  "new_AddressTableModel = Inr
     \<lparr>m_addresses = [''bht1qdemo1234567890abcdefghijklmn'', ''bht1qreceive0987654321zyxwvutsrqpo''], m_labels = [''Main Address'', ''Receive Address''],
      m_address_to_row = [''bht1qdemo1234567890abcdefghijklmn'' \<mapsto> 0, ''bht1qreceive0987654321zyxwvutsrqpo'' \<mapsto> 1]\<rparr>"
  by (simp add: new_AddressTableModel_def updateEntry_def empty_table_def)

theorem address_pages_witness:
  "\<exists>t. new_AddressTableModel = Inr t \<and> page_rows id (\<lambda>s. True) ReceivingTab t = Inr [] \<and>
     (\<exists>rows. page_rows id (\<lambda>s. True) SendingTab t = Inr rows \<and> set rows = {0, 1})"
proof -
  obtain t where t: "new_AddressTableModel = Inr t" using new_table by blast
  have l: "length (m_addresses t) = 2" "length (m_labels t) = length (m_addresses t)" using t [unfolded new_table] by auto
  then have "{r. r < length (m_addresses t) \<and> (True \<or> True)} = {0, 1}" by auto
  with address_pages [OF l(2), of id "\<lambda>s. True"] t show ?thesis by auto
qed

section \<open>The exported file\<close>

text \<open>A reader of one row of quoted fields without quotes inside them.\<close>

definition read_field :: "string \<Rightarrow> string \<times> string" where
  "read_field s = (takeWhile (\<lambda>c. c \<noteq> CHR 0x22) (tl s), drop 1 (dropWhile (\<lambda>c. c \<noteq> CHR 0x22) (tl s)))"

definition read_row :: "string \<Rightarrow> (string \<times> string) \<times> string" where
  "read_row s = (case read_field s of (label, r) \<Rightarrow> case read_field (drop 1 r) of (address, r) \<Rightarrow> ((label, address), drop 1 r))"

fun read_rows :: "nat \<Rightarrow> string \<Rightarrow> (string \<times> string) list" where
  "read_rows 0 s = []"
| "read_rows (Suc n) s = (case read_row s of (x, r) \<Rightarrow> x # read_rows n r)"

lemma take_quoted: "CHR 0x22 \<notin> set a \<Longrightarrow> takeWhile (\<lambda>c. c \<noteq> CHR 0x22) (a @ CHR 0x22 # r) = a"
  by (induction a) auto

lemma drop_quoted: "CHR 0x22 \<notin> set a \<Longrightarrow> dropWhile (\<lambda>c. c \<noteq> CHR 0x22) (a @ CHR 0x22 # r) = CHR 0x22 # r"
  by (induction a) auto

lemma read_csv_row:
  assumes "CHR 0x22 \<notin> set label" and "CHR 0x22 \<notin> set address"
  shows "read_row (csv_row label address @ s) = ((label, address), s)"
  using assms by (simp add: read_row_def read_field_def csv_row_def take_quoted drop_quoted)

lemma csv_rows_read:
  assumes "length (m_labels t) = length (m_addresses t)" and "\<forall>r\<in>set rows. r < length (m_addresses t) \<and> CHR 0x22 \<notin> set (m_labels t ! r) \<and> CHR 0x22 \<notin> set (m_addresses t ! r)"
  shows "\<exists>s. csv_rows t rows = Inr s \<and> read_rows (length rows) s = map (\<lambda>r. (m_labels t ! r, m_addresses t ! r)) rows"
  using assms(2)
proof (induction rows)
  case (Cons r rs)
  then obtain s where "csv_rows t rs = Inr s" "read_rows (length rs) s = map (\<lambda>r. (m_labels t ! r, m_addresses t ! r)) rs" by auto
  with Cons.prems show ?case by (auto simp: row_cells [OF assms(1)] read_csv_row)
qed simp

text \<open>
  The exported file can be read back, row by row, as long as no label and no address contains a quotation mark; the export
  does not quote them, and with them different rows give the same line.
\<close>

theorem export_reads_back:
  assumes "length (m_labels t) = length (m_addresses t)" and "\<forall>r\<in>set rows. r < length (m_addresses t)"
    and "\<forall>r\<in>set rows. CHR 0x22 \<notin> set (m_labels t ! r) \<and> CHR 0x22 \<notin> set (m_addresses t ! r)"
  shows "(\<exists>s. on_exportButton_clicked rows t = Inr (''Label,Address'' @ [CHR 0x0A] @ s) \<and>
       read_rows (length rows) s = map (\<lambda>r. (m_labels t ! r, m_addresses t ! r)) rows) \<and>
     csv_row (l @ [CHR 0x22, CHR '','', CHR 0x22] @ a) b = csv_row l (a @ [CHR 0x22, CHR '','', CHR 0x22] @ b)"
proof -
  obtain s where "csv_rows t rows = Inr s" "read_rows (length rows) s = map (\<lambda>r. (m_labels t ! r, m_addresses t ! r)) rows"
    using csv_rows_read [OF assms(1)] assms(2,3) by blast
  then show ?thesis by (simp add: on_exportButton_clicked_def csv_row_def)
qed

theorem export_reads_back_witness:
  "\<exists>t s. new_AddressTableModel = Inr t \<and> on_exportButton_clicked [0, 1] t = Inr (''Label,Address'' @ [CHR 0x0A] @ s) \<and>
     read_rows 2 s = [(''Main Address'', ''bht1qdemo1234567890abcdefghijklmn''), (''Receive Address'', ''bht1qreceive0987654321zyxwvutsrqpo'')]"
proof -
  obtain t where t: "new_AddressTableModel = Inr t" using new_table by blast
  have fields: "m_addresses t = [''bht1qdemo1234567890abcdefghijklmn'', ''bht1qreceive0987654321zyxwvutsrqpo'']"
    "m_labels t = [''Main Address'', ''Receive Address'']" "length (m_labels t) = length (m_addresses t)"
    using t [unfolded new_table] by auto
  have rows: "\<forall>r\<in>set [0, 1]. r < length (m_addresses t)"
    "\<forall>r\<in>set [0, 1]. CHR 0x22 \<notin> set (m_labels t ! r) \<and> CHR 0x22 \<notin> set (m_addresses t ! r)" by (simp_all add: fields)
  obtain s where s: "on_exportButton_clicked [0, 1] t = Inr (''Label,Address'' @ [CHR 0x0A] @ s)"
    "read_rows (length [0::nat, 1]) s = map (\<lambda>r. (m_labels t ! r, m_addresses t ! r)) [0, 1]"
    using export_reads_back [OF fields(3) rows] by blast
  have "length [0::nat, 1] = 2" by simp
  with s(2) have "read_rows 2 s = [(''Main Address'', ''bht1qdemo1234567890abcdefghijklmn''), (''Receive Address'', ''bht1qreceive0987654321zyxwvutsrqpo'')]"
    by (simp only:) (simp add: fields)
  with s(1) t show ?thesis by blast
qed

end
