(* ===== verification/NetworkConfig.thy ===== *)
theory NetworkConfig
  imports ChainParams
begin

text \<open>
  Model of \<^verbatim>\<open>BHTWalletPro/src/config/networkconfig.{h,cpp}\<close>: the wallet's table of networks and the selected one. The
  arrays of seeds end at their first null pointer and are lists here.
\<close>

datatype NetworkType = MainNet | TestNet | Signet | RegTest

record NetworkParams =
  np_network :: NetworkType
  np_name :: string
  np_dataDir :: string
  np_defaultPort :: u16
  np_defaultRpcPort :: u16
  np_defaultWsPort :: u16
  np_genesisBlock :: string
  np_genesisHash :: string
  np_genesisTime :: int
  np_bip44CoinType :: u32
  np_bech32Prefix :: string
  np_bech32Separator :: string
  np_requireStandard :: bool
  np_mineBlocksOnDemand :: bool
  np_dnsSeeds :: "string list"
  np_fixedSeeds :: "string list"
  np_targetSpacing :: int
  np_targetTimespan :: int
  np_powLimitBits :: u32
  np_difficultyAdjustmentInterval :: int

definition mainNetParams :: NetworkParams where
  "mainNetParams =
     \<lparr>np_network = MainNet, np_name = ''main'', np_dataDir = ''BHT'', np_defaultPort = 8333, np_defaultRpcPort = 8332, np_defaultWsPort = 8334,
      np_genesisBlock = ''0100000000000000000000000000000000000000000000000000000000000000000000003ba3edfd7a7b12b27ac72c3e67768f617fc81bc3888a51323a9fb8aa4b1e5e4a29ab5f49ffff001d1dac2b7c'',
      np_genesisHash = ''000000000019d6689c085ae165831e934ff763ae46a2a6c172b3f1b60a8ce26f'',
      np_genesisTime = 1231006505, np_bip44CoinType = 0, np_bech32Prefix = ''bc'', np_bech32Separator = ''1'', np_requireStandard = True,
      np_mineBlocksOnDemand = False, np_dnsSeeds = [''seed.bht.org'', ''seed2.bht.org'', ''dnsseed.bht.org''], np_fixedSeeds = [],
      np_targetSpacing = 600, np_targetTimespan = 1209600, np_powLimitBits = 0x1d00ffff, np_difficultyAdjustmentInterval = 2016\<rparr>"

definition testNetParams :: NetworkParams where
  "testNetParams =
     \<lparr>np_network = TestNet, np_name = ''test'', np_dataDir = ''BHT_testnet'', np_defaultPort = 18333, np_defaultRpcPort = 18332, np_defaultWsPort = 18334,
      np_genesisBlock = ''0100000000000000000000000000000000000000000000000000000000000000000000003ba3edfd7a7b12b27ac72c3e67768f617fc81bc3888a51323a9fb8aa4b1e5e4adae5494dffff001d1aa4ae18'',
      np_genesisHash = ''000000000933ea01ad0ee984209779baaec3ced90fa3f408719526f8d77f4943'',
      np_genesisTime = 1296688602, np_bip44CoinType = 1, np_bech32Prefix = ''tb'', np_bech32Separator = ''1'', np_requireStandard = True,
      np_mineBlocksOnDemand = False, np_dnsSeeds = [''testnet-seed.bht.org'', ''testnet-seed2.bht.org''], np_fixedSeeds = [],
      np_targetSpacing = 600, np_targetTimespan = 1209600, np_powLimitBits = 0x1d00ffff, np_difficultyAdjustmentInterval = 2016\<rparr>"

definition signetParams :: NetworkParams where
  "signetParams =
     \<lparr>np_network = Signet, np_name = ''signet'', np_dataDir = ''BHT_signet'', np_defaultPort = 38333, np_defaultRpcPort = 38332, np_defaultWsPort = 38334,
      np_genesisBlock = ''0100000000000000000000000000000000000000000000000000000000000000000000003ba3edfd7a7b12b27ac72c3e67768f617fc81bc3888a51323a9fb8aa4b1e5e4a8f59174ffff001d1dac2b7c'',
      np_genesisHash = ''00000008819873e925046c1fd611d2f4b6b3a3d4e1e1e1e1e1e1e1e1e1e1e1e1e'',
      np_genesisTime = 1598918400, np_bip44CoinType = 1, np_bech32Prefix = ''tb'', np_bech32Separator = ''1'', np_requireStandard = True,
      np_mineBlocksOnDemand = False, np_dnsSeeds = [''signet-seed.bht.org''], np_fixedSeeds = [],
      np_targetSpacing = 600, np_targetTimespan = 1209600, np_powLimitBits = 0x1d00ffff, np_difficultyAdjustmentInterval = 2016\<rparr>"

definition regTestParams :: NetworkParams where
  "regTestParams =
     \<lparr>np_network = RegTest, np_name = ''regtest'', np_dataDir = ''BHT_regtest'', np_defaultPort = 18444, np_defaultRpcPort = 18443, np_defaultWsPort = 18445,
      np_genesisBlock = ''0100000000000000000000000000000000000000000000000000000000000000000000003ba3edfd7a7b12b27ac72c3e67768f617fc81bc3888a51323a9fb8aa4b1e5e4adae5494dffff7f2002000000'',
      np_genesisHash = ''0f9188f13cb7b2c71f2a335e3a4fc328bf5beb436012afca590b1a11466e2206'',
      np_genesisTime = 1296688602, np_bip44CoinType = 1, np_bech32Prefix = ''bcrt'', np_bech32Separator = ''1'', np_requireStandard = False,
      np_mineBlocksOnDemand = True, np_dnsSeeds = [], np_fixedSeeds = [],
      np_targetSpacing = 600, np_targetTimespan = 1209600, np_powLimitBits = 0x207fffff, np_difficultyAdjustmentInterval = 2016\<rparr>"

definition GetParams :: "NetworkType \<Rightarrow> NetworkParams" where
  "GetParams type =
     (case type of MainNet \<Rightarrow> mainNetParams | TestNet \<Rightarrow> testNetParams | Signet \<Rightarrow> signetParams | RegTest \<Rightarrow> regTestParams)"

text \<open>The functions of the selected network; \<open>current\<close> is the static variable \<^verbatim>\<open>s_current_network\<close>.\<close>

definition initial_network :: NetworkType where
  "initial_network = MainNet"

definition SetNetworkType :: "NetworkType \<Rightarrow> NetworkType \<Rightarrow> NetworkType" where
  "SetNetworkType type current = type"

definition GetDataDir :: "NetworkType \<Rightarrow> string" where
  "GetDataDir current = np_dataDir (GetParams current)"

definition GetNetworkName :: "NetworkType \<Rightarrow> string" where
  "GetNetworkName current = np_name (GetParams current)"

definition GetDefaultPort :: "NetworkType \<Rightarrow> u16" where
  "GetDefaultPort current = np_defaultPort (GetParams current)"

definition GetDefaultRpcPort :: "NetworkType \<Rightarrow> u16" where
  "GetDefaultRpcPort current = np_defaultRpcPort (GetParams current)"

definition GetBip44CoinType :: "NetworkType \<Rightarrow> u32" where
  "GetBip44CoinType current = np_bip44CoinType (GetParams current)"

definition GetBech32Prefix :: "NetworkType \<Rightarrow> string" where
  "GetBech32Prefix current = np_bech32Prefix (GetParams current)"

definition IsTestNetwork :: "NetworkType \<Rightarrow> bool" where
  "IsTestNetwork current \<longleftrightarrow> current \<noteq> MainNet"

section \<open>The wallet and the node\<close>

text \<open>The network of the node that bears the name of a network of the wallet.\<close>

fun node_network :: "NetworkType \<Rightarrow> Network option" where
  "node_network MainNet = Some MAIN"
| "node_network TestNet = Some TESTNET"
| "node_network RegTest = Some REGTEST"
| "node_network Signet = None"

lemmas wallet_networks = GetParams_def mainNetParams_def testNetParams_def signetParams_def regTestParams_def

text \<open>
  The wallet's table and the node's agree on the names of their networks, the block spacing and the retarget
  timespan, and on nothing that connects them: for every network both know, the default ports, the address prefixes,
  the seeds and the genesis blocks differ, and the genesis hash of the wallet's signet is not a hash at all, having an odd
  number of digits.
\<close>

theorem wallet_and_node_networks_differ:
  assumes "node_network n = Some k" and "length uninit = 32"
  shows "GetNetworkName n = m_strNetworkID (new_CChainParams uninit k) \<and>
    np_targetSpacing (GetParams n) = nPowTargetSpacing (m_consensus (new_CChainParams uninit k)) \<and>
    np_targetTimespan (GetParams n) = nPowTargetTimespan (m_consensus (new_CChainParams uninit k)) \<and>
    GetDefaultPort n \<noteq> m_nDefaultPort (new_CChainParams uninit k) \<and> GetDefaultRpcPort n \<noteq> m_nRPCPort (new_CChainParams uninit k) \<and>
    GetBech32Prefix n \<noteq> m_bech32Hrp (new_CChainParams uninit k) \<and>
    set (np_dnsSeeds (GetParams n)) \<inter> host ` set (m_vSeeds (new_CChainParams uninit k)) = {} \<and>
    hashGenesisBlock (m_consensus (new_CChainParams uninit k)) \<noteq> rev (map (\<lambda>i. sscanf_02x (np_genesisHash (GetParams n)) (2 * i)) [0..<32]) \<and>
    odd (length (np_genesisHash (GetParams Signet)))"
proof -
  have g: "read_genesis genesisHashHex uninit =
     [0x00, 0x00, 0x0b, 0xed, 0x53, 0xcf, 0x4f, 0xa8, 0xad, 0x66, 0x16, 0x0f, 0x5e, 0x42, 0x4d, 0xa2,
      0x91, 0xb2, 0xf4, 0x5a, 0x9f, 0xcd, 0x10, 0xe2, 0x77, 0x13, 0xd4, 0xd2, 0x51, 0xa5, 0x7e, 0x3a]"
    using read_genesis_reversed [OF assms(2), of genesisHashHex] genesis_bytes by simp
  have h: "hashGenesisBlock (m_consensus (new_CChainParams uninit k)) ! 31 \<noteq> sscanf_02x (np_genesisHash (GetParams n)) 0 \<or>
     hashGenesisBlock (m_consensus (new_CChainParams uninit k)) ! 27 \<noteq> sscanf_02x (np_genesisHash (GetParams n)) 8"
    using assms(1) by (cases n) (auto simp: g wallet_networks network_params sscanf_02x_def hex_digit_def)
  have d: "rev (map (\<lambda>i. sscanf_02x (np_genesisHash (GetParams n)) (2 * i)) [0..<32]) ! 31 = sscanf_02x (np_genesisHash (GetParams n)) 0"
    "rev (map (\<lambda>i. sscanf_02x (np_genesisHash (GetParams n)) (2 * i)) [0..<32]) ! 27 = sscanf_02x (np_genesisHash (GetParams n)) 8"
    by (simp_all add: rev_nth)
  have genesis: "hashGenesisBlock (m_consensus (new_CChainParams uninit k)) \<noteq> rev (map (\<lambda>i. sscanf_02x (np_genesisHash (GetParams n)) (2 * i)) [0..<32])"
    using h d by metis
  have "odd (length (np_genesisHash (GetParams Signet)))" by (simp add: wallet_networks)
  with genesis show ?thesis
    using assms(1) by (cases n) (auto simp: GetNetworkName_def GetDefaultPort_def GetDefaultRpcPort_def GetBech32Prefix_def wallet_networks network_params)
qed

theorem wallet_and_node_networks_differ_witness:
  "GetDefaultPort MainNet \<noteq> m_nDefaultPort (new_CChainParams (replicate 32 0) MAIN)"
  using wallet_and_node_networks_differ [of MainNet MAIN "replicate 32 0"] by simp

end
