(* ===== verification/Spec2Isabelle.thy ===== *)
theory Spec2Isabelle
  imports WithdrawalProofs HybridSig SelftestProofs MldsaMachine ChainParams Pow ProgPowEpochs WalletProofs WalletDb Layer2Proofs HardwareProofs WalletSigner
    PaymentProofs Restart Overview Options AddressPage NetworkConfig
begin

text \<open>
  This development verifies the C++ code of a post-quantum proof-of-work node (\<^verbatim>\<open>src/BHC\<close>) and of the desktop wallet
  that belongs to it (\<^verbatim>\<open>src/BHTWalletPro\<close>). The repository is a collection of components; each is modelled as it is
  written, defects included, and the theorems say what it guarantees and where it fails to do what it means to. Every
  definition that models code keeps the name of the code; a prefix or suffix tells apart names that two classes share.

  \<^bold>\<open>The program.\<close> The node side has a signature scheme (ML-DSA of FIPS 204, as a header of its own and as a
  wrapper of liboqs with a fallback), a validator of hybrid signatures, a validator of withdrawals from the second
  layer with Merkle proofs and an escape hatch, the parameters of the chain, the difficulty rules and the
  proof-of-work hash. The wallet side has a key store with encryption, word lists and files, a client of the second layer and a
  bridge built on it, a driver for hardware wallets, signers, and the logic behind the windows: the model of the two
  chains that calls their nodes, the address book, the forms for paying and for requesting payments, the history
  and its filter, the options, the client state, and the main window that ties them together. The validator of withdrawals uses the signature scheme and the digests; the bridge
  uses two clients; the forms and the main window use the wallet model, which uses the calls to the nodes; the pages use the tables.

  \<^bold>\<open>Shared theories.\<close> \<open>Prelude\<close> has the machine types, counting loops, C++ division, little-endian views and the
  lemmas on folds and list updates. \<open>StateMachine\<close> has runs of operations and two contracts, an invariant that
  operations keep and a log whose entries only advance; they are interpreted on the withdrawal validator, the bridge, the
  wallet, the wallet model, the options, the overview page and the main window. \<open>Codec\<close> is the contract of a fixed-width encoding, interpreted on integers, hexadecimal digests
  and packed polynomials. \<open>StdMap\<close> is \<^verbatim>\<open>std::map\<close> for a strict order, interpreted on the three orders of the wallet. \<open>CxxString\<close>
  has the searching and number conversions of \<^verbatim>\<open>std::string\<close>, \<open>Binary64\<close> the rounding of IEEE doubles.

  \<^bold>\<open>Node: signatures.\<close> \<open>MldsaShake\<close>, \<open>MldsaRing\<close>, \<open>MldsaRounding\<close>, \<open>MldsaSample\<close>, \<open>MldsaPack\<close> and \<open>MldsaScheme\<close> translate
  \<^verbatim>\<open>crypto/mldsa_fips204.h\<close> function by function. Shown: the permutation is Keccak-f and the class is the SHAKE
  sponge; the transform and its inverse multiply modulo \<open>X ^ 256 + 1\<close> (\<open>MldsaNtt\<close>, \<open>MldsaConv\<close>) and do so without
  overflow in 32 and 64 bits (\<open>MldsaMachine\<close>); keys, signatures and hints survive serialisation (\<open>MldsaCodec\<close>,
  \<open>MldsaHints\<close>); the verifier recomputes the commitment (\<open>MldsaCorrect\<close>) and accepts every signature produced
  (\<open>MldsaSignVerify\<close>). \<open>Selftest\<close> translates the standalone program \<^verbatim>\<open>tools/mldsa_fips204_selftest.cpp\<close> loop by loop; \<open>SelftestProofs\<close>
  shows that it computes what the header computes and what its tests can report. \<open>MldsaTypes\<close> and \<open>CMldsa\<close> model \<^verbatim>\<open>crypto/mldsa.{h,cpp}\<close>; liboqs is a parameter, and the build without it is
  shown never to return. \<open>HybridSig\<close> models \<^verbatim>\<open>script/hybrid_sig.cpp\<close>, with ECDSA as a parameter.

  \<^bold>\<open>Node: withdrawals.\<close> \<open>TypeBridge\<close> models \<^verbatim>\<open>type_bridge.h\<close>, \<open>Withdrawal\<close> models \<^verbatim>\<open>script/withdrawal_script.cpp\<close>: the epoch of
  pending withdrawals as a state with one function per operation. \<open>WithdrawalSafety\<close> shows that along any run a
  withdrawal is paid at most once, after its challenge period, and only when signed and anchored;
  \<open>WithdrawalProofs\<close> relates the Merkle proofs to hash trees and the parser to the layout of requests.

  \<^bold>\<open>Node: proof of work.\<close> \<open>ChainParams\<close>, \<open>Pow\<close>, \<open>Sha256\<close>, \<open>ProgPow\<close> and \<open>ProgPowEpochs\<close> model \<^verbatim>\<open>chainparams.cpp\<close>,
  \<^verbatim>\<open>pow.cpp\<close> and \<^verbatim>\<open>crypto/progpow.cpp\<close>, with 256-bit arithmetic as words and reads of uninitialised bytes as a parameter.
  The hash class is SHA-256; the clamped difficulty rule stays within the permitted transitions, the moving average is given
  in closed form, and the check of blocks is shown to depend on bytes that were never written.

  \<^bold>\<open>Wallet: keys and devices.\<close> \<open>Bip39\<close>, \<open>WalletTypes\<close>, \<open>Crypter\<close> and \<open>Wallet\<close> model \<^verbatim>\<open>wallet/\<close>, \<open>WalletProofs\<close> shows
  what holds in every reachable state; \<open>WalletDb\<close> has the database, which stores nothing. \<open>WalletSigner\<close> models \<^verbatim>\<open>crypto/mldsa_signer.cpp\<close>; \<open>HardwareWallet\<close> models the Windows branch of
  \<^verbatim>\<open>hardware/hardware_wallet.cpp\<close> over a parameter for the HID interface, \<open>HardwareProofs\<close> has the paths, addresses, packets and the
  device manager. \<open>Layer2Client\<close>, \<open>Layer2Bridge\<close> and \<open>Layer2Proofs\<close> treat \<^verbatim>\<open>layer2/layer2_client.cpp\<close>, with the answers of the node
  as a parameter.

  \<^bold>\<open>Wallet: windows.\<close> \<open>AddressTable\<close> (a refinement of a map), \<open>AddressPage\<close>, \<open>TransactionRecord\<close>, \<open>WalletRpc\<close>,
  \<open>WalletModel\<close> with \<open>WalletModelProofs\<close>, \<open>Amounts\<close>, \<open>PaymentForms\<close> with \<open>PaymentProofs\<close>, \<open>TransactionFilter\<close>, \<open>Options\<close>,
  \<open>ClientState\<close> and \<open>Overview\<close> model the files of \<^verbatim>\<open>qt/\<close>, \<open>NetworkConfig\<close> models \<^verbatim>\<open>config/networkconfig.cpp\<close>. A window is the content of its
  fields; an edit calls the slot that the code connects to it. Shown: what is posted to the nodes when
  coins are sent, that amounts lose at most one unit in conversions, that receiving addresses are readings of the clock,
  what the history and its filter show, that options survive a restart, that the shown progress is the time, and that the overview page loses its limit of five rows with the
  first synchronisation.

  \<^bold>\<open>Wallet: application.\<close> \<open>MainWindow\<close> models \<^verbatim>\<open>qt/bitcoingui.cpp\<close> and the start in \<^verbatim>\<open>qt/main.cpp\<close>: the workspaces the window builds and deletes,
  its pointers to them, the settings, the views of the chains and the buttons that reach the wallet model.
  \<open>MainWindowProofs\<close> runs the application, clicks, entries, payments and polls in any order over one wallet model: no pointer to a deleted
  widget is followed, and the window shows what the wallet model holds, except after payments. \<open>NodeTraffic\<close> shows that requests and
  credentials go only where the settings say, \<open>Restart\<close> that a new start finds language, mode, pages and endpoints as the last run left them.

  \<^bold>\<open>Errors, loops and bounds.\<close> Faults of C++ (an access out of bounds, an undefined shift, an uncaught exception) are values
  of a sum type or \<open>None\<close>. Loops over a counter are folds over index lists. Loops that may not end are partial
  functions into \<open>option\<close>, where \<open>None\<close> is not returning: the rejection loops of the sampler, the absorbing loop of the
  fallback hash, the digit loop of addresses, the packet loops of the Ledger protocol. Where a loop ends, that is
  proved; the rejection loops depend on the output of the sponge, so the theorem on signing names not returning as an outcome.
  No fuel is used.

  \<^bold>\<open>Not modelled.\<close> The drawing of windows, menus, icons and the tray, the translations, and the texts of the main window
  that never change. The unit tests (\<^verbatim>\<open>BHC/src/test\<close>). The Go and Solidity code of the second layer
  (\<^verbatim>\<open>BHTE\<close>), which is not C++. The database of the wallet is a stub in the source and is modelled as one; the branch of the hardware
  driver for other systems does not compile.

  \<^bold>\<open>Open.\<close> The dialog for receiving and the address pages are modelled by themselves; they are not events of the run of the application, where the code
  opens them over the same wallet model. That the sampling loops end depends on the output of SHAKE and is not proved.
\<close>

end
